(* ===== verification/Azm_Prelude.thy ===== *)
theory Azm_Prelude
  imports Main "HOL-Library.List_Lexorder" "HOL-Library.Char_ord"
begin

text \<open>
  Shared vocabulary of the development.
  \<^item> \<open>outcome\<close> is the result of a fallible operation on a database: the thrown error
    or the returned value, with the database as the operation left it at that moment.
    \<open>transaction\<close> adds the rollback of a Prisma interactive transaction: an operation
    that throws leaves only what other committed transactions did.
  \<^item> Tables are lists of row records. \<open>find_by\<close>, \<open>update_by\<close>, \<open>count_by\<close> and
    \<open>sum_rows\<close> are \<open>findUnique\<close>, \<open>updateMany\<close>, its \<open>count\<close> and an aggregate
    sum; a unique index is \<open>distinct (map key rows)\<close>.
  \<^item> Decimal digit strings: \<open>show_nat\<close> and \<open>read_nat\<close> with their round trip, and
    \<open>join_with\<close> (JavaScript's \<open>Array.join\<close> with a one-character separator) with its
    injectivity.
\<close>

named_theorems row_simps \<open>rewrite rules for table operations\<close>

type_synonym ('e, 'a, 's) outcome = "('e + 'a) \<times> 's"

section \<open>Transactions\<close>

definition transaction ::
  "('s \<Rightarrow> 's) \<Rightarrow> ('s \<Rightarrow> ('e, 'a, 's) outcome) \<Rightarrow> 's \<Rightarrow> ('e, 'a, 's) outcome" where
  "transaction env f s =
     (case f s of (Inl e, _) \<Rightarrow> (Inl e, env s) | (Inr a, s') \<Rightarrow> (Inr a, s'))"

lemma transaction_Inr [simp]: "transaction env f s = (Inr a, s') \<longleftrightarrow> f s = (Inr a, s')"
  by (auto simp: transaction_def split: prod.splits sum.splits)

lemma transaction_Inl: "transaction env f s = (Inl e, s') \<longleftrightarrow> fst (f s) = Inl e \<and> s' = env s"
  by (auto simp: transaction_def split: prod.splits sum.splits)

lemma transaction_snd:
  "snd (transaction env f s) = (case fst (f s) of Inl _ \<Rightarrow> env s | Inr _ \<Rightarrow> snd (f s))"
  by (auto simp: transaction_def split: prod.splits sum.splits)

lemma transaction_fst [simp]: "fst (transaction env f s) = fst (f s)"
  by (auto simp: transaction_def split: prod.splits sum.splits)

text \<open>Sequencing of statements that may throw.\<close>

definition and_then ::
  "('e, 'a, 's) outcome \<Rightarrow> ('a \<Rightarrow> 's \<Rightarrow> ('e, 'b, 's) outcome) \<Rightarrow> ('e, 'b, 's) outcome" where
  "and_then m f = (case m of (Inl e, s) \<Rightarrow> (Inl e, s) | (Inr a, s) \<Rightarrow> f a s)"

lemma and_then_simps [simp]: "and_then (Inl e, s) f = (Inl e, s)" "and_then (Inr a, s) f = f a s"
  by (simp_all add: and_then_def)

lemma and_then_Inr: "and_then m f = (Inr b, s') \<longleftrightarrow> (\<exists>a s1. m = (Inr a, s1) \<and> f a s1 = (Inr b, s'))"
  by (auto simp: and_then_def split: prod.splits sum.splits)

section \<open>Errors as sums\<close>

definition bind_sum :: "'e + 'a \<Rightarrow> ('a \<Rightarrow> 'e + 'b) \<Rightarrow> 'e + 'b" where
  "bind_sum m f = (case m of Inl e \<Rightarrow> Inl e | Inr a \<Rightarrow> f a)"

lemma bind_sum_simps [simp]: "bind_sum (Inl e) f = Inl e" "bind_sum (Inr a) f = f a"
  by (simp_all add: bind_sum_def)

lemma bind_sum_Inr [simp]: "bind_sum m f = Inr b \<longleftrightarrow> (\<exists>a. m = Inr a \<and> f a = Inr b)"
  by (cases m) simp_all

fun traverse_sum :: "('a \<Rightarrow> 'e + 'b) \<Rightarrow> 'a list \<Rightarrow> 'e + 'b list" where
  "traverse_sum f [] = Inr []"
| "traverse_sum f (x # xs) = bind_sum (f x) (\<lambda>y. bind_sum (traverse_sum f xs) (\<lambda>ys. Inr (y # ys)))"

lemma traverse_sum_Inr: "traverse_sum f xs = Inr ys \<longleftrightarrow> list_all2 (\<lambda>x y. f x = Inr y) xs ys"
  by (induction xs arbitrary: ys) (auto simp: list_all2_Cons1)

section \<open>Tables\<close>

definition find_by :: "('r \<Rightarrow> 'k) \<Rightarrow> 'k \<Rightarrow> 'r list \<Rightarrow> 'r option" where
  "find_by key k rows = find (\<lambda>r. key r = k) rows"

definition update_by :: "('r \<Rightarrow> bool) \<Rightarrow> ('r \<Rightarrow> 'r) \<Rightarrow> 'r list \<Rightarrow> 'r list" where
  "update_by P f rows = map (\<lambda>r. if P r then f r else r) rows"

definition count_by :: "('r \<Rightarrow> bool) \<Rightarrow> 'r list \<Rightarrow> nat" where
  "count_by P rows = length (filter P rows)"

definition sum_rows :: "('r \<Rightarrow> int) \<Rightarrow> 'r list \<Rightarrow> int" where
  "sum_rows v rows = sum_list (map v rows)"

lemma find_by_Nil [simp]: "find_by key k [] = None"
  by (simp add: find_by_def)

lemma find_by_Cons [simp]:
  "find_by key k (r # rows) = (if key r = k then Some r else find_by key k rows)"
  by (simp add: find_by_def)

lemma find_by_append [simp]:
  "find_by key k (xs @ ys) = (case find_by key k xs of None \<Rightarrow> find_by key k ys | Some r \<Rightarrow> Some r)"
  by (induction xs) auto

lemma find_by_Some: "find_by key k rows = Some r \<Longrightarrow> key r = k \<and> r \<in> set rows"
  by (induction rows) (auto split: if_splits)

lemma find_by_SomeD [dest]: "find_by key k rows = Some r \<Longrightarrow> key r = k"
  by (auto dest: find_by_Some)

lemma find_by_None: "find_by key k rows = None \<longleftrightarrow> k \<notin> key ` set rows"
  by (induction rows) auto

lemma find_by_distinct:
  "distinct (map key rows) \<Longrightarrow> find_by key k rows = Some r \<longleftrightarrow> r \<in> set rows \<and> key r = k"
  by (induction rows) (auto simp: image_iff)

lemma find_by_unique:
  "distinct (map key rows) \<Longrightarrow> find_by key k rows = Some r \<Longrightarrow> x \<in> set rows \<Longrightarrow> key x = k \<Longrightarrow> x = r"
  by (metis find_by_distinct option.inject)

lemma update_by_Nil [simp]: "update_by P f [] = []"
  by (simp add: update_by_def)

lemma update_by_Cons [simp]: "update_by P f (r # rows) = (if P r then f r else r) # update_by P f rows"
  by (simp add: update_by_def)

lemma map_key_update_by [simp]:
  "(\<And>r. key (f r) = key r) \<Longrightarrow> map key (update_by P f rows) = map key rows"
  by (induction rows) auto

lemma length_update_by [simp]: "length (update_by P f rows) = length rows"
  by (simp add: update_by_def)

lemma set_update_by: "set (update_by P f rows) = (\<lambda>r. if P r then f r else r) ` set rows"
  by (simp add: update_by_def)

lemma update_by_none: "(\<And>r. r \<in> set rows \<Longrightarrow> \<not> P r) \<Longrightarrow> update_by P f rows = rows"
  by (induction rows) auto

lemma find_by_update_by:
  assumes "\<And>r. key (f r) = key r"
  shows "find_by key k (update_by P f rows) =
    map_option (\<lambda>r. if P r then f r else r) (find_by key k rows)"
  using assms by (induction rows) auto

lemma count_by_Nil [simp]: "count_by P [] = 0"
  by (simp add: count_by_def)

lemma count_by_Cons [simp]: "count_by P (r # rows) = (if P r then Suc (count_by P rows) else count_by P rows)"
  by (simp add: count_by_def)

lemma count_by_key:
  assumes "distinct (map key rows)"
  shows "count_by (\<lambda>r. key r = k \<and> P r) rows =
    (case find_by key k rows of None \<Rightarrow> 0 | Some r \<Rightarrow> if P r then 1 else 0)"
  using assms
proof (induction rows)
  case (Cons a rows)
  then have "find_by key (key a) rows = None"
    by (simp add: find_by_None)
  moreover have "count_by (\<lambda>r. key r = key a \<and> P r) rows = 0"
    using Cons.prems by (auto simp: count_by_def filter_empty_conv image_iff)
  ultimately show ?case
    using Cons by auto
qed simp

lemma sum_rows_Nil [simp]: "sum_rows v [] = 0"
  by (simp add: sum_rows_def)

lemma sum_rows_Cons [simp]: "sum_rows v (r # rows) = v r + sum_rows v rows"
  by (simp add: sum_rows_def)

lemma sum_rows_append [simp]: "sum_rows v (xs @ ys) = sum_rows v xs + sum_rows v ys"
  by (simp add: sum_rows_def)

lemma sum_rows_nonneg: "(\<And>r. r \<in> set rows \<Longrightarrow> 0 \<le> v r) \<Longrightarrow> 0 \<le> sum_rows v rows"
  by (induction rows) auto

lemma sum_rows_ge_member:
  "(\<And>r. r \<in> set rows \<Longrightarrow> 0 \<le> v r) \<Longrightarrow> r \<in> set rows \<Longrightarrow> v r \<le> sum_rows v rows"
proof (induction rows)
  case (Cons a rows)
  then show ?case
    using sum_rows_nonneg [of rows v] by fastforce
qed simp

lemma sum_rows_cong: "(\<And>r. r \<in> set rows \<Longrightarrow> v r = w r) \<Longrightarrow> sum_rows v rows = sum_rows w rows"
  by (induction rows) auto

lemma sum_rows_update_by_same:
  "(\<And>r. P r \<Longrightarrow> v (f r) = v r) \<Longrightarrow> sum_rows v (update_by P f rows) = sum_rows v rows"
  by (induction rows) auto

text \<open>
  The workhorse of the conservation proofs: a conditional update addressed by a unique key
  changes an aggregate by the difference at the one row it hits, and by nothing when the
  condition fails there.
\<close>

lemma sum_rows_update_key:
  assumes "distinct (map key rows)" and "find_by key k rows = Some r"
  shows "sum_rows v (update_by (\<lambda>x. key x = k \<and> P x) f rows) =
    sum_rows v rows + (if P r then v (f r) - v r else 0)"
  using assms
proof (induction rows)
  case (Cons a rows)
  show ?case
  proof (cases "key a = k")
    case True
    with Cons.prems have "\<And>x. x \<in> set rows \<Longrightarrow> \<not> (key x = k \<and> P x)" and "r = a"
      by (auto simp: image_iff)
    with True show ?thesis by (simp add: update_by_none)
  next
    case False
    with Cons show ?thesis by simp
  qed
qed simp

lemma update_key_absent:
  "find_by key k rows = None \<Longrightarrow> update_by (\<lambda>x. key x = k \<and> P x) f rows = rows"
  by (rule update_by_none) (auto simp: find_by_None)

lemma update_key_blocked:
  assumes "distinct (map key rows)" and "find_by key k rows = Some r" and "\<not> P r"
  shows "update_by (\<lambda>x. key x = k \<and> P x) f rows = rows"
  using assms by (intro update_by_none) (metis find_by_distinct option.inject)

lemmas table_simps [row_simps] =
  find_by_update_by sum_rows_update_by_same map_key_update_by length_update_by

text \<open>Facts about a table that a history of conditional updates keeps: every row persists under
  its key, up to a transitive change.\<close>

definition rows_evolve :: "('r \<Rightarrow> 'k) \<Rightarrow> ('r \<Rightarrow> 'r \<Rightarrow> bool) \<Rightarrow> 'r list \<Rightarrow> 'r list \<Rightarrow> bool" where
  "rows_evolve key R xs ys \<longleftrightarrow>
     (\<forall>k x. find_by key k xs = Some x \<longrightarrow> (\<exists>y. find_by key k ys = Some y \<and> R x y))"

lemma rows_evolveD:
  "rows_evolve key R xs ys \<Longrightarrow> find_by key k xs = Some x \<Longrightarrow> \<exists>y. find_by key k ys = Some y \<and> R x y"
  by (simp add: rows_evolve_def)

lemma rows_evolve_refl: "(\<And>x. R x x) \<Longrightarrow> rows_evolve key R xs xs"
  by (simp add: rows_evolve_def)

lemma rows_evolve_trans:
  "transp R \<Longrightarrow> rows_evolve key R xs ys \<Longrightarrow> rows_evolve key R ys zs \<Longrightarrow> rows_evolve key R xs zs"
  unfolding rows_evolve_def by (meson transpD)

lemma rows_evolve_append: "(\<And>x. R x x) \<Longrightarrow> rows_evolve key R xs (xs @ ys)"
  by (auto simp: rows_evolve_def)

lemma rows_evolve_update:
  "(\<And>r. key (f r) = key r) \<Longrightarrow> (\<And>r. R r r) \<Longrightarrow> (\<And>r. P r \<Longrightarrow> R r (f r)) \<Longrightarrow> rows_evolve key R xs (update_by P f xs)"
  by (auto simp: rows_evolve_def find_by_update_by)

text \<open>\<open>COALESCE\<close> of two nullable columns.\<close>

definition coalesce :: "'a option \<Rightarrow> 'a option \<Rightarrow> 'a option" where
  "coalesce x y = (case x of None \<Rightarrow> y | Some _ \<Rightarrow> x)"

lemma coalesce_simps [simp]: "coalesce None y = y" "coalesce (Some a) y = Some a"
  by (simp_all add: coalesce_def)

section \<open>Decimal digit strings\<close>

definition is_digit :: "char \<Rightarrow> bool" where
  "is_digit c \<longleftrightarrow> (48::nat) \<le> of_char c \<and> of_char c \<le> (57::nat)"

definition digit_char :: "nat \<Rightarrow> char" where
  "digit_char d = char_of (48 + d)"

definition digit_val :: "char \<Rightarrow> nat" where
  "digit_val c = of_char c - 48"

fun show_nat :: "nat \<Rightarrow> string" where
  "show_nat n = (if n < 10 then [digit_char n] else show_nat (n div 10) @ [digit_char (n mod 10)])"

declare show_nat.simps [simp del]

definition read_nat :: "string \<Rightarrow> nat" where
  "read_nat s = foldl (\<lambda>a c. 10 * a + digit_val c) 0 s"

lemma digit_val_char [simp]: "d < 10 \<Longrightarrow> digit_val (digit_char d) = d"
  by (simp add: digit_val_def digit_char_def)

lemma is_digit_char [simp]: "d < 10 \<Longrightarrow> is_digit (digit_char d)"
  by (simp add: is_digit_def digit_char_def)

lemma read_nat_snoc [simp]: "read_nat (s @ [c]) = 10 * read_nat s + digit_val c"
  by (simp add: read_nat_def)

lemma read_nat_Nil [simp]: "read_nat [] = 0"
  by (simp add: read_nat_def)

lemma read_show_nat [simp]: "read_nat (show_nat n) = n"
proof (induction n rule: show_nat.induct)
  case (1 n)
  show ?case
  proof (cases "n < 10")
    case True
    then show ?thesis
      using read_nat_snoc [of "[]" "digit_char n"] by (simp add: show_nat.simps)
  next
    case False
    with "1" show ?thesis by (simp add: show_nat.simps [of n])
  qed
qed

lemma show_nat_inject [simp]: "show_nat m = show_nat n \<longleftrightarrow> m = n"
  by (metis read_show_nat)

lemma show_nat_digits: "c \<in> set (show_nat n) \<Longrightarrow> is_digit c"
proof (induction n rule: show_nat.induct)
  case (1 n)
  then show ?case
    by (cases "n < 10") (auto simp: show_nat.simps [of n])
qed

lemma show_nat_not_Nil [simp]: "show_nat n \<noteq> []"
  by (simp add: show_nat.simps)

section \<open>Strings between two fixed affixes\<close>

definition between :: "string \<Rightarrow> string \<Rightarrow> string \<Rightarrow> string option" where
  "between pre suf s =
     (if length pre + length suf \<le> length s \<and> take (length pre) s = pre \<and>
         drop (length s - length suf) s = suf
      then Some (take (length s - length pre - length suf) (drop (length pre) s)) else None)"

lemma between_Some: "between pre suf s = Some m \<longleftrightarrow> s = pre @ m @ suf"
proof
  assume *: "between pre suf s = Some m"
  then have pre: "take (length pre) s = pre" and suf: "drop (length s - length suf) s = suf"
    and len: "length pre + length suf \<le> length s"
    and m: "m = take (length s - length pre - length suf) (drop (length pre) s)"
    by (auto simp: between_def split: if_splits)
  have "s = take (length pre) s @ drop (length pre) s" by simp
  also have "drop (length pre) s = m @ drop (length s - length pre - length suf) (drop (length pre) s)"
    by (simp only: m append_take_drop_id)
  also have "drop (length s - length pre - length suf) (drop (length pre) s) = suf"
    using suf len by simp
  finally show "s = pre @ m @ suf" using pre by simp
qed (simp add: between_def)

section \<open>Joining strings\<close>

fun join_with :: "char \<Rightarrow> string list \<Rightarrow> string" where
  "join_with c [] = []"
| "join_with c [x] = x"
| "join_with c (x # y # xs) = x @ [c] @ join_with c (y # xs)"

lemma append_sep_inject:
  assumes "c \<notin> set x" and "c \<notin> set y" and "x @ [c] @ u = y @ [c] @ v"
  shows "x = y \<and> u = v"
  using assms
proof (induction x arbitrary: y)
  case Nil
  then show ?case by (cases y) auto
next
  case (Cons a x)
  then show ?case by (cases y) auto
qed

lemma append_sep_not_in: "c \<notin> set x \<Longrightarrow> x \<noteq> y @ [c] @ u"
  by auto

lemma join_with_inject:
  assumes "join_with c xs = join_with c ys"
    and "\<And>x. x \<in> set xs \<Longrightarrow> c \<notin> set x" and "\<And>y. y \<in> set ys \<Longrightarrow> c \<notin> set y"
    and "xs \<noteq> []" and "ys \<noteq> []"
  shows "xs = ys"
  using assms
proof (induction c xs arbitrary: ys rule: join_with.induct)
  case (1 c)
  then show ?case by simp
next
  case (2 c x)
  obtain y ys' where "ys = y # ys'" using "2.prems"(5) by (cases ys) auto
  with "2" show ?case by (cases ys') auto
next
  case (3 c x x' xs)
  obtain y ys' where ys: "ys = y # ys'" using "3.prems"(5) by (cases ys) auto
  show ?case
  proof (cases ys')
    case Nil
    then show ?thesis using "3.prems"(1,3) ys by auto
  next
    case (Cons y' ys'')
    have eq: "x @ [c] @ join_with c (x' # xs) = y @ [c] @ join_with c (y' # ys'')"
      using "3.prems"(1) ys Cons by simp
    have "c \<notin> set x" and "c \<notin> set y"
      using "3.prems"(2,3) ys by simp_all
    from append_sep_inject [OF this eq]
    have "x = y" and "join_with c (x' # xs) = join_with c (y' # ys'')"
      by simp_all
    moreover from this(2) have "x' # xs = y' # ys''"
      using "3.prems"(2,3) ys Cons by (intro "3.IH") auto
    ultimately show ?thesis using ys Cons by simp
  qed
qed

end
