(* ===== verification/Exact_Quantity.thy ===== *)
theory Exact_Quantity
  imports Azm_Prelude Complex_Main
begin

text \<open>
  Monetary quantities at the boundary of the services.

  A JavaScript value that reaches a service is a \<open>js_value\<close>: a \<open>Prisma.Decimal\<close>, a
  string, a number, a bigint, null/undefined, or anything else (with its \<open>String(_)\<close>
  form). A finite number is kept as the sign, digits and exponent of its shortest
  round-trip decimal, which is all that \<open>String(value)\<close>, \<open>value < 0\<close> and
  \<open>Number.isSafeInteger\<close> depend on. A finite Decimal is a sign, a coefficient and a number of
  decimal places.

  \<open>toExactDecimal\<close> (\<^verbatim>\<open>services/ledgerService.js\<close>) and \<open>toExactGhsDecimal\<close>
  (\<^verbatim>\<open>src/services/fiatLiquidityService.js\<close>) return the accepted quantity as an integer
  number of \<open>10\<^sup>-\<^sup>8\<close> units and of pesewas. The string parser inside
  \<open>new Prisma.Decimal(_)\<close> belongs to a third-party package, so \<open>toExactGhsDecimal\<close>
  takes it as the parameter \<open>parse\<close>; \<open>toExactDecimal\<close> hands it plain digit literals
  only, whose value is \<open>literal_units\<close>.
\<close>

section \<open>JavaScript values\<close>

datatype decimal = DecNaN | DecInf bool | Dec bool nat nat

datatype js_num = NNaN | NInf bool | NFin bool nat int

datatype js_value =
    JDec decimal
  | JStr string
  | JNum js_num
  | JBig int
  | JNull
  | JOther string

text \<open>\<open>normal_dec\<close> strips trailing zeros, as decimal.js stores its values: the second
  component is \<open>decimalPlaces()\<close>.\<close>

fun normal_dec :: "nat \<Rightarrow> nat \<Rightarrow> nat \<times> nat" where
  "normal_dec c 0 = (c, 0)"
| "normal_dec c (Suc k) = (if c mod 10 = 0 then normal_dec (c div 10) k else (c, Suc k))"

lemma normal_dec_numeral [simp]:
  "normal_dec c (numeral k) =
     (if c mod 10 = 0 then normal_dec (c div 10) (pred_numeral k) else (c, numeral k))"
  using normal_dec.simps(2) [of c "pred_numeral k"] by (simp only: numeral_eq_Suc [symmetric])

definition js_space :: "char \<Rightarrow> bool" where
  "js_space c \<longleftrightarrow> (of_char c :: nat) \<in> {9, 10, 11, 12, 13, 32, 160}"

definition js_trim :: "string \<Rightarrow> string" where
  "js_trim s = rev (dropWhile js_space (rev (dropWhile js_space s)))"

text \<open>\<open>Number::toString\<close> of the language: plain digits up to 21 places, a leading
  \<open>0.\<close> down to \<open>10\<^sup>-\<^sup>6\<close>, an exponent otherwise.\<close>

definition num_to_string :: "js_num \<Rightarrow> string" where
  "num_to_string x =
     (case x of
        NNaN \<Rightarrow> ''NaN''
      | NInf s \<Rightarrow> (if s then ''-Infinity'' else ''Infinity'')
      | NFin s m e \<Rightarrow>
          (if m = 0 then ''0'' else
           (if s then ''-'' else '''') @
           (let ds = show_nat m; k = int (length ds); n = e + k in
            if k \<le> n \<and> n \<le> 21 then ds @ replicate (nat e) (CHR ''0'')
            else if 0 < n \<and> n \<le> 21 then take (nat n) ds @ ''.'' @ drop (nat n) ds
            else if -6 < n \<and> n \<le> 0 then ''0.'' @ replicate (nat (-n)) (CHR ''0'') @ ds
            else (if k = 1 then ds else take 1 ds @ ''.'' @ drop 1 ds) @ ''e'' @
                 (if n - 1 < 0 then ''-'' else ''+'') @ show_nat (nat \<bar>n - 1\<bar>))))"

definition js_to_string :: "js_value \<Rightarrow> string" where
  "js_to_string v =
     (case v of
        JStr s \<Rightarrow> s
      | JNum x \<Rightarrow> num_to_string x
      | JBig i \<Rightarrow> (if i < 0 then ''-'' else '''') @ show_nat (nat \<bar>i\<bar>)
      | JNull \<Rightarrow> ''null''
      | JOther s \<Rightarrow> s
      | JDec d \<Rightarrow> '''')"

section \<open>Exact decimal literals\<close>

text \<open>\<open>EXACT_DECIMAL_RE\<close>, that is \<^verbatim>\<open>^\d+(\.\d{1,8})?$\<close>, and the value of a literal it
  accepts, in \<open>10\<^sup>-\<^sup>8\<close> units.\<close>

definition EXACT_DECIMAL_RE :: "string \<Rightarrow> bool" where
  "EXACT_DECIMAL_RE s \<longleftrightarrow>
     (let ip = takeWhile is_digit s; rest = dropWhile is_digit s in
      ip \<noteq> [] \<and>
      (case rest of
         [] \<Rightarrow> True
       | c # fp \<Rightarrow> c = CHR ''.'' \<and> 1 \<le> length fp \<and> length fp \<le> 8 \<and> list_all is_digit fp))"

definition literal_units :: "string \<Rightarrow> nat" where
  "literal_units s =
     (let ip = takeWhile is_digit s; fp = tl (dropWhile is_digit s) in
      read_nat ip * 10 ^ 8 + read_nat fp * 10 ^ (8 - length fp))"

definition toFixed8 :: "nat \<Rightarrow> string" where
  "toFixed8 n =
     (let f = show_nat (n mod 10 ^ 8) in
      show_nat (n div 10 ^ 8) @ ''.'' @ replicate (8 - length f) (CHR ''0'') @ f)"

section \<open>The ledger's exact quantities\<close>

datatype ledger_error =
    LEDGER_INEXACT_QUANTITY
  | LEDGER_NEGATIVE_QUANTITY
  | LEDGER_UNKNOWN_ACCOUNT
  | LEDGER_ACCOUNT_CONTENTION
  | LEDGER_ACCOUNT_IDENTITY_CONFLICT
  | LEDGER_TX_REQUIRED
  | LEDGER_IDEMPOTENCY_KEY_REQUIRED
  | LEDGER_INVALID_ENTRY_TYPE
  | LEDGER_DESCRIPTION_REQUIRED
  | LEDGER_MIN_LINES
  | LEDGER_ZERO_LINE
  | LEDGER_BOTH_SIDES
  | LEDGER_CONVERSION_CONTEXT_REQUIRED
  | LEDGER_CONVERSION_ENTRY_TYPE_REQUIRED
  | LEDGER_CONVERSION_INVALID
  | LEDGER_CROSS_ASSET_BALANCE
  | LEDGER_CONVERSION_SINGLE_ASSET
  | LEDGER_CONVERSION_LEG_UNBALANCED
  | LEDGER_ZERO_POSTING
  | LEDGER_UNBALANCED
  | LEDGER_CONVERSION_IDENTITY_CONFLICT
  | LEDGER_IDEMPOTENCY_CONFLICT
  | DB_UNIQUE_VIOLATION

definition max_safe_integer :: nat where
  "max_safe_integer = 2 ^ 53 - 1"

fun toExactDecimal :: "js_value \<Rightarrow> ledger_error + nat" where
  "toExactDecimal (JDec (Dec neg c k)) =
     (if neg then Inl LEDGER_NEGATIVE_QUANTITY
      else let (c', k') = normal_dec c k in
           if k' > 8 then Inl LEDGER_INEXACT_QUANTITY else Inr (c' * 10 ^ (8 - k')))"
| "toExactDecimal (JDec _) = Inl LEDGER_INEXACT_QUANTITY"
| "toExactDecimal (JStr s) =
     (let trimmed = js_trim s in
      if EXACT_DECIMAL_RE trimmed then Inr (literal_units trimmed)
      else Inl LEDGER_INEXACT_QUANTITY)"
| "toExactDecimal (JNum (NFin neg m e)) =
     (if neg \<and> m \<noteq> 0 then Inl LEDGER_NEGATIVE_QUANTITY
      else if m = 0 then Inr 0
      else if 0 \<le> e \<and> m * 10 ^ nat e \<le> max_safe_integer then Inr (m * 10 ^ nat e * 10 ^ 8)
      else let s = num_to_string (NFin neg m e) in
           if EXACT_DECIMAL_RE s then Inr (literal_units s) else Inl LEDGER_INEXACT_QUANTITY)"
| "toExactDecimal (JNum _) = Inl LEDGER_INEXACT_QUANTITY"
| "toExactDecimal (JBig i) =
     (if i < 0 then Inl LEDGER_NEGATIVE_QUANTITY else Inr (nat i * 10 ^ 8))"
| "toExactDecimal JNull = Inl LEDGER_INEXACT_QUANTITY"
| "toExactDecimal (JOther _) = Inl LEDGER_INEXACT_QUANTITY"

section \<open>Exact GHS quantities\<close>

datatype ghs_invalid = NotFiniteDecimal | NotPositive | SubPesewa

definition ghs_of_decimal :: "decimal \<Rightarrow> ghs_invalid + int" where
  "ghs_of_decimal d =
     (case d of
        Dec neg c k \<Rightarrow>
          (if neg \<or> c = 0 then Inl NotPositive
           else let (c', k') = normal_dec c k in
                if k' > 2 then Inl SubPesewa else Inr (int (c' * 10 ^ (2 - k'))))
      | _ \<Rightarrow> Inl NotPositive)"

definition toExactGhsDecimal :: "(string \<Rightarrow> decimal option) \<Rightarrow> js_value \<Rightarrow> ghs_invalid + int" where
  "toExactGhsDecimal parse v =
     (case v of
        JDec d \<Rightarrow> ghs_of_decimal d
      | _ \<Rightarrow> (case parse (js_to_string v) of
                None \<Rightarrow> Inl NotFiniteDecimal
              | Some d \<Rightarrow> ghs_of_decimal d))"

section \<open>What the accepted quantities denote\<close>

text \<open>The rational number a finite value stands for; \<open>js_rat\<close> is the reference
  meaning against which \<open>toExactDecimal\<close> is exact.\<close>

definition dec_rat :: "decimal \<Rightarrow> rat option" where
  "dec_rat d = (case d of Dec s c k \<Rightarrow> Some ((if s then -1 else 1) * of_nat c / 10 ^ k) | _ \<Rightarrow> None)"

definition pow10 :: "int \<Rightarrow> rat" where
  "pow10 e = (if 0 \<le> e then 10 ^ nat e else 1 / 10 ^ nat (- e))"

definition num_rat :: "js_num \<Rightarrow> rat option" where
  "num_rat x = (case x of NFin s m e \<Rightarrow> Some ((if s then -1 else 1) * of_nat m * pow10 e) | _ \<Rightarrow> None)"

lemma normal_dec_value:
  "normal_dec c k = (c', k') \<Longrightarrow> k' \<le> k \<and> c = c' * 10 ^ (k - k')"
proof (induction c k arbitrary: c' k' rule: normal_dec.induct)
  case (2 c k)
  show ?case
  proof (cases "c mod 10 = 0")
    case True
    with "2.prems" have "normal_dec (c div 10) k = (c', k')" by simp
    with "2.IH" [OF True] have "k' \<le> k" and "c div 10 = c' * 10 ^ (k - k')" by auto
    moreover from True have "c = 10 * (c div 10)" by auto
    ultimately show ?thesis by (simp add: Suc_diff_le algebra_simps)
  next
    case False
    with "2.prems" show ?thesis by auto
  qed
qed auto

lemma scaled_fraction:
  assumes "k' \<le> k"
  shows "(of_nat (c * 10 ^ (k - k')) :: rat) / 10 ^ k = of_nat c / 10 ^ k'"
proof -
  have "(10::rat) ^ k = 10 ^ k' * 10 ^ (k - k')"
    using assms by (simp add: power_add [symmetric])
  then show ?thesis by simp
qed

lemma normal_dec_rat:
  assumes "normal_dec c k = (c', k')" and "k' \<le> w"
  shows "(of_nat c :: rat) / 10 ^ k = of_nat (c' * 10 ^ (w - k')) / 10 ^ w"
  using normal_dec_value [OF assms(1)] assms(2) scaled_fraction by metis

lemma read_nat_append: "read_nat (a @ b) = read_nat a * 10 ^ length b + read_nat b"
proof (induction b rule: rev_induct)
  case (snoc c b)
  then show ?case
    using read_nat_snoc [of "a @ b" c] by (simp add: algebra_simps)
qed simp

lemma read_nat_zeros [simp]: "read_nat (replicate n (CHR ''0'')) = 0"
proof (induction n)
  case (Suc n)
  have "replicate (Suc n) (CHR ''0'') = replicate n (CHR ''0'') @ [CHR ''0'']"
    by (simp add: replicate_append_same)
  with Suc show ?case by (simp add: digit_val_def del: replicate_Suc)
qed simp

lemma is_digit_zero [simp]: "is_digit (CHR ''0'')"
  by (simp add: is_digit_def)

lemma not_digit_dot [simp]: "\<not> is_digit (CHR ''.'')"
  by (simp add: is_digit_def)

lemma takeWhile_digits:
  assumes "list_all is_digit ds" and "rest = [] \<or> \<not> is_digit (hd rest)"
  shows "takeWhile is_digit (ds @ rest) = ds \<and> dropWhile is_digit (ds @ rest) = rest"
  using assms by (induction ds) (cases rest; auto)+

lemma list_all_show_nat [simp]: "list_all is_digit (show_nat n)"
  by (auto simp: list_all_iff show_nat_digits)

text \<open>A literal split at its point: what the regular expression accepts and what it is worth.\<close>

lemma literal_point:
  assumes "list_all is_digit ip" and "ip \<noteq> []" and "list_all is_digit fp"
  shows "EXACT_DECIMAL_RE (ip @ ''.'' @ fp) \<longleftrightarrow> 1 \<le> length fp \<and> length fp \<le> 8"
    and "literal_units (ip @ ''.'' @ fp) = read_nat ip * 10 ^ 8 + read_nat fp * 10 ^ (8 - length fp)"
  using takeWhile_digits [OF assms(1), of "''.'' @ fp"] assms
  by (simp_all add: EXACT_DECIMAL_RE_def literal_units_def Let_def)

lemma literal_whole:
  assumes "list_all is_digit ip" and "ip \<noteq> []"
  shows "EXACT_DECIMAL_RE ip" and "literal_units ip = read_nat ip * 10 ^ 8"
proof -
  have tw: "takeWhile is_digit ip = ip" and dw: "dropWhile is_digit ip = []"
    using assms(1) by (simp_all add: list_all_iff takeWhile_eq_all_conv dropWhile_eq_Nil_conv)
  show "EXACT_DECIMAL_RE ip" and "literal_units ip = read_nat ip * 10 ^ 8"
    using assms(2) by (simp_all add: EXACT_DECIMAL_RE_def literal_units_def tw dw Let_def
        del: takeWhile_eq_all_conv dropWhile_eq_Nil_conv)
qed

lemma dropWhile_space_digits:
  "list_all (\<lambda>c. \<not> js_space c) s \<Longrightarrow> js_trim s = s"
proof -
  assume "list_all (\<lambda>c. \<not> js_space c) s"
  then have *: "\<And>x. x \<in> set s \<Longrightarrow> \<not> js_space x" by (simp add: list_all_iff)
  then have "dropWhile js_space s = s" by (cases s) auto
  moreover have "dropWhile js_space (rev s) = rev s"
    using * by (cases s rule: rev_cases) auto
  ultimately show ?thesis by (simp add: js_trim_def)
qed

lemma digit_not_space: "is_digit c \<Longrightarrow> \<not> js_space c"
  by (auto simp: is_digit_def js_space_def)

lemma dot_not_space [simp]: "\<not> js_space (CHR ''.'')"
  by (simp add: js_space_def)

lemma length_show_nat: "n < 10 ^ w \<Longrightarrow> 0 < w \<Longrightarrow> length (show_nat n) \<le> w"
proof (induction n arbitrary: w rule: show_nat.induct)
  case (1 n)
  show ?case
  proof (cases "n < 10")
    case True
    with "1.prems" show ?thesis by (simp add: show_nat.simps [of n])
  next
    case False
    then obtain w' where w: "w = Suc w'" and "0 < w'"
      using "1.prems" by (cases w; cases "w - 1") auto
    with "1.prems" have "n div 10 < 10 ^ w'" by (simp add: less_mult_imp_div_less)
    with "1.IH" False \<open>0 < w'\<close> have "length (show_nat (n div 10)) \<le> w'" by blast
    with False w show ?thesis by (simp add: show_nat.simps [of n])
  qed
qed

lemma toFixed8_literal: "EXACT_DECIMAL_RE (toFixed8 n) \<and> literal_units (toFixed8 n) = n"
proof -
  let ?f = "show_nat (n mod 10 ^ 8)"
  let ?fp = "replicate (8 - length ?f) (CHR ''0'') @ ?f"
  have len: "length ?f \<le> 8" by (rule length_show_nat) auto
  have "list_all is_digit ?fp" by (auto simp: list_all_iff show_nat_digits)
  note lit = literal_point [OF list_all_show_nat [of "n div 10 ^ 8"] _ this]
  have "read_nat ?fp = n mod 10 ^ 8" by (simp add: read_nat_append)
  with lit(2) len have "literal_units (toFixed8 n) = n div 10 ^ 8 * 10 ^ 8 + n mod 10 ^ 8"
    by (simp add: toFixed8_def Let_def)
  then show ?thesis using lit(1) len by (simp add: toFixed8_def Let_def)
qed

lemma toFixed8_chars: "c \<in> set (toFixed8 n) \<Longrightarrow> is_digit c \<or> c = CHR ''.''"
  by (auto simp: toFixed8_def Let_def show_nat_digits)

lemma toFixed8_trim [simp]: "js_trim (toFixed8 n) = toFixed8 n"
  by (rule dropWhile_space_digits) (auto simp: list_all_iff dest!: toFixed8_chars digit_not_space)

lemma toFixed8_inject [simp]: "toFixed8 m = toFixed8 n \<longleftrightarrow> m = n"
  by (metis toFixed8_literal)

lemma toExactDecimal_toFixed8 [simp]: "toExactDecimal (JStr (toFixed8 n)) = Inr n"
  by (simp add: toFixed8_literal)

lemma normal_dec_minimal: "normal_dec c k = (c', k') \<Longrightarrow> k' = 0 \<or> c' mod 10 \<noteq> 0"
  by (induction c k arbitrary: c' k' rule: normal_dec.induct) (auto split: if_splits)

text \<open>A Decimal is accepted exactly when it is not negative and is a whole number of units.\<close>

lemma toExactDecimal_Dec_iff:
  "toExactDecimal (JDec (Dec neg c k)) = Inr n \<longleftrightarrow> \<not> neg \<and> (of_nat c :: rat) / 10 ^ k = of_nat n / 10 ^ 8"
proof -
  obtain c' k' where nd: "normal_dec c k = (c', k')" by fastforce
  show ?thesis
  proof (cases "k' \<le> 8")
    case True
    have "(of_nat c :: rat) / 10 ^ k = of_nat (c' * 10 ^ (8 - k')) / 10 ^ 8"
      by (rule normal_dec_rat [OF nd True])
    then have "(of_nat c :: rat) / 10 ^ k = of_nat n / 10 ^ 8 \<longleftrightarrow> c' * 10 ^ (8 - k') = n"
      by (metis (no_types, lifting) divide_cancel_right of_nat_eq_iff power_not_zero zero_neq_numeral)
    then show ?thesis using nd True by auto
  next
    case False
    have "(of_nat c :: rat) / 10 ^ k \<noteq> of_nat n / 10 ^ 8"
    proof
      assume eq: "(of_nat c :: rat) / 10 ^ k = of_nat n / 10 ^ 8"
      have "(of_nat c :: rat) / 10 ^ k = of_nat c' / 10 ^ k'"
        using normal_dec_rat [OF nd order.refl] by simp
      with eq have "(of_nat c' :: rat) * 10 ^ 8 = of_nat n * 10 ^ k'"
        by (simp add: field_simps)
      then have "(of_nat (c' * 10 ^ 8) :: rat) = of_nat (n * 10 ^ k')" by simp
      then have "c' * 10 ^ 8 = n * 10 ^ k'" by (simp only: of_nat_eq_iff)
      moreover obtain j where "k' = 9 + j"
        using False le_Suc_ex [of 9 k'] by auto
      ultimately have "c' = n * 10 ^ j * 10" by (simp add: power_add)
      then have "c' mod 10 = 0" by simp
      with normal_dec_minimal [OF nd] False show False by simp
    qed
    then show ?thesis using nd False by auto
  qed
qed

text \<open>The decimal expansion of a number, in the three plain shapes of its string.\<close>

lemma take_drop_show_nat:
  "read_nat (take n (show_nat m)) * 10 ^ (length (show_nat m) - n) + read_nat (drop n (show_nat m)) = m"
  using read_nat_append [of "take n (show_nat m)" "drop n (show_nat m)"] by simp

lemma units_rat: "0 \<le> 8 + e \<Longrightarrow> e < 0 \<Longrightarrow> (of_nat m :: rat) * pow10 e = of_nat (m * 10 ^ nat (8 + e)) / 10 ^ 8"
proof -
  assume "0 \<le> 8 + e" and "e < 0"
  then have "nat (8 + e) = 8 - nat (- e)" and "nat (- e) \<le> 8" by auto
  then show ?thesis
    using scaled_fraction [of "nat (- e)" 8 m] \<open>e < 0\<close> by (simp add: pow10_def)
qed

lemma show_parts:
  "list_all is_digit (take i (show_nat m))" "list_all is_digit (drop i (show_nat m))"
  by (auto simp: list_all_iff show_nat_digits dest!: in_set_takeD in_set_dropD)

lemma no_exponent_literal:
  "\<not> EXACT_DECIMAL_RE ((if b then show_nat m else take 1 (show_nat m) @ ''.'' @ drop 1 (show_nat m)) @ ''e'' @ t)"
proof (cases b)
  case True
  then show ?thesis
    using takeWhile_digits [OF list_all_show_nat, of "''e'' @ t" m]
    by (simp add: EXACT_DECIMAL_RE_def Let_def is_digit_def)
next
  case False
  then show ?thesis
    using takeWhile_digits [OF show_parts(1) [of 1 m], of "''.'' @ drop 1 (show_nat m) @ ''e'' @ t"]
    by (simp add: EXACT_DECIMAL_RE_def Let_def is_digit_def)
qed

lemma whole_string_units:
  "0 \<le> e \<Longrightarrow> (of_nat m :: rat) * pow10 e =
    of_nat (literal_units (show_nat m @ replicate (nat e) (CHR ''0''))) / 10 ^ 8"
proof -
  assume "0 \<le> e"
  have "list_all is_digit (show_nat m @ replicate (nat e) (CHR ''0''))"
    by (auto simp: list_all_iff show_nat_digits)
  from literal_whole(2) [OF this] \<open>0 \<le> e\<close> show ?thesis
    by (simp add: read_nat_append pow10_def)
qed

lemma fraction_units:
  assumes "list_all is_digit ip" "ip \<noteq> []" "list_all is_digit fp" "EXACT_DECIMAL_RE (ip @ ''.'' @ fp)"
    and "length fp = nat (- e)" "e < 0" "read_nat ip * 10 ^ length fp + read_nat fp = m"
  shows "(of_nat m :: rat) * pow10 e = of_nat (literal_units (ip @ ''.'' @ fp)) / 10 ^ 8"
proof -
  note lit = literal_point [OF assms(1-3)]
  have "nat (- e) \<le> 8" using assms(4,5) lit(1) by simp
  then have e8: "0 \<le> 8 + e" and sub: "nat (8 + e) = 8 - nat (- e)" using assms(6) by auto
  have "(10::nat) ^ 8 = 10 ^ nat (- e) * 10 ^ (8 - nat (- e))"
    using \<open>nat (- e) \<le> 8\<close> by (simp only: power_add [symmetric]) simp
  moreover have "m * 10 ^ (8 - nat (- e)) =
      read_nat ip * (10 ^ nat (- e) * 10 ^ (8 - nat (- e))) + read_nat fp * 10 ^ (8 - nat (- e))"
    using assms(5,7) by (auto simp: algebra_simps)
  ultimately have "literal_units (ip @ ''.'' @ fp) = m * 10 ^ nat (8 + e)"
    by (simp only: lit(2) assms(5) sub)
  then show ?thesis using units_rat [OF e8 assms(6)] by simp
qed

lemma num_string_units:
  assumes "m \<noteq> 0" and re: "EXACT_DECIMAL_RE (num_to_string (NFin False m e))"
  shows "(of_nat m :: rat) * pow10 e = of_nat (literal_units (num_to_string (NFin False m e))) / 10 ^ 8"
proof -
  define ds where "ds = show_nat m"
  define n where "n = e + int (length ds)"
  have ds: "ds \<noteq> []" "read_nat ds = m" by (simp_all add: ds_def)
  have str: "num_to_string (NFin False m e) =
      (if int (length ds) \<le> n \<and> n \<le> 21 then ds @ replicate (nat e) (CHR ''0'')
       else if 0 < n \<and> n \<le> 21 then take (nat n) ds @ ''.'' @ drop (nat n) ds
       else if -6 < n \<and> n \<le> 0 then ''0'' @ ''.'' @ replicate (nat (-n)) (CHR ''0'') @ ds
       else (if int (length ds) = 1 then ds else take 1 ds @ ''.'' @ drop 1 ds) @ ''e'' @
            (if n - 1 < 0 then ''-'' else ''+'') @ show_nat (nat \<bar>n - 1\<bar>))"
    using assms(1) by (simp add: num_to_string_def Let_def n_def ds_def)
  consider (whole) "int (length ds) \<le> n \<and> n \<le> 21"
    | (point) "\<not> (int (length ds) \<le> n \<and> n \<le> 21)" "0 < n \<and> n \<le> 21"
    | (small) "\<not> (int (length ds) \<le> n \<and> n \<le> 21)" "\<not> (0 < n \<and> n \<le> 21)" "-6 < n \<and> n \<le> 0"
    | (exp) "\<not> (int (length ds) \<le> n \<and> n \<le> 21)" "\<not> (0 < n \<and> n \<le> 21)" "\<not> (-6 < n \<and> n \<le> 0)"
    by blast
  then show ?thesis
  proof cases
    case whole
    then show ?thesis using whole_string_units [of e m] by (simp add: str n_def ds_def)
  next
    case point
    then have len: "length (drop (nat n) ds) = nat (- e)" and "e < 0"
      by (simp_all add: n_def) linarith+
    moreover have "take (nat n) ds \<noteq> []" using point ds(1) by auto
    ultimately have "(of_nat m :: rat) * pow10 e = of_nat (literal_units (take (nat n) ds @ ''.'' @ drop (nat n) ds)) / 10 ^ 8"
      using re point take_drop_show_nat [of "nat n" m] show_parts
      by (intro fraction_units) (auto simp: str ds_def)
    then show ?thesis using point by (simp add: str)
  next
    case small
    have "e < 0" using small ds(1) by (auto simp: n_def)
    then have "(of_nat m :: rat) * pow10 e =
        of_nat (literal_units (''0'' @ ''.'' @ replicate (nat (-n)) (CHR ''0'') @ ds)) / 10 ^ 8"
      using re small ds(2)
      by (intro fraction_units)
        (auto simp: str n_def ds_def list_all_iff show_nat_digits read_nat_append read_nat_def [of "''0''"] digit_val_def)
    then show ?thesis using small by (simp add: str)
  next
    case exp
    have "\<not> EXACT_DECIMAL_RE (num_to_string (NFin False m e))"
      by (subst str) (simp only: exp if_False, simp only: ds_def no_exponent_literal not_False_eq_True)
    then show ?thesis using re by simp
  qed
qed

text \<open>The reference meaning of an accepted value, and exactness over every kind of input.\<close>

definition literal_rat :: "string \<Rightarrow> rat" where
  "literal_rat s =
     (let ip = takeWhile is_digit s; fp = tl (dropWhile is_digit s) in
      of_nat (read_nat ip) + of_nat (read_nat fp) / 10 ^ length fp)"

definition js_rat :: "js_value \<Rightarrow> rat option" where
  "js_rat v =
     (case v of
        JDec d \<Rightarrow> dec_rat d
      | JNum x \<Rightarrow> num_rat x
      | JBig i \<Rightarrow> Some (of_int i)
      | JStr s \<Rightarrow> Some (literal_rat (js_trim s))
      | _ \<Rightarrow> None)"

lemma literal_rat_units:
  assumes "EXACT_DECIMAL_RE s"
  shows "literal_rat s = of_nat (literal_units s) / 10 ^ 8"
proof -
  define fp where "fp = tl (dropWhile is_digit s)"
  have "length fp \<le> 8"
    using assms by (cases "dropWhile is_digit s") (auto simp: EXACT_DECIMAL_RE_def fp_def Let_def simp del: dropWhile_eq_Nil_conv)
  then show ?thesis
    using scaled_fraction [of "length fp" 8 "read_nat fp"]
    by (simp add: literal_rat_def literal_units_def fp_def [symmetric] Let_def field_simps)
qed

lemma toExactDecimal_num:
  assumes "toExactDecimal (JNum x) = Inr n"
  shows "num_rat x = Some (of_nat n / 10 ^ 8)"
proof (cases x)
  case (NFin neg m e)
  show ?thesis
  proof (cases "m = 0 \<or> (0 \<le> e \<and> m * 10 ^ nat e \<le> max_safe_integer)")
    case True
    then show ?thesis
      using assms NFin by (auto simp: num_rat_def pow10_def split: if_splits)
  next
    case False
    then show ?thesis
      using assms NFin num_string_units [of m e]
      by (auto simp: num_rat_def Let_def split: if_splits)
  qed
qed (use assms in auto)

lemma toExactDecimal_value: "toExactDecimal v = Inr n \<Longrightarrow> js_rat v = Some (of_nat n / 10 ^ 8)"
proof (cases v)
  case (JDec d)
  assume *: "toExactDecimal v = Inr n"
  show ?thesis
  proof (cases d)
    case (Dec neg c k)
    with * JDec show ?thesis
      using toExactDecimal_Dec_iff [of neg c k n] by (simp add: js_rat_def dec_rat_def del: toExactDecimal.simps)
  qed (use * JDec in simp_all)
next
  case (JStr s)
  assume "toExactDecimal v = Inr n"
  with JStr show ?thesis
    using literal_rat_units [of "js_trim s"] by (auto simp: js_rat_def Let_def split: if_splits)
next
  case (JNum x)
  assume "toExactDecimal v = Inr n"
  with JNum show ?thesis by (simp add: js_rat_def toExactDecimal_num)
qed (auto simp: js_rat_def split: if_splits)

section \<open>Properties\<close>

lemmas evaluate_quantity =
  num_to_string_def show_nat.simps digit_char_def digit_val_def is_digit_def js_trim_def js_space_def
  EXACT_DECIMAL_RE_def literal_units_def read_nat_def max_safe_integer_def char_of_def bit_0 Let_def

text \<open>C34: Whatever kind of value reaches the ledger (Decimal, literal string, number,
  bigint), an accepted quantity is exactly the number it denotes, as a whole number of
  \<open>10\<^sup>-\<^sup>8\<close> units: no rounding happens at the boundary.\<close>

theorem toExactDecimal_exact: "toExactDecimal v = Inr n \<Longrightarrow> js_rat v = Some (of_nat n / 10 ^ 8)"
  by (rule toExactDecimal_value)

theorem toExactDecimal_exact_witness:
  "js_rat (JNum (NFin False 15 (-1))) = Some (3 / 2) \<and> js_rat (JStr '' 0.00000001 '') = Some (1 / 10 ^ 8)"
proof -
  have "toExactDecimal (JNum (NFin False 15 (-1))) = Inr 150000000"
    and "toExactDecimal (JStr '' 0.00000001 '') = Inr 1"
    by (simp_all add: evaluate_quantity)
  from this [THEN toExactDecimal_exact] show ?thesis by simp
qed

text \<open>A Decimal is accepted exactly when it is not negative and is a whole number of
  \<open>10\<^sup>-\<^sup>8\<close> units; trailing zeros beyond the eighth place do not matter.\<close>

theorem toExactDecimal_decimal_iff:
  "toExactDecimal (JDec (Dec neg c k)) = Inr n \<longleftrightarrow> \<not> neg \<and> (of_nat c :: rat) / 10 ^ k = of_nat n / 10 ^ 8"
  by (rule toExactDecimal_Dec_iff)

text \<open>The eight-place text the services store is read back as the same quantity, and
  two quantities with the same text are equal.\<close>

theorem toFixed8_roundtrip:
  "toExactDecimal (JStr (toFixed8 n)) = Inr n \<and> (toFixed8 m = toFixed8 n \<longleftrightarrow> m = n)"
  by (simp add: toFixed8_literal)

section \<open>Pesewas\<close>

lemma normal_dec_zero: "normal_dec c k = (c', k') \<Longrightarrow> c' = 0 \<longleftrightarrow> c = 0"
  using normal_dec_value by fastforce

lemma ghs_of_decimal_value:
  assumes "ghs_of_decimal d = Inr n"
  shows "0 < n \<and> dec_rat d = Some (of_int n / 100)"
proof (cases d)
  case (Dec neg c k)
  obtain c' k' where nd: "normal_dec c k = (c', k')" by fastforce
  have "\<not> neg" "c \<noteq> 0" "k' \<le> 2" and n: "n = int (c' * 10 ^ (2 - k'))"
    using assms Dec nd by (auto simp: ghs_of_decimal_def split: if_splits)
  moreover have "(of_nat c :: rat) / 10 ^ k = of_nat (c' * 10 ^ (2 - k')) / 10 ^ 2"
    by (rule normal_dec_rat [OF nd \<open>k' \<le> 2\<close>])
  ultimately show ?thesis
    using Dec normal_dec_zero [OF nd] by (simp add: dec_rat_def)
qed (use assms in \<open>auto simp: ghs_of_decimal_def\<close>)

lemma toExactGhsDecimal_pos: "toExactGhsDecimal parse v = Inr n \<Longrightarrow> 0 < n"
  using ghs_of_decimal_value by (auto simp: toExactGhsDecimal_def split: js_value.splits option.splits)

text \<open>An accepted cedi amount is positive and is exactly the given Decimal, in whole
  pesewas; a sub-pesewa, zero, negative or non-finite Decimal is refused.\<close>

theorem toExactGhsDecimal_exact:
  "toExactGhsDecimal parse (JDec d) = Inr n \<Longrightarrow> 0 < n \<and> dec_rat d = Some (of_int n / 100)"
  by (rule ghs_of_decimal_value) (simp add: toExactGhsDecimal_def)

theorem toExactGhsDecimal_exact_witness:
  "dec_rat (Dec False 12500 3) = Some (25 / 2) \<and> toExactGhsDecimal (\<lambda>_. None) (JDec (Dec False 12505 3)) = Inl SubPesewa"
proof -
  have "toExactGhsDecimal (\<lambda>_. None) (JDec (Dec False 12500 3)) = Inr 1250"
    and "toExactGhsDecimal (\<lambda>_. None) (JDec (Dec False 12505 3)) = Inl SubPesewa"
    by (simp_all add: toExactGhsDecimal_def ghs_of_decimal_def)
  from this(2) toExactGhsDecimal_exact [OF this(1)] show ?thesis by simp
qed

end
