(* ===== verification/Js_Number.thy ===== *)
theory Js_Number
  imports Exact_Quantity
begin

text \<open>
  JavaScript numbers and Decimal(20,8) columns as rationals: the double nearest to a value, and the
  column units a value is stored as.
\<close>

section \<open>Doubles\<close>

function log2 :: "int \<Rightarrow> int" where
  "log2 n = (if n < 2 then 0 else log2 (n div 2) + 1)"
  by pat_completeness auto
termination by (relation "measure nat") auto

declare log2.simps [simp del]

definition exp2 :: "int \<Rightarrow> rat" where
  "exp2 e = (if 0 \<le> e then 2 ^ nat e else 1 / 2 ^ nat (- e))"

definition round_even :: "rat \<Rightarrow> int" where
  "round_even x =
     (let f = \<lfloor>x\<rfloor>; d = x - of_int f in
      if d < 1 / 2 then f else if d > 1 / 2 then f + 1 else if even f then f else f + 1)"

text \<open>
  The double nearest to a positive rational of ordinary magnitude (at least \<open>2\<^sup>-\<^sup>6\<^sup>0\<close>, which every
  positive amount is): \<open>e\<close> is the exponent of its last place.
\<close>

definition double_of :: "rat \<Rightarrow> rat" where
  "double_of x =
     (if x \<le> 0 then 0
      else let e = log2 \<lfloor>x * 2 ^ 60\<rfloor> - 112 in of_int (round_even (x / exp2 e)) * exp2 e)"

text \<open>
  The double nearest to any rational of at least \<open>2\<^sup>-\<^sup>2\<^sup>0\<^sup>0\<close> in magnitude, which sums and differences of
  amounts stay above; and the decimal that \<open>String\<close> prints for a positive double, the one with the
  fewest digits (at most 17) that reads back as it.
\<close>

definition js_double :: "rat \<Rightarrow> rat" where
  "js_double x =
     (if x = 0 then 0
      else let e = log2 \<lfloor>\<bar>x\<bar> * 2 ^ 200\<rfloor> - 252 in sgn x * of_int (round_even (\<bar>x\<bar> / exp2 e)) * exp2 e)"

definition decimal_exponent :: "rat \<Rightarrow> int" where
  "decimal_exponent x = int (length (show_nat (nat \<lfloor>x * 10 ^ 60\<rfloor>))) - 61"

definition with_digits :: "nat \<Rightarrow> rat \<Rightarrow> rat" where
  "with_digits k x =
     (let unit = pow10 (decimal_exponent x - int k + 1) in of_int (round_even (x / unit)) * unit)"

definition shortest_decimal :: "rat \<Rightarrow> rat" where
  "shortest_decimal x =
     (if x \<le> 0 then x
      else case find (\<lambda>k. js_double (with_digits k x) = x) [1..<18] of
        Some k \<Rightarrow> with_digits k x
      | None \<Rightarrow> x)"

text \<open>The rounding error of a double.\<close>

lemma round_even_error: "\<bar>of_int (round_even x) - x\<bar> \<le> 1 / 2"
proof -
  have "of_int \<lfloor>x\<rfloor> \<le> x" "x < of_int \<lfloor>x\<rfloor> + 1" by linarith+
  then show ?thesis by (auto simp: round_even_def Let_def abs_le_iff)
qed

lemma log2_nonneg: "0 \<le> log2 n"
proof (induction n rule: log2.induct)
  case (1 n)
  then show ?case by (cases "n < 2") (subst log2.simps, simp)+
qed

lemma log2_le: "0 < n \<Longrightarrow> (2::int) ^ nat (log2 n) \<le> n"
proof (induction n rule: log2.induct)
  case (1 n)
  show ?case
  proof (cases "n < 2")
    case True
    with "1.prems" show ?thesis by (subst log2.simps) simp
  next
    case False
    then have ih: "(2::int) ^ nat (log2 (n div 2)) \<le> n div 2" by (intro "1.IH") auto
    have pos: "0 \<le> log2 (n div 2)" by (rule log2_nonneg)
    have "log2 n = log2 (n div 2) + 1" using False by (subst log2.simps) simp
    then have "(2::int) ^ nat (log2 n) = 2 * 2 ^ nat (log2 (n div 2))" using pos by (simp add: nat_add_distrib)
    then show ?thesis using ih by linarith
  qed
qed

lemma js_double_error: "\<bar>js_double x - x\<bar> \<le> \<bar>x\<bar> / 2 ^ 52 + 1 / 2 ^ 252"
proof (cases "x = 0")
  case False
  let ?m = "\<lfloor>\<bar>x\<bar> * 2 ^ 200\<rfloor>"
  define e where "e = log2 ?m - 252"
  have pos: "0 < exp2 e" by (simp add: exp2_def)
  have m0: "0 \<le> ?m" by simp
  have "(2::int) ^ nat (log2 ?m) \<le> ?m + 1"
  proof (cases "?m = 0")
    case True
    have "log2 0 = 0" by (subst log2.simps) simp
    with True show ?thesis by simp
  next
    case False
    with m0 have "0 < ?m" by linarith
    from log2_le [OF this] show ?thesis by linarith
  qed
  then have "(2::rat) ^ nat (log2 ?m) \<le> of_int (?m + 1)"
    by (metis of_int_le_iff of_int_numeral of_int_power)
  also have "\<dots> \<le> \<bar>x\<bar> * 2 ^ 200 + 1" by simp
  finally have b: "(2::rat) ^ nat (log2 ?m) \<le> \<bar>x\<bar> * 2 ^ 200 + 1" .
  have "exp2 e = 2 ^ nat (log2 ?m) / 2 ^ 252"
  proof (cases "0 \<le> e")
    case True
    then have "nat (log2 ?m) = nat e + 252" using e_def log2_nonneg by simp
    then show ?thesis using True by (simp add: exp2_def power_add)
  next
    case False
    then have "nat (log2 ?m) + nat (- e) = 252" using e_def log2_nonneg [of ?m] by linarith
    then have "(2::rat) ^ nat (log2 ?m) * 2 ^ nat (- e) = 2 ^ 252" by (metis power_add)
    moreover have "a * b = c \<Longrightarrow> b \<noteq> 0 \<Longrightarrow> c \<noteq> 0 \<Longrightarrow> 1 / b = a / c" for a b c :: rat by (auto simp: field_simps)
    ultimately have "1 / (2::rat) ^ nat (- e) = 2 ^ nat (log2 ?m) / 2 ^ 252" by (metis power_not_zero zero_neq_numeral)
    then show ?thesis using False by (simp only: exp2_def if_False)
  qed
  then have ex: "exp2 e \<le> \<bar>x\<bar> / 2 ^ 52 + 1 / 2 ^ 252"
    using divide_right_mono [OF b, of "2 ^ 252"] by (simp add: add_divide_distrib)
  have "js_double x = sgn x * (of_int (round_even (\<bar>x\<bar> / exp2 e)) * exp2 e)"
    using False by (simp add: js_double_def e_def Let_def)
  moreover have "x = sgn x * \<bar>x\<bar>" by (simp add: sgn_mult_abs)
  ultimately have "\<bar>js_double x - x\<bar> = \<bar>of_int (round_even (\<bar>x\<bar> / exp2 e)) * exp2 e - \<bar>x\<bar>\<bar>"
    using False by (cases "0 < x") (auto simp: sgn_if abs_minus_commute)
  also have "\<dots> = \<bar>of_int (round_even (\<bar>x\<bar> / exp2 e)) - \<bar>x\<bar> / exp2 e\<bar> * exp2 e"
  proof -
    have "of_int (round_even (\<bar>x\<bar> / exp2 e)) * exp2 e - \<bar>x\<bar> = (of_int (round_even (\<bar>x\<bar> / exp2 e)) - \<bar>x\<bar> / exp2 e) * exp2 e"
      using pos by (simp add: left_diff_distrib)
    then show ?thesis using pos by (simp add: abs_mult)
  qed
  also have "\<dots> \<le> 1 / 2 * exp2 e" using round_even_error pos by (intro mult_right_mono) auto
  finally show ?thesis using ex pos by linarith
qed (simp add: js_double_def)

lemma log2_bound: "0 < n \<Longrightarrow> n < 2 ^ Suc k \<Longrightarrow> log2 n \<le> int k"
proof (induction k arbitrary: n)
  case 0
  then show ?case by (subst log2.simps) simp
next
  case (Suc k)
  show ?case
  proof (cases "n < 2")
    case True
    then show ?thesis by (subst log2.simps) simp
  next
    case False
    then have "0 < n div 2" "n div 2 < 2 ^ Suc k" using Suc.prems(2) by simp_all
    then show ?thesis using Suc.IH False by (subst log2.simps) simp
  qed
qed

lemma round_even_int [simp]: "round_even (of_int n) = n"
  by (simp add: round_even_def)

text \<open>Whole numbers below \<open>2\<^sup>5\<^sup>3\<close> are doubles.\<close>

lemma js_double_whole:
  assumes "n < 2 ^ 53"
  shows "js_double (of_nat n) = of_nat n"
proof (cases "n = 0")
  case False
  have fl: "\<lfloor>\<bar>of_nat n :: rat\<bar> * 2 ^ 200\<rfloor> = int n * 2 ^ 200"
    using floor_of_int [of "int n * 2 ^ 200", where ?'a = rat] by simp
  define e where "e = log2 (int n * 2 ^ 200) - 252"
  have "int n < 2 ^ 53" using assms by (metis of_nat_less_iff of_nat_numeral of_nat_power)
  then have "int n * 2 ^ 200 < 2 ^ Suc 252" by simp
  then have "e \<le> 0" using log2_bound [of "int n * 2 ^ 200" 252] False by (simp add: e_def)
  then have ex: "exp2 e = 1 / 2 ^ nat (- e)" by (auto simp: exp2_def)
  then have "of_nat n / exp2 e = of_int (int n * 2 ^ nat (- e))" by simp
  then have "round_even (of_nat n / exp2 e) = int n * 2 ^ nat (- e)" by (simp only: round_even_int)
  moreover have "js_double (of_nat n) = of_int (round_even (of_nat n / exp2 e)) * exp2 e"
    using False unfolding js_double_def fl e_def Let_def by simp
  ultimately show ?thesis by (simp add: ex)
qed (simp add: js_double_def)

section \<open>Columns with eight decimal places\<close>

definition units_rat :: "int \<Rightarrow> rat" where
  "units_rat n = of_int n / 10 ^ 8"

definition round8 :: "rat \<Rightarrow> int" where
  "round8 x = \<lfloor>x * 10 ^ 8 + 1 / 2\<rfloor>"

lemma round8_units [simp]: "round8 (of_int n / 10 ^ 8) = n"
proof -
  have "of_int n / 10 ^ 8 * 10 ^ 8 = (of_int n :: rat)" by simp
  moreover have "\<lfloor>(of_int n :: rat) + 1 / 2\<rfloor> = n" by (simp add: floor_eq_iff)
  ultimately show ?thesis by (simp only: round8_def)
qed

lemma round8_units_rat [simp]: "round8 (units_rat n) = n"
  by (simp only: units_rat_def round8_units)

end
