(* ===== verification/Js_Text.thy ===== *)
theory Js_Text
  imports Exact_Quantity
begin

text \<open>
  String helpers of the language the services use: truthiness of optional strings, ASCII case
  mapping, prefixes and substrings. Case mapping is that of ASCII letters; the names the
  services compare with are ASCII.
\<close>

definition or_null :: "string option \<Rightarrow> string option" where
  "or_null v = (if v = Some [] then None else v)"

definition or_empty :: "string option \<Rightarrow> string" where
  "or_empty v = (case v of None \<Rightarrow> [] | Some s \<Rightarrow> s)"

definition upper_char :: "char \<Rightarrow> char" where
  "upper_char c = (let n = (of_char c :: nat) in if 97 \<le> n \<and> n \<le> 122 then char_of (n - 32) else c)"

definition lower_char :: "char \<Rightarrow> char" where
  "lower_char c = (let n = (of_char c :: nat) in if 65 \<le> n \<and> n \<le> 90 then char_of (n + 32) else c)"

definition js_upper :: "string \<Rightarrow> string" where
  "js_upper = map upper_char"

definition js_lower :: "string \<Rightarrow> string" where
  "js_lower = map lower_char"

lemma or_null_simps [simp]: "or_null None = None" "or_null (Some []) = None" "or_null (Some (c # cs)) = Some (c # cs)"
  by (simp_all add: or_null_def)

lemma or_null_Some: "or_null v = Some s \<longleftrightarrow> v = Some s \<and> s \<noteq> []"
  by (auto simp: or_null_def)

fun contains_text :: "string \<Rightarrow> string \<Rightarrow> bool" where
  "contains_text pat [] \<longleftrightarrow> pat = []"
| "contains_text pat (c # cs) \<longleftrightarrow> take (length pat) (c # cs) = pat \<or> contains_text pat cs"

text \<open>
  Property access on an object literal: an own property, a member inherited from
  \<open>Object.prototype\<close> (truthy, and of none of the types the services expect), or undefined.
\<close>

datatype 'v lookup = Own 'v | Inherited | Missing

definition inherited_members :: "string list" where
  "inherited_members =
     [''constructor'', ''__defineGetter__'', ''__defineSetter__'', ''hasOwnProperty'', ''__lookupGetter__'',
      ''__lookupSetter__'', ''isPrototypeOf'', ''propertyIsEnumerable'', ''toString'', ''valueOf'', ''__proto__'',
      ''toLocaleString'']"

definition js_lookup :: "(string \<times> 'v) list \<Rightarrow> string \<Rightarrow> 'v lookup" where
  "js_lookup obj k =
     (case map_of obj k of
        Some v \<Rightarrow> Own v
      | None \<Rightarrow> if k \<in> set inherited_members then Inherited else Missing)"

end
