(* ===== verification/Interleaving.thy ===== *)
theory Interleaving
  imports Azm_Prelude
begin

text \<open>
  Interleaved histories of a service, and the interface a service has to meet for its
  invariant to hold over them.

  A call reads the database, then other calls may commit, then it writes. \<open>exec env c s\<close> is
  the effect of call \<open>c\<close> started in \<open>s\<close> when the writes of the others turned \<open>s\<close> into
  \<open>env s\<close>. In a \<open>history\<close> that interference is itself a history: the calls that run between the read
  and the write of a call start and finish there, to any depth of nesting. Two calls that overlap
  without one containing the other are not covered.
\<close>

inductive history :: "(('s \<Rightarrow> 's) \<Rightarrow> 'c \<Rightarrow> 's \<Rightarrow> 'r \<times> 's) \<Rightarrow> 's \<Rightarrow> 's \<Rightarrow> bool" for exec where
  stop: "history exec s s"
| call: "history exec s s1 \<Longrightarrow> history exec s1 (env s1) \<Longrightarrow> exec env c s1 = (r, s2) \<Longrightarrow> history exec s s2"

lemma history_call_alone: "history exec s s1 \<Longrightarrow> exec id c s1 = (r, s2) \<Longrightarrow> history exec s s2"
  using history.call [of exec s s1 id] history.stop by fastforce

lemma history_trans: "history exec t u \<Longrightarrow> history exec s t \<Longrightarrow> history exec s u"
  by (induction rule: history.induct) (auto intro: history.call)

locale interleaved_service =
  fixes exec :: "('s \<Rightarrow> 's) \<Rightarrow> 'c \<Rightarrow> 's \<Rightarrow> 'r \<times> 's"
    and inv :: "'s \<Rightarrow> bool"
    and evolves :: "'s \<Rightarrow> 's \<Rightarrow> bool"
  assumes evolves_refl: "evolves s s"
    and evolves_trans: "evolves s t \<Longrightarrow> evolves t u \<Longrightarrow> evolves s u"
    and exec_keeps: "exec env c s = (r, s') \<Longrightarrow> inv s \<Longrightarrow> inv (env s) \<Longrightarrow> evolves s (env s) \<Longrightarrow> inv s' \<and> evolves s s'"
begin

theorem history_keeps: "history exec s t \<Longrightarrow> inv s \<Longrightarrow> inv t \<and> evolves s t"
proof (induction rule: history.induct)
  case (call s s1 env c r s2)
  then have s1: "inv s1" "evolves s s1" and e: "inv (env s1)" "evolves s1 (env s1)" by blast+
  from exec_keeps [OF call.hyps(3) s1(1) e] show ?case using evolves_trans s1(2) by blast
qed (simp add: evolves_refl)

lemma history_inv: "history exec s t \<Longrightarrow> inv s \<Longrightarrow> inv t"
  and history_evolves: "history exec s t \<Longrightarrow> inv s \<Longrightarrow> evolves s t"
  using history_keeps by blast+

end

end
