(* ===== verification/Azm_Spend.thy ===== *)
theory Azm_Spend
  imports Js_Number Js_Text Interleaving
begin

text \<open>
  Spending AZM points, \<^verbatim>\<open>services/azmSpendService.js\<close>: the debit primitive every spend goes
  through, its standalone transaction, and the fee discount of a fiat withdrawal.

  A user row carries the columns the money services read. A cost is a JavaScript number, kept as its
  decimal value; the balance and the log are Decimal(20,8) columns in \<open>10\<^sup>-\<^sup>8\<close> units. Of a log's
  metadata the model keeps the mirrored \<open>dedupKey\<close> and the two fields a reversal writes. Socket
  events are not modelled.
\<close>

section \<open>Tables\<close>

record account_user =
  au_id :: nat
  au_username :: string
  au_availableBalance :: int
  au_azmBalance :: int
  au_referredByCode :: "string option"
  au_influencerCode :: "string option"
  au_withdrawalRiskTier :: "string option"

record spend_log =
  sl_id :: string
  sl_userId :: nat
  sl_amount :: int
  sl_source :: string
  sl_reason :: string
  sl_dedupKey :: "string option"
  sl_metaDedupKey :: "string option"
  sl_balanceAfter :: int
  sl_reversedAt :: "int option"
  sl_reversalReference :: "string option"

record wallet_db =
  wd_users :: "account_user list"
  wd_spends :: "spend_log list"

datatype spend_error = InvalidSpend | SpendUserNotFound | InsufficientAzm | SpendLogDuplicate | InvalidTier | MissingReference

section \<open>The fee discount catalogue\<close>

record discount_tier =
  dt_id :: string
  dt_label :: string
  dt_discount :: rat
  dt_cost :: rat

definition AZM_COSTS_FEE_DISCOUNT_25 :: rat where "AZM_COSTS_FEE_DISCOUNT_25 = 10"

definition AZM_COSTS_FEE_DISCOUNT_50 :: rat where "AZM_COSTS_FEE_DISCOUNT_50 = 25"

definition AZM_COSTS_FEE_DISCOUNT_100 :: rat where "AZM_COSTS_FEE_DISCOUNT_100 = 50"

definition FEE_DISCOUNT_TIERS :: "discount_tier list" where
  "FEE_DISCOUNT_TIERS =
     [\<lparr>dt_id = ''tier_25'', dt_label = ''25% Off'', dt_discount = 1 / 4, dt_cost = AZM_COSTS_FEE_DISCOUNT_25\<rparr>,
      \<lparr>dt_id = ''tier_50'', dt_label = ''50% Off'', dt_discount = 1 / 2, dt_cost = AZM_COSTS_FEE_DISCOUNT_50\<rparr>,
      \<lparr>dt_id = ''tier_100'', dt_label = ''Free'', dt_discount = 1, dt_cost = AZM_COSTS_FEE_DISCOUNT_100\<rparr>]"

definition SOURCE_FEE_DISCOUNT :: string where
  "SOURCE_FEE_DISCOUNT = ''FEE_DISCOUNT''"

section \<open>The debit\<close>

record spend_args =
  sa_userId :: nat
  sa_amount :: rat
  sa_source :: string
  sa_reason :: string
  sa_dedupKey :: "string option"

record spend_result =
  sr_debited :: bool
  sr_newBalance :: int
  sr_logId :: string

definition log_identity :: "spend_log \<Rightarrow> nat \<times> string \<times> string option" where
  "log_identity l = (sl_userId l, sl_source l, sl_dedupKey l)"

definition same_spend :: "spend_args \<Rightarrow> spend_log \<Rightarrow> bool" where
  "same_spend a l \<longleftrightarrow>
     sl_userId l = sa_userId a \<and> sl_source l = sa_source a \<and>
     (sl_dedupKey l = sa_dedupKey a \<or> sl_metaDedupKey l = sa_dedupKey a)"

definition prior_spend :: "spend_args \<Rightarrow> wallet_db \<Rightarrow> spend_log option" where
  "prior_spend a s = (if or_null (sa_dedupKey a) = None then None else find (same_spend a) (wd_spends s))"

definition replayed_spend :: "spend_log \<Rightarrow> spend_result" where
  "replayed_spend l = \<lparr>sr_debited = False, sr_newBalance = sl_balanceAfter l, sr_logId = sl_id l\<rparr>"

definition can_spend :: "rat \<Rightarrow> account_user \<Rightarrow> bool" where
  "can_spend x u \<longleftrightarrow> x \<le> units_rat (au_azmBalance u)"

definition take_azm :: "rat \<Rightarrow> account_user \<Rightarrow> account_user" where
  "take_azm x u = u\<lparr>au_azmBalance := round8 (units_rat (au_azmBalance u) - x)\<rparr>"

definition new_log :: "string \<Rightarrow> spend_args \<Rightarrow> int \<Rightarrow> spend_log" where
  "new_log newId a balance =
     \<lparr>sl_id = newId, sl_userId = sa_userId a, sl_amount = round8 (sa_amount a), sl_source = sa_source a,
      sl_reason = sa_reason a, sl_dedupKey = sa_dedupKey a, sl_metaDedupKey = or_null (sa_dedupKey a),
      sl_balanceAfter = balance, sl_reversedAt = None, sl_reversalReference = None\<rparr>"

text \<open>\<open>env\<close> is what others commit after the lookup of an earlier spend. Rows whose key is null do not
  clash in the unique index.\<close>

definition debitAzmWithClient ::
  "string \<Rightarrow> spend_args \<Rightarrow> (wallet_db \<Rightarrow> wallet_db) \<Rightarrow> wallet_db \<Rightarrow> (spend_error, spend_result, wallet_db) outcome" where
  "debitAzmWithClient newId a env s =
     (if sa_userId a = 0 \<or> sa_amount a \<le> 0 \<or> sa_source a = [] \<or> sa_reason a = [] then (Inl InvalidSpend, s)
      else case prior_spend a s of
        Some l \<Rightarrow> (Inr (replayed_spend l), s)
      | None \<Rightarrow>
          (let s1 = env s in
           case find_by au_id (sa_userId a) (wd_users s1) of
             None \<Rightarrow> (Inl SpendUserNotFound, s1)
           | Some u \<Rightarrow>
               (if \<not> can_spend (sa_amount a) u then (Inl InsufficientAzm, s1)
                else
                  let users = update_by (\<lambda>r. au_id r = sa_userId a \<and> can_spend (sa_amount a) r) (take_azm (sa_amount a)) (wd_users s1);
                      balance = au_azmBalance (take_azm (sa_amount a) u);
                      l = new_log newId a balance in
                  if sa_dedupKey a \<noteq> None \<and> log_identity l \<in> log_identity ` set (wd_spends s1)
                  then (Inl SpendLogDuplicate, s1\<lparr>wd_users := users\<rparr>)
                  else (Inr \<lparr>sr_debited = True, sr_newBalance = balance, sr_logId = newId\<rparr>,
                        s1\<lparr>wd_users := users, wd_spends := wd_spends s1 @ [l]\<rparr>))))"

text \<open>The standalone debit: the loser of the unique index converges to the winner's result.\<close>

definition debitAzm ::
  "string \<Rightarrow> spend_args \<Rightarrow> (wallet_db \<Rightarrow> wallet_db) \<Rightarrow> wallet_db \<Rightarrow> (spend_error, spend_result, wallet_db) outcome" where
  "debitAzm newId a env s =
     (case transaction env (debitAzmWithClient newId a env) s of
        (Inl e, t) \<Rightarrow>
          (if e = SpendLogDuplicate \<and> or_null (sa_dedupKey a) \<noteq> None
           then (case prior_spend a t of Some l \<Rightarrow> (Inr (replayed_spend l), t) | None \<Rightarrow> (Inl e, t))
           else (Inl e, t))
      | (Inr r, t) \<Rightarrow> (Inr r, t))"

section \<open>The fee discount\<close>

record discount_result =
  dr_discount :: rat
  dr_tierId :: string
  dr_azmSpent :: rat
  dr_newBalance :: int
  dr_debited :: bool
  dr_logId :: string

definition fee_discount_key :: "string \<Rightarrow> string" where
  "fee_discount_key ref = ''fee_discount_'' @ ref"

definition discount_args :: "nat \<Rightarrow> discount_tier \<Rightarrow> string option \<Rightarrow> spend_args" where
  "discount_args userId tier key =
     \<lparr>sa_userId = userId, sa_amount = dt_cost tier, sa_source = SOURCE_FEE_DISCOUNT,
      sa_reason = dt_label tier @ '' fee discount on withdrawal'', sa_dedupKey = key\<rparr>"

definition discount_of :: "discount_tier \<Rightarrow> spend_result \<Rightarrow> discount_result" where
  "discount_of tier r =
     \<lparr>dr_discount = dt_discount tier, dr_tierId = dt_id tier, dr_azmSpent = dt_cost tier, dr_newBalance = sr_newBalance r,
      dr_debited = sr_debited r, dr_logId = sr_logId r\<rparr>"

definition applyFeeDiscount ::
  "string \<Rightarrow> nat \<Rightarrow> string \<Rightarrow> string option \<Rightarrow> (wallet_db \<Rightarrow> wallet_db) \<Rightarrow> wallet_db \<Rightarrow>
   (spend_error, discount_result, wallet_db) outcome" where
  "applyFeeDiscount newId userId tierId withdrawalRef env s =
     (case find_by dt_id tierId FEE_DISCOUNT_TIERS of
        None \<Rightarrow> (Inl InvalidTier, s)
      | Some tier \<Rightarrow>
          and_then (debitAzm newId (discount_args userId tier (map_option fee_discount_key (or_null withdrawalRef))) env s)
            (\<lambda>r t. (Inr (discount_of tier r), t)))"

definition applyFeeDiscountInTransaction ::
  "string \<Rightarrow> nat \<Rightarrow> string \<Rightarrow> string \<Rightarrow> wallet_db \<Rightarrow> (spend_error, discount_result, wallet_db) outcome" where
  "applyFeeDiscountInTransaction newId userId tierId withdrawalRef s =
     (if withdrawalRef = [] then (Inl MissingReference, s)
      else case find_by dt_id tierId FEE_DISCOUNT_TIERS of
        None \<Rightarrow> (Inl InvalidTier, s)
      | Some tier \<Rightarrow>
          and_then (debitAzmWithClient newId (discount_args userId tier (Some (fee_discount_key withdrawalRef))) id s)
            (\<lambda>r t. (Inr (discount_of tier r), t)))"

section \<open>What a spend changes\<close>

text \<open>A user's points and the points the log says were spent and not given back.\<close>

definition azm_of :: "nat \<Rightarrow> wallet_db \<Rightarrow> int" where
  "azm_of i s = sum_rows (\<lambda>u. if au_id u = i then au_azmBalance u else 0) (wd_users s)"

definition spent_of :: "nat \<Rightarrow> wallet_db \<Rightarrow> int" where
  "spent_of i s = sum_rows (\<lambda>l. if sl_userId l = i \<and> sl_reversedAt l = None then sl_amount l else 0) (wd_spends s)"

definition azm_wealth :: "nat \<Rightarrow> wallet_db \<Rightarrow> int" where
  "azm_wealth i s = azm_of i s + spent_of i s"

definition cash :: "account_user \<Rightarrow> nat \<times> int" where
  "cash u = (au_id u, au_availableBalance u)"

lemma take_azm_simps [simp]: "au_id (take_azm x u) = au_id u" "cash (take_azm x u) = cash u"
  by (simp_all add: take_azm_def cash_def)

lemma take_units:
  assumes "x = units_rat n"
  shows "au_azmBalance (take_azm x u) = au_azmBalance u - n" and "can_spend x u \<longleftrightarrow> n \<le> au_azmBalance u"
proof -
  have "units_rat (au_azmBalance u) - units_rat n = units_rat (au_azmBalance u - n)"
    by (simp add: units_rat_def diff_divide_distrib)
  then show "au_azmBalance (take_azm x u) = au_azmBalance u - n" by (simp add: take_azm_def assms)
  show "can_spend x u \<longleftrightarrow> n \<le> au_azmBalance u"
    by (simp add: can_spend_def assms units_rat_def divide_le_cancel)
qed

lemma debit_cases:
  assumes "debitAzmWithClient newId a env s = (Inr r, t)"
  obtains (replayed) l where "prior_spend a s = Some l" "r = replayed_spend l" "t = s"
  | (debited) u where "prior_spend a s = None" "find_by au_id (sa_userId a) (wd_users (env s)) = Some u"
      "can_spend (sa_amount a) u" "sr_debited r"
      "t = (env s)\<lparr>wd_users := update_by (\<lambda>r. au_id r = sa_userId a \<and> can_spend (sa_amount a) r) (take_azm (sa_amount a)) (wd_users (env s)),
                   wd_spends := wd_spends (env s) @ [new_log newId a (sr_newBalance r)]\<rparr>"
      "sa_dedupKey a = None \<or> log_identity (new_log newId a (sr_newBalance r)) \<notin> log_identity ` set (wd_spends (env s))"
  using assms
  by (auto simp: debitAzmWithClient_def Let_def split: if_splits option.splits)

lemma debit_wealth:
  assumes run: "debitAzmWithClient newId a env s = (Inr r, t)" and d: "distinct (map au_id (wd_users (env s)))"
    and n: "sa_amount a = units_rat n" and same: "azm_wealth i (env s) = azm_wealth i s"
  shows "azm_wealth i t = azm_wealth i s"
  using run
proof (cases rule: debit_cases)
  case (debited u)
  have "sum_rows (\<lambda>u. if au_id u = i then au_azmBalance u else 0) (wd_users t) =
      azm_of i (env s) + (if sa_userId a = i then - n else 0)"
    using sum_rows_update_key [OF d debited(2), of "\<lambda>u. if au_id u = i then au_azmBalance u else 0" "can_spend (sa_amount a)"]
      debited find_by_Some [OF debited(2)] take_units(1) [OF n]
    by (auto simp: azm_of_def)
  then show ?thesis
    using same debited(5) n by (simp add: azm_wealth_def spent_of_def azm_of_def new_log_def)
qed (use assms in simp)

end
