(* ===== verification/Json_Text.thy ===== *)
theory Json_Text
  imports Azm_Prelude
begin

text \<open>
  The part of \<open>JSON.stringify\<close> the services rely on: the text of a string, with the quote,
  the backslash and the control characters escaped. The text is self-delimiting
  (\<open>json_quote_prefix_free\<close>), which is what makes the identities built from it
  injective.
\<close>

definition hex_char :: "nat \<Rightarrow> char" where
  "hex_char d = (if d < 10 then char_of (48 + d) else char_of (87 + d))"

definition hex_val :: "char \<Rightarrow> nat" where
  "hex_val c = (if of_char c < (58::nat) then of_char c - 48 else of_char c - 87)"

definition json_escape :: "char \<Rightarrow> string" where
  "json_escape c =
     (let n = (of_char c :: nat) in
      if n = 34 then [CHR 0x5C, CHR 0x22]
      else if n = 92 then [CHR 0x5C, CHR 0x5C]
      else if n = 8 then [CHR 0x5C, CHR ''b'']
      else if n = 9 then [CHR 0x5C, CHR ''t'']
      else if n = 10 then [CHR 0x5C, CHR ''n'']
      else if n = 12 then [CHR 0x5C, CHR ''f'']
      else if n = 13 then [CHR 0x5C, CHR ''r'']
      else if n < 32 then [CHR 0x5C, CHR ''u'', CHR ''0'', CHR ''0'', hex_char (n div 16), hex_char (n mod 16)]
      else [c])"

definition json_quote :: "string \<Rightarrow> string" where
  "json_quote s = [CHR 0x22] @ concat (map json_escape s) @ [CHR 0x22]"

section \<open>Reading a string back\<close>

definition json_unescape1 :: "string \<Rightarrow> (char \<times> string) option" where
  "json_unescape1 t =
     (case t of
        [] \<Rightarrow> None
      | c # t' \<Rightarrow>
          (if c = CHR 0x22 then None
           else if c \<noteq> CHR 0x5C then Some (c, t')
           else case t' of
             [] \<Rightarrow> None
           | e # t'' \<Rightarrow>
               (if e = CHR ''b'' then Some (char_of (8::nat), t'')
                else if e = CHR ''t'' then Some (char_of (9::nat), t'')
                else if e = CHR ''n'' then Some (char_of (10::nat), t'')
                else if e = CHR ''f'' then Some (char_of (12::nat), t'')
                else if e = CHR ''r'' then Some (char_of (13::nat), t'')
                else if e = CHR ''u'' then
                  (case t'' of
                     _ # _ # h # l # r \<Rightarrow> Some (char_of (16 * hex_val h + hex_val l), r)
                   | _ \<Rightarrow> None)
                else Some (e, t''))))"

lemma hex_val_char [simp]: "d < 16 \<Longrightarrow> hex_val (hex_char d) = d"
  by (auto simp: hex_val_def hex_char_def)

lemma char_code_eq: "of_char c = (n::nat) \<Longrightarrow> c = char_of n"
  by auto

lemma quote_codes:
  "of_char c = (34::nat) \<longleftrightarrow> c = CHR 0x22" "of_char c = (92::nat) \<longleftrightarrow> c = CHR 0x5C"
proof -
  have "(of_char (CHR 0x22) :: nat) = 34" and "(of_char (CHR 0x5C) :: nat) = 92" by simp_all
  then show "of_char c = (34::nat) \<longleftrightarrow> c = CHR 0x22" "of_char c = (92::nat) \<longleftrightarrow> c = CHR 0x5C"
    by (metis of_char_eq_iff)+
qed

lemma json_unescape1_escape: "json_unescape1 (json_escape c @ u) = Some (c, u)"
proof (cases "c = CHR 0x22 \<or> c = CHR 0x5C")
  case True
  then show ?thesis by (auto simp: json_escape_def json_unescape1_def)
next
  case False
  let ?n = "of_char c :: nat"
  have codes: "?n \<noteq> 34" "?n \<noteq> 92" using False by (auto simp: quote_codes)
  have plain: "json_unescape1 (c # u) = Some (c, u)"
    using False by (simp add: json_unescape1_def)
  consider "?n \<in> {8, 9, 10, 12, 13}" | "?n < 32" "?n \<notin> {8, 9, 10, 12, 13}" | "32 \<le> ?n" by linarith
  then show ?thesis
  proof cases
    case 1
    then show ?thesis
      by (auto simp: json_escape_def json_unescape1_def dest!: char_code_eq)
  next
    case 2
    then have "?n div 16 < 16" and "16 * (?n div 16) + ?n mod 16 = ?n" by simp_all
    then show ?thesis using 2 codes by (simp add: json_escape_def json_unescape1_def Let_def)
  next
    case 3
    then show ?thesis using codes plain by (simp add: json_escape_def Let_def)
  qed
qed

lemma json_unescape1_quote: "json_unescape1 (CHR 0x22 # u) = None"
  by (simp add: json_unescape1_def)

lemma json_body_prefix_free:
  "concat (map json_escape s) @ CHR 0x22 # u = concat (map json_escape t) @ CHR 0x22 # v \<Longrightarrow>
   s = t \<and> u = v"
proof (induction s arbitrary: t)
  case Nil
  then show ?case
    using json_unescape1_escape json_unescape1_quote
    by (cases t) (auto, metis option.distinct(1))
next
  case (Cons c s)
  show ?case
  proof (cases t)
    case Nil
    then show ?thesis
      using Cons.prems json_unescape1_escape [of c "concat (map json_escape s) @ CHR 0x22 # u"]
        json_unescape1_quote [of v]
      by simp
  next
    case (Cons d t')
    let ?rest = "\<lambda>s u. concat (map json_escape s) @ CHR 0x22 # u"
    have "json_escape c @ ?rest s u = json_escape d @ ?rest t' v"
      using Cons.prems Cons by simp
    then have "Some (c, ?rest s u) = Some (d, ?rest t' v)"
      using json_unescape1_escape by metis
    then show ?thesis using Cons Cons.IH by simp
  qed
qed

lemma json_quote_prefix_free: "json_quote s @ u = json_quote t @ v \<longleftrightarrow> s = t \<and> u = v"
  using json_body_prefix_free [of s u t v] by (auto simp: json_quote_def)

lemma json_quote_inject [simp]: "json_quote s = json_quote t \<longleftrightarrow> s = t"
  using json_quote_prefix_free [of s "[]" t "[]"] by simp

end
