(* ===== verification/Ledger.thy ===== *)
theory Ledger
  imports Exact_Quantity Json_Text "HOL-Library.Multiset"
begin

text \<open>
  The authoritative liability ledger, \<^verbatim>\<open>services/ledgerService.js\<close>: the chart of accounts
  and its grammar, the exactly-once posting primitive \<open>post\<close>, account balances and the
  exact residual.

  The database is the record \<open>ledger\<close> of the three tables the service touches. What the
  database itself contributes to one posting (the generated row id, and which unique
  indexes a concurrent transaction makes this one lose on) is the record \<open>db_choice\<close>.
  Two third-party functions are parameters: \<open>sha\<close> is SHA-256 in hexadecimal, and
  \<open>rnd\<close> is the rounding that decimal.js applies to the result of \<open>plus\<close> and
  \<open>minus\<close>. By its documentation it keeps 20 significant digits, so it changes no
  quantity below \<open>10\<^sup>2\<^sup>0\<close> units: this is the named hypothesis \<open>decimal_exact\<close>.

  Quantities are integers in \<open>10\<^sup>-\<^sup>8\<close> units. Metadata, timestamps and log lines are
  not modelled.
\<close>

section \<open>Chart of accounts\<close>

datatype account_class = ASSET | LIABILITY | REVENUE | EXPENSE | EQUITY | CLEARING | RESTRICTED

datatype normal_side = DEBIT | CREDIT

record account_spec =
  as_class :: account_class
  as_side :: normal_side
  as_asset :: string
  as_network :: "string option"

definition spec_of :: "account_class \<Rightarrow> normal_side \<Rightarrow> string \<Rightarrow> string option \<Rightarrow> account_spec" where
  "spec_of c d a n = \<lparr>as_class = c, as_side = d, as_asset = a, as_network = n\<rparr>"

definition CANONICAL_ACCOUNTS :: "(string \<times> account_spec) list" where
  "CANONICAL_ACCOUNTS =
    [(''custody:deposit:usdc'', spec_of ASSET DEBIT ''USDC'' (Some ''POLYGON'')),
     (''custody:hot:usdc'', spec_of ASSET DEBIT ''USDC'' (Some ''POLYGON'')),
     (''custody:cold:usdc'', spec_of ASSET DEBIT ''USDC'' (Some ''POLYGON'')),
     (''custody:exchange:usdc'', spec_of ASSET DEBIT ''USDC'' (Some ''POLYGON'')),
     (''custody:provider:usdc'', spec_of ASSET DEBIT ''USDC'' None),
     (''clearing:custody:unverified:usdc'', spec_of CLEARING DEBIT ''USDC'' (Some ''POLYGON'')),
     (''clearing:custody:rejected:usdc'', spec_of CLEARING DEBIT ''USDC'' (Some ''POLYGON'')),
     (''clearing:fiat:offramp:usdc'', spec_of CLEARING CREDIT ''USDC'' None),
     (''fiat:momo:ghs'', spec_of ASSET DEBIT ''GHS'' None),
     (''inventory:usdc:lots'', spec_of ASSET DEBIT ''USDC'' None),
     (''restricted:reserves'', spec_of RESTRICTED CREDIT ''USDC'' None),
     (''clearing:conversion'', spec_of CLEARING DEBIT ''USDC'' None),
     (''clearing:orderbook:usdc'', spec_of CLEARING DEBIT ''USDC'' None),
     (''revenue:fees'', spec_of REVENUE CREDIT ''USDC'' None),
     (''revenue:spread'', spec_of REVENUE CREDIT ''USDC'' None),
     (''expense:gas'', spec_of EXPENSE DEBIT ''USDC'' None),
     (''expense:provider'', spec_of EXPENSE DEBIT ''USDC'' None),
     (''pnl:inventory'', spec_of REVENUE CREDIT ''USDC'' None),
     (''expense:cogs:usdc'', spec_of EXPENSE DEBIT ''USDC'' None),
     (''pnl:arbitrage'', spec_of REVENUE CREDIT ''USDC'' None),
     (''equity:treasury'', spec_of EQUITY CREDIT ''USDC'' None),
     (''equity:treasury:ghs'', spec_of EQUITY CREDIT ''GHS'' None)]"

definition ENTRY_TYPES :: "string list" where
  "ENTRY_TYPES =
    [''DEPOSIT'', ''WITHDRAWAL'', ''TRADE'', ''TRANSFER'', ''ESCROW_LOCK'', ''ESCROW_RELEASE'',
     ''ESCROW_REFUND'', ''VAULT_DEPOSIT'', ''VAULT_RELEASE'', ''SUSU_CONTRIBUTION'',
     ''SUSU_PAYOUT'', ''FEE'', ''REWARD'', ''ADJUSTMENT'', ''BUSINESS_PAYMENT'',
     ''CUSTODY_DEPOSIT'', ''CUSTODY_SWEEP'', ''CUSTODY_WITHDRAWAL'',
     ''SHARED_VAULT_DEPOSIT'', ''SHARED_VAULT_REFUND'',
     ''ESCROW_DISPUTE'', ''SUSU_SEIZURE'', ''SUSU_REFUND'',
     ''VENDOR_TOPUP'', ''VENDOR_ALLOCATE'',
     ''CUSTODY_VERIFICATION'', ''CUSTODY_REJECTION'',
     ''ASSET_CONVERSION'', ''INVENTORY_ACQUISITION'']"

section \<open>Account grammar\<close>

datatype account_kind =
    USER_LIABILITY nat
  | ESCROW_LOCKED string
  | USER_DISPUTE nat
  | USER_UNALLOCATED nat
  | CANONICAL

definition liability_spec :: account_spec where
  "liability_spec = spec_of LIABILITY CREDIT ''USDC'' None"

definition user_account_match :: "string \<Rightarrow> string \<Rightarrow> nat option" where
  "user_account_match bucket code =
     (case between ''user:'' ('':'' @ bucket) code of
        None \<Rightarrow> None
      | Some ds \<Rightarrow> if ds \<noteq> [] \<and> list_all is_digit ds then Some (read_nat ds) else None)"

definition is_alnum :: "char \<Rightarrow> bool" where
  "is_alnum c \<longleftrightarrow> is_digit c \<or> (65 \<le> (of_char c :: nat) \<and> (of_char c :: nat) \<le> 90)
                   \<or> (97 \<le> (of_char c :: nat) \<and> (of_char c :: nat) \<le> 122)"

definition is_key_char :: "char \<Rightarrow> bool" where
  "is_key_char c \<longleftrightarrow> is_alnum c \<or> c = CHR ''_'' \<or> c = CHR ''.'' \<or> c = CHR ''-''"

definition escrow_account_match :: "string \<Rightarrow> string option" where
  "escrow_account_match code =
     (case between ''escrow:'' '':locked'' code of
        None \<Rightarrow> None
      | Some k \<Rightarrow> if k \<noteq> [] \<and> is_alnum (hd k) \<and> list_all is_key_char k then Some k else None)"

definition classifyAccountCode :: "string \<Rightarrow> ledger_error + (account_kind \<times> account_spec)" where
  "classifyAccountCode code =
     (if length code = 0 \<or> length code > 80 then Inl LEDGER_UNKNOWN_ACCOUNT
      else case user_account_match ''liability'' code of
        Some u \<Rightarrow> Inr (USER_LIABILITY u, liability_spec)
      | None \<Rightarrow> (case escrow_account_match code of
        Some k \<Rightarrow> Inr (ESCROW_LOCKED k, liability_spec)
      | None \<Rightarrow> (case user_account_match ''dispute'' code of
        Some u \<Rightarrow> Inr (USER_DISPUTE u, liability_spec)
      | None \<Rightarrow> (case user_account_match ''unallocated'' code of
        Some u \<Rightarrow> Inr (USER_UNALLOCATED u, liability_spec)
      | None \<Rightarrow> (case map_of CANONICAL_ACCOUNTS code of
        Some sp \<Rightarrow> Inr (CANONICAL, sp)
      | None \<Rightarrow> Inl LEDGER_UNKNOWN_ACCOUNT)))))"

definition compact_id :: "string \<Rightarrow> string" where
  "compact_id i = take 12 (filter (\<lambda>c. c \<noteq> CHR ''-'') i)"

definition susuEscrowCode :: "string \<Rightarrow> string \<Rightarrow> string" where
  "susuEscrowCode cycleId memberId =
     ''escrow:susu-'' @ compact_id cycleId @ ''-'' @ compact_id memberId @ '':locked''"

section \<open>Tables\<close>

record account_row =
  ar_code :: string
  ar_class :: account_class
  ar_side :: normal_side
  ar_asset :: string
  ar_network :: "string option"
  ar_userId :: "nat option"
  ar_status :: string

record ledger_txn =
  lt_id :: string
  lt_idempotencyKey :: string
  lt_entryType :: string
  lt_description :: string
  lt_reference :: "string option"
  lt_userId :: "nat option"
  lt_relatedEntity :: "string option"
  lt_relatedEntityId :: "string option"
  lt_postingHash :: string
  lt_conversionIdentity :: "string option"

record journal_entry =
  je_transactionId :: string
  je_entryType :: string
  je_account :: string
  je_debit :: int
  je_credit :: int
  je_description :: string
  je_reference :: "string option"
  je_userId :: "nat option"
  je_relatedEntity :: "string option"
  je_relatedEntityId :: "string option"
  je_ledgerTransactionId :: "string option"
  je_lineNumber :: "nat option"

record ledger =
  accounts :: "account_row list"
  txns :: "ledger_txn list"
  entries :: "journal_entry list"

record db_choice =
  fresh_id :: string
  contended :: "string list"
  conversion_raced :: bool
  key_raced :: bool

definition ensureAccount ::
  "db_choice \<Rightarrow> nat option \<Rightarrow> string \<Rightarrow> ledger \<Rightarrow> (ledger_error, account_kind \<times> account_spec, ledger) outcome" where
  "ensureAccount ch opt_userId code L =
     (case classifyAccountCode code of
        Inl e \<Rightarrow> (Inl e, L)
      | Inr (kind, spec) \<Rightarrow>
          (let uid = (case kind of USER_LIABILITY u \<Rightarrow> Some u | USER_DISPUTE u \<Rightarrow> Some u
                        | USER_UNALLOCATED u \<Rightarrow> Some u | _ \<Rightarrow> opt_userId)
           in case find_by ar_code code (accounts L) of
             None \<Rightarrow>
               (if code \<in> set (contended ch) then (Inl LEDGER_ACCOUNT_CONTENTION, L)
                else (Inr (kind, spec),
                      L\<lparr>accounts := accounts L @
                        [\<lparr>ar_code = code, ar_class = as_class spec, ar_side = as_side spec,
                          ar_asset = as_asset spec, ar_network = as_network spec,
                          ar_userId = uid, ar_status = ''ACTIVE''\<rparr>]\<rparr>))
           | Some row \<Rightarrow>
               (if ar_class row \<noteq> as_class spec \<or> ar_side row \<noteq> as_side spec
                   \<or> ar_asset row \<noteq> as_asset spec \<or> ar_network row \<noteq> as_network spec
                then (Inl LEDGER_ACCOUNT_IDENTITY_CONFLICT, L)
                else (Inr (kind, spec), L))))"

fun ensureAccounts ::
  "db_choice \<Rightarrow> nat option \<Rightarrow> string list \<Rightarrow> ledger \<Rightarrow> (ledger_error, unit, ledger) outcome" where
  "ensureAccounts ch uid [] L = (Inr (), L)"
| "ensureAccounts ch uid (c # cs) L =
     (case ensureAccount ch uid c L of
        (Inl e, L') \<Rightarrow> (Inl e, L')
      | (Inr _, L') \<Rightarrow> ensureAccounts ch uid cs L')"

section \<open>Validation of a posting\<close>

record line_in =
  li_account :: string
  li_debit :: js_value
  li_credit :: js_value

record conversion_in =
  ci_identity :: string
  ci_rate :: js_value
  ci_quoteReference :: "js_value option"

record post_params =
  pp_idempotencyKey :: string
  pp_entryType :: string
  pp_description :: string
  pp_lines :: "line_in list"
  pp_conversion :: "conversion_in option"
  pp_reference :: "string option"
  pp_userId :: "nat option"
  pp_relatedEntity :: "string option"
  pp_relatedEntityId :: "string option"

record norm_line =
  nl_account :: string
  nl_debit :: int
  nl_credit :: int

record conversion_record =
  cr_identity :: string
  cr_rate :: nat
  cr_quoteReference :: "string option"

definition check_header :: "post_params \<Rightarrow> ledger_error option" where
  "check_header p =
     (if length (pp_idempotencyKey p) = 0 \<or> length (pp_idempotencyKey p) > 140
        then Some LEDGER_IDEMPOTENCY_KEY_REQUIRED
      else if pp_entryType p \<notin> set ENTRY_TYPES then Some LEDGER_INVALID_ENTRY_TYPE
      else if js_trim (pp_description p) = [] then Some LEDGER_DESCRIPTION_REQUIRED
      else if length (pp_lines p) < 2 then Some LEDGER_MIN_LINES
      else None)"

definition optional_quantity :: "js_value \<Rightarrow> ledger_error + nat" where
  "optional_quantity v = (if v = JNull then Inr 0 else toExactDecimal v)"

definition normalize_line :: "line_in \<Rightarrow> ledger_error + norm_line" where
  "normalize_line l =
     bind_sum (optional_quantity (li_debit l)) (\<lambda>d.
     bind_sum (optional_quantity (li_credit l)) (\<lambda>c.
       if d = 0 \<and> c = 0 then Inl LEDGER_ZERO_LINE
       else if d \<noteq> 0 \<and> c \<noteq> 0 then Inl LEDGER_BOTH_SIDES
       else Inr \<lparr>nl_account = li_account l, nl_debit = int d, nl_credit = int c\<rparr>))"

definition check_quote_reference :: "js_value option \<Rightarrow> ledger_error + string option" where
  "check_quote_reference q =
     (case q of
        None \<Rightarrow> Inr None
      | Some (JStr s) \<Rightarrow> if length s > 140 then Inl LEDGER_CONVERSION_INVALID else Inr (Some s)
      | Some _ \<Rightarrow> Inl LEDGER_CONVERSION_INVALID)"

definition check_conversion :: "post_params \<Rightarrow> ledger_error + conversion_record option" where
  "check_conversion p =
     (case pp_conversion p of
        None \<Rightarrow>
          (if pp_entryType p = ''ASSET_CONVERSION'' then Inl LEDGER_CONVERSION_CONTEXT_REQUIRED
           else Inr None)
      | Some c \<Rightarrow>
          (if pp_entryType p \<noteq> ''ASSET_CONVERSION'' then Inl LEDGER_CONVERSION_ENTRY_TYPE_REQUIRED
           else if length (ci_identity c) = 0 \<or> length (ci_identity c) > 140
             then Inl LEDGER_CONVERSION_INVALID
           else case toExactDecimal (ci_rate c) of
                  Inl _ \<Rightarrow> Inl LEDGER_CONVERSION_INVALID
                | Inr r \<Rightarrow>
                    (if r = 0 then Inl LEDGER_CONVERSION_INVALID
                     else bind_sum (check_quote_reference (ci_quoteReference c)) (\<lambda>q.
                       Inr (Some \<lparr>cr_identity = ci_identity c, cr_rate = r, cr_quoteReference = q\<rparr>)))))"

definition asset_of :: "string \<Rightarrow> ledger_error + string" where
  "asset_of code = bind_sum (classifyAccountCode code) (\<lambda>(_, spec). Inr (as_asset spec))"

definition decimal_sum :: "(int \<Rightarrow> int) \<Rightarrow> int list \<Rightarrow> int" where
  "decimal_sum rnd xs = foldl (\<lambda>acc x. rnd (acc + x)) 0 xs"

definition leg_totals :: "(int \<Rightarrow> int) \<Rightarrow> (string \<times> norm_line) list \<Rightarrow> string \<Rightarrow> int \<times> int" where
  "leg_totals rnd tagged a =
     (let legs = map snd (filter (\<lambda>(b, _). b = a) tagged) in
      (decimal_sum rnd (map nl_debit legs), decimal_sum rnd (map nl_credit legs)))"

definition first_occurrences :: "'a list \<Rightarrow> 'a list" where
  "first_occurrences xs = rev (remdups (rev xs))"

definition check_assets ::
  "(int \<Rightarrow> int) \<Rightarrow> conversion_record option \<Rightarrow> norm_line list \<Rightarrow> ledger_error + string list" where
  "check_assets rnd conv ls =
     bind_sum (traverse_sum (\<lambda>l. asset_of (nl_account l)) ls) (\<lambda>as.
       let tagged = zip as ls; assets = first_occurrences as in
       if conv = None \<and> length assets > 1 then Inl LEDGER_CROSS_ASSET_BALANCE
       else if conv \<noteq> None \<and> length assets < 2 then Inl LEDGER_CONVERSION_SINGLE_ASSET
       else if conv \<noteq> None \<and> (\<exists>a \<in> set assets. fst (leg_totals rnd tagged a) \<noteq> snd (leg_totals rnd tagged a))
         then Inl LEDGER_CONVERSION_LEG_UNBALANCED
       else Inr assets)"

definition check_balance :: "(int \<Rightarrow> int) \<Rightarrow> norm_line list \<Rightarrow> ledger_error option" where
  "check_balance rnd ls =
     (let totalDebit = decimal_sum rnd (map nl_debit ls);
          totalCredit = decimal_sum rnd (map nl_credit ls) in
      if totalDebit = 0 then Some LEDGER_ZERO_POSTING
      else if totalDebit \<noteq> totalCredit then Some LEDGER_UNBALANCED
      else None)"

definition validate_posting ::
  "(int \<Rightarrow> int) \<Rightarrow> post_params \<Rightarrow> ledger_error + (norm_line list \<times> conversion_record option)" where
  "validate_posting rnd p =
     (case check_header p of
        Some e \<Rightarrow> Inl e
      | None \<Rightarrow>
          bind_sum (traverse_sum normalize_line (pp_lines p)) (\<lambda>ls.
          bind_sum (check_conversion p) (\<lambda>conv.
          bind_sum (check_assets rnd conv ls) (\<lambda>_.
            case check_balance rnd ls of
              Some e \<Rightarrow> Inl e
            | None \<Rightarrow> Inr (ls, conv)))))"

section \<open>The durable economic identity\<close>

definition line_identity :: "norm_line \<Rightarrow> string" where
  "line_identity l =
     nl_account l @ '':'' @ toFixed8 (nat (nl_debit l)) @ '':'' @ toFixed8 (nat (nl_credit l))"

definition conversion_suffix :: "conversion_record \<Rightarrow> string" where
  "conversion_suffix c =
     ''#conv:{'' @ json_quote ''identity'' @ '':'' @ json_quote (cr_identity c) @ '','' @
     json_quote ''rate'' @ '':'' @ json_quote (toFixed8 (cr_rate c)) @ '','' @
     json_quote ''quoteReference'' @ '':'' @
     (case cr_quoteReference c of None \<Rightarrow> ''null'' | Some q \<Rightarrow> json_quote q) @ ''}''"

definition posting_identity ::
  "string \<Rightarrow> norm_line list \<Rightarrow> conversion_record option \<Rightarrow> string" where
  "posting_identity entryType ls conv =
     entryType @ ''#'' @ join_with (CHR ''|'') (sort (map line_identity ls)) @
     (case conv of None \<Rightarrow> '''' | Some c \<Rightarrow> conversion_suffix c)"

definition computePostingHash ::
  "(string \<Rightarrow> string) \<Rightarrow> string \<Rightarrow> norm_line list \<Rightarrow> conversion_record option \<Rightarrow> string" where
  "computePostingHash sha entryType ls conv = sha (posting_identity entryType ls conv)"

section \<open>Posting\<close>

record post_result =
  pr_transaction :: ledger_txn
  pr_entries :: "journal_entry list"
  pr_replayed :: bool

definition make_txn :: "db_choice \<Rightarrow> post_params \<Rightarrow> string \<Rightarrow> conversion_record option \<Rightarrow> ledger_txn" where
  "make_txn ch p hash conv =
     \<lparr>lt_id = fresh_id ch, lt_idempotencyKey = pp_idempotencyKey p, lt_entryType = pp_entryType p,
      lt_description = pp_description p, lt_reference = pp_reference p, lt_userId = pp_userId p,
      lt_relatedEntity = pp_relatedEntity p, lt_relatedEntityId = pp_relatedEntityId p,
      lt_postingHash = hash, lt_conversionIdentity = map_option cr_identity conv\<rparr>"

definition make_entry :: "db_choice \<Rightarrow> post_params \<Rightarrow> nat \<Rightarrow> norm_line \<Rightarrow> journal_entry" where
  "make_entry ch p i l =
     \<lparr>je_transactionId = pp_idempotencyKey p, je_entryType = pp_entryType p,
      je_account = nl_account l, je_debit = nl_debit l, je_credit = nl_credit l,
      je_description = pp_description p, je_reference = pp_reference p, je_userId = pp_userId p,
      je_relatedEntity = pp_relatedEntity p, je_relatedEntityId = pp_relatedEntityId p,
      je_ledgerTransactionId = Some (fresh_id ch), je_lineNumber = Some i\<rparr>"

fun make_entries :: "db_choice \<Rightarrow> post_params \<Rightarrow> nat \<Rightarrow> norm_line list \<Rightarrow> journal_entry list" where
  "make_entries ch p i [] = []"
| "make_entries ch p i (l # ls) = make_entry ch p i l # make_entries ch p (Suc i) ls"

definition conversion_conflict :: "ledger \<Rightarrow> string \<Rightarrow> conversion_record option \<Rightarrow> bool" where
  "conversion_conflict L key conv =
     (case conv of
        None \<Rightarrow> False
      | Some c \<Rightarrow>
          (case find_by lt_conversionIdentity (Some (cr_identity c)) (txns L) of
             None \<Rightarrow> False
           | Some prior \<Rightarrow> lt_idempotencyKey prior \<noteq> key))"

definition entries_of :: "ledger \<Rightarrow> string \<Rightarrow> journal_entry list" where
  "entries_of L tid =
     sort_key (\<lambda>e. case je_lineNumber e of None \<Rightarrow> 0 | Some i \<Rightarrow> i)
       (filter (\<lambda>e. je_ledgerTransactionId e = Some tid) (entries L))"

definition commit_posting ::
  "(string \<Rightarrow> string) \<Rightarrow> db_choice \<Rightarrow> post_params \<Rightarrow>
   norm_line list \<Rightarrow> conversion_record option \<Rightarrow> ledger \<Rightarrow> (ledger_error, post_result, ledger) outcome" where
  "commit_posting sha ch p ls conv L =
     (let key = pp_idempotencyKey p; hash = computePostingHash sha (pp_entryType p) ls conv in
      if conversion_conflict L key conv then (Inl LEDGER_CONVERSION_IDENTITY_CONFLICT, L)
      else case find_by lt_idempotencyKey key (txns L) of
        Some existing \<Rightarrow>
          (if lt_postingHash existing \<noteq> hash then (Inl LEDGER_IDEMPOTENCY_CONFLICT, L)
           else (Inr \<lparr>pr_transaction = existing, pr_entries = entries_of L (lt_id existing),
                      pr_replayed = True\<rparr>, L))
      | None \<Rightarrow>
          (if conv \<noteq> None \<and> conversion_raced ch then (Inl LEDGER_CONVERSION_IDENTITY_CONFLICT, L)
           else if key_raced ch then (Inl DB_UNIQUE_VIOLATION, L)
           else let t = make_txn ch p hash conv; es = make_entries ch p 1 ls in
             (Inr \<lparr>pr_transaction = t, pr_entries = es, pr_replayed = False\<rparr>,
              L\<lparr>txns := txns L @ [t], entries := entries L @ es\<rparr>)))"

definition post ::
  "(string \<Rightarrow> string) \<Rightarrow> (int \<Rightarrow> int) \<Rightarrow> db_choice \<Rightarrow> bool \<Rightarrow> post_params \<Rightarrow>
   ledger \<Rightarrow> (ledger_error, post_result, ledger) outcome" where
  "post sha rnd ch has_tx p L =
     (if \<not> has_tx then (Inl LEDGER_TX_REQUIRED, L)
      else case validate_posting rnd p of
        Inl e \<Rightarrow> (Inl e, L)
      | Inr (ls, conv) \<Rightarrow>
          (case ensureAccounts ch (pp_userId p) (first_occurrences (map nl_account ls)) L of
             (Inl e, L') \<Rightarrow> (Inl e, L')
           | (Inr _, L') \<Rightarrow> commit_posting sha ch p ls conv L'))"

section \<open>Balances and residuals\<close>

record balance_view =
  bv_debit :: int
  bv_credit :: int
  bv_side :: normal_side
  bv_balance :: int
  bv_netDebit :: int

definition authoritative_entry :: "string \<Rightarrow> journal_entry \<Rightarrow> bool" where
  "authoritative_entry code e \<longleftrightarrow> je_account e = code \<and> je_ledgerTransactionId e \<noteq> None"

definition accountBalance :: "(int \<Rightarrow> int) \<Rightarrow> ledger \<Rightarrow> string \<Rightarrow> ledger_error + balance_view" where
  "accountBalance rnd L code =
     (let rows = filter (authoritative_entry code) (entries L);
          debit = sum_rows je_debit rows; credit = sum_rows je_credit rows;
          net = rnd (debit - credit) in
      bind_sum (case find_by ar_code code (accounts L) of
                  Some row \<Rightarrow> Inr (ar_side row)
                | None \<Rightarrow> bind_sum (classifyAccountCode code) (\<lambda>(_, sp). Inr (as_side sp)))
        (\<lambda>side. Inr \<lparr>bv_debit = debit, bv_credit = credit, bv_side = side,
                     bv_balance = (if side = DEBIT then net else - net), bv_netDebit = net\<rparr>))"

definition user_liability_code :: "nat \<Rightarrow> string" where
  "user_liability_code u = ''user:'' @ show_nat u @ '':liability''"

definition userLiabilityBalance :: "(int \<Rightarrow> int) \<Rightarrow> ledger \<Rightarrow> nat \<Rightarrow> ledger_error + int" where
  "userLiabilityBalance rnd L u =
     bind_sum (accountBalance rnd L (user_liability_code u)) (\<lambda>b. Inr (bv_balance b))"

definition exactResidual :: "(int \<Rightarrow> int) \<Rightarrow> js_value \<Rightarrow> js_value list \<Rightarrow> ledger_error + int" where
  "exactResidual rnd whole parts =
     bind_sum (toExactDecimal whole) (\<lambda>t.
     bind_sum (traverse_sum toExactDecimal parts) (\<lambda>ps.
       Inr (rnd (int t - decimal_sum rnd (map int ps)))))"

section \<open>Validated postings\<close>

text \<open>The documented precision of decimal.js, and the size of a posting it covers.\<close>

definition decimal_exact :: "(int \<Rightarrow> int) \<Rightarrow> bool" where
  "decimal_exact rnd \<longleftrightarrow> (\<forall>n. \<bar>n\<bar> < 10 ^ 20 \<longrightarrow> rnd n = n)"

definition line_size :: "norm_line \<Rightarrow> int" where
  "line_size l = nl_debit l + nl_credit l"

definition posting_bounded :: "post_params \<Rightarrow> bool" where
  "posting_bounded p =
     (case traverse_sum normalize_line (pp_lines p) of
        Inl _ \<Rightarrow> True
      | Inr ls \<Rightarrow> sum_rows line_size ls < 10 ^ 20)"

definition line_asset :: "string \<Rightarrow> string" where
  "line_asset code = (case asset_of code of Inr a \<Rightarrow> a | Inl _ \<Rightarrow> '''')"

definition one_sided :: "norm_line \<Rightarrow> bool" where
  "one_sided l \<longleftrightarrow> 0 \<le> nl_debit l \<and> 0 \<le> nl_credit l \<and> (nl_debit l = 0 \<longleftrightarrow> nl_credit l \<noteq> 0)"

definition asset_net :: "string \<Rightarrow> norm_line \<Rightarrow> int" where
  "asset_net a l = (if line_asset (nl_account l) = a then nl_debit l - nl_credit l else 0)"

lemma normalize_line_one_sided: "normalize_line l = Inr nl \<Longrightarrow> one_sided nl \<and> nl_account nl = li_account l"
  by (auto simp: normalize_line_def one_sided_def split: if_splits)

lemma normalized_one_sided:
  assumes "traverse_sum normalize_line ps = Inr ls" and "l \<in> set ls"
  shows "one_sided l"
  using assms normalize_line_one_sided
  by (auto simp: traverse_sum_Inr list_all2_conv_all_nth in_set_conv_nth)

lemma decimal_sum_exact_from:
  assumes "decimal_exact rnd" and "\<forall>x \<in> set xs. 0 \<le> x" and "0 \<le> a" and "a + sum_list xs < 10 ^ 20"
  shows "foldl (\<lambda>acc x. rnd (acc + x)) a xs = a + sum_list xs"
  using assms(2-4)
proof (induction xs arbitrary: a)
  case (Cons x xs)
  then have "0 \<le> sum_list xs" by (simp add: sum_list_nonneg)
  with Cons.prems have "\<bar>a + x\<bar> < 10 ^ 20" by simp
  with assms(1) have "rnd (a + x) = a + x" by (simp add: decimal_exact_def)
  with Cons show ?case by (simp add: algebra_simps)
qed simp

lemma decimal_sum_exact:
  assumes "decimal_exact rnd" and "\<forall>x \<in> set xs. 0 \<le> x" and "sum_list xs < 10 ^ 20"
  shows "decimal_sum rnd xs = sum_list xs"
  using decimal_sum_exact_from [OF assms(1,2), of 0] assms(3) by (simp add: decimal_sum_def)

lemma sum_list_part_le:
  assumes "\<forall>l \<in> set ls. one_sided l" and "sum_rows line_size ls < 10 ^ 20"
  shows "sum_list (map nl_debit (filter P ls)) < 10 ^ 20" "sum_list (map nl_credit (filter P ls)) < 10 ^ 20"
proof -
  have "sum_list (map nl_debit (filter P ls)) \<le> sum_rows line_size ls \<and>
        sum_list (map nl_credit (filter P ls)) \<le> sum_rows line_size ls"
    using assms(1) by (induction ls) (auto simp: one_sided_def line_size_def)
  then show "sum_list (map nl_debit (filter P ls)) < 10 ^ 20" "sum_list (map nl_credit (filter P ls)) < 10 ^ 20"
    using assms(2) by linarith+
qed

lemma decimal_sums_exact:
  assumes "decimal_exact rnd" "\<forall>l \<in> set ls. one_sided l" "sum_rows line_size ls < 10 ^ 20"
  shows "decimal_sum rnd (map nl_debit (filter P ls)) = sum_list (map nl_debit (filter P ls))"
    and "decimal_sum rnd (map nl_credit (filter P ls)) = sum_list (map nl_credit (filter P ls))"
  using assms sum_list_part_le [OF assms(2,3), of P]
  by (auto intro!: decimal_sum_exact simp: one_sided_def)

lemma asset_net_sum:
  "sum_rows (asset_net a) ls =
     sum_list (map nl_debit (filter (\<lambda>l. line_asset (nl_account l) = a) ls)) -
     sum_list (map nl_credit (filter (\<lambda>l. line_asset (nl_account l) = a) ls))"
  by (induction ls) (auto simp: asset_net_def)

lemma asset_net_absent:
  "\<forall>l \<in> set ls. line_asset (nl_account l) \<noteq> a \<Longrightarrow> sum_rows (asset_net a) ls = 0"
  by (induction ls) (auto simp: asset_net_def)

lemma traverse_asset:
  "traverse_sum (\<lambda>l. asset_of (nl_account l)) ls = Inr as \<Longrightarrow> as = map (\<lambda>l. line_asset (nl_account l)) ls"
  by (induction ls arbitrary: as) (auto simp: line_asset_def)

lemma tagged_legs:
  "map snd (filter (\<lambda>(b, _). b = a) (zip (map f ls) ls)) = filter (\<lambda>l. f l = a) ls"
  by (induction ls) auto

lemma set_first_occurrences [simp]: "set (first_occurrences xs) = set xs"
  by (simp add: first_occurrences_def)

lemma single_asset: "length (first_occurrences xs) \<le> 1 \<Longrightarrow> x \<in> set xs \<Longrightarrow> y \<in> set xs \<Longrightarrow> x = y"
proof -
  assume "length (first_occurrences xs) \<le> 1" "x \<in> set xs" "y \<in> set xs"
  then have "card (set xs) \<le> 1" by (simp add: first_occurrences_def length_remdups_card_conv)
  with \<open>x \<in> set xs\<close> \<open>y \<in> set xs\<close> show "x = y"
    by (metis card_le_Suc0_iff_eq List.finite_set One_nat_def)
qed

text \<open>
  The core of the accounting argument: a posting that passes validation balances within
  every asset, whether it is a single-asset posting (one balance test) or a conversion
  (one test per leg).
\<close>

lemma validated_balances:
  assumes ok: "validate_posting rnd p = Inr (ls, conv)" and ex: "decimal_exact rnd"
    and bound: "posting_bounded p"
  shows "sum_rows (asset_net a) ls = 0"
proof -
  have ls: "traverse_sum normalize_line (pp_lines p) = Inr ls"
    and ca: "\<exists>as. check_assets rnd conv ls = Inr as" and cb: "check_balance rnd ls = None"
    using ok by (auto simp: validate_posting_def split: option.splits)
  have os: "\<forall>l \<in> set ls. one_sided l" using normalized_one_sided [OF ls] by blast
  have sz: "sum_rows line_size ls < 10 ^ 20" using bound ls by (simp add: posting_bounded_def)
  note ds = decimal_sums_exact [OF ex os sz]
  let ?f = "\<lambda>l. line_asset (nl_account l)"
  obtain as where as: "traverse_sum (\<lambda>l. asset_of (nl_account l)) ls = Inr as"
    using ca by (auto simp: check_assets_def)
  note as_eq = traverse_asset [OF as]
  show ?thesis
  proof (cases "\<exists>l \<in> set ls. ?f l = a")
    case False
    then show ?thesis by (intro asset_net_absent) blast
  next
    case present: True
    show ?thesis
    proof (cases conv)
      case None
      then have one: "length (first_occurrences (map ?f ls)) \<le> 1"
        using ca as as_eq by (auto simp: check_assets_def Let_def split: if_splits)
      have "decimal_sum rnd (map nl_debit ls) = decimal_sum rnd (map nl_credit ls)"
        using cb by (simp add: check_balance_def Let_def split: if_splits)
      then have "sum_list (map nl_debit ls) = sum_list (map nl_credit ls)"
        using ds [of "\<lambda>_. True"] by simp
      moreover have "filter (\<lambda>l. ?f l = a) ls = ls"
        using single_asset [OF one] present by (intro filter_True) auto
      ultimately show ?thesis by (simp add: asset_net_sum)
    next
      case (Some c)
      moreover have "a \<in> set as" using present by (auto simp: as_eq)
      ultimately have "fst (leg_totals rnd (zip as ls) a) = snd (leg_totals rnd (zip as ls) a)"
        using ca as by (auto simp: check_assets_def Let_def split: if_splits)
      then show ?thesis
        using ds [of "\<lambda>l. ?f l = a"]
        by (simp add: asset_net_sum leg_totals_def Let_def as_eq tagged_legs)
    qed
  qed
qed

section \<open>What a posting does to the books\<close>

definition trial_balance :: "string \<Rightarrow> ledger \<Rightarrow> int" where
  "trial_balance a L =
     sum_rows (\<lambda>e. if je_ledgerTransactionId e \<noteq> None \<and> line_asset (je_account e) = a
                    then je_debit e - je_credit e else 0) (entries L)"

definition account_net :: "string \<Rightarrow> ledger \<Rightarrow> int" where
  "account_net code L =
     sum_rows (\<lambda>e. if authoritative_entry code e then je_debit e - je_credit e else 0) (entries L)"

definition line_net :: "string \<Rightarrow> norm_line \<Rightarrow> int" where
  "line_net code l = (if nl_account l = code then nl_debit l - nl_credit l else 0)"

lemma trial_balance_entries:
  "sum_rows (\<lambda>e. if je_ledgerTransactionId e \<noteq> None \<and> line_asset (je_account e) = a
                  then je_debit e - je_credit e else 0) (make_entries ch p i ls) =
   sum_rows (asset_net a) ls"
  by (induction ls arbitrary: i) (simp_all add: make_entry_def asset_net_def)

lemma account_net_entries:
  "sum_rows (\<lambda>e. if authoritative_entry code e then je_debit e - je_credit e else 0) (make_entries ch p i ls) =
   sum_rows (line_net code) ls"
  by (induction ls arbitrary: i) (simp_all add: make_entry_def line_net_def authoritative_entry_def)

lemma ensureAccount_frame:
  "ensureAccount ch uid c L = (r, L') \<Longrightarrow> txns L' = txns L \<and> entries L' = entries L"
  by (auto simp: ensureAccount_def Let_def split: sum.splits option.splits if_splits)

lemma ensureAccounts_frame:
  "ensureAccounts ch uid cs L = (r, L') \<Longrightarrow> txns L' = txns L \<and> entries L' = entries L"
proof (induction cs arbitrary: L)
  case (Cons c cs)
  then show ?case
    by (auto split: prod.splits sum.splits dest!: ensureAccount_frame)
qed simp

lemma commit_posting_cases:
  assumes "commit_posting sha ch p ls conv L = (r, L')"
  shows "(L' = L \<and> (case r of Inl _ \<Rightarrow> True | Inr res \<Rightarrow> pr_replayed res)) \<or>
    (let t = make_txn ch p (computePostingHash sha (pp_entryType p) ls conv) conv;
         es = make_entries ch p 1 ls in
     find_by lt_idempotencyKey (pp_idempotencyKey p) (txns L) = None \<and>
     r = Inr \<lparr>pr_transaction = t, pr_entries = es, pr_replayed = False\<rparr> \<and>
     L' = L\<lparr>txns := txns L @ [t], entries := entries L @ es\<rparr>)"
  using assms by (auto simp: commit_posting_def Let_def split: if_splits option.splits)

text \<open>Every outcome of \<open>post\<close>: nothing is written, or exactly the validated lines are.\<close>

lemma post_cases:
  assumes "post sha rnd ch has_tx p L = (r, L')"
  obtains (unchanged) "entries L' = entries L" "txns L' = txns L"
      "case r of Inl _ \<Rightarrow> True | Inr res \<Rightarrow> pr_replayed res"
  | (committed) ls conv res where "r = Inr res" "has_tx" "validate_posting rnd p = Inr (ls, conv)"
      "pr_replayed res = False" "pr_entries res = make_entries ch p 1 ls"
      "pr_transaction res = make_txn ch p (computePostingHash sha (pp_entryType p) ls conv) conv"
      "entries L' = entries L @ make_entries ch p 1 ls"
      "txns L' = txns L @ [pr_transaction res]"
      "find_by lt_idempotencyKey (pp_idempotencyKey p) (txns L) = None"
proof (cases "has_tx \<and> (\<exists>ls conv. validate_posting rnd p = Inr (ls, conv))")
  case False
  then show thesis
    using assms unchanged by (cases "validate_posting rnd p") (auto simp: post_def split: if_splits)
next
  case True
  then obtain ls conv where v: "validate_posting rnd p = Inr (ls, conv)" and "has_tx" by blast
  obtain r1 L1 where e: "ensureAccounts ch (pp_userId p) (first_occurrences (map nl_account ls)) L = (r1, L1)"
    by fastforce
  note frame = ensureAccounts_frame [OF e]
  show thesis
  proof (cases r1)
    case (Inl err)
    then show thesis using assms v e \<open>has_tx\<close> frame unchanged by (auto simp: post_def)
  next
    case (Inr u)
    then have "commit_posting sha ch p ls conv L1 = (r, L')"
      using assms v e \<open>has_tx\<close> by (simp add: post_def)
    from commit_posting_cases [OF this] show thesis
    proof
      assume "L' = L1 \<and> (case r of Inl _ \<Rightarrow> True | Inr res \<Rightarrow> pr_replayed res)"
      then show thesis using frame unchanged by simp
    next
      let ?t = "make_txn ch p (computePostingHash sha (pp_entryType p) ls conv) conv"
      let ?es = "make_entries ch p 1 ls"
      let ?res = "\<lparr>pr_transaction = ?t, pr_entries = ?es, pr_replayed = False\<rparr>"
      assume c: "let t = ?t; es = ?es in
        find_by lt_idempotencyKey (pp_idempotencyKey p) (txns L1) = None \<and>
        r = Inr \<lparr>pr_transaction = t, pr_entries = es, pr_replayed = False\<rparr> \<and>
        L' = L1\<lparr>txns := txns L1 @ [t], entries := entries L1 @ es\<rparr>"
      show thesis
        by (rule committed [of ?res ls conv]) (use c frame v \<open>has_tx\<close> in \<open>simp_all add: Let_def\<close>)
    qed
  qed
qed

text \<open>Sum of the lines the posting carries, as the validation normalises them.\<close>

definition posted_lines :: "(int \<Rightarrow> int) \<Rightarrow> post_params \<Rightarrow> norm_line list" where
  "posted_lines rnd p = (case validate_posting rnd p of Inr (ls, _) \<Rightarrow> ls | Inl _ \<Rightarrow> [])"

lemma post_account_net:
  assumes "post sha rnd ch has_tx p L = (Inr res, L')"
  shows "account_net code L' = account_net code L +
    (if pr_replayed res then 0 else sum_rows (line_net code) (posted_lines rnd p))"
  using assms
proof (cases rule: post_cases)
  case unchanged
  then show ?thesis by (simp add: account_net_def)
next
  case (committed ls conv res')
  then show ?thesis
    using account_net_entries [of code ch p 1 ls] by (simp add: account_net_def posted_lines_def)
qed

lemma post_trial_balance:
  assumes "post sha rnd ch has_tx p L = (r, L')" and "decimal_exact rnd" and "posting_bounded p"
  shows "trial_balance a L' = trial_balance a L"
  using assms(1)
proof (cases rule: post_cases)
  case unchanged
  then show ?thesis by (simp add: trial_balance_def)
next
  case (committed ls conv res)
  then show ?thesis
    using validated_balances [OF _ assms(2,3)] trial_balance_entries [of a ch p 1 ls]
    by (simp add: trial_balance_def)
qed

section \<open>Exact replay\<close>

definition account_ok :: "string \<Rightarrow> ledger \<Rightarrow> bool" where
  "account_ok code L =
     (case (classifyAccountCode code, find_by ar_code code (accounts L)) of
        (Inr (_, spec), Some row) \<Rightarrow>
          ar_class row = as_class spec \<and> ar_side row = as_side spec \<and>
          ar_asset row = as_asset spec \<and> ar_network row = as_network spec
      | _ \<Rightarrow> False)"

lemma ensureAccount_ok: "ensureAccount ch uid c L = (Inr x, L') \<Longrightarrow> account_ok c L'"
  by (auto simp: ensureAccount_def account_ok_def Let_def split: sum.splits option.splits if_splits)

lemma ensureAccount_mono: "account_ok d L \<Longrightarrow> ensureAccount ch uid c L = (r, L') \<Longrightarrow> account_ok d L'"
  by (auto simp: ensureAccount_def account_ok_def Let_def split: sum.splits option.splits if_splits)

lemma ensureAccount_again: "account_ok c L \<Longrightarrow> \<exists>x. ensureAccount ch uid c L = (Inr x, L)"
  by (auto simp: ensureAccount_def account_ok_def Let_def split: sum.splits option.splits prod.splits)

lemma ensureAccounts_ok:
  "ensureAccounts ch uid cs L = (Inr u, L') \<Longrightarrow>
   (\<forall>c \<in> set cs. account_ok c L') \<and> (\<forall>d. account_ok d L \<longrightarrow> account_ok d L')"
proof (induction cs arbitrary: L)
  case (Cons c cs)
  from Cons.prems obtain x L1 where one: "ensureAccount ch uid c L = (Inr x, L1)"
    and rest: "ensureAccounts ch uid cs L1 = (Inr u, L')"
    by (auto split: prod.splits sum.splits)
  with Cons.IH [OF rest] ensureAccount_ok [OF one] ensureAccount_mono [OF _ one] show ?case
    by auto
qed simp

lemma ensureAccounts_again:
  "\<forall>c \<in> set cs. account_ok c L \<Longrightarrow> ensureAccounts ch uid cs L = (Inr (), L)"
proof (induction cs)
  case (Cons c cs)
  then obtain x where "ensureAccount ch uid c L = (Inr x, L)"
    using ensureAccount_again [of c L ch uid] by auto
  with Cons show ?case by simp
qed simp

lemma account_ok_cong: "accounts L' = accounts L \<Longrightarrow> account_ok c L' = account_ok c L"
  by (simp add: account_ok_def)

definition entry_line :: "journal_entry \<Rightarrow> nat" where
  "entry_line e = (case je_lineNumber e of None \<Rightarrow> 0 | Some i \<Rightarrow> i)"

lemma make_entries_lines:
  "map entry_line (make_entries ch p i ls) = [i..<i + length ls]"
  by (induction ls arbitrary: i) (simp_all add: entry_line_def make_entry_def upt_conv_Cons del: upt_Suc)

lemma make_entries_tid: "e \<in> set (make_entries ch p i ls) \<Longrightarrow> je_ledgerTransactionId e = Some (fresh_id ch)"
  by (induction ls arbitrary: i) (auto simp: make_entry_def)

lemma entries_of_committed:
  assumes "\<forall>e \<in> set (entries L). je_ledgerTransactionId e \<noteq> Some (fresh_id ch)"
    and "entries L' = entries L @ make_entries ch p 1 ls"
  shows "entries_of L' (fresh_id ch) = make_entries ch p 1 ls"
proof -
  have "filter (\<lambda>e. je_ledgerTransactionId e = Some (fresh_id ch)) (entries L') = make_entries ch p 1 ls"
    using assms make_entries_tid [of _ ch p 1 ls] by (simp add: filter_empty_conv)
  moreover have "sorted (map entry_line (make_entries ch p 1 ls))"
    by (simp only: make_entries_lines sorted_upt)
  ultimately show ?thesis
    by (simp add: entries_of_def entry_line_def [abs_def] sort_key_id_if_sorted)
qed

lemma commit_posting_again:
  assumes c: "commit_posting sha ch p ls conv L = (Inr res, L')"
    and fresh: "\<forall>e \<in> set (entries L). je_ledgerTransactionId e \<noteq> Some (fresh_id ch)"
  shows "commit_posting sha ch' p ls conv L' = (Inr (res\<lparr>pr_replayed := True\<rparr>), L')"
proof -
  let ?key = "pp_idempotencyKey p"
  have nc: "\<not> conversion_conflict L ?key conv"
    using c by (auto simp: commit_posting_def Let_def)
  show ?thesis
  proof (cases "find_by lt_idempotencyKey ?key (txns L)")
    case (Some existing)
    then show ?thesis using c nc by (auto simp: commit_posting_def Let_def split: if_splits)
  next
    case None
    let ?t = "make_txn ch p (computePostingHash sha (pp_entryType p) ls conv) conv"
    have L': "L' = L\<lparr>txns := txns L @ [?t], entries := entries L @ make_entries ch p 1 ls\<rparr>"
      and res: "res = \<lparr>pr_transaction = ?t, pr_entries = make_entries ch p 1 ls, pr_replayed = False\<rparr>"
      using c None nc by (auto simp: commit_posting_def Let_def split: if_splits)
    have "\<not> conversion_conflict L' ?key conv"
      using nc None by (auto simp: conversion_conflict_def L' make_txn_def find_by_None image_iff dest!: find_by_Some split: option.splits)
    moreover have "find_by lt_idempotencyKey ?key (txns L') = Some ?t"
      using None by (simp add: L' make_txn_def)
    moreover have "entries_of L' (lt_id ?t) = make_entries ch p 1 ls"
      using entries_of_committed [OF fresh] by (simp add: L' make_txn_def)
    ultimately show ?thesis
      by (simp add: commit_posting_def Let_def res) (simp add: make_txn_def)
  qed
qed

lemma commit_posting_accounts: "commit_posting sha ch p ls conv L = (r, L') \<Longrightarrow> accounts L' = accounts L"
  by (auto simp: commit_posting_def Let_def split: if_splits option.splits)

lemma post_again:
  assumes p: "post sha rnd ch True p L = (Inr res, L')"
    and fresh: "\<forall>e \<in> set (entries L). je_ledgerTransactionId e \<noteq> Some (fresh_id ch)"
  shows "post sha rnd ch' True p L' = (Inr (res\<lparr>pr_replayed := True\<rparr>), L')"
proof -
  obtain ls conv where v: "validate_posting rnd p = Inr (ls, conv)"
    using p by (auto simp: post_def split: sum.splits)
  let ?cs = "first_occurrences (map nl_account ls)"
  obtain L1 where e: "ensureAccounts ch (pp_userId p) ?cs L = (Inr (), L1)"
    and c: "commit_posting sha ch p ls conv L1 = (Inr res, L')"
    using p v by (auto simp: post_def split: sum.splits prod.splits)
  have "\<forall>c \<in> set ?cs. account_ok c L'"
    using ensureAccounts_ok [OF e] account_ok_cong [OF commit_posting_accounts [OF c]] by blast
  then have "ensureAccounts ch' (pp_userId p) ?cs L' = (Inr (), L')"
    by (rule ensureAccounts_again)
  moreover have "commit_posting sha ch' p ls conv L' = (Inr (res\<lparr>pr_replayed := True\<rparr>), L')"
    using commit_posting_again [OF c] ensureAccounts_frame [OF e] fresh by simp
  ultimately show ?thesis using v by (simp add: post_def)
qed

section \<open>The posting identity is injective\<close>

lemma append_sep_inject_right:
  assumes "c \<notin> set u" and "c \<notin> set v" and "x @ [c] @ u = y @ [c] @ v"
  shows "x = y \<and> u = v"
proof -
  have "rev u @ [c] @ rev x = rev v @ [c] @ rev y"
    using arg_cong [where f = rev, OF assms(3)] by simp
  with assms(1,2) have "rev u = rev v \<and> rev x = rev y" by (intro append_sep_inject) auto
  then show ?thesis by simp
qed

lemma colon_free_toFixed8 [simp]: "CHR '':'' \<notin> set (toFixed8 n)"
  by (auto simp: is_digit_def dest!: toFixed8_chars)

lemma line_identity_inject:
  assumes "line_identity l = line_identity m" and "one_sided l" and "one_sided m"
  shows "l = m"
proof -
  let ?d = "\<lambda>l. toFixed8 (nat (nl_debit l))" and ?c = "\<lambda>l. toFixed8 (nat (nl_credit l))"
  have eq: "(nl_account l @ '':'' @ ?d l) @ [CHR '':''] @ ?c l = (nl_account m @ '':'' @ ?d m) @ [CHR '':''] @ ?c m"
    using assms(1) by (simp add: line_identity_def)
  from append_sep_inject_right [OF _ _ eq]
  have cr: "?c l = ?c m" and eq2: "nl_account l @ [CHR '':''] @ ?d l = nl_account m @ [CHR '':''] @ ?d m"
    by simp_all
  from append_sep_inject_right [OF _ _ eq2]
  have "nl_account l = nl_account m" and "?d l = ?d m" by simp_all
  with cr assms(2,3) show ?thesis
    by (intro norm_line.equality) (auto simp: one_sided_def eq_nat_nat_iff)
qed

definition plain_char :: "char \<Rightarrow> bool" where
  "plain_char c \<longleftrightarrow> c \<noteq> CHR ''|'' \<and> c \<noteq> CHR ''#''"

lemma digit_plain: "is_digit c \<Longrightarrow> plain_char c"
  by (auto simp: plain_char_def is_digit_def)

lemma key_char_plain: "is_key_char c \<Longrightarrow> plain_char c"
  by (auto simp: plain_char_def is_key_char_def is_alnum_def is_digit_def)

lemma canonical_plain: "list_all (\<lambda>(code, _). list_all plain_char code) CANONICAL_ACCOUNTS"
  by (simp add: CANONICAL_ACCOUNTS_def plain_char_def)

lemma user_account_plain:
  assumes "user_account_match b code = Some u" and "list_all plain_char b"
  shows "list_all plain_char code"
proof -
  obtain ds where code: "code = ''user:'' @ ds @ '':'' @ b" and "list_all is_digit ds"
    using assms(1) by (auto simp: user_account_match_def between_Some split: option.splits if_splits)
  moreover have "list_all plain_char ''user:''" and "plain_char (CHR '':'')"
    by (simp_all add: plain_char_def)
  ultimately show ?thesis
    using assms(2) digit_plain by (auto simp: list_all_iff)
qed

lemma escrow_account_plain:
  assumes "escrow_account_match code = Some k"
  shows "list_all plain_char code"
proof -
  have code: "code = ''escrow:'' @ k @ '':locked''" and "list_all is_key_char k"
    using assms by (auto simp: escrow_account_match_def between_Some split: option.splits if_splits)
  moreover have "list_all plain_char ''escrow:''" and "list_all plain_char '':locked''"
    by (simp_all add: plain_char_def)
  ultimately show ?thesis
    using key_char_plain by (simp add: list_all_iff)
qed

lemma classified_plain: "classifyAccountCode code = Inr x \<Longrightarrow> list_all plain_char code"
proof -
  assume *: "classifyAccountCode code = Inr x"
  have "list_all plain_char ''liability''" "list_all plain_char ''dispute''" "list_all plain_char ''unallocated''"
    by (simp_all add: plain_char_def)
  moreover have "list_all plain_char code" if "map_of CANONICAL_ACCOUNTS code = Some sp" for sp
    using map_of_SomeD [OF that] canonical_plain by (auto simp: list_all_iff)
  ultimately show ?thesis
    using * by (auto simp: classifyAccountCode_def intro: user_account_plain escrow_account_plain split: if_splits option.splits)
qed

lemma toFixed8_plain: "list_all plain_char (toFixed8 n)"
proof -
  have "plain_char (CHR ''.'')" by (simp add: plain_char_def)
  then show ?thesis using toFixed8_chars digit_plain by (fastforce simp: list_all_iff)
qed

lemma line_identity_plain:
  assumes "classifyAccountCode (nl_account l) = Inr x"
  shows "list_all plain_char (line_identity l)"
proof -
  have "plain_char (CHR '':'')" by (simp add: plain_char_def)
  then show ?thesis
    using classified_plain [OF assms] toFixed8_plain by (simp add: line_identity_def)
qed

lemma join_with_chars: "c \<in> set (join_with s xs) \<Longrightarrow> c = s \<or> (\<exists>x \<in> set xs. c \<in> set x)"
  by (induction s xs rule: join_with.induct) auto

lemma conversion_suffix_inject:
  assumes eq: "conversion_suffix c = conversion_suffix d"
  shows "c = d"
proof -
  let ?q = "\<lambda>c. case cr_quoteReference c of None \<Rightarrow> ''null'' | Some q \<Rightarrow> json_quote q"
  let ?tail = "\<lambda>c. json_quote (toFixed8 (cr_rate c)) @ '','' @ json_quote ''quoteReference'' @ '':'' @ ?q c @ ''}''"
  have "json_quote (cr_identity c) @ '','' @ json_quote ''rate'' @ '':'' @ ?tail c =
        json_quote (cr_identity d) @ '','' @ json_quote ''rate'' @ '':'' @ ?tail d"
    using eq by (simp add: conversion_suffix_def)
  then have "cr_identity c = cr_identity d" and "?tail c = ?tail d"
    by (simp_all add: json_quote_prefix_free)
  moreover from this(2) have "cr_rate c = cr_rate d" and "?q c @ ''}'' = ?q d @ ''}''"
    by (simp_all only: json_quote_prefix_free) simp_all
  moreover from this(2) have "cr_quoteReference c = cr_quoteReference d"
    by (auto simp: json_quote_def [of "the _"] split: option.splits) (simp_all add: json_quote_def)
  ultimately show ?thesis by (intro conversion_record.equality) simp_all
qed

lemma image_mset_inject:
  "image_mset f A = image_mset f B \<Longrightarrow> inj_on f (set_mset A \<union> set_mset B) \<Longrightarrow> A = B"
proof (induction A arbitrary: B)
  case empty
  then show ?case by simp
next
  case (add x A)
  then have "f x \<in># image_mset f B" by (metis image_mset_add_mset union_single_eq_member)
  then obtain y where y: "y \<in># B" "f y = f x" by auto
  have "y = x" by (rule inj_onD [OF add.prems(2) y(2)]) (use y(1) in simp_all)
  with y obtain B' where B: "B = add_mset x B'" by (metis mset_add)
  with add show ?case by (auto intro: inj_on_subset)
qed

lemma entry_type_plain: "et \<in> set ENTRY_TYPES \<Longrightarrow> CHR ''#'' \<notin> set et"
proof -
  have "list_all (list_all plain_char) ENTRY_TYPES" by (simp add: ENTRY_TYPES_def plain_char_def)
  then show "et \<in> set ENTRY_TYPES \<Longrightarrow> CHR ''#'' \<notin> set et" by (auto simp: list_all_iff plain_char_def)
qed

definition lines_text :: "norm_line list \<Rightarrow> string" where
  "lines_text ls = join_with (CHR ''|'') (sort (map line_identity ls))"

definition conversion_text :: "conversion_record option \<Rightarrow> string" where
  "conversion_text conv = (case conv of None \<Rightarrow> '''' | Some c \<Rightarrow> conversion_suffix c)"

definition ledger_lines :: "norm_line list \<Rightarrow> bool" where
  "ledger_lines ls \<longleftrightarrow> ls \<noteq> [] \<and>
     (\<forall>l \<in> set ls. one_sided l \<and> (\<exists>x. classifyAccountCode (nl_account l) = Inr x))"

lemma lines_text_plain: "ledger_lines ls \<Longrightarrow> CHR ''#'' \<notin> set (lines_text ls)"
  using line_identity_plain
  by (fastforce simp: lines_text_def ledger_lines_def list_all_iff plain_char_def dest!: join_with_chars)

lemma conversion_text_shape: "conversion_text conv = [] \<or> (\<exists>u. conversion_text conv = CHR ''#'' # u)"
  by (auto simp: conversion_text_def conversion_suffix_def split: option.splits)

lemma conversion_text_inject: "conversion_text c = conversion_text d \<Longrightarrow> c = d"
  using conversion_suffix_inject
  by (auto simp: conversion_text_def split: option.splits) (auto simp: conversion_suffix_def)

lemma takeWhile_conversion_text:
  assumes "CHR ''#'' \<notin> set x"
  shows "takeWhile (\<lambda>ch. ch \<noteq> CHR ''#'') (x @ conversion_text c) = x"
proof -
  have "takeWhile (\<lambda>ch. ch \<noteq> CHR ''#'') (x @ t) = x @ takeWhile (\<lambda>ch. ch \<noteq> CHR ''#'') t" for t
    using assms by (induction x) auto
  then show ?thesis using conversion_text_shape [of c] by auto
qed

lemma text_split:
  assumes "CHR ''#'' \<notin> set x" and "CHR ''#'' \<notin> set y"
    and "x @ conversion_text c = y @ conversion_text d"
  shows "x = y \<and> c = d"
proof -
  have "x = y"
    using takeWhile_conversion_text [OF assms(1), of c] takeWhile_conversion_text [OF assms(2), of d] assms(3)
    by simp
  with assms(3) show ?thesis using conversion_text_inject by simp
qed

lemma bar_free_lines:
  assumes "ledger_lines ls" and "x \<in> set (sort (map line_identity ls))"
  shows "CHR ''|'' \<notin> set x"
proof -
  obtain l y where "x = line_identity l" and cl: "classifyAccountCode (nl_account l) = Inr y"
    using assms by (auto simp: ledger_lines_def)
  then show ?thesis
    using line_identity_plain [OF cl] by (auto simp: list_all_iff plain_char_def)
qed

lemma sort_eq_Nil: "sort xs = [] \<longleftrightarrow> xs = []"
  by (metis length_0_conv length_sort)

lemma lines_text_inject:
  assumes "lines_text ls = lines_text ms" and "ledger_lines ls" and "ledger_lines ms"
  shows "mset ls = mset ms"
proof -
  have "sort (map line_identity ls) = sort (map line_identity ms)"
  proof (rule join_with_inject [of "CHR ''|''"])
    show "sort (map line_identity ls) \<noteq> []" and "sort (map line_identity ms) \<noteq> []"
      using assms(2,3) by (simp_all add: sort_eq_Nil ledger_lines_def)
  qed (use assms bar_free_lines in \<open>auto simp only: lines_text_def\<close>)
  then have "image_mset line_identity (mset ls) = image_mset line_identity (mset ms)"
    by (metis mset_map mset_sort)
  then show ?thesis
    using assms(2,3) line_identity_inject
    by (elim image_mset_inject) (auto simp: inj_on_def ledger_lines_def)
qed

lemma posting_identity_inject:
  assumes eq: "posting_identity et ls c = posting_identity et' ls' c'"
    and "et \<in> set ENTRY_TYPES" and "et' \<in> set ENTRY_TYPES" and "ledger_lines ls" and "ledger_lines ls'"
  shows "et = et' \<and> mset ls = mset ls' \<and> c = c'"
proof -
  have "et @ [CHR ''#''] @ (lines_text ls @ conversion_text c) =
        et' @ [CHR ''#''] @ (lines_text ls' @ conversion_text c')"
    using eq by (simp add: posting_identity_def lines_text_def conversion_text_def)
  from append_sep_inject [OF entry_type_plain entry_type_plain this] assms(2,3)
  have "et = et'" and "lines_text ls @ conversion_text c = lines_text ls' @ conversion_text c'"
    by simp_all
  with text_split [OF lines_text_plain lines_text_plain] assms(4,5) lines_text_inject
  show ?thesis by blast
qed

lemma validated_lines:
  assumes "validate_posting rnd p = Inr (ls, conv)"
  shows "ledger_lines ls" and "pp_entryType p \<in> set ENTRY_TYPES" and "2 \<le> length ls"
proof -
  have h: "check_header p = None" and ls: "traverse_sum normalize_line (pp_lines p) = Inr ls"
    and ca: "\<exists>as. traverse_sum (\<lambda>l. asset_of (nl_account l)) ls = Inr as"
    using assms by (auto simp: validate_posting_def check_assets_def split: option.splits)
  show et: "pp_entryType p \<in> set ENTRY_TYPES"
    using h by (auto simp: check_header_def split: if_splits)
  have "length ls = length (pp_lines p)"
    using ls by (auto simp: traverse_sum_Inr dest: list_all2_lengthD)
  then show two: "2 \<le> length ls" using h by (auto simp: check_header_def split: if_splits)
  have "\<exists>x. classifyAccountCode (nl_account l) = Inr x" if "l \<in> set ls" for l
    using ca that by (auto simp: traverse_sum_Inr asset_of_def list_all2_conv_all_nth in_set_conv_nth)
  then show "ledger_lines ls"
    using normalized_one_sided [OF ls] two by (auto simp: ledger_lines_def)
qed

section \<open>Account codes of the grammar\<close>

lemma user_match_code:
  "user_account_match b (''user:'' @ show_nat u @ '':'' @ b) = Some u"
proof -
  have "between ''user:'' ('':'' @ b) (''user:'' @ show_nat u @ '':'' @ b) = Some (show_nat u)"
    by (simp only: between_Some)
  then show ?thesis by (simp add: user_account_match_def)
qed

lemma classify_user_liability:
  "length (user_liability_code u) \<le> 80 \<Longrightarrow>
   classifyAccountCode (user_liability_code u) = Inr (USER_LIABILITY u, liability_spec)"
  using user_match_code [of "''liability''" u]
  by (simp add: classifyAccountCode_def user_liability_code_def)

lemma compact_id_chars: "list_all is_alnum (filter (\<lambda>c. c \<noteq> CHR ''-'') i) \<Longrightarrow> list_all is_key_char (compact_id i)"
  by (auto simp: compact_id_def list_all_iff is_key_char_def dest!: in_set_takeD)

lemma user_match_prefix: "user_account_match b (c # s) = Some u \<Longrightarrow> c = CHR ''u''"
  by (auto simp: user_account_match_def between_Some split: option.splits)

lemma classify_susu_code:
  assumes "list_all is_alnum (filter (\<lambda>c. c \<noteq> CHR ''-'') i)" and "list_all is_alnum (filter (\<lambda>c. c \<noteq> CHR ''-'') j)"
  shows "classifyAccountCode (susuEscrowCode i j) =
      Inr (ESCROW_LOCKED (''susu-'' @ compact_id i @ ''-'' @ compact_id j), liability_spec)"
proof -
  let ?key = "''susu-'' @ compact_id i @ ''-'' @ compact_id j"
  have "length (compact_id i) \<le> 12" and "length (compact_id j) \<le> 12" by (simp_all add: compact_id_def)
  then have len: "length (susuEscrowCode i j) \<le> 80" by (simp add: susuEscrowCode_def)
  have "is_alnum (CHR ''s'')" and "list_all is_key_char ''susu-''" and "is_key_char (CHR ''-'')"
    by (simp_all add: is_alnum_def is_key_char_def)
  then have k: "?key \<noteq> [] \<and> is_alnum (hd ?key) \<and> list_all is_key_char ?key"
    using compact_id_chars [OF assms(1)] compact_id_chars [OF assms(2)] by simp
  have "between ''escrow:'' '':locked'' (susuEscrowCode i j) = Some ?key"
    by (simp add: between_Some susuEscrowCode_def)
  then have em: "escrow_account_match (susuEscrowCode i j) = Some ?key"
    using k by (simp add: escrow_account_match_def)
  have "user_account_match ''liability'' (susuEscrowCode i j) = None"
    using user_match_prefix [of "''liability''"] by (fastforce simp: susuEscrowCode_def)
  with em len show ?thesis by (simp add: classifyAccountCode_def susuEscrowCode_def)
qed

end
