(* ===== verification/Ledger_Run.thy ===== *)
theory Ledger_Run
  imports Ledger
begin

text \<open>
  Histories of the ledger: sequences of \<open>post\<close> calls, each in the caller's transaction
  (\<open>transaction\<close>: a posting that throws leaves nothing behind). The database draws a
  transaction id no row carries (\<open>fresh_for\<close>, the UUID primary key); everything else
  about a posting, its parameters and the races it loses, is arbitrary.

  The theory proves the books balance in every reachable ledger, per transaction and per
  asset, that an idempotency key and a conversion identity are booked at most once, and
  that a repeated posting returns the committed rows however much was posted in between.
  The locale \<open>posting_port\<close> is the interface the services that post rely on.
\<close>

section \<open>Histories\<close>

definition empty_ledger :: ledger where
  "empty_ledger = \<lparr>accounts = [], txns = [], entries = []\<rparr>"

definition fresh_for :: "db_choice \<Rightarrow> ledger \<Rightarrow> bool" where
  "fresh_for ch L \<longleftrightarrow> fresh_id ch \<notin> lt_id ` set (txns L) \<and>
     (\<forall>e \<in> set (entries L). je_ledgerTransactionId e \<noteq> Some (fresh_id ch))"

inductive ledger_steps :: "(string \<Rightarrow> string) \<Rightarrow> (int \<Rightarrow> int) \<Rightarrow> ledger \<Rightarrow> ledger \<Rightarrow> bool"
  for sha rnd where
  none: "ledger_steps sha rnd L L"
| step: "ledger_steps sha rnd L L1 \<Longrightarrow> fresh_for ch L1 \<Longrightarrow> posting_bounded p \<Longrightarrow>
    transaction id (post sha rnd ch has_tx p) L1 = (r, L2) \<Longrightarrow> ledger_steps sha rnd L L2"

definition txn_net :: "string \<Rightarrow> ledger \<Rightarrow> string \<Rightarrow> int" where
  "txn_net a L tid =
     sum_rows (\<lambda>e. if je_ledgerTransactionId e = Some tid \<and> line_asset (je_account e) = a
                    then je_debit e - je_credit e else 0) (entries L)"

definition booked_identities :: "ledger \<Rightarrow> string list" where
  "booked_identities L = List.map_filter lt_conversionIdentity (txns L)"

text \<open>The invariant of the books.\<close>

definition ledger_inv :: "ledger \<Rightarrow> bool" where
  "ledger_inv L \<longleftrightarrow>
     distinct (map lt_id (txns L)) \<and> distinct (map lt_idempotencyKey (txns L)) \<and>
     distinct (booked_identities L) \<and> distinct (map ar_code (accounts L)) \<and>
     (\<forall>e \<in> set (entries L). \<forall>tid. je_ledgerTransactionId e = Some tid \<longrightarrow> tid \<in> lt_id ` set (txns L)) \<and>
     (\<forall>tid a. txn_net a L tid = 0)"

lemma transaction_id_cases:
  assumes "transaction id f s = (r, s')"
  obtains (rolled_back) e where "r = Inl e" "s' = s" | (returned) a where "r = Inr a" "f s = (Inr a, s')"
  using assms by (cases r) (auto simp: transaction_Inl)

lemma booked_identities_snoc:
  "txns L' = txns L @ [t] \<Longrightarrow>
   booked_identities L' = booked_identities L @ (case lt_conversionIdentity t of None \<Rightarrow> [] | Some c \<Rightarrow> [c])"
  by (simp add: booked_identities_def List.map_filter_def split: option.splits)

lemma in_booked_identities:
  "c \<in> set (booked_identities L) \<longleftrightarrow> Some c \<in> lt_conversionIdentity ` set (txns L)"
proof -
  have "set (List.map_filter f xs) = {y. Some y \<in> f ` set xs}" for f :: "ledger_txn \<Rightarrow> string option" and xs
    by (induction xs) (auto simp: List.map_filter_simps split: option.splits)
  then show ?thesis by (simp add: booked_identities_def)
qed

lemma txn_net_committed:
  assumes "entries L' = entries L @ make_entries ch p i ls"
  shows "txn_net a L' tid = txn_net a L tid + (if tid = fresh_id ch then sum_rows (asset_net a) ls else 0)"
proof -
  have "sum_rows (\<lambda>e. if je_ledgerTransactionId e = Some tid \<and> line_asset (je_account e) = a
            then je_debit e - je_credit e else 0) (make_entries ch p i ls) =
        (if tid = fresh_id ch then sum_rows (asset_net a) ls else 0)"
    by (induction ls arbitrary: i) (auto simp: make_entry_def asset_net_def)
  with assms show ?thesis by (simp add: txn_net_def)
qed

lemma ensureAccounts_codes:
  "ensureAccounts ch uid cs L = (r, L') \<Longrightarrow> distinct (map ar_code (accounts L)) \<Longrightarrow>
   distinct (map ar_code (accounts L'))"
proof (induction cs arbitrary: L)
  case (Cons c cs)
  obtain r1 L1 where one: "ensureAccount ch uid c L = (r1, L1)" by fastforce
  then have "distinct (map ar_code (accounts L1))"
    using Cons.prems(2)
    by (auto simp: ensureAccount_def Let_def find_by_None split: sum.splits option.splits if_splits)
  with Cons one show ?case by (auto split: sum.splits)
qed simp

lemma post_codes:
  assumes "post sha rnd ch has_tx p L = (r, L')" and "distinct (map ar_code (accounts L))"
  shows "distinct (map ar_code (accounts L'))"
  using assms commit_posting_accounts ensureAccounts_codes
  by (fastforce simp: post_def split: if_splits sum.splits prod.splits)

text \<open>A committed conversion is new: an earlier posting of its identity would be a conflict
  or a replay.\<close>

lemma post_new_identity:
  assumes "post sha rnd ch has_tx p L = (Inr res, L')" and "\<not> pr_replayed res"
    and "lt_conversionIdentity (pr_transaction res) = Some c"
  shows "Some c \<notin> lt_conversionIdentity ` set (txns L)"
proof
  assume "Some c \<in> lt_conversionIdentity ` set (txns L)"
  then obtain prior where prior: "find_by lt_conversionIdentity (Some c) (txns L) = Some prior"
    using find_by_None [of lt_conversionIdentity "Some c" "txns L"] by fastforce
  obtain ls conv L1 where "ensureAccounts ch (pp_userId p) (first_occurrences (map nl_account ls)) L = (Inr (), L1)"
    and cp: "commit_posting sha ch p ls conv L1 = (Inr res, L')"
    using assms(1) by (auto simp: post_def split: if_splits sum.splits prod.splits)
  then have tx: "txns L1 = txns L" by (auto dest: ensureAccounts_frame)
  have none: "find_by lt_idempotencyKey (pp_idempotencyKey p) (txns L) = None"
    and nc: "\<not> conversion_conflict L1 (pp_idempotencyKey p) conv"
    and conv: "map_option cr_identity conv = Some c"
    using cp assms(2,3) tx
    by (auto simp: commit_posting_def make_txn_def Let_def split: if_splits option.splits)
  then have "lt_idempotencyKey prior = pp_idempotencyKey p"
    using prior tx by (auto simp: conversion_conflict_def)
  with none find_by_Some [OF prior] show False by (force simp: find_by_None)
qed

lemma post_inv:
  assumes "post sha rnd ch has_tx p L = (r, L')" and inv: "ledger_inv L" and fresh: "fresh_for ch L"
    and "decimal_exact rnd" and "posting_bounded p"
  shows "ledger_inv L'"
proof -
  have codes: "distinct (map ar_code (accounts L'))"
    using post_codes [OF assms(1)] inv by (simp add: ledger_inv_def)
  from assms(1) show ?thesis
  proof (cases rule: post_cases)
    case unchanged
    then show ?thesis using inv codes by (simp add: ledger_inv_def booked_identities_def txn_net_def)
  next
    case (committed ls conv res)
    have ids: "lt_id (pr_transaction res) = fresh_id ch"
      "lt_idempotencyKey (pr_transaction res) = pp_idempotencyKey p"
      using committed(6) by (simp_all add: make_txn_def)
    have "distinct (booked_identities L')"
      using booked_identities_snoc [OF committed(8)] post_new_identity [OF assms(1) [unfolded committed(1)]]
        committed(4) inv in_booked_identities
      by (auto simp: ledger_inv_def split: option.splits)
    moreover have "txn_net a L' tid = 0" for a tid
      using txn_net_committed [OF committed(7), of a tid] inv
        validated_balances [OF committed(3) assms(4,5), of a] by (simp add: ledger_inv_def)
    ultimately show ?thesis
      using inv codes committed(7-9) fresh ids
      by (auto simp: ledger_inv_def fresh_for_def find_by_None dest: make_entries_tid)
  qed
qed

lemma ledger_steps_inv:
  "ledger_steps sha rnd L L' \<Longrightarrow> decimal_exact rnd \<Longrightarrow> ledger_inv L \<Longrightarrow> ledger_inv L'"
proof (induction rule: ledger_steps.induct)
  case (step L L1 ch p has_tx r L2)
  from step.hyps(4) show ?case
    by (cases rule: transaction_id_cases) (use step post_inv in auto)
qed simp

lemma empty_ledger_inv [simp]: "ledger_inv empty_ledger"
  by (simp add: ledger_inv_def empty_ledger_def booked_identities_def List.map_filter_def txn_net_def)

lemma ledger_steps_trial_balance:
  "ledger_steps sha rnd L L' \<Longrightarrow> decimal_exact rnd \<Longrightarrow> trial_balance a L' = trial_balance a L"
proof (induction rule: ledger_steps.induct)
  case (step L L1 ch p has_tx r L2)
  from step.hyps(4) show ?case
    by (cases rule: transaction_id_cases) (use step post_trial_balance in auto)
qed simp

section \<open>A committed posting stays replayable\<close>

text \<open>What a ledger must hold for a posting to replay with a given result.\<close>

definition replays :: "(string \<Rightarrow> string) \<Rightarrow> (int \<Rightarrow> int) \<Rightarrow> post_params \<Rightarrow> post_result \<Rightarrow> ledger \<Rightarrow> bool" where
  "replays sha rnd p res L \<longleftrightarrow>
     (case validate_posting rnd p of
        Inl _ \<Rightarrow> False
      | Inr (ls, conv) \<Rightarrow>
          (\<forall>c \<in> set (map nl_account ls). account_ok c L) \<and>
          find_by lt_idempotencyKey (pp_idempotencyKey p) (txns L) = Some (pr_transaction res) \<and>
          lt_postingHash (pr_transaction res) = computePostingHash sha (pp_entryType p) ls conv \<and>
          entries_of L (lt_id (pr_transaction res)) = pr_entries res \<and>
          (case conv of None \<Rightarrow> True
           | Some c \<Rightarrow> \<exists>t. find_by lt_conversionIdentity (Some (cr_identity c)) (txns L) = Some t \<and>
                            lt_idempotencyKey t = pp_idempotencyKey p))"

lemma replays_post:
  assumes "replays sha rnd p res L"
  shows "post sha rnd ch True p L = (Inr (res\<lparr>pr_replayed := True\<rparr>), L)"
proof -
  obtain ls conv where v: "validate_posting rnd p = Inr (ls, conv)"
    using assms by (auto simp: replays_def split: sum.splits)
  have "ensureAccounts ch (pp_userId p) (first_occurrences (map nl_account ls)) L = (Inr (), L)"
    using assms v by (intro ensureAccounts_again) (auto simp: replays_def)
  then show ?thesis
    using assms v
    by (auto simp: post_def commit_posting_def conversion_conflict_def replays_def Let_def split: option.splits)
qed

lemma post_replays:
  assumes p: "post sha rnd ch True p L = (Inr res, L')" and fresh: "fresh_for ch L"
    and booked: "\<not> pr_replayed res"
  shows "replays sha rnd p res L'"
proof -
  obtain ls conv where v: "validate_posting rnd p = Inr (ls, conv)"
    using p by (auto simp: post_def split: sum.splits)
  let ?cs = "first_occurrences (map nl_account ls)"
  obtain L1 where e: "ensureAccounts ch (pp_userId p) ?cs L = (Inr (), L1)"
    and c: "commit_posting sha ch p ls conv L1 = (Inr res, L')"
    using p v by (auto simp: post_def split: sum.splits prod.splits)
  have ok: "\<forall>c \<in> set (map nl_account ls). account_ok c L'"
    using ensureAccounts_ok [OF e] account_ok_cong [OF commit_posting_accounts [OF c]] by auto
  let ?t = "make_txn ch p (computePostingHash sha (pp_entryType p) ls conv) conv"
  have new: "find_by lt_idempotencyKey (pp_idempotencyKey p) (txns L) = None"
    and t: "pr_transaction res = ?t" and es: "pr_entries res = make_entries ch p 1 ls"
    and L': "txns L' = txns L @ [?t]" "entries L' = entries L @ make_entries ch p 1 ls"
    using p v booked by (cases rule: post_cases [OF p]; auto)+
  have "\<exists>t. find_by lt_conversionIdentity (Some (cr_identity k)) (txns L') = Some t \<and>
            lt_idempotencyKey t = pp_idempotencyKey p" if "conv = Some k" for k
  proof -
    have "Some (cr_identity k) \<notin> lt_conversionIdentity ` set (txns L)"
      by (rule post_new_identity [OF p booked]) (simp add: t that make_txn_def)
    then have "find_by lt_conversionIdentity (Some (cr_identity k)) (txns L) = None"
      by (simp add: find_by_None)
    then show ?thesis by (simp add: L' that make_txn_def)
  qed
  moreover have "entries_of L' (fresh_id ch) = make_entries ch p 1 ls"
    using fresh L'(2) by (intro entries_of_committed) (auto simp: fresh_for_def)
  ultimately show ?thesis
    using ok new t es L'(1) v by (auto simp: replays_def make_txn_def split: option.splits)
qed

lemma ensureAccounts_mono:
  "ensureAccounts ch uid cs L = (r, L') \<Longrightarrow> account_ok d L \<Longrightarrow> account_ok d L'"
proof (induction cs arbitrary: L)
  case (Cons c cs)
  obtain r1 L1 where one: "ensureAccount ch uid c L = (r1, L1)" by fastforce
  with Cons ensureAccount_mono [OF _ one] show ?case by (auto split: sum.splits)
qed simp

lemma post_account_mono:
  "post sha rnd ch has_tx p L = (r, L') \<Longrightarrow> account_ok d L \<Longrightarrow> account_ok d L'"
  using ensureAccounts_mono account_ok_cong [OF commit_posting_accounts]
  by (fastforce simp: post_def split: if_splits sum.splits prod.splits)

lemma entries_of_other:
  assumes "entries L' = entries L @ make_entries ch q i ls" and "tid \<noteq> fresh_id ch"
  shows "entries_of L' tid = entries_of L tid"
proof -
  have "filter (\<lambda>e. je_ledgerTransactionId e = Some tid) (make_entries ch q i ls) = []"
    using assms(2) make_entries_tid [of _ ch q i ls] by (auto simp: filter_empty_conv)
  with assms(1) show ?thesis by (simp add: entries_of_def)
qed

lemma replays_stable:
  assumes "post sha rnd ch has_tx q L = (r, L')" and "fresh_for ch L" and rp: "replays sha rnd p res L"
  shows "replays sha rnd p res L'"
proof -
  have ok: "account_ok c L \<Longrightarrow> account_ok c L'" for c by (rule post_account_mono [OF assms(1)])
  from assms(1) show ?thesis
  proof (cases rule: post_cases)
    case unchanged
    then show ?thesis using rp ok by (auto simp: replays_def entries_of_def split: sum.splits option.splits)
  next
    case (committed ls conv res')
    have "pr_transaction res \<in> set (txns L)"
      using rp by (auto simp: replays_def split: sum.splits dest: find_by_Some)
    then have "lt_id (pr_transaction res) \<noteq> fresh_id ch"
      using assms(2) by (force simp: fresh_for_def)
    from entries_of_other [OF committed(7) this] show ?thesis
      using rp ok committed(8) by (auto simp: replays_def split: sum.splits option.splits)
  qed
qed

lemma ledger_steps_replays:
  "ledger_steps sha rnd L L' \<Longrightarrow> replays sha rnd p res L \<Longrightarrow> replays sha rnd p res L'"
proof (induction rule: ledger_steps.induct)
  case (step L L1 ch q has_tx r L2)
  from step.hyps(4) show ?case
    by (cases rule: transaction_id_cases) (use step replays_stable in auto)
qed simp

section \<open>The interface to the services that post\<close>

text \<open>
  \<open>posting_port\<close> is what a client of the ledger relies on: a booking under an unused key
  moves each account by the lines of the posting, a booking under a used key moves nothing,
  and the keys only grow. Inside it, a client that keeps a table of its own, one row per
  booking, has that table mirrored by an account.
\<close>

locale posting_port =
  fixes book :: "'c \<Rightarrow> 'p \<Rightarrow> 'l \<Rightarrow> ('e, 'r, 'l) outcome"
    and booked :: "string \<Rightarrow> 'l \<Rightarrow> bool"
    and key_of :: "'p \<Rightarrow> string"
    and net :: "string \<Rightarrow> 'l \<Rightarrow> int"
    and moves :: "'p \<Rightarrow> string \<Rightarrow> int"
  assumes book_net: "book c p l = (Inr r, l') \<Longrightarrow>
      net a l' = net a l + (if booked (key_of p) l then 0 else moves p a)"
    and book_key: "book c p l = (Inr r, l') \<Longrightarrow> booked k l' \<longleftrightarrow> booked k l \<or> k = key_of p"
begin

definition mirrored :: "string \<Rightarrow> string set \<Rightarrow> ('t \<Rightarrow> string) \<Rightarrow> ('t \<Rightarrow> int) \<Rightarrow> 't list \<Rightarrow> 'l \<Rightarrow> bool" where
  "mirrored acct keys key qty rows l \<longleftrightarrow>
     net acct l = sum_rows qty rows \<and> (\<forall>k \<in> keys. booked k l \<longleftrightarrow> k \<in> key ` set rows)"

lemma book_mirrored:
  assumes "mirrored acct keys key qty rows l" and "book c p l = (Inr r, l')"
    and "key_of p = key row" and "key row \<in> keys" and "key row \<notin> key ` set rows"
    and "moves p acct = qty row"
  shows "mirrored acct keys key qty (rows @ [row]) l'"
  using assms book_net [OF assms(2)] book_key [OF assms(2)] by (auto simp: mirrored_def)

lemma book_elsewhere:
  assumes "mirrored acct keys key qty rows l" and "book c p l = (Inr r, l')"
    and "key_of p \<notin> keys" and "moves p acct = 0"
  shows "mirrored acct keys key qty rows l'"
  using assms book_net [OF assms(2)] book_key [OF assms(2)] by (auto simp: mirrored_def)

end

definition booked_key :: "string \<Rightarrow> ledger \<Rightarrow> bool" where
  "booked_key k L \<longleftrightarrow> k \<in> lt_idempotencyKey ` set (txns L)"

definition posting_moves :: "(int \<Rightarrow> int) \<Rightarrow> post_params \<Rightarrow> string \<Rightarrow> int" where
  "posting_moves rnd p code = sum_rows (line_net code) (posted_lines rnd p)"

text \<open>A posting that moves one quantity from one account to another.\<close>

lemma transfer_moves:
  assumes "post sha rnd ch True p L = (Inr res, L')"
    and "pp_lines p = [\<lparr>li_account = a, li_debit = v, li_credit = JNull\<rparr>, \<lparr>li_account = b, li_debit = JNull, li_credit = v\<rparr>]"
    and "toExactDecimal v = Inr n"
  shows "posting_moves rnd p code = (if a = code then int n else 0) - (if b = code then int n else 0)"
proof -
  obtain ls conv where v: "validate_posting rnd p = Inr (ls, conv)"
    using assms(1) by (auto simp: post_def split: sum.splits)
  then have "traverse_sum normalize_line (pp_lines p) = Inr ls"
    by (auto simp: validate_posting_def split: option.splits)
  then have "ls = [\<lparr>nl_account = a, nl_debit = int n, nl_credit = 0\<rparr>, \<lparr>nl_account = b, nl_debit = 0, nl_credit = int n\<rparr>]"
    using assms(2,3) by (auto simp: normalize_line_def optional_quantity_def simp del: toExactDecimal.simps split: if_splits)
  with v show ?thesis by (simp add: posting_moves_def posted_lines_def line_net_def)
qed

lemma post_replayed_iff:
  assumes "post sha rnd ch has_tx p L = (Inr res, L')"
  shows "pr_replayed res \<longleftrightarrow> booked_key (pp_idempotencyKey p) L"
proof -
  obtain ls conv L1 where "ensureAccounts ch (pp_userId p) (first_occurrences (map nl_account ls)) L = (Inr (), L1)"
    and c: "commit_posting sha ch p ls conv L1 = (Inr res, L')"
    using assms by (auto simp: post_def split: if_splits sum.splits prod.splits)
  then have "txns L1 = txns L" by (auto dest: ensureAccounts_frame)
  with c show ?thesis
    using find_by_None [of lt_idempotencyKey "pp_idempotencyKey p" "txns L"]
    by (auto simp: commit_posting_def booked_key_def Let_def split: if_splits option.splits)
qed

lemma post_booked:
  assumes "post sha rnd ch has_tx p L = (Inr res, L')"
  shows "booked_key k L' \<longleftrightarrow> booked_key k L \<or> k = pp_idempotencyKey p"
  using assms
proof (cases rule: post_cases)
  case unchanged
  then show ?thesis using post_replayed_iff [OF assms] by (auto simp: booked_key_def)
next
  case (committed ls conv res')
  then show ?thesis by (auto simp: booked_key_def make_txn_def)
qed

interpretation lp: posting_port "\<lambda>ch. post sha rnd ch True" booked_key pp_idempotencyKey account_net
  "posting_moves rnd" for sha rnd
proof
  fix c p l r l' a
  assume p: "post sha rnd c True p l = (Inr r, l')"
  show "account_net a l' = account_net a l + (if booked_key (pp_idempotencyKey p) l then 0 else posting_moves rnd p a)"
    using post_account_net [OF p] post_replayed_iff [OF p] by (simp add: posting_moves_def)
next
  fix c p l r l' k
  assume "post sha rnd c True p l = (Inr r, l')"
  then show "booked_key k l' \<longleftrightarrow> booked_key k l \<or> k = pp_idempotencyKey p" by (rule post_booked)
qed

text \<open>
  The part of an account booked under the keys of one client: \<open>P\<close> picks the keys, which the entries
  carry. The other postings make up the rest of the balance.
\<close>

definition keyed_net :: "(string \<Rightarrow> bool) \<Rightarrow> string \<Rightarrow> ledger \<Rightarrow> int" where
  "keyed_net P code L =
     sum_rows (\<lambda>e. if authoritative_entry code e \<and> P (je_transactionId e) then je_debit e - je_credit e else 0) (entries L)"

lemma keyed_net_entries:
  "sum_rows (\<lambda>e. if authoritative_entry code e \<and> P (je_transactionId e) then je_debit e - je_credit e else 0) (make_entries ch p i ls) =
   (if P (pp_idempotencyKey p) then sum_rows (line_net code) ls else 0)"
  by (induction ls arbitrary: i) (simp_all add: make_entry_def line_net_def authoritative_entry_def)

lemma keyed_net_split: "account_net code L = keyed_net P code L + keyed_net (\<lambda>k. \<not> P k) code L"
proof -
  have "sum_rows (\<lambda>e. if authoritative_entry code e then je_debit e - je_credit e else 0) es =
      sum_rows (\<lambda>e. if authoritative_entry code e \<and> P (je_transactionId e) then je_debit e - je_credit e else 0) es +
      sum_rows (\<lambda>e. if authoritative_entry code e \<and> \<not> P (je_transactionId e) then je_debit e - je_credit e else 0) es" for es
    by (induction es) auto
  then show ?thesis by (simp only: account_net_def keyed_net_def)
qed

lemma post_keyed_net:
  assumes "post sha rnd ch has_tx p L = (Inr res, L')"
  shows "keyed_net P code L' = keyed_net P code L +
    (if booked_key (pp_idempotencyKey p) L \<or> \<not> P (pp_idempotencyKey p) then 0 else posting_moves rnd p code)"
  using assms
proof (cases rule: post_cases)
  case unchanged
  then show ?thesis using post_replayed_iff [OF assms] by (simp add: keyed_net_def)
next
  case (committed ls conv res')
  then show ?thesis
    using keyed_net_entries [of code P ch p 1 ls] post_replayed_iff [OF assms]
    by (simp add: keyed_net_def posting_moves_def posted_lines_def)
qed

interpretation kp: posting_port "\<lambda>ch. post sha rnd ch True" booked_key pp_idempotencyKey "keyed_net P"
  "\<lambda>p code. if P (pp_idempotencyKey p) then posting_moves rnd p code else 0" for sha rnd P
  by unfold_locales (simp_all add: post_keyed_net post_booked)

lemma post_same_hash:
  assumes "post sha rnd ch True q L = (Inr res, L')" and "validate_posting rnd q = Inr (ls, conv)"
    and "find_by lt_idempotencyKey (pp_idempotencyKey q) (txns L) = Some t"
  shows "lt_postingHash t = computePostingHash sha (pp_entryType q) ls conv"
proof -
  obtain L1 where e: "ensureAccounts ch (pp_userId q) (first_occurrences (map nl_account ls)) L = (Inr (), L1)"
    and c: "commit_posting sha ch q ls conv L1 = (Inr res, L')"
    using assms(1,2) by (auto simp: post_def split: sum.splits prod.splits)
  show ?thesis
    using c ensureAccounts_frame [OF e] assms(3) by (auto simp: commit_posting_def Let_def split: if_splits)
qed

section \<open>Properties\<close>

text \<open>A concrete posting used by the witnesses: five USDC move from a user's liability into
  an escrow lock.\<close>

definition escrow_posting :: post_params where
  "escrow_posting =
     \<lparr>pp_idempotencyKey = ''escrow:lock:o1'', pp_entryType = ''ESCROW_LOCK'', pp_description = ''lock'',
      pp_lines = [\<lparr>li_account = ''user:7:liability'', li_debit = JBig 5, li_credit = JNull\<rparr>,
                  \<lparr>li_account = ''escrow:o1:locked'', li_debit = JNull, li_credit = JBig 5\<rparr>],
      pp_conversion = None, pp_reference = None, pp_userId = Some 7,
      pp_relatedEntity = None, pp_relatedEntityId = None\<rparr>"

definition calm :: "string \<Rightarrow> db_choice" where
  "calm i = \<lparr>fresh_id = i, contended = [], conversion_raced = False, key_raced = False\<rparr>"

lemma classify_examples:
  "classifyAccountCode ''user:7:liability'' = Inr (USER_LIABILITY 7, liability_spec)"
  "classifyAccountCode ''escrow:o1:locked'' = Inr (ESCROW_LOCKED ''o1'', liability_spec)"
  by (simp_all add: classifyAccountCode_def user_account_match_def escrow_account_match_def between_def
      is_digit_def read_nat_def digit_val_def is_alnum_def is_key_char_def)

definition escrow_lines :: "norm_line list" where
  "escrow_lines =
     [\<lparr>nl_account = ''user:7:liability'', nl_debit = 500000000, nl_credit = 0\<rparr>,
      \<lparr>nl_account = ''escrow:o1:locked'', nl_debit = 0, nl_credit = 500000000\<rparr>]"

lemma escrow_posting_valid: "validate_posting id escrow_posting = Inr (escrow_lines, None)"
  by (simp add: escrow_posting_def validate_posting_def check_header_def ENTRY_TYPES_def js_trim_def
      js_space_def normalize_line_def optional_quantity_def check_conversion_def check_assets_def
      asset_of_def classify_examples liability_spec_def spec_of_def first_occurrences_def
      check_balance_def decimal_sum_def escrow_lines_def)

lemma escrow_posting_bounded: "posting_bounded escrow_posting"
  by (simp add: posting_bounded_def escrow_posting_def normalize_line_def optional_quantity_def line_size_def)

lemma decimal_exact_id: "decimal_exact id"
  by (simp add: decimal_exact_def)

lemma escrow_posting_posts:
  obtains res L where "post id id (calm ''t1'') True escrow_posting empty_ledger = (Inr res, L)"
    and "\<not> pr_replayed res" and "entries L = make_entries (calm ''t1'') escrow_posting 1 escrow_lines"
    and "txns L = [pr_transaction res]" and "lt_id (pr_transaction res) = ''t1''"
proof -
  have "\<exists>L1. ensureAccounts (calm ''t1'') (Some 7) [''user:7:liability'', ''escrow:o1:locked''] empty_ledger = (Inr (), L1)"
    by (simp add: ensureAccount_def classify_examples empty_ledger_def calm_def)
  then obtain L1 where e: "ensureAccounts (calm ''t1'') (pp_userId escrow_posting)
      (first_occurrences (map nl_account escrow_lines)) empty_ledger = (Inr (), L1)"
    by (auto simp: escrow_posting_def escrow_lines_def first_occurrences_def)
  have "txns L1 = [] \<and> entries L1 = []" using ensureAccounts_frame [OF e] by (simp add: empty_ledger_def)
  with e have "\<exists>res L. post id id (calm ''t1'') True escrow_posting empty_ledger = (Inr res, L) \<and> \<not> pr_replayed res"
    by (simp add: post_def escrow_posting_valid commit_posting_def conversion_conflict_def calm_def Let_def)
  then obtain res L where p: "post id id (calm ''t1'') True escrow_posting empty_ledger = (Inr res, L)"
    and new: "\<not> pr_replayed res" by blast
  from p show thesis
  proof (cases rule: post_cases)
    case unchanged
    with new show thesis by simp
  next
    case (committed ls conv res')
    then show thesis
      using that [OF p new] escrow_posting_valid by (simp add: empty_ledger_def make_txn_def calm_def)
  qed
qed

lemma escrow_history:
  assumes "post id id (calm ''t1'') True escrow_posting empty_ledger = (Inr res, L)"
  shows "ledger_steps id id empty_ledger L"
proof (rule ledger_steps.step [OF ledger_steps.none _ escrow_posting_bounded])
  show "fresh_for (calm ''t1'') empty_ledger" by (simp add: fresh_for_def empty_ledger_def)
  show "transaction id (post id id (calm ''t1'') True escrow_posting) empty_ledger = (Inr res, L)"
    using assms by simp
qed

text \<open>C2: Double entry, over whole histories. In every ledger reachable from an empty one by
  postings, whatever their parameters and races, each ledger transaction balances within
  every asset, and so does the trial balance.\<close>

theorem books_balance:
  assumes "decimal_exact rnd" and "ledger_steps sha rnd empty_ledger L"
  shows "txn_net a L tid = 0 \<and> trial_balance a L = 0"
proof -
  have "ledger_inv L" using ledger_steps_inv [OF assms(2,1)] by simp
  moreover have "trial_balance a empty_ledger = 0" by (simp add: trial_balance_def empty_ledger_def)
  ultimately show ?thesis
    using ledger_steps_trial_balance [OF assms(2,1), of a] by (simp add: ledger_inv_def)
qed

theorem books_balance_witness:
  "\<exists>L :: ledger. length (entries L) = 2 \<and> txn_net ''USDC'' L ''t1'' = 0 \<and> trial_balance ''USDC'' L = 0"
proof -
  obtain res L where "post id id (calm ''t1'') True escrow_posting empty_ledger = (Inr res, L)"
    and "entries L = make_entries (calm ''t1'') escrow_posting 1 escrow_lines"
    by (rule escrow_posting_posts)
  moreover from this(2) have "length (entries L) = 2" by (simp add: escrow_lines_def)
  ultimately show ?thesis
    using books_balance [OF decimal_exact_id escrow_history] by blast
qed

text \<open>C5: Exactly once. In every reachable ledger no two transactions share an idempotency
  key, no conversion identity is booked twice, no two accounts share a code, and every
  authoritative entry belongs to a recorded transaction.\<close>

theorem booked_at_most_once:
  assumes "decimal_exact rnd" and "ledger_steps sha rnd empty_ledger L"
  shows "distinct (map lt_idempotencyKey (txns L)) \<and> distinct (booked_identities L) \<and>
    distinct (map ar_code (accounts L)) \<and>
    (\<forall>e \<in> set (entries L). \<forall>tid. je_ledgerTransactionId e = Some tid \<longrightarrow> tid \<in> lt_id ` set (txns L))"
proof -
  have "ledger_inv L" using ledger_steps_inv [OF assms(2,1)] by simp
  then show ?thesis by (simp add: ledger_inv_def)
qed

theorem booked_at_most_once_witness:
  "\<exists>L :: ledger. map lt_id (txns L) = [''t1''] \<and> distinct (map lt_idempotencyKey (txns L)) \<and> distinct (map ar_code (accounts L))"
proof -
  obtain res L where p: "post id id (calm ''t1'') True escrow_posting empty_ledger = (Inr res, L)"
    and "txns L = [pr_transaction res]" and "lt_id (pr_transaction res) = ''t1''"
    by (rule escrow_posting_posts)
  then have "map lt_id (txns L) = [''t1'']" by simp
  with booked_at_most_once [OF decimal_exact_id escrow_history [OF p]] show ?thesis
    by (intro exI [of _ L]) simp
qed

text \<open>Idempotent replay. After a posting has committed, and however many other postings
  followed, posting it again changes nothing and returns the transaction and the entries of
  the first call, marked as replayed.\<close>

theorem post_replay:
  assumes "post sha rnd ch True p L = (Inr res, L')" and "fresh_for ch L" and "\<not> pr_replayed res"
    and "ledger_steps sha rnd L' L''"
  shows "post sha rnd ch' True p L'' = (Inr (res\<lparr>pr_replayed := True\<rparr>), L'')"
  using replays_post [OF ledger_steps_replays [OF assms(4) post_replays [OF assms(1-3)]]] .

theorem post_replay_witness:
  "\<exists>res L. txns L = [pr_transaction res] \<and> \<not> pr_replayed res \<and>
     post id id (calm ''t2'') True escrow_posting L = (Inr (res\<lparr>pr_replayed := True\<rparr>), L)"
proof -
  obtain res L where p: "post id id (calm ''t1'') True escrow_posting empty_ledger = (Inr res, L)"
    and new: "\<not> pr_replayed res" and t: "txns L = [pr_transaction res]"
    by (rule escrow_posting_posts)
  have "fresh_for (calm ''t1'') empty_ledger" by (simp add: fresh_for_def empty_ledger_def)
  from post_replay [OF p this new ledger_steps.none] new t show ?thesis by blast
qed

text \<open>A key cannot be reused for other economics. If a posting succeeds under a key that
  another posting committed, then both have the same entry type, the same multiset of lines
  and the same conversion record, unless the two texts collide under the hash.\<close>

theorem key_reuse_same_economics:
  assumes "post sha rnd ch True p L = (Inr res, L')" and "fresh_for ch L" and "\<not> pr_replayed res"
    and "ledger_steps sha rnd L' L''"
    and "post sha rnd ch' True q L'' = (Inr res'', L3)" and "pp_idempotencyKey q = pp_idempotencyKey p"
    and "validate_posting rnd p = Inr (ls, conv)" and "validate_posting rnd q = Inr (ls', conv')"
  shows "(pp_entryType q = pp_entryType p \<and> mset ls' = mset ls \<and> conv' = conv) \<or>
    (posting_identity (pp_entryType q) ls' conv' \<noteq> posting_identity (pp_entryType p) ls conv \<and>
     sha (posting_identity (pp_entryType q) ls' conv') = sha (posting_identity (pp_entryType p) ls conv))"
proof -
  have r: "replays sha rnd p res L''"
    by (rule ledger_steps_replays [OF assms(4) post_replays [OF assms(1-3)]])
  have "sha (posting_identity (pp_entryType q) ls' conv') = sha (posting_identity (pp_entryType p) ls conv)"
    using post_same_hash [OF assms(5,8)] r assms(6,7) by (auto simp: replays_def computePostingHash_def)
  then show ?thesis
    using posting_identity_inject validated_lines [OF assms(7)] validated_lines [OF assms(8)] by blast
qed

theorem key_reuse_same_economics_witness:
  "\<exists>L L'. post id id (calm ''t2'') True escrow_posting L = (Inr L', L) \<and>
     (mset escrow_lines = mset escrow_lines \<or>
      posting_identity (pp_entryType escrow_posting) escrow_lines None \<noteq>
      posting_identity (pp_entryType escrow_posting) escrow_lines None)"
proof -
  obtain res L where p: "post id id (calm ''t1'') True escrow_posting empty_ledger = (Inr res, L)"
    and new: "\<not> pr_replayed res"
    by (rule escrow_posting_posts)
  have f: "fresh_for (calm ''t1'') empty_ledger" by (simp add: fresh_for_def empty_ledger_def)
  have q: "post id id (calm ''t2'') True escrow_posting L = (Inr (res\<lparr>pr_replayed := True\<rparr>), L)"
    by (rule replays_post [OF post_replays [OF p f new]])
  from key_reuse_same_economics [OF p f new ledger_steps.none q refl escrow_posting_valid escrow_posting_valid] q
  show ?thesis by blast
qed

text \<open>C29: The functional effect of a posting. A successful posting that is not a replay moves
  the net debit of every account by exactly the validated lines on that account; a replay
  moves none.\<close>

theorem post_moves_accounts:
  "post sha rnd ch True p L = (Inr res, L') \<Longrightarrow>
   account_net code L' = account_net code L +
     (if pr_replayed res then 0 else sum_rows (line_net code) (posted_lines rnd p))"
  by (rule post_account_net)

theorem post_moves_accounts_witness:
  "\<exists>L. account_net ''escrow:o1:locked'' L = - 500000000 \<and> account_net ''user:7:liability'' L = 500000000"
proof -
  obtain res L where p: "post id id (calm ''t1'') True escrow_posting empty_ledger = (Inr res, L)"
    and "\<not> pr_replayed res"
    by (rule escrow_posting_posts)
  then show ?thesis
    using post_moves_accounts [OF p, of "''escrow:o1:locked''"] post_moves_accounts [OF p, of "''user:7:liability''"]
    by (intro exI [of _ L])
      (simp add: posted_lines_def escrow_posting_valid escrow_lines_def line_net_def account_net_def empty_ledger_def)
qed

lemma sum_rows_filter: "sum_rows v (filter P rows) = sum_rows (\<lambda>r. if P r then v r else 0) rows"
  by (induction rows) auto

lemma sum_rows_diff: "sum_rows v rows - sum_rows w rows = sum_rows (\<lambda>r. v r - w r) rows"
  by (induction rows) auto

lemma account_net_balance:
  "sum_rows je_debit (filter (authoritative_entry c) (entries L)) -
   sum_rows je_credit (filter (authoritative_entry c) (entries L)) = account_net c L"
  by (simp add: sum_rows_filter sum_rows_diff account_net_def) (rule sum_rows_cong, simp)

text \<open>The balance a caller reads is the net of the authoritative entries on the account,
  on the account's normal side, and the debit and credit totals it reports differ by it;
  reading a user's liability returns the credit side.\<close>

theorem accountBalance_reads_net:
  assumes "decimal_exact rnd" and "\<bar>account_net code L\<bar> < 10 ^ 20" and "accountBalance rnd L code = Inr b"
  shows "bv_netDebit b = account_net code L \<and> bv_debit b - bv_credit b = account_net code L \<and>
    bv_balance b = (if bv_side b = DEBIT then account_net code L else - account_net code L)"
proof -
  have "rnd (account_net code L) = account_net code L"
    using assms(1,2) by (simp add: decimal_exact_def)
  then show ?thesis
    using assms(3) account_net_balance [of code L] by (auto simp: accountBalance_def Let_def)
qed

theorem accountBalance_reads_net_witness:
  "\<exists>L b. accountBalance id L ''escrow:o1:locked'' = Inr b \<and> bv_balance b = 500000000 \<and> bv_side b = CREDIT"
proof -
  obtain res L where p: "post id id (calm ''t1'') True escrow_posting empty_ledger = (Inr res, L)"
    and "\<not> pr_replayed res" and e: "entries L = make_entries (calm ''t1'') escrow_posting 1 escrow_lines"
    by (rule escrow_posting_posts)
  have net: "account_net ''escrow:o1:locked'' L = - 500000000"
    by (simp add: account_net_def e escrow_lines_def make_entry_def authoritative_entry_def)
  define L0 where "L0 = L\<lparr>accounts := []\<rparr>"
  have "\<exists>b. accountBalance id L0 ''escrow:o1:locked'' = Inr b \<and> bv_side b = CREDIT"
    by (simp add: accountBalance_def L0_def classify_examples liability_spec_def spec_of_def Let_def)
  moreover have "account_net ''escrow:o1:locked'' L0 = - 500000000"
    using net by (simp add: L0_def account_net_def)
  ultimately show ?thesis
    using accountBalance_reads_net [OF decimal_exact_id, of "''escrow:o1:locked''" L0] by fastforce
qed

text \<open>The account codes the services build are in the grammar. A user's liability code
  classifies as that user's liability, and a susu escrow code, built from two identifiers
  truncated to twelve characters each, fits the 80 characters of the code column and
  classifies as an escrow lock, whatever the length of the identifiers.\<close>

theorem service_codes_classified:
  assumes "list_all is_alnum (filter (\<lambda>c. c \<noteq> CHR ''-'') i)" and "list_all is_alnum (filter (\<lambda>c. c \<noteq> CHR ''-'') j)"
    and "length (user_liability_code u) \<le> 80"
  shows "classifyAccountCode (susuEscrowCode i j) =
      Inr (ESCROW_LOCKED (''susu-'' @ compact_id i @ ''-'' @ compact_id j), liability_spec) \<and>
    length (susuEscrowCode i j) \<le> 80 \<and>
    classifyAccountCode (user_liability_code u) = Inr (USER_LIABILITY u, liability_spec)"
  using classify_susu_code [OF assms(1,2)] classify_user_liability [OF assms(3)]
  by (auto simp: classifyAccountCode_def split: if_splits)

theorem service_codes_classified_witness:
  "classifyAccountCode (susuEscrowCode ''0f8c-11aa-22bb-33cc'' ''m1'') =
     Inr (ESCROW_LOCKED ''susu-0f8c11aa22bb-m1'', liability_spec)"
proof -
  have "list_all is_alnum (filter (\<lambda>c. c \<noteq> CHR ''-'') ''0f8c-11aa-22bb-33cc'')"
    and "list_all is_alnum (filter (\<lambda>c. c \<noteq> CHR ''-'') ''m1'')"
    and "length (user_liability_code 7) \<le> 80"
    by (simp_all add: is_alnum_def is_digit_def user_liability_code_def show_nat.simps)
  from service_codes_classified [OF this] show ?thesis by (simp add: compact_id_def)
qed

text \<open>The exact residual. Within decimal precision, the parts and the residual add up to
  the whole to the last \<open>10\<^sup>-\<^sup>8\<close> unit, also when the parts exceed the whole.\<close>

theorem exactResidual_exact:
  assumes "decimal_exact rnd" and "toExactDecimal whole = Inr t" and "traverse_sum toExactDecimal parts = Inr ps"
    and "int t < 10 ^ 20" and "sum_list (map int ps) < 10 ^ 20"
  shows "\<exists>r. exactResidual rnd whole parts = Inr r \<and> sum_list (map int ps) + r = int t"
proof -
  have "decimal_sum rnd (map int ps) = sum_list (map int ps)"
    by (rule decimal_sum_exact) (use assms(1,5) in auto)
  moreover have "0 \<le> sum_list (map int ps)" by (rule sum_list_nonneg) auto
  then have "rnd (int t - sum_list (map int ps)) = int t - sum_list (map int ps)"
    using assms(1,4,5) by (simp add: decimal_exact_def)
  ultimately show ?thesis by (simp add: exactResidual_def assms(2,3))
qed

theorem exactResidual_exact_witness: "exactResidual id (JBig 10) [JBig 3, JBig 4] = Inr 300000000"
  using exactResidual_exact [OF decimal_exact_id, of "JBig 10" 1000000000 "[JBig 3, JBig 4]" "[300000000, 400000000]"]
  by simp

end
