(* ===== verification/Conditional_Claim.thy ===== *)
theory Conditional_Claim
  imports Azm_Prelude
begin

text \<open>
  The concurrency primitive of the services: \<open>updateMany\<close> with a status in its
  \<open>where\<close>, addressed by a unique key, whose \<open>count\<close> tells the caller whether it won.

  The locale \<open>conditional_claim\<close> is one such transition: \<open>key\<close> identifies the row,
  \<open>guard\<close> is the status condition and \<open>move\<close> the data written. It must not change the
  key and must leave the guarded status. Every component that moves a row through a status
  machine interprets it, and gets single-winner semantics and the aggregate laws from here.
\<close>

definition claim_rows :: "('r \<Rightarrow> 'k) \<Rightarrow> ('r \<Rightarrow> bool) \<Rightarrow> ('r \<Rightarrow> 'r) \<Rightarrow> 'k \<Rightarrow> 'r list \<Rightarrow> 'r list" where
  "claim_rows key guard move k = update_by (\<lambda>r. key r = k \<and> guard r) move"

definition claims :: "('r \<Rightarrow> 'k) \<Rightarrow> ('r \<Rightarrow> bool) \<Rightarrow> 'k \<Rightarrow> 'r list \<Rightarrow> nat" where
  "claims key guard k = count_by (\<lambda>r. key r = k \<and> guard r)"

locale conditional_claim =
  fixes key :: "'r \<Rightarrow> 'k" and guard :: "'r \<Rightarrow> bool" and move :: "'r \<Rightarrow> 'r"
  assumes move_key: "key (move r) = key r"
    and move_leaves: "\<not> guard (move r)"
begin

lemma claim_keys: "map key (claim_rows key guard move k rows) = map key rows"
  by (simp add: claim_rows_def move_key)

lemma claim_find:
  "find_by key j (claim_rows key guard move k rows) =
   map_option (\<lambda>r. if j = k \<and> guard r then move r else r) (find_by key j rows)"
  unfolding claim_rows_def
  by (subst find_by_update_by, simp add: move_key)
    (cases "find_by key j rows"; auto dest: find_by_SomeD)

lemma claims_at_most_one: "distinct (map key rows) \<Longrightarrow> claims key guard k rows \<le> 1"
  by (simp add: claims_def count_by_key split: option.splits)

lemma claims_iff:
  "distinct (map key rows) \<Longrightarrow>
   claims key guard k rows \<noteq> 0 \<longleftrightarrow> (\<exists>r. find_by key k rows = Some r \<and> guard r)"
  by (simp add: claims_def count_by_key split: option.splits)

text \<open>Single winner: once claimed, the same claim finds nothing.\<close>

lemma claim_again: "claims key guard k (claim_rows key guard move k rows) = 0"
  by (induction rows) (auto simp: claims_def claim_rows_def move_leaves)

lemma claim_sum:
  assumes "distinct (map key rows)" and "find_by key k rows = Some r" and "guard r"
  shows "sum_rows v (claim_rows key guard move k rows) = sum_rows v rows + (v (move r) - v r)"
  using sum_rows_update_key [OF assms(1,2)] assms(3) by (simp add: claim_rows_def)

lemma claim_none: "claims key guard k rows = 0 \<Longrightarrow> claim_rows key guard move k rows = rows"
  unfolding claims_def claim_rows_def count_by_def
  by (intro update_by_none) (auto simp: filter_empty_conv)

lemma claim_members:
  assumes "x \<in> set (claim_rows key guard move k rows)"
  obtains r where "r \<in> set rows" and "x = r \<or> key r = k \<and> guard r \<and> x = move r"
  using assms by (auto simp: claim_rows_def set_update_by split: if_splits)

end

end
