(* ===== verification/Restricted_Obligations.thy ===== *)
theory Restricted_Obligations
  imports Ledger_Run Conditional_Claim
begin

text \<open>
  Restricted obligations, \<^verbatim>\<open>services/restrictedObligationService.js\<close>: customer funds
  reserved for a pending external operation, and the denominator of the proof of reserves.

  The database is the obligation table (in creation order) and the ledger, which the totals
  read. Each operation takes \<open>env\<close>, what other transactions commit between its statements.
  Amounts are in \<open>10\<^sup>-\<^sup>8\<close> units; the JSON columns and timestamps are not modelled.
\<close>

section \<open>Source families\<close>

datatype representation = RESTRICTED_OBLIGATION_ROW | LEDGER_RECLASSIFICATION

record family =
  fam_authoritative :: bool
  fam_representation :: representation
  fam_pattern :: "string \<Rightarrow> bool"

definition SOURCE_FAMILIES :: "(string \<times> family) list" where
  "SOURCE_FAMILIES =
    [(''PENDING_FIAT_WITHDRAWAL'', \<lparr>fam_authoritative = True, fam_representation = RESTRICTED_OBLIGATION_ROW, fam_pattern = (\<lambda>_. False)\<rparr>),
     (''PENDING_CRYPTO_WITHDRAWAL'', \<lparr>fam_authoritative = True, fam_representation = RESTRICTED_OBLIGATION_ROW, fam_pattern = (\<lambda>_. False)\<rparr>),
     (''ESCROW_LOCK'', \<lparr>fam_authoritative = True, fam_representation = LEDGER_RECLASSIFICATION,
        fam_pattern = (\<lambda>a. escrow_account_match a \<noteq> None)\<rparr>),
     (''DISPUTE_ESCROW'', \<lparr>fam_authoritative = True, fam_representation = LEDGER_RECLASSIFICATION,
        fam_pattern = (\<lambda>a. user_account_match ''dispute'' a \<noteq> None)\<rparr>),
     (''VENDOR_UNALLOCATED'', \<lparr>fam_authoritative = True, fam_representation = LEDGER_RECLASSIFICATION,
        fam_pattern = (\<lambda>a. user_account_match ''unallocated'' a \<noteq> None)\<rparr>)]"

definition assertKnownSource :: "string \<Rightarrow> bool" where
  "assertKnownSource t \<longleftrightarrow> map_of SOURCE_FAMILIES t \<noteq> None"

section \<open>The obligation table\<close>

datatype obligation_status = ACTIVE | RELEASED | CANCELLED

record obligation =
  ob_reference :: string
  ob_sourceType :: string
  ob_sourceEntity :: "string option"
  ob_sourceEntityId :: "string option"
  ob_userId :: "nat option"
  ob_asset :: string
  ob_network :: "string option"
  ob_amount :: int
  ob_status :: obligation_status
  ob_reserveInclusionPolicy :: string
  ob_ledgerTransactionId :: "string option"
  ob_releaseLedgerTransactionId :: "string option"

record obligation_db =
  obligations :: "obligation list"
  ob_ledger :: ledger

datatype obligation_error =
    UnknownSourceFamily
  | ObligationQuantity ledger_error
  | ZeroObligation
  | ObligationConflict
  | ObligationUniqueViolation
  | SettledAmountMismatch
  | UnknownReference
  | WrongStatus obligation_status

record create_args =
  ca_sourceType :: string
  ca_reference :: string
  ca_userId :: "nat option"
  ca_amount :: js_value
  ca_asset :: string
  ca_network :: "string option"
  ca_sourceEntity :: "string option"
  ca_sourceEntityId :: "string option"
  ca_ledgerTransactionId :: "string option"

definition new_obligation :: "create_args \<Rightarrow> nat \<Rightarrow> obligation" where
  "new_obligation a n =
     \<lparr>ob_reference = ca_reference a, ob_sourceType = ca_sourceType a, ob_sourceEntity = ca_sourceEntity a,
      ob_sourceEntityId = ca_sourceEntityId a, ob_userId = ca_userId a, ob_asset = ca_asset a,
      ob_network = ca_network a, ob_amount = int n, ob_status = ACTIVE,
      ob_reserveInclusionPolicy = ''INCLUDED_IN_RESERVE_DENOMINATOR'',
      ob_ledgerTransactionId = ca_ledgerTransactionId a, ob_releaseLedgerTransactionId = None\<rparr>"

definition createForPendingWithdrawal ::
  "(obligation_db \<Rightarrow> obligation_db) \<Rightarrow> create_args \<Rightarrow> obligation_db \<Rightarrow>
   (obligation_error, obligation \<times> bool, obligation_db) outcome" where
  "createForPendingWithdrawal env a s =
     (if \<not> assertKnownSource (ca_sourceType a) then (Inl UnknownSourceFamily, s)
      else case toExactDecimal (ca_amount a) of
        Inl e \<Rightarrow> (Inl (ObligationQuantity e), s)
      | Inr n \<Rightarrow>
          (if n = 0 then (Inl ZeroObligation, s)
           else case find_by ob_reference (ca_reference a) (obligations s) of
             Some x \<Rightarrow>
               (if ob_status x \<noteq> ACTIVE \<or> ob_amount x \<noteq> int n then (Inl ObligationConflict, s)
                else (Inr (x, False), s))
           | None \<Rightarrow>
               (let s' = env s; x = new_obligation a n in
                if ca_reference a \<in> ob_reference ` set (obligations s') then (Inl ObligationUniqueViolation, s')
                else (Inr (x, True), s'\<lparr>obligations := obligations s' @ [x]\<rparr>))))"

section \<open>Release and cancellation\<close>

definition ob_active :: "obligation \<Rightarrow> bool" where
  "ob_active x \<longleftrightarrow> ob_status x = ACTIVE"

definition ob_close :: "obligation_status \<Rightarrow> string option \<Rightarrow> obligation \<Rightarrow> obligation" where
  "ob_close st tid x = x\<lparr>ob_status := st, ob_releaseLedgerTransactionId := tid\<rparr>"

definition releaseOnSettlement ::
  "(obligation_db \<Rightarrow> obligation_db) \<Rightarrow> string \<Rightarrow> string option \<Rightarrow> js_value \<Rightarrow> obligation_db \<Rightarrow>
   (obligation_error, bool, obligation_db) outcome" where
  "releaseOnSettlement env ref tid settledAmount s =
     (let n = claims ob_reference ob_active ref (obligations s);
          s' = s\<lparr>obligations := claim_rows ob_reference ob_active (ob_close RELEASED tid) ref (obligations s)\<rparr> in
      if n = 1
      then (if settledAmount = JNull then (Inr True, s')
            else case toExactDecimal settledAmount of
              Inl e \<Rightarrow> (Inl (ObligationQuantity e), s')
            | Inr q \<Rightarrow>
                (case find_by ob_reference ref (obligations s') of
                   None \<Rightarrow> (Inl UnknownReference, s')
                 | Some row \<Rightarrow> if ob_amount row \<noteq> int q then (Inl SettledAmountMismatch, s') else (Inr True, s')))
      else let s'' = env s' in
        case find_by ob_reference ref (obligations s'') of
          None \<Rightarrow> (Inl UnknownReference, s'')
        | Some x \<Rightarrow> if ob_status x \<noteq> RELEASED then (Inl (WrongStatus (ob_status x)), s'') else (Inr False, s''))"

definition cancelOnReversal ::
  "(obligation_db \<Rightarrow> obligation_db) \<Rightarrow> string \<Rightarrow> string option \<Rightarrow> obligation_db \<Rightarrow>
   (obligation_error, bool, obligation_db) outcome" where
  "cancelOnReversal env ref tid s =
     (let n = claims ob_reference ob_active ref (obligations s);
          s' = s\<lparr>obligations := claim_rows ob_reference ob_active (ob_close CANCELLED tid) ref (obligations s)\<rparr> in
      if n = 1 then (Inr True, s')
      else let s'' = env s' in
        case find_by ob_reference ref (obligations s'') of
          None \<Rightarrow> (Inl UnknownReference, s'')
        | Some x \<Rightarrow> if ob_status x \<noteq> CANCELLED then (Inl (WrongStatus (ob_status x)), s'') else (Inr False, s''))"

section \<open>The reserve denominator\<close>

definition ledgerReclassificationTotal :: "(int \<Rightarrow> int) \<Rightarrow> ledger \<Rightarrow> (string \<Rightarrow> bool) \<Rightarrow> int" where
  "ledgerReclassificationTotal rnd L pat =
     (let posted = filter (\<lambda>e. je_ledgerTransactionId e \<noteq> None) (entries L);
          groups = first_occurrences (map je_account posted) in
      foldl (\<lambda>acc g. if pat g
               then rnd (acc + rnd (sum_rows je_credit (filter (\<lambda>e. je_account e = g) posted)
                                    - sum_rows je_debit (filter (\<lambda>e. je_account e = g) posted)))
               else acc) 0 groups)"

record family_view =
  fv_authoritative :: bool
  fv_representation :: representation
  fv_activeTotal :: int
  fv_ledgerTotal :: "int option"
  fv_included :: bool

record totals_view =
  tv_total :: int
  tv_complete :: bool
  tv_families :: "(string \<times> family_view) list"

definition active_total :: "string \<Rightarrow> (obligation \<Rightarrow> bool) \<Rightarrow> obligation list \<Rightarrow> int" where
  "active_total asset P xs =
     sum_rows ob_amount (filter (\<lambda>x. ob_status x = ACTIVE \<and> ob_asset x = asset \<and> P x) xs)"

definition family_entry :: "(int \<Rightarrow> int) \<Rightarrow> obligation_db \<Rightarrow> string \<Rightarrow> string \<Rightarrow> family \<Rightarrow> family_view" where
  "family_entry rnd s asset name def =
     (if fam_representation def = LEDGER_RECLASSIFICATION
      then \<lparr>fv_authoritative = fam_authoritative def, fv_representation = fam_representation def,
            fv_activeTotal = active_total asset (\<lambda>x. ob_sourceType x = name) (obligations s),
            fv_ledgerTotal = (if fam_authoritative def
               then Some (ledgerReclassificationTotal rnd (ob_ledger s) (fam_pattern def)) else None),
            fv_included = False\<rparr>
      else \<lparr>fv_authoritative = fam_authoritative def, fv_representation = fam_representation def,
            fv_activeTotal = active_total asset (\<lambda>x. ob_sourceType x = name) (obligations s),
            fv_ledgerTotal = None, fv_included = True\<rparr>)"

definition authoritativeTotals :: "(int \<Rightarrow> int) \<Rightarrow> string \<Rightarrow> obligation_db \<Rightarrow> totals_view" where
  "authoritativeTotals rnd asset s =
     \<lparr>tv_total = active_total asset (\<lambda>x. ob_reserveInclusionPolicy x = ''INCLUDED_IN_RESERVE_DENOMINATOR'') (obligations s),
      tv_complete = list_all (\<lambda>(_, def). fam_authoritative def) SOURCE_FAMILIES,
      tv_families = map (\<lambda>(name, def). (name, family_entry rnd s asset name def)) SOURCE_FAMILIES\<rparr>"

definition findActiveForSource :: "obligation_db \<Rightarrow> string \<Rightarrow> string option \<Rightarrow> obligation option" where
  "findActiveForSource s ent eid =
     (case eid of
        None \<Rightarrow> None
      | Some i \<Rightarrow>
          find (\<lambda>x. ob_status x = ACTIVE \<and>
                  (ob_sourceEntity x = Some ent \<and> ob_sourceEntityId x = Some i \<or>
                   ent = ''withdrawal'' \<and> ob_reference x = ''withdrawal:wallet:'' @ i)) (obligations s))"

section \<open>The two closing transitions\<close>

interpretation rel: conditional_claim ob_reference ob_active "ob_close RELEASED tid" for tid
  by unfold_locales (simp_all add: ob_close_def ob_active_def)

interpretation can: conditional_claim ob_reference ob_active "ob_close CANCELLED tid" for tid
  by unfold_locales (simp_all add: ob_close_def ob_active_def)

definition obligation_ok :: "obligation \<Rightarrow> bool" where
  "obligation_ok x \<longleftrightarrow> 0 < ob_amount x \<and> assertKnownSource (ob_sourceType x) \<and>
     ob_reserveInclusionPolicy x = ''INCLUDED_IN_RESERVE_DENOMINATOR''"

definition obligation_inv :: "obligation_db \<Rightarrow> bool" where
  "obligation_inv s \<longleftrightarrow>
     distinct (map ob_reference (obligations s)) \<and> (\<forall>x \<in> set (obligations s). obligation_ok x)"

text \<open>How one row may evolve: not at all, or once, out of \<open>ACTIVE\<close>.\<close>

definition row_evolves :: "obligation \<Rightarrow> obligation \<Rightarrow> bool" where
  "row_evolves x y \<longleftrightarrow>
     y = x \<or> ob_active x \<and> (\<exists>st tid. st \<in> {RELEASED, CANCELLED} \<and> y = ob_close st tid x)"

definition table_evolves :: "obligation_db \<Rightarrow> obligation_db \<Rightarrow> bool" where
  "table_evolves s t \<longleftrightarrow>
     (\<forall>ref x. find_by ob_reference ref (obligations s) = Some x \<longrightarrow>
        (\<exists>y. find_by ob_reference ref (obligations t) = Some y \<and> row_evolves x y))"

lemma row_evolves_trans: "row_evolves x y \<Longrightarrow> row_evolves y z \<Longrightarrow> row_evolves x z"
  by (auto simp: row_evolves_def ob_active_def ob_close_def)

lemma table_evolves_refl [simp]: "table_evolves s s"
  by (auto simp: table_evolves_def row_evolves_def)

lemma table_evolves_trans: "table_evolves s t \<Longrightarrow> table_evolves t u \<Longrightarrow> table_evolves s u"
  unfolding table_evolves_def by (meson row_evolves_trans)

lemma closed_stays:
  assumes "table_evolves s t" and "find_by ob_reference ref (obligations s) = Some x" and "\<not> ob_active x"
  shows "find_by ob_reference ref (obligations t) = Some x"
  using assms by (fastforce simp: table_evolves_def row_evolves_def)

text \<open>The outcomes of the three operations.\<close>

lemma create_cases:
  assumes "createForPendingWithdrawal env a s = (Inr (x, new), s')"
  obtains (existing) "s' = s" "\<not> new" "find_by ob_reference (ca_reference a) (obligations s) = Some x" "ob_active x"
      "toExactDecimal (ca_amount a) = Inr (nat (ob_amount x))" "0 < ob_amount x"
  | (fresh) n where "new" "toExactDecimal (ca_amount a) = Inr n" "0 < n" "assertKnownSource (ca_sourceType a)"
      "x = new_obligation a n" "ca_reference a \<notin> ob_reference ` set (obligations (env s))"
      "s' = (env s)\<lparr>obligations := obligations (env s) @ [x]\<rparr>"
proof -
  obtain n where n: "toExactDecimal (ca_amount a) = Inr n" "0 < n" "assertKnownSource (ca_sourceType a)"
    using assms by (auto simp: createForPendingWithdrawal_def split: if_splits sum.splits)
  show thesis
  proof (cases "find_by ob_reference (ca_reference a) (obligations s)")
    case (Some y)
    then show thesis
      using assms n existing by (auto simp: createForPendingWithdrawal_def ob_active_def split: if_splits)
  next
    case None
    then show thesis
      using assms n fresh by (auto simp: createForPendingWithdrawal_def Let_def split: if_splits)
  qed
qed

lemma release_cases:
  assumes "releaseOnSettlement env ref tid amt s = (Inr won, s')" and d: "distinct (map ob_reference (obligations s))"
  obtains (winner) x where "won" "find_by ob_reference ref (obligations s) = Some x" "ob_active x"
      "amt = JNull \<or> toExactDecimal amt = Inr (nat (ob_amount x))"
      "s' = s\<lparr>obligations := claim_rows ob_reference ob_active (ob_close RELEASED tid) ref (obligations s)\<rparr>"
  | (late) x where "\<not> won" "s' = env s" "find_by ob_reference ref (obligations (env s)) = Some x" "ob_status x = RELEASED"
proof (cases "claims ob_reference ob_active ref (obligations s) = 1")
  case True
  let ?s' = "s\<lparr>obligations := claim_rows ob_reference ob_active (ob_close RELEASED tid) ref (obligations s)\<rparr>"
  from True obtain x where x: "find_by ob_reference ref (obligations s) = Some x" "ob_active x"
    using rel.claims_iff [OF d, of ref] by auto
  then have "find_by ob_reference ref (obligations ?s') = Some (ob_close RELEASED tid x)"
    using rel.claim_find [of ref tid ref "obligations s"] by simp
  then show thesis
    using assms True winner [of x] x
    by (auto simp: releaseOnSettlement_def Let_def ob_close_def split: if_splits sum.splits)
next
  case False
  then have "claims ob_reference ob_active ref (obligations s) = 0"
    using rel.claims_at_most_one [OF d, of ref] by simp
  with assms False late rel.claim_none [of ref "obligations s" tid] show thesis
    by (auto simp: releaseOnSettlement_def Let_def split: option.splits if_splits)
qed

lemma cancel_cases:
  assumes "cancelOnReversal env ref tid s = (Inr won, s')" and d: "distinct (map ob_reference (obligations s))"
  obtains (winner) x where "won" "find_by ob_reference ref (obligations s) = Some x" "ob_active x"
      "s' = s\<lparr>obligations := claim_rows ob_reference ob_active (ob_close CANCELLED tid) ref (obligations s)\<rparr>"
  | (late) x where "\<not> won" "s' = env s" "find_by ob_reference ref (obligations (env s)) = Some x" "ob_status x = CANCELLED"
proof (cases "claims ob_reference ob_active ref (obligations s) = 1")
  case True
  then show thesis
    using assms winner can.claims_iff [OF d, of ref] by (auto simp: cancelOnReversal_def Let_def)
next
  case False
  then have "claims ob_reference ob_active ref (obligations s) = 0"
    using can.claims_at_most_one [OF d, of ref] by simp
  with assms False late can.claim_none [of ref "obligations s" tid] show thesis
    by (auto simp: cancelOnReversal_def Let_def split: option.splits if_splits)
qed

section \<open>Histories\<close>

inductive obligation_run :: "obligation_db \<Rightarrow> obligation_db \<Rightarrow> bool" where
  none: "obligation_run s s"
| create: "obligation_run s s1 \<Longrightarrow> obligation_run s1 (env s1) \<Longrightarrow>
    transaction env (createForPendingWithdrawal env a) s1 = (r, s2) \<Longrightarrow> obligation_run s s2"
| release: "obligation_run s s1 \<Longrightarrow> obligation_run s1 (env s1) \<Longrightarrow>
    transaction env (releaseOnSettlement env ref tid amt) s1 = (r', s2) \<Longrightarrow> obligation_run s s2"
| cancel: "obligation_run s s1 \<Longrightarrow> obligation_run s1 (env s1) \<Longrightarrow>
    transaction env (cancelOnReversal env ref tid) s1 = (r', s2) \<Longrightarrow> obligation_run s s2"
| ledger: "obligation_run s s1 \<Longrightarrow> obligation_run s (s1\<lparr>ob_ledger := L\<rparr>)"

text \<open>A closing claim keeps the invariant and evolves the table.\<close>

lemma close_find:
  "find_by ob_reference j (claim_rows ob_reference ob_active (ob_close st tid) k rows) =
   map_option (\<lambda>x. if j = k \<and> ob_active x then ob_close st tid x else x) (find_by ob_reference j rows)"
  unfolding claim_rows_def
  by (subst find_by_update_by, simp add: ob_close_def)
    (cases "find_by ob_reference j rows"; auto dest: find_by_SomeD)

lemma close_claim_ok:
  assumes "obligation_inv s"
  shows "obligation_inv (s\<lparr>obligations := claim_rows ob_reference ob_active (ob_close st tid) ref (obligations s)\<rparr>)"
  using assms
  by (auto simp: obligation_inv_def claim_rows_def set_update_by obligation_ok_def ob_close_def)

lemma close_claim_evolves:
  "st \<in> {RELEASED, CANCELLED} \<Longrightarrow>
   table_evolves s (s\<lparr>obligations := claim_rows ob_reference ob_active (ob_close st tid) ref (obligations s)\<rparr>)"
  by (auto simp: table_evolves_def row_evolves_def close_find)

lemma append_evolves: "table_evolves s (s\<lparr>obligations := obligations s @ [x]\<rparr>)"
  by (auto simp: table_evolves_def row_evolves_def)

lemma create_ok:
  assumes "createForPendingWithdrawal env a s = (Inr r, s')" and "obligation_inv s" and "obligation_inv (env s)"
    and "table_evolves s (env s)"
  shows "obligation_inv s' \<and> table_evolves s s'"
proof -
  obtain x new where "createForPendingWithdrawal env a s = (Inr (x, new), s')"
    using assms(1) by (cases r) auto
  then show ?thesis
  proof (cases rule: create_cases)
    case existing
    then show ?thesis using assms(2) by simp
  next
    case (fresh n)
    then have "obligation_inv s'"
      using assms(3) by (auto simp: obligation_inv_def obligation_ok_def new_obligation_def)
    moreover have "table_evolves s s'"
      using table_evolves_trans [OF assms(4) append_evolves] fresh by simp
    ultimately show ?thesis ..
  qed
qed

lemma release_ok:
  assumes "releaseOnSettlement env ref tid amt s = (Inr r, s')" and "obligation_inv s" and "obligation_inv (env s)"
    and "table_evolves s (env s)"
  shows "obligation_inv s' \<and> table_evolves s s'"
proof -
  have "distinct (map ob_reference (obligations s))" using assms(2) by (simp add: obligation_inv_def)
  from assms(1) this show ?thesis
    by (cases rule: release_cases) (use assms close_claim_ok close_claim_evolves in auto)
qed

lemma cancel_ok:
  assumes "cancelOnReversal env ref tid s = (Inr r, s')" and "obligation_inv s" and "obligation_inv (env s)"
    and "table_evolves s (env s)"
  shows "obligation_inv s' \<and> table_evolves s s'"
proof -
  have "distinct (map ob_reference (obligations s))" using assms(2) by (simp add: obligation_inv_def)
  from assms(1) this show ?thesis
    by (cases rule: cancel_cases) (use assms close_claim_ok close_claim_evolves in auto)
qed

lemma obligation_run_ok:
  "obligation_run s s' \<Longrightarrow> obligation_inv s \<Longrightarrow> obligation_inv s' \<and> table_evolves s s'"
proof (induction rule: obligation_run.induct)
  case (create s s1 env a r s2)
  then show ?case
    using create_ok [of env a s1] table_evolves_trans by (cases r) (auto simp: transaction_Inl)
next
  case (release s s1 env ref tid amt r' s2)
  then show ?case
    using release_ok [of env ref tid amt s1] table_evolves_trans by (cases r') (auto simp: transaction_Inl)
next
  case (cancel s s1 env ref tid r' s2)
  then show ?case
    using cancel_ok [of env ref tid s1] table_evolves_trans by (cases r') (auto simp: transaction_Inl)
next
  case (ledger s s1 L)
  then show ?case by (simp add: obligation_inv_def table_evolves_def)
qed simp

section \<open>The denominator\<close>

definition counted :: "string \<Rightarrow> obligation \<Rightarrow> int" where
  "counted asset x =
     (if ob_active x \<and> ob_asset x = asset \<and> ob_reserveInclusionPolicy x = ''INCLUDED_IN_RESERVE_DENOMINATOR''
      then ob_amount x else 0)"

lemma total_counted: "tv_total (authoritativeTotals rnd asset s) = sum_rows (counted asset) (obligations s)"
  by (simp add: authoritativeTotals_def active_total_def sum_rows_filter counted_def [abs_def] ob_active_def)

lemma counted_closed: "st \<noteq> ACTIVE \<Longrightarrow> counted asset (ob_close st tid x) = 0"
  by (simp add: counted_def ob_close_def ob_active_def)

lemma sum_rows_add: "sum_rows (\<lambda>x. v x + w x) rows = sum_rows v rows + sum_rows w rows"
  by (induction rows) auto

lemma counted_split:
  assumes "obligation_ok x"
  shows "counted asset x =
    sum_list (map (\<lambda>(name, _). if ob_active x \<and> ob_asset x = asset \<and> ob_sourceType x = name then ob_amount x else 0)
      SOURCE_FAMILIES)"
proof -
  have "ob_sourceType x \<in> {''PENDING_FIAT_WITHDRAWAL'', ''PENDING_CRYPTO_WITHDRAWAL'', ''ESCROW_LOCK'', ''DISPUTE_ESCROW'', ''VENDOR_UNALLOCATED''}"
    using assms by (auto simp: obligation_ok_def assertKnownSource_def SOURCE_FAMILIES_def split: if_splits)
  then show ?thesis
    using assms by (auto simp: counted_def obligation_ok_def SOURCE_FAMILIES_def)
qed

lemma family_active:
  "fv_activeTotal (family_entry rnd s asset name def) =
   sum_rows (\<lambda>x. if ob_active x \<and> ob_asset x = asset \<and> ob_sourceType x = name then ob_amount x else 0) (obligations s)"
  by (simp add: family_entry_def active_total_def sum_rows_filter ob_active_def)

lemma sum_rows_families:
  "sum_rows (\<lambda>x. sum_list (map (\<lambda>f. v f x) fs)) rows = sum_list (map (\<lambda>f. sum_rows (v f) rows) fs)"
  by (induction fs) (simp_all add: sum_rows_add, induction rows, simp_all)

lemma create_total:
  "createForPendingWithdrawal id a s = (Inr (x, new), s') \<Longrightarrow>
   tv_total (authoritativeTotals rnd asset s') =
   tv_total (authoritativeTotals rnd asset s) + (if new \<and> ob_asset x = asset then ob_amount x else 0)"
  by (erule create_cases) (simp_all add: total_counted counted_def new_obligation_def ob_active_def)

lemma release_total:
  assumes "obligation_inv s" and "releaseOnSettlement id ref tid amt s = (Inr won, s')"
  shows "\<exists>y. tv_total (authoritativeTotals rnd asset s') =
      tv_total (authoritativeTotals rnd asset s) - (if won \<and> ob_asset y = asset then ob_amount y else 0) \<and>
      (won \<longrightarrow> find_by ob_reference ref (obligations s) = Some y \<and>
         (amt = JNull \<or> toExactDecimal amt = Inr (nat (ob_amount y))))"
proof -
  have d: "distinct (map ob_reference (obligations s))" using assms(1) by (simp add: obligation_inv_def)
  from assms(2) d show ?thesis
  proof (cases rule: release_cases)
    case (winner x)
    have "obligation_ok x" using assms(1) find_by_Some [OF winner(2)] by (auto simp: obligation_inv_def)
    then have "counted asset x = (if ob_asset x = asset then ob_amount x else 0)"
      using winner(3) by (simp add: counted_def obligation_ok_def)
    with rel.claim_sum [OF d winner(2,3), of "counted asset" tid] winner show ?thesis
      by (intro exI [of _ x]) (simp add: total_counted counted_closed)
  qed simp
qed

section \<open>Sample history\<close>

definition sample_create :: create_args where
  "sample_create =
     \<lparr>ca_sourceType = ''PENDING_FIAT_WITHDRAWAL'', ca_reference = ''withdrawal:fiat:h1'', ca_userId = Some 7,
      ca_amount = JBig 25, ca_asset = ''USDC'', ca_network = None, ca_sourceEntity = Some ''transactionHistory'',
      ca_sourceEntityId = Some ''9'', ca_ledgerTransactionId = Some ''t1''\<rparr>"

definition empty_obligations :: obligation_db where
  "empty_obligations = \<lparr>obligations = [], ob_ledger = empty_ledger\<rparr>"

definition sample_obligations :: obligation_db where
  "sample_obligations = \<lparr>obligations = [new_obligation sample_create 2500000000], ob_ledger = empty_ledger\<rparr>"

definition sample_released :: obligation_db where
  "sample_released =
     \<lparr>obligations = [ob_close RELEASED (Some ''t2'') (new_obligation sample_create 2500000000)], ob_ledger = empty_ledger\<rparr>"

lemma sample_steps:
  "createForPendingWithdrawal id sample_create empty_obligations =
     (Inr (new_obligation sample_create 2500000000, True), sample_obligations)"
  "releaseOnSettlement id ''withdrawal:fiat:h1'' (Some ''t2'') (JBig 25) sample_obligations = (Inr True, sample_released)"
proof -
  have known: "assertKnownSource ''PENDING_FIAT_WITHDRAWAL''" by (simp add: assertKnownSource_def SOURCE_FAMILIES_def)
  show "createForPendingWithdrawal id sample_create empty_obligations =
      (Inr (new_obligation sample_create 2500000000, True), sample_obligations)"
    by (simp add: createForPendingWithdrawal_def sample_create_def known empty_obligations_def sample_obligations_def Let_def)
  show "releaseOnSettlement id ''withdrawal:fiat:h1'' (Some ''t2'') (JBig 25) sample_obligations = (Inr True, sample_released)"
    by (simp add: releaseOnSettlement_def sample_obligations_def sample_released_def claims_def claim_rows_def
        new_obligation_def sample_create_def ob_active_def ob_close_def)
qed

lemma empty_obligations_inv: "obligation_inv empty_obligations"
  by (simp add: obligation_inv_def empty_obligations_def)

lemma sample_run: "obligation_run empty_obligations sample_obligations"
  by (rule obligation_run.create [OF obligation_run.none, where env = id and a = sample_create
        and r = "Inr (new_obligation sample_create 2500000000, True)"])
    (use sample_steps(1) in \<open>simp_all add: obligation_run.none\<close>)

section \<open>Properties\<close>

text \<open>C12: An obligation is closed at most once and its economics never change. Over every
  interleaving, an obligation that exists keeps its row, except that an active one may be
  released or cancelled, once; a closed obligation is never touched again.\<close>

theorem obligation_closed_at_most_once:
  assumes "obligation_run empty_obligations s" and "obligation_run s s'"
    and "find_by ob_reference ref (obligations s) = Some x"
  shows "find_by ob_reference ref (obligations s') = Some x \<or>
    ob_status x = ACTIVE \<and>
    (\<exists>st tid. st \<in> {RELEASED, CANCELLED} \<and>
       find_by ob_reference ref (obligations s') =
         Some (x\<lparr>ob_status := st, ob_releaseLedgerTransactionId := tid\<rparr>))"
proof -
  have "table_evolves s s'"
    using obligation_run_ok [OF assms(2)] obligation_run_ok [OF assms(1) empty_obligations_inv] by blast
  with assms(3) show ?thesis
    unfolding table_evolves_def row_evolves_def ob_active_def ob_close_def by blast
qed

theorem obligation_closed_at_most_once_witness:
  "find_by ob_reference ''withdrawal:fiat:h1'' (obligations sample_obligations) =
     Some (new_obligation sample_create 2500000000)"
  using obligation_closed_at_most_once [OF sample_run obligation_run.none, of "''withdrawal:fiat:h1''"]
  by (auto simp: sample_obligations_def new_obligation_def sample_create_def)

text \<open>Release and cancellation exclude each other. After a release has won, whatever
  follows, a cancellation of the same obligation fails, and a repeated release succeeds
  without changing anything.\<close>

theorem release_excludes_cancel:
  assumes "obligation_run empty_obligations s" and "releaseOnSettlement env ref tid amt s = (Inr True, s1)"
    and "obligation_run s1 s2"
  shows "fst (cancelOnReversal id ref tid' s2) = Inl (WrongStatus RELEASED) \<and>
    releaseOnSettlement id ref tid' amt' s2 = (Inr False, s2)"
proof -
  have inv: "obligation_inv s" using obligation_run_ok [OF assms(1) empty_obligations_inv] by blast
  then have d: "distinct (map ob_reference (obligations s))" by (simp add: obligation_inv_def)
  from assms(2) d obtain x where x: "find_by ob_reference ref (obligations s) = Some x" "ob_active x"
    and s1: "s1 = s\<lparr>obligations := claim_rows ob_reference ob_active (ob_close RELEASED tid) ref (obligations s)\<rparr>"
    by (cases rule: release_cases) auto
  have inv1: "obligation_inv s1" using close_claim_ok [OF inv] s1 by simp
  have "find_by ob_reference ref (obligations s1) = Some (ob_close RELEASED tid x)"
    using x by (simp add: s1 close_find)
  from closed_stays [OF _ this] obligation_run_ok [OF assms(3) inv1]
  have f: "find_by ob_reference ref (obligations s2) = Some (ob_close RELEASED tid x)"
    and d2: "distinct (map ob_reference (obligations s2))"
    by (auto simp: ob_close_def ob_active_def obligation_inv_def)
  then have "claims ob_reference ob_active ref (obligations s2) = 0"
    using rel.claims_iff [OF d2, of ref] by (auto simp: ob_close_def ob_active_def)
  with f show ?thesis
    using rel.claim_none can.claim_none
    by (simp add: cancelOnReversal_def releaseOnSettlement_def Let_def ob_close_def)
qed

theorem release_excludes_cancel_witness:
  "fst (cancelOnReversal id ''withdrawal:fiat:h1'' None sample_released) = Inl (WrongStatus RELEASED)"
  using release_excludes_cancel [OF sample_run sample_steps(2) obligation_run.none] by simp

text \<open>The reserve denominator moves exactly with the obligations. Creating an obligation
  adds its amount to the total of its asset and repeating the creation adds nothing; the
  release that wins removes exactly the reserved amount, which is the settled amount if one
  was given; a late release removes nothing.\<close>

theorem denominator_follows_obligations:
  assumes "obligation_run empty_obligations s"
  shows "(createForPendingWithdrawal id a s = (Inr (x, new), s') \<longrightarrow>
      tv_total (authoritativeTotals rnd asset s') =
      tv_total (authoritativeTotals rnd asset s) + (if new \<and> ob_asset x = asset then ob_amount x else 0)) \<and>
    (releaseOnSettlement id ref tid amt s = (Inr won, s'') \<longrightarrow>
      (\<exists>y. tv_total (authoritativeTotals rnd asset s'') =
        tv_total (authoritativeTotals rnd asset s) - (if won \<and> ob_asset y = asset then ob_amount y else 0) \<and>
        (won \<longrightarrow> find_by ob_reference ref (obligations s) = Some y \<and>
           (amt = JNull \<or> toExactDecimal amt = Inr (nat (ob_amount y))))))"
  using create_total release_total obligation_run_ok [OF assms empty_obligations_inv] by blast

theorem denominator_follows_obligations_witness:
  "tv_total (authoritativeTotals id ''USDC'' sample_obligations) = 2500000000 \<and>
   tv_total (authoritativeTotals id ''USDC'' sample_released) = 0"
proof -
  have "tv_total (authoritativeTotals id ''USDC'' empty_obligations) = 0"
    by (simp add: authoritativeTotals_def active_total_def empty_obligations_def)
  moreover have "tv_total (authoritativeTotals id ''USDC'' sample_obligations) =
      tv_total (authoritativeTotals id ''USDC'' empty_obligations) + 2500000000"
    using denominator_follows_obligations [OF obligation_run.none] sample_steps(1)
    by (simp add: new_obligation_def sample_create_def)
  moreover have "\<exists>y. tv_total (authoritativeTotals id ''USDC'' sample_released) =
      tv_total (authoritativeTotals id ''USDC'' sample_obligations) - (if ob_asset y = ''USDC'' then ob_amount y else 0) \<and>
      find_by ob_reference ''withdrawal:fiat:h1'' (obligations sample_obligations) = Some y"
    using denominator_follows_obligations [OF sample_run] sample_steps(2) by fastforce
  ultimately show ?thesis
    by (auto simp: sample_obligations_def new_obligation_def sample_create_def)
qed

text \<open>The denominator is complete and splits over the source families. In every reachable
  state the total of an asset is the sum of the active totals of the five families, so no
  active obligation escapes the families, and the denominator is reported complete.\<close>

theorem denominator_splits_over_families:
  assumes "obligation_run empty_obligations s"
  shows "tv_total (authoritativeTotals rnd asset s) =
      sum_list (map (\<lambda>(_, fv). fv_activeTotal fv) (tv_families (authoritativeTotals rnd asset s))) \<and>
    tv_complete (authoritativeTotals rnd asset s)"
proof -
  let ?v = "\<lambda>(name, _) x. if ob_active x \<and> ob_asset x = asset \<and> ob_sourceType x = name then ob_amount x else 0"
  have ok: "\<forall>x \<in> set (obligations s). obligation_ok x"
    using obligation_run_ok [OF assms empty_obligations_inv] by (simp add: obligation_inv_def)
  have "sum_rows (counted asset) (obligations s) =
      sum_rows (\<lambda>x. sum_list (map (\<lambda>f. ?v f x) SOURCE_FAMILIES)) (obligations s)"
    using ok counted_split by (intro sum_rows_cong) (simp add: case_prod_unfold)
  also have "\<dots> = sum_list (map (\<lambda>f. sum_rows (?v f) (obligations s)) SOURCE_FAMILIES)"
    by (rule sum_rows_families)
  also have "\<dots> = sum_list (map (\<lambda>(_, fv). fv_activeTotal fv) (tv_families (authoritativeTotals rnd asset s)))"
    by (simp add: authoritativeTotals_def case_prod_unfold comp_def family_active)
  finally show ?thesis
    by (simp only: total_counted) (simp add: authoritativeTotals_def SOURCE_FAMILIES_def)
qed

theorem denominator_splits_over_families_witness:
  "tv_total (authoritativeTotals id ''USDC'' sample_obligations) =
   sum_list (map (\<lambda>(_, fv). fv_activeTotal fv) (tv_families (authoritativeTotals id ''USDC'' sample_obligations)))"
  using denominator_splits_over_families [OF sample_run] by blast

end
