(* ===== verification/Recon_Exceptions.thy ===== *)
theory Recon_Exceptions
  imports Azm_Prelude
begin

text \<open>
  The reconciliation exception queue, \<^verbatim>\<open>services/reconciliationExceptionService.js\<close>: an
  idempotent upsert of open exceptions, and the wrapper that writes one from inside a
  financial transaction without poisoning it.

  The upsert is a function on the table, whose partial unique index covers the open rows.
  The wrapper runs on a PostgreSQL session: a failed statement aborts the enclosing
  transaction until it is rolled back to a savepoint. Which statement fails is an argument
  (\<open>fails\<close>). Details are kept as their JSON text; \<open>now\<close> is \<open>CURRENT_TIMESTAMP\<close>.
\<close>

section \<open>The queue\<close>

record recon_exception =
  re_entityType :: string
  re_entityId :: string
  re_reference :: "string option"
  re_reason :: string
  re_status :: string
  re_details :: "string option"
  re_firstSeenAt :: int
  re_lastSeenAt :: int

definition VALID_ENTITY_TYPES :: "string list" where
  "VALID_ENTITY_TYPES =
    [''WITHDRAWAL'', ''TRANSACTION'', ''PROVIDER_ATTEMPT'',
     ''FIAT_LIQUIDITY_RESERVATION'', ''FIAT_LIQUIDITY_RECEIPT'',
     ''FIAT_PROVIDER_EVENT'', ''FIAT_LIQUIDITY_STATE'']"

datatype recon_error = UnsupportedEntityType | EntityIdRequired | ReasonRequired | StatementFailed

record exception_args =
  ea_entityType :: string
  ea_entityId :: string
  ea_reference :: "string option"
  ea_reason :: string
  ea_details :: "string option"

definition check_exception :: "exception_args \<Rightarrow> recon_error option" where
  "check_exception a =
     (if ea_entityType a \<notin> set VALID_ENTITY_TYPES then Some UnsupportedEntityType
      else if ea_entityId a = [] then Some EntityIdRequired
      else if ea_reason a = [] then Some ReasonRequired
      else None)"

definition open_key :: "recon_exception \<Rightarrow> (string \<times> string \<times> string) option" where
  "open_key r = (if re_status r = ''OPEN'' then Some (re_entityType r, re_entityId r, re_reason r) else None)"

definition upsert_exception :: "int \<Rightarrow> exception_args \<Rightarrow> recon_exception list \<Rightarrow> recon_exception list" where
  "upsert_exception now a rows =
     (let k = Some (ea_entityType a, ea_entityId a, ea_reason a) in
      if k \<in> open_key ` set rows
      then update_by (\<lambda>r. open_key r = k)
             (\<lambda>r. r\<lparr>re_reference := coalesce (ea_reference a) (re_reference r),
                     re_details := coalesce (ea_details a) (re_details r), re_lastSeenAt := now\<rparr>) rows
      else rows @ [\<lparr>re_entityType = ea_entityType a, re_entityId = ea_entityId a, re_reference = ea_reference a,
                    re_reason = ea_reason a, re_status = ''OPEN'', re_details = ea_details a,
                    re_firstSeenAt = now, re_lastSeenAt = now\<rparr>])"

definition recordReconciliationException ::
  "int \<Rightarrow> exception_args \<Rightarrow> recon_exception list \<Rightarrow> (recon_error, recon_exception option, recon_exception list) outcome" where
  "recordReconciliationException now a rows =
     (case check_exception a of
        Some e \<Rightarrow> (Inl e, rows)
      | None \<Rightarrow>
          (let rows' = upsert_exception now a rows in
           (Inr (find_by open_key (Some (ea_entityType a, ea_entityId a, ea_reason a)) rows'), rows')))"

section \<open>Writing evidence from inside a transaction\<close>

record session =
  se_rows :: "recon_exception list"
  se_inTx :: bool
  se_aborted :: bool
  se_saved :: "recon_exception list option"

datatype statement = SAVEPOINT | INSERT | RELEASE_SAVEPOINT | ROLLBACK_TO

definition stmt_failed :: "session \<Rightarrow> session" where
  "stmt_failed s = (if se_inTx s then s\<lparr>se_aborted := True\<rparr> else s)"

definition savepointState :: "(statement \<Rightarrow> bool) \<Rightarrow> session \<Rightarrow> bool \<times> session" where
  "savepointState fails s =
     (if \<not> se_inTx s then (False, s)
      else if se_aborted s \<or> fails SAVEPOINT then (False, stmt_failed s)
      else (True, s\<lparr>se_saved := Some (se_rows s)\<rparr>))"

definition run_insert ::
  "(statement \<Rightarrow> bool) \<Rightarrow> int \<Rightarrow> exception_args \<Rightarrow> session \<Rightarrow> (recon_error, recon_exception option, session) outcome" where
  "run_insert fails now a s =
     (case check_exception a of
        Some e \<Rightarrow> (Inl e, s)
      | None \<Rightarrow>
          (if se_aborted s \<or> fails INSERT then (Inl StatementFailed, stmt_failed s)
           else case recordReconciliationException now a (se_rows s) of
             (Inl e, _) \<Rightarrow> (Inl e, s)
           | (Inr r, rows) \<Rightarrow> (Inr r, s\<lparr>se_rows := rows\<rparr>)))"

definition release_savepoint :: "(statement \<Rightarrow> bool) \<Rightarrow> session \<Rightarrow> (recon_error, unit, session) outcome" where
  "release_savepoint fails s =
     (if se_aborted s \<or> se_saved s = None \<or> fails RELEASE_SAVEPOINT then (Inl StatementFailed, stmt_failed s)
      else (Inr (), s\<lparr>se_saved := None\<rparr>))"

definition rollback_to :: "(statement \<Rightarrow> bool) \<Rightarrow> session \<Rightarrow> (recon_error, unit, session) outcome" where
  "rollback_to fails s =
     (case se_saved s of
        None \<Rightarrow> (Inl StatementFailed, stmt_failed s)
      | Some rows \<Rightarrow>
          (if fails ROLLBACK_TO then (Inl StatementFailed, stmt_failed s)
           else (Inr (), s\<lparr>se_rows := rows, se_aborted := False\<rparr>)))"

datatype evidence_log = EvidenceWriteFailed recon_error | SavepointRollbackFailed

definition recover_savepoint :: "(statement \<Rightarrow> bool) \<Rightarrow> session \<Rightarrow> evidence_log list \<times> session" where
  "recover_savepoint fails s =
     (case rollback_to fails s of
        (Inl _, s') \<Rightarrow> ([SavepointRollbackFailed], s')
      | (Inr _, s') \<Rightarrow>
          (case release_savepoint fails s' of
             (Inl _, s'') \<Rightarrow> ([SavepointRollbackFailed], s'')
           | (Inr _, s'') \<Rightarrow> ([], s'')))"

definition recordReconciliationExceptionLoud ::
  "(statement \<Rightarrow> bool) \<Rightarrow> int \<Rightarrow> exception_args \<Rightarrow> session \<Rightarrow>
   (recon_exception option \<times> evidence_log list) \<times> session" where
  "recordReconciliationExceptionLoud fails now a s =
     (case savepointState fails s of
        (inTransaction, s1) \<Rightarrow>
          (case run_insert fails now a s1 of
             (Inr r, s2) \<Rightarrow>
               (if \<not> inTransaction then ((r, []), s2)
                else case release_savepoint fails s2 of
                  (Inr _, s3) \<Rightarrow> ((r, []), s3)
                | (Inl e, s3) \<Rightarrow>
                    (case recover_savepoint fails s3 of (l, s4) \<Rightarrow> ((None, l @ [EvidenceWriteFailed e]), s4)))
           | (Inl e, s2) \<Rightarrow>
               (if \<not> inTransaction then ((None, [EvidenceWriteFailed e]), s2)
                else case recover_savepoint fails s2 of (l, s3) \<Rightarrow> ((None, l @ [EvidenceWriteFailed e]), s3))))"

section \<open>One open exception per anomaly\<close>

definition queue_ok :: "recon_exception list \<Rightarrow> bool" where
  "queue_ok rows \<longleftrightarrow> distinct (map open_key (filter (\<lambda>r. open_key r \<noteq> None) rows))"

lemma open_key_refresh:
  "open_key (r\<lparr>re_reference := x, re_details := y, re_lastSeenAt := z\<rparr>) = open_key r"
  by (simp add: open_key_def)

lemma open_keys_update:
  assumes "\<And>r. open_key (f r) = open_key r"
  shows "map open_key (filter (\<lambda>r. open_key r \<noteq> None) (update_by P f rows)) =
         map open_key (filter (\<lambda>r. open_key r \<noteq> None) rows)"
  using assms by (induction rows) auto

lemma upsert_queue_ok:
  assumes "queue_ok rows"
  shows "queue_ok (upsert_exception now a rows)"
proof (cases "Some (ea_entityType a, ea_entityId a, ea_reason a) \<in> open_key ` set rows")
  case True
  then show ?thesis
    using assms unfolding upsert_exception_def Let_def queue_ok_def
    by (simp only: if_True open_keys_update open_key_refresh)
next
  case False
  then show ?thesis
    using assms by (auto simp: upsert_exception_def queue_ok_def open_key_def [of "\<lparr>re_entityType = _, re_entityId = _,
        re_reference = _, re_reason = _, re_status = _, re_details = _, re_firstSeenAt = _, re_lastSeenAt = _\<rparr>"])
qed

definition sample_exception :: exception_args where
  "sample_exception =
     \<lparr>ea_entityType = ''FIAT_PROVIDER_EVENT'', ea_entityId = ''e1'', ea_reference = None,
      ea_reason = ''CONFLICT'', ea_details = None\<rparr>"

section \<open>Properties\<close>

lemma upsert_opens:
  "open_key ` set (upsert_exception now a rows) =
   insert (Some (ea_entityType a, ea_entityId a, ea_reason a)) (open_key ` set rows)"
proof -
  have "open_key ` set (update_by P (\<lambda>r. r\<lparr>re_reference := f r, re_details := g r, re_lastSeenAt := now\<rparr>) rows) = open_key ` set rows"
    for P f g
    unfolding set_update_by image_image if_distrib [of open_key] open_key_refresh by simp
  then show ?thesis by (auto simp: upsert_exception_def Let_def open_key_def)
qed

text \<open>Recording an exception is idempotent while it stays open. Recording never leaves two
  open rows for one entity and reason, an accepted call leaves exactly one open row for its
  anomaly and returns it, and reporting the anomaly again adds no row.\<close>

theorem exception_queue_idempotent:
  assumes "queue_ok rows" and "recordReconciliationException now a rows = (Inr r, rows')"
  shows "queue_ok rows' \<and>
    (\<exists>x. r = Some x \<and> x \<in> set rows' \<and> open_key x = Some (ea_entityType a, ea_entityId a, ea_reason a)) \<and>
    length (snd (recordReconciliationException later a rows')) = length rows'"
proof -
  let ?k = "Some (ea_entityType a, ea_entityId a, ea_reason a)"
  have ok: "check_exception a = None" and rows': "rows' = upsert_exception now a rows"
    and r: "r = find_by open_key ?k rows'"
    using assms(2) by (auto simp: recordReconciliationException_def Let_def split: option.splits)
  have keys: "?k \<in> open_key ` set rows'"
  proof (cases "?k \<in> open_key ` set rows")
    case True
    then have "map open_key rows' = map open_key rows"
      by (simp add: rows' upsert_exception_def open_key_refresh)
    with True show ?thesis by (metis list.set_map)
  next
    case False
    then show ?thesis by (simp add: rows' upsert_exception_def open_key_def)
  qed
  then obtain x where "find_by open_key ?k rows' = Some x"
    using find_by_None [of open_key ?k rows'] by fastforce
  then have "r = Some x" and "x \<in> set rows'" and "open_key x = ?k"
    using r find_by_Some [of open_key ?k rows' x] by auto
  moreover have "length (snd (recordReconciliationException later a rows')) = length rows'"
    using keys ok by (simp add: recordReconciliationException_def upsert_exception_def Let_def)
  ultimately show ?thesis using upsert_queue_ok [OF assms(1)] rows' by blast
qed

theorem exception_queue_idempotent_witness:
  "length (snd (recordReconciliationException 2 sample_exception
     (snd (recordReconciliationException 1 sample_exception [])))) = 1"
proof -
  have "check_exception sample_exception = None"
    by (simp add: check_exception_def sample_exception_def VALID_ENTITY_TYPES_def)
  then have "\<exists>r rows. recordReconciliationException 1 sample_exception [] = (Inr r, rows) \<and> length rows = 1"
    by (simp add: recordReconciliationException_def upsert_exception_def Let_def)
  then obtain r rows where "recordReconciliationException 1 sample_exception [] = (Inr r, rows)" "length rows = 1"
    by blast
  with exception_queue_idempotent [OF _ this(1), of 2] show ?thesis by (simp add: queue_ok_def)
qed

text \<open>Writing evidence never poisons the caller's transaction. On a usable session, whichever
  of the insert and the release of the savepoint fail, the session is usable afterwards
  provided the rollback to the savepoint works; the table is either unchanged or upserted; and
  when the evidence is not written, the failure is logged.\<close>

theorem evidence_write_keeps_session:
  assumes "\<not> se_aborted s" and "\<not> fails SAVEPOINT" and "\<not> fails ROLLBACK_TO" and "\<not> fails RELEASE_SAVEPOINT"
    and "recordReconciliationExceptionLoud fails now a s = ((r, logs), s')"
  shows "\<not> se_aborted s' \<and> se_inTx s' = se_inTx s \<and>
    (se_rows s' = se_rows s \<and> r = None \<and> (\<exists>e. EvidenceWriteFailed e \<in> set logs) \<or>
     se_rows s' = upsert_exception now a (se_rows s) \<and> logs = [])"
  using assms
  by (auto simp: recordReconciliationExceptionLoud_def savepointState_def run_insert_def release_savepoint_def
      rollback_to_def recover_savepoint_def recordReconciliationException_def stmt_failed_def Let_def
      split: if_splits option.splits)

theorem evidence_write_keeps_session_witness:
  "se_aborted (snd (recordReconciliationExceptionLoud (\<lambda>st. st = INSERT) 1 sample_exception
     \<lparr>se_rows = [], se_inTx = True, se_aborted = False, se_saved = None\<rparr>)) = False"
proof -
  let ?f = "\<lambda>st. st = INSERT"
  let ?s = "\<lparr>se_rows = [], se_inTx = True, se_aborted = False, se_saved = None\<rparr>"
  obtain r logs s' where "recordReconciliationExceptionLoud ?f 1 sample_exception ?s = ((r, logs), s')"
    by (metis surj_pair)
  with evidence_write_keeps_session [OF _ _ _ _ this] show ?thesis by simp
qed

end
