(* ===== verification/Liquidity_Tables.thy ===== *)
theory Liquidity_Tables
  imports Exact_Quantity Recon_Exceptions Conditional_Claim
begin

text \<open>
  The state of the evidence-backed GHS liquidity authority,
  \<^verbatim>\<open>src/services/fiatLiquidityService.js\<close>: provider events, receipts, reservations, the
  aggregate \<open>FiatLiquidityState\<close> row with its five buckets, the \<open>SystemFiatPool\<close>
  projection, the exception queue, and the two tables the evidence chain reads
  (\<open>TransactionHistory\<close> and \<open>TransactionQuote\<close>).

  Conventions of the liquidity theories. Amounts are integers in pesewas. A row is
  identified by its unique business key (\<open>dedupKey\<close>, \<open>reference\<close>) instead of its UUID.
  Of a receipt's \<open>evidence\<close> JSON the model keeps the two event identities that the
  confirmations write into it. \<open>cx_now\<close> is the clock and \<open>cx_evidence_ok\<close> tells whether
  the exception insert of the operation succeeds. An operation reads the database, then
  other transactions may commit (\<open>env\<close>), then it runs its writes; a P2002 inside an
  interactive transaction aborts it (\<open>TxAborted\<close>), as the service's own comments record.
\<close>

section \<open>Tables\<close>

record observation =
  o_provider :: string
  o_rail :: "string option"
  o_direction :: string
  o_status :: string
  o_providerRef :: "string option"
  o_amountGhs :: "int option"
  o_relatedReference :: "string option"

record fiat_event =
  ev_dedupKey :: string
  ev_obs :: observation

datatype receipt_status = RECEIVED | AVAILABLE | UNMATCHED | RECEIPT_RECONCILIATION_REQUIRED | REVERSED

record receipt =
  rc_dedupKey :: string
  rc_provider :: string
  rc_rail :: "string option"
  rc_providerRef :: "string option"
  rc_amountGhs :: int
  rc_status :: receipt_status
  rc_route :: "string option"
  rc_reference :: "string option"
  rc_eventDedupKey :: "string option"
  rc_relatedTransactionId :: "string option"
  rc_matchEvent :: "string option"
  rc_fundingEvent :: "string option"
  rc_createdAt :: int

datatype reservation_status = RESERVED | IN_TRANSIT | PAID_OUT | RELEASED | RECONCILIATION_REQUIRED

record reservation =
  rz_reference :: string
  rz_amountGhs :: int
  rz_status :: reservation_status
  rz_provider :: string
  rz_rail :: "string option"
  rz_destination :: "string option"
  rz_relatedTransactionId :: "string option"
  rz_providerRef :: "string option"
  rz_dispatchedAt :: "int option"
  rz_settledAt :: "int option"
  rz_releasedAt :: "int option"
  rz_createdAt :: int

record buckets =
  availableGhs :: int
  reservedGhs :: int
  inTransitGhs :: int
  paidOutGhs :: int
  reconciliationHeldGhs :: int

record deposit_row =
  th_id :: string
  th_txHash :: string
  th_type :: string
  th_status :: string
  th_userId :: nat
  th_quoteId :: "string option"

record quote_row =
  q_id :: string
  q_userId :: nat
  q_consumed :: bool
  q_selectedRoute :: "string option"

record liquidity =
  events :: "fiat_event list"
  receipts :: "receipt list"
  reservations :: "reservation list"
  fl_state :: "buckets option"
  pool :: "int option"
  exceptions :: "recon_exception list"
  deposits :: "deposit_row list"
  quotes :: "quote_row list"

datatype liquidity_error =
    LiquidityInsufficient
  | ConflictingEvidence "string list"
  | InvalidEvidence
  | TxAborted
  | IdentityLost
  | StateRowMissing

record op_ctx =
  cx_now :: int
  cx_evidence_ok :: bool

type_synonym 'a liq_outcome = "(liquidity_error, 'a, liquidity) outcome"

section \<open>State helpers\<close>

definition zero_buckets :: buckets where
  "zero_buckets =
     \<lparr>availableGhs = 0, reservedGhs = 0, inTransitGhs = 0, paidOutGhs = 0, reconciliationHeldGhs = 0\<rparr>"

definition ensureStateRow :: "liquidity \<Rightarrow> liquidity" where
  "ensureStateRow s = (case fl_state s of None \<Rightarrow> s\<lparr>fl_state := Some zero_buckets\<rparr> | Some _ \<Rightarrow> s)"

definition update_state :: "(buckets \<Rightarrow> buckets) \<Rightarrow> liquidity \<Rightarrow> unit liq_outcome" where
  "update_state f s =
     (case fl_state s of None \<Rightarrow> (Inl StateRowMissing, s) | Some b \<Rightarrow> (Inr (), s\<lparr>fl_state := Some (f b)\<rparr>))"

definition claimAvailable :: "int \<Rightarrow> liquidity \<Rightarrow> unit liq_outcome" where
  "claimAvailable amount s =
     (case fl_state s of
        None \<Rightarrow> (Inl LiquidityInsufficient, s)
      | Some b \<Rightarrow>
          (if amount \<le> availableGhs b
           then (Inr (), s\<lparr>fl_state := Some (b\<lparr>availableGhs := availableGhs b - amount, reservedGhs := reservedGhs b + amount\<rparr>)\<rparr>)
           else (Inl LiquidityInsufficient, s)))"

definition syncPoolProjection :: "liquidity \<Rightarrow> buckets liq_outcome" where
  "syncPoolProjection s =
     (case fl_state s of
        None \<Rightarrow> (Inl StateRowMissing, s)
      | Some b \<Rightarrow> (Inr b, s\<lparr>pool := Some (availableGhs b)\<rparr>))"

definition credit_available :: "int \<Rightarrow> buckets \<Rightarrow> buckets" where
  "credit_available a b = b\<lparr>availableGhs := availableGhs b + a\<rparr>"

section \<open>The abstract view of the money\<close>

text \<open>
  What the authority promises is stated on \<open>liq_view\<close>: the evidence that was accepted, the
  five buckets, and the totals of the open reservation rows. \<open>liq_move\<close> lists the only ways
  an operation may move money, with the guard of each.
\<close>

record liq_view =
  lv_evidence :: int
  lv_buckets :: buckets
  lv_rows :: "reservation_status \<Rightarrow> int"

definition buckets_of :: "liquidity \<Rightarrow> buckets" where
  "buckets_of s = (case fl_state s of None \<Rightarrow> zero_buckets | Some b \<Rightarrow> b)"

definition available_amount :: "receipt \<Rightarrow> int" where
  "available_amount r = (if rc_status r = AVAILABLE then rc_amountGhs r else 0)"

definition status_amount :: "reservation_status \<Rightarrow> reservation \<Rightarrow> int" where
  "status_amount st r = (if rz_status r = st then rz_amountGhs r else 0)"

definition view_of :: "liquidity \<Rightarrow> liq_view" where
  "view_of s =
     \<lparr>lv_evidence = sum_rows available_amount (receipts s), lv_buckets = buckets_of s,
      lv_rows = (\<lambda>st. sum_rows (status_amount st) (reservations s))\<rparr>"

datatype liq_move =
    NoMove
  | Mint int
  | Reserve int
  | Dispatch int
  | Pay int
  | ReleaseReserved int
  | ReleaseInTransit int
  | HoldReserved int
  | HoldInTransit int
  | HoldReleased int
  | HoldSpent int
  | HoldPaid int

definition move_ok :: "liq_move \<Rightarrow> liq_view \<Rightarrow> bool" where
  "move_ok m v =
     (case m of
        NoMove \<Rightarrow> True
      | Mint a \<Rightarrow> 0 < a
      | Reserve a \<Rightarrow> 0 < a \<and> a \<le> availableGhs (lv_buckets v)
      | Dispatch a \<Rightarrow> 0 < a \<and> a \<le> lv_rows v RESERVED
      | Pay a \<Rightarrow> 0 < a \<and> a \<le> lv_rows v IN_TRANSIT
      | ReleaseReserved a \<Rightarrow> 0 < a \<and> a \<le> lv_rows v RESERVED
      | ReleaseInTransit a \<Rightarrow> 0 < a \<and> a \<le> lv_rows v IN_TRANSIT
      | HoldReserved a \<Rightarrow> 0 < a \<and> a \<le> lv_rows v RESERVED
      | HoldInTransit a \<Rightarrow> 0 < a \<and> a \<le> lv_rows v IN_TRANSIT
      | HoldReleased a \<Rightarrow> 0 < a \<and> a \<le> availableGhs (lv_buckets v)
      | HoldSpent a \<Rightarrow> 0 < a
      | HoldPaid a \<Rightarrow> 0 < a \<and> a \<le> lv_rows v PAID_OUT)"

definition shift :: "int \<Rightarrow> int \<Rightarrow> int \<Rightarrow> int \<Rightarrow> int \<Rightarrow> buckets \<Rightarrow> buckets" where
  "shift a r t p h b =
     b\<lparr>availableGhs := availableGhs b + a, reservedGhs := reservedGhs b + r, inTransitGhs := inTransitGhs b + t,
       paidOutGhs := paidOutGhs b + p, reconciliationHeldGhs := reconciliationHeldGhs b + h\<rparr>"

text \<open>One row moves between two statuses while the buckets shift.\<close>

definition row_change :: "reservation_status \<Rightarrow> reservation_status \<Rightarrow> int \<Rightarrow> liq_view \<Rightarrow> buckets \<Rightarrow> liq_view" where
  "row_change from st a v b =
     v\<lparr>lv_buckets := b, lv_rows := (lv_rows v)(from := lv_rows v from - a, st := lv_rows v st + a)\<rparr>"

definition apply_move :: "liq_move \<Rightarrow> liq_view \<Rightarrow> liq_view" where
  "apply_move m v =
     (let b = lv_buckets v in
      case m of
        NoMove \<Rightarrow> v
      | Mint a \<Rightarrow> v\<lparr>lv_evidence := lv_evidence v + a, lv_buckets := shift a 0 0 0 0 b\<rparr>
      | Reserve a \<Rightarrow> v\<lparr>lv_buckets := shift (-a) a 0 0 0 b, lv_rows := (lv_rows v)(RESERVED := lv_rows v RESERVED + a)\<rparr>
      | Dispatch a \<Rightarrow> row_change RESERVED IN_TRANSIT a v (shift 0 (-a) a 0 0 b)
      | Pay a \<Rightarrow> row_change IN_TRANSIT PAID_OUT a v (shift 0 0 (-a) a 0 b)
      | ReleaseReserved a \<Rightarrow> row_change RESERVED RELEASED a v (shift a (-a) 0 0 0 b)
      | ReleaseInTransit a \<Rightarrow> row_change IN_TRANSIT RELEASED a v (shift a 0 (-a) 0 0 b)
      | HoldReserved a \<Rightarrow> row_change RESERVED RECONCILIATION_REQUIRED a v (shift 0 (-a) 0 0 a b)
      | HoldInTransit a \<Rightarrow> row_change IN_TRANSIT RECONCILIATION_REQUIRED a v (shift 0 0 (-a) 0 a b)
      | HoldReleased a \<Rightarrow> row_change RELEASED RECONCILIATION_REQUIRED a v (shift (-a) 0 0 0 a b)
      | HoldSpent a \<Rightarrow> row_change RELEASED RECONCILIATION_REQUIRED a v b
      | HoldPaid a \<Rightarrow> row_change PAID_OUT RECONCILIATION_REQUIRED a v b)"

definition bucket_total :: "buckets \<Rightarrow> int" where
  "bucket_total b = availableGhs b + reservedGhs b + inTransitGhs b + paidOutGhs b + reconciliationHeldGhs b"

text \<open>The invariant of the money: every pesewa of accepted evidence is in exactly one bucket, no
  bucket is negative, the two open buckets are the open reservation rows, and what the paid
  and the held bucket hold beyond the paid rows is covered by quarantined rows.\<close>

definition view_inv :: "liq_view \<Rightarrow> bool" where
  "view_inv v \<longleftrightarrow>
     bucket_total (lv_buckets v) = lv_evidence v \<and>
     reservedGhs (lv_buckets v) = lv_rows v RESERVED \<and> inTransitGhs (lv_buckets v) = lv_rows v IN_TRANSIT \<and>
     0 \<le> availableGhs (lv_buckets v) \<and> 0 \<le> lv_rows v RESERVED \<and> 0 \<le> lv_rows v IN_TRANSIT \<and>
     0 \<le> lv_rows v PAID_OUT \<and> lv_rows v PAID_OUT \<le> paidOutGhs (lv_buckets v) \<and>
     0 \<le> reconciliationHeldGhs (lv_buckets v) \<and>
     paidOutGhs (lv_buckets v) - lv_rows v PAID_OUT + reconciliationHeldGhs (lv_buckets v)
       \<le> lv_rows v RECONCILIATION_REQUIRED"

lemma move_inv: "view_inv v \<Longrightarrow> move_ok m v \<Longrightarrow> view_inv (apply_move m v)"
  by (cases m) (auto simp: view_inv_def move_ok_def apply_move_def row_change_def shift_def bucket_total_def Let_def)

end
