(* ===== verification/Liquidity_Evidence.thy ===== *)
theory Liquidity_Evidence
  imports Liquidity_Tables
begin

text \<open>
  Provider observations, the first half of \<^verbatim>\<open>src/services/fiatLiquidityService.js\<close>: the
  semantic identity of an observation, replay, enrichment of a missing provider reference by
  compare-and-set, and the retention of contradictory observations under a derived key.

  \<open>sha\<close> is SHA-256 in hexadecimal and \<open>parse\<close> the string parser of \<open>Prisma.Decimal\<close>.
  \<open>in_tx\<close> tells whether the client passed to \<open>recordProviderEvent\<close> is an interactive
  transaction, in which a unique violation aborts everything that follows. The \<open>raw\<close>
  payload is not identity and is not modelled.
\<close>

section \<open>Semantic identity\<close>

definition toFixed2 :: "int \<Rightarrow> string" where
  "toFixed2 n =
     (let m = nat n; f = m mod 100 in
      show_nat (m div 100) @ ''.'' @ (if f < 10 then ''0'' else '''') @ show_nat f)"

definition providerRefClaimsDiffer :: "string option \<Rightarrow> string option \<Rightarrow> bool" where
  "providerRefClaimsDiffer a b \<longleftrightarrow> a \<noteq> None \<and> b \<noteq> None \<and> a \<noteq> b"

definition observationSemanticDiffs :: "observation \<Rightarrow> observation \<Rightarrow> string list" where
  "observationSemanticDiffs a b =
     (if o_provider a \<noteq> o_provider b then [''provider''] else []) @
     (if o_rail a \<noteq> o_rail b then [''rail''] else []) @
     (if o_direction a \<noteq> o_direction b then [''direction''] else []) @
     (if o_status a \<noteq> o_status b then [''status''] else []) @
     (if providerRefClaimsDiffer (o_providerRef a) (o_providerRef b) then [''providerRef''] else []) @
     (if o_amountGhs a \<noteq> o_amountGhs b then [''amountGhs''] else []) @
     (if o_relatedReference a \<noteq> o_relatedReference b then [''relatedReference''] else [])"

definition observationSemanticsMatch :: "observation \<Rightarrow> observation \<Rightarrow> bool" where
  "observationSemanticsMatch a b \<longleftrightarrow>
     o_provider a = o_provider b \<and> o_rail a = o_rail b \<and> o_direction a = o_direction b \<and>
     o_status a = o_status b \<and> \<not> providerRefClaimsDiffer (o_providerRef a) (o_providerRef b) \<and>
     o_amountGhs a = o_amountGhs b \<and> o_relatedReference a = o_relatedReference b"

text \<open>The separators are the two JavaScript literals as they are evaluated: the backslash is
  escaped in the source, so both are plain text.\<close>

definition null_text :: string where
  "null_text = [CHR 0x5C] @ ''0''"

definition field_separator :: string where
  "field_separator = [CHR 0x5C] @ ''u{1F}''"

definition field_text :: "string option \<Rightarrow> string" where
  "field_text v = (case v of None \<Rightarrow> null_text | Some t \<Rightarrow> t)"

fun join_text :: "string \<Rightarrow> string list \<Rightarrow> string" where
  "join_text sep [] = []"
| "join_text sep [x] = x"
| "join_text sep (x # y # xs) = x @ sep @ join_text sep (y # xs)"

definition canonical_observation :: "observation \<Rightarrow> string" where
  "canonical_observation ob =
     join_text field_separator
       [o_provider ob, field_text (o_rail ob), o_direction ob, o_status ob, field_text (o_providerRef ob),
        field_text (map_option toFixed2 (o_amountGhs ob)), field_text (o_relatedReference ob)]"

definition conflictingObservationDedupKey :: "(string \<Rightarrow> string) \<Rightarrow> string \<Rightarrow> observation \<Rightarrow> string" where
  "conflictingObservationDedupKey sha key ob =
     key @ '':CONFLICT:'' @ take 16 (sha (canonical_observation ob))"

section \<open>Recording\<close>

record observation_args =
  oa_dedupKey :: string
  oa_provider :: string
  oa_rail :: "string option"
  oa_direction :: string
  oa_status :: string
  oa_providerRef :: "string option"
  oa_amountGhs :: js_value
  oa_relatedReference :: "string option"

type_synonym event_result = "fiat_event \<times> bool"

definition observation_of :: "observation_args \<Rightarrow> int option \<Rightarrow> observation" where
  "observation_of a amount =
     \<lparr>o_provider = oa_provider a, o_rail = oa_rail a, o_direction = oa_direction a, o_status = oa_status a,
      o_providerRef = oa_providerRef a, o_amountGhs = amount, o_relatedReference = oa_relatedReference a\<rparr>"

definition check_observation ::
  "(string \<Rightarrow> decimal option) \<Rightarrow> observation_args \<Rightarrow> liquidity_error + observation" where
  "check_observation parse a =
     (if oa_direction a \<notin> {''INBOUND'', ''OUTBOUND''} then Inl InvalidEvidence
      else if oa_provider a = [] \<or> oa_status a = [] \<or> oa_dedupKey a = [] then Inl InvalidEvidence
      else if oa_amountGhs a = JNull
        then (if oa_direction a = ''INBOUND'' then Inl InvalidEvidence else Inr (observation_of a None))
      else case toExactGhsDecimal parse (oa_amountGhs a) of
             Inl _ \<Rightarrow> Inl InvalidEvidence
           | Inr n \<Rightarrow> Inr (observation_of a (Some n)))"

definition retainConflictingObservation ::
  "(string \<Rightarrow> string) \<Rightarrow> string \<Rightarrow> observation \<Rightarrow> liquidity \<Rightarrow> liquidity" where
  "retainConflictingObservation sha key ob s =
     (let k = conflictingObservationDedupKey sha key ob in
      case find_by ev_dedupKey k (events s) of
        Some _ \<Rightarrow> s
      | None \<Rightarrow> s\<lparr>events := events s @ [\<lparr>ev_dedupKey = k, ev_obs = ob\<rparr>]\<rparr>)"

definition failClosedOnConflict ::
  "(string \<Rightarrow> string) \<Rightarrow> string \<Rightarrow> observation \<Rightarrow> fiat_event \<Rightarrow> liquidity \<Rightarrow> event_result liq_outcome" where
  "failClosedOnConflict sha key ob committed s =
     (Inl (ConflictingEvidence (observationSemanticDiffs (ev_obs committed) ob)),
      retainConflictingObservation sha key ob s)"

definition ref_absent :: "fiat_event \<Rightarrow> bool" where
  "ref_absent e \<longleftrightarrow> o_providerRef (ev_obs e) = None"

definition fill_ref :: "string \<Rightarrow> fiat_event \<Rightarrow> fiat_event" where
  "fill_ref r e = e\<lparr>ev_obs := (ev_obs e)\<lparr>o_providerRef := Some r\<rparr>\<rparr>"

definition enrichProviderRefObservation ::
  "(fiat_event \<Rightarrow> liquidity \<Rightarrow> event_result liq_outcome) \<Rightarrow> string \<Rightarrow> string \<Rightarrow> liquidity \<Rightarrow> event_result liq_outcome" where
  "enrichProviderRefObservation failClosed key ref s =
     (if claims ev_dedupKey ref_absent key (events s) = 1
      then let s' = s\<lparr>events := claim_rows ev_dedupKey ref_absent (fill_ref ref) key (events s)\<rparr> in
        (case find_by ev_dedupKey key (events s') of None \<Rightarrow> (Inl IdentityLost, s') | Some e \<Rightarrow> (Inr (e, True), s'))
      else case find_by ev_dedupKey key (events s) of
        None \<Rightarrow> (Inl IdentityLost, s)
      | Some e \<Rightarrow>
          (if o_providerRef (ev_obs e) = None \<or> o_providerRef (ev_obs e) = Some ref then (Inr (e, True), s)
           else failClosed e s))"

definition converge_observation ::
  "(string \<Rightarrow> string) \<Rightarrow> string \<Rightarrow> observation \<Rightarrow> fiat_event \<Rightarrow> liquidity \<Rightarrow> event_result liq_outcome" where
  "converge_observation sha key ob existing s =
     (if observationSemanticsMatch (ev_obs existing) ob
      then (case o_providerRef ob of
              Some ref \<Rightarrow>
                (if ref_absent existing then enrichProviderRefObservation (failClosedOnConflict sha key ob) key ref s
                 else (Inr (existing, True), s))
            | None \<Rightarrow> (Inr (existing, True), s))
      else failClosedOnConflict sha key ob existing s)"

definition recordProviderEvent ::
  "(string \<Rightarrow> string) \<Rightarrow> (string \<Rightarrow> decimal option) \<Rightarrow> bool \<Rightarrow> observation_args \<Rightarrow>
   (liquidity \<Rightarrow> liquidity) \<Rightarrow> liquidity \<Rightarrow> event_result liq_outcome" where
  "recordProviderEvent sha parse in_tx a env s =
     (case check_observation parse a of
        Inl e \<Rightarrow> (Inl e, s)
      | Inr ob \<Rightarrow>
          (let key = oa_dedupKey a; s' = env s in
           case find_by ev_dedupKey key (events s) of
             Some existing \<Rightarrow> converge_observation sha key ob existing s'
           | None \<Rightarrow>
               (case find_by ev_dedupKey key (events s') of
                  None \<Rightarrow>
                    (let e = \<lparr>ev_dedupKey = key, ev_obs = ob\<rparr> in
                     (Inr (e, False), s'\<lparr>events := events s' @ [e]\<rparr>))
                | Some raced \<Rightarrow>
                    (if in_tx then (Inl TxAborted, s') else converge_observation sha key ob raced s'))))"

definition enrichProviderEventRefByDedupKey ::
  "string \<Rightarrow> string option \<Rightarrow> (liquidity \<Rightarrow> liquidity) \<Rightarrow> liquidity \<Rightarrow> (fiat_event option) liq_outcome" where
  "enrichProviderEventRefByDedupKey key ref env s =
     (case ref of
        None \<Rightarrow> (Inr None, s)
      | Some r \<Rightarrow>
          (case find_by ev_dedupKey key (events s) of
             None \<Rightarrow> (Inr None, s)
           | Some existing \<Rightarrow>
               (case o_providerRef (ev_obs existing) of
                  Some r' \<Rightarrow> if r' \<noteq> r then (Inl (ConflictingEvidence [''providerRef'']), s) else (Inr (Some existing), s)
                | None \<Rightarrow>
                    and_then (enrichProviderRefObservation
                        (\<lambda>_ t. (Inl (ConflictingEvidence [''providerRef'']), t)) key r (env s))
                      (\<lambda>(e, _) t. (Inr (Some e), t)))))"

section \<open>Committed observations are never rewritten\<close>

definition event_evolves :: "fiat_event \<Rightarrow> fiat_event \<Rightarrow> bool" where
  "event_evolves x y \<longleftrightarrow> y = x \<or> ref_absent x \<and> (\<exists>r. y = fill_ref r x)"

abbreviation events_evolve :: "liquidity \<Rightarrow> liquidity \<Rightarrow> bool" where
  "events_evolve s t \<equiv> rows_evolve ev_dedupKey event_evolves (events s) (events t)"

lemma event_evolves_refl [simp]: "event_evolves x x"
  by (simp add: event_evolves_def)

lemma transp_event_evolves: "transp event_evolves"
  by (rule transpI) (auto simp: event_evolves_def ref_absent_def fill_ref_def)

lemmas events_evolve_trans = rows_evolve_trans [OF transp_event_evolves]

interpretation enr: conditional_claim ev_dedupKey ref_absent "fill_ref r" for r
  by unfold_locales (simp_all add: fill_ref_def ref_absent_def)

text \<open>Observation operations touch the event table only, and only in these ways.\<close>

definition events_only :: "liquidity \<Rightarrow> liquidity \<Rightarrow> bool" where
  "events_only s t \<longleftrightarrow>
     t = s\<lparr>events := events t\<rparr> \<and> events_evolve s t \<and>
     (distinct (map ev_dedupKey (events s)) \<longrightarrow> distinct (map ev_dedupKey (events t)))"

lemma events_only_refl [simp]: "events_only s s"
  by (simp add: events_only_def rows_evolve_refl)

lemma events_only_append:
  "k \<notin> ev_dedupKey ` set (events s) \<Longrightarrow>
   events_only s (s\<lparr>events := events s @ [\<lparr>ev_dedupKey = k, ev_obs = ob\<rparr>]\<rparr>)"
  by (simp add: events_only_def rows_evolve_append)

lemma events_only_enrich:
  "events_only s (s\<lparr>events := claim_rows ev_dedupKey ref_absent (fill_ref r) k (events s)\<rparr>)"
proof -
  have "rows_evolve ev_dedupKey event_evolves (events s) (claim_rows ev_dedupKey ref_absent (fill_ref r) k (events s))"
    unfolding claim_rows_def
    by (rule rows_evolve_update) (auto simp: fill_ref_def event_evolves_def)
  then show ?thesis by (simp add: events_only_def enr.claim_keys)
qed

lemma retain_events_only: "events_only s (retainConflictingObservation sha key ob s)"
  by (auto simp: retainConflictingObservation_def Let_def find_by_None intro: events_only_append split: option.splits)

lemma enrich_events_only:
  assumes "enrichProviderRefObservation fc key ref s = (r, s')"
    and "\<And>e t u. fc e s = (t, u) \<Longrightarrow> events_only s u"
  shows "events_only s s'"
  using assms events_only_enrich [of s ref key]
  by (auto simp: enrichProviderRefObservation_def Let_def split: if_splits option.splits)

lemma converge_events_only:
  assumes "converge_observation sha key ob x s = (r, s')"
  shows "events_only s s'"
proof -
  have fc: "events_only s u" if "failClosedOnConflict sha key ob e s = (t, u)" for e t u
    using that retain_events_only by (auto simp: failClosedOnConflict_def)
  show ?thesis
    using assms fc enrich_events_only [OF _ fc]
    by (auto simp: converge_observation_def split: if_splits option.splits)
qed

lemma recordProviderEvent_events_only:
  assumes "recordProviderEvent sha parse in_tx a env s = (r, s')"
  shows "s' = s \<or> events_only (env s) s'"
  using assms events_only_append converge_events_only
  by (auto simp: recordProviderEvent_def Let_def find_by_None split: sum.splits option.splits if_splits)

lemma enrichByDedupKey_events_only:
  assumes "enrichProviderEventRefByDedupKey key ref env s = (r, s')"
  shows "s' = s \<or> events_only (env s) s'"
proof (cases "\<exists>rf x. ref = Some rf \<and> find_by ev_dedupKey key (events s) = Some x \<and> o_providerRef (ev_obs x) = None")
  case False
  then show ?thesis
    using assms by (auto simp: enrichProviderEventRefByDedupKey_def split: option.splits if_splits)
next
  case True
  then obtain rf x where "ref = Some rf" "find_by ev_dedupKey key (events s) = Some x" "o_providerRef (ev_obs x) = None"
    by blast
  moreover obtain r1 s1 where
    e: "enrichProviderRefObservation (\<lambda>_ t. (Inl (ConflictingEvidence [''providerRef'']), t)) key rf (env s) = (r1, s1)"
    by fastforce
  ultimately have "s' = s1"
    using assms by (auto simp: enrichProviderEventRefByDedupKey_def and_then_def split: sum.splits prod.splits)
  then show ?thesis using enrich_events_only [OF e] by simp
qed

section \<open>Replay and contradiction\<close>

lemma match_iff_no_diffs: "observationSemanticsMatch a b \<longleftrightarrow> observationSemanticDiffs a b = []"
  by (auto simp: observationSemanticsMatch_def observationSemanticDiffs_def)

text \<open>The row a successful recording leaves under its key: it matches the observation and carries
  its provider reference if the observation has one.\<close>

definition settled_as :: "observation \<Rightarrow> fiat_event \<Rightarrow> bool" where
  "settled_as ob e \<longleftrightarrow>
     observationSemanticsMatch (ev_obs e) ob \<and> (o_providerRef ob \<noteq> None \<longrightarrow> o_providerRef (ev_obs e) = o_providerRef ob)"

lemma settled_evolves: "settled_as ob e \<Longrightarrow> event_evolves e e' \<Longrightarrow> settled_as ob e'"
  by (auto simp: settled_as_def event_evolves_def fill_ref_def ref_absent_def observationSemanticsMatch_def
      providerRefClaimsDiffer_def)

lemma settled_fill: "observationSemanticsMatch (ev_obs e) ob \<Longrightarrow> o_providerRef ob = Some r \<Longrightarrow> settled_as ob (fill_ref r e)"
  by (auto simp: settled_as_def fill_ref_def observationSemanticsMatch_def providerRefClaimsDiffer_def)

lemma match_evolves_or_conflicts:
  assumes "observationSemanticsMatch (ev_obs x) ob" and "event_evolves x y" and "o_providerRef ob = Some r"
    and "o_providerRef (ev_obs y) = Some r"
  shows "settled_as ob y"
  using assms by (auto simp: settled_as_def event_evolves_def fill_ref_def ref_absent_def observationSemanticsMatch_def
      providerRefClaimsDiffer_def)

lemma settled_converges:
  "settled_as ob x \<Longrightarrow> converge_observation sha key ob x s = (Inr (x, True), s)"
  by (auto simp: converge_observation_def settled_as_def ref_absent_def split: option.splits)

lemma converge_settles:
  assumes c: "converge_observation sha key ob x s = (Inr (e, b), s')"
    and "find_by ev_dedupKey key (events s) = Some y" and "event_evolves x y"
    and d: "distinct (map ev_dedupKey (events s))"
  shows "\<exists>z. find_by ev_dedupKey key (events s') = Some z \<and> settled_as ob z"
proof -
  have m: "observationSemanticsMatch (ev_obs x) ob"
    using c by (auto simp: converge_observation_def failClosedOnConflict_def split: if_splits)
  show ?thesis
  proof (cases "\<exists>r. o_providerRef ob = Some r \<and> ref_absent x")
    case False
    then have "s' = s" and "settled_as ob x"
      using c m by (auto simp: converge_observation_def settled_as_def ref_absent_def observationSemanticsMatch_def
          providerRefClaimsDiffer_def split: option.splits if_splits)
    then show ?thesis using assms(2,3) settled_evolves by blast
  next
    case True
    then obtain r where r: "o_providerRef ob = Some r" "ref_absent x" by blast
    with c m have e: "enrichProviderRefObservation (failClosedOnConflict sha key ob) key r s = (Inr (e, b), s')"
      by (simp add: converge_observation_def)
    show ?thesis
    proof (cases "ref_absent y")
      case True
      then have "y = x" using assms(3) by (auto simp: event_evolves_def fill_ref_def ref_absent_def)
      moreover have "claims ev_dedupKey ref_absent key (events s) = 1"
        using enr.claims_iff [OF d, of key] enr.claims_at_most_one [OF d, of key] assms(2) True by fastforce
      then have "events s' = claim_rows ev_dedupKey ref_absent (fill_ref r) key (events s)"
        using e by (auto simp: enrichProviderRefObservation_def Let_def split: option.splits)
      then have "find_by ev_dedupKey key (events s') = Some (fill_ref r y)"
        using assms(2) True by (simp add: enr.claim_find)
      ultimately show ?thesis using settled_fill [OF m r(1)] by simp
    next
      case False
      then have "claims ev_dedupKey ref_absent key (events s) \<noteq> 1"
        using enr.claims_iff [OF d, of key] assms(2) by auto
      then have "s' = s" and "o_providerRef (ev_obs y) = Some r"
        using e False assms(2)
        by (auto simp: enrichProviderRefObservation_def failClosedOnConflict_def ref_absent_def split: if_splits)
      then show ?thesis using match_evolves_or_conflicts [OF m assms(3) r(1)] assms(2) by blast
    qed
  qed
qed

lemma recordProviderEvent_settles:
  assumes rec: "recordProviderEvent sha parse in_tx a env s = (Inr (e, b), s1)"
    and ob: "check_observation parse a = Inr ob"
    and ev: "events_evolve s (env s)" and d: "distinct (map ev_dedupKey (events (env s)))"
  shows "\<exists>z. find_by ev_dedupKey (oa_dedupKey a) (events s1) = Some z \<and> settled_as ob z"
proof (cases "find_by ev_dedupKey (oa_dedupKey a) (events s)")
  case (Some x)
  then obtain y where "find_by ev_dedupKey (oa_dedupKey a) (events (env s)) = Some y" "event_evolves x y"
    using rows_evolveD [OF ev] by blast
  moreover have "converge_observation sha (oa_dedupKey a) ob x (env s) = (Inr (e, b), s1)"
    using rec ob Some by (simp add: recordProviderEvent_def)
  ultimately show ?thesis using converge_settles d by blast
next
  case None
  show ?thesis
  proof (cases "find_by ev_dedupKey (oa_dedupKey a) (events (env s))")
    case none: None
    then have "find_by ev_dedupKey (oa_dedupKey a) (events s1) = Some \<lparr>ev_dedupKey = oa_dedupKey a, ev_obs = ob\<rparr>"
      using rec ob None by (auto simp: recordProviderEvent_def Let_def)
    then show ?thesis
      by (simp add: settled_as_def observationSemanticsMatch_def providerRefClaimsDiffer_def)
  next
    case (Some y)
    then have "converge_observation sha (oa_dedupKey a) ob y (env s) = (Inr (e, b), s1)"
      using rec ob None by (auto simp: recordProviderEvent_def Let_def split: if_splits)
    then show ?thesis using converge_settles [OF _ Some _ d] by simp
  qed
qed

section \<open>Properties\<close>

definition empty_liquidity :: liquidity where
  "empty_liquidity =
     \<lparr>events = [], receipts = [], reservations = [], fl_state = None, pool = None, exceptions = [],
      deposits = [], quotes = []\<rparr>"

definition sample_observation :: observation_args where
  "sample_observation =
     \<lparr>oa_dedupKey = ''event:dep:h1'', oa_provider = ''MOOLRE'', oa_rail = Some ''MOMO'', oa_direction = ''INBOUND'',
      oa_status = ''SUCCESSFUL'', oa_providerRef = Some ''p1'', oa_amountGhs = JDec (Dec False 500 0),
      oa_relatedReference = Some ''h1''\<rparr>"

lemma sample_observation_checks:
  "check_observation (\<lambda>_. None) sample_observation = Inr (observation_of sample_observation (Some 50000))"
  by (simp add: check_observation_def sample_observation_def observation_of_def toExactGhsDecimal_def ghs_of_decimal_def)

text \<open>Replays of a provider observation converge. After an observation has been accepted, and
  after any further evolution of the evidence table, recording the same observation again
  succeeds as a replay and writes nothing.\<close>

theorem observation_replay_converges:
  assumes "recordProviderEvent sha parse in_tx a env s = (Inr (e, b), s1)"
    and "events_evolve s (env s)" and "distinct (map ev_dedupKey (events (env s)))" and "events_evolve s1 s2"
  shows "\<exists>e'. recordProviderEvent sha parse in_tx' a id s2 = (Inr (e', True), s2)"
proof -
  obtain ob where ob: "check_observation parse a = Inr ob"
    using assms(1) by (auto simp: recordProviderEvent_def split: sum.splits)
  obtain z where "find_by ev_dedupKey (oa_dedupKey a) (events s1) = Some z" and z: "settled_as ob z"
    using recordProviderEvent_settles [OF assms(1) ob assms(2,3)] by blast
  then obtain y where "find_by ev_dedupKey (oa_dedupKey a) (events s2) = Some y" and "event_evolves z y"
    using rows_evolveD [OF assms(4)] by blast
  moreover from this(2) have "settled_as ob y" using settled_evolves [OF z] by blast
  ultimately show ?thesis
    using settled_converges [of ob y sha "oa_dedupKey a" s2] ob by (simp add: recordProviderEvent_def)
qed

theorem observation_replay_converges_witness:
  "\<exists>s e. length (events s) = 1 \<and>
     recordProviderEvent id (\<lambda>_. None) False sample_observation id s = (Inr (e, True), s)"
proof -
  obtain e s where r: "recordProviderEvent id (\<lambda>_. None) False sample_observation id empty_liquidity = (Inr (e, False), s)"
    and "length (events s) = 1"
    by (simp add: recordProviderEvent_def sample_observation_checks empty_liquidity_def Let_def)
  have "events_evolve empty_liquidity (id empty_liquidity)" and "events_evolve s s"
    by (simp_all add: rows_evolve_refl)
  from observation_replay_converges [OF r this(1) _ this(2)] \<open>length (events s) = 1\<close> show ?thesis
    by (auto simp: empty_liquidity_def)
qed

text \<open>Contradictory evidence fails closed and is kept. An observation that differs materially
  from the one committed under its key is refused with the differing fields; the committed row
  is not touched, and a row under the derived conflict key is in the table afterwards.\<close>

theorem contradiction_retained:
  assumes "check_observation parse a = Inr ob" and "find_by ev_dedupKey (oa_dedupKey a) (events s) = Some x"
    and "\<not> observationSemanticsMatch (ev_obs x) ob"
  shows "\<exists>diffs s'. recordProviderEvent sha parse in_tx a env s = (Inl (ConflictingEvidence diffs), s') \<and> diffs \<noteq> [] \<and>
    find_by ev_dedupKey (oa_dedupKey a) (events s') = find_by ev_dedupKey (oa_dedupKey a) (events (env s)) \<and>
    (\<exists>e. find_by ev_dedupKey (conflictingObservationDedupKey sha (oa_dedupKey a) ob) (events s') = Some e)"
proof -
  let ?k = "conflictingObservationDedupKey sha (oa_dedupKey a) ob"
  let ?s = "retainConflictingObservation sha (oa_dedupKey a) ob (env s)"
  have rec: "recordProviderEvent sha parse in_tx a env s =
      (Inl (ConflictingEvidence (observationSemanticDiffs (ev_obs x) ob)), ?s)"
    using assms by (simp add: recordProviderEvent_def converge_observation_def failClosedOnConflict_def)
  have "?k \<noteq> oa_dedupKey a" by (simp add: conflictingObservationDedupKey_def)
  then have same: "find_by ev_dedupKey (oa_dedupKey a) (events ?s) = find_by ev_dedupKey (oa_dedupKey a) (events (env s))"
    by (auto simp: retainConflictingObservation_def Let_def split: option.splits)
  have kept: "\<exists>e. find_by ev_dedupKey ?k (events ?s) = Some e"
    by (auto simp: retainConflictingObservation_def Let_def split: option.splits)
  show ?thesis using rec same kept assms(3) match_iff_no_diffs by blast
qed

theorem contradiction_retained_witness:
  "\<exists>diffs s'. recordProviderEvent id (\<lambda>_. None) False (sample_observation\<lparr>oa_status := ''FAILED''\<rparr>) id
     (empty_liquidity\<lparr>events := [\<lparr>ev_dedupKey = ''event:dep:h1'', ev_obs = observation_of sample_observation (Some 50000)\<rparr>]\<rparr>) =
     (Inl (ConflictingEvidence diffs), s') \<and> diffs \<noteq> []"
proof -
  let ?a = "sample_observation\<lparr>oa_status := ''FAILED''\<rparr>"
  have "check_observation (\<lambda>_. None) ?a = Inr (observation_of ?a (Some 50000))"
    by (simp add: check_observation_def sample_observation_def observation_of_def toExactGhsDecimal_def ghs_of_decimal_def)
  from contradiction_retained [OF this, of "empty_liquidity\<lparr>events := [\<lparr>ev_dedupKey = ''event:dep:h1'',
      ev_obs = observation_of sample_observation (Some 50000)\<rparr>]\<rparr>"
      "\<lparr>ev_dedupKey = ''event:dep:h1'', ev_obs = observation_of sample_observation (Some 50000)\<rparr>" id False id]
  show ?thesis
    by (auto simp: sample_observation_def observation_of_def observationSemanticsMatch_def)
qed

text \<open>Evidence is append-only. Recording an observation, successfully or not, keeps every
  committed row with all its claims; the one change is a missing provider reference being
  filled in, once.\<close>

theorem evidence_append_only:
  assumes "recordProviderEvent sha parse in_tx a env s = (r, s')" and "events_evolve s (env s)"
    and "find_by ev_dedupKey k (events s) = Some x"
  shows "find_by ev_dedupKey k (events s') = Some x \<or>
    o_providerRef (ev_obs x) = None \<and>
    (\<exists>ref. find_by ev_dedupKey k (events s') = Some (x\<lparr>ev_obs := (ev_obs x)\<lparr>o_providerRef := Some ref\<rparr>\<rparr>))"
proof -
  have "events_evolve s s'"
    using recordProviderEvent_events_only [OF assms(1)] assms(2) events_evolve_trans
    by (auto simp: events_only_def rows_evolve_refl)
  from rows_evolveD [OF this assms(3)] show ?thesis
    by (auto simp: event_evolves_def fill_ref_def ref_absent_def)
qed

theorem evidence_append_only_witness:
  "find_by ev_dedupKey ''event:dep:h1'' (events (snd (recordProviderEvent id (\<lambda>_. None) False
     (sample_observation\<lparr>oa_status := ''FAILED''\<rparr>) id
     (empty_liquidity\<lparr>events := [\<lparr>ev_dedupKey = ''event:dep:h1'', ev_obs = observation_of sample_observation (Some 50000)\<rparr>]\<rparr>)))) =
   Some \<lparr>ev_dedupKey = ''event:dep:h1'', ev_obs = observation_of sample_observation (Some 50000)\<rparr>"
proof -
  let ?s = "empty_liquidity\<lparr>events := [\<lparr>ev_dedupKey = ''event:dep:h1'', ev_obs = observation_of sample_observation (Some 50000)\<rparr>]\<rparr>"
  obtain r s' where r: "recordProviderEvent id (\<lambda>_. None) False (sample_observation\<lparr>oa_status := ''FAILED''\<rparr>) id ?s = (r, s')"
    by fastforce
  have "events_evolve ?s (id ?s)" by (simp add: rows_evolve_refl)
  from evidence_append_only [OF r this, of "''event:dep:h1''"] r show ?thesis
    by (simp add: observation_of_def sample_observation_def)
qed

text \<open>The conflict key is not injective. The separators are literal text, so an observation
  without a rail and one whose rail is the text that stands for a missing field have the same
  canonical form: under one committed key their conflict keys coincide whatever the hash, and
  the second contradiction is not kept as a row of its own.\<close>

theorem conflict_key_collision:
  "let ob = (\<lambda>rail. \<lparr>o_provider = ''MOOLRE'', o_rail = rail, o_direction = ''INBOUND'', o_status = ''FAILED'',
                     o_providerRef = None, o_amountGhs = Some 100, o_relatedReference = None\<rparr>);
       x = ob None; y = ob (Some null_text) in
   \<not> observationSemanticsMatch x y \<and>
   (\<forall>sha key s. conflictingObservationDedupKey sha key x = conflictingObservationDedupKey sha key y \<and>
      retainConflictingObservation sha key y (retainConflictingObservation sha key x s) =
      retainConflictingObservation sha key x s)"
proof -
  let ?ob = "\<lambda>rail. \<lparr>o_provider = ''MOOLRE'', o_rail = rail, o_direction = ''INBOUND'', o_status = ''FAILED'',
                     o_providerRef = None, o_amountGhs = Some 100, o_relatedReference = None\<rparr>"
  have "conflictingObservationDedupKey sha key (?ob None) = conflictingObservationDedupKey sha key (?ob (Some null_text))"
    for sha key by (simp add: conflictingObservationDedupKey_def canonical_observation_def field_text_def)
  then show ?thesis
    by (auto simp: Let_def retainConflictingObservation_def observationSemanticsMatch_def split: option.splits)
qed

end
