(* ===== verification/Liquidity_Contract.thy ===== *)
theory Liquidity_Contract
  imports Liquidity_Evidence
begin

text \<open>
  The contract every operation of the liquidity authority keeps, as an interface.

  \<open>tables_ok\<close> is the well-formedness of the tables (unique identities, positive amounts, at
  most one \<open>AVAILABLE\<close> receipt per deposit, a durable event behind every \<open>AVAILABLE\<close>
  receipt). \<open>liq_evolves\<close> says how rows may change: identities and amounts never, statuses
  only forwards. \<open>liq_effect\<close> adds that the money moved by exactly one \<open>liq_move\<close>.

  The locale \<open>liquidity_operation\<close> is the obligation of an operation that runs in the
  caller's transaction, and proves once that such an operation keeps the invariant whatever
  other transactions commit while it runs. \<open>evidence_operation\<close> is the stronger obligation
  of the operations that run outside a transaction and write evidence even when they throw.
\<close>

section \<open>How rows evolve\<close>

definition receipt_evolves :: "receipt \<Rightarrow> receipt \<Rightarrow> bool" where
  "receipt_evolves x y \<longleftrightarrow>
     rc_dedupKey y = rc_dedupKey x \<and> rc_provider y = rc_provider x \<and> rc_rail y = rc_rail x \<and>
     rc_amountGhs y = rc_amountGhs x \<and> rc_route y = rc_route x \<and> rc_reference y = rc_reference x \<and>
     rc_eventDedupKey y = rc_eventDedupKey x \<and>
     (rc_status y = rc_status x \<and> rc_relatedTransactionId y = rc_relatedTransactionId x \<or>
      rc_status x \<in> {RECEIVED, UNMATCHED} \<and> rc_status y = AVAILABLE) \<and>
     (rc_providerRef x \<noteq> None \<longrightarrow> rc_providerRef y = rc_providerRef x)"

definition later_status :: "reservation_status \<Rightarrow> reservation_status set" where
  "later_status st =
     (case st of
        RESERVED \<Rightarrow> {RESERVED, IN_TRANSIT, PAID_OUT, RELEASED, RECONCILIATION_REQUIRED}
      | IN_TRANSIT \<Rightarrow> {IN_TRANSIT, PAID_OUT, RELEASED, RECONCILIATION_REQUIRED}
      | PAID_OUT \<Rightarrow> {PAID_OUT, RECONCILIATION_REQUIRED}
      | RELEASED \<Rightarrow> {RELEASED, RECONCILIATION_REQUIRED}
      | RECONCILIATION_REQUIRED \<Rightarrow> {RECONCILIATION_REQUIRED})"

definition reservation_evolves :: "reservation \<Rightarrow> reservation \<Rightarrow> bool" where
  "reservation_evolves x y \<longleftrightarrow>
     rz_reference y = rz_reference x \<and> rz_amountGhs y = rz_amountGhs x \<and> rz_provider y = rz_provider x \<and>
     rz_status y \<in> later_status (rz_status x) \<and>
     (rz_providerRef x \<noteq> None \<longrightarrow> rz_providerRef y = rz_providerRef x)"

lemma receipt_evolves_refl [simp]: "receipt_evolves x x"
  by (simp add: receipt_evolves_def)

lemma transp_receipt_evolves: "transp receipt_evolves"
  by (rule transpI) (auto simp: receipt_evolves_def)

lemma later_status_refl [simp]: "st \<in> later_status st"
  by (cases st) (simp_all add: later_status_def)

lemma later_status_trans: "b \<in> later_status a \<Longrightarrow> c \<in> later_status b \<Longrightarrow> c \<in> later_status a"
  by (cases a; cases b) (auto simp: later_status_def)

lemma reservation_evolves_refl [simp]: "reservation_evolves x x"
  by (simp add: reservation_evolves_def)

lemma transp_reservation_evolves: "transp reservation_evolves"
  by (rule transpI) (auto simp: reservation_evolves_def intro: later_status_trans)

definition liq_evolves :: "liquidity \<Rightarrow> liquidity \<Rightarrow> bool" where
  "liq_evolves s t \<longleftrightarrow>
     rows_evolve ev_dedupKey event_evolves (events s) (events t) \<and>
     rows_evolve rc_dedupKey receipt_evolves (receipts s) (receipts t) \<and>
     rows_evolve rz_reference reservation_evolves (reservations s) (reservations t)"

lemma liq_evolves_refl [simp]: "liq_evolves s s"
  by (simp add: liq_evolves_def rows_evolve_refl)

lemma liq_evolves_trans: "liq_evolves s t \<Longrightarrow> liq_evolves t u \<Longrightarrow> liq_evolves s u"
  using events_evolve_trans rows_evolve_trans [OF transp_receipt_evolves] rows_evolve_trans [OF transp_reservation_evolves]
  unfolding liq_evolves_def by blast

section \<open>Well-formed tables\<close>

text \<open>The durable event behind an \<open>AVAILABLE\<close> receipt: a successful inbound collection of the
  same provider and amount, or, for a treasury opening, an attested external funding of the
  same amount.\<close>

definition backs :: "receipt \<Rightarrow> fiat_event \<Rightarrow> bool" where
  "backs r e \<longleftrightarrow>
     o_direction (ev_obs e) = ''INBOUND'' \<and> o_amountGhs (ev_obs e) = Some (rc_amountGhs r) \<and>
     (o_provider (ev_obs e) = rc_provider r \<and> o_status (ev_obs e) = ''SUCCESSFUL'' \<and>
      rc_relatedTransactionId r \<noteq> None \<and>
      (rc_eventDedupKey r = Some (ev_dedupKey e) \<or> rc_matchEvent r = Some (ev_dedupKey e)) \<or>
      o_provider (ev_obs e) = ''AZM_TREASURY'' \<and> o_status (ev_obs e) = ''FUNDED'' \<and>
      rc_fundingEvent r = Some (ev_dedupKey e))"

definition receipt_backed :: "liquidity \<Rightarrow> receipt \<Rightarrow> bool" where
  "receipt_backed s r \<longleftrightarrow> (rc_status r = AVAILABLE \<longrightarrow> (\<exists>e \<in> set (events s). backs r e))"

definition one_claim_per_deposit :: "receipt list \<Rightarrow> bool" where
  "one_claim_per_deposit rs \<longleftrightarrow>
     (\<forall>r \<in> set rs. \<forall>r' \<in> set rs. rc_status r = AVAILABLE \<longrightarrow> rc_status r' = AVAILABLE \<longrightarrow>
        rc_relatedTransactionId r \<noteq> None \<longrightarrow> rc_relatedTransactionId r' = rc_relatedTransactionId r \<longrightarrow> r' = r)"

definition tables_ok :: "liquidity \<Rightarrow> bool" where
  "tables_ok s \<longleftrightarrow>
     distinct (map ev_dedupKey (events s)) \<and> distinct (map rc_dedupKey (receipts s)) \<and>
     distinct (map rz_reference (reservations s)) \<and>
     (\<forall>r \<in> set (receipts s). 0 < rc_amountGhs r) \<and> (\<forall>r \<in> set (reservations s). 0 < rz_amountGhs r) \<and>
     one_claim_per_deposit (receipts s) \<and> (\<forall>r \<in> set (receipts s). receipt_backed s r)"

definition liq_inv :: "liquidity \<Rightarrow> bool" where
  "liq_inv s \<longleftrightarrow> tables_ok s \<and> view_inv (view_of s)"

lemma backs_evolves: "backs r e \<Longrightarrow> event_evolves e e' \<Longrightarrow> backs r e'"
  by (auto simp: backs_def event_evolves_def fill_ref_def)

lemma events_evolve_member:
  assumes "rows_evolve ev_dedupKey event_evolves es es'" and "distinct (map ev_dedupKey es)" and "e \<in> set es"
  obtains e' where "e' \<in> set es'" and "event_evolves e e'"
proof -
  have "find_by ev_dedupKey (ev_dedupKey e) es = Some e" using assms(2,3) by (simp add: find_by_distinct)
  from rows_evolveD [OF assms(1) this] show thesis using that find_by_Some by fastforce
qed

lemma backed_evolves:
  assumes "receipt_backed s r" and "rows_evolve ev_dedupKey event_evolves (events s) (events t)"
    and "distinct (map ev_dedupKey (events s))"
  shows "receipt_backed t r"
  using assms(1) backs_evolves events_evolve_member [OF assms(2,3)] unfolding receipt_backed_def by metis

section \<open>One operation, one move\<close>

definition liq_effect :: "liquidity \<Rightarrow> liquidity \<Rightarrow> bool" where
  "liq_effect s t \<longleftrightarrow>
     liq_evolves s t \<and> tables_ok t \<and> (\<exists>m. move_ok m (view_of s) \<and> view_of t = apply_move m (view_of s))"

lemma liq_effectI:
  "liq_evolves s t \<Longrightarrow> tables_ok t \<Longrightarrow> move_ok m (view_of s) \<Longrightarrow> view_of t = apply_move m (view_of s) \<Longrightarrow> liq_effect s t"
  by (auto simp: liq_effect_def)

lemma liq_effect_quiet: "liq_evolves s t \<Longrightarrow> tables_ok t \<Longrightarrow> view_of t = view_of s \<Longrightarrow> liq_effect s t"
  by (rule liq_effectI [of _ _ NoMove]) (simp_all add: move_ok_def apply_move_def)

lemma liq_effect_refl: "tables_ok s \<Longrightarrow> liq_effect s s"
  by (simp add: liq_effect_quiet)

lemma liq_effect_inv: "liq_effect s t \<Longrightarrow> liq_inv s \<Longrightarrow> liq_inv t \<and> liq_evolves s t"
  by (auto simp: liq_effect_def liq_inv_def move_inv)

lemma liq_effect_after_quiet:
  "liq_evolves s t \<Longrightarrow> view_of t = view_of s \<Longrightarrow> liq_effect t u \<Longrightarrow> liq_effect s u"
  by (auto simp: liq_effect_def intro: liq_evolves_trans)

lemma liq_effect_before_quiet:
  "liq_effect s t \<Longrightarrow> liq_evolves t u \<Longrightarrow> tables_ok u \<Longrightarrow> view_of u = view_of t \<Longrightarrow> liq_effect s u"
  by (auto simp: liq_effect_def intro: liq_evolves_trans)

lemma events_only_same:
  assumes "events_only s t"
  shows "receipts t = receipts s" "reservations t = reservations s" "fl_state t = fl_state s"
proof -
  have t: "t = s\<lparr>events := events t\<rparr>" using assms by (simp add: events_only_def)
  show "receipts t = receipts s" "reservations t = reservations s" "fl_state t = fl_state s"
    by (subst t, simp)+
qed

lemma events_only_view: "events_only s t \<Longrightarrow> view_of t = view_of s"
  by (simp add: view_of_def buckets_of_def events_only_same)

lemma events_only_effect:
  assumes "events_only s t" and "tables_ok s"
  shows "liq_effect s t"
proof (rule liq_effect_quiet)
  have ev: "rows_evolve ev_dedupKey event_evolves (events s) (events t)"
    and d: "distinct (map ev_dedupKey (events s)) \<longrightarrow> distinct (map ev_dedupKey (events t))"
    using assms(1) by (simp_all add: events_only_def)
  note same = events_only_same [OF assms(1)]
  show "liq_evolves s t" by (simp add: liq_evolves_def ev same rows_evolve_refl)
  show "tables_ok t"
    using assms(2) d backed_evolves [OF _ ev] by (simp add: tables_ok_def same)
  show "view_of t = view_of s" by (rule events_only_view [OF assms(1)])
qed

locale liquidity_operation =
  fixes run :: "(liquidity \<Rightarrow> liquidity) \<Rightarrow> liquidity \<Rightarrow> 'a liq_outcome"
  assumes run_effect: "run env s = (Inr a, s') \<Longrightarrow> tables_ok s \<Longrightarrow> tables_ok (env s) \<Longrightarrow> liq_evolves s (env s) \<Longrightarrow>
      liq_effect s s' \<or> liq_effect (env s) s'"
begin

lemma in_transaction:
  assumes "transaction env (run env) s = (r, s')" and "liq_inv s" and "liq_inv (env s)" and "liq_evolves s (env s)"
  shows "liq_inv s' \<and> liq_evolves s s'"
proof (cases r)
  case (Inl e)
  then show ?thesis using assms by (simp add: transaction_Inl)
next
  case (Inr a)
  then have "liq_effect s s' \<or> liq_effect (env s) s'"
    using assms run_effect by (simp add: liq_inv_def)
  then show ?thesis
    using assms(2-4) liq_effect_inv liq_evolves_trans by blast
qed

end

locale evidence_operation =
  fixes run :: "(liquidity \<Rightarrow> liquidity) \<Rightarrow> liquidity \<Rightarrow> 'a liq_outcome"
  assumes run_events: "run env s = (r, s') \<Longrightarrow> s' = s \<or> events_only (env s) s'"
begin

lemma outside_transaction:
  assumes "run env s = (r, s')" and "liq_inv s" and "liq_inv (env s)" and "liq_evolves s (env s)"
  shows "liq_inv s' \<and> liq_evolves s s'"
  using run_events [OF assms(1)]
proof
  assume "events_only (env s) s'"
  then have "liq_effect (env s) s'" using events_only_effect assms(3) by (simp add: liq_inv_def)
  then show ?thesis using liq_effect_inv liq_evolves_trans assms(3,4) by blast
qed (use assms in simp)

end

sublocale evidence_operation \<subseteq> liquidity_operation run
proof
  fix env s a s'
  assume "run env s = (Inr a, s')" and "tables_ok s" and "tables_ok (env s)"
  then show "liq_effect s s' \<or> liq_effect (env s) s'"
    using run_events events_only_effect liq_effect_refl by blast
qed

interpretation record_event: evidence_operation "recordProviderEvent sha parse in_tx a" for sha parse in_tx a
  by unfold_locales (rule recordProviderEvent_events_only)

interpretation stamp_event: evidence_operation "enrichProviderEventRefByDedupKey key ref" for key ref
  by unfold_locales (rule enrichByDedupKey_events_only)

section \<open>State helpers in the view\<close>

lemma ensureStateRow_simps [simp]:
  "events (ensureStateRow s) = events s" "receipts (ensureStateRow s) = receipts s"
  "reservations (ensureStateRow s) = reservations s" "deposits (ensureStateRow s) = deposits s"
  "quotes (ensureStateRow s) = quotes s" "exceptions (ensureStateRow s) = exceptions s"
  "buckets_of (ensureStateRow s) = buckets_of s" "fl_state (ensureStateRow s) = Some (buckets_of s)"
  by (simp_all add: ensureStateRow_def buckets_of_def split: option.splits)

lemma view_cong:
  "receipts t = receipts s \<Longrightarrow> reservations t = reservations s \<Longrightarrow> buckets_of t = buckets_of s \<Longrightarrow> view_of t = view_of s"
  by (simp add: view_of_def)

lemma tables_cong:
  "events t = events s \<Longrightarrow> receipts t = receipts s \<Longrightarrow> reservations t = reservations s \<Longrightarrow> tables_ok t = tables_ok s"
  by (simp add: tables_ok_def receipt_backed_def)

lemma ensureStateRow_effect: "tables_ok s \<Longrightarrow> liq_effect s (ensureStateRow s)"
  by (rule liq_effect_quiet)
    (simp_all add: liq_evolves_def rows_evolve_refl view_of_def tables_cong [of "ensureStateRow s" s])

end
