(* ===== verification/Liquidity_Receipts.thy ===== *)
theory Liquidity_Receipts
  imports Liquidity_Contract
begin

text \<open>
  Inbound liquidity, the middle part of \<^verbatim>\<open>src/services/fiatLiquidityService.js\<close>: the replay
  identity of a receipt, the verification of the evidence chain behind a matched deposit, and
  the three ways a receipt can become \<open>AVAILABLE\<close>: \<open>recordReceipt\<close>,
  \<open>confirmReconciliationMatch\<close> and \<open>confirmTreasuryOpening\<close>.

  The partial unique index that allows one \<open>AVAILABLE\<close> receipt per deposit is
  \<open>deposit_claimed\<close>. Receipts are compared on pesewas, which is what the two-digit texts
  of the source determine.
\<close>

section \<open>Receipt identity\<close>

record receipt_args =
  ra_provider :: string
  ra_rail :: "string option"
  ra_providerRef :: "string option"
  ra_dedupKey :: string
  ra_amountGhs :: js_value
  ra_route :: "string option"
  ra_reference :: "string option"
  ra_relatedTransactionId :: "string option"
  ra_treasury :: bool
  ra_eventDedupKey :: "string option"
  ra_quoteId :: "string option"

definition requiredStatus :: "receipt_args \<Rightarrow> receipt_status" where
  "requiredStatus a =
     (if ra_treasury a then RECEIVED else if ra_relatedTransactionId a \<noteq> None then AVAILABLE else UNMATCHED)"

definition receiptIdentityDiffs :: "receipt \<Rightarrow> receipt_args \<Rightarrow> int \<Rightarrow> string list" where
  "receiptIdentityDiffs r a amount =
     (if rc_provider r \<noteq> ra_provider a then [''provider''] else []) @
     (if rc_rail r \<noteq> ra_rail a then [''rail''] else []) @
     (if rc_amountGhs r \<noteq> amount then [''amountGhs''] else []) @
     (if rc_route r \<noteq> ra_route a then [''route''] else []) @
     (if rc_reference r \<noteq> ra_reference a then [''reference''] else []) @
     (if rc_eventDedupKey r \<noteq> ra_eventDedupKey a then [''eventDedupKey''] else []) @
     (if rc_relatedTransactionId r \<noteq> ra_relatedTransactionId a then [''relatedTransactionId''] else [])"

definition assertReceiptIdentity :: "receipt \<Rightarrow> receipt_args \<Rightarrow> int \<Rightarrow> liquidity_error option" where
  "assertReceiptIdentity r a amount =
     (if rc_status r \<noteq> requiredStatus a then Some (ConflictingEvidence [''status''])
      else if receiptIdentityDiffs r a amount \<noteq> [] then Some (ConflictingEvidence (receiptIdentityDiffs r a amount))
      else if providerRefClaimsDiffer (rc_providerRef r) (ra_providerRef a) then Some (ConflictingEvidence [''providerRef''])
      else None)"

definition receipt_ref_absent :: "receipt \<Rightarrow> bool" where
  "receipt_ref_absent r \<longleftrightarrow> rc_providerRef r = None"

definition fill_receipt_ref :: "string \<Rightarrow> receipt \<Rightarrow> receipt" where
  "fill_receipt_ref ref r = r\<lparr>rc_providerRef := Some ref\<rparr>"

definition enrichReceiptProviderRef :: "receipt \<Rightarrow> string option \<Rightarrow> liquidity \<Rightarrow> receipt liq_outcome" where
  "enrichReceiptProviderRef existing incoming s =
     (case incoming of
        None \<Rightarrow> (Inr existing, s)
      | Some ref \<Rightarrow>
          (if rc_providerRef existing \<noteq> None then (Inr existing, s)
           else
             let k = rc_dedupKey existing;
                 n = claims rc_dedupKey receipt_ref_absent k (receipts s);
                 s' = s\<lparr>receipts := claim_rows rc_dedupKey receipt_ref_absent (fill_receipt_ref ref) k (receipts s)\<rparr> in
             case find_by rc_dedupKey k (receipts s') of
               None \<Rightarrow> (Inl IdentityLost, s')
             | Some r \<Rightarrow>
                 (if n = 1 \<or> rc_providerRef r = Some ref then (Inr r, s')
                  else if rc_providerRef r = None then (Inr r, s')
                  else (Inl (ConflictingEvidence [''providerRef'']), s'))))"

section \<open>The evidence chain of a matched deposit\<close>

definition verifyDepositEvidenceChain :: "receipt_args \<Rightarrow> int \<Rightarrow> string \<Rightarrow> string \<Rightarrow> liquidity \<Rightarrow> bool" where
  "verifyDepositEvidenceChain a amount reference txid s \<longleftrightarrow>
     (case ra_eventDedupKey a of None \<Rightarrow> False | Some ek \<Rightarrow>
      ek \<noteq> [] \<and>
      (case find_by ev_dedupKey ek (events s) of None \<Rightarrow> False | Some e \<Rightarrow>
       o_direction (ev_obs e) = ''INBOUND'' \<and>
       o_provider (ev_obs e) = ra_provider a \<and>
       o_amountGhs (ev_obs e) = Some amount \<and>
       o_status (ev_obs e) = ''SUCCESSFUL'' \<and>
       o_relatedReference (ev_obs e) = Some reference \<and>
       \<not> providerRefClaimsDiffer (ra_providerRef a) (o_providerRef (ev_obs e)) \<and>
       (case find_by th_id txid (deposits s) of None \<Rightarrow> False | Some d \<Rightarrow>
        th_txHash d = reference \<and> th_type d = ''DEPOSIT_FIAT'' \<and> th_status d = ''COMPLETED'' \<and>
        (case th_quoteId d of None \<Rightarrow> False | Some bound \<Rightarrow>
         bound \<noteq> [] \<and> ra_quoteId a = Some bound \<and>
         (case find_by q_id bound (quotes s) of None \<Rightarrow> False | Some q \<Rightarrow>
          q_consumed q \<and> q_userId q = th_userId d \<and>
          \<not> providerRefClaimsDiffer (ra_route a) (q_selectedRoute q))))))"

section \<open>Recording a receipt\<close>

type_synonym receipt_result = "receipt \<times> bool"

definition new_receipt :: "op_ctx \<Rightarrow> receipt_args \<Rightarrow> int \<Rightarrow> receipt_status \<Rightarrow> receipt" where
  "new_receipt cx a amount st =
     \<lparr>rc_dedupKey = ra_dedupKey a, rc_provider = ra_provider a, rc_rail = ra_rail a,
      rc_providerRef = ra_providerRef a, rc_amountGhs = amount, rc_status = st, rc_route = ra_route a,
      rc_reference = ra_reference a, rc_eventDedupKey = ra_eventDedupKey a,
      rc_relatedTransactionId = ra_relatedTransactionId a, rc_matchEvent = None, rc_fundingEvent = None,
      rc_createdAt = cx_now cx\<rparr>"

definition deposit_claimed :: "string option \<Rightarrow> receipt list \<Rightarrow> bool" where
  "deposit_claimed tid rs \<longleftrightarrow>
     tid \<noteq> None \<and> (\<exists>r \<in> set rs. rc_status r = AVAILABLE \<and> rc_relatedTransactionId r = tid)"

definition classify_receipt :: "receipt_args \<Rightarrow> int \<Rightarrow> liquidity \<Rightarrow> liquidity_error + receipt_status" where
  "classify_receipt a amount s =
     (if ra_treasury a then Inr RECEIVED
      else case ra_relatedTransactionId a of
        None \<Rightarrow> Inr UNMATCHED
      | Some txid \<Rightarrow>
          (case ra_reference a of
             None \<Rightarrow> Inl InvalidEvidence
           | Some reference \<Rightarrow>
               (if reference = [] \<or> \<not> verifyDepositEvidenceChain a amount reference txid s
                then Inl InvalidEvidence else Inr AVAILABLE)))"

definition quote_substituted :: "receipt_args \<Rightarrow> liquidity \<Rightarrow> bool" where
  "quote_substituted a s =
     (case (ra_relatedTransactionId a, ra_quoteId a) of
        (Some txid, Some q) \<Rightarrow>
          \<not> ra_treasury a \<and>
          (case find_by th_id txid (deposits s) of
             None \<Rightarrow> True
           | Some d \<Rightarrow> (case th_quoteId d of None \<Rightarrow> '''' | Some b \<Rightarrow> b) \<noteq> q)
      | _ \<Rightarrow> False)"

definition mint :: "int \<Rightarrow> liquidity \<Rightarrow> buckets liq_outcome" where
  "mint amount s = and_then (update_state (credit_available amount) s) (\<lambda>_. syncPoolProjection)"

definition insert_receipt ::
  "op_ctx \<Rightarrow> receipt_args \<Rightarrow> int \<Rightarrow> receipt_status \<Rightarrow> liquidity \<Rightarrow> receipt_result liq_outcome" where
  "insert_receipt cx a amount st s =
     (let r = new_receipt cx a amount st in
      if ra_dedupKey a \<in> rc_dedupKey ` set (receipts s) \<or> st = AVAILABLE \<and> deposit_claimed (ra_relatedTransactionId a) (receipts s)
      then (case find_by rc_dedupKey (ra_dedupKey a) (receipts s) of
              None \<Rightarrow> (Inl (ConflictingEvidence [''relatedTransactionId'']), s)
            | Some winner \<Rightarrow>
                (case assertReceiptIdentity winner a amount of
                   Some e \<Rightarrow> (Inl e, s)
                 | None \<Rightarrow> and_then (enrichReceiptProviderRef winner (ra_providerRef a) s) (\<lambda>x t. (Inr (x, True), t))))
      else let s' = s\<lparr>receipts := receipts s @ [r]\<rparr> in
        if st = AVAILABLE then and_then (mint amount (ensureStateRow s')) (\<lambda>_ t. (Inr (r, False), t))
        else (Inr (r, False), s'))"

definition recordReceipt ::
  "(string \<Rightarrow> decimal option) \<Rightarrow> op_ctx \<Rightarrow> receipt_args \<Rightarrow> (liquidity \<Rightarrow> liquidity) \<Rightarrow> liquidity \<Rightarrow>
   receipt_result liq_outcome" where
  "recordReceipt parse cx a env s =
     (if ra_provider a = [] \<or> ra_dedupKey a = [] then (Inl InvalidEvidence, s)
      else case toExactGhsDecimal parse (ra_amountGhs a) of
        Inl _ \<Rightarrow> (Inl InvalidEvidence, s)
      | Inr amount \<Rightarrow>
          (case find_by rc_dedupKey (ra_dedupKey a) (receipts s) of
             Some existing \<Rightarrow>
               (case assertReceiptIdentity existing a amount of
                  Some e \<Rightarrow> (Inl e, s)
                | None \<Rightarrow>
                    (if quote_substituted a s then (Inl (ConflictingEvidence [''quoteId'']), s)
                     else and_then (enrichReceiptProviderRef existing (ra_providerRef a) (env s))
                            (\<lambda>x t. (Inr (x, True), t))))
           | None \<Rightarrow>
               (case classify_receipt a amount s of
                  Inl e \<Rightarrow> (Inl e, s)
                | Inr st \<Rightarrow> insert_receipt cx a amount st (env s))))"

section \<open>Confirmations\<close>

record match_args =
  ma_dedupKey :: string
  ma_matchedTransactionId :: "string option"
  ma_providerEventDedupKey :: "string option"

text \<open>The checks of a reconciliation match, in the order of the source; the result is the error
  or the matched deposit.\<close>

definition check_match :: "match_args \<Rightarrow> receipt \<Rightarrow> liquidity \<Rightarrow> liquidity_error + string \<times> string" where
  "check_match m r s =
     (case (ma_matchedTransactionId m, ma_providerEventDedupKey m) of
        (Some txid, Some ek) \<Rightarrow>
          (if txid = [] \<or> ek = [] then Inl InvalidEvidence
           else case find_by ev_dedupKey ek (events s) of
             None \<Rightarrow> Inl InvalidEvidence
           | Some e \<Rightarrow>
               (if o_direction (ev_obs e) \<noteq> ''INBOUND'' \<or> o_provider (ev_obs e) \<noteq> rc_provider r
                   \<or> o_status (ev_obs e) \<noteq> ''SUCCESSFUL'' \<or> o_amountGhs (ev_obs e) \<noteq> Some (rc_amountGhs r)
                then Inl InvalidEvidence
                else case find_by th_id txid (deposits s) of
                  None \<Rightarrow> Inl InvalidEvidence
                | Some d \<Rightarrow>
                    (if th_type d \<noteq> ''DEPOSIT_FIAT'' \<or> th_status d \<noteq> ''COMPLETED''
                        \<or> o_relatedReference (ev_obs e) \<noteq> Some (th_txHash d)
                        \<or> providerRefClaimsDiffer (rc_providerRef r) (o_providerRef (ev_obs e))
                     then Inl InvalidEvidence
                     else if deposit_claimed (Some txid) (receipts s) then Inl (ConflictingEvidence [])
                     else Inr (txid, ek))))
      | _ \<Rightarrow> Inl InvalidEvidence)"

text \<open>\<open>String(_)\<close> of a nullable column.\<close>

definition js_text :: "string option \<Rightarrow> string" where
  "js_text v = (case v of None \<Rightarrow> ''null'' | Some t \<Rightarrow> t)"

definition is_unmatched :: "receipt \<Rightarrow> bool" where
  "is_unmatched r \<longleftrightarrow> rc_status r = UNMATCHED"

definition match_receipt :: "string \<Rightarrow> string \<Rightarrow> receipt \<Rightarrow> receipt" where
  "match_receipt txid ek r =
     r\<lparr>rc_status := AVAILABLE, rc_relatedTransactionId := Some txid, rc_matchEvent := Some ek\<rparr>"

definition confirmReconciliationMatch ::
  "match_args \<Rightarrow> (liquidity \<Rightarrow> liquidity) \<Rightarrow> liquidity \<Rightarrow> receipt_result liq_outcome" where
  "confirmReconciliationMatch m env s =
     (let k = ma_dedupKey m in
      case find_by rc_dedupKey k (receipts s) of
        None \<Rightarrow> (Inl InvalidEvidence, s)
      | Some r \<Rightarrow>
          (if rc_status r \<noteq> UNMATCHED
           then (if rc_status r = AVAILABLE \<and> js_text (rc_relatedTransactionId r) = js_text (ma_matchedTransactionId m)
                 then (Inr (r, True), ensureStateRow s) else (Inl (ConflictingEvidence []), s))
           else case check_match m r s of
             Inl e \<Rightarrow> (Inl e, s)
           | Inr (txid, ek) \<Rightarrow>
               (let s' = ensureStateRow (env s) in
                if claims rc_dedupKey is_unmatched k (receipts s') = 1
                then (if deposit_claimed (Some txid) (receipts s') then (Inl (ConflictingEvidence []), s')
                      else let s'' = s'\<lparr>receipts := claim_rows rc_dedupKey is_unmatched (match_receipt txid ek) k (receipts s')\<rparr> in
                        and_then (mint (rc_amountGhs r) s'')
                          (\<lambda>_ t. case find_by rc_dedupKey k (receipts t) of
                             None \<Rightarrow> (Inl IdentityLost, t) | Some u \<Rightarrow> (Inr (u, False), t)))
                else case find_by rc_dedupKey k (receipts s') of
                  None \<Rightarrow> (Inl (ConflictingEvidence []), s')
                | Some reread \<Rightarrow>
                    (if rc_status reread = AVAILABLE \<and> js_text (rc_relatedTransactionId reread) = txid
                     then (Inr (reread, True), s') else (Inl (ConflictingEvidence []), s')))))"

record treasury_args =
  ta_dedupKey :: string
  ta_fundingReference :: js_value
  ta_fundingChannel :: string

definition funding_reference :: "js_value \<Rightarrow> string option" where
  "funding_reference v =
     (case v of JStr t \<Rightarrow> if length (js_trim t) < 3 then None else Some (js_trim t) | _ \<Rightarrow> None)"

definition funding_observation :: "treasury_args \<Rightarrow> string \<Rightarrow> int \<Rightarrow> observation_args" where
  "funding_observation t ref amount =
     \<lparr>oa_dedupKey = ''event:treasury-funding:'' @ ref, oa_provider = ''AZM_TREASURY'',
      oa_rail = Some (if ta_fundingChannel t = ''BANK'' then ''BANK''
                      else if ta_fundingChannel t = ''MOMO'' then ''MOMO'' else ''INTERNAL''),
      oa_direction = ''INBOUND'', oa_status = ''FUNDED'', oa_providerRef = Some ref,
      oa_amountGhs = JDec (Dec False (nat amount) 2), oa_relatedReference = Some (ta_dedupKey t)\<rparr>"

definition is_received :: "receipt \<Rightarrow> bool" where
  "is_received r \<longleftrightarrow> rc_status r = RECEIVED"

definition fund_receipt :: "string \<Rightarrow> receipt \<Rightarrow> receipt" where
  "fund_receipt ek r = r\<lparr>rc_status := AVAILABLE, rc_fundingEvent := Some ek\<rparr>"

definition related_of :: "string \<Rightarrow> receipt list \<Rightarrow> string option" where
  "related_of k rs = (case find_by rc_dedupKey k rs of None \<Rightarrow> None | Some r \<Rightarrow> rc_relatedTransactionId r)"

definition confirmTreasuryOpening ::
  "(string \<Rightarrow> string) \<Rightarrow> (string \<Rightarrow> decimal option) \<Rightarrow> treasury_args \<Rightarrow> (liquidity \<Rightarrow> liquidity) \<Rightarrow> liquidity \<Rightarrow>
   receipt_result liq_outcome" where
  "confirmTreasuryOpening sha parse t env s =
     (let k = ta_dedupKey t in
      case find_by rc_dedupKey k (receipts s) of
        None \<Rightarrow> (Inl InvalidEvidence, s)
      | Some r \<Rightarrow>
          (if rc_status r = AVAILABLE then (Inr (r, True), ensureStateRow s)
           else if rc_status r \<noteq> RECEIVED then (Inl (ConflictingEvidence []), s)
           else case funding_reference (ta_fundingReference t) of
             None \<Rightarrow> (Inl InvalidEvidence, s)
           | Some ref \<Rightarrow>
               (if ta_fundingChannel t \<notin> {''BANK'', ''MOMO'', ''OTHER''} then (Inl InvalidEvidence, s)
                else and_then (recordProviderEvent sha parse True (funding_observation t ref (rc_amountGhs r)) id
                                 (ensureStateRow (env s)))
                  (\<lambda>(fe, _) s1.
                     if o_amountGhs (ev_obs fe) \<noteq> Some (rc_amountGhs r) then (Inl (ConflictingEvidence []), s1)
                     else if claims rc_dedupKey is_received k (receipts s1) \<noteq> 1 then (Inl (ConflictingEvidence []), s1)
                     else if deposit_claimed (related_of k (receipts s1)) (receipts s1) then (Inl TxAborted, s1)
                     else let s2 = s1\<lparr>receipts := claim_rows rc_dedupKey is_received
                                        (fund_receipt (''event:treasury-funding:'' @ ref)) k (receipts s1)\<rparr> in
                       and_then (mint (rc_amountGhs r) s2)
                         (\<lambda>_ t. case find_by rc_dedupKey k (receipts t) of
                            None \<Rightarrow> (Inl IdentityLost, t) | Some u \<Rightarrow> (Inr (u, False), t))))))"

section \<open>Receipt updates in the contract\<close>

interpretation rr: conditional_claim rc_dedupKey receipt_ref_absent "fill_receipt_ref ref" for ref
  by unfold_locales (simp_all add: fill_receipt_ref_def receipt_ref_absent_def)

interpretation um: conditional_claim rc_dedupKey is_unmatched "match_receipt txid ek" for txid ek
  by unfold_locales (simp_all add: match_receipt_def is_unmatched_def)

interpretation rv: conditional_claim rc_dedupKey is_received "fund_receipt ek" for ek
  by unfold_locales (simp_all add: fund_receipt_def is_received_def)

lemma mint_Inr:
  "mint a s = (Inr b, s') \<longleftrightarrow>
   (\<exists>b0. fl_state s = Some b0 \<and> b = credit_available a b0 \<and>
      s' = s\<lparr>fl_state := Some b, pool := Some (availableGhs b)\<rparr>)"
  by (auto simp: mint_def and_then_Inr update_state_def syncPoolProjection_def split: option.splits)

lemma credit_shift: "credit_available a b = shift a 0 0 0 0 b"
  by (simp add: credit_available_def shift_def)

lemma view_mint:
  assumes "sum_rows available_amount (receipts t) = sum_rows available_amount (receipts s) + a"
    and "reservations t = reservations s" and "buckets_of t = credit_available a (buckets_of s)"
  shows "view_of t = apply_move (Mint a) (view_of s)"
  using assms by (simp add: view_of_def apply_move_def credit_shift)

text \<open>Filling in a provider reference moves nothing.\<close>

lemma fill_receipt_effect:
  assumes "tables_ok s"
  shows "liq_effect s (s\<lparr>receipts := claim_rows rc_dedupKey receipt_ref_absent (fill_receipt_ref ref) k (receipts s)\<rparr>)"
proof (rule liq_effect_quiet)
  let ?P = "\<lambda>r. rc_dedupKey r = k \<and> receipt_ref_absent r"
  let ?rs = "update_by ?P (fill_receipt_ref ref) (receipts s)"
  have rows: "claim_rows rc_dedupKey receipt_ref_absent (fill_receipt_ref ref) k (receipts s) = ?rs"
    by (simp add: claim_rows_def)
  have "rows_evolve rc_dedupKey receipt_evolves (receipts s) ?rs"
    by (rule rows_evolve_update) (auto simp: fill_receipt_ref_def receipt_ref_absent_def receipt_evolves_def)
  then show "liq_evolves s (s\<lparr>receipts := claim_rows rc_dedupKey receipt_ref_absent (fill_receipt_ref ref) k (receipts s)\<rparr>)"
    by (simp add: liq_evolves_def rows rows_evolve_refl)
  have keep: "rc_status (fill_receipt_ref ref r) = rc_status r" "rc_amountGhs (fill_receipt_ref ref r) = rc_amountGhs r"
    "rc_relatedTransactionId (fill_receipt_ref ref r) = rc_relatedTransactionId r"
    "backs (fill_receipt_ref ref r) e = backs r e" "rc_dedupKey (fill_receipt_ref ref r) = rc_dedupKey r" for r e
    by (simp_all add: fill_receipt_ref_def backs_def)
  show "view_of (s\<lparr>receipts := claim_rows rc_dedupKey receipt_ref_absent (fill_receipt_ref ref) k (receipts s)\<rparr>) = view_of s"
    by (simp add: view_of_def buckets_of_def rows sum_rows_update_by_same available_amount_def keep)
  have "one_claim_per_deposit ?rs"
    unfolding one_claim_per_deposit_def set_update_by
  proof (intro ballI impI, elim imageE)
    fix x x' r r'
    assume x: "rc_status x = AVAILABLE" "rc_status x' = AVAILABLE" "rc_relatedTransactionId x \<noteq> None"
      "rc_relatedTransactionId x' = rc_relatedTransactionId x"
      and r: "x = (if ?P r then fill_receipt_ref ref r else r)" "r \<in> set (receipts s)"
      and r': "x' = (if ?P r' then fill_receipt_ref ref r' else r')" "r' \<in> set (receipts s)"
    have "r' = r"
      using assms r r' x unfolding tables_ok_def one_claim_per_deposit_def by (auto simp: keep split: if_splits)
    with r r' show "x' = x" by simp
  qed
  then show "tables_ok (s\<lparr>receipts := claim_rows rc_dedupKey receipt_ref_absent (fill_receipt_ref ref) k (receipts s)\<rparr>)"
    using assms by (auto simp: tables_ok_def rows set_update_by keep receipt_backed_def split: if_splits)
qed

lemma enrich_receipt_effect:
  "enrichReceiptProviderRef x inc s = (Inr y, s') \<Longrightarrow> tables_ok s \<Longrightarrow> liq_effect s s'"
  using fill_receipt_effect liq_effect_refl
  by (auto simp: enrichReceiptProviderRef_def Let_def split: option.splits if_splits)

text \<open>A new receipt.\<close>

lemma append_receipt_effect:
  assumes ok: "tables_ok s" and new: "rc_dedupKey r \<notin> rc_dedupKey ` set (receipts s)" and "0 < rc_amountGhs r"
    and claim: "rc_status r = AVAILABLE \<Longrightarrow> \<not> deposit_claimed (rc_relatedTransactionId r) (receipts s) \<and> receipt_backed s r"
    and t: "events t = events s" "receipts t = receipts s @ [r]" "reservations t = reservations s"
      "buckets_of t = (if rc_status r = AVAILABLE then credit_available (rc_amountGhs r) (buckets_of s) else buckets_of s)"
  shows "liq_effect s t"
proof -
  have ev: "liq_evolves s t"
    by (simp add: liq_evolves_def t rows_evolve_refl rows_evolve_append)
  have "one_claim_per_deposit (receipts t)"
    using ok claim unfolding one_claim_per_deposit_def tables_ok_def t(2) deposit_claimed_def by fastforce
  then have tok: "tables_ok t"
    using assms by (auto simp: tables_ok_def receipt_backed_def)
  show ?thesis
  proof (cases "rc_status r = AVAILABLE")
    case True
    then have "view_of t = apply_move (Mint (rc_amountGhs r)) (view_of s)"
      by (intro view_mint) (simp_all add: t available_amount_def)
    with ev tok assms(3) show ?thesis
      by (intro liq_effectI [of _ _ "Mint (rc_amountGhs r)"]) (simp_all add: move_ok_def)
  next
    case False
    with ev tok show ?thesis
      by (intro liq_effect_quiet) (simp_all add: view_of_def t available_amount_def)
  qed
qed

text \<open>A receipt becomes available.\<close>

lemma confirm_effect:
  assumes ok: "tables_ok s" and f: "find_by rc_dedupKey k (receipts s) = Some r" and g: "guard r"
    and cc: "conditional_claim rc_dedupKey guard move"
    and mv: "receipt_evolves r (move r)" "rc_status r \<noteq> AVAILABLE" "rc_status (move r) = AVAILABLE"
    and un: "\<not> deposit_claimed (rc_relatedTransactionId (move r)) (receipts s)"
    and bk: "e \<in> set (events s)" "backs (move r) e"
    and t: "events t = events s" "receipts t = claim_rows rc_dedupKey guard move k (receipts s)"
      "reservations t = reservations s" "buckets_of t = credit_available (rc_amountGhs r) (buckets_of s)"
  shows "liq_effect s t"
proof -
  have d: "distinct (map rc_dedupKey (receipts s))" using ok by (simp add: tables_ok_def)
  have key: "rc_dedupKey (move x) = rc_dedupKey x" for x by (rule conditional_claim.move_key [OF cc])
  have one: "x = r" if "x \<in> set (receipts s)" "rc_dedupKey x = k" for x
    by (rule find_by_unique [OF d f that])
  have rows: "receipts t = update_by (\<lambda>x. rc_dedupKey x = k \<and> guard x) move (receipts s)"
    by (simp add: t claim_rows_def)
  have set_t: "x = move r \<or> x \<in> set (receipts s)" if "x \<in> set (receipts t)" for x
    using that one by (auto simp: rows set_update_by split: if_splits)
  have "update_by (\<lambda>x. rc_dedupKey x = k \<and> guard x) move (receipts s) =
      update_by (\<lambda>x. x = r) move (receipts s)"
  proof -
    have "(rc_dedupKey x = k \<and> guard x) = (x = r)" if "x \<in> set (receipts s)" for x
      using one [OF that] g find_by_Some [OF f] by blast
    then show ?thesis unfolding update_by_def by (intro map_cong) auto
  qed
  then have "rows_evolve rc_dedupKey receipt_evolves (receipts s) (receipts t)"
    using mv(1) by (simp add: rows) (intro rows_evolve_update, auto simp: key)
  then have ev: "liq_evolves s t" by (simp add: liq_evolves_def t rows_evolve_refl)
  have amt: "rc_amountGhs (move r) = rc_amountGhs r" using mv(1) by (simp add: receipt_evolves_def)
  have pos: "0 < rc_amountGhs r" using ok find_by_Some [OF f] by (auto simp: tables_ok_def)
  have "sum_rows available_amount (receipts t) = sum_rows available_amount (receipts s) + rc_amountGhs r"
    using conditional_claim.claim_sum [OF cc d f g, of available_amount] mv(2,3)
    by (simp add: t available_amount_def amt)
  then have view: "view_of t = apply_move (Mint (rc_amountGhs r)) (view_of s)"
    by (rule view_mint) (simp_all add: t)
  have "one_claim_per_deposit (receipts t)"
    unfolding one_claim_per_deposit_def
  proof (intro ballI impI)
    fix x y
    assume xy: "x \<in> set (receipts t)" "y \<in> set (receipts t)" "rc_status x = AVAILABLE" "rc_status y = AVAILABLE"
      "rc_relatedTransactionId x \<noteq> None" "rc_relatedTransactionId y = rc_relatedTransactionId x"
    show "y = x"
    proof (cases "x = move r \<or> y = move r")
      case True
      with xy un set_t [OF xy(1)] set_t [OF xy(2)] show ?thesis by (auto simp: deposit_claimed_def)
    next
      case False
      with xy set_t ok show ?thesis unfolding tables_ok_def one_claim_per_deposit_def by metis
    qed
  qed
  moreover have "map rc_dedupKey (receipts t) = map rc_dedupKey (receipts s)"
    by (simp add: rows key)
  moreover have "\<forall>x \<in> set (receipts t). 0 < rc_amountGhs x \<and> receipt_backed t x"
    using set_t ok bk amt pos by (auto simp: tables_ok_def receipt_backed_def t(1) dest!: set_t)
  ultimately have "tables_ok t" using ok by (simp add: tables_ok_def t)
  with ev view pos show ?thesis
    by (intro liq_effectI [of _ _ "Mint (rc_amountGhs r)"]) (simp_all add: move_ok_def)
qed

lemma deposit_claimed_None [simp]: "\<not> deposit_claimed None rs"
  by (simp add: deposit_claimed_def)

section \<open>The three operations keep the contract\<close>

lemma classify_available:
  assumes "classify_receipt a amount s = Inr AVAILABLE"
  obtains ek e where "ra_eventDedupKey a = Some ek" "find_by ev_dedupKey ek (events s) = Some e"
    "o_direction (ev_obs e) = ''INBOUND''" "o_provider (ev_obs e) = ra_provider a"
    "o_amountGhs (ev_obs e) = Some amount" "o_status (ev_obs e) = ''SUCCESSFUL''" "ra_relatedTransactionId a \<noteq> None"
  using assms
  by (auto simp: classify_receipt_def verifyDepositEvidenceChain_def split: if_splits option.splits)

lemma classified_backed:
  assumes "classify_receipt a amount s = Inr AVAILABLE" and "liq_evolves s t"
  shows "receipt_backed t (new_receipt cx a amount AVAILABLE)"
proof -
  obtain ek e where e: "ra_eventDedupKey a = Some ek" "find_by ev_dedupKey ek (events s) = Some e"
    "o_direction (ev_obs e) = ''INBOUND''" "o_provider (ev_obs e) = ra_provider a"
    "o_amountGhs (ev_obs e) = Some amount" "o_status (ev_obs e) = ''SUCCESSFUL''" "ra_relatedTransactionId a \<noteq> None"
    using assms(1) by (rule classify_available)
  then have "backs (new_receipt cx a amount AVAILABLE) e"
    using find_by_Some [OF e(2)] by (auto simp: backs_def new_receipt_def)
  moreover obtain e' where e': "find_by ev_dedupKey ek (events t) = Some e'" and "event_evolves e e'"
    using assms(2) rows_evolveD [OF _ e(2)] by (auto simp: liq_evolves_def)
  ultimately have "backs (new_receipt cx a amount AVAILABLE) e'" using backs_evolves by blast
  then show ?thesis
    using find_by_Some [OF e'] unfolding receipt_backed_def by blast
qed

lemma insert_receipt_effect:
  assumes ins: "insert_receipt cx a amount st s = (Inr x, s')" and "tables_ok s" and "0 < amount"
    and bk: "st = AVAILABLE \<Longrightarrow> receipt_backed s (new_receipt cx a amount st)"
  shows "liq_effect s s'"
proof (cases "ra_dedupKey a \<in> rc_dedupKey ` set (receipts s) \<or> st = AVAILABLE \<and> deposit_claimed (ra_relatedTransactionId a) (receipts s)")
  case True
  then show ?thesis
    using ins enrich_receipt_effect assms(2)
    by (fastforce simp: insert_receipt_def Let_def and_then_Inr split: option.splits)
next
  case False
  let ?r = "new_receipt cx a amount st"
  have r: "rc_status ?r = st" "rc_amountGhs ?r = amount" "rc_dedupKey ?r = ra_dedupKey a"
    "rc_relatedTransactionId ?r = ra_relatedTransactionId a"
    by (simp_all add: new_receipt_def)
  show ?thesis
  proof (cases "st = AVAILABLE")
    case True
    then obtain b where "mint amount (ensureStateRow (s\<lparr>receipts := receipts s @ [?r]\<rparr>)) = (Inr b, s')"
      using ins False by (auto simp: insert_receipt_def Let_def and_then_Inr)
    then have "events s' = events s" "receipts s' = receipts s @ [?r]" "reservations s' = reservations s"
      "buckets_of s' = credit_available amount (buckets_of s)"
      by (auto simp: mint_Inr) (simp_all add: buckets_of_def)
    then show ?thesis
      using False assms(2,3) bk [OF True] True
      by (intro append_receipt_effect [where r = ?r]) (simp_all add: r [unfolded True])
  next
    case False': False
    then have "s' = s\<lparr>receipts := receipts s @ [?r]\<rparr>" using ins False by (auto simp: insert_receipt_def Let_def)
    then show ?thesis
      using False False' assms(2,3) by (intro append_receipt_effect [where r = ?r]) (simp_all add: r buckets_of_def)
  qed
qed

lemma recordReceipt_effect:
  assumes rec: "recordReceipt parse cx a env s = (Inr x, s')" and "tables_ok (env s)" and "liq_evolves s (env s)"
  shows "liq_effect (env s) s'"
proof -
  obtain amount where amt: "toExactGhsDecimal parse (ra_amountGhs a) = Inr amount"
    using rec by (auto simp: recordReceipt_def split: if_splits sum.splits)
  show ?thesis
  proof (cases "find_by rc_dedupKey (ra_dedupKey a) (receipts s)")
    case (Some r)
    then show ?thesis
      using rec amt enrich_receipt_effect assms(2)
      by (auto simp: recordReceipt_def and_then_Inr split: if_splits option.splits)
  next
    case None
    then obtain st where st: "classify_receipt a amount s = Inr st" and ins: "insert_receipt cx a amount st (env s) = (Inr x, s')"
      using rec amt by (auto simp: recordReceipt_def split: if_splits sum.splits)
    show ?thesis
      by (rule insert_receipt_effect [OF ins assms(2) toExactGhsDecimal_pos [OF amt]])
        (use classified_backed [OF _ assms(3)] st in auto)
  qed
qed

interpretation record_receipt: liquidity_operation "recordReceipt parse cx a" for parse cx a
  by unfold_locales (blast intro: recordReceipt_effect)

lemma check_match_event:
  assumes "check_match m r s = Inr (txid, ek)"
  obtains e where "find_by ev_dedupKey ek (events s) = Some e" "o_direction (ev_obs e) = ''INBOUND''"
    "o_provider (ev_obs e) = rc_provider r" "o_status (ev_obs e) = ''SUCCESSFUL''"
    "o_amountGhs (ev_obs e) = Some (rc_amountGhs r)"
  using assms by (auto simp: check_match_def split: option.splits if_splits prod.splits)

lemma confirm_match_effect:
  assumes run: "confirmReconciliationMatch m env s = (Inr x, s')"
    and "tables_ok s" and ok: "tables_ok (env s)" and ev: "liq_evolves s (env s)"
  shows "liq_effect s s' \<or> liq_effect (env s) s'"
proof -
  let ?k = "ma_dedupKey m" and ?t = "ensureStateRow (env s)"
  obtain r where r: "find_by rc_dedupKey ?k (receipts s) = Some r"
    using run by (auto simp: confirmReconciliationMatch_def Let_def split: option.splits)
  show ?thesis
  proof (cases "rc_status r = UNMATCHED")
    case False
    then show ?thesis
      using run r ensureStateRow_effect [OF assms(2)]
      by (auto simp: confirmReconciliationMatch_def Let_def split: if_splits)
  next
    case unm: True
    then obtain txid ek where cm: "check_match m r s = Inr (txid, ek)"
      using run r by (auto simp: confirmReconciliationMatch_def Let_def split: sum.splits)
    show ?thesis
    proof (cases "claims rc_dedupKey is_unmatched ?k (receipts (env s)) = 1")
      case False
      then have "s' = ?t"
        using run r unm cm by (auto simp: confirmReconciliationMatch_def Let_def split: option.splits if_splits)
      then show ?thesis using ensureStateRow_effect [OF ok] by simp
    next
      case True
      have d: "distinct (map rc_dedupKey (receipts (env s)))" using ok by (simp add: tables_ok_def)
      obtain r' where r': "find_by rc_dedupKey ?k (receipts (env s)) = Some r'" "is_unmatched r'"
        using True um.claims_iff [OF d, of ?k] by auto
      have "receipt_evolves r r'" using ev r r'(1) by (auto simp: liq_evolves_def dest: rows_evolveD)
      then have same: "rc_amountGhs r' = rc_amountGhs r" "rc_provider r' = rc_provider r" by (simp_all add: receipt_evolves_def)
      have nc: "\<not> deposit_claimed (Some txid) (receipts (env s))"
        using run r unm cm True by (auto simp: confirmReconciliationMatch_def Let_def)
      let ?u = "?t\<lparr>receipts := claim_rows rc_dedupKey is_unmatched (match_receipt txid ek) ?k (receipts (env s))\<rparr>"
      obtain b where "mint (rc_amountGhs r) ?u = (Inr b, s')"
        using run r unm cm True nc
        by (auto simp: confirmReconciliationMatch_def Let_def and_then_Inr split: option.splits)
      then have t: "events s' = events (env s)"
        "receipts s' = claim_rows rc_dedupKey is_unmatched (match_receipt txid ek) ?k (receipts (env s))"
        "reservations s' = reservations (env s)" "buckets_of s' = credit_available (rc_amountGhs r') (buckets_of (env s))"
        by (auto simp: mint_Inr same) (simp add: buckets_of_def)
      obtain e where e: "find_by ev_dedupKey ek (events s) = Some e" "o_direction (ev_obs e) = ''INBOUND''"
        "o_provider (ev_obs e) = rc_provider r" "o_status (ev_obs e) = ''SUCCESSFUL''"
        "o_amountGhs (ev_obs e) = Some (rc_amountGhs r)"
        using cm by (rule check_match_event)
      obtain e' where e': "find_by ev_dedupKey ek (events (env s)) = Some e'" "event_evolves e e'"
        using ev rows_evolveD [OF _ e(1)] by (auto simp: liq_evolves_def)
      have "backs (match_receipt txid ek r') e"
        using e same find_by_Some [OF e(1)] by (simp add: backs_def match_receipt_def)
      then have "backs (match_receipt txid ek r') e'" using e'(2) backs_evolves by blast
      moreover have "receipt_evolves r' (match_receipt txid ek r')"
        using r'(2) by (simp add: receipt_evolves_def match_receipt_def is_unmatched_def)
      ultimately have "liq_effect (env s) s'"
        using r' nc find_by_Some [OF e'(1)]
        by (intro confirm_effect [OF ok r' um.conditional_claim_axioms [of txid ek] _ _ _ _ _ _ t])
          (auto simp: is_unmatched_def match_receipt_def)
      then show ?thesis ..
    qed
  qed
qed

interpretation confirm_match: liquidity_operation "confirmReconciliationMatch m" for m
  by unfold_locales (rule confirm_match_effect)

lemma ghs_of_pesewas:
  assumes "0 < n"
  shows "ghs_of_decimal (Dec False (nat n) 2) = Inr n"
proof -
  obtain c k where nd: "normal_dec (nat n) 2 = (c, k)" by fastforce
  then have k: "k \<le> 2" and "nat n = c * 10 ^ (2 - k)" using normal_dec_value by blast+
  then have "int (c * 10 ^ (2 - k)) = n" using assms by (metis int_nat_eq less_imp_le)
  with k show ?thesis using assms nd by (simp add: ghs_of_decimal_def del: normal_dec_numeral)
qed

lemma funding_settles:
  assumes rec: "recordProviderEvent sha parse True (funding_observation t ref amount) id s = (Inr (fe, b), s1)"
    and "tables_ok s" and "0 < amount"
  obtains e where "e \<in> set (events s1)" and "ev_dedupKey e = ''event:treasury-funding:'' @ ref"
    and "o_direction (ev_obs e) = ''INBOUND''" and "o_amountGhs (ev_obs e) = Some amount"
    and "o_provider (ev_obs e) = ''AZM_TREASURY''" and "o_status (ev_obs e) = ''FUNDED''"
proof -
  let ?a = "funding_observation t ref amount"
  have ob: "check_observation parse ?a = Inr (observation_of ?a (Some amount))"
    using ghs_of_pesewas [OF assms(3)] by (simp add: check_observation_def funding_observation_def toExactGhsDecimal_def)
  have "events_evolve s (id s)" and "distinct (map ev_dedupKey (events (id s)))"
    using assms(2) by (simp_all add: rows_evolve_refl tables_ok_def)
  from recordProviderEvent_settles [OF rec ob this]
  obtain z where z: "find_by ev_dedupKey (oa_dedupKey ?a) (events s1) = Some z"
    and "settled_as (observation_of ?a (Some amount)) z" by blast
  then show thesis
    using that [of z] find_by_Some [OF z]
    by (simp add: settled_as_def observationSemanticsMatch_def observation_of_def funding_observation_def)
qed

lemma confirm_treasury_effect:
  assumes run: "confirmTreasuryOpening sha parse t env s = (Inr x, s')"
    and "tables_ok s" and ok: "tables_ok (env s)" and ev: "liq_evolves s (env s)"
  shows "liq_effect s s' \<or> liq_effect (env s) s'"
proof -
  let ?k = "ta_dedupKey t" and ?t = "ensureStateRow (env s)"
  obtain r where r: "find_by rc_dedupKey ?k (receipts s) = Some r"
    using run by (auto simp: confirmTreasuryOpening_def Let_def split: option.splits)
  show ?thesis
  proof (cases "rc_status r = RECEIVED")
    case False
    then show ?thesis
      using run r ensureStateRow_effect [OF assms(2)]
      by (auto simp: confirmTreasuryOpening_def Let_def split: if_splits)
  next
    case True
    then obtain ref fe b s1 where
      rec: "recordProviderEvent sha parse True (funding_observation t ref (rc_amountGhs r)) id ?t = (Inr (fe, b), s1)"
      and c: "claims rc_dedupKey is_received ?k (receipts s1) = 1"
      and nc: "\<not> deposit_claimed (related_of ?k (receipts s1)) (receipts s1)"
      and m: "\<exists>b. mint (rc_amountGhs r) (s1\<lparr>receipts := claim_rows rc_dedupKey is_received
                (fund_receipt (''event:treasury-funding:'' @ ref)) ?k (receipts s1)\<rparr>) = (Inr b, s')"
      using run r by (auto simp: confirmTreasuryOpening_def Let_def and_then_Inr split: option.splits if_splits)
    have pos: "0 < rc_amountGhs r" using assms(2) find_by_Some [OF r] by (auto simp: tables_ok_def)
    have okt: "tables_ok ?t" using ok by (simp add: tables_cong [of ?t "env s"])
    have eo: "events_only ?t s1" using recordProviderEvent_events_only [OF rec] by auto
    then have ok1: "tables_ok s1" using events_only_effect [OF eo okt] by (simp add: liq_effect_def)
    have s1: "receipts s1 = receipts (env s)" "fl_state s1 = fl_state ?t"
      using events_only_same [OF eo] by simp_all
    have d: "distinct (map rc_dedupKey (receipts s1))" using ok1 by (simp add: tables_ok_def)
    obtain r' where r': "find_by rc_dedupKey ?k (receipts s1) = Some r'" "is_received r'"
      using c rv.claims_iff [OF d, of ?k] by auto
    have "receipt_evolves r r'" using ev r r'(1) s1 by (auto simp: liq_evolves_def dest: rows_evolveD)
    then have same: "rc_amountGhs r' = rc_amountGhs r" by (simp add: receipt_evolves_def)
    obtain e where e: "e \<in> set (events s1)" "ev_dedupKey e = ''event:treasury-funding:'' @ ref"
      "o_direction (ev_obs e) = ''INBOUND''" "o_amountGhs (ev_obs e) = Some (rc_amountGhs r)"
      "o_provider (ev_obs e) = ''AZM_TREASURY''" "o_status (ev_obs e) = ''FUNDED''"
      using funding_settles [OF rec okt pos] .
    have "liq_effect s1 s'"
    proof (rule confirm_effect [OF ok1 r' rv.conditional_claim_axioms [of "''event:treasury-funding:'' @ ref"]])
      show "receipt_evolves r' (fund_receipt (''event:treasury-funding:'' @ ref) r')"
        using r'(2) by (simp add: receipt_evolves_def fund_receipt_def is_received_def)
      show "rc_status r' \<noteq> AVAILABLE" using r'(2) by (simp add: is_received_def)
      show "backs (fund_receipt (''event:treasury-funding:'' @ ref) r') e"
        using e same by (simp add: backs_def fund_receipt_def)
      show "\<not> deposit_claimed (rc_relatedTransactionId (fund_receipt (''event:treasury-funding:'' @ ref) r')) (receipts s1)"
        using nc r' by (simp add: related_of_def fund_receipt_def)
      show "buckets_of s' = credit_available (rc_amountGhs r') (buckets_of s1)"
        using m by (auto simp: mint_Inr same buckets_of_def)
    qed (use e m in \<open>auto simp: mint_Inr fund_receipt_def\<close>)
    moreover have "liq_evolves (env s) s1"
      using events_only_effect [OF eo okt] ensureStateRow_effect [OF ok] liq_evolves_trans by (auto simp: liq_effect_def)
    moreover have "view_of s1 = view_of (env s)"
      using events_only_view [OF eo] view_cong [of ?t "env s"] by simp
    ultimately show ?thesis using liq_effect_after_quiet by blast
  qed
qed

interpretation confirm_treasury: liquidity_operation "confirmTreasuryOpening sha parse t" for sha parse t
  by unfold_locales (rule confirm_treasury_effect)

end
