(* ===== verification/Liquidity_Reservations.thy ===== *)
theory Liquidity_Reservations
  imports Liquidity_Contract
begin

text \<open>
  Outbound liquidity, the third part of \<^verbatim>\<open>src/services/fiatLiquidityService.js\<close>: the payout
  reservation machine (\<open>reserveForPayout\<close>, \<open>markReservationInTransit\<close>,
  \<open>settleReservation\<close>, \<open>releaseReservation\<close>), the quarantine of contradictory outcomes,
  and the wrappers the withdrawal paths mount. The single-winner claims are
  \<open>conditional_claim\<close> transitions. Of the exception details the model keeps the
  \<open>heldMove\<close> text.
\<close>

section \<open>Reserving\<close>

record reserve_args =
  rs_reference :: string
  rs_amountGhs :: js_value
  rs_provider :: string
  rs_rail :: "string option"
  rs_destination :: "string option"
  rs_relatedTransactionId :: "string option"

datatype held_move =
    NotClaimed | ReservedToHeld | InTransitToHeld | ReleasedToHeld | ReleasedAlreadySpent | PaidOutUnchanged

record reservation_result =
  rr_reservation :: reservation
  rr_replay :: bool
  rr_quarantined :: bool
  rr_heldMove :: "held_move option"

definition plain_result :: "reservation \<Rightarrow> bool \<Rightarrow> reservation_result" where
  "plain_result r replay = \<lparr>rr_reservation = r, rr_replay = replay, rr_quarantined = False, rr_heldMove = None\<rparr>"

definition new_reservation :: "op_ctx \<Rightarrow> reserve_args \<Rightarrow> int \<Rightarrow> reservation" where
  "new_reservation cx a amount =
     \<lparr>rz_reference = rs_reference a, rz_amountGhs = amount, rz_status = RESERVED, rz_provider = rs_provider a,
      rz_rail = rs_rail a, rz_destination = rs_destination a, rz_relatedTransactionId = rs_relatedTransactionId a,
      rz_providerRef = None, rz_dispatchedAt = None, rz_settledAt = None, rz_releasedAt = None,
      rz_createdAt = cx_now cx\<rparr>"

definition reserveForPayout ::
  "(string \<Rightarrow> decimal option) \<Rightarrow> op_ctx \<Rightarrow> reserve_args \<Rightarrow> (liquidity \<Rightarrow> liquidity) \<Rightarrow> liquidity \<Rightarrow>
   reservation_result liq_outcome" where
  "reserveForPayout parse cx a env s =
     (if rs_reference a = [] \<or> rs_provider a = [] then (Inl InvalidEvidence, s)
      else case toExactGhsDecimal parse (rs_amountGhs a) of
        Inl _ \<Rightarrow> (Inl InvalidEvidence, s)
      | Inr amount \<Rightarrow>
          (case find_by rz_reference (rs_reference a) (reservations s) of
             Some x \<Rightarrow>
               (if rz_amountGhs x \<noteq> amount \<or> rz_provider x \<noteq> rs_provider a then (Inl (ConflictingEvidence []), s)
                else (Inr (plain_result x True), ensureStateRow s))
           | None \<Rightarrow>
               (let s' = ensureStateRow (env s); x = new_reservation cx a amount in
                if rs_reference a \<in> rz_reference ` set (reservations s') then (Inl TxAborted, s')
                else and_then (claimAvailable amount (s'\<lparr>reservations := reservations s' @ [x]\<rparr>))
                       (\<lambda>_ t. and_then (syncPoolProjection t) (\<lambda>_ u. (Inr (plain_result x False), u))))))"

section \<open>Provider reference of a reservation\<close>

definition rz_ref_absent :: "reservation \<Rightarrow> bool" where
  "rz_ref_absent r \<longleftrightarrow> rz_providerRef r = None"

definition fill_rz_ref :: "string \<Rightarrow> reservation \<Rightarrow> reservation" where
  "fill_rz_ref ref r = r\<lparr>rz_providerRef := Some ref\<rparr>"

definition enrichReservationProviderRef ::
  "reservation \<Rightarrow> string option \<Rightarrow> liquidity \<Rightarrow> reservation liq_outcome" where
  "enrichReservationProviderRef r incoming s =
     (case incoming of
        None \<Rightarrow> (Inr r, s)
      | Some ref \<Rightarrow>
          (if rz_providerRef r = Some ref then (Inr r, s)
           else if rz_providerRef r \<noteq> None then (Inl (ConflictingEvidence [''providerRef'']), s)
           else
             let k = rz_reference r;
                 n = claims rz_reference rz_ref_absent k (reservations s);
                 s' = s\<lparr>reservations := claim_rows rz_reference rz_ref_absent (fill_rz_ref ref) k (reservations s)\<rparr> in
             case find_by rz_reference k (reservations s') of
               None \<Rightarrow> (Inl IdentityLost, s')
             | Some x \<Rightarrow>
                 (if n = 1 \<or> rz_providerRef x = Some ref then (Inr x, s')
                  else if rz_providerRef x = None then (Inr x, s')
                  else (Inl (ConflictingEvidence [''providerRef'']), s'))))"

section \<open>Status transitions\<close>

definition has_status :: "reservation_status \<Rightarrow> reservation \<Rightarrow> bool" where
  "has_status st r \<longleftrightarrow> rz_status r = st"

definition advance :: "op_ctx \<Rightarrow> reservation_status \<Rightarrow> reservation \<Rightarrow> reservation" where
  "advance cx st r =
     (case st of
        IN_TRANSIT \<Rightarrow> r\<lparr>rz_status := st, rz_dispatchedAt := Some (cx_now cx)\<rparr>
      | PAID_OUT \<Rightarrow> r\<lparr>rz_status := st, rz_settledAt := Some (cx_now cx)\<rparr>
      | RELEASED \<Rightarrow> r\<lparr>rz_status := st, rz_releasedAt := Some (cx_now cx)\<rparr>
      | _ \<Rightarrow> r\<lparr>rz_status := st\<rparr>)"

text \<open>One claim on the status the caller read; the loser throws.\<close>

definition claim_status ::
  "op_ctx \<Rightarrow> reservation_status \<Rightarrow> reservation_status \<Rightarrow> string \<Rightarrow> liquidity \<Rightarrow> unit liq_outcome" where
  "claim_status cx from st k s =
     (if claims rz_reference (has_status from) k (reservations s) = 1
      then (Inr (), s\<lparr>reservations := claim_rows rz_reference (has_status from) (advance cx st) k (reservations s)\<rparr>)
      else (Inl (ConflictingEvidence []), s))"

definition reread :: "string \<Rightarrow> liquidity \<Rightarrow> reservation liq_outcome" where
  "reread k s = (case find_by rz_reference k (reservations s) of None \<Rightarrow> (Inl IdentityLost, s) | Some r \<Rightarrow> (Inr r, s))"

definition markReservationInTransit ::
  "op_ctx \<Rightarrow> string \<Rightarrow> string option \<Rightarrow> (liquidity \<Rightarrow> liquidity) \<Rightarrow> liquidity \<Rightarrow> reservation_result liq_outcome" where
  "markReservationInTransit cx reference providerRef env s =
     (case find_by rz_reference reference (reservations s) of
        None \<Rightarrow> (Inl InvalidEvidence, s)
      | Some r \<Rightarrow>
          (if rz_status r = IN_TRANSIT
           then and_then (enrichReservationProviderRef r providerRef (env s)) (\<lambda>x t. (Inr (plain_result x True), t))
           else if rz_status r \<noteq> RESERVED then (Inl (ConflictingEvidence []), s)
           else and_then (claim_status cx RESERVED IN_TRANSIT reference (env s)) (\<lambda>_ t1.
             and_then (update_state (shift 0 (- rz_amountGhs r) (rz_amountGhs r) 0 0) t1) (\<lambda>_ t2.
             and_then (enrichReservationProviderRef r providerRef t2) (\<lambda>x t3. (Inr (plain_result x False), t3))))))"

section \<open>Quarantine\<close>

definition held_text :: "held_move \<Rightarrow> string" where
  "held_text h =
     (case h of NotClaimed \<Rightarrow> ''not_claimed'' | ReservedToHeld \<Rightarrow> ''reserved_to_held''
      | InTransitToHeld \<Rightarrow> ''in_transit_to_held'' | ReleasedToHeld \<Rightarrow> ''released_to_held''
      | ReleasedAlreadySpent \<Rightarrow> ''released_already_spent'' | PaidOutUnchanged \<Rightarrow> ''paid_out_unchanged'')"

definition hold_funds :: "reservation_status \<Rightarrow> int \<Rightarrow> liquidity \<Rightarrow> held_move liq_outcome" where
  "hold_funds st amount s =
     (case st of
        RESERVED \<Rightarrow> and_then (update_state (shift 0 (- amount) 0 0 amount) s) (\<lambda>_ t. (Inr ReservedToHeld, t))
      | IN_TRANSIT \<Rightarrow> and_then (update_state (shift 0 0 (- amount) 0 amount) s) (\<lambda>_ t. (Inr InTransitToHeld, t))
      | RELEASED \<Rightarrow>
          (case fl_state s of
             None \<Rightarrow> (Inr ReleasedAlreadySpent, s)
           | Some b \<Rightarrow>
               (if amount \<le> availableGhs b
                then (Inr ReleasedToHeld, s\<lparr>fl_state := Some (shift (- amount) 0 0 0 amount b)\<rparr>)
                else (Inr ReleasedAlreadySpent, s)))
      | PAID_OUT \<Rightarrow> (Inr PaidOutUnchanged, s)
      | RECONCILIATION_REQUIRED \<Rightarrow> (Inr NotClaimed, s))"

definition note_exception :: "op_ctx \<Rightarrow> exception_args \<Rightarrow> liquidity \<Rightarrow> liquidity" where
  "note_exception cx a s =
     (if cx_evidence_ok cx
      then s\<lparr>exceptions := snd (recordReconciliationException (cx_now cx) a (exceptions s))\<rparr> else s)"

definition contradiction_exception :: "reservation \<Rightarrow> held_move \<Rightarrow> exception_args" where
  "contradiction_exception r h =
     \<lparr>ea_entityType = ''FIAT_LIQUIDITY_RESERVATION'', ea_entityId = rz_reference r, ea_reference = rz_providerRef r,
      ea_reason = ''CONTRADICTORY_PROVIDER_EVIDENCE'', ea_details = Some (held_text h)\<rparr>"

definition overspend_exception :: "reservation \<Rightarrow> exception_args" where
  "overspend_exception r =
     \<lparr>ea_entityType = ''FIAT_LIQUIDITY_STATE'', ea_entityId = rz_reference r, ea_reference = rz_providerRef r,
      ea_reason = ''CONTRADICTORY_RELEASE_ALREADY_SPENT'', ea_details = None\<rparr>"

definition quarantineContradictoryOutcome ::
  "op_ctx \<Rightarrow> reservation \<Rightarrow> liquidity \<Rightarrow> reservation_result liq_outcome" where
  "quarantineContradictoryOutcome cx r s =
     (let k = rz_reference r in
      and_then
        (case claim_status cx (rz_status r) RECONCILIATION_REQUIRED k s of
           (Inr _, t) \<Rightarrow> hold_funds (rz_status r) (rz_amountGhs r) t
         | (Inl _, t) \<Rightarrow> (Inr NotClaimed, t))
        (\<lambda>h t.
           let t1 = note_exception cx (contradiction_exception r h) t;
               t2 = (if h = ReleasedAlreadySpent then note_exception cx (overspend_exception r) t1 else t1) in
           and_then (reread k t2) (\<lambda>x u. (Inr \<lparr>rr_reservation = x, rr_replay = False, rr_quarantined = True, rr_heldMove = Some h\<rparr>, u))))"

section \<open>Terminal outcomes\<close>

definition truthy :: "string option \<Rightarrow> bool" where
  "truthy v \<longleftrightarrow> v \<noteq> None \<and> v \<noteq> Some []"

definition refs_contradict :: "string option \<Rightarrow> string option \<Rightarrow> bool" where
  "refs_contradict a b \<longleftrightarrow> truthy a \<and> truthy b \<and> a \<noteq> b"

definition pay_out :: "op_ctx \<Rightarrow> reservation \<Rightarrow> string option \<Rightarrow> liquidity \<Rightarrow> reservation_result liq_outcome" where
  "pay_out cx r successRef s =
     and_then (claim_status cx IN_TRANSIT PAID_OUT (rz_reference r) s) (\<lambda>_ t1.
     and_then (update_state (shift 0 0 (- rz_amountGhs r) (rz_amountGhs r) 0) t1) (\<lambda>_ t2.
     and_then (if truthy successRef then enrichReservationProviderRef r successRef t2 else reread (rz_reference r) t2) (\<lambda>x t3.
     and_then (syncPoolProjection t3) (\<lambda>_ t4. (Inr (plain_result x False), t4)))))"

definition give_back :: "op_ctx \<Rightarrow> reservation \<Rightarrow> liquidity \<Rightarrow> reservation_result liq_outcome" where
  "give_back cx r s =
     and_then (claim_status cx (rz_status r) RELEASED (rz_reference r) s) (\<lambda>_ t1.
     and_then (update_state (if rz_status r = RESERVED then shift (rz_amountGhs r) (- rz_amountGhs r) 0 0 0
                             else shift (rz_amountGhs r) 0 (- rz_amountGhs r) 0 0) t1) (\<lambda>_ t2.
     and_then (reread (rz_reference r) t2) (\<lambda>x t3.
     and_then (syncPoolProjection t3) (\<lambda>_ t4. (Inr (plain_result x False), t4)))))"

definition settleReservation ::
  "op_ctx \<Rightarrow> string \<Rightarrow> string \<Rightarrow> string option \<Rightarrow> string option \<Rightarrow> (liquidity \<Rightarrow> liquidity) \<Rightarrow> liquidity \<Rightarrow>
   reservation_result liq_outcome" where
  "settleReservation cx reference outcome providerTxId reason env s =
     (if outcome \<notin> {''SUCCESSFUL'', ''FAILED''} then (Inl InvalidEvidence, s)
      else case find_by rz_reference reference (reservations s) of
        None \<Rightarrow> (Inl InvalidEvidence, s)
      | Some r \<Rightarrow>
          (let s' = ensureStateRow (env s) in
           case rz_status r of
             PAID_OUT \<Rightarrow>
               (if outcome \<noteq> ''SUCCESSFUL'' \<or> refs_contradict providerTxId (rz_providerRef r)
                then quarantineContradictoryOutcome cx r s'
                else (Inr (plain_result r True), ensureStateRow s))
           | RELEASED \<Rightarrow>
               (if outcome \<noteq> ''FAILED'' \<or> truthy reason \<and> rz_releasedAt r = None
                then quarantineContradictoryOutcome cx r s'
                else (Inr (plain_result r True), ensureStateRow s))
           | RECONCILIATION_REQUIRED \<Rightarrow>
               (Inr \<lparr>rr_reservation = r, rr_replay = True, rr_quarantined = True, rr_heldMove = None\<rparr>, ensureStateRow s)
           | RESERVED \<Rightarrow>
               (if outcome = ''SUCCESSFUL'' then quarantineContradictoryOutcome cx r s' else give_back cx r s')
           | IN_TRANSIT \<Rightarrow>
               (if outcome = ''SUCCESSFUL''
                then (if refs_contradict providerTxId (rz_providerRef r)
                      then quarantineContradictoryOutcome cx r s' else pay_out cx r providerTxId s')
                else give_back cx r s')))"

definition releaseReservation ::
  "op_ctx \<Rightarrow> string \<Rightarrow> (liquidity \<Rightarrow> liquidity) \<Rightarrow> liquidity \<Rightarrow> reservation_result liq_outcome" where
  "releaseReservation cx reference env s =
     (case find_by rz_reference reference (reservations s) of
        None \<Rightarrow> (Inl InvalidEvidence, s)
      | Some r \<Rightarrow>
          (let s' = ensureStateRow (env s) in
           case rz_status r of
             RELEASED \<Rightarrow> (Inr (plain_result r True), ensureStateRow s)
           | RESERVED \<Rightarrow> give_back cx r s'
           | RECONCILIATION_REQUIRED \<Rightarrow>
               (Inr \<lparr>rr_reservation = r, rr_replay = True, rr_quarantined = True, rr_heldMove = None\<rparr>, ensureStateRow s)
           | _ \<Rightarrow> quarantineContradictoryOutcome cx r s'))"

section \<open>Integration wrappers\<close>

definition if_recorded ::
  "string \<Rightarrow> ((liquidity \<Rightarrow> liquidity) \<Rightarrow> liquidity \<Rightarrow> reservation_result liq_outcome) \<Rightarrow>
   (liquidity \<Rightarrow> liquidity) \<Rightarrow> liquidity \<Rightarrow> (reservation_result option) liq_outcome" where
  "if_recorded reference run env s =
     (case find_by rz_reference reference (reservations s) of
        None \<Rightarrow> (Inr None, s)
      | Some _ \<Rightarrow> and_then (run env s) (\<lambda>x t. (Inr (Some x), t)))"

definition inTransitIfRecorded where
  "inTransitIfRecorded cx reference providerRef = if_recorded reference (markReservationInTransit cx reference providerRef)"

definition settleIfRecorded where
  "settleIfRecorded cx reference outcome providerTxId reason =
     if_recorded reference (settleReservation cx reference outcome providerTxId reason)"

definition releaseIfRecorded where
  "releaseIfRecorded cx reference = if_recorded reference (releaseReservation cx reference)"

section \<open>Reservation updates in the contract\<close>

interpretation zr: conditional_claim rz_reference rz_ref_absent "fill_rz_ref ref" for ref
  by unfold_locales (simp_all add: fill_rz_ref_def rz_ref_absent_def)

lemma advance_simps [simp]:
  "rz_status (advance cx st r) = st" "rz_reference (advance cx st r) = rz_reference r"
  "rz_amountGhs (advance cx st r) = rz_amountGhs r" "rz_provider (advance cx st r) = rz_provider r"
  "rz_providerRef (advance cx st r) = rz_providerRef r"
  by (cases st; simp add: advance_def)+

lemma status_claim: "st \<noteq> from \<Longrightarrow> conditional_claim rz_reference (has_status from) (advance cx st)"
  by unfold_locales (simp_all add: has_status_def)

interpretation dispatch: conditional_claim rz_reference "has_status RESERVED" "advance cx IN_TRANSIT" for cx
  by (rule status_claim) simp

interpretation payout: conditional_claim rz_reference "has_status IN_TRANSIT" "advance cx PAID_OUT" for cx
  by (rule status_claim) simp

text \<open>A successful claim names the row it moved.\<close>

lemma claim_status_Inr:
  assumes "claim_status cx from st k s = (Inr (), s')" and d: "distinct (map rz_reference (reservations s))"
  obtains r where "find_by rz_reference k (reservations s) = Some r" and "rz_status r = from"
    and "s' = s\<lparr>reservations := claim_rows rz_reference (has_status from) (advance cx st) k (reservations s)\<rparr>"
proof -
  have "claims rz_reference (has_status from) k (reservations s) \<noteq> 0"
    and s': "s' = s\<lparr>reservations := claim_rows rz_reference (has_status from) (advance cx st) k (reservations s)\<rparr>"
    using assms(1) by (auto simp: claim_status_def split: if_splits)
  then obtain r where "find_by rz_reference k (reservations s) = Some r" "has_status from r"
    using count_by_key [OF d, of k "has_status from"]
    by (auto simp: claims_def split: option.splits if_splits)
  then show thesis using that s' by (simp add: has_status_def)
qed

text \<open>The effect of moving one reservation row together with the buckets.\<close>

lemma reservation_effect:
  assumes ok: "tables_ok s" and f: "find_by rz_reference k (reservations s) = Some r" and st: "rz_status r = from"
    and ne: "st \<noteq> from" and later: "st \<in> later_status from"
    and t: "events t = events s" "receipts t = receipts s"
      "reservations t = claim_rows rz_reference (has_status from) (advance cx st) k (reservations s)"
    and m: "move_ok m (view_of s)" "apply_move m (view_of s) = row_change from st (rz_amountGhs r) (view_of s) (buckets_of t)"
  shows "liq_effect s t"
proof -
  have d: "distinct (map rz_reference (reservations s))" using ok by (simp add: tables_ok_def)
  note cc = status_claim [OF ne, of cx]
  have "rows_evolve rz_reference reservation_evolves (reservations s) (reservations t)"
    unfolding t claim_rows_def
    by (rule rows_evolve_update) (use later in \<open>auto simp: reservation_evolves_def has_status_def\<close>)
  then have ev: "liq_evolves s t" by (simp add: liq_evolves_def t rows_evolve_refl)
  have "\<forall>x \<in> set (reservations t). 0 < rz_amountGhs x"
    using ok by (auto simp: t claim_rows_def set_update_by tables_ok_def split: if_splits)
  moreover have "distinct (map rz_reference (reservations t))"
    using d by (simp add: t conditional_claim.claim_keys [OF cc])
  ultimately have tok: "tables_ok t" using ok by (simp add: tables_ok_def t receipt_backed_def)
  have g: "has_status from r" using st by (simp add: has_status_def)
  have "sum_rows (status_amount x) (reservations t) =
      sum_rows (status_amount x) (reservations s) + (status_amount x (advance cx st r) - status_amount x r)" for x
    unfolding t by (rule conditional_claim.claim_sum [OF cc d f g])
  then have "view_of t = apply_move m (view_of s)"
    unfolding m(2) using ne st by (auto simp: view_of_def row_change_def t status_amount_def fun_eq_iff)
  with ev tok m(1) show ?thesis by (rule liq_effectI)
qed

lemma row_in_total:
  assumes "tables_ok s" and "find_by rz_reference k (reservations s) = Some r"
  shows "0 < rz_amountGhs r"
    and "rz_status r = st \<Longrightarrow> rz_amountGhs r \<le> sum_rows (status_amount st) (reservations s)"
proof -
  have r: "r \<in> set (reservations s)" using find_by_Some [OF assms(2)] by simp
  then show "0 < rz_amountGhs r" using assms(1) by (auto simp: tables_ok_def)
  have "\<And>x. x \<in> set (reservations s) \<Longrightarrow> 0 \<le> status_amount st x"
    using assms(1) by (auto simp: tables_ok_def status_amount_def less_imp_le)
  from sum_rows_ge_member [where v = "status_amount st", OF this r] show "rz_status r = st \<Longrightarrow> rz_amountGhs r \<le> sum_rows (status_amount st) (reservations s)"
    by (simp add: status_amount_def)
qed

lemma update_state_Inr:
  "update_state f s = (Inr u, s') \<longleftrightarrow> (\<exists>b. fl_state s = Some b \<and> s' = s\<lparr>fl_state := Some (f b)\<rparr>)"
  by (auto simp: update_state_def split: option.splits)

lemma sync_Inr:
  "syncPoolProjection s = (Inr b, s') \<longleftrightarrow> fl_state s = Some b \<and> s' = s\<lparr>pool := Some (availableGhs b)\<rparr>"
  by (auto simp: syncPoolProjection_def split: option.splits)

lemma reread_Inr: "reread k s = (Inr x, s') \<longleftrightarrow> find_by rz_reference k (reservations s) = Some x \<and> s' = s"
  by (auto simp: reread_def split: option.splits)

text \<open>Writes that touch neither the tables of the contract nor the buckets.\<close>

definition side_write :: "liquidity \<Rightarrow> liquidity \<Rightarrow> bool" where
  "side_write s t \<longleftrightarrow>
     events t = events s \<and> receipts t = receipts s \<and> reservations t = reservations s \<and> fl_state t = fl_state s"

lemma side_write_quiet:
  assumes "side_write s t" and "liq_effect u s"
  shows "liq_effect u t"
proof (rule liq_effect_before_quiet [OF assms(2)])
  show "liq_evolves s t" using assms(1) by (simp add: side_write_def liq_evolves_def rows_evolve_refl)
  show "tables_ok t" using assms tables_cong [of t s] by (simp add: side_write_def liq_effect_def)
  show "view_of t = view_of s" using assms(1) by (simp add: side_write_def view_of_def buckets_of_def)
qed

lemma enrich_reservation_quiet:
  assumes "enrichReservationProviderRef r inc s = (Inr x, s')" and "liq_effect u s"
  shows "liq_effect u s'"
proof (cases "s' = s")
  case False
  then obtain ref where s': "s' = s\<lparr>reservations := claim_rows rz_reference rz_ref_absent (fill_rz_ref ref) (rz_reference r) (reservations s)\<rparr>"
    using assms(1) by (auto simp: enrichReservationProviderRef_def Let_def split: option.splits if_splits)
  have keep: "rz_status (fill_rz_ref ref y) = rz_status y" "rz_amountGhs (fill_rz_ref ref y) = rz_amountGhs y"
    "rz_reference (fill_rz_ref ref y) = rz_reference y" for y
    by (simp_all add: fill_rz_ref_def)
  have "reservations s' = update_by (\<lambda>y. rz_reference y = rz_reference r \<and> rz_ref_absent y) (fill_rz_ref ref) (reservations s)"
    by (simp add: s' claim_rows_def)
  then have "rows_evolve rz_reference reservation_evolves (reservations s) (reservations s')"
    by (simp only:, intro rows_evolve_update) (auto simp: fill_rz_ref_def rz_ref_absent_def reservation_evolves_def)
  then have "liq_evolves s s'" by (simp add: liq_evolves_def s' rows_evolve_refl)
  moreover have "tables_ok s'"
    using assms(2) unfolding s'
    by (auto simp: liq_effect_def tables_ok_def zr.claim_keys receipt_backed_def claim_rows_def set_update_by keep split: if_splits)
  moreover have "view_of s' = view_of s"
    by (simp add: view_of_def buckets_of_def s' claim_rows_def sum_rows_update_by_same status_amount_def keep)
  ultimately show ?thesis using liq_effect_before_quiet [OF assms(2)] by blast
qed (use assms in simp)

section \<open>The operations keep the contract\<close>

lemma buckets_of_Some: "fl_state s = Some b \<Longrightarrow> buckets_of s = b"
  by (simp add: buckets_of_def)

text \<open>A claim followed by a bucket shift, as every transition of the machine does it.\<close>

lemma claim_effect:
  assumes ok: "tables_ok s" and c: "claim_status cx from st k s = (Inr (), t1)"
    and t2: "events t2 = events t1" "receipts t2 = receipts t1" "reservations t2 = reservations t1"
    and amt: "\<And>r'. find_by rz_reference k (reservations s) = Some r' \<Longrightarrow> rz_amountGhs r' = a"
    and ne: "st \<noteq> from" "st \<in> later_status from"
    and m: "0 < a \<Longrightarrow> a \<le> lv_rows (view_of s) from \<Longrightarrow> move_ok m (view_of s)"
      "apply_move m (view_of s) = row_change from st a (view_of s) (buckets_of t2)"
  shows "liq_effect s t2"
proof -
  have d: "distinct (map rz_reference (reservations s))" using ok by (simp add: tables_ok_def)
  obtain r where r: "find_by rz_reference k (reservations s) = Some r" "rz_status r = from"
    and t1: "t1 = s\<lparr>reservations := claim_rows rz_reference (has_status from) (advance cx st) k (reservations s)\<rparr>"
    using c d by (rule claim_status_Inr)
  have a: "rz_amountGhs r = a" using amt [OF r(1)] .
  show ?thesis
  proof (rule reservation_effect [OF ok r ne, where m = m and cx = cx])
    show "move_ok m (view_of s)"
      using row_in_total [OF ok r(1)] a r(2) by (intro m(1)) (auto simp: view_of_def)
  qed (use m(2) in \<open>simp_all add: t2 t1 a\<close>)
qed

lemma claim_status_frame:
  "claim_status cx from st k s = (x, t) \<Longrightarrow> fl_state t = fl_state s \<and> events t = events s \<and> receipts t = receipts s"
  by (auto simp: claim_status_def split: if_splits)

lemma claim_and_shift:
  assumes ok: "tables_ok s" and c: "claim_status cx from st k s = (Inr (), t1)"
    and u: "update_state g t1 = (Inr v, t2)"
    and amt: "\<And>r'. find_by rz_reference k (reservations s) = Some r' \<Longrightarrow> rz_amountGhs r' = a"
    and ne: "st \<noteq> from" "st \<in> later_status from"
    and m: "0 < a \<Longrightarrow> a \<le> lv_rows (view_of s) from \<Longrightarrow> move_ok m (view_of s)"
      "apply_move m (view_of s) = row_change from st a (view_of s) (g (buckets_of s))"
  shows "liq_effect s t2"
proof -
  obtain b where b: "fl_state s = Some b" "t2 = t1\<lparr>fl_state := Some (g b)\<rparr>"
    using u claim_status_frame [OF c] by (auto simp: update_state_Inr)
  then have "buckets_of t2 = g (buckets_of s)" by (simp add: buckets_of_def)
  with m(2) b show ?thesis
    by (intro claim_effect [OF ok c _ _ _ amt ne m(1)]) simp_all
qed

lemma dispatch_effect:
  assumes "tables_ok s" and "claim_status cx RESERVED IN_TRANSIT k s = (Inr (), t1)"
    and "update_state (shift 0 (- a) a 0 0) t1 = (Inr v, t2)"
    and "\<And>r'. find_by rz_reference k (reservations s) = Some r' \<Longrightarrow> rz_amountGhs r' = a"
  shows "liq_effect s t2"
  by (rule claim_and_shift [OF assms, where m = "Dispatch a"])
    (simp_all add: later_status_def move_ok_def apply_move_def view_of_def)

lemma pay_out_effect:
  assumes run: "pay_out cx r ref s = (Inr x, s')" and ok: "tables_ok s"
    and amt: "\<And>r'. find_by rz_reference (rz_reference r) (reservations s) = Some r' \<Longrightarrow> rz_amountGhs r' = rz_amountGhs r"
  shows "liq_effect s s'"
proof -
  let ?a = "rz_amountGhs r"
  obtain t1 t2 t3 y b where c: "claim_status cx IN_TRANSIT PAID_OUT (rz_reference r) s = (Inr (), t1)"
    and u: "update_state (shift 0 0 (- ?a) ?a 0) t1 = (Inr (), t2)"
    and e: "(if truthy ref then enrichReservationProviderRef r ref t2 else reread (rz_reference r) t2) = (Inr y, t3)"
    and p: "syncPoolProjection t3 = (Inr b, s')"
    using run by (auto simp: pay_out_def and_then_Inr)
  have "liq_effect s t2"
    by (rule claim_and_shift [OF ok c u amt, where m = "Pay ?a"])
      (simp_all add: later_status_def move_ok_def apply_move_def view_of_def)
  then have "liq_effect s t3"
    using e enrich_reservation_quiet by (auto simp: reread_Inr split: if_splits)
  moreover have "side_write t3 s'" using p by (auto simp: sync_Inr side_write_def)
  ultimately show ?thesis by (rule side_write_quiet [rotated])
qed

lemma give_back_effect:
  assumes run: "give_back cx r s = (Inr x, s')" and ok: "tables_ok s" and st: "rz_status r \<in> {RESERVED, IN_TRANSIT}"
    and amt: "\<And>r'. find_by rz_reference (rz_reference r) (reservations s) = Some r' \<Longrightarrow> rz_amountGhs r' = rz_amountGhs r"
  shows "liq_effect s s'"
proof -
  let ?a = "rz_amountGhs r"
  let ?g = "if rz_status r = RESERVED then shift ?a (- ?a) 0 0 0 else shift ?a 0 (- ?a) 0 0"
  obtain t1 t2 b where c: "claim_status cx (rz_status r) RELEASED (rz_reference r) s = (Inr (), t1)"
    and u: "update_state ?g t1 = (Inr (), t2)" and p: "syncPoolProjection t2 = (Inr b, s')"
    using run by (auto simp: give_back_def and_then_Inr reread_Inr)
  have "liq_effect s t2"
    by (rule claim_and_shift [OF ok c u amt,
          where m = "if rz_status r = RESERVED then ReleaseReserved ?a else ReleaseInTransit ?a"])
      (use st in \<open>auto simp: later_status_def move_ok_def apply_move_def view_of_def Let_def split: if_splits\<close>)
  moreover have "side_write t2 s'" using p by (auto simp: sync_Inr side_write_def)
  ultimately show ?thesis by (rule side_write_quiet [rotated])
qed

lemma note_exception_side: "side_write t u \<Longrightarrow> side_write t (note_exception cx a u)"
  by (simp add: side_write_def note_exception_def)

lemma hold_effect:
  assumes c: "claim_status cx (rz_status r) RECONCILIATION_REQUIRED (rz_reference r) s = (Inr (), t1)"
    and h: "hold_funds (rz_status r) (rz_amountGhs r) t1 = (Inr h, t2)"
    and ok: "tables_ok s" and st: "rz_status r \<noteq> RECONCILIATION_REQUIRED"
    and amt: "\<And>r'. find_by rz_reference (rz_reference r) (reservations s) = Some r' \<Longrightarrow> rz_amountGhs r' = rz_amountGhs r"
  shows "liq_effect s t2"
proof (cases "rz_status r")
  case RESERVED
  then have u: "update_state (shift 0 (- rz_amountGhs r) 0 0 (rz_amountGhs r)) t1 = (Inr (), t2)"
    using h by (auto simp: hold_funds_def and_then_Inr)
  show ?thesis
    by (rule claim_and_shift [OF ok c [unfolded RESERVED] u amt, where m = "HoldReserved (rz_amountGhs r)"])
      (simp_all add: later_status_def move_ok_def apply_move_def view_of_def)
next
  case IN_TRANSIT
  then have u: "update_state (shift 0 0 (- rz_amountGhs r) 0 (rz_amountGhs r)) t1 = (Inr (), t2)"
    using h by (auto simp: hold_funds_def and_then_Inr)
  show ?thesis
    by (rule claim_and_shift [OF ok c [unfolded IN_TRANSIT] u amt, where m = "HoldInTransit (rz_amountGhs r)"])
      (simp_all add: later_status_def move_ok_def apply_move_def view_of_def)
next
  case RELEASED
  note c' = c [unfolded RELEASED]
  note fr = claim_status_frame [OF c]
  show ?thesis
  proof (cases "\<exists>b. fl_state t1 = Some b \<and> rz_amountGhs r \<le> availableGhs b")
    case True
    then obtain b where b: "fl_state t1 = Some b" "rz_amountGhs r \<le> availableGhs b"
      "t2 = t1\<lparr>fl_state := Some (shift (- rz_amountGhs r) 0 0 0 (rz_amountGhs r) b)\<rparr>"
      using h RELEASED by (auto simp: hold_funds_def)
    show ?thesis
      by (rule claim_effect [OF ok c' _ _ _ amt, where m = "HoldReleased (rz_amountGhs r)"])
        (use b fr in \<open>simp_all add: later_status_def move_ok_def apply_move_def view_of_def buckets_of_def\<close>)
  next
    case False
    then have "t2 = t1" using h RELEASED by (auto simp: hold_funds_def split: option.splits)
    then show ?thesis
      by (intro claim_effect [OF ok c' _ _ _ amt, where m = "HoldSpent (rz_amountGhs r)"])
        (use fr in \<open>simp_all add: later_status_def move_ok_def apply_move_def view_of_def buckets_of_def\<close>)
  qed
next
  case PAID_OUT
  then have "t2 = t1" using h by (simp add: hold_funds_def)
  then show ?thesis
    by (intro claim_effect [OF ok c [unfolded PAID_OUT] _ _ _ amt, where m = "HoldPaid (rz_amountGhs r)"])
      (use claim_status_frame [OF c] in
        \<open>simp_all add: later_status_def move_ok_def apply_move_def view_of_def buckets_of_def\<close>)
qed (use st in simp)

lemma quarantine_effect:
  assumes run: "quarantineContradictoryOutcome cx r s = (Inr x, s')" and ok: "tables_ok s"
    and st: "rz_status r \<noteq> RECONCILIATION_REQUIRED"
    and amt: "\<And>r'. find_by rz_reference (rz_reference r) (reservations s) = Some r' \<Longrightarrow> rz_amountGhs r' = rz_amountGhs r"
  shows "liq_effect s s'"
proof -
  obtain c t1 where c: "claim_status cx (rz_status r) RECONCILIATION_REQUIRED (rz_reference r) s = (c, t1)" by fastforce
  obtain h t where h: "(case c of Inr _ \<Rightarrow> hold_funds (rz_status r) (rz_amountGhs r) t1 | Inl _ \<Rightarrow> (Inr NotClaimed, t1)) = (Inr h, t)"
    and side: "side_write t s'"
    using run c
    by (auto simp: quarantineContradictoryOutcome_def Let_def and_then_Inr reread_Inr side_write_def note_exception_def
        split: sum.splits if_splits)
  have "liq_effect s t"
  proof (cases c)
    case (Inl e)
    then have "t = s" using c h by (auto simp: claim_status_def split: if_splits)
    then show ?thesis using liq_effect_refl [OF ok] by simp
  next
    case (Inr u)
    then show ?thesis using hold_effect [OF _ _ ok st amt] c h by simp
  qed
  with side show ?thesis by (rule side_write_quiet)
qed

lemma effect_after_ensure: "liq_effect (ensureStateRow s) t \<Longrightarrow> liq_effect s t"
  by (erule liq_effect_after_quiet [rotated 2])
    (simp_all add: liq_evolves_def rows_evolve_refl view_of_def)

lemma tables_ok_ensure: "tables_ok s \<Longrightarrow> tables_ok (ensureStateRow s)"
  by (simp add: tables_cong [of "ensureStateRow s" s])

text \<open>What the caller read and what the row holds when it writes agree on the amount.\<close>

lemma amount_kept:
  assumes "liq_evolves s t" and "find_by rz_reference k (reservations s) = Some r"
  shows "find_by rz_reference (rz_reference r) (reservations (ensureStateRow t)) = Some r' \<Longrightarrow> rz_amountGhs r' = rz_amountGhs r"
  using assms find_by_SomeD [OF assms(2)]
  by (auto simp: liq_evolves_def reservation_evolves_def dest!: rows_evolveD [OF _ assms(2)])

lemma reserve_effect:
  assumes run: "reserveForPayout parse cx a env s = (Inr x, s')"
    and oks: "tables_ok s" and ok: "tables_ok (env s)"
  shows "liq_effect s s' \<or> liq_effect (env s) s'"
proof -
  obtain amount where amt: "toExactGhsDecimal parse (rs_amountGhs a) = Inr amount"
    using run by (auto simp: reserveForPayout_def split: if_splits sum.splits)
  note pos = toExactGhsDecimal_pos [OF amt]
  show ?thesis
  proof (cases "find_by rz_reference (rs_reference a) (reservations s)")
    case (Some y)
    then show ?thesis
      using run amt ensureStateRow_effect [OF oks] by (auto simp: reserveForPayout_def split: if_splits)
  next
    case None
    let ?t = "ensureStateRow (env s)" and ?x = "new_reservation cx a amount"
    obtain t2 b where new: "rs_reference a \<notin> rz_reference ` set (reservations (env s))"
      and c: "claimAvailable amount (?t\<lparr>reservations := reservations (env s) @ [?x]\<rparr>) = (Inr (), t2)"
      and p: "syncPoolProjection t2 = (Inr b, s')"
      using run amt None by (auto simp: reserveForPayout_def Let_def and_then_Inr split: if_splits)
    define B where "B = buckets_of (env s)"
    have guard: "amount \<le> availableGhs B"
      and t2: "events t2 = events (env s)" "receipts t2 = receipts (env s)" "reservations t2 = reservations (env s) @ [?x]"
      "buckets_of t2 = shift (- amount) amount 0 0 0 B"
      using c by (auto simp: claimAvailable_def B_def shift_def split: if_splits) (simp add: buckets_of_def)
    have "liq_effect (env s) t2"
    proof (rule liq_effectI [of _ _ "Reserve amount"])
      show "liq_evolves (env s) t2" by (simp add: liq_evolves_def t2 rows_evolve_refl rows_evolve_append)
      show "tables_ok t2"
        using ok pos new by (auto simp: tables_ok_def t2 receipt_backed_def new_reservation_def)
      show "move_ok (Reserve amount) (view_of (env s))"
        using pos guard by (simp add: move_ok_def view_of_def B_def)
      show "view_of t2 = apply_move (Reserve amount) (view_of (env s))"
        by (simp add: view_of_def t2 apply_move_def B_def status_amount_def new_reservation_def fun_eq_iff)
    qed
    moreover have "side_write t2 s'" using p by (auto simp: sync_Inr side_write_def)
    ultimately show ?thesis using side_write_quiet by blast
  qed
qed

lemma mark_effect:
  assumes run: "markReservationInTransit cx k ref env s = (Inr x, s')"
    and ok: "tables_ok (env s)" and ev: "liq_evolves s (env s)"
  shows "liq_effect (env s) s'"
proof -
  obtain r where r: "find_by rz_reference k (reservations s) = Some r"
    using run by (auto simp: markReservationInTransit_def split: option.splits)
  have amt: "rz_amountGhs r' = rz_amountGhs r" if "find_by rz_reference k (reservations (env s)) = Some r'" for r'
    using that amount_kept [OF ev r] find_by_SomeD [OF r] by simp
  show ?thesis
  proof (cases "rz_status r = IN_TRANSIT")
    case True
    then show ?thesis
      using run r enrich_reservation_quiet liq_effect_refl [OF ok]
      by (auto simp: markReservationInTransit_def and_then_Inr)
  next
    case False
    then obtain t1 t2 y where "claim_status cx RESERVED IN_TRANSIT k (env s) = (Inr (), t1)"
      and "update_state (shift 0 (- rz_amountGhs r) (rz_amountGhs r) 0 0) t1 = (Inr (), t2)"
      and e: "enrichReservationProviderRef r ref t2 = (Inr y, s')"
      using run r by (auto simp: markReservationInTransit_def and_then_Inr split: if_splits)
    then have "liq_effect (env s) t2" using dispatch_effect [OF ok _ _ amt] by blast
    then show ?thesis by (rule enrich_reservation_quiet [OF e])
  qed
qed

lemma settle_effect:
  assumes run: "settleReservation cx k outcome ref reason env s = (Inr x, s')"
    and oks: "tables_ok s" and ok: "tables_ok (env s)" and ev: "liq_evolves s (env s)"
  shows "liq_effect s s' \<or> liq_effect (env s) s'"
proof -
  let ?t = "ensureStateRow (env s)"
  obtain r where r: "find_by rz_reference k (reservations s) = Some r"
    using run by (auto simp: settleReservation_def split: option.splits if_splits)
  note amt = amount_kept [OF ev r] and okt = tables_ok_ensure [OF ok]
  consider (replay) "s' = ensureStateRow s"
    | (quarantine) "quarantineContradictoryOutcome cx r ?t = (Inr x, s')" "rz_status r \<noteq> RECONCILIATION_REQUIRED"
    | (pay) "pay_out cx r ref ?t = (Inr x, s')"
    | (returned) "give_back cx r ?t = (Inr x, s')" "rz_status r \<in> {RESERVED, IN_TRANSIT}"
    using run r by (auto simp: settleReservation_def Let_def split: if_splits reservation_status.splits)
  then show ?thesis
  proof cases
    case replay
    then show ?thesis using ensureStateRow_effect [OF oks] by simp
  next
    case quarantine
    then show ?thesis using quarantine_effect [OF _ okt _ amt] effect_after_ensure by blast
  next
    case pay
    then show ?thesis using pay_out_effect [OF _ okt amt] effect_after_ensure by blast
  next
    case returned
    then show ?thesis using give_back_effect [OF _ okt _ amt] effect_after_ensure by blast
  qed
qed

lemma release_effect:
  assumes run: "releaseReservation cx k env s = (Inr x, s')"
    and oks: "tables_ok s" and ok: "tables_ok (env s)" and ev: "liq_evolves s (env s)"
  shows "liq_effect s s' \<or> liq_effect (env s) s'"
proof -
  let ?t = "ensureStateRow (env s)"
  obtain r where r: "find_by rz_reference k (reservations s) = Some r"
    using run by (auto simp: releaseReservation_def split: option.splits)
  note amt = amount_kept [OF ev r] and okt = tables_ok_ensure [OF ok]
  consider (replay) "s' = ensureStateRow s"
    | (quarantine) "quarantineContradictoryOutcome cx r ?t = (Inr x, s')" "rz_status r \<noteq> RECONCILIATION_REQUIRED"
    | (returned) "give_back cx r ?t = (Inr x, s')" "rz_status r \<in> {RESERVED, IN_TRANSIT}"
    using run r by (auto simp: releaseReservation_def Let_def split: reservation_status.splits)
  then show ?thesis
  proof cases
    case replay
    then show ?thesis using ensureStateRow_effect [OF oks] by simp
  next
    case quarantine
    then show ?thesis using quarantine_effect [OF _ okt _ amt] effect_after_ensure by blast
  next
    case returned
    then show ?thesis using give_back_effect [OF _ okt _ amt] effect_after_ensure by blast
  qed
qed

interpretation reserve: liquidity_operation "reserveForPayout parse cx a" for parse cx a
  by unfold_locales (rule reserve_effect)

interpretation in_transit: liquidity_operation "markReservationInTransit cx k ref" for cx k ref
  by unfold_locales (blast intro: mark_effect)

interpretation settle: liquidity_operation "settleReservation cx k outcome ref reason" for cx k outcome ref reason
  by unfold_locales (rule settle_effect)

interpretation release: liquidity_operation "releaseReservation cx k" for cx k
  by unfold_locales (rule release_effect)

lemma if_recorded_operation:
  assumes "liquidity_operation run"
  shows "liquidity_operation (if_recorded k run)"
proof
  fix env s a s'
  assume "if_recorded k run env s = (Inr a, s')" and "tables_ok s" "tables_ok (env s)" "liq_evolves s (env s)"
  then show "liq_effect s s' \<or> liq_effect (env s) s'"
    using liquidity_operation.run_effect [OF assms] liq_effect_refl
    by (fastforce simp: if_recorded_def and_then_Inr split: option.splits)
qed

interpretation wrapped_in_transit: liquidity_operation "inTransitIfRecorded cx k ref" for cx k ref
  unfolding inTransitIfRecorded_def by (rule if_recorded_operation [OF in_transit.liquidity_operation_axioms])

interpretation wrapped_settle: liquidity_operation "settleIfRecorded cx k outcome ref reason" for cx k outcome ref reason
  unfolding settleIfRecorded_def by (rule if_recorded_operation [OF settle.liquidity_operation_axioms])

interpretation wrapped_release: liquidity_operation "releaseIfRecorded cx k" for cx k
  unfolding releaseIfRecorded_def by (rule if_recorded_operation [OF release.liquidity_operation_axioms])

end
