(* ===== verification/Smart_Route.thy ===== *)
theory Smart_Route
  imports Js_Text Interleaving Conditional_Claim
begin

text \<open>
  Smart-route runs, \<^verbatim>\<open>services/smartRouteOccurrence.js\<close> and the run finalisation of
  \<^verbatim>\<open>services/smartRouteService.js\<close>: the cadence of scheduled occurrences, and the projection of
  a payout's terminal outcome onto the run that fired it and onto the route's statistics.

  Instants are milliseconds since the epoch; \<open>tz\<close> is the server's constant offset from UTC,
  and calendar months are counted from January 1970. Decimal columns are integers in their
  smallest unit. Each operation runs in the caller's transaction: it reads the run, other
  transactions may commit (\<open>env\<close>), then it claims the run and writes.
\<close>

section \<open>Calendar\<close>

definition leap_year :: "nat \<Rightarrow> bool" where
  "leap_year y \<longleftrightarrow> y mod 4 = 0 \<and> (y mod 100 \<noteq> 0 \<or> y mod 400 = 0)"

text \<open>Month \<open>n\<close> is counted from January 1970.\<close>

definition month_length :: "nat \<Rightarrow> nat" where
  "month_length n =
     (let mon = n mod 12; y = 1970 + n div 12 in
      if mon = 1 then (if leap_year y then 29 else 28)
      else if mon \<in> {3, 5, 8, 10} then 30 else 31)"

lemma month_length_pos: "28 \<le> month_length n"
  by (simp add: month_length_def Let_def)

fun days_before :: "nat \<Rightarrow> nat" where
  "days_before 0 = 0"
| "days_before (Suc n) = days_before n + month_length n"

text \<open>The month and the day within it that a day number falls in.\<close>

function locate :: "nat \<Rightarrow> nat \<Rightarrow> nat \<times> nat" where
  "locate n d = (if d < month_length n then (n, d) else locate (Suc n) (d - month_length n))"
  by pat_completeness auto
termination
proof (relation "measure snd")
  fix n d
  assume "\<not> d < month_length n"
  then show "((Suc n, d - month_length n), n, d) \<in> measure snd"
    using month_length_pos [of n] by simp
qed simp

declare locate.simps [simp del]

lemma locate_correct:
  "locate n d = (n', d') \<Longrightarrow> days_before n + d = days_before n' + d' \<and> d' < month_length n'"
proof (induction n d rule: locate.induct)
  case (1 n d)
  show ?case
  proof (cases "d < month_length n")
    case True
    then show ?thesis using "1.prems" locate.simps [of n d] by simp
  next
    case False
    then have "locate (Suc n) (d - month_length n) = (n', d')" using "1.prems" locate.simps [of n d] by simp
    from "1.IH" [OF False this] False show ?thesis by simp
  qed
qed

section \<open>Cadence\<close>

definition DAY_MS :: int where
  "DAY_MS = 24 * 60 * 60 * 1000"

definition FREQUENCY_MS :: "string \<Rightarrow> int option" where
  "FREQUENCY_MS f =
     (if f = ''DAILY'' then Some DAY_MS else if f = ''WEEKLY'' then Some (7 * DAY_MS)
      else if f = ''MONTHLY'' then Some (30 * DAY_MS) else if f = ''ON_DAY_OF_MONTH'' then Some 0 else None)"

definition clamp_day :: "int option \<Rightarrow> int" where
  "clamp_day d = (let n = (case d of None \<Rightarrow> 0 | Some n \<Rightarrow> n); n' = (if n = 0 then 1 else n) in min (max n' 1) 28)"

definition local_month :: "int \<Rightarrow> int \<Rightarrow> nat" where
  "local_month tz t = fst (locate 0 (nat ((t + tz) div DAY_MS)))"

definition local_instant :: "int \<Rightarrow> nat \<Rightarrow> int \<Rightarrow> int \<Rightarrow> int" where
  "local_instant tz n day hour = (int (days_before n) + (day - 1)) * DAY_MS + hour * 3600000 - tz"

definition computeNextRun :: "int \<Rightarrow> int \<Rightarrow> string \<Rightarrow> int option \<Rightarrow> int" where
  "computeNextRun tz from frequency dayOfMonth =
     (if frequency = ''DAILY'' then from + DAY_MS
      else if frequency = ''WEEKLY'' then from + 7 * DAY_MS
      else if frequency = ''MONTHLY'' then from + 30 * DAY_MS
      else if frequency = ''ON_DAY_OF_MONTH'' then local_instant tz (local_month tz from + 1) (clamp_day dayOfMonth) 9
      else from + 7 * DAY_MS)"

definition SR_REFERENCE_PREFIX :: string where
  "SR_REFERENCE_PREFIX = ''SRWD_''"

definition runIdFromReference :: "string \<Rightarrow> string option" where
  "runIdFromReference reference =
     (if take (length SR_REFERENCE_PREFIX) reference \<noteq> SR_REFERENCE_PREFIX then None
      else or_null (Some (drop (length SR_REFERENCE_PREFIX) reference)))"

section \<open>Runs and routes\<close>

datatype run_status =
    PENDING | EXECUTING | SUCCESS | FAILED_INSUFFICIENT | FAILED_GATEWAY | FAILED_OTHER | SKIPPED | AWAITING_RECONCILIATION

datatype failure_text = ReversedBecause string | ReversedRefunded | FailureText string

record sr_run =
  run_id :: string
  run_routeId :: string
  run_status :: run_status
  run_amountUsdc :: int
  run_amountGhs :: "int option"
  run_rateUsed :: "int option"
  run_failureReason :: "failure_text option"
  run_frequency :: "string option"
  run_dayOfMonth :: "int option"
  run_claimedOccurrenceAt :: "int option"
  run_executionKey :: "string option"
  run_withdrawalId :: "int option"

record sr_route =
  ro_id :: string
  ro_frequency :: string
  ro_dayOfMonth :: "int option"
  ro_nextRunAt :: int
  ro_lastRunAt :: "int option"
  ro_totalRuns :: int
  ro_totalRoutedUsdc :: int

record routes_db =
  runs :: "sr_run list"
  routes :: "sr_route list"

datatype convergence = NotConverged string | Converged run_status

datatype route_error = SMART_ROUTE_RUN_ALREADY_FINALIZED | RECORD_NOT_FOUND

definition in_status :: "run_status list \<Rightarrow> sr_run \<Rightarrow> bool" where
  "in_status sts r \<longleftrightarrow> run_status r \<in> set sts"

definition update_route :: "string \<Rightarrow> (sr_route \<Rightarrow> sr_route) \<Rightarrow> routes_db \<Rightarrow> routes_db" where
  "update_route i f s = s\<lparr>routes := update_by (\<lambda>r. ro_id r = i) f (routes s)\<rparr>"

definition add_stats :: "int \<Rightarrow> int \<Rightarrow> sr_route \<Rightarrow> sr_route" where
  "add_stats n amount r = r\<lparr>ro_totalRuns := ro_totalRuns r + n, ro_totalRoutedUsdc := ro_totalRoutedUsdc r + amount\<rparr>"

definition set_next :: "int \<Rightarrow> int \<Rightarrow> sr_route \<Rightarrow> sr_route" where
  "set_next next now r = r\<lparr>ro_nextRunAt := next, ro_lastRunAt := Some now\<rparr>"

definition occurrence_based :: "sr_run \<Rightarrow> bool" where
  "occurrence_based r = (case or_null (run_executionKey r) of None \<Rightarrow> False | Some k \<Rightarrow> contains_text '':occ:'' k)"

text \<open>Advancing the route past the occurrence the run claimed.\<close>

definition advance_occurrence :: "int \<Rightarrow> int \<Rightarrow> sr_run \<Rightarrow> sr_route \<Rightarrow> routes_db \<Rightarrow> routes_db" where
  "advance_occurrence tz now run route s =
     (if occurrence_based run
      then let base = (case run_claimedOccurrenceAt run of None \<Rightarrow> ro_nextRunAt route | Some t \<Rightarrow> t);
               freq = (case or_null (run_frequency run) of None \<Rightarrow> ro_frequency route | Some f \<Rightarrow> f);
               day = (case run_dayOfMonth run of None \<Rightarrow> ro_dayOfMonth route | Some d \<Rightarrow> Some d) in
           update_route (ro_id route) (set_next (computeNextRun tz base freq day) now) s
      else s)"

section \<open>Convergence\<close>

definition settle_run :: "sr_run \<Rightarrow> int option \<Rightarrow> int option \<Rightarrow> sr_run \<Rightarrow> sr_run" where
  "settle_run seen payoutGhs retailRate r =
     r\<lparr>run_status := SUCCESS, run_failureReason := None,
       run_amountGhs := (if run_amountGhs seen = None \<and> payoutGhs \<noteq> None then payoutGhs else run_amountGhs r),
       run_rateUsed := (if run_rateUsed seen = None \<and> retailRate \<noteq> None then retailRate else run_rateUsed r)\<rparr>"

definition convergeRunOnFiatSettlement ::
  "int \<Rightarrow> int \<Rightarrow> string \<Rightarrow> int option \<Rightarrow> int option \<Rightarrow> (routes_db \<Rightarrow> routes_db) \<Rightarrow> routes_db \<Rightarrow> convergence \<times> routes_db" where
  "convergeRunOnFiatSettlement tz now reference payoutGhs retailRate env s =
     (case runIdFromReference reference of
        None \<Rightarrow> (NotConverged ''NOT_SMART_ROUTE'', s)
      | Some i \<Rightarrow>
     (case find_by run_id i (runs s) of
        None \<Rightarrow> (NotConverged ''RUN_NOT_FOUND'', s)
      | Some run \<Rightarrow>
          (if run_status run = SUCCESS then (NotConverged ''ALREADY_CONVERGED'', s)
           else
             let guard = in_status [PENDING, EXECUTING, AWAITING_RECONCILIATION]; s1 = env s in
             if claims run_id guard i (runs s1) \<noteq> 1 then (NotConverged ''CONVERGENCE_LOST'', s1)
             else
               let s2 = s1\<lparr>runs := claim_rows run_id guard (settle_run run payoutGhs retailRate) i (runs s1)\<rparr> in
               (Converged (run_status run),
                case find_by ro_id (run_routeId run) (routes s2) of
                  None \<Rightarrow> s2
                | Some route \<Rightarrow>
                    (let s3 = update_route (ro_id route) (add_stats 1 (run_amountUsdc run)) s2 in
                     if run_status run \<in> {PENDING, EXECUTING} then advance_occurrence tz now run route s3 else s3)))))"

definition fail_run :: "run_status \<Rightarrow> failure_text \<Rightarrow> sr_run \<Rightarrow> sr_run" where
  "fail_run st why r = r\<lparr>run_status := st, run_failureReason := Some why\<rparr>"

definition reversal_status :: "run_status option \<Rightarrow> run_status" where
  "reversal_status req =
     (case req of
        Some st \<Rightarrow> if st \<in> {FAILED_GATEWAY, FAILED_OTHER, SKIPPED} then st else FAILED_GATEWAY
      | None \<Rightarrow> FAILED_GATEWAY)"

definition reversal_reason :: "string option \<Rightarrow> failure_text" where
  "reversal_reason reason = (case or_null reason of None \<Rightarrow> ReversedRefunded | Some t \<Rightarrow> ReversedBecause (take 240 t))"

definition convergeRunOnFiatReversal ::
  "int \<Rightarrow> int \<Rightarrow> string \<Rightarrow> string option \<Rightarrow> run_status option \<Rightarrow> (routes_db \<Rightarrow> routes_db) \<Rightarrow> routes_db \<Rightarrow>
   convergence \<times> routes_db" where
  "convergeRunOnFiatReversal tz now reference reason runFailureStatus env s =
     (case runIdFromReference reference of
        None \<Rightarrow> (NotConverged ''NOT_SMART_ROUTE'', s)
      | Some i \<Rightarrow>
     (case find_by run_id i (runs s) of
        None \<Rightarrow> (NotConverged ''RUN_NOT_FOUND'', s)
      | Some run \<Rightarrow>
          (let guard = in_status [PENDING, EXECUTING, AWAITING_RECONCILIATION, SUCCESS] in
           if \<not> guard run then (NotConverged ''ALREADY_CONVERGED'', s)
           else
             let s1 = env s in
             if claims run_id guard i (runs s1) \<noteq> 1 then (NotConverged ''CONVERGENCE_LOST'', s1)
             else
               let s2 = s1\<lparr>runs := claim_rows run_id guard
                            (fail_run (reversal_status runFailureStatus) (reversal_reason reason)) i (runs s1)\<rparr> in
               (Converged (run_status run),
                case find_by ro_id (run_routeId run) (routes s2) of
                  None \<Rightarrow> s2
                | Some route \<Rightarrow>
                    (if run_status run = SUCCESS then update_route (ro_id route) (add_stats (-1) (- run_amountUsdc run)) s2
                     else if run_status run \<in> {PENDING, EXECUTING} then advance_occurrence tz now run route s2
                     else s2)))))"

section \<open>Finalisation\<close>

definition finish_run ::
  "run_status \<Rightarrow> string option \<Rightarrow> int option \<Rightarrow> int option \<Rightarrow> int option \<Rightarrow> sr_run \<Rightarrow> sr_run" where
  "finish_run st why ghs rate wd r =
     r\<lparr>run_status := st, run_amountGhs := ghs, run_rateUsed := rate, run_withdrawalId := wd,
       run_failureReason := map_option FailureText (or_null why)\<rparr>"

text \<open>
  A Decimal column is an object in JavaScript, so \<^verbatim>\<open>run.amountUsdc || route.amountUsdc\<close> is the
  run's amount. An update of a route that is gone raises, and the caller's transaction is undone.
\<close>

definition finalizeRunInTx ::
  "int \<Rightarrow> int \<Rightarrow> sr_run \<Rightarrow> sr_route \<Rightarrow> bool \<Rightarrow> int \<Rightarrow> run_status \<Rightarrow> string option \<Rightarrow>
   int option \<Rightarrow> int option \<Rightarrow> int option \<Rightarrow> routes_db \<Rightarrow> (route_error, unit, routes_db) outcome" where
  "finalizeRunInTx tz now run route occurrenceBased occurrenceBase st why ghs rate wd s =
     (let guard = in_status [PENDING, EXECUTING] in
      if claims run_id guard (run_id run) (runs s) \<noteq> 1 then (Inl SMART_ROUTE_RUN_ALREADY_FINALIZED, s)
      else if (st = SUCCESS \<or> occurrenceBased) \<and> find_by ro_id (ro_id route) (routes s) = None
      then (Inl RECORD_NOT_FOUND, s)
      else
        let s1 = s\<lparr>runs := claim_rows run_id guard (finish_run st why ghs rate wd) (run_id run) (runs s)\<rparr>;
            s2 = (if st = SUCCESS then update_route (ro_id route) (add_stats 1 (run_amountUsdc run)) s1 else s1);
            freq = (case or_null (run_frequency run) of None \<Rightarrow> ro_frequency route | Some f \<Rightarrow> f);
            day = (case run_dayOfMonth run of None \<Rightarrow> ro_dayOfMonth route | Some d \<Rightarrow> Some d) in
        (Inr (),
         if occurrenceBased
         then update_route (ro_id route) (set_next (computeNextRun tz occurrenceBase freq day) now) s2
         else s2))"

section \<open>Statistics follow the successful runs\<close>

definition success_sum :: "(sr_run \<Rightarrow> int) \<Rightarrow> string \<Rightarrow> sr_run list \<Rightarrow> int" where
  "success_sum w i rs = sum_rows (\<lambda>r. if run_status r = SUCCESS \<and> run_routeId r = i then w r else 0) rs"

definition stats_ok :: "routes_db \<Rightarrow> bool" where
  "stats_ok s \<longleftrightarrow>
     distinct (map run_id (runs s)) \<and> distinct (map ro_id (routes s)) \<and>
     (\<forall>ro \<in> set (routes s). ro_totalRuns ro = success_sum (\<lambda>_. 1) (ro_id ro) (runs s) \<and>
        ro_totalRoutedUsdc ro = success_sum run_amountUsdc (ro_id ro) (runs s))"

definition same_run :: "sr_run \<Rightarrow> sr_run \<Rightarrow> bool" where
  "same_run x y \<longleftrightarrow> run_id y = run_id x \<and> run_routeId y = run_routeId x \<and> run_amountUsdc y = run_amountUsdc x"

definition runs_evolve :: "routes_db \<Rightarrow> routes_db \<Rightarrow> bool" where
  "runs_evolve s t \<longleftrightarrow> rows_evolve run_id same_run (runs s) (runs t) \<and> map ro_id (routes s) = map ro_id (routes t)"

definition success :: "sr_run \<Rightarrow> int" where
  "success r = (if run_status r = SUCCESS then 1 else 0)"

lemma success_sum_claim:
  assumes "conditional_claim run_id guard mv" and "distinct (map run_id rs)" and "find_by run_id i rs = Some r" and "guard r"
    and "\<And>x. same_run x (mv x)" and "\<And>x y. same_run x y \<Longrightarrow> w y = w x"
  shows "success_sum w j (claim_rows run_id guard mv i rs) =
    success_sum w j rs + (if run_routeId r = j then (success (mv r) - success r) * w r else 0)"
  using conditional_claim.claim_sum [OF assms(1-4), of "\<lambda>r. if run_status r = SUCCESS \<and> run_routeId r = j then w r else 0"]
    assms(5) [of r] assms(6) [of r "mv r"]
  by (simp add: success_sum_def success_def same_run_def)

lemma update_route_simps [simp]:
  "runs (update_route i f s) = runs s"
  "(\<And>r. ro_id (f r) = ro_id r) \<Longrightarrow> map ro_id (routes (update_route i f s)) = map ro_id (routes s)"
  by (simp_all add: update_route_def)

lemma update_route_absent: "find_by ro_id i (routes s) = None \<Longrightarrow> update_route i f s = s"
  unfolding update_route_def find_by_None by (subst update_by_none) auto

text \<open>A claim on a run together with the matching change of its route's counters.\<close>

lemma stats_claim:
  assumes ok: "stats_ok s" and cc: "conditional_claim run_id guard mv" and r: "find_by run_id i (runs s) = Some r" "guard r"
    and same: "\<And>x. same_run x (mv x)" and n: "n = success (mv r) - success r"
  shows "stats_ok (update_route (run_routeId r) (add_stats n (n * run_amountUsdc r))
           (s\<lparr>runs := claim_rows run_id guard mv i (runs s)\<rparr>))"
proof -
  have d: "distinct (map run_id (runs s))" using ok by (simp add: stats_ok_def)
  note sums = success_sum_claim [OF cc d r same]
  have "map run_id (claim_rows run_id guard mv i (runs s)) = map run_id (runs s)"
    by (rule conditional_claim.claim_keys [OF cc])
  moreover have "success_sum (\<lambda>_. 1) j (claim_rows run_id guard mv i (runs s)) =
      success_sum (\<lambda>_. 1) j (runs s) + (if run_routeId r = j then n else 0)"
    and "success_sum run_amountUsdc j (claim_rows run_id guard mv i (runs s)) =
      success_sum run_amountUsdc j (runs s) + (if run_routeId r = j then n * run_amountUsdc r else 0)" for j
    using n by (subst sums; simp add: same_run_def)+
  ultimately show ?thesis
    using ok by (auto simp: stats_ok_def update_route_def set_update_by add_stats_def)
qed

lemma add_stats_zero [simp]: "update_route i (add_stats 0 0) s = s"
proof -
  have "update_by P (add_stats 0 0) rows = rows" for P rows
    by (induction rows) (simp_all add: add_stats_def)
  then show ?thesis by (simp add: update_route_def)
qed

lemma set_next_stats: "stats_ok (update_route i (set_next t now) s) \<longleftrightarrow> stats_ok s"
proof -
  have "ro_id (set_next t now r) = ro_id r" "ro_totalRuns (set_next t now r) = ro_totalRuns r"
    "ro_totalRoutedUsdc (set_next t now r) = ro_totalRoutedUsdc r" for r
    by (simp_all add: set_next_def)
  then show ?thesis
    unfolding stats_ok_def update_route_def by (simp add: set_update_by ball_Un) blast
qed

lemma advance_stats [simp]: "stats_ok (advance_occurrence tz now run route s) \<longleftrightarrow> stats_ok s"
  by (simp add: advance_occurrence_def set_next_stats Let_def)

lemma same_run_moves [simp]:
  "same_run x (settle_run seen a b x)" "same_run x (fail_run st why x)" "same_run x (finish_run st why' a b wd x)"
  by (simp_all add: same_run_def settle_run_def fail_run_def finish_run_def)

lemma moved_status [simp]:
  "run_status (settle_run seen a b x) = SUCCESS" "run_status (fail_run st why x) = st"
  "run_status (finish_run st why' a b wd x) = st"
  by (simp_all add: settle_run_def fail_run_def finish_run_def)

lemma run_claim: "(\<And>x. same_run x (mv x)) \<Longrightarrow> (\<And>x. run_status (mv x) \<notin> set sts) \<Longrightarrow> conditional_claim run_id (in_status sts) mv"
  by unfold_locales (simp_all add: same_run_def in_status_def)

lemma run_claimed:
  assumes "stats_ok s" and "claims run_id guard i (runs s) = 1"
  obtains r where "find_by run_id i (runs s) = Some r" and "guard r"
proof -
  have "(case find_by run_id i (runs s) of None \<Rightarrow> 0 | Some r \<Rightarrow> if guard r then 1 else 0) = (1 :: nat)"
    using assms count_by_key [of run_id "runs s" i guard] by (simp add: stats_ok_def claims_def)
  then show thesis using that by (cases "find_by run_id i (runs s)") (simp_all split: if_splits)
qed

text \<open>The claim with the counters adjusted when there is a route, as the operations do it.\<close>

lemma stats_after_claim:
  assumes "stats_ok s" and "conditional_claim run_id guard mv" and "find_by run_id i (runs s) = Some r" "guard r"
    and "\<And>x. same_run x (mv x)" and "n = success (mv r) - success r" and "a = n * run_amountUsdc r" and "j = run_routeId r"
  shows "stats_ok (update_route j (add_stats n a) (s\<lparr>runs := claim_rows run_id guard mv i (runs s)\<rparr>))"
  using stats_claim [OF assms(1-6)] assms(7,8) by simp

lemma settlement_stats:
  assumes run: "convergeRunOnFiatSettlement tz now reference p q env s = (c, s')"
    and ok: "stats_ok s" "stats_ok (env s)" and ev: "runs_evolve s (env s)"
  shows "stats_ok s'"
proof (cases "\<exists>i run. runIdFromReference reference = Some i \<and> find_by run_id i (runs s) = Some run \<and> run_status run \<noteq> SUCCESS \<and>
    claims run_id (in_status [PENDING, EXECUTING, AWAITING_RECONCILIATION]) i (runs (env s)) = 1")
  case True
  then obtain i run where i: "runIdFromReference reference = Some i" and f: "find_by run_id i (runs s) = Some run"
    and ns: "run_status run \<noteq> SUCCESS"
    and c: "claims run_id (in_status [PENDING, EXECUTING, AWAITING_RECONCILIATION]) i (runs (env s)) = 1" by blast
  let ?g = "in_status [PENDING, EXECUTING, AWAITING_RECONCILIATION]" and ?mv = "settle_run run p q"
  obtain r where r: "find_by run_id i (runs (env s)) = Some r" "?g r" using run_claimed [OF ok(2) c] .
  have same: "run_routeId r = run_routeId run" "run_amountUsdc r = run_amountUsdc run"
    using ev f r(1) by (auto simp: runs_evolve_def same_run_def dest: rows_evolveD)
  have cc: "conditional_claim run_id ?g ?mv" by (rule run_claim) simp_all
  let ?s2 = "(env s)\<lparr>runs := claim_rows run_id ?g ?mv i (runs (env s))\<rparr>"
  have st: "stats_ok (update_route (run_routeId run) (add_stats 1 (run_amountUsdc run)) ?s2)"
    by (rule stats_after_claim [OF ok(2) cc r]) (use r(2) same in \<open>auto simp: success_def in_status_def\<close>)
  show ?thesis
  proof (cases "find_by ro_id (run_routeId run) (routes ?s2)")
    case None
    then show ?thesis
      using st run i f ns c by (simp add: convergeRunOnFiatSettlement_def Let_def update_route_absent)
  next
    case (Some route)
    then have "ro_id route = run_routeId run" by blast
    then show ?thesis
      using st run i f ns c Some by (auto simp: convergeRunOnFiatSettlement_def Let_def split: if_splits)
  qed
next
  case False
  then have "s' = s \<or> s' = env s"
    using run by (auto simp: convergeRunOnFiatSettlement_def Let_def split: option.splits if_splits)
  then show ?thesis using ok by auto
qed

lemma reversal_status_failed [simp]: "reversal_status q \<noteq> SUCCESS" "reversal_status q \<noteq> PENDING"
  "reversal_status q \<noteq> EXECUTING" "reversal_status q \<noteq> AWAITING_RECONCILIATION"
  by (auto simp: reversal_status_def split: option.splits)

lemma reversal_stats:
  assumes run: "convergeRunOnFiatReversal tz now reference why q id s = (c, s')" and ok: "stats_ok s"
  shows "stats_ok s'"
proof (cases "\<exists>i run. runIdFromReference reference = Some i \<and> find_by run_id i (runs s) = Some run \<and>
    in_status [PENDING, EXECUTING, AWAITING_RECONCILIATION, SUCCESS] run \<and>
    claims run_id (in_status [PENDING, EXECUTING, AWAITING_RECONCILIATION, SUCCESS]) i (runs s) = 1")
  case True
  let ?g = "in_status [PENDING, EXECUTING, AWAITING_RECONCILIATION, SUCCESS]"
    and ?mv = "fail_run (reversal_status q) (reversal_reason why)"
  from True obtain i r where i: "runIdFromReference reference = Some i" and r: "find_by run_id i (runs s) = Some r" "?g r"
    and c: "claims run_id ?g i (runs s) = 1" by blast
  have cc: "conditional_claim run_id ?g ?mv" by (rule run_claim) simp_all
  let ?s2 = "s\<lparr>runs := claim_rows run_id ?g ?mv i (runs s)\<rparr>"
  let ?n = "if run_status r = SUCCESS then - 1 else 0 :: int"
  have st: "stats_ok (update_route (run_routeId r) (add_stats ?n (?n * run_amountUsdc r)) ?s2)"
    by (rule stats_after_claim [OF ok cc r]) (auto simp: success_def)
  show ?thesis
  proof (cases "find_by ro_id (run_routeId r) (routes ?s2)")
    case None
    then show ?thesis using st run i r c by (simp add: convergeRunOnFiatReversal_def Let_def update_route_absent)
  next
    case (Some route)
    then have "ro_id route = run_routeId r" by blast
    then show ?thesis
      using st run i r c Some by (auto simp: convergeRunOnFiatReversal_def Let_def split: if_splits)
  qed
next
  case False
  then have "s' = s"
    using run by (auto simp: convergeRunOnFiatReversal_def Let_def split: option.splits if_splits)
  then show ?thesis using ok by simp
qed

lemma finalize_stats:
  assumes run: "finalizeRunInTx tz now run route occ base st why ghs rate wd s = (c, s')" and ok: "stats_ok s"
    and row: "\<And>r. find_by run_id (run_id run) (runs s) = Some r \<Longrightarrow> same_run run r"
    and ro: "ro_id route = run_routeId run" and fin: "st \<notin> {PENDING, EXECUTING}"
  shows "stats_ok s'"
proof (cases c)
  case (Inl e)
  then show ?thesis using run ok by (auto simp: finalizeRunInTx_def Let_def split: if_splits)
next
  case (Inr u)
  let ?g = "in_status [PENDING, EXECUTING]" and ?mv = "finish_run st why ghs rate wd"
  have c: "claims run_id ?g (run_id run) (runs s) = 1"
    using run Inr by (auto simp: finalizeRunInTx_def Let_def split: if_splits)
  obtain r where r: "find_by run_id (run_id run) (runs s) = Some r" "?g r" using run_claimed [OF ok c] .
  have cc: "conditional_claim run_id ?g ?mv" by (rule run_claim) (use fin in simp_all)
  have same: "run_routeId r = run_routeId run" "run_amountUsdc r = run_amountUsdc run"
    using row [OF r(1)] by (simp_all add: same_run_def)
  let ?n = "if st = SUCCESS then 1 else 0 :: int"
  have st: "stats_ok (update_route (ro_id route) (add_stats ?n (?n * run_amountUsdc run))
      (s\<lparr>runs := claim_rows run_id ?g ?mv (run_id run) (runs s)\<rparr>))"
    by (rule stats_after_claim [OF ok cc r]) (use r(2) same ro in \<open>auto simp: success_def in_status_def\<close>)
  then show ?thesis
    using run Inr by (auto simp: finalizeRunInTx_def Let_def set_next_stats split: if_splits)
qed

section \<open>Histories of settlements, reversals and finalisations\<close>

datatype route_call =
    Settle string "int option" "int option"
  | Reverse string "string option" "run_status option"
  | Finalize string bool int run_status "string option" "int option" "int option" "int option"

text \<open>
  An executor finalises with the run and the route it read when it started. A reversal reads and
  claims its run without another call in between.
\<close>

definition route_exec :: "int \<Rightarrow> (routes_db \<Rightarrow> routes_db) \<Rightarrow> int \<times> route_call \<Rightarrow> routes_db \<Rightarrow> convergence option \<times> routes_db" where
  "route_exec tz env c s =
     (case c of
        (now, Settle reference p q) \<Rightarrow> apfst Some (convergeRunOnFiatSettlement tz now reference p q env s)
      | (now, Reverse reference why q) \<Rightarrow> apfst Some (convergeRunOnFiatReversal tz now reference why q id (env s))
      | (now, Finalize i occ base st why ghs rate wd) \<Rightarrow>
          (case find_by run_id i (runs s) of
             None \<Rightarrow> (None, env s)
           | Some run \<Rightarrow>
               (case find_by ro_id (run_routeId run) (routes s) of
                  None \<Rightarrow> (None, env s)
                | Some route \<Rightarrow>
                    (if st \<in> {PENDING, EXECUTING} then (None, env s)
                     else (None, snd (finalizeRunInTx tz now run route occ base st why ghs rate wd (env s)))))))"

lemma same_run_refl [simp]: "same_run x x"
  by (simp add: same_run_def)

lemma runs_evolve_refl: "runs_evolve s s"
  by (simp add: runs_evolve_def rows_evolve_refl)

lemma runs_evolve_trans: "runs_evolve s t \<Longrightarrow> runs_evolve t u \<Longrightarrow> runs_evolve s u"
proof -
  have "transp same_run" by (rule transpI) (simp add: same_run_def)
  then show "runs_evolve s t \<Longrightarrow> runs_evolve t u \<Longrightarrow> runs_evolve s u"
    using rows_evolve_trans by (fastforce simp: runs_evolve_def)
qed

lemma runs_evolve_update_route [simp]:
  assumes "\<And>r. ro_id (f r) = ro_id r"
  shows "runs_evolve s (update_route i f t) \<longleftrightarrow> runs_evolve s t"
  using assms by (simp add: runs_evolve_def)

lemma set_next_id [simp]: "ro_id (set_next t now r) = ro_id r"
  and add_stats_id [simp]: "ro_id (add_stats n a r) = ro_id r"
  by (simp_all add: set_next_def add_stats_def)

lemma runs_evolve_advance [simp]: "runs_evolve s (advance_occurrence tz now run route t) \<longleftrightarrow> runs_evolve s t"
  by (simp add: advance_occurrence_def Let_def)

lemma runs_evolve_claim:
  assumes "\<And>x. same_run x (mv x)"
  shows "runs_evolve s (s\<lparr>runs := claim_rows run_id guard mv i (runs s)\<rparr>)"
proof -
  have "run_id (mv x) = run_id x" for x using assms [of x] by (simp add: same_run_def)
  then show ?thesis using assms by (simp add: runs_evolve_def claim_rows_def rows_evolve_update)
qed

lemma runs_evolve_then_claim:
  "runs_evolve s t \<Longrightarrow> (\<And>x. same_run x (mv x)) \<Longrightarrow> runs_evolve s (t\<lparr>runs := claim_rows run_id guard mv i (runs t)\<rparr>)"
  using runs_evolve_trans runs_evolve_claim by blast

lemma settlement_evolves:
  "convergeRunOnFiatSettlement tz now reference p q env s = (c, s') \<Longrightarrow> runs_evolve s (env s) \<Longrightarrow> runs_evolve s s'"
  by (auto simp: convergeRunOnFiatSettlement_def Let_def runs_evolve_refl runs_evolve_then_claim
      split: option.splits if_splits)

lemma reversal_evolves: "convergeRunOnFiatReversal tz now reference why q id s = (c, s') \<Longrightarrow> runs_evolve s s'"
  by (auto simp: convergeRunOnFiatReversal_def Let_def runs_evolve_refl runs_evolve_claim split: option.splits if_splits)

lemma finalize_evolves: "runs_evolve s (snd (finalizeRunInTx tz now run route occ base st why ghs rate wd s))"
  by (simp add: finalizeRunInTx_def Let_def runs_evolve_refl runs_evolve_claim)

lemma route_exec_keeps:
  assumes run: "route_exec tz env c s = (r, s')" and ok: "stats_ok s" "stats_ok (env s)" and ev: "runs_evolve s (env s)"
  shows "stats_ok s' \<and> runs_evolve s s'"
proof -
  obtain now k where c: "c = (now, k)" by (cases c)
  show ?thesis
  proof (cases k)
    case (Settle x p q)
    with run c obtain r' where "convergeRunOnFiatSettlement tz now x p q env s = (r', s')"
      by (cases "convergeRunOnFiatSettlement tz now x p q env s") (simp add: route_exec_def)
    then show ?thesis using settlement_stats settlement_evolves ok ev by blast
  next
    case (Reverse x why q)
    with run c obtain r' where "convergeRunOnFiatReversal tz now x why q id (env s) = (r', s')"
      by (cases "convergeRunOnFiatReversal tz now x why q id (env s)") (simp add: route_exec_def)
    then show ?thesis using reversal_stats reversal_evolves runs_evolve_trans ok ev by blast
  next
    case (Finalize i occ base st why ghs rate wd)
    show ?thesis
    proof (cases "\<exists>run route. find_by run_id i (runs s) = Some run \<and> find_by ro_id (run_routeId run) (routes s) = Some route \<and>
        st \<notin> {PENDING, EXECUTING}")
      case True
      then obtain run route where f: "find_by run_id i (runs s) = Some run"
        and ro: "find_by ro_id (run_routeId run) (routes s) = Some route" and st: "st \<notin> {PENDING, EXECUTING}" by blast
      have s': "s' = snd (finalizeRunInTx tz now run route occ base st why ghs rate wd (env s))"
        using run f ro st by (auto simp: route_exec_def c Finalize)
      have "run_id run = i" "ro_id route = run_routeId run" using f ro by blast+
      moreover have "same_run run r'" if "find_by run_id i (runs (env s)) = Some r'" for r'
        using ev f that by (auto simp: runs_evolve_def dest: rows_evolveD)
      ultimately have "stats_ok s'"
        using finalize_stats [OF prod.collapse [symmetric] ok(2) _ _ st] s' by metis
      then show ?thesis using s' finalize_evolves runs_evolve_trans ev by blast
    next
      case False
      then have "s' = env s" using run by (auto simp: route_exec_def c Finalize split: option.splits if_splits)
      then show ?thesis using ok ev by simp
    qed
  qed
qed

interpretation route_runs: interleaved_service "route_exec tz" stats_ok runs_evolve
  by unfold_locales (use runs_evolve_refl runs_evolve_trans route_exec_keeps in blast)+

lemma days_before_mono: "m \<le> n \<Longrightarrow> days_before m \<le> days_before n"
  by (induction n) (auto simp: le_Suc_eq)

lemma local_month_bounds:
  assumes "0 \<le> t + tz"
  shows "t + tz < int (days_before (Suc (local_month tz t))) * DAY_MS"
proof -
  let ?d = "(t + tz) div DAY_MS"
  obtain n d where l: "locate 0 (nat ?d) = (n, d)" by (cases "locate 0 (nat ?d)")
  have pos: "0 < DAY_MS" by (simp add: DAY_MS_def)
  have "nat ?d < days_before (Suc n)" using locate_correct [OF l] by simp
  then have "?d + 1 \<le> int (days_before (Suc n))" by linarith
  then have "(?d + 1) * DAY_MS \<le> int (days_before (Suc n)) * DAY_MS"
    using pos by (intro mult_right_mono) simp_all
  moreover have "t + tz < (?d + 1) * DAY_MS"
    using pos div_mult_mod_eq [of "t + tz" DAY_MS] pos_mod_bound [OF pos, of "t + tz"] by (simp only: distrib_right)
  ultimately show ?thesis by (simp add: local_month_def l)
qed

lemma clamp_day_range: "1 \<le> clamp_day d" "clamp_day d \<le> 28"
  by (simp_all add: clamp_day_def Let_def)

text \<open>Cadence: whatever the frequency text and the day of month, the next occurrence lies strictly
  after the occurrence it is computed from, so an advance never replays an instant; and an
  \<^verbatim>\<open>ON_DAY_OF_MONTH\<close> route is scheduled at 09:00 local time on an existing day of the month
  that follows the base's month.
\<close>

theorem next_occurrence_is_later:
  assumes "0 \<le> from + tz"
  shows "from < computeNextRun tz from freq day \<and>
    (freq = ''ON_DAY_OF_MONTH'' \<longrightarrow>
      (let n = Suc (local_month tz from); d = nat (clamp_day day) in
       1 \<le> d \<and> d \<le> month_length n \<and> computeNextRun tz from freq day = local_instant tz n (int d) 9))"
proof -
  let ?n = "Suc (local_month tz from)"
  have c: "1 \<le> clamp_day day" "clamp_day day \<le> 28" by (rule clamp_day_range)+
  have "0 \<le> (clamp_day day - 1) * DAY_MS" using c by (simp add: DAY_MS_def)
  then have "from < local_instant tz ?n (clamp_day day) 9"
    using local_month_bounds [OF assms] by (simp add: local_instant_def distrib_right del: days_before.simps)
  moreover have "1 \<le> nat (clamp_day day)" "nat (clamp_day day) \<le> month_length ?n"
    using c month_length_pos [of ?n] by linarith+
  ultimately show ?thesis using c by (simp add: computeNextRun_def Let_def DAY_MS_def)
qed

theorem next_occurrence_is_later_witness:
  "(0 :: int) \<le> 1706702400000 + 0 \<and> 1706702400000 < computeNextRun 0 1706702400000 ''ON_DAY_OF_MONTH'' (Some 31)"
  using next_occurrence_is_later [of 1706702400000 0 "''ON_DAY_OF_MONTH''" "Some 31"] by simp

definition run_of :: "run_status \<Rightarrow> sr_run" where
  "run_of st = \<lparr>run_id = ''r1'', run_routeId = ''a'', run_status = st, run_amountUsdc = 50, run_amountGhs = None,
     run_rateUsed = None, run_failureReason = None, run_frequency = Some ''DAILY'', run_dayOfMonth = None,
     run_claimedOccurrenceAt = Some 1000, run_executionKey = Some ''a:occ:1'', run_withdrawalId = None\<rparr>"

definition route_of :: sr_route where
  "route_of = \<lparr>ro_id = ''a'', ro_frequency = ''DAILY'', ro_dayOfMonth = None, ro_nextRunAt = 1000, ro_lastRunAt = None,
     ro_totalRuns = 0, ro_totalRoutedUsdc = 0\<rparr>"

definition one_run :: "run_status \<Rightarrow> routes_db" where
  "one_run st = \<lparr>runs = [run_of st], routes = [route_of]\<rparr>"

text \<open>C22: Over every history of settlements, finalisations and (serialised) reversals, whatever their
  arguments and however often a provider redelivers, each route's counters are the number and
  the total amount of its successful runs, and a run keeps its identity, route and amount.
\<close>

theorem statistics_follow_runs:
  assumes "history (route_exec tz) s t" and "stats_ok s"
  shows "(\<forall>ro \<in> set (routes t). ro_totalRuns ro = success_sum (\<lambda>_. 1) (ro_id ro) (runs t) \<and>
      ro_totalRoutedUsdc ro = success_sum run_amountUsdc (ro_id ro) (runs t)) \<and>
    (\<forall>i r. find_by run_id i (runs s) = Some r \<longrightarrow> (\<exists>r'. find_by run_id i (runs t) = Some r' \<and> same_run r r'))"
proof -
  have "stats_ok t" and "rows_evolve run_id same_run (runs s) (runs t)"
    using route_runs.history_keeps [OF assms] by (simp_all add: runs_evolve_def)
  then show ?thesis by (simp add: stats_ok_def rows_evolveD)
qed

theorem statistics_follow_runs_witness:
  "(let t = snd (route_exec 0 id (2000, Settle ''SRWD_r1'' (Some 600) None) (one_run AWAITING_RECONCILIATION)) in
    history (route_exec 0) (one_run AWAITING_RECONCILIATION) t \<and> stats_ok (one_run AWAITING_RECONCILIATION) \<and>
    map ro_totalRuns (routes t) = [1] \<and>
    (\<forall>ro \<in> set (routes t). ro_totalRuns ro = success_sum (\<lambda>_. 1) (ro_id ro) (runs t)))"
proof -
  let ?s = "one_run AWAITING_RECONCILIATION" and ?c = "(2000, Settle ''SRWD_r1'' (Some 600) None)"
  let ?t = "snd (route_exec 0 id ?c ?s)"
  have ok: "stats_ok ?s" by code_simp
  have h: "history (route_exec 0) ?s ?t"
    by (rule history_call_alone [where exec = "route_exec 0", OF history.stop prod.collapse [symmetric]])
  have "map ro_totalRuns (routes ?t) = [1]" by code_simp
  then show ?thesis using statistics_follow_runs [OF h ok] h ok unfolding Let_def by blast
qed

lemma finalized_run:
  assumes ok: "stats_ok s" and run: "find_by run_id i (runs s) = Some run" "run_status run \<in> {PENDING, EXECUTING}"
    and route: "find_by ro_id (run_routeId run) (routes s) = Some route"
    and s1: "s1 = snd (finalizeRunInTx tz now run route occ base SUCCESS why ghs rate wd s)"
  obtains r ro where "stats_ok s1" "find_by run_id i (runs s1) = Some r" "run_status r = SUCCESS" "same_run run r"
    "find_by ro_id (run_routeId run) (routes s1) = Some ro"
proof -
  let ?g = "in_status [PENDING, EXECUTING]" and ?mv = "finish_run SUCCESS why ghs rate wd"
  have ids: "run_id run = i" "ro_id route = run_routeId run" using run(1) route by blast+
  have g: "?g run" using run(2) by (simp add: in_status_def)
  have d: "distinct (map run_id (runs s))" using ok by (simp add: stats_ok_def)
  then have one: "claims run_id ?g i (runs s) = 1" using run(1) g by (simp add: claims_def count_by_key)
  have cc: "conditional_claim run_id ?g ?mv" by (rule run_claim) simp_all
  have runs: "runs s1 = claim_rows run_id ?g ?mv i (runs s)"
    using one ids route by (simp add: s1 finalizeRunInTx_def Let_def)
  have "stats_ok s1"
    unfolding s1 by (rule finalize_stats [OF prod.collapse [symmetric] ok]) (use run(1) ids in auto)
  moreover have "find_by run_id i (runs s1) = Some (?mv run)"
    using conditional_claim.claim_find [OF cc, of i i "runs s"] run(1) g by (simp add: runs)
  moreover have "map ro_id (routes s1) = map ro_id (routes s)"
    using finalize_evolves by (simp add: s1 runs_evolve_def)
  then have "run_routeId run \<in> ro_id ` set (routes s1)" using route by (metis find_by_Some image_eqI list.set_map)
  then obtain ro where "find_by ro_id (run_routeId run) (routes s1) = Some ro"
    using find_by_None [of ro_id "run_routeId run" "routes s1"] by blast
  ultimately show thesis using that by simp
qed

text \<open>C40: A payout reversed while its run is finalised: the reversal reads a pending or executing run,
  the executor commits SUCCESS and counts it, and the reversal's claim, which accepts any of the four
  statuses rather than the one it read, fails the run without unwinding the counters. From any books
  in order, and for every run, route and outcome of the race, the route then counts one run and that
  run's amount more than its successful runs.\<close>

theorem racing_reversal_miscounts:
  assumes ok: "stats_ok s" and ref: "runIdFromReference reference = Some i"
    and run: "find_by run_id i (runs s) = Some run" "run_status run \<in> {PENDING, EXECUTING}"
    and route: "find_by ro_id (run_routeId run) (routes s) = Some route"
    and race: "env s = snd (finalizeRunInTx tz now run route occ base SUCCESS why ghs rate wd s)"
  shows "\<exists>t r ro. convergeRunOnFiatReversal tz now' reference reason q env s = (Converged (run_status run), t) \<and>
    find_by run_id i (runs t) = Some r \<and> run_status r = reversal_status q \<and>
    find_by ro_id (run_routeId run) (routes t) = Some ro \<and>
    ro_totalRuns ro = success_sum (\<lambda>_. 1) (run_routeId run) (runs t) + 1 \<and>
    ro_totalRoutedUsdc ro = success_sum run_amountUsdc (run_routeId run) (runs t) + run_amountUsdc run"
proof -
  let ?g = "in_status [PENDING, EXECUTING, AWAITING_RECONCILIATION, SUCCESS]"
    and ?mv = "fail_run (reversal_status q) (reversal_reason reason)"
  obtain r ro where s1: "stats_ok (env s)" and r: "find_by run_id i (runs (env s)) = Some r" "run_status r = SUCCESS" "same_run run r"
    and ro: "find_by ro_id (run_routeId run) (routes (env s)) = Some ro"
    by (rule finalized_run [OF ok run route race])
  let ?s2 = "(env s)\<lparr>runs := claim_rows run_id ?g ?mv i (runs (env s))\<rparr>"
  have d: "distinct (map run_id (runs (env s)))" using s1 by (simp add: stats_ok_def)
  have g: "?g r" "?g run" using r(2) run(2) by (auto simp: in_status_def)
  then have one: "claims run_id ?g i (runs (env s)) = 1" using r(1) d by (simp add: claims_def count_by_key)
  have cc: "conditional_claim run_id ?g ?mv" by (rule run_claim) simp_all
  have rid: "ro_id ro = run_routeId run" "run_routeId r = run_routeId run" "run_amountUsdc r = run_amountUsdc run"
    using ro r(3) by (auto simp: same_run_def)
  have sums: "success_sum w (run_routeId run) (runs ?s2) = success_sum w (run_routeId run) (runs (env s)) - w r"
    if "\<And>x y. same_run x y \<Longrightarrow> w y = w x" for w
    using success_sum_claim [OF cc d r(1) g(1) _ that, where j = "run_routeId run"] r(2) rid(2) by (simp add: success_def)
  have "success_sum (\<lambda>_. 1) (run_routeId run) (runs ?s2) = success_sum (\<lambda>_. 1) (run_routeId run) (runs (env s)) - 1"
    "success_sum run_amountUsdc (run_routeId run) (runs ?s2) = success_sum run_amountUsdc (run_routeId run) (runs (env s)) - run_amountUsdc run"
    using sums [of "\<lambda>_. 1"] sums [of run_amountUsdc] rid(3) by (simp_all add: same_run_def)
  moreover have "ro \<in> set (routes (env s))" using find_by_Some [OF ro] by blast
  ultimately have stats: "ro_totalRuns ro = success_sum (\<lambda>_. 1) (run_routeId run) (runs ?s2) + 1"
    "ro_totalRoutedUsdc ro = success_sum run_amountUsdc (run_routeId run) (runs ?s2) + run_amountUsdc run"
    using s1 rid(1) by (simp_all add: stats_ok_def)
  let ?t = "advance_occurrence tz now' run ro ?s2"
  have "convergeRunOnFiatReversal tz now' reference reason q env s = (Converged (run_status run), ?t)"
    using ref run g(2) one ro by (auto simp: convergeRunOnFiatReversal_def Let_def)
  moreover have "runs ?t = runs ?s2" by (simp add: advance_occurrence_def Let_def)
  moreover have "find_by run_id i (runs ?s2) = Some (?mv r)"
    using conditional_claim.claim_find [OF cc, of i i "runs (env s)"] r(1) g(1) by simp
  moreover have "\<exists>ro'. find_by ro_id (run_routeId run) (routes ?t) = Some ro' \<and> ro_totalRuns ro' = ro_totalRuns ro \<and>
      ro_totalRoutedUsdc ro' = ro_totalRoutedUsdc ro"
    using ro by (auto simp: advance_occurrence_def Let_def update_route_def find_by_update_by set_next_def)
  ultimately show ?thesis using stats by auto
qed

theorem racing_reversal_miscounts_witness:
  "\<exists>t r ro. convergeRunOnFiatReversal 0 3000 ''SRWD_r1'' None None
      (\<lambda>s. snd (finalizeRunInTx 0 2000 (run_of EXECUTING) route_of True 1000 SUCCESS None None None None s)) (one_run EXECUTING) =
      (Converged EXECUTING, t) \<and>
    find_by run_id ''r1'' (runs t) = Some r \<and> run_status r = FAILED_GATEWAY \<and>
    find_by ro_id ''a'' (routes t) = Some ro \<and> ro_totalRuns ro = success_sum (\<lambda>_. 1) ''a'' (runs t) + 1"
proof -
  let ?s = "one_run EXECUTING"
  have run: "find_by run_id ''r1'' (runs ?s) = Some (run_of EXECUTING)" "find_by ro_id (run_routeId (run_of EXECUTING)) (routes ?s) = Some route_of"
    by (simp_all add: one_run_def run_of_def route_of_def)
  have "stats_ok ?s" "runIdFromReference ''SRWD_r1'' = Some ''r1''" by code_simp+
  from racing_reversal_miscounts [where env = "\<lambda>s. snd (finalizeRunInTx 0 2000 (run_of EXECUTING) route_of True 1000 SUCCESS None None None None s)",
      OF this run(1) _ run(2) refl, where q = None and reason = None and now' = 3000] show ?thesis
    by (simp add: run_of_def reversal_status_def) blast
qed

end
