(* ===== verification/Canonical_Payload.thy ===== *)
theory Canonical_Payload
  imports Json_Text "HOL-Library.Char_ord" "HOL-Library.List_Lexorder"
begin

text \<open>
  The canonical text of a request payload, \<open>canonical\<close> of \<^verbatim>\<open>middleware/idempotency.js\<close>, and
  the proof that it identifies the payload: two payloads have the same text exactly when they
  are equal up to the order of object members.

  A payload is a parsed JSON value. A number is given by its shortest round-trip text, which is
  what \<open>JSON.stringify\<close> prints and which determines it. Keys are sorted by code units, here
  characters of one unit.
\<close>

datatype payload =
    PNull
  | PBool bool
  | PNum string
  | PStr string
  | PArr "payload list"
  | PObj "(string \<times> payload) list"

definition member_text :: "string \<times> string \<Rightarrow> string" where
  "member_text kv = json_quote (fst kv) @ CHR '':'' # snd kv"

fun canonical :: "payload \<Rightarrow> string" where
  "canonical PNull = ''null''"
| "canonical (PArr vs) = CHR ''['' # join_with (CHR '','') (map canonical vs) @ '']''"
| "canonical (PObj kvs) =
     CHR ''{'' # join_with (CHR '','') (map member_text (sort_key fst (map (\<lambda>(k, v). (k, canonical v)) kvs))) @ ''}''"
| "canonical (PNum t) = t"
| "canonical (PBool b) = (if b then ''true'' else ''false'')"
| "canonical (PStr s) = json_quote s"

section \<open>Members in key order\<close>

fun in_key_order :: "payload \<Rightarrow> payload" where
  "in_key_order (PArr vs) = PArr (map in_key_order vs)"
| "in_key_order (PObj kvs) = PObj (sort_key fst (map (\<lambda>(k, v). (k, in_key_order v)) kvs))"
| "in_key_order v = v"

definition number_char :: "char \<Rightarrow> bool" where
  "number_char c \<longleftrightarrow> is_digit c \<or> c \<in> set ''-+.e''"

definition number_text :: "string \<Rightarrow> bool" where
  "number_text t \<longleftrightarrow> t \<noteq> [] \<and> (is_digit (hd t) \<or> hd t = CHR ''-'') \<and> list_all number_char t"

fun parsed :: "payload \<Rightarrow> bool" where
  "parsed (PNum t) \<longleftrightarrow> number_text t"
| "parsed (PArr vs) \<longleftrightarrow> list_all parsed vs"
| "parsed (PObj kvs) \<longleftrightarrow> distinct (map fst kvs) \<and> list_all (\<lambda>(k, v). parsed v) kvs"
| "parsed v \<longleftrightarrow> True"

text \<open>The text with the members in the order given.\<close>

fun plain :: "payload \<Rightarrow> string" where
  "plain PNull = ''null''"
| "plain (PArr vs) = CHR ''['' # join_with (CHR '','') (map plain vs) @ '']''"
| "plain (PObj kvs) = CHR ''{'' # join_with (CHR '','') (map member_text (map (\<lambda>(k, v). (k, plain v)) kvs)) @ ''}''"
| "plain (PNum t) = t"
| "plain (PBool b) = (if b then ''true'' else ''false'')"
| "plain (PStr s) = json_quote s"

lemma insort_key_map: "(\<And>x. f (g x) = h x) \<Longrightarrow> insort_key f (g x) (map g xs) = map g (insort_key h x xs)"
  by (induction xs) simp_all

lemma sort_key_map: "(\<And>x. f (g x) = h x) \<Longrightarrow> sort_key f (map g xs) = map g (sort_key h xs)"
  by (induction xs) (simp_all add: insort_key_map)

lemma sort_members: "sort_key fst (map (\<lambda>(k, v). (k, f v)) kvs) = map (\<lambda>(k, v). (k, f v)) (sort_key fst kvs)"
  by (rule sort_key_map) (simp split: prod.splits)

lemma canonical_in_order: "canonical v = plain (in_key_order v)"
proof (induction v)
  case (PObj kvs)
  have "map (\<lambda>(k, v). (k, canonical v)) (sort_key fst kvs) =
      map (\<lambda>(k, v). (k, plain v)) (map (\<lambda>(k, v). (k, in_key_order v)) (sort_key fst kvs))"
    using PObj by auto
  then show ?case by (simp add: sort_members del: map_map)
qed (simp_all cong: map_cong)

lemma parsed_in_key_order: "parsed v \<Longrightarrow> parsed (in_key_order v)"
proof (induction v)
  case (PObj kvs)
  have keys: "map fst (map (\<lambda>(k, v). (k, in_key_order v)) kvs) = map fst kvs"
    by (simp add: case_prod_beta)
  have "distinct (map fst (sort_key fst (map (\<lambda>(k, v). (k, in_key_order v)) kvs)))"
    using PObj.prems keys sort_key_map [of "\<lambda>k. k" fst fst "map (\<lambda>(k, v). (k, in_key_order v)) kvs"]
    by (metis distinct_sort parsed.simps(3))
  moreover have "list_all (\<lambda>(k, v). parsed v) (sort_key fst (map (\<lambda>(k, v). (k, in_key_order v)) kvs))"
    using PObj by (auto simp: list_all_iff split: prod.splits)
  ultimately show ?case by simp
qed (auto simp: list_all_iff)

section \<open>The text determines the payload\<close>

definition stops :: "string \<Rightarrow> bool" where
  "stops u \<longleftrightarrow> u = [] \<or> hd u \<in> set '',]}''"

lemma number_stops:
  assumes "number_text t" "number_text t'" "t @ u = t' @ u'" "stops u" "stops u'"
  shows "t = t' \<and> u = u'"
proof -
  have "takeWhile number_char (t @ u) = t" if "number_text t" "stops u" for t u
  proof -
    have "takeWhile number_char u = []"
      using that(2) by (cases u) (auto simp: stops_def number_char_def is_digit_def)
    then show ?thesis using that(1) by (simp add: number_text_def list_all_iff takeWhile_append2)
  qed
  then have "t = t'" using assms by metis
  then show ?thesis using assms(3) by simp
qed

fun items_tail :: "('a \<Rightarrow> string) \<Rightarrow> char \<Rightarrow> string \<Rightarrow> 'a list \<Rightarrow> string" where
  "items_tail p c u [] = c # u"
| "items_tail p c u (x # xs) = CHR '','' # p x @ items_tail p c u xs"

lemma join_with_tail: "join_with (CHR '','') (map p (x # xs)) @ c # u = p x @ items_tail p c u xs"
  by (induction xs arbitrary: x) simp_all

definition closes :: "char \<Rightarrow> bool" where
  "closes c \<longleftrightarrow> c = CHR '']'' \<or> c = CHR ''}''"

lemma stops_tail: "closes c \<Longrightarrow> stops (items_tail p c u xs)"
  by (cases xs) (auto simp: stops_def closes_def)

definition separated :: "('a \<Rightarrow> string) \<Rightarrow> 'a set \<Rightarrow> 'a set \<Rightarrow> bool" where
  "separated p A B \<longleftrightarrow>
     (\<forall>x \<in> A. \<forall>y \<in> B. \<forall>u v. p x @ u = p y @ v \<longrightarrow> stops u \<longrightarrow> stops v \<longrightarrow> x = y \<and> u = v)"

lemma separatedD:
  "separated p A B \<Longrightarrow> x \<in> A \<Longrightarrow> y \<in> B \<Longrightarrow> p x @ u = p y @ v \<Longrightarrow> stops u \<Longrightarrow> stops v \<Longrightarrow> x = y \<and> u = v"
  unfolding separated_def by blast

lemma separated_mono: "separated p A B \<Longrightarrow> A' \<subseteq> A \<Longrightarrow> B' \<subseteq> B \<Longrightarrow> separated p A' B'"
  unfolding separated_def by blast

lemma items_tail_inject:
  assumes "separated p (set xs) (set ys)" and c: "closes c" and "items_tail p c u xs = items_tail p c v ys"
  shows "xs = ys \<and> u = v"
  using assms(1,3)
proof (induction xs arbitrary: ys)
  case Nil
  then show ?case using c by (cases ys) (auto simp: closes_def)
next
  case (Cons x xs)
  show ?case
  proof (cases ys)
    case Nil
    then show ?thesis using Cons.prems c by (auto simp: closes_def)
  next
    case (Cons y ys')
    then have "p x @ items_tail p c u xs = p y @ items_tail p c v ys'" using Cons.prems(2) by simp
    then have "x = y \<and> items_tail p c u xs = items_tail p c v ys'"
      using separatedD [OF Cons.prems(1), of x y] Cons stops_tail [OF c] by (meson list.set_intros(1))
    moreover have "separated p (set xs) (set ys')" using Cons.prems(1) Cons by (auto intro: separated_mono)
    ultimately show ?thesis using Cons.IH Cons by blast
  qed
qed

lemma join_with_delimited:
  assumes sep: "separated p (set xs) (set ys)" and ne: "\<And>x. x \<in> set xs \<union> set ys \<Longrightarrow> \<not> stops (p x)" and c: "closes c"
    and eq: "join_with (CHR '','') (map p xs) @ c # u = join_with (CHR '','') (map p ys) @ c # v"
  shows "xs = ys \<and> u = v"
proof -
  have hd: "p z @ w \<noteq> c # w'" if "z \<in> set xs \<union> set ys" for z w w'
    using ne [OF that] c by (cases "p z") (auto simp: stops_def closes_def)
  show ?thesis
  proof (cases xs)
    case Nil
    show ?thesis
    proof (cases ys)
      case (Cons y ys')
      then have "p y @ items_tail p c v ys' = c # u" using eq Nil by (simp only: join_with_tail) simp
      then show ?thesis using hd [of y] Cons by simp
    qed (use eq Nil in simp)
  next
    case (Cons x xs')
    show ?thesis
    proof (cases ys)
      case Nil
      then have "p x @ items_tail p c u xs' = c # v" using eq Cons by (simp only: join_with_tail) simp
      then show ?thesis using hd [of x] Cons by simp
    next
      case (Cons y ys')
      have "p x @ items_tail p c u xs' = p y @ items_tail p c v ys'"
        using eq \<open>xs = x # xs'\<close> Cons by (simp only: join_with_tail)
      then have "x = y \<and> items_tail p c u xs' = items_tail p c v ys'"
        using separatedD [OF sep, of x y] \<open>xs = x # xs'\<close> Cons stops_tail [OF c] by (meson list.set_intros(1))
      moreover have "separated p (set xs') (set ys')"
        using sep \<open>xs = x # xs'\<close> Cons by (auto intro: separated_mono)
      ultimately show ?thesis using items_tail_inject c \<open>xs = x # xs'\<close> Cons by blast
    qed
  qed
qed

lemma plain_starts: "parsed v \<Longrightarrow> \<not> stops (plain v)"
  by (cases v) (auto simp: stops_def json_quote_def number_text_def is_digit_def)

definition member_plain :: "string \<times> payload \<Rightarrow> string" where
  "member_plain kv = json_quote (fst kv) @ CHR '':'' # plain (snd kv)"

lemma plain_object: "plain (PObj kvs) = CHR ''{'' # join_with (CHR '','') (map member_plain kvs) @ ''}''"
proof -
  have "map member_text (map (\<lambda>(k, v). (k, plain v)) kvs) = map member_plain kvs"
    by (auto simp: member_text_def member_plain_def)
  then show ?thesis by (simp del: map_map)
qed

lemma member_starts: "\<not> stops (member_plain kv)"
  by (simp add: member_plain_def json_quote_def stops_def)

lemma members_separated:
  assumes "\<And>k v b u w. (k, v) \<in> set xs \<Longrightarrow> parsed b \<Longrightarrow> plain v @ u = plain b @ w \<Longrightarrow> stops u \<Longrightarrow> stops w \<Longrightarrow> v = b \<and> u = w"
    and "list_all (\<lambda>(k, v). parsed v) ys"
  shows "separated member_plain (set xs) (set ys)"
  unfolding separated_def
proof (intro ballI allI impI)
  fix x y u w
  assume x: "x \<in> set xs" and y: "y \<in> set ys" and eq: "member_plain x @ u = member_plain y @ w" and st: "stops u" "stops w"
  have "json_quote (fst x) @ CHR '':'' # plain (snd x) @ u = json_quote (fst y) @ CHR '':'' # plain (snd y) @ w"
    using eq by (simp add: member_plain_def)
  then have k: "fst x = fst y" and v: "plain (snd x) @ u = plain (snd y) @ w"
    by (simp_all add: json_quote_prefix_free)
  have "(fst x, snd x) \<in> set xs" using x by simp
  moreover have "parsed (snd y)" using assms(2) y by (auto simp: list_all_iff case_prod_beta)
  ultimately have "snd x = snd y \<and> u = w" using assms(1) v st by blast
  then show "x = y \<and> u = w" using k by (simp add: prod_eq_iff)
qed

text \<open>The first character tells the kind of value.\<close>

fun kind :: "payload \<Rightarrow> nat" where
  "kind PNull = 0" | "kind (PBool _) = 1" | "kind (PNum _) = 2" | "kind (PStr _) = 3" | "kind (PArr _) = 4" | "kind (PObj _) = 5"

definition char_kind :: "char \<Rightarrow> nat" where
  "char_kind c =
     (if c = CHR ''n'' then 0 else if c = CHR ''t'' \<or> c = CHR ''f'' then 1 else if c = CHR 0x22 then 3
      else if c = CHR ''['' then 4 else if c = CHR ''{'' then 5 else 2)"

lemma digit_kind: "is_digit c \<Longrightarrow> char_kind c = 2"
  by (auto simp: char_kind_def is_digit_def)

lemma plain_kind: "parsed v \<Longrightarrow> char_kind (hd (plain v @ u)) = kind v"
proof (cases v)
  case (PNum t)
  then show "parsed v \<Longrightarrow> char_kind (hd (plain v @ u)) = kind v"
    using digit_kind [of "hd t"] by (auto simp: number_text_def char_kind_def)
qed (simp_all add: char_kind_def json_quote_def)

lemma same_kind: "parsed a \<Longrightarrow> parsed b \<Longrightarrow> plain a @ u = plain b @ w \<Longrightarrow> kind a = kind b"
  using plain_kind by metis

lemma plain_inject:
  "parsed a \<Longrightarrow> parsed b \<Longrightarrow> plain a @ u = plain b @ w \<Longrightarrow> stops u \<Longrightarrow> stops w \<Longrightarrow> a = b \<and> u = w"
proof (induction a arbitrary: b u w)
  case PNull
  with same_kind [of PNull b u w] show ?case by (cases b) simp_all
next
  case (PBool x)
  with same_kind [of "PBool x" b u w] show ?case by (cases b) (simp_all split: if_splits)
next
  case (PNum t)
  with same_kind [of "PNum t" b u w] number_stops [of t _ u w] show ?case by (cases b) simp_all
next
  case (PStr s)
  with same_kind [of "PStr s" b u w] show ?case by (cases b) (simp_all add: json_quote_prefix_free)
next
  case (PArr vs)
  obtain ws where b: "b = PArr ws" using same_kind [OF PArr.prems(1-3)] by (cases b) simp_all
  have "separated plain (set vs) (set ws)"
    unfolding separated_def using PArr.IH PArr.prems(1,2) b by (simp add: list_all_iff) blast
  moreover have "join_with (CHR '','') (map plain vs) @ CHR '']'' # u = join_with (CHR '','') (map plain ws) @ CHR '']'' # w"
    using PArr.prems(3) b by simp
  moreover have "\<And>x. x \<in> set vs \<union> set ws \<Longrightarrow> \<not> stops (plain x)"
    using plain_starts PArr.prems(1,2) b by (auto simp: list_all_iff)
  ultimately show ?case using b join_with_delimited [of plain vs ws "CHR '']''" u w] by (simp add: closes_def)
next
  case (PObj kvs)
  obtain kws where b: "b = PObj kws" using same_kind [OF PObj.prems(1-3)] by (cases b) simp_all
  have "separated member_plain (set kvs) (set kws)"
  proof (rule members_separated)
    fix k v b' u' w'
    assume "(k, v) \<in> set kvs" "parsed b'" "plain v @ u' = plain b' @ w'" "stops u'" "stops w'"
    moreover have "parsed v" using PObj.prems(1) \<open>(k, v) \<in> set kvs\<close> by (auto simp: list_all_iff)
    ultimately show "v = b' \<and> u' = w'" using PObj.IH by (metis snds.intros snd_conv)
  qed (use PObj.prems(2) b in simp)
  moreover have "join_with (CHR '','') (map member_plain kvs) @ CHR ''}'' # u =
      join_with (CHR '','') (map member_plain kws) @ CHR ''}'' # w"
    using PObj.prems(3) b by (simp add: plain_object del: plain.simps)
  ultimately show ?case using b join_with_delimited [of member_plain kvs kws "CHR ''}''" u w] member_starts by (simp add: closes_def)
qed

text \<open>C26: The identity of a payload: two parsed payloads have the same canonical text, and so the same
  fingerprint text, exactly when they agree once every object's members are put in key order;
  no difference in a number, a string, a nesting or a key is lost.
\<close>

theorem canonical_identifies_payload:
  assumes "parsed a" and "parsed b"
  shows "canonical a = canonical b \<longleftrightarrow> in_key_order a = in_key_order b"
  using plain_inject [OF parsed_in_key_order [OF assms(1)] parsed_in_key_order [OF assms(2)], of "[]" "[]"]
  by (auto simp: canonical_in_order stops_def)

theorem canonical_identifies_payload_witness:
  "(let a = PObj [(''to'', PStr ''x''), (''amount'', PNum ''50'')]; b = PObj [(''amount'', PStr ''50''), (''to'', PStr ''x'')];
        c = PObj [(''amount'', PNum ''50''), (''to'', PStr ''x'')] in
    parsed a \<and> parsed b \<and> parsed c \<and> canonical a = canonical c \<and> canonical a \<noteq> canonical b)"
proof -
  let ?a = "PObj [(''to'', PStr ''x''), (''amount'', PNum ''50'')]" and ?b = "PObj [(''amount'', PStr ''50''), (''to'', PStr ''x'')]"
    and ?c = "PObj [(''amount'', PNum ''50''), (''to'', PStr ''x'')]"
  have p: "parsed ?a" "parsed ?b" "parsed ?c" by code_simp+
  moreover have "in_key_order ?a = in_key_order ?c" "in_key_order ?a \<noteq> in_key_order ?b" by code_simp+
  ultimately show ?thesis
    using canonical_identifies_payload [OF p(1,3)] canonical_identifies_payload [OF p(1,2)] unfolding Let_def by blast
qed

text \<open>Key order is the only freedom: the members of an object are compared as a map.\<close>

lemma sort_key_unique:
  assumes "distinct (map fst as)" and "distinct (map fst bs)"
  shows "sort_key fst as = sort_key fst bs \<longleftrightarrow> map_of as = map_of bs"
proof -
  have "sort_key fst as = sort_key fst bs" if "set as = set bs"
  proof (rule map_sorted_distinct_set_unique [where f = fst])
    show "inj_on fst (set (sort_key fst as) \<union> set (sort_key fst bs))"
      using that assms(1) by (simp add: distinct_map)
    show "distinct (map fst (sort_key fst as))" "distinct (map fst (sort_key fst bs))"
      using assms sort_key_map [of "\<lambda>k. k" fst fst] by (metis distinct_sort)+
  qed (use that in simp_all)
  moreover have "set as = set bs" if "sort_key fst as = sort_key fst bs" using that by (metis set_sort)
  ultimately show ?thesis using map_of_inject_set [OF assms] by blast
qed

lemma in_key_order_object:
  assumes "distinct (map fst xs)" and "distinct (map fst ys)"
  shows "in_key_order (PObj xs) = in_key_order (PObj ys) \<longleftrightarrow>
    (\<forall>k. map_option in_key_order (map_of xs k) = map_option in_key_order (map_of ys k))"
proof -
  let ?n = "map (\<lambda>(k, v). (k, in_key_order v))"
  have "distinct (map fst (?n xs))" "distinct (map fst (?n ys))"
    using assms by (simp_all add: comp_def case_prod_beta)
  from sort_key_unique [OF this] show ?thesis by (auto simp: map_of_map fun_eq_iff)
qed

end
