(* ===== verification/Financial_Idempotency.thy ===== *)
theory Financial_Idempotency
  imports Canonical_Payload Js_Text Conditional_Claim
begin

text \<open>
  The financial idempotency authority, \<^verbatim>\<open>middleware/idempotency.js\<close>: the unique claim row a
  request inserts before its handler runs, the answers to duplicates, the disposition of the
  claim when the handler responds, and the commit of the claim inside an economic transaction.

  The digest is the parameter \<open>sha256\<close>. A response body is its wire text, \<open>None\<close> for
  \<open>undefined\<close>. Database failures are arguments of the calls they can hit. Between the refused
  insert and the read of the conflicting row other requests may run (\<open>env\<close>).
\<close>

section \<open>Requests and claim rows\<close>

datatype op_status = IN_PROGRESS | COMMITTED

datatype failure_policy = RETAIN | RELEASE

record fin_op =
  fo_id :: string
  fo_userId :: int
  fo_endpoint :: string
  fo_key :: string
  fo_status :: op_status
  fo_fingerprint :: string
  fo_failurePolicy :: failure_policy
  fo_statusCode :: "int option"
  fo_responseBody :: "string option"

type_synonym op_identity = "int \<times> string \<times> string"

definition identity_of :: "fin_op \<Rightarrow> op_identity" where
  "identity_of r = (fo_userId r, fo_endpoint r, fo_key r)"

record http_request =
  rq_method :: string
  rq_baseUrl :: "string option"
  rq_routePath :: "string option"
  rq_path :: string
  rq_params :: payload
  rq_body :: payload
  rq_key :: "string option"
  rq_userId :: "int option"

definition endpointOf :: "http_request \<Rightarrow> string" where
  "endpointOf req =
     rq_method req @ '' '' @ or_empty (rq_baseUrl req) @
     (case or_null (rq_routePath req) of Some p \<Rightarrow> p | None \<Rightarrow> rq_path req)"

definition fingerprintOf :: "(string \<Rightarrow> string) \<Rightarrow> http_request \<Rightarrow> string" where
  "fingerprintOf sha256 req = sha256 (canonical (PObj [(''params'', rq_params req), (''body'', rq_body req)]))"

record db_error =
  err_code :: "string option"
  err_message :: "string option"

definition isUniqueViolation :: "db_error \<Rightarrow> bool" where
  "isUniqueViolation err \<longleftrightarrow>
     err_code err = Some ''P2002'' \<or> contains_text ''unique constraint'' (js_lower (or_empty (err_message err)))"

record options =
  op_failurePolicy :: "failure_policy option"
  op_required :: "bool option"
  op_releaseOn4xx :: "bool option"
  op_identity :: "string option"

definition failurePolicy_of :: "options \<Rightarrow> failure_policy" where
  "failurePolicy_of o' = (if op_failurePolicy o' = Some RELEASE then RELEASE else RETAIN)"

definition required_of :: "options \<Rightarrow> bool" where
  "required_of o' \<longleftrightarrow> op_required o' \<noteq> Some False"

definition releaseOn4xx_of :: "options \<Rightarrow> bool" where
  "releaseOn4xx_of o' \<longleftrightarrow> op_releaseOn4xx o' = Some True"

definition endpoint_for :: "options \<Rightarrow> http_request \<Rightarrow> string" where
  "endpoint_for o' req =
     (case or_null (map_option js_trim (op_identity o')) of Some i \<Rightarrow> i | None \<Rightarrow> endpointOf req)"

section \<open>The claim\<close>

datatype answer =
    KEY_REQUIRED
  | CONTEXT_MISSING
  | UNAVAILABLE
  | RACED_RELEASE
  | PAYLOAD_CONFLICT
  | IN_FLIGHT string
  | Replay "int option" "string option"
  | Unprotected
  | Proceed fin_op

text \<open>The HTTP status of an answer; \<open>None\<close> when the handler runs.\<close>

fun answer_status :: "answer \<Rightarrow> int option" where
  "answer_status KEY_REQUIRED = Some 400"
| "answer_status CONTEXT_MISSING = Some 401"
| "answer_status UNAVAILABLE = Some 503"
| "answer_status RACED_RELEASE = Some 503"
| "answer_status PAYLOAD_CONFLICT = Some 409"
| "answer_status (IN_FLIGHT _) = Some 409"
| "answer_status (Replay c _) = c"
| "answer_status Unprotected = None"
| "answer_status (Proceed _) = None"

definition answer_existing :: "string \<Rightarrow> db_error option \<Rightarrow> op_identity \<Rightarrow> fin_op list \<Rightarrow> answer" where
  "answer_existing fingerprint readFault ident ops =
     (case readFault of
        Some _ \<Rightarrow> UNAVAILABLE
      | None \<Rightarrow>
     (case find_by identity_of ident ops of
        None \<Rightarrow> RACED_RELEASE
      | Some existing \<Rightarrow>
          (case fo_status existing of
             COMMITTED \<Rightarrow>
               (if fo_fingerprint existing \<noteq> fingerprint then PAYLOAD_CONFLICT
                else Replay (fo_statusCode existing) (fo_responseBody existing))
           | IN_PROGRESS \<Rightarrow> IN_FLIGHT (fo_id existing))))"

definition new_claim :: "string \<Rightarrow> op_identity \<Rightarrow> string \<Rightarrow> failure_policy \<Rightarrow> fin_op" where
  "new_claim newId ident fingerprint policy =
     \<lparr>fo_id = newId, fo_userId = fst ident, fo_endpoint = fst (snd ident), fo_key = snd (snd ident), fo_status = IN_PROGRESS,
      fo_fingerprint = fingerprint, fo_failurePolicy = policy, fo_statusCode = None, fo_responseBody = None\<rparr>"

definition idempotency ::
  "(string \<Rightarrow> string) \<Rightarrow> options \<Rightarrow> bool \<Rightarrow> http_request \<Rightarrow> string \<Rightarrow> db_error option \<Rightarrow> db_error option \<Rightarrow>
   (fin_op list \<Rightarrow> fin_op list) \<Rightarrow> fin_op list \<Rightarrow> answer \<times> fin_op list" where
  "idempotency sha256 o' hasModel req newId createFault readFault env ops =
     (case or_null (rq_key req) of
        None \<Rightarrow> (if required_of o' then KEY_REQUIRED else Unprotected, ops)
      | Some key \<Rightarrow>
     (case rq_userId req of
        None \<Rightarrow> (CONTEXT_MISSING, ops)
      | Some userId \<Rightarrow>
          if userId = 0 then (CONTEXT_MISSING, ops)
          else if \<not> hasModel then (UNAVAILABLE, ops)
          else
            let ident = (userId, endpoint_for o' req, key);
                fingerprint = fingerprintOf sha256 req;
                refused = (let ops1 = env ops in (answer_existing fingerprint readFault ident ops1, ops1)) in
            (case createFault of
               Some err \<Rightarrow> if isUniqueViolation err then refused else (UNAVAILABLE, ops)
             | None \<Rightarrow>
                 if find_by identity_of ident ops \<noteq> None then refused
                 else
                   let claim = new_claim newId ident fingerprint (failurePolicy_of o') in
                   (Proceed claim, ops @ [claim]))))"

section \<open>Disposition and commit\<close>

definition in_progress :: "fin_op \<Rightarrow> bool" where
  "in_progress r \<longleftrightarrow> fo_status r = IN_PROGRESS"

definition releaseClaim :: "string \<Rightarrow> fin_op list \<Rightarrow> fin_op list" where
  "releaseClaim i ops = filter (\<lambda>r. \<not> (fo_id r = i \<and> in_progress r)) ops"

definition commit_row :: "int \<Rightarrow> string option \<Rightarrow> fin_op \<Rightarrow> fin_op" where
  "commit_row code body r = r\<lparr>fo_status := COMMITTED, fo_statusCode := Some code, fo_responseBody := body\<rparr>"

definition releases :: "bool \<Rightarrow> bool \<Rightarrow> failure_policy \<Rightarrow> int \<Rightarrow> bool" where
  "releases releaseOn4xx marked policy code \<longleftrightarrow>
     (400 \<le> code \<and> code < 500 \<and> (marked \<or> releaseOn4xx)) \<or> (500 \<le> code \<and> policy = RELEASE)"

text \<open>
  \<open>res.json\<close> as the authority installs it: \<open>marked\<close> is \<open>res.locals.financialClaimRelease\<close>, \<open>lost\<close>
  says that the bookkeeping statement failed, which is logged and changes nothing.
\<close>

definition respond :: "bool \<Rightarrow> bool \<Rightarrow> failure_policy \<Rightarrow> bool \<Rightarrow> int \<Rightarrow> string option \<Rightarrow> string \<Rightarrow> fin_op list \<Rightarrow> fin_op list" where
  "respond releaseOn4xx marked policy lost code body i ops =
     (if lost then ops
      else if releases releaseOn4xx marked policy code then releaseClaim i ops
      else if 200 \<le> code \<and> code < 300 then claim_rows fo_id in_progress (commit_row code body) i ops
      else ops)"

datatype commit_error = IDEMPOTENCY_STATE_CONFLICT

definition commitOperation ::
  "string option \<Rightarrow> int \<Rightarrow> string option \<Rightarrow> fin_op list \<Rightarrow> (commit_error, unit, fin_op list) outcome" where
  "commitOperation operation code body ops =
     (case operation of
        None \<Rightarrow> (Inr (), ops)
      | Some i \<Rightarrow>
          (if claims fo_id in_progress i ops \<noteq> 1 then (Inl IDEMPOTENCY_STATE_CONFLICT, ops)
           else (Inr (), claim_rows fo_id in_progress (commit_row code body) i ops)))"

interpretation commit_claim: conditional_claim fo_id in_progress "commit_row code body"
  by unfold_locales (simp_all add: commit_row_def in_progress_def)

section \<open>Requests, handlers and crashes as steps\<close>

text \<open>
  A running handler owns the claim \<open>h_op\<close>. A wired handler commits its claim inside its economic
  transaction; another one moves money and leaves the claim to the response.
\<close>

record handler =
  h_op :: string
  h_ident :: op_identity
  h_wired :: bool
  h_releaseOn4xx :: bool
  h_policy :: failure_policy
  h_moved :: bool

record authority =
  au_ops :: "fin_op list"
  au_running :: "handler list"
  au_moved :: "op_identity list"

definition start_handler :: "options \<Rightarrow> bool \<Rightarrow> fin_op \<Rightarrow> handler" where
  "start_handler o' wired claim =
     \<lparr>h_op = fo_id claim, h_ident = identity_of claim, h_wired = wired, h_releaseOn4xx = releaseOn4xx_of o',
      h_policy = failurePolicy_of o', h_moved = False\<rparr>"

definition mark_moved :: "handler \<Rightarrow> authority \<Rightarrow> authority" where
  "mark_moved h s =
     s\<lparr>au_running := update_by (\<lambda>x. h_op x = h_op h) (\<lambda>x. x\<lparr>h_moved := True\<rparr>) (au_running s),
       au_moved := h_ident h # au_moved s\<rparr>"

definition leave :: "handler \<Rightarrow> authority \<Rightarrow> authority" where
  "leave h s = s\<lparr>au_running := filter (\<lambda>x. h_op x \<noteq> h_op h) (au_running s)\<rparr>"

text \<open>
  In \<open>finish\<close> an unwired handler that moved money does not ask for a release, the contract the
  authority states for its routes; a wired handler may respond anything.
\<close>

inductive step :: "(string \<Rightarrow> string) \<Rightarrow> authority \<Rightarrow> authority \<Rightarrow> bool" for sha256 where
  enter: "idempotency sha256 o' hasModel req newId createFault readFault env (au_ops s) = (Proceed claim, ops') \<Longrightarrow>
     newId \<notin> fo_id ` set (au_ops s) \<Longrightarrow>
     step sha256 s (s\<lparr>au_ops := ops', au_running := au_running s @ [start_handler o' wired claim]\<rparr>)"
| move: "h \<in> set (au_running s) \<Longrightarrow> \<not> h_wired h \<Longrightarrow> \<not> h_moved h \<Longrightarrow> step sha256 s (mark_moved h s)"
| move_wired: "h \<in> set (au_running s) \<Longrightarrow> h_wired h \<Longrightarrow>
     commitOperation (Some (h_op h)) code body (au_ops s) = (Inr (), ops') \<Longrightarrow>
     step sha256 s (mark_moved h (s\<lparr>au_ops := ops'\<rparr>))"
| finish: "h \<in> set (au_running s) \<Longrightarrow>
     h_wired h \<or> \<not> h_moved h \<or> \<not> releases (h_releaseOn4xx h) marked (h_policy h) code \<Longrightarrow>
     step sha256 s (leave h (s\<lparr>au_ops := respond (h_releaseOn4xx h) marked (h_policy h) lost code body (h_op h) (au_ops s)\<rparr>))"
| crash: "h \<in> set (au_running s) \<Longrightarrow> step sha256 s (leave h s)"

definition ops_ok :: "fin_op list \<Rightarrow> bool" where
  "ops_ok ops \<longleftrightarrow> distinct (map fo_id ops) \<and> distinct (map identity_of ops)"

definition handler_ok :: "authority \<Rightarrow> handler \<Rightarrow> bool" where
  "handler_ok s h \<longleftrightarrow>
     (\<exists>r \<in> set (au_ops s). fo_id r = h_op h \<and> identity_of r = h_ident h \<and>
        (h_wired h \<and> h_moved h \<longrightarrow> fo_status r = COMMITTED)) \<and>
     (\<not> h_moved h \<longrightarrow> h_ident h \<notin> set (au_moved s))"

definition authority_ok :: "authority \<Rightarrow> bool" where
  "authority_ok s \<longleftrightarrow>
     ops_ok (au_ops s) \<and> distinct (map h_op (au_running s)) \<and> (\<forall>h \<in> set (au_running s). handler_ok s h) \<and>
     distinct (au_moved s) \<and> set (au_moved s) \<subseteq> identity_of ` set (au_ops s)"

lemma commit_row_identity [simp]:
  "identity_of (commit_row code body r) = identity_of r" "fo_id (commit_row code body r) = fo_id r"
  "fo_status (commit_row code body r) = COMMITTED"
  by (simp_all add: commit_row_def identity_of_def)

lemma commit_identities [simp]: "map identity_of (claim_rows fo_id in_progress (commit_row code body) i ops) = map identity_of ops"
  by (simp add: claim_rows_def)

lemma ops_ok_commit [simp]: "ops_ok (claim_rows fo_id in_progress (commit_row code body) i ops) \<longleftrightarrow> ops_ok ops"
  by (simp add: ops_ok_def commit_claim.claim_keys)

lemma distinct_map_filter_rows: "distinct (map f xs) \<Longrightarrow> distinct (map f (filter P xs))"
  by (induction xs) auto

lemma ops_ok_respond: "ops_ok ops \<Longrightarrow> ops_ok (respond rel m p lost code body i ops)"
  by (simp add: respond_def releaseClaim_def) (simp add: ops_ok_def distinct_map_filter_rows)

lemma claimed_fresh:
  assumes "idempotency sha256 o' hasModel req newId createFault readFault env ops = (Proceed claim, ops')"
  shows "ops' = ops @ [claim] \<and> fo_id claim = newId \<and> identity_of claim \<notin> identity_of ` set ops \<and> in_progress claim"
  using assms
  by (auto simp: idempotency_def answer_existing_def Let_def new_claim_def identity_of_def in_progress_def find_by_None
      split: option.splits if_splits op_status.splits)

lemma same_operation:
  assumes "authority_ok s" and "h \<in> set (au_running s)" and "k \<in> set (au_running s)" and "h_ident h = h_ident k"
  shows "h_op h = h_op k"
proof -
  obtain r r' where "r \<in> set (au_ops s)" "fo_id r = h_op h" "identity_of r = h_ident h"
    "r' \<in> set (au_ops s)" "fo_id r' = h_op k" "identity_of r' = h_ident k"
    using assms(1-3) unfolding authority_ok_def handler_ok_def by blast
  moreover have "inj_on identity_of (set (au_ops s))" using assms(1) by (simp add: authority_ok_def ops_ok_def distinct_map)
  ultimately show ?thesis using assms(4) by (metis inj_onD)
qed

lemma enter_ok:
  assumes ok: "authority_ok s"
    and run: "idempotency sha256 o' hasModel req newId createFault readFault env (au_ops s) = (Proceed claim, ops')"
    and fresh: "newId \<notin> fo_id ` set (au_ops s)"
  shows "authority_ok (s\<lparr>au_ops := ops', au_running := au_running s @ [start_handler o' wired claim]\<rparr>)"
proof -
  note c = claimed_fresh [OF run]
  have "h_op h \<in> fo_id ` set (au_ops s)" if "h \<in> set (au_running s)" for h
    using ok that unfolding authority_ok_def handler_ok_def by (metis imageI)
  then have "newId \<notin> h_op ` set (au_running s)" using fresh by blast
  then show ?thesis
    using ok c fresh by (auto simp: authority_ok_def ops_ok_def handler_ok_def start_handler_def)
qed

text \<open>Removing the handler, and with it possibly its claim row.\<close>

lemma leave_ok:
  assumes ok: "authority_ok s" and h: "h \<in> set (au_running s)" and ops: "ops_ok ops"
    and keeps: "\<And>r. r \<in> set (au_ops s) \<Longrightarrow> fo_id r \<noteq> h_op h \<Longrightarrow> r \<in> set ops"
    and moved: "h_ident h \<in> set (au_moved s) \<Longrightarrow> h_ident h \<in> identity_of ` set ops"
  shows "authority_ok (leave h (s\<lparr>au_ops := ops\<rparr>))"
proof -
  obtain r where r: "r \<in> set (au_ops s)" "fo_id r = h_op h" "identity_of r = h_ident h"
    using ok h unfolding authority_ok_def handler_ok_def by blast
  have "set (au_moved s) \<subseteq> identity_of ` set ops"
  proof
    fix m
    assume m: "m \<in> set (au_moved s)"
    then obtain q where q: "q \<in> set (au_ops s)" "identity_of q = m" using ok by (auto simp: authority_ok_def)
    show "m \<in> identity_of ` set ops"
    proof (cases "fo_id q = h_op h")
      case True
      then have "q = r" using ok q r by (auto simp: authority_ok_def ops_ok_def distinct_map inj_on_def)
      then show ?thesis using moved q r m by simp
    qed (use keeps q in blast)
  qed
  moreover have "handler_ok (leave h (s\<lparr>au_ops := ops\<rparr>)) k" if "k \<in> set (au_running s)" "h_op k \<noteq> h_op h" for k
    using ok that keeps unfolding authority_ok_def handler_ok_def leave_def by (simp, metis)
  ultimately show ?thesis
    using ok ops by (auto simp: authority_ok_def leave_def distinct_map_filter_rows)
qed

lemma respond_keeps: "r \<in> set ops \<Longrightarrow> fo_id r \<noteq> i \<Longrightarrow> r \<in> set (respond rel m p lost code body i ops)"
  by (auto simp: respond_def releaseClaim_def claim_rows_def set_update_by)

lemma respond_no_release:
  "\<not> releases rel m p code \<Longrightarrow> map identity_of (respond rel m p lost code body i ops) = map identity_of ops"
  by (simp add: respond_def)

lemma respond_committed: "r \<in> set ops \<Longrightarrow> fo_status r = COMMITTED \<Longrightarrow> r \<in> set (respond rel m p lost code body i ops)"
  by (auto simp: respond_def releaseClaim_def claim_rows_def set_update_by in_progress_def)

lemma mark_moved_ok:
  assumes ok: "authority_ok s" and h: "h \<in> set (au_running s)" and new: "h_ident h \<notin> set (au_moved s)"
    and row: "h_wired h \<Longrightarrow> \<exists>r \<in> set (au_ops s). fo_id r = h_op h \<and> fo_status r = COMMITTED"
  shows "authority_ok (mark_moved h s)"
proof -
  have "handler_ok (mark_moved h s) (k\<lparr>h_moved := True\<rparr>)" if "k \<in> set (au_running s)" "h_op k = h_op h" for k
  proof -
    have k: "k = h" using ok h that by (auto simp: authority_ok_def distinct_map inj_on_def)
    obtain r where r: "r \<in> set (au_ops s)" "fo_id r = h_op h" "identity_of r = h_ident h"
      using ok h unfolding authority_ok_def handler_ok_def by blast
    have "h_wired h \<Longrightarrow> fo_status r = COMMITTED"
      using row ok r by (auto simp: authority_ok_def ops_ok_def distinct_map inj_on_def)
    then show ?thesis using r k by (auto simp: handler_ok_def mark_moved_def)
  qed
  moreover have "handler_ok (mark_moved h s) k" if "k \<in> set (au_running s)" "h_op k \<noteq> h_op h" for k
    using ok that same_operation [OF ok h that(1)] unfolding authority_ok_def handler_ok_def mark_moved_def by auto
  moreover have "h_ident h \<in> identity_of ` set (au_ops s)"
    using ok h unfolding authority_ok_def handler_ok_def by (metis imageI)
  ultimately show ?thesis
    using ok new by (auto simp: authority_ok_def mark_moved_def set_update_by)
qed

lemma handler_row:
  assumes ok: "authority_ok s" and "h \<in> set (au_running s)" and r: "r \<in> set (au_ops s)" "fo_id r = h_op h"
  shows "identity_of r = h_ident h" and "h_wired h \<Longrightarrow> h_moved h \<Longrightarrow> fo_status r = COMMITTED"
proof -
  obtain r' where r': "r' \<in> set (au_ops s)" "fo_id r' = h_op h" "identity_of r' = h_ident h"
    "h_wired h \<and> h_moved h \<longrightarrow> fo_status r' = COMMITTED"
    using assms(1,2) unfolding authority_ok_def handler_ok_def by blast
  have "inj_on fo_id (set (au_ops s))" using ok by (simp add: authority_ok_def ops_ok_def distinct_map)
  then have "r = r'" using r r'(1,2) by (metis inj_onD)
  then show "identity_of r = h_ident h" "h_wired h \<Longrightarrow> h_moved h \<Longrightarrow> fo_status r = COMMITTED" using r' by simp_all
qed

lemma finish_ok:
  assumes ok: "authority_ok s" and h: "h \<in> set (au_running s)"
    and contract: "h_wired h \<or> \<not> h_moved h \<or> \<not> releases (h_releaseOn4xx h) marked (h_policy h) code"
  shows "authority_ok (leave h (s\<lparr>au_ops := respond (h_releaseOn4xx h) marked (h_policy h) lost code body (h_op h) (au_ops s)\<rparr>))"
    (is "authority_ok (leave h (s\<lparr>au_ops := ?ops\<rparr>))")
proof (rule leave_ok [OF ok h])
  show "ops_ok ?ops" using ok by (simp add: authority_ok_def ops_ok_respond)
  assume m: "h_ident h \<in> set (au_moved s)"
  obtain r where r: "r \<in> set (au_ops s)" "identity_of r = h_ident h" "h_wired h \<and> h_moved h \<longrightarrow> fo_status r = COMMITTED"
    and "\<not> h_moved h \<longrightarrow> h_ident h \<notin> set (au_moved s)"
    using ok h unfolding authority_ok_def handler_ok_def by blast
  then have "h_moved h" using m by blast
  show "h_ident h \<in> identity_of ` set ?ops"
  proof (cases "h_wired h")
    case True
    then show ?thesis using r \<open>h_moved h\<close> respond_committed by (metis image_eqI)
  next
    case False
    then have "\<not> releases (h_releaseOn4xx h) marked (h_policy h) code" using contract \<open>h_moved h\<close> by blast
    from respond_no_release [OF this, of lost body "h_op h" "au_ops s"]
    have "identity_of ` set ?ops = identity_of ` set (au_ops s)" by (simp only: list.set_map [symmetric])
    then show ?thesis using r(1,2) by (metis imageI)
  qed
qed (rule respond_keeps)

lemma move_wired_ok:
  assumes ok: "authority_ok s" and h: "h \<in> set (au_running s)" and w: "h_wired h"
    and c: "commitOperation (Some (h_op h)) code body (au_ops s) = (Inr (), ops')"
  shows "authority_ok (mark_moved h (s\<lparr>au_ops := ops'\<rparr>))"
proof (rule mark_moved_ok)
  have n: "claims fo_id in_progress (h_op h) (au_ops s) = 1"
    and ops': "ops' = claim_rows fo_id in_progress (commit_row code body) (h_op h) (au_ops s)"
    using c by (auto simp: commitOperation_def split: if_splits)
  have d: "distinct (map fo_id (au_ops s))" using ok by (simp add: authority_ok_def ops_ok_def)
  obtain r where f: "find_by fo_id (h_op h) (au_ops s) = Some r" and g: "in_progress r"
    using n commit_claim.claims_iff [OF d, of "h_op h"] by auto
  have r: "r \<in> set (au_ops s)" "fo_id r = h_op h" using find_by_Some [OF f] by simp_all
  then have "identity_of r = h_ident h" and "\<not> h_moved h"
    using handler_row [OF ok h r] w g by (auto simp: in_progress_def)
  then show "h_ident h \<notin> set (au_moved (s\<lparr>au_ops := ops'\<rparr>))" using ok h by (simp add: authority_ok_def handler_ok_def)
  show "\<exists>r \<in> set (au_ops (s\<lparr>au_ops := ops'\<rparr>)). fo_id r = h_op h \<and> fo_status r = COMMITTED"
    using r g by (auto simp: ops' claim_rows_def set_update_by intro!: bexI [of _ "commit_row code body r"])
  have "\<exists>r' \<in> set ops'. fo_id r' = fo_id x \<and> identity_of r' = identity_of x \<and> (fo_status x = COMMITTED \<longrightarrow> fo_status r' = COMMITTED)"
    if "x \<in> set (au_ops s)" for x
  proof -
    let ?x = "if fo_id x = h_op h \<and> in_progress x then commit_row code body x else x"
    have "?x \<in> set ops'" unfolding ops' claim_rows_def set_update_by using that by (rule imageI)
    then show ?thesis by (rule bexI [rotated]) simp
  qed
  then have "handler_ok (s\<lparr>au_ops := ops'\<rparr>) k" if "k \<in> set (au_running s)" for k
    using ok that unfolding authority_ok_def handler_ok_def by (simp, metis)
  moreover have "identity_of ` set ops' = identity_of ` set (au_ops s)" using commit_identities ops' by (metis list.set_map)
  ultimately show "authority_ok (s\<lparr>au_ops := ops'\<rparr>)" using ok ops' by (simp add: authority_ok_def)
qed (simp add: h)

lemma step_ok: "step sha256 s t \<Longrightarrow> authority_ok s \<Longrightarrow> authority_ok t"
proof (induction rule: step.induct)
  case (move h s)
  then have "h_ident h \<notin> set (au_moved s)" by (simp add: authority_ok_def handler_ok_def)
  then show ?case using move mark_moved_ok by blast
next
  case (crash h s)
  have "authority_ok (leave h (s\<lparr>au_ops := au_ops s\<rparr>))"
    by (rule leave_ok [OF crash.prems crash.hyps]) (use crash.prems in \<open>auto simp: authority_ok_def\<close>)
  then show ?case by simp
qed (blast intro: enter_ok finish_ok move_wired_ok)+

definition idle :: authority where
  "idle = \<lparr>au_ops = [], au_running = [], au_moved = []\<rparr>"

lemma steps_ok: "(step sha256)\<^sup>*\<^sup>* s t \<Longrightarrow> authority_ok s \<Longrightarrow> authority_ok t"
  by (induction rule: rtranclp_induct) (auto intro: step_ok)

lemma idle_ok: "authority_ok idle"
  by (simp add: authority_ok_def idle_def ops_ok_def)

text \<open>A committed row is never written or deleted again.\<close>

lemma step_keeps_committed:
  "step sha256 s t \<Longrightarrow> r \<in> set (au_ops s) \<Longrightarrow> fo_status r = COMMITTED \<Longrightarrow> r \<in> set (au_ops t)"
proof (induction rule: step.induct)
  case (move_wired h s code body ops')
  then show ?case
    by (auto simp: mark_moved_def commitOperation_def claim_rows_def set_update_by in_progress_def split: if_splits)
qed (auto simp: mark_moved_def leave_def respond_committed dest: claimed_fresh)

lemma steps_keep_committed:
  "(step sha256)\<^sup>*\<^sup>* s t \<Longrightarrow> r \<in> set (au_ops s) \<Longrightarrow> fo_status r = COMMITTED \<Longrightarrow> r \<in> set (au_ops t)"
  by (induction rule: rtranclp_induct) (auto intro: step_keeps_committed)

section \<open>Guarantees\<close>

text \<open>C6: Exactly one operation: however requests, duplicates, retries, crashes, lost bookkeeping and
  database failures interleave, money moves at most once for a user, endpoint and key; and
  after it moved, no later request with that identity reaches a handler, whatever its payload
  and whatever failures it meets. The handlers keep the contract of the authority: one that moved
  money without committing its claim does not ask for a release.
\<close>

theorem money_moves_once:
  assumes "(step sha256)\<^sup>*\<^sup>* idle s"
  shows "distinct (au_moved s) \<and>
    (\<forall>o' hasModel req newId createFault readFault claim ops'. \<forall>ident \<in> set (au_moved s).
       idempotency sha256 o' hasModel req newId createFault readFault id (au_ops s) = (Proceed claim, ops') \<longrightarrow>
       identity_of claim \<noteq> ident)"
proof -
  have ok: "authority_ok s" using steps_ok [OF assms idle_ok] .
  then show ?thesis
    unfolding authority_ok_def by (metis (no_types, lifting) claimed_fresh subsetD)
qed

text \<open>C24: A committed operation is answered for ever: over any further steps, a request with its
  identity is answered without executing, with the stored status and body when its fingerprint
  is the stored one and with a payload conflict otherwise; and the claims table is unchanged.
\<close>

theorem committed_response_replays:
  assumes ok: "authority_ok s" and steps: "(step sha256)\<^sup>*\<^sup>* s t"
    and r: "r \<in> set (au_ops s)" "fo_status r = COMMITTED"
    and req: "rq_userId req = Some (fo_userId r)" "fo_userId r \<noteq> 0" "rq_key req = Some (fo_key r)" "fo_key r \<noteq> []"
      "endpoint_for o' req = fo_endpoint r"
  shows "idempotency sha256 o' True req newId None None id (au_ops t) =
    (if fingerprintOf sha256 req = fo_fingerprint r then Replay (fo_statusCode r) (fo_responseBody r) else PAYLOAD_CONFLICT,
     au_ops t)"
proof -
  have "r \<in> set (au_ops t)" using steps_keep_committed [OF steps r] .
  moreover have "distinct (map identity_of (au_ops t))" using steps_ok [OF steps ok] by (simp add: authority_ok_def ops_ok_def)
  ultimately have "find_by identity_of (identity_of r) (au_ops t) = Some r" by (simp add: find_by_distinct)
  then show ?thesis
    using req r(2) by (simp add: idempotency_def answer_existing_def or_null_def identity_of_def Let_def)
qed

definition sample_options :: options where
  "sample_options = \<lparr>op_failurePolicy = None, op_required = None, op_releaseOn4xx = Some True, op_identity = None\<rparr>"

definition sample_request :: http_request where
  "sample_request = \<lparr>rq_method = ''POST'', rq_baseUrl = Some ''/api'', rq_routePath = Some ''/convert'', rq_path = ''/convert'',
     rq_params = PObj [], rq_body = PObj [(''amount'', PStr ''50'')], rq_key = Some ''k1'', rq_userId = Some 7\<rparr>"

definition sample_claim :: fin_op where
  "sample_claim = new_claim ''o1'' (7, ''POST /api/convert'', ''k1'') (fingerprintOf id sample_request) RETAIN"

definition sample_moved :: authority where
  "sample_moved = \<lparr>au_ops = [commit_row 200 (Some ''ok'') sample_claim],
     au_running = [(start_handler sample_options True sample_claim)\<lparr>h_moved := True\<rparr>], au_moved = [identity_of sample_claim]\<rparr>"

lemma wired_run: "(step id)\<^sup>*\<^sup>* idle sample_moved"
proof -
  let ?h = "start_handler sample_options True sample_claim"
  let ?s1 = "idle\<lparr>au_ops := [sample_claim], au_running := au_running idle @ [?h]\<rparr>"
  have "idempotency id sample_options True sample_request ''o1'' None None id (au_ops idle) = (Proceed sample_claim, [sample_claim])"
    by code_simp
  then have "step id idle ?s1" by (rule step.enter) (simp add: idle_def)
  moreover have "commitOperation (Some (h_op ?h)) 200 (Some ''ok'') (au_ops ?s1) = (Inr (), [commit_row 200 (Some ''ok'') sample_claim])"
    by code_simp
  then have "step id ?s1 (mark_moved ?h (?s1\<lparr>au_ops := [commit_row 200 (Some ''ok'') sample_claim]\<rparr>))"
    by (intro step.move_wired) (simp_all add: idle_def start_handler_def)
  moreover have "mark_moved ?h (?s1\<lparr>au_ops := [commit_row 200 (Some ''ok'') sample_claim]\<rparr>) = sample_moved"
    by (simp add: mark_moved_def sample_moved_def idle_def start_handler_def)
  ultimately show ?thesis by (metis rtranclp.simps)
qed

theorem money_moves_once_witness:
  "(step id)\<^sup>*\<^sup>* idle sample_moved \<and> distinct (au_moved sample_moved) \<and> au_moved sample_moved \<noteq> []"
  using money_moves_once [OF wired_run] wired_run by (simp add: sample_moved_def)

theorem committed_response_replays_witness:
  "authority_ok sample_moved \<and> (step id)\<^sup>*\<^sup>* sample_moved sample_moved \<and>
   idempotency id sample_options True sample_request ''o2'' None None id (au_ops sample_moved) =
     (Replay (Some 200) (Some ''ok''), au_ops sample_moved)"
proof -
  have ok: "authority_ok sample_moved" using steps_ok [OF wired_run idle_ok] .
  have "commit_row 200 (Some ''ok'') sample_claim \<in> set (au_ops sample_moved)" by (simp add: sample_moved_def)
  moreover have "endpoint_for sample_options sample_request = fo_endpoint (commit_row 200 (Some ''ok'') sample_claim)" by code_simp
  ultimately show ?thesis
    using committed_response_replays [OF ok rtranclp.rtrancl_refl, of "commit_row 200 (Some ''ok'') sample_claim"
        sample_request sample_options id "''o2''"] ok
    by (simp add: sample_request_def sample_claim_def new_claim_def commit_row_def)
qed

end
