(* ===== verification/Ledger_Accept.thy ===== *)
theory Ledger_Accept
  imports Ledger_Run
begin

text \<open>
  When the ledger accepts a posting. Every account row a posting creates carries the class, side,
  asset and network its code is classified with, so no later posting meets an identity conflict; a
  transfer of a positive quantity between two accounts of one asset, under an unused key and without
  a lost race, is then always booked.
\<close>

definition accounts_classified :: "ledger \<Rightarrow> bool" where
  "accounts_classified L \<longleftrightarrow> distinct (map ar_code (accounts L)) \<and> (\<forall>row \<in> set (accounts L). account_ok (ar_code row) L)"

lemma empty_classified [simp]: "accounts_classified empty_ledger"
  by (simp add: accounts_classified_def empty_ledger_def)

lemma accounts_classified_cong: "accounts L' = accounts L \<Longrightarrow> accounts_classified L' = accounts_classified L"
  by (simp add: accounts_classified_def account_ok_def)

lemma ensureAccount_classified:
  assumes e: "ensureAccount ch uid c L = (r, L')" and "accounts_classified L"
  shows "accounts_classified L'"
proof (cases r)
  case (Inl x)
  then have "L' = L" using e by (auto simp: ensureAccount_def Let_def split: sum.splits option.splits if_splits)
  with assms show ?thesis by simp
next
  case (Inr x)
  have c: "account_ok c L'" using ensureAccount_ok e Inr by blast
  have "accounts L' = accounts L \<or> (\<exists>row. accounts L' = accounts L @ [row] \<and> ar_code row = c)"
    using e by (auto simp: ensureAccount_def Let_def split: sum.splits option.splits if_splits)
  moreover have "account_ok (ar_code row) L'" if "row \<in> set (accounts L)" for row
    using that assms(2) ensureAccount_mono [OF _ e] by (simp add: accounts_classified_def)
  moreover have "distinct (map ar_code (accounts L'))"
    using ensureAccounts_codes [of ch uid "[c]" L "map_sum id (\<lambda>_. ()) r" L'] e assms(2) Inr
    by (simp add: accounts_classified_def)
  ultimately show ?thesis using c by (auto simp: accounts_classified_def)
qed

lemma ensureAccounts_classified:
  "ensureAccounts ch uid cs L = (r, L') \<Longrightarrow> accounts_classified L \<Longrightarrow> accounts_classified L'"
proof (induction cs arbitrary: L)
  case (Cons c cs)
  obtain r1 L1 where one: "ensureAccount ch uid c L = (r1, L1)" by fastforce
  with Cons ensureAccount_classified [OF one] show ?case by (auto split: sum.splits)
qed simp

lemma post_classified:
  assumes "post sha rnd ch has_tx p L = (r, L')" and "accounts_classified L"
  shows "accounts_classified L'"
proof -
  consider "L' = L" | cs y L1 ls conv where "ensureAccounts ch (pp_userId p) cs L = (y, L1)"
      "L' = L1 \<or> commit_posting sha ch p ls conv L1 = (r, L')"
    using assms(1) by (fastforce simp: post_def split: if_splits sum.splits prod.splits)
  then show ?thesis
  proof cases
    case 2
    then have "accounts L' = accounts L1" using commit_posting_accounts by blast
    with ensureAccounts_classified [OF 2(1) assms(2)] show ?thesis using accounts_classified_cong by blast
  qed (use assms in simp)
qed

lemma ensureAccount_accepts:
  assumes "classifyAccountCode c = Inr (k, spec)" and "c \<notin> set (contended ch)" and "accounts_classified L"
  obtains L' where "ensureAccount ch uid c L = (Inr (k, spec), L')"
proof (cases "find_by ar_code c (accounts L)")
  case None
  with assms that show thesis by (auto simp: ensureAccount_def Let_def)
next
  case (Some row)
  then have "account_ok c L" using assms(3) find_by_Some by (fastforce simp: accounts_classified_def)
  with that assms(1) Some show thesis by (auto simp: ensureAccount_def account_ok_def Let_def)
qed

lemma ensureAccounts_accepts:
  assumes "\<And>c. c \<in> set cs \<Longrightarrow> c \<notin> set (contended ch) \<and> (\<exists>x. classifyAccountCode c = Inr x)" and "accounts_classified L"
  obtains L' where "ensureAccounts ch uid cs L = (Inr (), L')"
  using assms
proof (induction cs arbitrary: L thesis)
  case (Cons c cs)
  obtain k spec where "classifyAccountCode c = Inr (k, spec)" "c \<notin> set (contended ch)"
    using Cons.prems(2) [of c] by auto
  then obtain L1 where one: "ensureAccount ch uid c L = (Inr (k, spec), L1)"
    using ensureAccount_accepts Cons.prems(3) by metis
  then obtain L2 where "ensureAccounts ch uid cs L1 = (Inr (), L2)"
    using Cons.IH [of L1] Cons.prems(2) ensureAccount_classified [OF one Cons.prems(3)] by auto
  with one Cons.prems(1) show ?case by simp
qed simp

text \<open>A choice of the database under which the posting loses no race.\<close>

definition undisturbed :: "db_choice \<Rightarrow> bool" where
  "undisturbed ch \<longleftrightarrow> contended ch = [] \<and> \<not> conversion_raced ch \<and> \<not> key_raced ch"

lemma transfer_valid:
  assumes "check_header p = None" and "pp_conversion p = None" and "pp_entryType p \<noteq> ''ASSET_CONVERSION''"
    and "pp_lines p = [\<lparr>li_account = a, li_debit = v, li_credit = JNull\<rparr>, \<lparr>li_account = b, li_debit = JNull, li_credit = v\<rparr>]"
    and "toExactDecimal v = Inr n" "0 < n" "v \<noteq> JNull" and "asset_of a = Inr c" "asset_of b = Inr c"
    and "rnd 0 = 0" "rnd (int n) = int n"
  shows "validate_posting rnd p =
    Inr ([\<lparr>nl_account = a, nl_debit = int n, nl_credit = 0\<rparr>, \<lparr>nl_account = b, nl_debit = 0, nl_credit = int n\<rparr>], None)"
  using assms
  by (simp add: validate_posting_def normalize_line_def optional_quantity_def check_conversion_def check_assets_def
      first_occurrences_def check_balance_def decimal_sum_def Let_def del: toExactDecimal.simps)

text \<open>A valid posting to classified accounts is booked.\<close>

lemma valid_posting_accepted:
  assumes v: "validate_posting rnd p = Inr (ls, None)" and cls: "\<And>l. l \<in> set ls \<Longrightarrow> \<exists>x. classifyAccountCode (nl_account l) = Inr x"
    and "accounts_classified L" and "undisturbed ch" and "\<not> booked_key (pp_idempotencyKey p) L"
  obtains res L' where "post sha rnd ch True p L = (Inr res, L')"
proof -
  have "c \<notin> set (contended ch) \<and> (\<exists>x. classifyAccountCode c = Inr x)" if "c \<in> set (first_occurrences (map nl_account ls))" for c
    using that cls assms(4) by (auto simp: undisturbed_def)
  then obtain L1 where e: "ensureAccounts ch (pp_userId p) (first_occurrences (map nl_account ls)) L = (Inr (), L1)"
    using ensureAccounts_accepts assms(3) by metis
  have "find_by lt_idempotencyKey (pp_idempotencyKey p) (txns L1) = None"
    using assms(5) ensureAccounts_frame [OF e] by (simp add: booked_key_def find_by_None)
  with that v e assms(4) show thesis
    by (auto simp: post_def commit_posting_def conversion_conflict_def undisturbed_def Let_def)
qed

theorem transfer_accepted:
  assumes "check_header p = None" and "pp_conversion p = None" and "pp_entryType p \<noteq> ''ASSET_CONVERSION''"
    and "pp_lines p = [\<lparr>li_account = a, li_debit = v, li_credit = JNull\<rparr>, \<lparr>li_account = b, li_debit = JNull, li_credit = v\<rparr>]"
    and "toExactDecimal v = Inr n" "0 < n" "v \<noteq> JNull" and "asset_of a = Inr c" "asset_of b = Inr c"
    and "rnd 0 = 0" "rnd (int n) = int n" and "accounts_classified L" and "undisturbed ch" and "\<not> booked_key (pp_idempotencyKey p) L"
  obtains res L' where "post sha rnd ch True p L = (Inr res, L')"
proof -
  let ?ls = "[\<lparr>nl_account = a, nl_debit = int n, nl_credit = 0\<rparr>, \<lparr>nl_account = b, nl_debit = 0, nl_credit = int n\<rparr>]"
  have cls: "\<And>l. l \<in> set ?ls \<Longrightarrow> \<exists>x. classifyAccountCode (nl_account l) = Inr x"
    using assms(8,9) by (auto simp: asset_of_def)
  show thesis
    by (rule valid_posting_accepted [OF transfer_valid [where rnd = rnd, OF assms(1-11)] cls assms(12-14)]) (auto intro: that)
qed

end
