(* ===== verification/Fiat_Withdrawal.thy ===== *)
theory Fiat_Withdrawal
  imports Azm_Spend Restricted_Obligations Liquidity_Receipts Liquidity_Reservations Smart_Route Financial_Idempotency
    Ledger_Accept
begin

text \<open>
  Fiat withdrawals, \<^verbatim>\<open>services/finance.service.js\<close>: the reservation of a mobile-money payout, its
  settlement when the provider paid, and its reversal; the liquidation of profits and the legacy
  crypto deposit; and the balance audit \<^verbatim>\<open>utils/securityCheck.js\<close> a withdrawal starts with.

  The database \<open>fiat_db\<close> composes the components the service calls: user rows and AZM spends, the
  ledger with the restricted obligations, the liquidity authority, the smart routes and the
  idempotency operations, and adds the transaction history, the withdrawal mirror and the system
  counters. A call reads, then others commit (\<open>env\<close>), then its transaction runs; from its first
  write on a transaction runs alone. \<open>SystemFiatPool\<close> is one column for two regimes: the authority
  writes its cedi projection into it, the legacy mode counts USDC.

  USDC amounts are in \<open>10\<^sup>-\<^sup>8\<close> units, cedi amounts in pesewas. Rates and percentages are the rational
  values of their decimals; \<open>prec\<close> is the rounding of decimal.js to its precision. The quantities
  the metadata keeps as text are kept as text. The callbacks are those of the withdrawal
  controller; the response stored with the operation is its text.
\<close>

section \<open>Tables\<close>

datatype tx_status = PENDING | COMPLETED | FAILED | FROZEN_DISPUTE

record fiat_meta =
  fm_economicsDeferred :: bool
  fm_referrerId :: "nat option"
  fm_referrerShareUsdc :: "string option"
  fm_systemFeeShareUsdc :: "string option"
  fm_retailRate :: "rat option"
  fm_payoutGhs :: "int option"
  fm_azmFeeDiscount :: "(string \<times> rat) option"
  fm_ledgerReserved :: bool

record fiat_row =
  fr_id :: string
  fr_userId :: nat
  fr_type :: string
  fr_amountUsdc :: int
  fr_feeUsdc :: int
  fr_txHash :: "string option"
  fr_status :: tx_status
  fr_providerRef :: "string option"
  fr_meta :: "fiat_meta option"

record withdrawal_row =
  wr_id :: nat
  wr_userId :: nat
  wr_amount :: int
  wr_payoutMethod :: string
  wr_network :: string
  wr_destination :: string
  wr_status :: string
  wr_transactionHistoryId :: string

record profit_log =
  pl_amountUsdc :: int
  pl_source :: string
  pl_relatedTxId :: string

record global_settings =
  gs_liveRetailRate :: rat
  gs_liveUsdToGhs :: rat
  gs_withdrawalFeeByRiskTier :: "(string \<times> rat option) list"
  gs_fiatWithdrawalFeePct :: "rat option"
  gs_baseExitFeePct :: "rat option"
  gs_fiatLiquidityAuthorityEnabled :: bool

record fiat_db =
  fd_wallet :: wallet_db
  fd_history :: "fiat_row list"
  fd_withdrawals :: "withdrawal_row list"
  fd_settings :: "global_settings option"
  fd_profitFees :: "int option"
  fd_fiatPool :: "int option"
  fd_masterCrypto :: "int option"
  fd_hotWallet :: "int option"
  fd_profitLog :: "profit_log list"
  fd_auditLog :: "string list"
  fd_operations :: "fin_op list"
  fd_books :: obligation_db
  fd_liquidity :: liquidity
  fd_routes :: routes_db

record fiat_choice =
  fc_historyId :: string
  fc_withdrawalId :: nat
  fc_spendId :: string
  fc_ledger :: db_choice
  fc_now :: int
  fc_tz :: int
  fc_evidence_ok :: bool
  fc_record_ok :: bool
  fc_audit_ok :: bool

datatype fiat_error =
    AmountInvalid ledger_error
  | AuditUserMissing
  | AuditFailed
  | FeePercentInvalid
  | FIAT_RATE_UNAVAILABLE
  | FIAT_POOL_INSUFFICIENT
  | TREASURY_RATE_UNAVAILABLE
  | INSUFFICIENT_PROFIT_BALANCE
  | UserNotFound
  | INSUFFICIENT_BALANCE
  | FiatSpend spend_error
  | HistoryUniqueViolation
  | WITHDRAWAL_RECORD_CREATION_FAILED
  | FiatLiquidity liquidity_error
  | FiatLedger ledger_error
  | FiatObligation obligation_error
  | FiatCommit commit_error
  | ReferenceRequired
  | UNKNOWN_REFERENCE
  | WRONG_TRANSACTION_TYPE
  | RowMissing
  | LEGACY_REFERRAL_REVERSAL_REQUIRES_RECONCILIATION
  | AuditRowFailed
  | PoolRowUnreadable

type_synonym 'a fiat_outcome = "(fiat_error, 'a, fiat_db) outcome"

section \<open>Calling the components\<close>

definition ctx_of :: "fiat_choice \<Rightarrow> op_ctx" where
  "ctx_of ch = \<lparr>cx_now = fc_now ch, cx_evidence_ok = fc_evidence_ok ch\<rparr>"

definition with_wallet :: "(wallet_db \<Rightarrow> (spend_error, 'a, wallet_db) outcome) \<Rightarrow> fiat_db \<Rightarrow> 'a fiat_outcome" where
  "with_wallet f s = (case f (fd_wallet s) of (r, w) \<Rightarrow> (map_sum FiatSpend id r, s\<lparr>fd_wallet := w\<rparr>))"

definition with_obligations :: "(obligation_db \<Rightarrow> (obligation_error, 'a, obligation_db) outcome) \<Rightarrow> fiat_db \<Rightarrow> 'a fiat_outcome" where
  "with_obligations f s = (case f (fd_books s) of (r, b) \<Rightarrow> (map_sum FiatObligation id r, s\<lparr>fd_books := b\<rparr>))"

definition post_fiat ::
  "(string \<Rightarrow> string) \<Rightarrow> (int \<Rightarrow> int) \<Rightarrow> fiat_choice \<Rightarrow> post_params \<Rightarrow> fiat_db \<Rightarrow> post_result fiat_outcome" where
  "post_fiat sha rnd ch p s =
     (case post sha rnd (fc_ledger ch) True p (ob_ledger (fd_books s)) of
        (r, L) \<Rightarrow> (map_sum FiatLedger id r, s\<lparr>fd_books := (fd_books s)\<lparr>ob_ledger := L\<rparr>\<rparr>))"

text \<open>The authority never reads \<open>SystemFiatPool\<close>; what it wrote, if anything, replaces the balance.\<close>

definition with_liquidity :: "(liquidity \<Rightarrow> 'a liq_outcome) \<Rightarrow> fiat_db \<Rightarrow> 'a fiat_outcome" where
  "with_liquidity f s =
     (case f ((fd_liquidity s)\<lparr>pool := None\<rparr>) of
        (r, l) \<Rightarrow> (map_sum FiatLiquidity id r,
                    s\<lparr>fd_liquidity := l,
                      fd_fiatPool := (case pool l of None \<Rightarrow> fd_fiatPool s | Some p \<Rightarrow> Some (p * 10 ^ 6))\<rparr>))"

definition with_operations :: "(fin_op list \<Rightarrow> (commit_error, 'a, fin_op list) outcome) \<Rightarrow> fiat_db \<Rightarrow> 'a fiat_outcome" where
  "with_operations f s = (case f (fd_operations s) of (r, ops) \<Rightarrow> (map_sum FiatCommit id r, s\<lparr>fd_operations := ops\<rparr>))"

text \<open>\<open>user.update\<close> with an increment, which throws when the row is missing.\<close>

definition add_available :: "int \<Rightarrow> account_user \<Rightarrow> account_user" where
  "add_available n u = u\<lparr>au_availableBalance := au_availableBalance u + n\<rparr>"

definition increment_user :: "nat \<Rightarrow> int \<Rightarrow> fiat_db \<Rightarrow> unit fiat_outcome" where
  "increment_user i n s =
     (if find_by au_id i (wd_users (fd_wallet s)) = None then (Inl RowMissing, s)
      else (Inr (), s\<lparr>fd_wallet := (fd_wallet s)\<lparr>wd_users := update_by (\<lambda>u. au_id u = i) (add_available n) (wd_users (fd_wallet s))\<rparr>\<rparr>))"

text \<open>The singleton rows: \<open>upsert\<close> with an empty update, then arithmetic on the row.\<close>

definition ensured :: "int option \<Rightarrow> int" where
  "ensured b = (case b of None \<Rightarrow> 0 | Some n \<Rightarrow> n)"

definition ensureProfitFeesSingleton :: "fiat_db \<Rightarrow> fiat_db" where
  "ensureProfitFeesSingleton s = s\<lparr>fd_profitFees := Some (ensured (fd_profitFees s))\<rparr>"

definition ensureFiatPoolSingleton :: "fiat_db \<Rightarrow> fiat_db" where
  "ensureFiatPoolSingleton s = s\<lparr>fd_fiatPool := Some (ensured (fd_fiatPool s))\<rparr>"

definition ensureMasterCryptoSingleton :: "fiat_db \<Rightarrow> fiat_db" where
  "ensureMasterCryptoSingleton s = s\<lparr>fd_masterCrypto := Some (ensured (fd_masterCrypto s))\<rparr>"

definition add_profit :: "int \<Rightarrow> fiat_db \<Rightarrow> fiat_db" where
  "add_profit n s = s\<lparr>fd_profitFees := map_option (\<lambda>b. b + n) (fd_profitFees s)\<rparr>"

definition add_master :: "int \<Rightarrow> fiat_db \<Rightarrow> fiat_db" where
  "add_master n s = s\<lparr>fd_masterCrypto := map_option (\<lambda>b. b + n) (fd_masterCrypto s)\<rparr>"

definition add_pool :: "int \<Rightarrow> fiat_db \<Rightarrow> fiat_db" where
  "add_pool n s = s\<lparr>fd_fiatPool := map_option (\<lambda>b. b + n) (fd_fiatPool s)\<rparr>"

definition log_profit :: "int \<Rightarrow> string \<Rightarrow> string \<Rightarrow> fiat_db \<Rightarrow> fiat_db" where
  "log_profit n source related s =
     s\<lparr>fd_profitLog := fd_profitLog s @ [\<lparr>pl_amountUsdc = n, pl_source = source, pl_relatedTxId = related\<rparr>]\<rparr>"

section \<open>Decimals\<close>

text \<open>\<open>toDecimalPlaces(k, ROUND_HALF_UP)\<close>, in units of \<open>10\<^sup>-\<^sup>k\<close>: ties go away from zero.\<close>

definition round_dp :: "nat \<Rightarrow> rat \<Rightarrow> int" where
  "round_dp k x = (if x < 0 then - \<lfloor>- x * 10 ^ k + 1 / 2\<rfloor> else \<lfloor>x * 10 ^ k + 1 / 2\<rfloor>)"

definition usdc_decimal :: "int \<Rightarrow> js_value" where
  "usdc_decimal n = JDec (Dec (n < 0) (nat \<bar>n\<bar>) 8)"

definition ghs_decimal :: "int \<Rightarrow> js_value" where
  "ghs_decimal n = JDec (Dec (n < 0) (nat \<bar>n\<bar>) 2)"

definition fixed8 :: "int \<Rightarrow> string" where
  "fixed8 n = (if n < 0 then ''-'' else []) @ toFixed8 (nat \<bar>n\<bar>)"

definition read_fixed :: "string \<Rightarrow> int" where
  "read_fixed t = (if take 1 t = ''-'' then - int (literal_units (drop 1 t)) else int (literal_units t))"

section \<open>The balance audit\<close>

definition TOLERANCE :: rat where
  "TOLERANCE = js_double (1 / 10 ^ 6)"

definition WITHDRAWAL_MAGNITUDE_TYPES :: "string list" where
  "WITHDRAWAL_MAGNITUDE_TYPES = [''WITHDRAWAL_FIAT'', ''WITHDRAWAL_CRYPTO'']"

definition audit_principal :: "fiat_row \<Rightarrow> rat" where
  "audit_principal r =
     (let raw = js_double (units_rat (fr_amountUsdc r)) in
      if fr_type r \<in> set WITHDRAWAL_MAGNITUDE_TYPES then - \<bar>raw\<bar> else raw)"

definition audit_step :: "rat \<Rightarrow> fiat_row \<Rightarrow> rat" where
  "audit_step acc r = js_double (js_double (acc + audit_principal r) - js_double (units_rat (fr_feeUsdc r)))"

definition settled_rows :: "nat \<Rightarrow> fiat_db \<Rightarrow> fiat_row list" where
  "settled_rows i s = filter (\<lambda>r. fr_userId r = i \<and> fr_status r = COMPLETED) (fd_history s)"

definition runDoubleCheck :: "nat \<Rightarrow> fiat_db \<Rightarrow> fiat_error + bool" where
  "runDoubleCheck userId s =
     (case find_by au_id userId (wd_users (fd_wallet s)) of
        None \<Rightarrow> Inl AuditUserMissing
      | Some u \<Rightarrow>
          (let computedBalance = foldl audit_step 0 (settled_rows userId s);
               storedBalance = js_double (units_rat (au_availableBalance u));
               delta = \<bar>js_double (computedBalance - storedBalance)\<bar> in
           if delta > TOLERANCE then Inl AuditFailed else Inr True))"

section \<open>Pricing a withdrawal\<close>

definition EXIT_FEE_PERCENT :: rat where
  "EXIT_FEE_PERCENT = 2 / 100"

definition resolveReferrer :: "nat \<Rightarrow> fiat_db \<Rightarrow> account_user option" where
  "resolveReferrer userId s =
     (case find_by au_id userId (wd_users (fd_wallet s)) of
        None \<Rightarrow> None
      | Some u \<Rightarrow>
          (case or_null (au_referredByCode u) of
             None \<Rightarrow> None
           | Some code \<Rightarrow> find_by au_influencerCode (Some code) (wd_users (fd_wallet s))))"

definition isDeferredWithdrawal :: "fiat_row \<Rightarrow> bool" where
  "isDeferredWithdrawal r = (case fr_meta r of None \<Rightarrow> False | Some m \<Rightarrow> fm_economicsDeferred m)"

definition ledger_reserved :: "fiat_row \<Rightarrow> bool" where
  "ledger_reserved r = (case fr_meta r of None \<Rightarrow> False | Some m \<Rightarrow> fm_ledgerReserved m)"

text \<open>A column read through \<open>Number\<close>: the decimal its double prints as.\<close>

definition number_of_column :: "rat \<Rightarrow> rat" where
  "number_of_column x = shortest_decimal (js_double x)"

definition rate_of_settings :: "global_settings option \<Rightarrow> rat" where
  "rate_of_settings settings =
     (case settings of
        None \<Rightarrow> 0
      | Some g \<Rightarrow>
          (let canonical = number_of_column (gs_liveRetailRate g); compatibility = number_of_column (gs_liveUsdToGhs g) in
           if 0 < canonical then canonical else if 0 < compatibility then compatibility else 0))"

definition resolveFiatRetailRate :: "global_settings option \<Rightarrow> rat option \<Rightarrow> rat" where
  "resolveFiatRetailRate settings explicit =
     (case explicit of
        Some e \<Rightarrow> if 0 < e then e else rate_of_settings settings
      | None \<Rightarrow> rate_of_settings settings)"

definition effectiveExitFeePct :: "global_settings option \<Rightarrow> string option \<Rightarrow> rat option" where
  "effectiveExitFeePct settings tier =
     (case settings of
        None \<Rightarrow> Some EXIT_FEE_PERCENT
      | Some g \<Rightarrow>
          (case map_of (gs_withdrawalFeeByRiskTier g) (case or_null tier of None \<Rightarrow> ''STANDARD'' | Some t \<Rightarrow> t) of
             Some v \<Rightarrow> v
           | None \<Rightarrow>
               Some (case gs_fiatWithdrawalFeePct g of
                       Some p \<Rightarrow> p
                     | None \<Rightarrow> (case gs_baseExitFeePct g of Some p \<Rightarrow> p | None \<Rightarrow> EXIT_FEE_PERCENT))))"

definition discount_multiplier :: "rat option \<Rightarrow> rat" where
  "discount_multiplier m = min 1 (max 0 (case m of None \<Rightarrow> 0 | Some x \<Rightarrow> x))"

record withdrawal_quote =
  wq_amount :: int
  wq_exitFee :: int
  wq_halfFee :: int
  wq_totalDeduct :: int
  wq_retailRate :: rat
  wq_payoutGhs :: int

definition half_of_fee :: "(rat \<Rightarrow> rat) \<Rightarrow> int \<Rightarrow> int" where
  "half_of_fee prec fee = round_dp 8 (prec (units_rat fee / 2))"

definition price_withdrawal :: "(int \<Rightarrow> int) \<Rightarrow> (rat \<Rightarrow> rat) \<Rightarrow> int \<Rightarrow> rat \<Rightarrow> rat \<Rightarrow> rat \<Rightarrow> withdrawal_quote" where
  "price_withdrawal rnd prec amount pct discount rate =
     (let exitFee = round_dp 8 (prec (prec (units_rat amount * pct) * prec (1 - discount))) in
      \<lparr>wq_amount = amount, wq_exitFee = exitFee, wq_halfFee = half_of_fee prec exitFee,
       wq_totalDeduct = rnd (amount + exitFee), wq_retailRate = rate,
       wq_payoutGhs = (if 0 < rate then round_dp 2 (prec (units_rat amount * rate)) else 0)\<rparr>)"

section \<open>Reserving\<close>

record withdrawal_opts =
  wo_reference :: "string option"
  wo_retailRate :: "rat option"
  wo_feeDiscountMultiplier :: "rat option"
  wo_feeDiscountTier :: "string option"
  wo_provider :: "string option"
  wo_rail :: "string option"
  wo_destination :: "string option"
  wo_record :: "(string \<times> string \<times> string) option"
  wo_operation :: "string option"
  wo_response :: string

definition reserveFiatPool :: "int \<Rightarrow> fiat_db \<Rightarrow> unit fiat_outcome" where
  "reserveFiatPool amount s =
     (case fd_fiatPool s of
        None \<Rightarrow> (Inl FIAT_POOL_INSUFFICIENT, s)
      | Some b \<Rightarrow> if amount \<le> b then (Inr (), s\<lparr>fd_fiatPool := Some (b - amount)\<rparr>) else (Inl FIAT_POOL_INSUFFICIENT, s))"

definition has_available :: "int \<Rightarrow> account_user \<Rightarrow> bool" where
  "has_available n u \<longleftrightarrow> n \<le> au_availableBalance u"

definition debitUserBalance :: "nat \<Rightarrow> int \<Rightarrow> fiat_db \<Rightarrow> unit fiat_outcome" where
  "debitUserBalance userId amount s =
     (let w = fd_wallet s in
      if count_by (\<lambda>u. au_id u = userId \<and> has_available amount u) (wd_users w) \<noteq> 1 then (Inl INSUFFICIENT_BALANCE, s)
      else (Inr (), s\<lparr>fd_wallet := w\<lparr>wd_users :=
              update_by (\<lambda>u. au_id u = userId \<and> has_available amount u) (add_available (- amount)) (wd_users w)\<rparr>\<rparr>))"

definition reserve_meta :: "account_user option \<Rightarrow> withdrawal_quote \<Rightarrow> discount_result option \<Rightarrow> fiat_meta" where
  "reserve_meta referrer q d =
     \<lparr>fm_economicsDeferred = True, fm_referrerId = map_option au_id referrer,
      fm_referrerShareUsdc = Some (if referrer = None then ''0'' else fixed8 (wq_halfFee q)),
      fm_systemFeeShareUsdc = Some (if referrer = None then fixed8 (wq_exitFee q) else fixed8 (wq_halfFee q)),
      fm_retailRate = Some (wq_retailRate q), fm_payoutGhs = Some (wq_payoutGhs q),
      fm_azmFeeDiscount = map_option (\<lambda>r. (dr_tierId r, dr_azmSpent r)) d, fm_ledgerReserved = True\<rparr>"

definition withdrawal_history :: "fiat_choice \<Rightarrow> nat \<Rightarrow> string \<Rightarrow> withdrawal_quote \<Rightarrow> fiat_meta \<Rightarrow> fiat_row" where
  "withdrawal_history ch userId reference q m =
     \<lparr>fr_id = fc_historyId ch, fr_userId = userId, fr_type = ''WITHDRAWAL_FIAT'', fr_amountUsdc = wq_amount q,
      fr_feeUsdc = wq_exitFee q, fr_txHash = Some reference, fr_status = PENDING, fr_providerRef = None, fr_meta = Some m\<rparr>"

definition create_history :: "fiat_row \<Rightarrow> fiat_db \<Rightarrow> unit fiat_outcome" where
  "create_history r s =
     (if fr_txHash r \<noteq> None \<and> fr_txHash r \<in> fr_txHash ` set (fd_history s) then (Inl HistoryUniqueViolation, s)
      else (Inr (), s\<lparr>fd_history := fd_history s @ [r]\<rparr>))"

definition create_withdrawal_record :: "fiat_choice \<Rightarrow> (string \<times> string \<times> string) option \<Rightarrow> fiat_row \<Rightarrow> fiat_db \<Rightarrow> unit fiat_outcome" where
  "create_withdrawal_record ch rec r s =
     (case rec of
        None \<Rightarrow> (Inr (), s)
      | Some (payoutMethod, network, phone) \<Rightarrow>
          (if \<not> fc_record_ok ch then (Inl WITHDRAWAL_RECORD_CREATION_FAILED, s)
           else (Inr (), s\<lparr>fd_withdrawals := fd_withdrawals s @
                  [\<lparr>wr_id = fc_withdrawalId ch, wr_userId = fr_userId r, wr_amount = fr_amountUsdc r,
                    wr_payoutMethod = (if payoutMethod = [] then ''MTN_MOMO'' else payoutMethod), wr_network = network,
                    wr_destination = phone, wr_status = ''PENDING'', wr_transactionHistoryId = fr_id r\<rparr>]\<rparr>)))"

definition reserve_key :: "string \<Rightarrow> string" where
  "reserve_key reference = ''ledger:withdrawal:fiat:'' @ reference"

definition obligation_ref :: "string \<Rightarrow> string" where
  "obligation_ref reference = ''withdrawal:fiat:'' @ reference"

definition reserve_posting :: "nat \<Rightarrow> string \<Rightarrow> string \<Rightarrow> int \<Rightarrow> post_params" where
  "reserve_posting userId reference historyId totalDeduct =
     \<lparr>pp_idempotencyKey = reserve_key reference, pp_entryType = ''WITHDRAWAL'',
      pp_description = ''Fiat (MoMo) withdrawal reservation - provider settlement pending'',
      pp_lines = [\<lparr>li_account = user_liability_code userId, li_debit = usdc_decimal totalDeduct, li_credit = JNull\<rparr>,
                  \<lparr>li_account = ''restricted:reserves'', li_debit = JNull, li_credit = usdc_decimal totalDeduct\<rparr>],
      pp_conversion = None, pp_reference = Some reference, pp_userId = Some userId,
      pp_relatedEntity = Some ''transactionHistory'', pp_relatedEntityId = Some historyId\<rparr>"

definition reserve_obligation :: "nat \<Rightarrow> string \<Rightarrow> int \<Rightarrow> string \<Rightarrow> create_args" where
  "reserve_obligation userId reference totalDeduct txnId =
     \<lparr>ca_sourceType = ''PENDING_FIAT_WITHDRAWAL'', ca_reference = obligation_ref reference, ca_userId = Some userId,
      ca_amount = usdc_decimal totalDeduct, ca_asset = ''USDC'', ca_network = None,
      ca_sourceEntity = Some ''transactionHistory'', ca_sourceEntityId = Some reference,
      ca_ledgerTransactionId = Some txnId\<rparr>"

definition payout_reservation :: "withdrawal_opts \<Rightarrow> string \<Rightarrow> int \<Rightarrow> string \<Rightarrow> reserve_args" where
  "payout_reservation opts reference payoutGhs historyId =
     \<lparr>rs_reference = reference, rs_amountGhs = ghs_decimal payoutGhs,
      rs_provider = (case or_null (wo_provider opts) of None \<Rightarrow> ''MOOLRE_DISBURSEMENT'' | Some p \<Rightarrow> p),
      rs_rail = Some (case or_null (wo_rail opts) of None \<Rightarrow> ''MOMO'' | Some r \<Rightarrow> r),
      rs_destination = or_null (wo_destination opts), rs_relatedTransactionId = Some historyId\<rparr>"

text \<open>The steps a reservation takes only in one regime or with an option.\<close>

definition reserve_pool :: "bool \<Rightarrow> int \<Rightarrow> fiat_db \<Rightarrow> unit fiat_outcome" where
  "reserve_pool authorityOn amount s = (if authorityOn then (Inr (), s) else reserveFiatPool amount s)"

definition reserve_discount :: "fiat_choice \<Rightarrow> nat \<Rightarrow> string \<Rightarrow> withdrawal_opts \<Rightarrow> fiat_db \<Rightarrow> discount_result option fiat_outcome" where
  "reserve_discount ch userId reference opts s =
     (case wo_feeDiscountTier opts of
        None \<Rightarrow> (Inr None, s)
      | Some tier \<Rightarrow>
          and_then (with_wallet (applyFeeDiscountInTransaction (fc_spendId ch) userId tier reference) s) (\<lambda>d t. (Inr (Some d), t)))"

definition reserve_payout ::
  "(string \<Rightarrow> decimal option) \<Rightarrow> fiat_choice \<Rightarrow> bool \<Rightarrow> withdrawal_opts \<Rightarrow> string \<Rightarrow> withdrawal_quote \<Rightarrow> fiat_row \<Rightarrow> fiat_db \<Rightarrow> unit fiat_outcome" where
  "reserve_payout parse ch authorityOn opts reference q r s =
     (if authorityOn
      then and_then (with_liquidity (reserveForPayout parse (ctx_of ch)
             (payout_reservation opts reference (wq_payoutGhs q) (fr_id r)) id) s) (\<lambda>_ t. (Inr (), t))
      else (Inr (), s))"

text \<open>The two halves of the reservation transaction: what precedes the ledger, and the books.\<close>

definition reserve_funds ::
  "fiat_choice \<Rightarrow> bool \<Rightarrow> nat \<Rightarrow> string \<Rightarrow> withdrawal_opts \<Rightarrow> withdrawal_quote \<Rightarrow> fiat_db \<Rightarrow> discount_result option fiat_outcome" where
  "reserve_funds ch authorityOn userId reference opts q s =
     (case find_by au_id userId (wd_users (fd_wallet s)) of
        None \<Rightarrow> (Inl UserNotFound, s)
      | Some u \<Rightarrow>
          (if au_availableBalance u < wq_totalDeduct q then (Inl INSUFFICIENT_BALANCE, s)
           else
             and_then (reserve_pool authorityOn (wq_amount q) s) (\<lambda>_ s1.
             and_then (debitUserBalance userId (wq_totalDeduct q) s1) (\<lambda>_ s2.
             and_then (reserve_discount ch userId reference opts s2) (\<lambda>d s3.
               (Inr d, add_master (wq_amount q) (ensureMasterCryptoSingleton (ensureProfitFeesSingleton s3))))))))"

definition book_reservation ::
  "(string \<Rightarrow> string) \<Rightarrow> (int \<Rightarrow> int) \<Rightarrow> fiat_choice \<Rightarrow> nat \<Rightarrow> string \<Rightarrow> withdrawal_quote \<Rightarrow> fiat_row \<Rightarrow> fiat_db \<Rightarrow> unit fiat_outcome" where
  "book_reservation sha rnd ch userId reference q r s =
     and_then (post_fiat sha rnd ch (reserve_posting userId reference (fr_id r) (wq_totalDeduct q)) s) (\<lambda>p s1.
     and_then (with_obligations
                 (createForPendingWithdrawal id (reserve_obligation userId reference (wq_totalDeduct q) (lt_id (pr_transaction p)))) s1)
       (\<lambda>_ s2. (Inr (), s2)))"

definition reserve_tx ::
  "(string \<Rightarrow> string) \<Rightarrow> (int \<Rightarrow> int) \<Rightarrow> (string \<Rightarrow> decimal option) \<Rightarrow> fiat_choice \<Rightarrow> bool \<Rightarrow> nat \<Rightarrow> string \<Rightarrow>
   withdrawal_opts \<Rightarrow> account_user option \<Rightarrow> withdrawal_quote \<Rightarrow> fiat_db \<Rightarrow> fiat_row fiat_outcome" where
  "reserve_tx sha rnd parse ch authorityOn userId reference opts referrer q s =
     and_then (reserve_funds ch authorityOn userId reference opts q s) (\<lambda>d s1.
     (let r = withdrawal_history ch userId reference q (reserve_meta referrer q d) in
      and_then (create_history r s1) (\<lambda>_ s2.
      and_then (create_withdrawal_record ch (wo_record opts) r s2) (\<lambda>_ s3.
      and_then (reserve_payout parse ch authorityOn opts reference q r s3) (\<lambda>_ s4.
      and_then (book_reservation sha rnd ch userId reference q r s4) (\<lambda>_ s5.
      and_then (with_operations (commitOperation (wo_operation opts) 202 (Some (wo_response opts))) s5) (\<lambda>_ s6.
        (Inr r, s6))))))))"

definition reference_of :: "withdrawal_opts \<Rightarrow> nat \<Rightarrow> int \<Rightarrow> string" where
  "reference_of opts userId now =
     (case or_null (wo_reference opts) of
        Some r \<Rightarrow> r
      | None \<Rightarrow> ''FIAT_OUT_'' @ show_nat userId @ ''_'' @ show_nat (nat now))"

definition processFiatWithdrawal ::
  "(string \<Rightarrow> string) \<Rightarrow> (int \<Rightarrow> int) \<Rightarrow> (rat \<Rightarrow> rat) \<Rightarrow> (string \<Rightarrow> decimal option) \<Rightarrow> fiat_choice \<Rightarrow> nat \<Rightarrow> js_value \<Rightarrow>
   withdrawal_opts \<Rightarrow> (fiat_db \<Rightarrow> fiat_db) \<Rightarrow> fiat_db \<Rightarrow> (withdrawal_quote \<times> fiat_row) fiat_outcome" where
  "processFiatWithdrawal sha rnd prec parse ch userId amountIn opts env s =
     (case toExactDecimal amountIn of
        Inl e \<Rightarrow> (Inl (AmountInvalid e), s)
      | Inr amount \<Rightarrow>
     (case runDoubleCheck userId s of
        Inl e \<Rightarrow> (Inl e, s)
      | Inr _ \<Rightarrow>
     (let settings = fd_settings s;
          authorityOn = (case settings of None \<Rightarrow> False | Some g \<Rightarrow> gs_fiatLiquidityAuthorityEnabled g);
          referrer = resolveReferrer userId s;
          tier = (case find_by au_id userId (wd_users (fd_wallet s)) of None \<Rightarrow> None | Some u \<Rightarrow> au_withdrawalRiskTier u) in
      case effectiveExitFeePct settings tier of
        None \<Rightarrow> (Inl FeePercentInvalid, s)
      | Some pct \<Rightarrow>
          (let q = price_withdrawal rnd prec (int amount) pct (discount_multiplier (wo_feeDiscountMultiplier opts))
                     (resolveFiatRetailRate settings (wo_retailRate opts)) in
           if \<not> (0 < wq_retailRate q) \<or> \<not> (0 < wq_payoutGhs q) then (Inl FIAT_RATE_UNAVAILABLE, s)
           else if \<not> authorityOn \<and> (case fd_fiatPool s of None \<Rightarrow> True | Some b \<Rightarrow> b < wq_amount q)
           then (Inl FIAT_POOL_INSUFFICIENT, s)
           else and_then (transaction id (reserve_tx sha rnd parse ch authorityOn userId
                            (reference_of opts userId (fc_now ch)) opts referrer q) (env s))
                  (\<lambda>r t. (Inr (q, r), t))))))"

section \<open>Settling\<close>

definition is_pending :: "fiat_row \<Rightarrow> bool" where
  "is_pending r \<longleftrightarrow> fr_status r = PENDING"

definition complete_row :: "string option \<Rightarrow> fiat_row \<Rightarrow> fiat_row" where
  "complete_row providerTxId r =
     r\<lparr>fr_status := COMPLETED,
       fr_providerRef := (case or_null providerTxId of None \<Rightarrow> fr_providerRef r | Some t \<Rightarrow> Some t)\<rparr>"

definition fail_row :: "fiat_row \<Rightarrow> fiat_row" where
  "fail_row r = r\<lparr>fr_status := FAILED\<rparr>"

definition read_row :: "string \<Rightarrow> fiat_db \<Rightarrow> fiat_row option" where
  "read_row reference s = find_by fr_txHash (Some reference) (fd_history s)"

record deferred =
  df_referrerId :: "nat option"
  df_referrerShare :: int
  df_systemShare :: int

definition share_text :: "string option \<Rightarrow> int" where
  "share_text v = max 0 (read_fixed (case v of None \<Rightarrow> ''0'' | Some t \<Rightarrow> t))"

definition deferred_of :: "fiat_row \<Rightarrow> deferred" where
  "deferred_of r =
     (case fr_meta r of
        None \<Rightarrow> \<lparr>df_referrerId = None, df_referrerShare = 0, df_systemShare = 0\<rparr>
      | Some m \<Rightarrow>
          \<lparr>df_referrerId = (case fm_referrerId m of None \<Rightarrow> None | Some i \<Rightarrow> if 0 < i then Some i else None),
           df_referrerShare = share_text (fm_referrerShareUsdc m), df_systemShare = share_text (fm_systemFeeShareUsdc m)\<rparr>)"

definition pays_referrer :: "deferred \<Rightarrow> bool" where
  "pays_referrer d \<longleftrightarrow> df_referrerId d \<noteq> None \<and> 0 < df_referrerShare d"

definition realized_fee :: "fiat_row \<Rightarrow> int" where
  "realized_fee r =
     (let d = deferred_of r in
      if pays_referrer d then df_systemShare d else if 0 < df_systemShare d then df_systemShare d else fr_feeUsdc r)"

definition realized_reward :: "fiat_row \<Rightarrow> int" where
  "realized_reward r = (if pays_referrer (deferred_of r) then df_referrerShare (deferred_of r) else 0)"

definition realize_full_fee :: "string \<Rightarrow> int \<Rightarrow> fiat_db \<Rightarrow> fiat_db" where
  "realize_full_fee reference fee s =
     (let t = add_profit fee s in if 0 < fee then log_profit fee ''EXIT_FEE'' (''full_fee_'' @ reference) t else t)"

definition realize_shares :: "string \<Rightarrow> deferred \<Rightarrow> int \<Rightarrow> fiat_db \<Rightarrow> unit fiat_outcome" where
  "realize_shares reference d fee s =
     (case df_referrerId d of
        Some i \<Rightarrow>
          (if 0 < df_referrerShare d
           then and_then (increment_user i (df_referrerShare d) s) (\<lambda>_ t.
                  (Inr (), log_profit (df_referrerShare d) ''EXIT_FEE'' (''referral_split_referrer_'' @ show_nat i @ ''_'' @ reference)
                     (log_profit (df_systemShare d) ''EXIT_FEE'' (''referral_split_system_'' @ reference)
                     (add_profit (df_systemShare d) t))))
           else (Inr (), realize_full_fee reference fee s))
      | None \<Rightarrow> (Inr (), realize_full_fee reference fee s))"

text \<open>The fee, the referral reward and the profit log.\<close>

definition realize_economics :: "string \<Rightarrow> fiat_row \<Rightarrow> fiat_db \<Rightarrow> unit fiat_outcome" where
  "realize_economics reference r s =
     (let d = deferred_of r; s1 = ensureProfitFeesSingleton s in
      and_then (realize_shares reference d (realized_fee r) s1) (\<lambda>_ s2. (Inr (), log_profit (fr_amountUsdc r) ''ARBITRAGE_SPREAD'' (''arbitrage_capture_'' @ reference) s2)))"

definition settle_key :: "string \<Rightarrow> string" where
  "settle_key reference = ''ledger:withdrawal:fiat:settle:'' @ reference"

definition settled_total :: "(int \<Rightarrow> int) \<Rightarrow> fiat_row \<Rightarrow> int" where
  "settled_total rnd r = rnd (rnd (fr_amountUsdc r + realized_fee r) + realized_reward r)"

definition settle_posting :: "(int \<Rightarrow> int) \<Rightarrow> string \<Rightarrow> fiat_row \<Rightarrow> post_params" where
  "settle_posting rnd reference r =
     \<lparr>pp_idempotencyKey = settle_key reference, pp_entryType = ''WITHDRAWAL'',
      pp_description = ''Fiat withdrawal settled on provider SUCCESS - deferred economics realized'',
      pp_lines =
        [\<lparr>li_account = ''restricted:reserves'', li_debit = usdc_decimal (settled_total rnd r), li_credit = JNull\<rparr>,
         \<lparr>li_account = ''clearing:fiat:offramp:usdc'', li_debit = JNull, li_credit = usdc_decimal (fr_amountUsdc r)\<rparr>] @
        (if realized_fee r \<noteq> 0
         then [\<lparr>li_account = ''revenue:fees'', li_debit = JNull, li_credit = usdc_decimal (realized_fee r)\<rparr>] else []) @
        (case df_referrerId (deferred_of r) of
           Some i \<Rightarrow>
             if 0 < df_referrerShare (deferred_of r)
             then [\<lparr>li_account = user_liability_code i, li_debit = JNull, li_credit = usdc_decimal (df_referrerShare (deferred_of r))\<rparr>]
             else []
         | None \<Rightarrow> []),
      pp_conversion = None, pp_reference = Some reference, pp_userId = Some (fr_userId r),
      pp_relatedEntity = Some ''transactionHistory'', pp_relatedEntityId = Some (fr_id r)\<rparr>"

definition book_settlement ::
  "(string \<Rightarrow> string) \<Rightarrow> (int \<Rightarrow> int) \<Rightarrow> fiat_choice \<Rightarrow> string \<Rightarrow> fiat_row \<Rightarrow> fiat_db \<Rightarrow> unit fiat_outcome" where
  "book_settlement sha rnd ch reference r s =
     and_then (post_fiat sha rnd ch (settle_posting rnd reference r) s) (\<lambda>p s1.
     and_then (with_obligations (releaseOnSettlement id (obligation_ref reference) (Some (lt_id (pr_transaction p)))
                 (usdc_decimal (settled_total rnd r))) s1)
       (\<lambda>_ s2. (Inr (), s2)))"

definition converge_settlement :: "fiat_choice \<Rightarrow> string \<Rightarrow> fiat_row \<Rightarrow> fiat_db \<Rightarrow> fiat_db" where
  "converge_settlement ch reference r s =
     (let payout = (case fr_meta r of None \<Rightarrow> None | Some m \<Rightarrow> map_option (\<lambda>p. p * 10 ^ 6) (fm_payoutGhs m));
          rate = (case fr_meta r of None \<Rightarrow> None | Some m \<Rightarrow> map_option round8 (fm_retailRate m)) in
      s\<lparr>fd_routes := snd (convergeRunOnFiatSettlement (fc_tz ch) (fc_now ch) reference payout rate id (fd_routes s))\<rparr>)"

definition settle_deferred ::
  "(string \<Rightarrow> string) \<Rightarrow> (int \<Rightarrow> int) \<Rightarrow> fiat_choice \<Rightarrow> string \<Rightarrow> fiat_row \<Rightarrow> fiat_db \<Rightarrow> unit fiat_outcome" where
  "settle_deferred sha rnd ch reference r s =
     (if isDeferredWithdrawal r
      then and_then (realize_economics reference r s) (\<lambda>_ t.
             if ledger_reserved r then book_settlement sha rnd ch reference r t else (Inr (), t))
      else (Inr (), s))"

text \<open>The transaction after its claim on the pending row \<open>r\<close>.\<close>

definition settle_claimed ::
  "(string \<Rightarrow> string) \<Rightarrow> (int \<Rightarrow> int) \<Rightarrow> fiat_choice \<Rightarrow> string \<Rightarrow> string option \<Rightarrow> fiat_row \<Rightarrow> fiat_db \<Rightarrow>
   (bool \<times> fiat_row option) fiat_outcome" where
  "settle_claimed sha rnd ch reference providerTxId r s =
     (let s1 = converge_settlement ch reference r s in
      and_then (settle_deferred sha rnd ch reference r s1) (\<lambda>_ s3.
      and_then (with_liquidity (settleIfRecorded (ctx_of ch) reference ''SUCCESSFUL'' providerTxId None id) s3) (\<lambda>_ s4.
        (Inr (True, read_row reference s4), s4))))"

definition completeFiatWithdrawal ::
  "(string \<Rightarrow> string) \<Rightarrow> (int \<Rightarrow> int) \<Rightarrow> fiat_choice \<Rightarrow> string \<Rightarrow> string option \<Rightarrow> (fiat_db \<Rightarrow> fiat_db) \<Rightarrow> fiat_db \<Rightarrow>
   (bool \<times> fiat_row option) fiat_outcome" where
  "completeFiatWithdrawal sha rnd ch reference providerTxId env s =
     (if reference = [] then (Inl ReferenceRequired, s)
      else transaction env (\<lambda>s.
        case read_row reference s of
          None \<Rightarrow> (Inl UNKNOWN_REFERENCE, s)
        | Some r \<Rightarrow>
            (if fr_type r \<noteq> ''WITHDRAWAL_FIAT'' then (Inl WRONG_TRANSACTION_TYPE, s)
             else
               let s1 = env s in
               if claims fr_txHash is_pending (Some reference) (fd_history s1) \<noteq> 1
               then (Inr (False, read_row reference s1), s1)
               else settle_claimed sha rnd ch reference providerTxId r
                      (s1\<lparr>fd_history := claim_rows fr_txHash is_pending (complete_row providerTxId) (Some reference) (fd_history s1)\<rparr>))) s)"

section \<open>Reversing\<close>

record reversal_opts =
  ro_reason :: "string option"
  ro_runFailureStatus :: "run_status option"
  ro_providerTerminal :: bool
  ro_providerTxId :: "string option"

datatype azm_restore = NoDiscount | Restored int string | AlreadyRestored int string | SpendMissing

datatype reversal =
    AlreadyReversed
  | NotReversible tx_status
  | Reversed int azm_restore

definition reverse_key :: "string \<Rightarrow> string" where
  "reverse_key reference = ''ledger:withdrawal:fiat:reverse:'' @ reference"

definition reverse_posting :: "string \<Rightarrow> fiat_row \<Rightarrow> int \<Rightarrow> post_params" where
  "reverse_posting reference r totalDeduct =
     \<lparr>pp_idempotencyKey = reverse_key reference, pp_entryType = ''WITHDRAWAL'',
      pp_description = ''Fiat withdrawal reversed - provider dispatch definitively failed'',
      pp_lines = [\<lparr>li_account = ''restricted:reserves'', li_debit = usdc_decimal totalDeduct, li_credit = JNull\<rparr>,
                  \<lparr>li_account = user_liability_code (fr_userId r), li_debit = JNull, li_credit = usdc_decimal totalDeduct\<rparr>],
      pp_conversion = None, pp_reference = Some reference, pp_userId = Some (fr_userId r),
      pp_relatedEntity = Some ''transactionHistory'', pp_relatedEntityId = Some (fr_id r)\<rparr>"

definition book_reversal ::
  "(string \<Rightarrow> string) \<Rightarrow> (int \<Rightarrow> int) \<Rightarrow> fiat_choice \<Rightarrow> string \<Rightarrow> fiat_row \<Rightarrow> int \<Rightarrow> fiat_db \<Rightarrow> unit fiat_outcome" where
  "book_reversal sha rnd ch reference r totalDeduct s =
     and_then (post_fiat sha rnd ch (reverse_posting reference r totalDeduct) s) (\<lambda>p s1.
     and_then (with_obligations (cancelOnReversal id (obligation_ref reference) (Some (lt_id (pr_transaction p)))) s1)
       (\<lambda>_ s2. (Inr (), s2)))"

definition ends_with :: "string \<Rightarrow> string \<Rightarrow> bool" where
  "ends_with suf t \<longleftrightarrow> length suf \<le> length t \<and> drop (length t - length suf) t = suf"

text \<open>Rows from before the deferral recognised their fee at once; a reversal takes it back.\<close>

definition unwind_legacy :: "(rat \<Rightarrow> rat) \<Rightarrow> string \<Rightarrow> fiat_row \<Rightarrow> account_user option \<Rightarrow> fiat_db \<Rightarrow> unit fiat_outcome" where
  "unwind_legacy prec reference r referrer s =
     (let halfFee = half_of_fee prec (fr_feeUsdc r) in
      and_then
        (case referrer of
           Some u \<Rightarrow>
             (if 0 < halfFee
              then (case debitUserBalance (au_id u) halfFee s of
                      (Inl _, t) \<Rightarrow> (Inl LEGACY_REFERRAL_REVERSAL_REQUIRES_RECONCILIATION, t)
                    | (Inr _, t) \<Rightarrow> (Inr (), add_profit (- halfFee) t))
              else if 0 < fr_feeUsdc r then (Inr (), add_profit (- fr_feeUsdc r) s) else (Inr (), s))
         | None \<Rightarrow> if 0 < fr_feeUsdc r then (Inr (), add_profit (- fr_feeUsdc r) s) else (Inr (), s))
        (\<lambda>_ t. (Inr (), t\<lparr>fd_profitLog := filter (\<lambda>l. \<not> ends_with reference (pl_relatedTxId l)) (fd_profitLog t)\<rparr>)))"

definition discount_spend :: "nat \<Rightarrow> string \<Rightarrow> spend_log \<Rightarrow> bool" where
  "discount_spend userId reference l \<longleftrightarrow>
     sl_userId l = userId \<and> sl_source l = SOURCE_FEE_DISCOUNT \<and> sl_metaDedupKey l = Some (fee_discount_key reference)"

definition give_azm :: "int \<Rightarrow> account_user \<Rightarrow> account_user" where
  "give_azm n u = u\<lparr>au_azmBalance := au_azmBalance u + n\<rparr>"

definition mark_reversed :: "int \<Rightarrow> string \<Rightarrow> spend_log \<Rightarrow> spend_log" where
  "mark_reversed now reference l = l\<lparr>sl_reversedAt := Some now, sl_reversalReference := Some reference\<rparr>"

definition restore_discount :: "int \<Rightarrow> string \<Rightarrow> fiat_row \<Rightarrow> fiat_db \<Rightarrow> azm_restore fiat_outcome" where
  "restore_discount now reference r s =
     (let w = fd_wallet s in
      case find (discount_spend (fr_userId r) reference) (wd_spends w) of
        Some l \<Rightarrow>
          (if sl_reversedAt l \<noteq> None then (Inr (AlreadyRestored (sl_amount l) (sl_id l)), s)
           else if find_by au_id (fr_userId r) (wd_users w) = None then (Inl RowMissing, s)
           else (Inr (Restored (sl_amount l) (sl_id l)),
                 s\<lparr>fd_wallet := w\<lparr>wd_users := update_by (\<lambda>u. au_id u = fr_userId r) (give_azm (sl_amount l)) (wd_users w),
                                   wd_spends := update_by (\<lambda>x. sl_id x = sl_id l) (mark_reversed now reference) (wd_spends w)\<rparr>\<rparr>))
      | None \<Rightarrow>
          (if isDeferredWithdrawal r \<and> (case fr_meta r of None \<Rightarrow> False | Some m \<Rightarrow> fm_azmFeeDiscount m \<noteq> None)
           then (Inr SpendMissing, s) else (Inr NoDiscount, s)))"

definition release_liquidity :: "fiat_choice \<Rightarrow> string \<Rightarrow> reversal_opts \<Rightarrow> int \<Rightarrow> fiat_db \<Rightarrow> unit fiat_outcome" where
  "release_liquidity ch reference opts amount s =
     and_then
       (if ro_providerTerminal opts
        then with_liquidity (settleIfRecorded (ctx_of ch) reference ''FAILED'' (ro_providerTxId opts)
               (Some (case or_null (ro_reason opts) of None \<Rightarrow> ''provider reported FAILED settlement'' | Some t \<Rightarrow> t)) id) s
        else with_liquidity (releaseIfRecorded (ctx_of ch) reference id) s)
       (\<lambda>released t. (Inr (), if released = None then add_pool amount (ensureFiatPoolSingleton t) else t))"

definition refund_books ::
  "(string \<Rightarrow> string) \<Rightarrow> (int \<Rightarrow> int) \<Rightarrow> fiat_choice \<Rightarrow> string \<Rightarrow> fiat_row \<Rightarrow> int \<Rightarrow> fiat_db \<Rightarrow> unit fiat_outcome" where
  "refund_books sha rnd ch reference r totalDeduct s =
     (if ledger_reserved r then book_reversal sha rnd ch reference r totalDeduct s else (Inr (), s))"

definition unwind_fees :: "(rat \<Rightarrow> rat) \<Rightarrow> string \<Rightarrow> fiat_row \<Rightarrow> account_user option \<Rightarrow> fiat_db \<Rightarrow> unit fiat_outcome" where
  "unwind_fees prec reference r referrer s =
     (if isDeferredWithdrawal r then (Inr (), s) else unwind_legacy prec reference r referrer s)"

text \<open>The transaction after its claim on the row \<open>r\<close> read before it.\<close>

definition reverse_claimed ::
  "(string \<Rightarrow> string) \<Rightarrow> (int \<Rightarrow> int) \<Rightarrow> (rat \<Rightarrow> rat) \<Rightarrow> fiat_choice \<Rightarrow> string \<Rightarrow> reversal_opts \<Rightarrow> fiat_row \<Rightarrow>
   account_user option \<Rightarrow> fiat_db \<Rightarrow> reversal fiat_outcome" where
  "reverse_claimed sha rnd prec ch reference opts r referrer s =
     (let totalDeduct = rnd (fr_amountUsdc r + fr_feeUsdc r);
          s1 = s\<lparr>fd_routes := snd (convergeRunOnFiatReversal (fc_tz ch) (fc_now ch) reference (ro_reason opts)
                                    (ro_runFailureStatus opts) id (fd_routes s))\<rparr>;
          s2 = ensureMasterCryptoSingleton (ensureFiatPoolSingleton (ensureProfitFeesSingleton s1)) in
      and_then (increment_user (fr_userId r) totalDeduct s2) (\<lambda>_ s3.
      and_then (refund_books sha rnd ch reference r totalDeduct s3) (\<lambda>_ s4.
      and_then (unwind_fees prec reference r referrer s4) (\<lambda>_ s5.
      and_then (release_liquidity ch reference opts (fr_amountUsdc r) (add_master (- fr_amountUsdc r) s5)) (\<lambda>_ s6.
      and_then (restore_discount (fc_now ch) reference r s6) (\<lambda>a s7.
        (Inr (Reversed totalDeduct a), s7)))))))"

definition runReversal ::
  "(string \<Rightarrow> string) \<Rightarrow> (int \<Rightarrow> int) \<Rightarrow> (rat \<Rightarrow> rat) \<Rightarrow> fiat_choice \<Rightarrow> string \<Rightarrow> reversal_opts \<Rightarrow> fiat_row \<Rightarrow>
   account_user option \<Rightarrow> fiat_db \<Rightarrow> reversal fiat_outcome" where
  "runReversal sha rnd prec ch reference opts r referrer s =
     (if claims fr_txHash is_pending (Some reference) (fd_history s) = 0 then (Inr AlreadyReversed, s)
      else reverse_claimed sha rnd prec ch reference opts r referrer
             (s\<lparr>fd_history := claim_rows fr_txHash is_pending fail_row (Some reference) (fd_history s)\<rparr>))"

text \<open>\<open>in_tx\<close>: the caller's transaction is used, and its rollback is the caller's.\<close>

definition reverseFiatWithdrawal ::
  "(string \<Rightarrow> string) \<Rightarrow> (int \<Rightarrow> int) \<Rightarrow> (rat \<Rightarrow> rat) \<Rightarrow> fiat_choice \<Rightarrow> bool \<Rightarrow> string \<Rightarrow> reversal_opts \<Rightarrow>
   (fiat_db \<Rightarrow> fiat_db) \<Rightarrow> fiat_db \<Rightarrow> reversal fiat_outcome" where
  "reverseFiatWithdrawal sha rnd prec ch in_tx reference opts env s =
     (if reference = [] then (Inl ReferenceRequired, s)
      else case read_row reference s of
        None \<Rightarrow> (Inl UNKNOWN_REFERENCE, s)
      | Some r \<Rightarrow>
          (if fr_type r \<noteq> ''WITHDRAWAL_FIAT'' then (Inl WRONG_TRANSACTION_TYPE, s)
           else if fr_status r = FAILED then (Inr AlreadyReversed, s)
           else if fr_status r \<noteq> PENDING then (Inr (NotReversible (fr_status r)), s)
           else
             let referrer = (if isDeferredWithdrawal r then None else resolveReferrer (fr_userId r) s);
                 run = runReversal sha rnd prec ch reference opts r referrer in
             if in_tx then run (env s) else transaction id run (env s)))"

section \<open>Liquidating profits\<close>

text \<open>The answer reads the pool row, which the authority's branch does not create: without one the
  call throws after its commit.\<close>

definition treasury_receipt :: "string \<Rightarrow> int \<Rightarrow> receipt_args" where
  "treasury_receipt relatedTxId amountGhs =
     \<lparr>ra_provider = ''AZM_TREASURY'', ra_rail = Some ''INTERNAL'', ra_providerRef = None,
      ra_dedupKey = ''treasury:liquidation:'' @ relatedTxId, ra_amountGhs = ghs_decimal amountGhs, ra_route = None,
      ra_reference = None, ra_relatedTransactionId = None, ra_treasury = True, ra_eventDedupKey = None, ra_quoteId = None\<rparr>"

definition liquidation_tx ::
  "(rat \<Rightarrow> rat) \<Rightarrow> (string \<Rightarrow> decimal option) \<Rightarrow> fiat_choice \<Rightarrow> nat \<Rightarrow> int \<Rightarrow> rat option \<Rightarrow> fiat_db \<Rightarrow> unit fiat_outcome" where
  "liquidation_tx prec parse ch adminId amount treasuryRate s =
     (let s1 = ensureProfitFeesSingleton s;
          s2 = (if treasuryRate = None then ensureFiatPoolSingleton s1 else s1);
          related = ''liquidation_admin_'' @ show_nat adminId @ ''_'' @ show_nat (nat (fc_now ch)) in
      if ensured (fd_profitFees s2) < amount then (Inl INSUFFICIENT_PROFIT_BALANCE, s2)
      else
        let s3 = log_profit amount ''ARBITRAGE_SPREAD'' related (add_profit (- amount) s2) in
        and_then
          (case treasuryRate of
             Some rate \<Rightarrow>
               and_then (with_liquidity (recordReceipt parse (ctx_of ch)
                  (treasury_receipt related (round_dp 2 (prec (units_rat amount * rate)))) id) s3) (\<lambda>_ t. (Inr (), t))
           | None \<Rightarrow> (Inr (), add_pool amount s3))
          (\<lambda>_ s4. if \<not> fc_audit_ok ch then (Inl AuditRowFailed, s4)
                   else (Inr (), s4\<lparr>fd_auditLog := fd_auditLog s4 @ [''LIQUIDATE_PROFITS'']\<rparr>)))"

definition liquidateProfits ::
  "(rat \<Rightarrow> rat) \<Rightarrow> (string \<Rightarrow> decimal option) \<Rightarrow> fiat_choice \<Rightarrow> js_value \<Rightarrow> nat \<Rightarrow> (fiat_db \<Rightarrow> fiat_db) \<Rightarrow> fiat_db \<Rightarrow> int fiat_outcome" where
  "liquidateProfits prec parse ch amountIn adminId env s =
     (case toExactDecimal amountIn of
        Inl e \<Rightarrow> (Inl (AmountInvalid e), s)
      | Inr amount \<Rightarrow>
          (let run = (\<lambda>rate. and_then (transaction id (liquidation_tx prec parse ch adminId (int amount) rate) (env s))
                              (\<lambda>_ t. if fd_fiatPool t = None then (Inl PoolRowUnreadable, t) else (Inr (int amount), t))) in
           case fd_settings s of
             Some g \<Rightarrow>
               (if gs_fiatLiquidityAuthorityEnabled g
                then (let rate = number_of_column (gs_liveRetailRate g) in
                      if \<not> 0 < rate then (Inl TREASURY_RATE_UNAVAILABLE, s) else run (Some rate))
                else run None)
           | None \<Rightarrow> run None))"

section \<open>The legacy crypto deposit\<close>

definition legacy_deposit_posting :: "nat \<Rightarrow> string \<Rightarrow> js_num \<Rightarrow> string \<Rightarrow> post_params" where
  "legacy_deposit_posting userId txHash amountUsdc historyId =
     \<lparr>pp_idempotencyKey = ''ledger:deposit:crypto:'' @ txHash, pp_entryType = ''CUSTODY_DEPOSIT'',
      pp_description = ''Crypto deposit observed by legacy finance webhook - provisional custody clearing credit'',
      pp_lines = [\<lparr>li_account = ''clearing:custody:unverified:usdc'', li_debit = JNum amountUsdc, li_credit = JNull\<rparr>,
                  \<lparr>li_account = user_liability_code userId, li_debit = JNull, li_credit = JNum amountUsdc\<rparr>],
      pp_conversion = None, pp_reference = None, pp_userId = Some userId,
      pp_relatedEntity = Some ''transactionHistory'', pp_relatedEntityId = Some historyId\<rparr>"

definition upsert_counter :: "int \<Rightarrow> int option \<Rightarrow> int option" where
  "upsert_counter n b = Some (case b of None \<Rightarrow> n | Some c \<Rightarrow> c + n)"

definition legacy_deposit_tx ::
  "(string \<Rightarrow> string) \<Rightarrow> (int \<Rightarrow> int) \<Rightarrow> fiat_choice \<Rightarrow> nat \<Rightarrow> js_num \<Rightarrow> string \<Rightarrow> fiat_db \<Rightarrow> (fiat_row option) fiat_outcome" where
  "legacy_deposit_tx sha rnd ch userId amountUsdc txHash s =
     (if read_row txHash s \<noteq> None then (Inr None, s)
      else if find_by au_id userId (wd_users (fd_wallet s)) = None then (Inl UserNotFound, s)
      else
        let n = (case num_rat amountUsdc of None \<Rightarrow> 0 | Some x \<Rightarrow> round8 x);
            r = \<lparr>fr_id = fc_historyId ch, fr_userId = userId, fr_type = ''DEPOSIT_CRYPTO'', fr_amountUsdc = n, fr_feeUsdc = 0,
                 fr_txHash = Some txHash, fr_status = COMPLETED, fr_providerRef = None, fr_meta = None\<rparr> in
        and_then (increment_user userId n s) (\<lambda>_ s1.
        and_then (create_history r (s1\<lparr>fd_masterCrypto := upsert_counter n (fd_masterCrypto s1),
                                       fd_hotWallet := upsert_counter n (fd_hotWallet s1)\<rparr>)) (\<lambda>_ s2.
        and_then (post_fiat sha rnd ch (legacy_deposit_posting userId txHash amountUsdc (fr_id r)) s2) (\<lambda>_ s3.
          (Inr (Some r), s3)))))"

definition processCryptoDeposit ::
  "(string \<Rightarrow> string) \<Rightarrow> (int \<Rightarrow> int) \<Rightarrow> fiat_choice \<Rightarrow> nat \<Rightarrow> js_num \<Rightarrow> string \<Rightarrow> fiat_db \<Rightarrow> (fiat_row option) fiat_outcome" where
  "processCryptoDeposit sha rnd ch userId amountUsdc txHash s =
     (case transaction id (legacy_deposit_tx sha rnd ch userId amountUsdc txHash) s of
        (Inl e, t) \<Rightarrow> if e \<in> {HistoryUniqueViolation, FiatLedger DB_UNIQUE_VIOLATION} then (Inr None, t) else (Inl e, t)
      | (Inr r, t) \<Rightarrow> (Inr r, t))"

end
