(* ===== verification/Fiat_Books.thy ===== *)
theory Fiat_Books
  imports Fiat_Withdrawal
begin

text \<open>
  The books of fiat withdrawals over time. The invariant ties the withdrawal rows to the restricted
  obligations and to what the withdrawals booked on the ledger account of the reserves, and every call
  keeps, for every customer, the difference between the spendable balance and the ledger's liability.

  The histories interleave reservations, settlements and reversals with whatever the other services
  do, on the reserve account and the balances too, as long as those leave the withdrawal rows, their
  obligations and the ledger keys of the withdrawals alone. They start from a database without withdrawals of the time before the ledger reservation, and a
  reference does not start like the suffix of a settlement or reversal key (references are random
  ids or carry the prefix of the smart routes).
\<close>

section \<open>Quantities\<close>

definition available :: "nat \<Rightarrow> fiat_db \<Rightarrow> int" where
  "available i s = sum_rows (\<lambda>u. if au_id u = i then au_availableBalance u else 0) (wd_users (fd_wallet s))"

definition fiat_ledger :: "fiat_db \<Rightarrow> ledger" where
  "fiat_ledger s = ob_ledger (fd_books s)"

definition gap :: "nat \<Rightarrow> fiat_db \<Rightarrow> int" where
  "gap i s = available i s + account_net (user_liability_code i) (fiat_ledger s)"

definition users_ok :: "fiat_db \<Rightarrow> bool" where
  "users_ok s \<longleftrightarrow> distinct (map au_id (wd_users (fd_wallet s))) \<and> (\<forall>u \<in> set (wd_users (fd_wallet s)). 0 \<le> au_availableBalance u)"

lemma usdc_decimal_units:
  "toExactDecimal (usdc_decimal n) = (if n < 0 then Inl LEDGER_NEGATIVE_QUANTITY else Inr (nat n))"
proof (cases "n < 0")
  case False
  obtain c k where nd: "normal_dec (nat n) 8 = (c, k)" by (rule prod.exhaust)
  note nv = normal_dec_value [OF nd]
  have "usdc_decimal n = JDec (Dec False (nat n) 8)" using False by (simp add: usdc_decimal_def)
  then have "toExactDecimal (usdc_decimal n) = (if 8 < k then Inl LEDGER_INEXACT_QUANTITY else Inr (c * 10 ^ (8 - k)))"
    by (simp only: toExactDecimal.simps nd if_False Let_def case_prod_conv)
  then show ?thesis using False nv by (simp only: if_False not_less [symmetric])
qed (simp add: usdc_decimal_def)

lemma usdc_not_null [simp]: "usdc_decimal n \<noteq> JNull"
  by (simp add: usdc_decimal_def)

lemma usdc_quantity:
  "optional_quantity (usdc_decimal n) = (if n < 0 then Inl LEDGER_NEGATIVE_QUANTITY else Inr (nat n))"
  by (simp add: optional_quantity_def usdc_decimal_units del: toExactDecimal.simps)

section \<open>The lines of a posting\<close>

definition line_quantity :: "js_value \<Rightarrow> int" where
  "line_quantity v = (case optional_quantity v of Inr n \<Rightarrow> int n | Inl _ \<Rightarrow> 0)"

lemma line_quantity_simps [simp]: "line_quantity JNull = 0" "0 \<le> n \<Longrightarrow> line_quantity (usdc_decimal n) = n"
  by (simp_all add: line_quantity_def usdc_quantity) (simp add: optional_quantity_def)

definition line_moves :: "string \<Rightarrow> line_in \<Rightarrow> int" where
  "line_moves code l = (if li_account l = code then line_quantity (li_debit l) - line_quantity (li_credit l) else 0)"

lemma normalize_line_moves: "normalize_line l = Inr n \<Longrightarrow> line_net code n = line_moves code l"
  by (auto simp: normalize_line_def line_net_def line_moves_def line_quantity_def split: if_splits)

lemma lines_move:
  assumes "post sha rnd ch True p L = (Inr res, L')"
  shows "posting_moves rnd p code = sum_rows (line_moves code) (pp_lines p)"
    and "l \<in> set (pp_lines p) \<Longrightarrow> \<exists>n. normalize_line l = Inr n"
proof -
  obtain ls conv where v: "validate_posting rnd p = Inr (ls, conv)"
    using assms by (auto simp: post_def split: sum.splits)
  then have t: "list_all2 (\<lambda>l n. normalize_line l = Inr n) (pp_lines p) ls"
    by (auto simp: validate_posting_def traverse_sum_Inr split: option.splits)
  from t have "sum_rows (line_net code) ls = sum_rows (line_moves code) (pp_lines p)"
    by (induction rule: list_all2_induct) (auto simp: normalize_line_moves)
  then show "posting_moves rnd p code = sum_rows (line_moves code) (pp_lines p)"
    by (simp add: posting_moves_def posted_lines_def v)
  show "l \<in> set (pp_lines p) \<Longrightarrow> \<exists>n. normalize_line l = Inr n"
    using t by (auto simp: list_all2_conv_all_nth in_set_conv_nth)
qed

lemma posted_line_nonneg:
  assumes "post sha rnd ch True p L = (Inr res, L')" and "l \<in> set (pp_lines p)"
  shows "li_debit l = usdc_decimal n \<or> li_credit l = usdc_decimal n \<Longrightarrow> 0 \<le> n"
  using lines_move(2) [OF assms] by (auto simp: normalize_line_def usdc_quantity split: if_splits)


section \<open>Users\<close>

lemma available_add:
  assumes "distinct (map au_id us)" and "find_by au_id i us = Some u" and "P u"
  shows "sum_rows (\<lambda>u. if au_id u = j then au_availableBalance u else 0) (update_by (\<lambda>u. au_id u = i \<and> P u) (add_available n) us) =
    sum_rows (\<lambda>u. if au_id u = j then au_availableBalance u else 0) us + (if j = i then n else 0)"
  using sum_rows_update_key [OF assms(1,2), of "\<lambda>u. if au_id u = j then au_availableBalance u else 0" P "add_available n"]
    assms(3) find_by_SomeD [OF assms(2)]
  by (simp add: add_available_def)

lemma add_available_id [simp]: "au_id (add_available n u) = au_id u"
  by (simp add: add_available_def)

lemma increment_cases:
  assumes "increment_user i n s = (Inr x, t)" and "users_ok s"
  shows "available j t = available j s + (if j = i then n else 0)" and "0 \<le> n \<Longrightarrow> users_ok t"
    and "t = s\<lparr>fd_wallet := fd_wallet t\<rparr>"
proof -
  obtain u where u: "find_by au_id i (wd_users (fd_wallet s)) = Some u" and
    t: "t = s\<lparr>fd_wallet := (fd_wallet s)\<lparr>wd_users := update_by (\<lambda>u. au_id u = i) (add_available n) (wd_users (fd_wallet s))\<rparr>\<rparr>"
    using assms(1) by (auto simp: increment_user_def split: if_splits)
  have d: "distinct (map au_id (wd_users (fd_wallet s)))" using assms(2) by (simp add: users_ok_def)
  show "available j t = available j s + (if j = i then n else 0)"
    using available_add [OF d u, of "\<lambda>_. True" j n] by (simp add: available_def t)
  show "users_ok t" if "0 \<le> n"
    using assms(2) that by (auto simp: users_ok_def t set_update_by add_available_def)
  show "t = s\<lparr>fd_wallet := fd_wallet t\<rparr>" by (simp add: t)
qed

lemma debit_balance_cases:
  assumes "debitUserBalance i n s = (Inr x, t)" and "users_ok s"
  shows "available j t = available j s - (if j = i then n else 0)" and "users_ok t"
    and "t = s\<lparr>fd_wallet := fd_wallet t\<rparr>" and "wd_spends (fd_wallet t) = wd_spends (fd_wallet s)"
proof -
  let ?us = "wd_users (fd_wallet s)"
  have d: "distinct (map au_id ?us)" using assms(2) by (simp add: users_ok_def)
  have c: "count_by (\<lambda>u. au_id u = i \<and> has_available n u) ?us = 1" and
    t: "t = s\<lparr>fd_wallet := (fd_wallet s)\<lparr>wd_users := update_by (\<lambda>u. au_id u = i \<and> has_available n u) (add_available (- n)) ?us\<rparr>\<rparr>"
    using assms(1) by (auto simp: debitUserBalance_def Let_def split: if_splits)
  from c obtain u where u: "find_by au_id i ?us = Some u" "has_available n u"
    by (auto simp: count_by_key [OF d] split: option.splits if_splits)
  show "available j t = available j s - (if j = i then n else 0)"
    using available_add [OF d u(1), of "has_available n" j "- n"] u(2) by (simp add: available_def t)
  show "users_ok t"
    using assms(2) by (auto simp: users_ok_def t set_update_by add_available_def has_available_def)
  show "t = s\<lparr>fd_wallet := fd_wallet t\<rparr>" "wd_spends (fd_wallet t) = wd_spends (fd_wallet s)" by (simp_all add: t)
qed

text \<open>An AZM spend leaves the cash of every user alone.\<close>

definition same_cash :: "wallet_db \<Rightarrow> wallet_db \<Rightarrow> bool" where
  "same_cash w v \<longleftrightarrow> map cash (wd_users v) = map cash (wd_users w)"

lemma same_cash_available:
  assumes "same_cash (fd_wallet s) (fd_wallet t)"
  shows "available i t = available i s" and "users_ok s \<Longrightarrow> users_ok t"
proof -
  have "sum_rows (\<lambda>u. if au_id u = i then au_availableBalance u else 0) us =
      sum_list (map (\<lambda>(j, b). if j = i then b else 0) (map cash us))" for us
    by (induction us) (simp_all add: cash_def)
  then show "available i t = available i s" using assms by (simp only: available_def same_cash_def)
  have ids: "map au_id us = map fst (map cash us)" for us by (simp add: cash_def)
  have pos: "(\<forall>u \<in> set us. 0 \<le> au_availableBalance u) = (\<forall>x \<in> set (map cash us). 0 \<le> snd x)" for us
    by (simp add: cash_def)
  show "users_ok t" if "users_ok s"
    using assms that unfolding users_ok_def same_cash_def pos ids by simp
qed

lemma same_cash_refl [simp]: "same_cash w w"
  by (simp add: same_cash_def)

lemma map_cash_update: "(\<And>u. cash (f u) = cash u) \<Longrightarrow> map cash (update_by P f us) = map cash us"
  by (induction us) auto

lemma discount_same_cash:
  assumes "applyFeeDiscountInTransaction newId userId tierId ref w = (Inr d, v)"
  shows "same_cash w v"
proof -
  obtain a r where run: "debitAzmWithClient newId a id w = (Inr r, v)"
    using assms by (auto simp: applyFeeDiscountInTransaction_def and_then_Inr split: if_splits option.splits)
  then show ?thesis
    by (cases rule: debit_cases) (auto simp: same_cash_def map_cash_update)
qed

section \<open>What each step leaves alone\<close>

text \<open>Only the counters and logs that no book reads differ.\<close>

definition same_accounts :: "fiat_db \<Rightarrow> fiat_db \<Rightarrow> bool" where
  "same_accounts s t \<longleftrightarrow>
     fd_history t = fd_history s \<and> fd_books t = fd_books s \<and> same_cash (fd_wallet s) (fd_wallet t)"

lemma same_accounts_refl [simp]: "same_accounts s s"
  by (simp add: same_accounts_def)

lemma same_accounts_trans: "same_accounts s t \<Longrightarrow> same_accounts t u \<Longrightarrow> same_accounts s u"
  by (simp add: same_accounts_def same_cash_def)

lemma counters_same [simp]:
  "same_accounts s (ensureProfitFeesSingleton t) = same_accounts s t" "same_accounts s (ensureFiatPoolSingleton t) = same_accounts s t"
  "same_accounts s (ensureMasterCryptoSingleton t) = same_accounts s t" "same_accounts s (add_profit n t) = same_accounts s t"
  "same_accounts s (add_master n t) = same_accounts s t" "same_accounts s (add_pool n t) = same_accounts s t"
  "same_accounts s (log_profit n a b t) = same_accounts s t" "same_accounts s (realize_full_fee a n t) = same_accounts s t"
  "same_accounts s (t\<lparr>fd_routes := x\<rparr>) = same_accounts s t"
  by (simp_all add: same_accounts_def ensureProfitFeesSingleton_def ensureFiatPoolSingleton_def ensureMasterCryptoSingleton_def
      add_profit_def add_master_def add_pool_def log_profit_def realize_full_fee_def Let_def)

lemma with_liquidity_same: "with_liquidity f s = (r, t) \<Longrightarrow> same_accounts s t"
  by (auto simp: with_liquidity_def same_accounts_def split: prod.splits)

lemma with_operations_same: "with_operations f s = (r, t) \<Longrightarrow> same_accounts s t"
  by (auto simp: with_operations_def same_accounts_def split: prod.splits)

lemma create_record_same: "create_withdrawal_record ch rec r s = (x, t) \<Longrightarrow> same_accounts s t"
  by (auto simp: create_withdrawal_record_def same_accounts_def split: option.splits if_splits)

lemma reserve_pool_same: "reserveFiatPool n s = (x, t) \<Longrightarrow> same_accounts s t"
  by (auto simp: reserveFiatPool_def same_accounts_def split: option.splits if_splits)

lemma same_accounts_gap:
  assumes "same_accounts s t"
  shows "gap i t = gap i s" and "users_ok s \<Longrightarrow> users_ok t" and "fiat_ledger t = fiat_ledger s"
  using assms same_cash_available by (auto simp: same_accounts_def gap_def fiat_ledger_def)


section \<open>Reserving\<close>

text \<open>The effect of a booked posting on the accounts, under a key that was not used.\<close>

lemma post_fiat_cases:
  assumes "post_fiat sha rnd ch p s = (Inr res, t)"
  obtains L where "post sha rnd (fc_ledger ch) True p (fiat_ledger s) = (Inr res, L)"
    and "t = s\<lparr>fd_books := (fd_books s)\<lparr>ob_ledger := L\<rparr>\<rparr>"
proof -
  obtain r L where "post sha rnd (fc_ledger ch) True p (ob_ledger (fd_books s)) = (r, L)" by fastforce
  with assms that show thesis by (cases r) (auto simp: post_fiat_def fiat_ledger_def)
qed

lemma with_obligations_cases:
  assumes "with_obligations f s = (Inr a, t)"
  obtains b where "f (fd_books s) = (Inr a, b)" and "t = s\<lparr>fd_books := b\<rparr>"
proof -
  obtain r b where "f (fd_books s) = (r, b)" by fastforce
  with assms that show thesis by (cases r) (auto simp: with_obligations_def)
qed

lemma posted_net:
  assumes "post sha rnd ch True p L = (Inr res, L')" and "\<not> booked_key (pp_idempotencyKey p) L"
  shows "account_net code L' = account_net code L + sum_rows (line_moves code) (pp_lines p)"
  using lp.book_net [OF assms(1)] assms(2) lines_move(1) [OF assms(1)] by simp

lemma user_code_differs [simp]:
  "user_liability_code i \<noteq> ''restricted:reserves'' " "user_liability_code i \<noteq> ''clearing:fiat:offramp:usdc''"
  "user_liability_code i \<noteq> ''revenue:fees''" "''restricted:reserves'' \<noteq> user_liability_code i"
  "''clearing:fiat:offramp:usdc'' \<noteq> user_liability_code i" "''revenue:fees'' \<noteq> user_liability_code i"
  by (simp_all add: user_liability_code_def)

lemma user_code_inject [simp]: "user_liability_code i = user_liability_code j \<longleftrightarrow> i = j"
  by (simp add: user_liability_code_def)

lemma reserve_discount_same:
  assumes "reserve_discount ch userId reference opts s = (Inr d, t)"
  shows "same_accounts s t"
proof (cases "wo_feeDiscountTier opts")
  case (Some tier)
  obtain r w where "applyFeeDiscountInTransaction (fc_spendId ch) userId tier reference (fd_wallet s) = (r, w)" by fastforce
  with assms Some show ?thesis
    using discount_same_cash by (cases r) (auto simp: reserve_discount_def with_wallet_def same_accounts_def)
qed (use assms in \<open>simp add: reserve_discount_def\<close>)

lemma reserve_funds_cases:
  assumes "reserve_funds ch on userId reference opts q s = (Inr d, t)" and "users_ok s"
  shows "fd_history t = fd_history s" and "fd_books t = fd_books s" and "users_ok t"
    and "available i t = available i s - (if i = userId then wq_totalDeduct q else 0)"
proof -
  obtain s1 s2 s3 where 1: "reserve_pool on (wq_amount q) s = (Inr (), s1)" and 2: "debitUserBalance userId (wq_totalDeduct q) s1 = (Inr (), s2)"
    and 3: "reserve_discount ch userId reference opts s2 = (Inr d, s3)"
    and t: "t = add_master (wq_amount q) (ensureMasterCryptoSingleton (ensureProfitFeesSingleton s3))"
    using assms(1) by (auto simp: reserve_funds_def and_then_Inr split: option.splits if_splits)
  have 1: "same_accounts s s1" using 1 reserve_pool_same by (auto simp: reserve_pool_def split: if_splits)
  have ok1: "users_ok s1" using same_accounts_gap(2) [OF 1 assms(2)] .
  note deb = debit_balance_cases [OF 2 ok1]
  have "same_accounts s2 s3" using reserve_discount_same [OF 3] .
  then have st: "same_accounts s2 t" by (simp add: t)
  have h2: "fd_history s2 = fd_history s1" "fd_books s2 = fd_books s1" using deb(3) by (metis fiat_db.ext_inject fiat_db.surjective fiat_db.update_convs)+
  show "fd_history t = fd_history s" "fd_books t = fd_books s" using st 1 h2 by (simp_all add: same_accounts_def)
  show "users_ok t" using same_accounts_gap(2) [OF st deb(2)] .
  have "available i t = available i s2" "available i s1 = available i s"
    using st 1 same_cash_available(1) by (auto simp: same_accounts_def)
  then show "available i t = available i s - (if i = userId then wq_totalDeduct q else 0)" using deb(1) by simp
qed


section \<open>Rows by hash\<close>

text \<open>The unique index on the hash of the history rows admits any number of rows without a hash.\<close>

definition hashes_distinct :: "fiat_row list \<Rightarrow> bool" where
  "hashes_distinct rows \<longleftrightarrow> distinct (filter (\<lambda>h. h \<noteq> None) (map fr_txHash rows))"

lemma hashes_distinct_Nil [simp]: "hashes_distinct []"
  by (simp add: hashes_distinct_def)

lemma hashes_distinct_Cons [simp]:
  "hashes_distinct (r # rows) \<longleftrightarrow> (fr_txHash r = None \<or> fr_txHash r \<notin> fr_txHash ` set rows) \<and> hashes_distinct rows"
  by (auto simp: hashes_distinct_def)

lemma hashes_distinct_snoc [simp]:
  "hashes_distinct (rows @ [r]) \<longleftrightarrow> (fr_txHash r = None \<or> fr_txHash r \<notin> fr_txHash ` set rows) \<and> hashes_distinct rows"
  by (auto simp: hashes_distinct_def)

lemma hash_unique:
  "hashes_distinct rows \<Longrightarrow> find_by fr_txHash (Some h) rows = Some r \<Longrightarrow> x \<in> set rows \<Longrightarrow> fr_txHash x = Some h \<Longrightarrow> x = r"
  by (induction rows) (auto simp: image_iff split: if_splits dest!: find_by_Some)

lemma hash_count:
  assumes "hashes_distinct rows"
  shows "count_by (\<lambda>r. fr_txHash r = Some h \<and> P r) rows =
    (case find_by fr_txHash (Some h) rows of None \<Rightarrow> 0 | Some r \<Rightarrow> if P r then 1 else 0)"
  using assms
proof (induction rows)
  case (Cons a rows)
  show ?case
  proof (cases "fr_txHash a = Some h")
    case True
    then have "find_by fr_txHash (Some h) rows = None" using Cons.prems by (simp add: find_by_None)
    with Cons True show ?thesis by simp
  qed (use Cons in simp)
qed simp

lemma hash_claims:
  "hashes_distinct rows \<Longrightarrow>
   claims fr_txHash guard (Some h) rows = (case find_by fr_txHash (Some h) rows of None \<Rightarrow> 0 | Some r \<Rightarrow> if guard r then 1 else 0)"
  by (simp add: claims_def hash_count)

lemma hash_sum:
  assumes "hashes_distinct rows" and "find_by fr_txHash (Some h) rows = Some r"
  shows "sum_rows v (update_by (\<lambda>x. fr_txHash x = Some h \<and> P x) f rows) = sum_rows v rows + (if P r then v (f r) - v r else 0)"
  using assms
proof (induction rows)
  case (Cons a rows)
  show ?case
  proof (cases "fr_txHash a = Some h")
    case True
    then have "update_by (\<lambda>x. fr_txHash x = Some h \<and> P x) f rows = rows"
      using Cons.prems(1) by (intro update_by_none) (auto simp: image_iff)
    with Cons True show ?thesis by simp
  qed (use Cons in simp)
qed simp

section \<open>The invariant\<close>

text \<open>The withdrawals of the service carry their reference as hash. The controller writes one more kind of
  row of their type, the frozen request of a failed audit, which has no hash and which no operation finds.\<close>

definition plain_reference :: "string \<Rightarrow> bool" where
  "plain_reference ref \<longleftrightarrow> take 7 ref \<noteq> ''settle:'' \<and> take 8 ref \<noteq> ''reverse:''"

definition fiat_withdrawal :: "fiat_row \<Rightarrow> bool" where
  "fiat_withdrawal r \<longleftrightarrow> fr_type r = ''WITHDRAWAL_FIAT'' \<and> fr_txHash r \<noteq> None"

definition reserved_total :: "(int \<Rightarrow> int) \<Rightarrow> fiat_row \<Rightarrow> int" where
  "reserved_total rnd r = rnd (fr_amountUsdc r + fr_feeUsdc r)"

definition open_amount :: "(int \<Rightarrow> int) \<Rightarrow> fiat_row \<Rightarrow> int" where
  "open_amount rnd r = (if fiat_withdrawal r \<and> is_pending r then reserved_total rnd r else 0)"

text \<open>The obligations of the service, by reference: wallet withdrawals create obligations of the same source
  type under references of their own.\<close>

definition fiat_obligation :: "obligation \<Rightarrow> bool" where
  "fiat_obligation x \<longleftrightarrow> take 16 (ob_reference x) = ''withdrawal:fiat:''"

definition fiat_active :: "obligation \<Rightarrow> int" where
  "fiat_active x = (if fiat_obligation x \<and> ob_active x then ob_amount x else 0)"

lemma fiat_obligation_ref [simp]: "ob_reference x = obligation_ref ref \<Longrightarrow> fiat_obligation x"
  by (simp add: fiat_obligation_def obligation_ref_def)

fun expected_status :: "tx_status \<Rightarrow> obligation_status" where
  "expected_status PENDING = ACTIVE"
| "expected_status COMPLETED = Restricted_Obligations.RELEASED"
| "expected_status FAILED = CANCELLED"
| "expected_status FROZEN_DISPUTE = ACTIVE"

definition backed_by :: "(int \<Rightarrow> int) \<Rightarrow> fiat_row \<Rightarrow> obligation \<Rightarrow> bool" where
  "backed_by rnd r x \<longleftrightarrow>
     ob_amount x = reserved_total rnd r \<and> 0 < ob_amount x \<and> ob_status x = expected_status (fr_status r) \<and>
     ob_sourceType x = ''PENDING_FIAT_WITHDRAWAL''"

definition withdrawal_ok :: "(int \<Rightarrow> int) \<Rightarrow> obligation list \<Rightarrow> fiat_row \<Rightarrow> bool" where
  "withdrawal_ok rnd os r \<longleftrightarrow>
     isDeferredWithdrawal r \<and> ledger_reserved r \<and> fr_status r \<noteq> FROZEN_DISPUTE \<and>
     (\<exists>ref x. fr_txHash r = Some ref \<and> plain_reference ref \<and> find_by ob_reference (obligation_ref ref) os = Some x \<and> backed_by rnd r x)"

definition row_in_status :: "fiat_db \<Rightarrow> string \<Rightarrow> tx_status \<Rightarrow> bool" where
  "row_in_status s ref st \<longleftrightarrow> (\<exists>r. read_row ref s = Some r \<and> fr_status r = st \<and> fiat_withdrawal r)"

definition legacy_key :: "string \<Rightarrow> string" where
  "legacy_key h = ''ledger:deposit:crypto:'' @ h"

definition withdrawal_refs :: "fiat_db \<Rightarrow> string option set" where
  "withdrawal_refs s = fr_txHash ` set (filter fiat_withdrawal (fd_history s))"

definition withdrawal_keys :: "fiat_db \<Rightarrow> bool" where
  "withdrawal_keys s \<longleftrightarrow>
     (\<forall>ref. plain_reference ref \<and> booked_key (reserve_key ref) (fiat_ledger s) \<longrightarrow> Some ref \<in> withdrawal_refs s) \<and>
     (\<forall>ref. booked_key (settle_key ref) (fiat_ledger s) \<longrightarrow> row_in_status s ref COMPLETED) \<and>
     (\<forall>ref. booked_key (reverse_key ref) (fiat_ledger s) \<longrightarrow> row_in_status s ref FAILED) \<and>
     (\<forall>ref. obligation_ref ref \<in> ob_reference ` set (obligations (fd_books s)) \<longrightarrow> Some ref \<in> withdrawal_refs s) \<and>
     (\<forall>h. booked_key (legacy_key h) (fiat_ledger s) \<longrightarrow> Some h \<in> fr_txHash ` set (fd_history s))"

text \<open>The keys under which the service books, and no other service does.\<close>

definition withdrawal_key :: "string \<Rightarrow> bool" where
  "withdrawal_key k \<longleftrightarrow> take 23 k = ''ledger:withdrawal:fiat:''"

definition reserves_follow :: "(int \<Rightarrow> int) \<Rightarrow> fiat_db \<Rightarrow> bool" where
  "reserves_follow rnd s \<longleftrightarrow>
     keyed_net withdrawal_key ''restricted:reserves'' (fiat_ledger s) = - sum_rows (open_amount rnd) (fd_history s) \<and>
     sum_rows fiat_active (obligations (fd_books s)) = sum_rows (open_amount rnd) (fd_history s)"

definition fiat_inv :: "(int \<Rightarrow> int) \<Rightarrow> fiat_db \<Rightarrow> bool" where
  "fiat_inv rnd s \<longleftrightarrow>
     users_ok s \<and> hashes_distinct (fd_history s) \<and> distinct (map ob_reference (obligations (fd_books s))) \<and>
     (\<forall>r \<in> set (fd_history s). fiat_withdrawal r \<longrightarrow> withdrawal_ok rnd (obligations (fd_books s)) r) \<and>
     withdrawal_keys s \<and> reserves_follow rnd s \<and> accounts_classified (fiat_ledger s)"

text \<open>A withdrawal row keeps its economics and leaves \<open>PENDING\<close> once. A call of the service also keeps
  the gap of every customer.\<close>

definition same_withdrawal :: "fiat_row \<Rightarrow> fiat_row \<Rightarrow> bool" where
  "same_withdrawal r r' \<longleftrightarrow>
     fr_type r' = fr_type r \<and> fr_txHash r' = fr_txHash r \<and>
     fr_id r' = fr_id r \<and> fr_userId r' = fr_userId r \<and> fr_amountUsdc r' = fr_amountUsdc r \<and> fr_feeUsdc r' = fr_feeUsdc r \<and>
     fr_meta r' = fr_meta r \<and> (fr_status r' = fr_status r \<or> is_pending r)"

definition fiat_evolves :: "fiat_db \<Rightarrow> fiat_db \<Rightarrow> bool" where
  "fiat_evolves s t \<longleftrightarrow>
     (\<forall>ref r. read_row ref s = Some r \<and> fiat_withdrawal r \<longrightarrow> (\<exists>r'. read_row ref t = Some r' \<and> same_withdrawal r r'))"

definition fiat_moves :: "fiat_db \<Rightarrow> fiat_db \<Rightarrow> bool" where
  "fiat_moves s t \<longleftrightarrow> fiat_evolves s t \<and> (\<forall>i. gap i t = gap i s)"

lemma same_withdrawal_refl [simp]: "same_withdrawal r r"
  by (simp add: same_withdrawal_def)

lemma transp_same_withdrawal: "transp same_withdrawal"
  by (rule transpI) (auto simp: same_withdrawal_def is_pending_def fiat_withdrawal_def)

lemma same_withdrawal_kind [simp]: "same_withdrawal r r' \<Longrightarrow> fiat_withdrawal r' = fiat_withdrawal r"
  by (simp add: same_withdrawal_def fiat_withdrawal_def)

lemma fiat_moves_evolves [simp]: "fiat_moves s t \<Longrightarrow> fiat_evolves s t"
  by (simp add: fiat_moves_def)

lemma fiat_evolves_refl [simp]: "fiat_evolves s s"
  by (simp add: fiat_evolves_def)

lemma rows_evolve_fiat:
  "rows_evolve fr_txHash same_withdrawal (fd_history s) (fd_history t) \<Longrightarrow> fiat_evolves s t"
  by (auto simp: fiat_evolves_def read_row_def dest: rows_evolveD)

lemma fiat_evolves_trans: "fiat_evolves s t \<Longrightarrow> fiat_evolves t u \<Longrightarrow> fiat_evolves s u"
  unfolding fiat_evolves_def using transpD [OF transp_same_withdrawal] same_withdrawal_kind by metis

lemma key_shapes:
  "settle_key ref = reserve_key (''settle:'' @ ref)" "reverse_key ref = reserve_key (''reverse:'' @ ref)"
  by (simp_all add: settle_key_def reverse_key_def reserve_key_def)

lemma keys_differ [simp]:
  "reserve_key a = reserve_key b \<longleftrightarrow> a = b" "settle_key a = settle_key b \<longleftrightarrow> a = b" "reverse_key a = reverse_key b \<longleftrightarrow> a = b"
  "settle_key a \<noteq> reverse_key b" "reverse_key b \<noteq> settle_key a" "obligation_ref a = obligation_ref b \<longleftrightarrow> a = b"
  by (simp_all add: settle_key_def reverse_key_def reserve_key_def obligation_ref_def)

lemma legacy_key_differs [simp]:
  "legacy_key h \<noteq> reserve_key a" "legacy_key h \<noteq> settle_key a" "legacy_key h \<noteq> reverse_key a" "legacy_key g = legacy_key h \<longleftrightarrow> g = h"
  "reserve_key a \<noteq> legacy_key h" "settle_key a \<noteq> legacy_key h" "reverse_key a \<noteq> legacy_key h"
  by (simp_all add: legacy_key_def settle_key_def reverse_key_def reserve_key_def)

lemma plain_key [simp]:
  "plain_reference a \<Longrightarrow> reserve_key a \<noteq> settle_key b" "plain_reference a \<Longrightarrow> reserve_key a \<noteq> reverse_key b"
  "plain_reference a \<Longrightarrow> settle_key b \<noteq> reserve_key a" "plain_reference a \<Longrightarrow> reverse_key b \<noteq> reserve_key a"
  by (auto simp: key_shapes plain_reference_def)

lemma service_keys [simp]:
  "withdrawal_key (reserve_key ref)" "withdrawal_key (settle_key ref)" "withdrawal_key (reverse_key ref)" "\<not> withdrawal_key (legacy_key h)"
  by (simp_all add: withdrawal_key_def reserve_key_def settle_key_def reverse_key_def legacy_key_def)

lemma posted_keyed:
  assumes "post sha rnd ch True p L = (Inr res, L')" and "\<not> booked_key (pp_idempotencyKey p) L" and "withdrawal_key (pp_idempotencyKey p)"
  shows "keyed_net withdrawal_key code L' = keyed_net withdrawal_key code L + sum_rows (line_moves code) (pp_lines p)"
  using post_keyed_net [OF assms(1)] assms(2,3) lines_move(1) [OF assms(1)] by simp

lemma same_accounts_keeps:
  assumes "same_accounts s t"
  shows "fiat_inv rnd s \<Longrightarrow> fiat_inv rnd t" and "fiat_moves s t"
proof -
  have h: "fd_history t = fd_history s" "fd_books t = fd_books s" using assms by (simp_all add: same_accounts_def)
  show "fiat_inv rnd t" if "fiat_inv rnd s"
    using that same_accounts_gap(2) [OF assms] h
    by (auto simp: fiat_inv_def withdrawal_keys_def reserves_follow_def row_in_status_def read_row_def fiat_ledger_def withdrawal_refs_def)
  show "fiat_moves s t" using same_accounts_gap(1) [OF assms] h by (auto simp: fiat_moves_def intro!: rows_evolve_fiat rows_evolve_refl)
qed

section \<open>A reservation\<close>

lemma reserve_tx_cases:
  assumes run: "reserve_tx sha rnd parse ch on userId reference opts referrer q s = (Inr r, t)" and ok: "users_ok s"
    and fresh: "obligation_ref reference \<notin> ob_reference ` set (obligations (fd_books s))"
  obtains d L res where
    "r = withdrawal_history ch userId reference q (reserve_meta referrer q d)"
    "fd_history t = fd_history s @ [r]" "Some reference \<notin> fr_txHash ` set (fd_history s)"
    "users_ok t" "\<And>i. available i t = available i s - (if i = userId then wq_totalDeduct q else 0)"
    "post sha rnd (fc_ledger ch) True (reserve_posting userId reference (fr_id r) (wq_totalDeduct q)) (fiat_ledger s) = (Inr res, L)"
    "0 < wq_totalDeduct q"
    "fd_books t = \<lparr>obligations = obligations (fd_books s) @
       [new_obligation (reserve_obligation userId reference (wq_totalDeduct q) (lt_id (pr_transaction res))) (nat (wq_totalDeduct q))],
       ob_ledger = L\<rparr>"
proof -
  obtain d s1 s2 s3 s4 s5 where 1: "reserve_funds ch on userId reference opts q s = (Inr d, s1)"
    and r: "r = withdrawal_history ch userId reference q (reserve_meta referrer q d)"
    and 2: "create_history r s1 = (Inr (), s2)" and 3: "create_withdrawal_record ch (wo_record opts) r s2 = (Inr (), s3)"
    and 4: "reserve_payout parse ch on opts reference q r s3 = (Inr (), s4)"
    and 5: "book_reservation sha rnd ch userId reference q r s4 = (Inr (), s5)"
    and 6: "with_operations (commitOperation (wo_operation opts) 202 (Some (wo_response opts))) s5 = (Inr (), t)"
    using run by (auto simp: reserve_tx_def and_then_Inr Let_def)
  note f = reserve_funds_cases [OF 1 ok]
  have h2: "s2 = s1\<lparr>fd_history := fd_history s1 @ [r]\<rparr>" "Some reference \<notin> fr_txHash ` set (fd_history s1)"
    using 2 by (auto simp: create_history_def r withdrawal_history_def split: if_splits)
  have s24: "same_accounts s2 s4"
    using create_record_same [OF 3] 4 with_liquidity_same same_accounts_trans
    by (fastforce simp: reserve_payout_def and_then_Inr split: if_splits)
  have s2: "users_ok s2" "available i s2 = available i s1" "fd_books s2 = fd_books s" for i
    using f(2,3) by (simp_all add: h2(1) users_ok_def available_def)
  have b4: "fd_books s4 = fd_books s" "fd_history s4 = fd_history s @ [r]"
    using s24 s2(3) h2(1) f(1) by (simp_all add: same_accounts_def)
  obtain res a b u where p: "post_fiat sha rnd ch (reserve_posting userId reference (fr_id r) (wq_totalDeduct q)) s4 = (Inr res, u)"
    and o: "with_obligations (createForPendingWithdrawal id
              (reserve_obligation userId reference (wq_totalDeduct q) (lt_id (pr_transaction res)))) u = (Inr (a, b), s5)"
    using 5 by (auto simp: book_reservation_def and_then_Inr)
  obtain L where L: "post sha rnd (fc_ledger ch) True (reserve_posting userId reference (fr_id r) (wq_totalDeduct q)) (fiat_ledger s4) = (Inr res, L)"
    and u: "u = s4\<lparr>fd_books := (fd_books s4)\<lparr>ob_ledger := L\<rparr>\<rparr>" by (rule post_fiat_cases [OF p])
  obtain os where os: "createForPendingWithdrawal id
        (reserve_obligation userId reference (wq_totalDeduct q) (lt_id (pr_transaction res))) (fd_books u) = (Inr (a, b), os)"
    and s5: "s5 = u\<lparr>fd_books := os\<rparr>" by (rule with_obligations_cases [OF o])
  from os have "\<exists>n. toExactDecimal (usdc_decimal (wq_totalDeduct q)) = Inr n \<and> 0 < n \<and>
      os = (fd_books u)\<lparr>obligations := obligations (fd_books u) @
        [new_obligation (reserve_obligation userId reference (wq_totalDeduct q) (lt_id (pr_transaction res))) n]\<rparr>"
  proof (cases rule: create_cases)
    case existing
    then have "obligation_ref reference \<in> ob_reference ` set (obligations (fd_books s))"
      using find_by_Some [OF existing(3)] by (auto simp: reserve_obligation_def u b4(1) image_iff intro: sym)
    with fresh show ?thesis by simp
  next
    case (fresh n)
    then show ?thesis by (auto simp: reserve_obligation_def)
  qed
  then have q: "0 < wq_totalDeduct q" and
    os: "os = (fd_books u)\<lparr>obligations := obligations (fd_books u) @
        [new_obligation (reserve_obligation userId reference (wq_totalDeduct q) (lt_id (pr_transaction res))) (nat (wq_totalDeduct q))]\<rparr>"
    by (auto simp: usdc_decimal_units split: if_splits)
  have st: "same_accounts s5 t" using with_operations_same [OF 6] .
  have "fd_wallet s5 = fd_wallet s4" by (simp add: s5 u)
  then have w: "same_cash (fd_wallet s2) (fd_wallet t)" using st s24 by (simp add: same_accounts_def same_cash_def)
  have av: "available i t = available i s1" for i
    using same_cash_available(1) [OF w] s2(2) by simp
  have "users_ok t" using same_cash_available(2) [OF w s2(1)] .
  with that r h2(2) f q L st av show thesis
    by (auto simp: same_accounts_def s5 u os b4 fiat_ledger_def)
qed


lemma reserve_keeps:
  assumes inv: "fiat_inv rnd s" and run: "reserve_tx sha rnd parse ch on userId reference opts referrer q s = (Inr r, t)"
    and pl: "plain_reference reference" and q: "wq_totalDeduct q = rnd (wq_amount q + wq_exitFee q)"
  shows "fiat_inv rnd t \<and> fiat_moves s t"
proof -
  have ok: "users_ok s" and keys: "withdrawal_keys s" and follow: "reserves_follow rnd s"
    and dh: "hashes_distinct (fd_history s)" and dob: "distinct (map ob_reference (obligations (fd_books s)))"
    using inv by (simp_all add: fiat_inv_def)
  have "Some reference \<notin> fr_txHash ` set (fd_history s)"
    using run by (auto simp: reserve_tx_def and_then_Inr Let_def create_history_def withdrawal_history_def split: if_splits
        dest!: reserve_funds_cases(1) [OF _ ok])
  then have fresh: "obligation_ref reference \<notin> ob_reference ` set (obligations (fd_books s))"
    and unbooked: "\<not> booked_key (reserve_key reference) (fiat_ledger s)"
    using keys pl by (auto simp: withdrawal_keys_def withdrawal_refs_def)
  obtain d L res where r: "r = withdrawal_history ch userId reference q (reserve_meta referrer q d)"
    and h: "fd_history t = fd_history s @ [r]" and new: "Some reference \<notin> fr_txHash ` set (fd_history s)"
    and okt: "users_ok t" and av: "\<And>i. available i t = available i s - (if i = userId then wq_totalDeduct q else 0)"
    and p: "post sha rnd (fc_ledger ch) True (reserve_posting userId reference (fr_id r) (wq_totalDeduct q)) (fiat_ledger s) = (Inr res, L)"
    and pos: "0 < wq_totalDeduct q"
    and b: "fd_books t = \<lparr>obligations = obligations (fd_books s) @
       [new_obligation (reserve_obligation userId reference (wq_totalDeduct q) (lt_id (pr_transaction res))) (nat (wq_totalDeduct q))],
       ob_ledger = L\<rparr>"
    by (rule reserve_tx_cases [OF run ok fresh]) blast
  let ?x = "new_obligation (reserve_obligation userId reference (wq_totalDeduct q) (lt_id (pr_transaction res))) (nat (wq_totalDeduct q))"
  have L: "fiat_ledger t = L" by (simp add: fiat_ledger_def b)
  have net: "account_net code L = account_net code (fiat_ledger s) +
      (if code = user_liability_code userId then wq_totalDeduct q else 0) - (if code = ''restricted:reserves'' then wq_totalDeduct q else 0)" for code
    using posted_net [OF p] unbooked pos by (auto simp: reserve_posting_def line_moves_def)
  have keyed: "keyed_net withdrawal_key ''restricted:reserves'' L =
      keyed_net withdrawal_key ''restricted:reserves'' (fiat_ledger s) - wq_totalDeduct q"
    using posted_keyed [OF p] unbooked pos by (auto simp: reserve_posting_def line_moves_def)
  have booked: "booked_key k L \<longleftrightarrow> booked_key k (fiat_ledger s) \<or> k = reserve_key reference" for k
    using lp.book_key [OF p] by (simp add: reserve_posting_def)
  have rt: "fiat_withdrawal r" "is_pending r" "fr_txHash r = Some reference" "reserved_total rnd r = wq_totalDeduct q"
    "isDeferredWithdrawal r" "ledger_reserved r" "fr_status r = PENDING"
    by (simp_all add: r withdrawal_history_def fiat_withdrawal_def is_pending_def reserved_total_def q isDeferredWithdrawal_def
        ledger_reserved_def reserve_meta_def)
  have x: "ob_reference ?x = obligation_ref reference" "fiat_active ?x = wq_totalDeduct q" "backed_by rnd r ?x"
    using pos rt by (simp_all add: new_obligation_def reserve_obligation_def fiat_active_def ob_active_def backed_by_def fiat_obligation_def obligation_ref_def)
  have find_new: "find_by ob_reference (obligation_ref reference) (obligations (fd_books t)) = Some ?x"
    using fresh x(1) by (simp add: b find_by_None [symmetric])
  have "withdrawal_ok rnd (obligations (fd_books t)) r'" if "r' \<in> set (fd_history t)" "fiat_withdrawal r'" for r'
  proof (cases "r' = r")
    case True
    then show ?thesis using rt pl find_new x(3) by (auto simp: withdrawal_ok_def)
  next
    case False
    then have "withdrawal_ok rnd (obligations (fd_books s)) r'" using that inv by (simp add: h fiat_inv_def)
    then show ?thesis by (fastforce simp: withdrawal_ok_def b)
  qed
  moreover have "withdrawal_keys t"
    using keys pl h rt(1,3) booked fresh x(1)
    by (auto simp: withdrawal_keys_def withdrawal_refs_def L row_in_status_def read_row_def b)
  moreover have "reserves_follow rnd t"
    using follow keyed rt x(2) by (simp add: reserves_follow_def L h b open_amount_def)
  moreover have "hashes_distinct (fd_history t)" "distinct (map ob_reference (obligations (fd_books t)))"
    using dh dob new fresh rt(3) x(1) by (auto simp: h b)
  moreover have "accounts_classified (fiat_ledger t)" using post_classified [OF p] inv by (simp add: L fiat_inv_def)
  ultimately have "fiat_inv rnd t" using okt by (auto simp: fiat_inv_def)
  moreover have "gap i t = gap i s" for i using av net by (simp add: gap_def L)
  ultimately show ?thesis by (auto simp: fiat_moves_def h intro!: rows_evolve_fiat rows_evolve_append)
qed


section \<open>Closing a withdrawal\<close>

definition keeps_row :: "(fiat_row \<Rightarrow> fiat_row) \<Rightarrow> bool" where
  "keeps_row f \<longleftrightarrow>
     (\<forall>r. fr_id (f r) = fr_id r \<and> fr_userId (f r) = fr_userId r \<and> fr_type (f r) = fr_type r \<and> fr_amountUsdc (f r) = fr_amountUsdc r \<and>
          fr_feeUsdc (f r) = fr_feeUsdc r \<and> fr_txHash (f r) = fr_txHash r \<and> fr_meta (f r) = fr_meta r)"

interpretation paid: conditional_claim fr_txHash is_pending "complete_row providerTxId" for providerTxId
  by unfold_locales (simp_all add: complete_row_def is_pending_def)

interpretation failed: conditional_claim fr_txHash is_pending fail_row
  by unfold_locales (simp_all add: fail_row_def is_pending_def)

lemma keeps_row_moves [simp]: "keeps_row (complete_row tid)" "keeps_row fail_row"
  by (simp_all add: keeps_row_def complete_row_def fail_row_def)

lemma keeps_row_reserved: "keeps_row f \<Longrightarrow> reserved_total rnd (f r) = reserved_total rnd r"
  "keeps_row f \<Longrightarrow> isDeferredWithdrawal (f r) = isDeferredWithdrawal r" "keeps_row f \<Longrightarrow> ledger_reserved (f r) = ledger_reserved r"
  "keeps_row f \<Longrightarrow> fiat_withdrawal (f r) = fiat_withdrawal r"
  by (simp_all add: keeps_row_def reserved_total_def isDeferredWithdrawal_def ledger_reserved_def fiat_withdrawal_def)

text \<open>The two ways out of \<open>PENDING\<close>: the status, the obligation's status and the key of the posting.\<close>

definition closing_ways :: "string \<Rightarrow> (tx_status \<times> obligation_status \<times> string) list" where
  "closing_ways ref = [(COMPLETED, Restricted_Obligations.RELEASED, settle_key ref), (FAILED, CANCELLED, reverse_key ref)]"

lemma closing_way_cases:
  assumes "(st, ost, key) \<in> set (closing_ways ref)"
  shows "expected_status st = ost" "ost \<noteq> ACTIVE" "st \<noteq> PENDING" "st \<noteq> FROZEN_DISPUTE"
  using assms by (auto simp: closing_ways_def)

lemma rows_after_claim:
  assumes f: "keeps_row f" and d: "hashes_distinct rows" and r: "find_by fr_txHash (Some h) rows = Some r" "is_pending r"
  shows "find_by fr_txHash k (claim_rows fr_txHash is_pending f (Some h) rows) =
      map_option (\<lambda>x. if k = Some h \<and> x = r then f r else x) (find_by fr_txHash k rows)"
    and "set (claim_rows fr_txHash is_pending f (Some h) rows) = (\<lambda>x. if x = r then f r else x) ` set rows"
    and "map fr_txHash (claim_rows fr_txHash is_pending f (Some h) rows) = map fr_txHash rows"
proof -
  have only: "fr_txHash x = Some h \<and> is_pending x \<longleftrightarrow> x = r" if "x \<in> set rows" for x
    using hash_unique [OF d r(1) that] r find_by_SomeD [OF r(1)] by auto
  show keys: "map fr_txHash (claim_rows fr_txHash is_pending f (Some h) rows) = map fr_txHash rows"
    using f by (simp add: claim_rows_def keeps_row_def)
  show "set (claim_rows fr_txHash is_pending f (Some h) rows) = (\<lambda>x. if x = r then f r else x) ` set rows"
    using only by (auto simp: claim_rows_def set_update_by)
  have "find_by fr_txHash k (claim_rows fr_txHash is_pending f (Some h) rows) =
      map_option (\<lambda>x. if fr_txHash x = Some h \<and> is_pending x then f x else x) (find_by fr_txHash k rows)"
    unfolding claim_rows_def by (rule find_by_update_by) (use f in \<open>simp add: keeps_row_def\<close>)
  then show "find_by fr_txHash k (claim_rows fr_txHash is_pending f (Some h) rows) =
      map_option (\<lambda>x. if k = Some h \<and> x = r then f r else x) (find_by fr_txHash k rows)"
    using only by (cases "find_by fr_txHash k rows") (auto dest: find_by_Some)
qed

lemma image_kept:
  assumes "\<And>x. P (g x) = P x" and "\<And>x. k (g x) = k x"
  shows "k ` {y \<in> g ` S. P y} = k ` {y \<in> S. P y}"
proof -
  have "{y \<in> g ` S. P y} = g ` {y \<in> S. P y}" using assms(1) by auto
  then show ?thesis by (simp add: image_image assms(2))
qed

lemma close_rows:
  assumes inv: "fiat_inv rnd s" and r: "read_row ref s = Some r" "is_pending r" "fiat_withdrawal r"
    and f: "keeps_row f" "fr_status (f r) = st" and way: "(st, ost, key) \<in> set (closing_ways ref)"
    and h: "fd_history t = claim_rows fr_txHash is_pending f (Some ref) (fd_history s)"
    and os: "obligations (fd_books t) =
        claim_rows ob_reference ob_active (ob_close ost tid) (obligation_ref ref) (obligations (fd_books s))"
    and keys: "\<And>k. booked_key k (fiat_ledger t) \<longleftrightarrow> booked_key k (fiat_ledger s) \<or> k = key"
  shows "\<forall>x \<in> set (fd_history t). fiat_withdrawal x \<longrightarrow> withdrawal_ok rnd (obligations (fd_books t)) x"
    and "withdrawal_keys t" and "fiat_evolves s t"
proof -
  have d: "hashes_distinct (fd_history s)" using inv by (simp add: fiat_inv_def)
  note rows = rows_after_claim [OF f(1) d, OF r(1) [unfolded read_row_def] r(2)]
  note w = closing_way_cases [OF way]
  have hr: "fr_txHash r = Some ref" using r(1) by (auto simp: read_row_def)
  have ob_find: "find_by ob_reference k (obligations (fd_books t)) =
      map_option (\<lambda>x. if k = obligation_ref ref \<and> ob_active x then ob_close ost tid x else x)
        (find_by ob_reference k (obligations (fd_books s)))" for k
    using way rel.claim_find can.claim_find unfolding os by (auto simp: closing_ways_def)
  have old: "withdrawal_ok rnd (obligations (fd_books s)) x" if "x \<in> set (fd_history s)" "fiat_withdrawal x" for x
    using inv that by (simp add: fiat_inv_def)
  show "\<forall>x \<in> set (fd_history t). fiat_withdrawal x \<longrightarrow> withdrawal_ok rnd (obligations (fd_books t)) x"
  proof (intro ballI impI)
    fix x assume "x \<in> set (fd_history t)" and fx: "fiat_withdrawal x"
    then obtain y where y: "y \<in> set (fd_history s)" and x: "x = (if y = r then f r else y)"
      by (auto simp: h rows(2))
    have fy: "fiat_withdrawal y" using fx x keeps_row_reserved(4) [OF f(1)] by (auto split: if_splits)
    note oy = old [OF y fy]
    show "withdrawal_ok rnd (obligations (fd_books t)) x"
    proof (cases "y = r")
      case True
      then obtain b where "find_by ob_reference (obligation_ref ref) (obligations (fd_books s)) = Some b" "backed_by rnd r b"
        "plain_reference ref"
        using oy hr by (auto simp: withdrawal_ok_def)
      moreover from this(2) have "ob_active b" using r(2) by (simp add: backed_by_def ob_active_def is_pending_def)
      ultimately show ?thesis
        using True x oy hr w f keeps_row_reserved [OF f(1)] ob_find [of "obligation_ref ref"]
        by (auto simp: withdrawal_ok_def backed_by_def ob_close_def keeps_row_def)
    next
      case False
      have "fr_txHash y \<noteq> Some ref" using hash_unique [OF d r(1) [unfolded read_row_def] y] False by auto
      then show ?thesis using x False oy ob_find by (fastforce simp: withdrawal_ok_def)
    qed
  qed
  have hashes: "fr_txHash ` set (fd_history t) = fr_txHash ` set (fd_history s)"
    using rows(3) unfolding h by (metis list.set_map)
  have "fiat_withdrawal (f r)" "fr_txHash (f r) = fr_txHash r" using keeps_row_reserved(4) [OF f(1)] r(3) f(1) by (simp_all add: keeps_row_def)
  then have wrefs: "withdrawal_refs t = withdrawal_refs s"
    using image_kept [of fiat_withdrawal "\<lambda>x. if x = r then f r else x" fr_txHash "set (fd_history s)"] r(3)
    unfolding withdrawal_refs_def h set_filter rows(2) by simp
  have refs: "ob_reference ` set (obligations (fd_books t)) = ob_reference ` set (obligations (fd_books s))"
  proof -
    have "map ob_reference (obligations (fd_books t)) = map ob_reference (obligations (fd_books s))"
      using way rel.claim_keys can.claim_keys unfolding os by (auto simp: closing_ways_def)
    then show ?thesis by (metis list.set_map)
  qed
  have read: "read_row k t = map_option (\<lambda>x. if k = ref \<and> x = r then f r else x) (read_row k s)" for k
    using rows(1) by (simp add: read_row_def h)
  have rs: "row_in_status t k st'" if "row_in_status s k st'" "st' \<noteq> PENDING" for k st'
  proof -
    obtain x where x: "read_row k s = Some x" "fr_status x = st'" "fiat_withdrawal x" using \<open>row_in_status s k st'\<close> by (auto simp: row_in_status_def)
    then have "x \<noteq> r" using \<open>st' \<noteq> PENDING\<close> r(2) by (auto simp: is_pending_def)
    with x read show ?thesis by (simp add: row_in_status_def)
  qed
  have "row_in_status t ref st" using read r(1,3) f(2) keeps_row_reserved(4) [OF f(1)] by (simp add: row_in_status_def)
  moreover have "plain_reference k \<longrightarrow> reserve_key k \<noteq> key" for k
    using way by (auto simp: closing_ways_def)
  ultimately show "withdrawal_keys t"
    using inv keys way rs hashes refs wrefs by (auto simp: fiat_inv_def withdrawal_keys_def closing_ways_def)
  have "same_withdrawal r (f r)" using f r by (simp add: same_withdrawal_def keeps_row_def)
  then show "fiat_evolves s t"
    using rows(1) by (intro rows_evolve_fiat) (auto simp: rows_evolve_def h)
qed


lemma close_keeps:
  assumes inv: "fiat_inv rnd s" and r: "read_row ref s = Some r" "is_pending r" "fiat_withdrawal r"
    and f: "keeps_row f" "fr_status (f r) = st" and way: "(st, ost, key) \<in> set (closing_ways ref)"
    and h: "fd_history t = claim_rows fr_txHash is_pending f (Some ref) (fd_history s)"
    and b: "fd_books t =
        \<lparr>obligations = claim_rows ob_reference ob_active (ob_close ost tid) (obligation_ref ref) (obligations (fd_books s)), ob_ledger = L\<rparr>"
    and p: "post sha rnd ch True p (fiat_ledger s) = (Inr res, L)" "pp_idempotencyKey p = key"
    and amount: "sum_rows (line_moves ''restricted:reserves'') (pp_lines p) = reserved_total rnd r"
    and users: "users_ok t" "\<And>i. available i t = available i s - sum_rows (line_moves (user_liability_code i)) (pp_lines p)"
  shows "fiat_inv rnd t \<and> fiat_moves s t"
proof -
  have keys: "withdrawal_keys s" and follow: "reserves_follow rnd s"
    and dh: "hashes_distinct (fd_history s)" and dob: "distinct (map ob_reference (obligations (fd_books s)))"
    using inv by (simp_all add: fiat_inv_def)
  have L: "fiat_ledger t = L" by (simp add: fiat_ledger_def b)
  have booked: "booked_key k (fiat_ledger t) \<longleftrightarrow> booked_key k (fiat_ledger s) \<or> k = key" for k
    using lp.book_key [OF p(1)] p(2) by (simp add: L)
  have os: "obligations (fd_books t) = claim_rows ob_reference ob_active (ob_close ost tid) (obligation_ref ref) (obligations (fd_books s))"
    by (simp add: b)
  note rows = close_rows [OF inv r f way h os booked]
  note w = closing_way_cases [OF way]
  have "\<not> booked_key key (fiat_ledger s)"
    using keys way r(1,2) by (auto simp: withdrawal_keys_def closing_ways_def row_in_status_def is_pending_def)
  then have net: "account_net code L = account_net code (fiat_ledger s) + sum_rows (line_moves code) (pp_lines p)" for code
    using posted_net [OF p(1)] p(2) by simp
  have keyed: "keyed_net withdrawal_key code L = keyed_net withdrawal_key code (fiat_ledger s) + sum_rows (line_moves code) (pp_lines p)" for code
    using posted_keyed [OF p(1)] p(2) \<open>\<not> booked_key key (fiat_ledger s)\<close> way by (auto simp: closing_ways_def)
  have fr: "find_by fr_txHash (Some ref) (fd_history s) = Some r" using r(1) by (simp add: read_row_def)
  have hsum: "sum_rows (open_amount rnd) (fd_history t) = sum_rows (open_amount rnd) (fd_history s) - reserved_total rnd r"
    unfolding h claim_rows_def
    using hash_sum [OF dh fr, of "open_amount rnd" is_pending f] r(2,3) f(2) w(3)
    by (simp add: open_amount_def is_pending_def)
  have "r \<in> set (fd_history s)" "fr_txHash r = Some ref" using find_by_Some [OF fr] by simp_all
  then obtain x where x: "find_by ob_reference (obligation_ref ref) (obligations (fd_books s)) = Some x" "backed_by rnd r x"
    using inv r(3) by (auto simp: fiat_inv_def withdrawal_ok_def)
  have xa: "ob_active x" "fiat_active x = reserved_total rnd r" "fiat_active (ob_close ost tid x) = 0"
    using x(2) r(2) w(2) find_by_Some [OF x(1)] by (simp_all add: backed_by_def ob_active_def is_pending_def fiat_active_def ob_close_def)
  have osum: "sum_rows fiat_active (obligations (fd_books t)) = sum_rows fiat_active (obligations (fd_books s)) - reserved_total rnd r"
    unfolding os claim_rows_def using sum_rows_update_key [OF dob x(1), of fiat_active ob_active] xa by simp
  have "reserves_follow rnd t"
    using follow keyed [of "''restricted:reserves''"] amount hsum osum by (simp add: reserves_follow_def L)
  moreover have "hashes_distinct (fd_history t)"
    using rows_after_claim(3) [OF f(1) dh fr r(2)] dh by (simp add: h hashes_distinct_def)
  moreover have "distinct (map ob_reference (obligations (fd_books t)))"
    using way dob rel.claim_keys can.claim_keys unfolding os by (auto simp: closing_ways_def)
  moreover have "accounts_classified (fiat_ledger t)" using post_classified [OF p(1)] inv by (simp add: L fiat_inv_def)
  ultimately have "fiat_inv rnd t" using rows(1,2) users(1) by (simp add: fiat_inv_def)
  moreover have "gap i t = gap i s" for i using users(2) net by (simp add: gap_def L)
  ultimately show ?thesis using rows(3) by (simp add: fiat_moves_def)
qed


section \<open>A settlement\<close>

definition reward_of :: "fiat_row \<Rightarrow> nat \<Rightarrow> int" where
  "reward_of r i = (if pays_referrer (deferred_of r) \<and> df_referrerId (deferred_of r) = Some i then df_referrerShare (deferred_of r) else 0)"

lemma realize_shares_cases:
  assumes "realize_shares ref d fee s = (Inr x, t)" and "users_ok s"
  shows "fd_history t = fd_history s" and "fd_books t = fd_books s" and "users_ok t"
    and "available i t = available i s + (if pays_referrer d \<and> df_referrerId d = Some i then df_referrerShare d else 0)"
proof -
  have "\<exists>u. fd_history u = fd_history s \<and> fd_books u = fd_books s \<and> users_ok u \<and> same_accounts u t \<and>
      (\<forall>i. available i u = available i s + (if pays_referrer d \<and> df_referrerId d = Some i then df_referrerShare d else 0))"
  proof (cases "\<exists>j. df_referrerId d = Some j \<and> 0 < df_referrerShare d")
    case True
    then obtain j u where j: "df_referrerId d = Some j" "0 < df_referrerShare d"
      and u: "increment_user j (df_referrerShare d) s = (Inr (), u)" and st: "same_accounts u t"
      using assms(1) by (auto simp: realize_shares_def and_then_Inr)
    note inc = increment_cases [OF u assms(2)]
    have "fd_history u = fd_history s" "fd_books u = fd_books s" using inc(3) by (metis fiat_db.ext_inject fiat_db.surjective fiat_db.update_convs)+
    with inc j st show ?thesis by (intro exI [of _ u]) (auto simp: pays_referrer_def)
  next
    case False
    then have "same_accounts s t" using assms(1) by (auto simp: realize_shares_def split: option.splits)
    with False assms(2) show ?thesis by (intro exI [of _ s]) (auto simp: pays_referrer_def)
  qed
  then show "fd_history t = fd_history s" "fd_books t = fd_books s" "users_ok t"
    "available i t = available i s + (if pays_referrer d \<and> df_referrerId d = Some i then df_referrerShare d else 0)"
    using same_accounts_gap(2) same_cash_available(1) by (auto simp: same_accounts_def)
qed

lemma realize_cases:
  assumes "realize_economics ref r s = (Inr x, t)" and "users_ok s"
  shows "fd_history t = fd_history s" and "fd_books t = fd_books s" and "users_ok t"
    and "available i t = available i s + reward_of r i"
proof -
  have ok: "users_ok (ensureProfitFeesSingleton s)" and av: "available i (ensureProfitFeesSingleton s) = available i s" for i
    using assms(2) same_accounts_gap(2) same_cash_available(1) [of s "ensureProfitFeesSingleton s"]
    by (auto simp: same_accounts_def ensureProfitFeesSingleton_def users_ok_def)
  obtain u where u: "realize_shares ref (deferred_of r) (realized_fee r) (ensureProfitFeesSingleton s) = (Inr (), u)"
    and t: "t = log_profit (fr_amountUsdc r) ''ARBITRAGE_SPREAD'' (''arbitrage_capture_'' @ ref) u"
    using assms(1) by (auto simp: realize_economics_def and_then_Inr Let_def)
  note sh = realize_shares_cases [OF u ok]
  show "fd_history t = fd_history s" "fd_books t = fd_books s" "users_ok t" "available i t = available i s + reward_of r i"
    using sh av by (simp_all add: t log_profit_def users_ok_def available_def reward_of_def ensureProfitFeesSingleton_def)
qed

lemma settle_lines:
  assumes "post sha rnd ch True (settle_posting rnd ref r) L = (Inr res, L')"
  shows "sum_rows (line_moves ''restricted:reserves'') (pp_lines (settle_posting rnd ref r)) = settled_total rnd r"
    and "sum_rows (line_moves (user_liability_code i)) (pp_lines (settle_posting rnd ref r)) = - reward_of r i"
proof -
  have "0 \<le> settled_total rnd r"
    by (rule posted_line_nonneg [OF assms, of "\<lparr>li_account = ''restricted:reserves'', li_debit = usdc_decimal (settled_total rnd r), li_credit = JNull\<rparr>"])
      (simp_all add: settle_posting_def)
  then show "sum_rows (line_moves ''restricted:reserves'') (pp_lines (settle_posting rnd ref r)) = settled_total rnd r"
    by (simp add: settle_posting_def line_moves_def split: option.splits)
  show "sum_rows (line_moves (user_liability_code i)) (pp_lines (settle_posting rnd ref r)) = - reward_of r i"
    by (auto simp: settle_posting_def line_moves_def reward_of_def pays_referrer_def split: option.splits)
qed

lemma settle_claimed_keeps:
  assumes inv: "fiat_inv rnd s" and r: "read_row ref s = Some r" "is_pending r" "fiat_withdrawal r"
    and run: "settle_claimed sha rnd ch ref tid r
        (s\<lparr>fd_history := claim_rows fr_txHash is_pending (complete_row tid) (Some ref) (fd_history s)\<rparr>) = (Inr y, t)"
  shows "fiat_inv rnd t \<and> fiat_moves s t" and "settled_total rnd r = reserved_total rnd r"
proof -
  define s1 where "s1 = converge_settlement ch ref r
      (s\<lparr>fd_history := claim_rows fr_txHash is_pending (complete_row tid) (Some ref) (fd_history s)\<rparr>)"
  have s1: "fd_history s1 = claim_rows fr_txHash is_pending (complete_row tid) (Some ref) (fd_history s)"
    "fd_books s1 = fd_books s" "fd_wallet s1 = fd_wallet s"
    by (simp_all add: s1_def converge_settlement_def Let_def)
  have ok: "users_ok s" using inv by (simp add: fiat_inv_def)
  have rs: "r \<in> set (fd_history s)" "fr_txHash r = Some ref" using r(1) find_by_Some by (fastforce simp: read_row_def)+
  have wok: "withdrawal_ok rnd (obligations (fd_books s)) r" using inv rs(1) r(3) by (simp add: fiat_inv_def)
  obtain s3 where 3: "settle_deferred sha rnd ch ref r s1 = (Inr (), s3)"
    and 4: "same_accounts s3 t"
    using run by (auto simp: settle_claimed_def s1_def [symmetric] and_then_Inr Let_def dest!: with_liquidity_same)
  obtain s2 where 2: "realize_economics ref r s1 = (Inr (), s2)" and bk: "book_settlement sha rnd ch ref r s2 = (Inr (), s3)"
    using 3 wok by (auto simp: settle_deferred_def withdrawal_ok_def and_then_Inr)
  have ok1: "users_ok s1" using ok by (simp add: users_ok_def s1)
  note re = realize_cases [OF 2 ok1]
  obtain res won u where p: "post_fiat sha rnd ch (settle_posting rnd ref r) s2 = (Inr res, u)"
    and o1: "with_obligations (releaseOnSettlement id (obligation_ref ref) (Some (lt_id (pr_transaction res)))
                 (usdc_decimal (settled_total rnd r))) u = (Inr won, s3)"
    using bk by (auto simp: book_settlement_def and_then_Inr)
  obtain L where L: "post sha rnd (fc_ledger ch) True (settle_posting rnd ref r) (fiat_ledger s) = (Inr res, L)"
    and u: "u = s2\<lparr>fd_books := (fd_books s)\<lparr>ob_ledger := L\<rparr>\<rparr>"
    using post_fiat_cases [OF p] re(2) s1(2) by (metis fiat_ledger_def)
  obtain os where os: "releaseOnSettlement id (obligation_ref ref) (Some (lt_id (pr_transaction res)))
        (usdc_decimal (settled_total rnd r)) (fd_books u) = (Inr won, os)" and s3: "s3 = u\<lparr>fd_books := os\<rparr>"
    by (rule with_obligations_cases [OF o1])
  have dob: "distinct (map ob_reference (obligations (fd_books u)))" using inv by (simp add: u fiat_inv_def)
  obtain x where x: "find_by ob_reference (obligation_ref ref) (obligations (fd_books s)) = Some x" "backed_by rnd r x"
    using wok rs(2) by (auto simp: withdrawal_ok_def)
  have xs: "ob_status x = ACTIVE" using x(2) r(2) by (simp add: backed_by_def is_pending_def)
  have "settled_total rnd r = reserved_total rnd r \<and>
     os = \<lparr>obligations = claim_rows ob_reference ob_active (ob_close Restricted_Obligations.RELEASED (Some (lt_id (pr_transaction res))))
            (obligation_ref ref) (obligations (fd_books s)), ob_ledger = L\<rparr>"
    using os dob
  proof (cases rule: release_cases)
    case (winner z)
    then have "z = x" using x(1) by (simp add: u)
    then have "settled_total rnd r = reserved_total rnd r"
      using winner(4) x(2) by (auto simp: usdc_decimal_units backed_by_def split: if_splits)
    with winner(5) show ?thesis by (simp add: u)
  next
    case (late z)
    then show ?thesis using x(1) xs by (simp add: u)
  qed
  then have eq: "settled_total rnd r = reserved_total rnd r" and
    os: "os = \<lparr>obligations = claim_rows ob_reference ob_active (ob_close Restricted_Obligations.RELEASED (Some (lt_id (pr_transaction res))))
            (obligation_ref ref) (obligations (fd_books s)), ob_ledger = L\<rparr>" by blast+
  show "settled_total rnd r = reserved_total rnd r" by (rule eq)
  have w3: "fd_wallet s3 = fd_wallet s2" by (simp add: s3 u)
  have av: "available i t = available i s + reward_of r i" for i
    using 4 same_cash_available(1) [of s3 t] re(4) by (simp add: same_accounts_def available_def w3 s1)
  have okt: "users_ok t" using same_accounts_gap(2) [OF 4] re(3) by (simp add: users_ok_def w3)
  have ht: "fd_history t = claim_rows fr_txHash is_pending (complete_row tid) (Some ref) (fd_history s)" "fd_books t = os"
    using 4 re(1) by (simp_all add: same_accounts_def s3 u s1)
  show "fiat_inv rnd t \<and> fiat_moves s t"
  proof (rule close_keeps [OF inv r keeps_row_moves(1) _ _ ht(1) ht(2) [unfolded os] L])
    show "fr_status (complete_row tid r) = COMPLETED" by (simp add: complete_row_def)
    show "(COMPLETED, Restricted_Obligations.RELEASED, settle_key ref) \<in> set (closing_ways ref)" by (simp add: closing_ways_def)
    show "pp_idempotencyKey (settle_posting rnd ref r) = settle_key ref" by (simp add: settle_posting_def)
    show "sum_rows (line_moves ''restricted:reserves'') (pp_lines (settle_posting rnd ref r)) = reserved_total rnd r"
      using settle_lines(1) [OF L] eq by simp
    show "users_ok t" by (rule okt)
    show "available i t = available i s - sum_rows (line_moves (user_liability_code i)) (pp_lines (settle_posting rnd ref r))" for i
      using av settle_lines(2) [OF L] by simp
  qed
qed


section \<open>A reversal\<close>

lemma release_liquidity_same: "release_liquidity ch ref opts n s = (Inr x, t) \<Longrightarrow> same_accounts s t"
  by (auto simp: release_liquidity_def and_then_Inr split: if_splits dest!: with_liquidity_same)

lemma give_azm_cash [simp]: "cash (give_azm n u) = cash u"
  by (simp add: give_azm_def cash_def)

lemma restore_discount_same: "restore_discount now ref r s = (Inr x, t) \<Longrightarrow> same_accounts s t"
  by (auto simp: restore_discount_def Let_def same_accounts_def same_cash_def map_cash_update split: option.splits if_splits)

lemma reverse_lines:
  assumes "post sha rnd ch True (reverse_posting ref r n) L = (Inr res, L')"
  shows "sum_rows (line_moves ''restricted:reserves'') (pp_lines (reverse_posting ref r n)) = n"
    and "sum_rows (line_moves (user_liability_code i)) (pp_lines (reverse_posting ref r n)) = - (if i = fr_userId r then n else 0)"
    and "0 \<le> n"
proof -
  show n: "0 \<le> n"
    by (rule posted_line_nonneg [OF assms, of "\<lparr>li_account = ''restricted:reserves'', li_debit = usdc_decimal n, li_credit = JNull\<rparr>"])
      (simp_all add: reverse_posting_def)
  show "sum_rows (line_moves ''restricted:reserves'') (pp_lines (reverse_posting ref r n)) = n"
    "sum_rows (line_moves (user_liability_code i)) (pp_lines (reverse_posting ref r n)) = - (if i = fr_userId r then n else 0)"
    using n by (auto simp: reverse_posting_def line_moves_def)
qed

lemma reverse_claimed_cases:
  assumes inv: "fiat_inv rnd s" and r: "read_row ref s = Some r" "is_pending r" "fiat_withdrawal r"
    and run: "reverse_claimed sha rnd prec ch ref opts r referrer
        (s\<lparr>fd_history := claim_rows fr_txHash is_pending fail_row (Some ref) (fd_history s)\<rparr>) = (Inr y, t)"
  obtains L res where "post sha rnd (fc_ledger ch) True (reverse_posting ref r (reserved_total rnd r)) (fiat_ledger s) = (Inr res, L)"
    "fd_history t = claim_rows fr_txHash is_pending fail_row (Some ref) (fd_history s)"
    "fd_books t = \<lparr>obligations = claim_rows ob_reference ob_active (ob_close CANCELLED (Some (lt_id (pr_transaction res))))
            (obligation_ref ref) (obligations (fd_books s)), ob_ledger = L\<rparr>"
    "users_ok t" "\<And>i. available i t = available i s + (if i = fr_userId r then reserved_total rnd r else 0)"
proof -
  define s2 where "s2 = ensureMasterCryptoSingleton (ensureFiatPoolSingleton (ensureProfitFeesSingleton
      (s\<lparr>fd_history := claim_rows fr_txHash is_pending fail_row (Some ref) (fd_history s),
         fd_routes := snd (convergeRunOnFiatReversal (fc_tz ch) (fc_now ch) ref (ro_reason opts) (ro_runFailureStatus opts) id (fd_routes s))\<rparr>)))"
  have s2: "fd_history s2 = claim_rows fr_txHash is_pending fail_row (Some ref) (fd_history s)" "fd_books s2 = fd_books s"
    "fd_wallet s2 = fd_wallet s"
    by (simp_all add: s2_def ensureMasterCryptoSingleton_def ensureFiatPoolSingleton_def ensureProfitFeesSingleton_def)
  have ok: "users_ok s" using inv by (simp add: fiat_inv_def)
  have rs: "r \<in> set (fd_history s)" "fr_txHash r = Some ref" using r(1) find_by_Some by (fastforce simp: read_row_def)+
  have wok: "withdrawal_ok rnd (obligations (fd_books s)) r" using inv rs(1) r(3) by (simp add: fiat_inv_def)
  let ?n = "reserved_total rnd r"
  obtain s3 s4 s6 a where 3: "increment_user (fr_userId r) ?n s2 = (Inr (), s3)"
    and 4: "refund_books sha rnd ch ref r ?n s3 = (Inr (), s4)"
    and 6: "release_liquidity ch ref opts (fr_amountUsdc r) (add_master (- fr_amountUsdc r) s4) = (Inr (), s6)"
    and 7: "restore_discount (fc_now ch) ref r s6 = (Inr a, t)"
    using run wok
    by (auto simp: reverse_claimed_def s2_def [symmetric] reserved_total_def [symmetric] and_then_Inr Let_def unwind_fees_def withdrawal_ok_def)
  have s4t: "same_accounts s4 t"
    using same_accounts_trans [OF release_liquidity_same [OF 6] restore_discount_same [OF 7]] by (simp add: same_accounts_def add_master_def)
  have ok2: "users_ok s2" using ok by (simp add: users_ok_def s2)
  note inc = increment_cases [OF 3 ok2]
  have s3: "fd_history s3 = fd_history s2" "fd_books s3 = fd_books s2"
    using inc(3) by (metis fiat_db.ext_inject fiat_db.surjective fiat_db.update_convs)+
  obtain res won u where p: "post_fiat sha rnd ch (reverse_posting ref r ?n) s3 = (Inr res, u)"
    and o1: "with_obligations (cancelOnReversal id (obligation_ref ref) (Some (lt_id (pr_transaction res)))) u = (Inr won, s4)"
    using 4 wok by (auto simp: refund_books_def withdrawal_ok_def book_reversal_def and_then_Inr)
  obtain L where L: "post sha rnd (fc_ledger ch) True (reverse_posting ref r ?n) (fiat_ledger s) = (Inr res, L)"
    and u: "u = s3\<lparr>fd_books := (fd_books s)\<lparr>ob_ledger := L\<rparr>\<rparr>"
    using post_fiat_cases [OF p] s3(2) s2(2) by (metis fiat_ledger_def)
  obtain os where os: "cancelOnReversal id (obligation_ref ref) (Some (lt_id (pr_transaction res))) (fd_books u) = (Inr won, os)"
    and s4: "s4 = u\<lparr>fd_books := os\<rparr>"
    by (rule with_obligations_cases [OF o1])
  obtain x where x: "find_by ob_reference (obligation_ref ref) (obligations (fd_books s)) = Some x" "ob_status x = ACTIVE"
    using wok rs(2) r(2) by (auto simp: withdrawal_ok_def backed_by_def is_pending_def)
  have dob: "distinct (map ob_reference (obligations (fd_books u)))" using inv by (simp add: u fiat_inv_def)
  from os dob have os: "os = \<lparr>obligations = claim_rows ob_reference ob_active (ob_close CANCELLED (Some (lt_id (pr_transaction res))))
            (obligation_ref ref) (obligations (fd_books s)), ob_ledger = L\<rparr>"
    by (cases rule: cancel_cases) (use x in \<open>simp_all add: u\<close>)
  have w: "fd_wallet s4 = fd_wallet s3" by (simp add: s4 u)
  have "users_ok t" using same_accounts_gap(2) [OF s4t] inc(2) reverse_lines(3) [OF L] by (simp add: users_ok_def w)
  moreover have "available i t = available i s + (if i = fr_userId r then ?n else 0)" for i
    using s4t same_cash_available(1) [of s4 t] inc(1) by (simp add: same_accounts_def available_def w s2)
  moreover have "fd_history t = claim_rows fr_txHash is_pending fail_row (Some ref) (fd_history s)" "fd_books t = os"
    using s4t s3(1) by (simp_all add: same_accounts_def s4 u s2)
  ultimately show thesis using that L os by blast
qed

lemma reverse_claimed_keeps:
  assumes inv: "fiat_inv rnd s" and r: "read_row ref s = Some r" "is_pending r" "fiat_withdrawal r"
    and run: "reverse_claimed sha rnd prec ch ref opts r referrer
        (s\<lparr>fd_history := claim_rows fr_txHash is_pending fail_row (Some ref) (fd_history s)\<rparr>) = (Inr y, t)"
  shows "fiat_inv rnd t \<and> fiat_moves s t"
proof -
  obtain L res where L: "post sha rnd (fc_ledger ch) True (reverse_posting ref r (reserved_total rnd r)) (fiat_ledger s) = (Inr res, L)"
    and h: "fd_history t = claim_rows fr_txHash is_pending fail_row (Some ref) (fd_history s)"
    and b: "fd_books t = \<lparr>obligations = claim_rows ob_reference ob_active (ob_close CANCELLED (Some (lt_id (pr_transaction res))))
            (obligation_ref ref) (obligations (fd_books s)), ob_ledger = L\<rparr>"
    and ok: "users_ok t" and av: "\<And>i. available i t = available i s + (if i = fr_userId r then reserved_total rnd r else 0)"
    by (rule reverse_claimed_cases [OF inv r run]) blast
  show ?thesis
  proof (rule close_keeps [OF inv r keeps_row_moves(2) _ _ h b L])
    show "fr_status (fail_row r) = FAILED" by (simp add: fail_row_def)
    show "(FAILED, CANCELLED, reverse_key ref) \<in> set (closing_ways ref)" by (simp add: closing_ways_def)
    show "pp_idempotencyKey (reverse_posting ref r (reserved_total rnd r)) = reverse_key ref" by (simp add: reverse_posting_def)
    show "sum_rows (line_moves ''restricted:reserves'') (pp_lines (reverse_posting ref r (reserved_total rnd r))) = reserved_total rnd r"
      using reverse_lines(1) [OF L] .
    show "users_ok t" by (rule ok)
    show "available i t = available i s - sum_rows (line_moves (user_liability_code i)) (pp_lines (reverse_posting ref r (reserved_total rnd r)))" for i
      using av reverse_lines(2) [OF L] by simp
  qed
qed

end
