(* ===== verification/Fiat_Outcome.thy ===== *)
theory Fiat_Outcome
  imports Fiat_Books Interleaving
begin

text \<open>
  Histories of fiat withdrawals and what they guarantee: the journals of fiat withdrawals always hold
  exactly the open withdrawals in the reserve account, a withdrawal is settled or refunded once, a refund restores what the reservation
  took, and which withdrawals can be settled at all.
\<close>

section \<open>The other calls\<close>

lemma fiat_deposit_keeps:
  assumes inv: "fiat_inv rnd s" and run: "legacy_deposit_tx sha rnd ch userId amt h s = (Inr x, t)"
  shows "fiat_inv rnd t \<and> fiat_moves s t"
proof (cases "read_row h s")
  case (Some r)
  then have "t = s" using run by (simp add: legacy_deposit_tx_def)
  with inv show ?thesis by (simp add: fiat_moves_def)
next
  case None
  let ?n = "case num_rat amt of None \<Rightarrow> 0 | Some x \<Rightarrow> round8 x"
  let ?r = "\<lparr>fr_id = fc_historyId ch, fr_userId = userId, fr_type = ''DEPOSIT_CRYPTO'', fr_amountUsdc = ?n, fr_feeUsdc = 0,
                 fr_txHash = Some h, fr_status = COMPLETED, fr_providerRef = None, fr_meta = None\<rparr>"
  obtain s1 s2 res where 1: "increment_user userId ?n s = (Inr (), s1)"
    and 2: "s2 = s1\<lparr>fd_masterCrypto := upsert_counter ?n (fd_masterCrypto s1), fd_hotWallet := upsert_counter ?n (fd_hotWallet s1),
                    fd_history := fd_history s1 @ [?r]\<rparr>" "Some h \<notin> fr_txHash ` set (fd_history s1)"
    and 3: "post_fiat sha rnd ch (legacy_deposit_posting userId h amt (fc_historyId ch)) s2 = (Inr res, t)"
    using run None by (auto simp: legacy_deposit_tx_def and_then_Inr Let_def create_history_def split: if_splits)
  have ok: "users_ok s" using inv by (simp add: fiat_inv_def)
  note inc = increment_cases [OF 1 ok]
  have s1: "fd_history s1 = fd_history s" "fd_books s1 = fd_books s"
    using inc(3) by (metis fiat_db.ext_inject fiat_db.surjective fiat_db.update_convs)+
  obtain L where L: "post sha rnd (fc_ledger ch) True (legacy_deposit_posting userId h amt (fc_historyId ch)) (fiat_ledger s) = (Inr res, L)"
    and t: "t = s2\<lparr>fd_books := (fd_books s)\<lparr>ob_ledger := L\<rparr>\<rparr>"
    using post_fiat_cases [OF 3] s1(2) 2(1) by (auto simp: fiat_ledger_def)
  have tl: "fiat_ledger t = L" "fd_history t = fd_history s @ [?r]" "obligations (fd_books t) = obligations (fd_books s)"
    by (simp_all add: t fiat_ledger_def 2(1) s1)
  obtain m where "normalize_line \<lparr>li_account = user_liability_code userId, li_debit = JNull, li_credit = JNum amt\<rparr> = Inr m"
    using lines_move(2) [OF L] by (auto simp: legacy_deposit_posting_def)
  then obtain k where k: "toExactDecimal (JNum amt) = Inr k"
    by (auto simp: normalize_line_def optional_quantity_def simp del: toExactDecimal.simps)
  have n: "?n = int k" using toExactDecimal_value [OF k] round8_units [of "int k"] by (simp add: js_rat_def)
  have q: "line_quantity (JNum amt) = int k" using k by (simp add: line_quantity_def optional_quantity_def del: toExactDecimal.simps)
  have new: "Some h \<notin> fr_txHash ` set (fd_history s)" using 2(2) s1(1) by simp
  then have "\<not> booked_key (legacy_key h) (fiat_ledger s)" using inv by (auto simp: fiat_inv_def withdrawal_keys_def)
  then have net: "account_net code L = account_net code (fiat_ledger s) +
      (if code = ''clearing:custody:unverified:usdc'' then int k else 0) - (if code = user_liability_code userId then int k else 0)" for code
    using posted_net [OF L] q by (auto simp: legacy_deposit_posting_def legacy_key_def line_moves_def user_liability_code_def)
  have keyed: "keyed_net withdrawal_key code L = keyed_net withdrawal_key code (fiat_ledger s)" for code
    using post_keyed_net [OF L, of withdrawal_key] by (simp add: legacy_deposit_posting_def withdrawal_key_def)
  have booked: "booked_key c L \<longleftrightarrow> booked_key c (fiat_ledger s) \<or> c = legacy_key h" for c
    using lp.book_key [OF L] by (simp add: legacy_deposit_posting_def legacy_key_def)
  have "users_ok t" using inc(2) n by (simp add: users_ok_def t 2(1))
  moreover have "withdrawal_keys t"
    using inv booked tl by (auto simp: fiat_inv_def withdrawal_keys_def withdrawal_refs_def row_in_status_def read_row_def)
  moreover have "reserves_follow rnd t"
    using inv keyed by (auto simp: fiat_inv_def reserves_follow_def tl open_amount_def fiat_withdrawal_def)
  moreover have "accounts_classified (fiat_ledger t)" using post_classified [OF L] inv by (simp add: tl(1) fiat_inv_def)
  ultimately have "fiat_inv rnd t"
    using inv new by (auto simp: fiat_inv_def tl fiat_withdrawal_def)
  moreover have "available i t = available i s1" for i by (simp add: available_def t 2(1))
  then have "gap i t = gap i s" for i
    using inc(1) net n by (auto simp: gap_def tl(1) user_liability_code_def)
  ultimately show ?thesis by (auto simp: fiat_moves_def tl intro!: rows_evolve_fiat rows_evolve_append)
qed

lemma liquidation_same: "liquidation_tx prec parse ch adminId n rate s = (Inr x, t) \<Longrightarrow> same_accounts s t"
  by (auto simp: liquidation_tx_def Let_def and_then_Inr split: if_splits option.splits dest!: with_liquidity_same)
    (simp_all add: same_accounts_def log_profit_def add_profit_def ensureProfitFeesSingleton_def ensureFiatPoolSingleton_def add_pool_def)

text \<open>
  What another service may do: anything that keeps the constraints of the tables and writes none of the
  rows that belong to fiat withdrawals, which are the history rows (whose provider reference the
  settlement service stamps), the obligations under their references and the journals under their keys.
  Balances, the reserve account, other obligations and other journals may change in any way, so the
  wallet, crypto and custody services that move the reserve account are among them.
\<close>

definition without_ref :: "fiat_row \<Rightarrow> fiat_row" where
  "without_ref r = r\<lparr>fr_providerRef := None\<rparr>"

definition withdrawal_journals :: "ledger \<Rightarrow> string list \<times> journal_entry list" where
  "withdrawal_journals L =
     (filter withdrawal_key (map lt_idempotencyKey (txns L)), filter (\<lambda>e. withdrawal_key (je_transactionId e)) (entries L))"

definition foreign_ok :: "fiat_db \<Rightarrow> fiat_db \<Rightarrow> bool" where
  "foreign_ok s t \<longleftrightarrow>
     users_ok t \<and> accounts_classified (fiat_ledger t) \<and> hashes_distinct (fd_history t) \<and>
     distinct (map ob_reference (obligations (fd_books t))) \<and>
     map without_ref (filter fiat_withdrawal (fd_history t)) = map without_ref (filter fiat_withdrawal (fd_history s)) \<and>
     filter fiat_obligation (obligations (fd_books t)) = filter fiat_obligation (obligations (fd_books s)) \<and>
     withdrawal_journals (fiat_ledger t) = withdrawal_journals (fiat_ledger s) \<and>
     (\<forall>h. booked_key (legacy_key h) (fiat_ledger t) \<longrightarrow> Some h \<in> fr_txHash ` set (fd_history t))"

lemma without_ref_simps [simp]:
  "fr_txHash (without_ref r) = fr_txHash r" "fiat_withdrawal (without_ref r) = fiat_withdrawal r"
  "open_amount rnd (without_ref r) = open_amount rnd r" "withdrawal_ok rnd os (without_ref r) = withdrawal_ok rnd os r"
  by (auto simp: without_ref_def fiat_withdrawal_def open_amount_def is_pending_def reserved_total_def withdrawal_ok_def
      backed_by_def isDeferredWithdrawal_def ledger_reserved_def deferred_of_def)

lemma without_ref_same: "without_ref r = without_ref r' \<Longrightarrow> same_withdrawal r r'"
  by (cases r; cases r') (simp add: without_ref_def same_withdrawal_def)

lemma same_journals:
  assumes "withdrawal_journals L' = withdrawal_journals L"
  shows "withdrawal_key k \<Longrightarrow> booked_key k L' = booked_key k L"
    and "keyed_net withdrawal_key code L' = keyed_net withdrawal_key code L"
proof -
  have "set (filter withdrawal_key (map lt_idempotencyKey (txns L'))) = set (filter withdrawal_key (map lt_idempotencyKey (txns L)))"
    using assms by (simp add: withdrawal_journals_def)
  then show "withdrawal_key k \<Longrightarrow> booked_key k L' = booked_key k L" by (auto simp: booked_key_def)
  have "keyed_net withdrawal_key code M =
      sum_rows (\<lambda>e. if authoritative_entry code e then je_debit e - je_credit e else 0)
        (filter (\<lambda>e. withdrawal_key (je_transactionId e)) (entries M))" for M
  proof -
    have "sum_rows (\<lambda>e. if authoritative_entry code e \<and> withdrawal_key (je_transactionId e) then je_debit e - je_credit e else 0) es =
      sum_rows (\<lambda>e. if authoritative_entry code e then je_debit e - je_credit e else 0)
        (filter (\<lambda>e. withdrawal_key (je_transactionId e)) es)" for es
      by (induction es) auto
    then show ?thesis by (simp only: keyed_net_def)
  qed
  then show "keyed_net withdrawal_key code L' = keyed_net withdrawal_key code L" using assms by (simp add: withdrawal_journals_def)
qed

lemma same_rows_kept:
  assumes rows: "map without_ref (filter fiat_withdrawal (fd_history t)) = map without_ref (filter fiat_withdrawal (fd_history s))"
    and d: "hashes_distinct (fd_history t)"
  shows "withdrawal_refs t = withdrawal_refs s" "sum_rows (open_amount rnd) (fd_history t) = sum_rows (open_amount rnd) (fd_history s)"
    "fiat_evolves s t"
    "(\<forall>r \<in> set (fd_history t). fiat_withdrawal r \<longrightarrow> withdrawal_ok rnd os r) \<longleftrightarrow>
     (\<forall>r \<in> set (fd_history s). fiat_withdrawal r \<longrightarrow> withdrawal_ok rnd os r)"
proof -
  have "withdrawal_refs u = fr_txHash ` set (map without_ref (filter fiat_withdrawal (fd_history u)))" for u
    by (simp add: withdrawal_refs_def image_image)
  then show "withdrawal_refs t = withdrawal_refs s" by (simp only: rows)
  have "sum_rows (open_amount rnd) xs = sum_rows (open_amount rnd) (map without_ref (filter fiat_withdrawal xs))" for xs
    by (induction xs) (simp_all, simp add: open_amount_def)
  then show "sum_rows (open_amount rnd) (fd_history t) = sum_rows (open_amount rnd) (fd_history s)" using rows by metis
  have "(\<forall>r \<in> set xs. fiat_withdrawal r \<longrightarrow> withdrawal_ok rnd os r) \<longleftrightarrow>
      list_all (withdrawal_ok rnd os) (map without_ref (filter fiat_withdrawal xs))" for xs
    by (auto simp: list_all_iff)
  then show "(\<forall>r \<in> set (fd_history t). fiat_withdrawal r \<longrightarrow> withdrawal_ok rnd os r) \<longleftrightarrow>
     (\<forall>r \<in> set (fd_history s). fiat_withdrawal r \<longrightarrow> withdrawal_ok rnd os r)" using rows by simp
  show "fiat_evolves s t"
  proof (unfold fiat_evolves_def, intro allI impI)
    fix ref r assume r: "read_row ref s = Some r \<and> fiat_withdrawal r"
    then have "r \<in> set (fd_history s)" "fr_txHash r = Some ref" using find_by_Some [of fr_txHash "Some ref" "fd_history s" r] by (auto simp: read_row_def)
    then have "without_ref r \<in> set (map without_ref (filter fiat_withdrawal (fd_history s)))" using r by simp
    then obtain y where y: "y \<in> set (fd_history t)" "without_ref r = without_ref y" using rows by (metis (no_types) filter_is_subset imageE list.set_map subsetD)
    then have s: "same_withdrawal r y" by (simp add: without_ref_same)
    then have h: "fr_txHash y = Some ref" using \<open>fr_txHash r = Some ref\<close> by (simp add: same_withdrawal_def)
    then obtain z where "find_by fr_txHash (Some ref) (fd_history t) = Some z"
      using y(1) find_by_None [of fr_txHash "Some ref" "fd_history t"] by (metis image_eqI option.exhaust)
    with hash_unique [OF d this y(1) h] s show "\<exists>r'. read_row ref t = Some r' \<and> same_withdrawal r r'" by (simp add: read_row_def)
  qed
qed

lemma foreign_keeps:
  assumes inv: "fiat_inv rnd s" and f: "foreign_ok s t"
  shows "fiat_inv rnd t \<and> fiat_evolves s t"
proof -
  have obs: "filter fiat_obligation (obligations (fd_books t)) = filter fiat_obligation (obligations (fd_books s))"
    and d: "distinct (map ob_reference (obligations (fd_books t)))" "distinct (map ob_reference (obligations (fd_books s)))"
    and j: "withdrawal_journals (fiat_ledger t) = withdrawal_journals (fiat_ledger s)"
    and dh: "hashes_distinct (fd_history t)"
    and rows: "map without_ref (filter fiat_withdrawal (fd_history t)) = map without_ref (filter fiat_withdrawal (fd_history s))"
    using f inv by (simp_all add: foreign_ok_def fiat_inv_def)
  note kept = same_rows_kept [OF rows dh]
  have sum_obs: "sum_rows fiat_active xs = sum_rows fiat_active (filter fiat_obligation xs)" for xs
    by (induction xs) (auto simp: fiat_active_def)
  have omem: "x \<in> set (obligations (fd_books t)) \<longleftrightarrow> x \<in> set (obligations (fd_books s))" if "fiat_obligation x" for x
    using that arg_cong [OF obs, of set] by auto
  have "find_by ob_reference (obligation_ref ref) (obligations (fd_books t)) =
      find_by ob_reference (obligation_ref ref) (obligations (fd_books s))" for ref
  proof -
    have "find_by ob_reference (obligation_ref ref) (obligations (fd_books t)) = Some x \<longleftrightarrow>
        find_by ob_reference (obligation_ref ref) (obligations (fd_books s)) = Some x" for x
      using omem [of x] by (auto simp: find_by_distinct [OF d(1)] find_by_distinct [OF d(2)])
    then show ?thesis by (metis option.exhaust)
  qed
  then have ok: "withdrawal_ok rnd (obligations (fd_books t)) = withdrawal_ok rnd (obligations (fd_books s))"
    by (simp add: withdrawal_ok_def fun_eq_iff)
  have refs: "obligation_ref ref \<in> ob_reference ` set (obligations (fd_books s))"
    if o1: "obligation_ref ref \<in> ob_reference ` set (obligations (fd_books t))" for ref
  proof -
    obtain x where x: "x \<in> set (obligations (fd_books t))" "ob_reference x = obligation_ref ref" using o1 by auto
    with omem fiat_obligation_ref show ?thesis by (metis image_eqI)
  qed
  have status: "row_in_status t ref st" if "row_in_status s ref st" "st \<noteq> PENDING" for ref st
    using that kept(3) unfolding row_in_status_def fiat_evolves_def
    by (metis is_pending_def same_withdrawal_def same_withdrawal_kind)
  have "withdrawal_keys t"
    using inv f status refs kept(1) same_journals(1) [OF j] by (auto simp: fiat_inv_def withdrawal_keys_def foreign_ok_def)
  moreover have "reserves_follow rnd t"
    using inv kept(2) same_journals(2) [OF j] sum_obs [of "obligations (fd_books t)"] sum_obs [of "obligations (fd_books s)"]
    by (simp add: fiat_inv_def reserves_follow_def obs)
  ultimately have "fiat_inv rnd t"
    using inv f ok kept(4) by (simp add: fiat_inv_def foreign_ok_def)
  with kept(3) show ?thesis by blast
qed


section \<open>Rows read before the claim\<close>

lemma provider_ref_irrelevant:
  "settle_claimed sha rnd ch ref tid (r\<lparr>fr_providerRef := x\<rparr>) = settle_claimed sha rnd ch ref tid r"
  "reverse_claimed sha rnd prec ch ref opts (r\<lparr>fr_providerRef := x\<rparr>) = reverse_claimed sha rnd prec ch ref opts r"
proof -
  have f: "fr_id (r\<lparr>fr_providerRef := x\<rparr>) = fr_id r" "fr_userId (r\<lparr>fr_providerRef := x\<rparr>) = fr_userId r"
    "fr_amountUsdc (r\<lparr>fr_providerRef := x\<rparr>) = fr_amountUsdc r" "fr_feeUsdc (r\<lparr>fr_providerRef := x\<rparr>) = fr_feeUsdc r"
    "fr_meta (r\<lparr>fr_providerRef := x\<rparr>) = fr_meta r" by simp_all
  have d: "deferred_of (r\<lparr>fr_providerRef := x\<rparr>) = deferred_of r" "isDeferredWithdrawal (r\<lparr>fr_providerRef := x\<rparr>) = isDeferredWithdrawal r"
    "ledger_reserved (r\<lparr>fr_providerRef := x\<rparr>) = ledger_reserved r"
    by (simp_all add: deferred_of_def isDeferredWithdrawal_def ledger_reserved_def)
  then have e: "realized_fee (r\<lparr>fr_providerRef := x\<rparr>) = realized_fee r" "realized_reward (r\<lparr>fr_providerRef := x\<rparr>) = realized_reward r"
    by (simp_all add: realized_fee_def realized_reward_def Let_def)
  have "settle_posting rnd ref (r\<lparr>fr_providerRef := x\<rparr>) = settle_posting rnd ref r"
    "settled_total rnd (r\<lparr>fr_providerRef := x\<rparr>) = settled_total rnd r"
    unfolding settle_posting_def settled_total_def d e by simp_all
  then have b: "book_settlement sha rnd ch ref (r\<lparr>fr_providerRef := x\<rparr>) = book_settlement sha rnd ch ref r"
    by (intro ext) (simp only: book_settlement_def)
  have c: "realize_economics ref (r\<lparr>fr_providerRef := x\<rparr>) = realize_economics ref r"
    "converge_settlement ch ref (r\<lparr>fr_providerRef := x\<rparr>) = converge_settlement ch ref r"
    by (intro ext, simp only: realize_economics_def converge_settlement_def d e f)+
  have "settle_deferred sha rnd ch ref (r\<lparr>fr_providerRef := x\<rparr>) = settle_deferred sha rnd ch ref r"
    by (intro ext) (simp only: settle_deferred_def b c d)
  then show "settle_claimed sha rnd ch ref tid (r\<lparr>fr_providerRef := x\<rparr>) = settle_claimed sha rnd ch ref tid r"
    by (intro ext) (simp only: settle_claimed_def c)
  have "reverse_posting ref (r\<lparr>fr_providerRef := x\<rparr>) n = reverse_posting ref r n" for n by (simp add: reverse_posting_def)
  then have v: "book_reversal sha rnd ch ref (r\<lparr>fr_providerRef := x\<rparr>) = book_reversal sha rnd ch ref r"
    by (intro ext) (simp only: book_reversal_def)
  have u: "unwind_legacy prec ref (r\<lparr>fr_providerRef := x\<rparr>) = unwind_legacy prec ref r"
    "restore_discount now ref (r\<lparr>fr_providerRef := x\<rparr>) = restore_discount now ref r" for now
    by (intro ext, simp only: unwind_legacy_def restore_discount_def d f)+
  have w: "refund_books sha rnd ch ref (r\<lparr>fr_providerRef := x\<rparr>) = refund_books sha rnd ch ref r"
    "unwind_fees prec ref (r\<lparr>fr_providerRef := x\<rparr>) = unwind_fees prec ref r"
    by (intro ext, simp only: refund_books_def unwind_fees_def u v d)+
  show "reverse_claimed sha rnd prec ch ref opts (r\<lparr>fr_providerRef := x\<rparr>) = reverse_claimed sha rnd prec ch ref opts r"
    by (intro ext) (simp only: reverse_claimed_def w u f)
qed

lemma read_row_kind: "read_row ref s = Some r \<Longrightarrow> fiat_withdrawal r \<longleftrightarrow> fr_type r = ''WITHDRAWAL_FIAT''"
  by (auto simp: read_row_def fiat_withdrawal_def)

text \<open>The row a call read and the row its claim wins differ at most in the provider reference.\<close>

lemma claimed_row:
  assumes "fiat_evolves s s1" and "read_row ref s = Some r" and "fiat_withdrawal r"
    and d: "hashes_distinct (fd_history s1)" and c: "claims fr_txHash is_pending (Some ref) (fd_history s1) \<noteq> 0"
  obtains r1 where "read_row ref s1 = Some r1" "is_pending r1" "fiat_withdrawal r1" "r = r1\<lparr>fr_providerRef := fr_providerRef r\<rparr>"
proof -
  obtain r1 where r1: "read_row ref s1 = Some r1" "is_pending r1"
    using c by (auto simp: hash_claims [OF d] read_row_def split: option.splits if_splits)
  have "same_withdrawal r r1"
    using assms(1-3) r1(1) by (fastforce simp: fiat_evolves_def)
  moreover have "fr_txHash r = Some ref" "fr_txHash r1 = Some ref" using assms(2) r1(1) by (auto simp: read_row_def)
  ultimately have "fiat_withdrawal r1" "r = r1\<lparr>fr_providerRef := fr_providerRef r\<rparr>"
    using assms(3) r1(2) by (auto simp: same_withdrawal_def fiat_withdrawal_def is_pending_def intro!: fiat_row.equality)
  with that r1 show thesis by blast
qed

section \<open>Histories\<close>

datatype fiat_call =
    Reserve fiat_choice nat js_value withdrawal_opts
  | Settle fiat_choice string "string option"
  | Reverse fiat_choice string reversal_opts
  | Liquidate fiat_choice js_value nat
  | LegacyDeposit fiat_choice nat js_num string
  | Foreign "fiat_db \<Rightarrow> fiat_db"

definition answer_of :: "'a fiat_outcome \<Rightarrow> fiat_error option \<times> fiat_db" where
  "answer_of m = (case m of (Inl e, t) \<Rightarrow> (Some e, t) | (Inr _, t) \<Rightarrow> (None, t))"

definition fiat_exec ::
  "(string \<Rightarrow> string) \<Rightarrow> (int \<Rightarrow> int) \<Rightarrow> (rat \<Rightarrow> rat) \<Rightarrow> (string \<Rightarrow> decimal option) \<Rightarrow> (fiat_db \<Rightarrow> fiat_db) \<Rightarrow> fiat_call \<Rightarrow> fiat_db \<Rightarrow>
   fiat_error option \<times> fiat_db" where
  "fiat_exec sha rnd prec parse env c s =
     (case c of
        Reserve ch userId amount opts \<Rightarrow>
          (if plain_reference (reference_of opts userId (fc_now ch))
           then answer_of (processFiatWithdrawal sha rnd prec parse ch userId amount opts env s) else (None, s))
      | Settle ch ref tid \<Rightarrow> answer_of (completeFiatWithdrawal sha rnd ch ref tid env s)
      | Reverse ch ref opts \<Rightarrow> answer_of (reverseFiatWithdrawal sha rnd prec ch False ref opts env s)
      | Liquidate ch amount adminId \<Rightarrow> answer_of (liquidateProfits prec parse ch amount adminId env s)
      | LegacyDeposit ch userId amount h \<Rightarrow> answer_of (processCryptoDeposit sha rnd ch userId amount h (env s))
      | Foreign f \<Rightarrow> (None, if foreign_ok (env s) (f (env s)) then f (env s) else env s))"

lemma reserve_call_keeps:
  assumes run: "processFiatWithdrawal sha rnd prec parse ch userId amount opts env s = (r, t)"
    and pl: "plain_reference (reference_of opts userId (fc_now ch))"
    and inv: "fiat_inv rnd s" "fiat_inv rnd (env s)" and ev: "fiat_evolves s (env s)"
  shows "fiat_inv rnd t \<and> fiat_evolves s t \<and> (t = s \<or> (\<forall>i. gap i t = gap i (env s)))"
proof -
  consider "t = s" | "t = env s" | on referrer n pct disc rate q row where
      "q = price_withdrawal rnd prec n pct disc rate"
      "reserve_tx sha rnd parse ch on userId (reference_of opts userId (fc_now ch)) opts referrer q (env s) = (Inr row, t)"
    using run
    by (cases "transaction id (reserve_tx sha rnd parse ch (case fd_settings s of None \<Rightarrow> False | Some g \<Rightarrow> gs_fiatLiquidityAuthorityEnabled g) userId
          (reference_of opts userId (fc_now ch)) opts (resolveReferrer userId s) undefined) (env s)")
      (fastforce simp: processFiatWithdrawal_def Let_def and_then_def transaction_def split: sum.splits option.splits if_splits prod.splits)
  then show ?thesis
  proof cases
    case 3
    have "wq_totalDeduct q = rnd (wq_amount q + wq_exitFee q)" by (simp add: 3(1) price_withdrawal_def Let_def)
    from reserve_keeps [OF inv(2) 3(2) pl this] show ?thesis using fiat_evolves_trans [OF ev] by (auto simp: fiat_moves_def)
  qed (use inv ev in auto)
qed

lemma settle_call_keeps:
  assumes run: "completeFiatWithdrawal sha rnd ch ref tid env s = (r, t)"
    and inv: "fiat_inv rnd s" "fiat_inv rnd (env s)" and ev: "fiat_evolves s (env s)"
  shows "fiat_inv rnd t \<and> fiat_evolves s t \<and> (t = s \<or> (\<forall>i. gap i t = gap i (env s)))"
proof -
  consider "t = s" | "t = env s" | r0 y where "read_row ref s = Some r0" "fiat_withdrawal r0"
      "claims fr_txHash is_pending (Some ref) (fd_history (env s)) = 1"
      "settle_claimed sha rnd ch ref tid r0
        ((env s)\<lparr>fd_history := claim_rows fr_txHash is_pending (complete_row tid) (Some ref) (fd_history (env s))\<rparr>) = (Inr y, t)"
    using run
    by (cases r) (auto simp: completeFiatWithdrawal_def transaction_Inl Let_def read_row_kind split: if_splits option.splits)
  then show ?thesis
  proof cases
    case (3 r0 y)
    have d: "hashes_distinct (fd_history (env s))" using inv(2) by (simp add: fiat_inv_def)
    from 3(3) have c: "claims fr_txHash is_pending (Some ref) (fd_history (env s)) \<noteq> 0" by simp
    obtain r1 where r1: "read_row ref (env s) = Some r1" "is_pending r1" "fiat_withdrawal r1" "r0 = r1\<lparr>fr_providerRef := fr_providerRef r0\<rparr>"
      by (rule claimed_row [OF ev 3(1,2) d c])
    from settle_claimed_keeps(1) [OF inv(2) r1(1-3)] 3(4) provider_ref_irrelevant(1) r1(4)
    show ?thesis using fiat_evolves_trans [OF ev] unfolding fiat_moves_def by metis
  qed (use inv ev in auto)
qed

lemma reverse_call_keeps:
  assumes run: "reverseFiatWithdrawal sha rnd prec ch False ref opts env s = (r, t)"
    and inv: "fiat_inv rnd s" "fiat_inv rnd (env s)" and ev: "fiat_evolves s (env s)"
  shows "fiat_inv rnd t \<and> fiat_evolves s t \<and> (t = s \<or> (\<forall>i. gap i t = gap i (env s)))"
proof -
  consider "t = s" | "t = env s" | r0 referrer y where "read_row ref s = Some r0" "fiat_withdrawal r0"
      "claims fr_txHash is_pending (Some ref) (fd_history (env s)) \<noteq> 0"
      "reverse_claimed sha rnd prec ch ref opts r0 referrer
        ((env s)\<lparr>fd_history := claim_rows fr_txHash is_pending fail_row (Some ref) (fd_history (env s))\<rparr>) = (Inr y, t)"
    using run
    by (cases r) (auto simp: reverseFiatWithdrawal_def runReversal_def transaction_Inl Let_def read_row_kind split: if_splits option.splits)
  then show ?thesis
  proof cases
    case (3 r0 referrer y)
    have d: "hashes_distinct (fd_history (env s))" using inv(2) by (simp add: fiat_inv_def)
    obtain r1 where r1: "read_row ref (env s) = Some r1" "is_pending r1" "fiat_withdrawal r1" "r0 = r1\<lparr>fr_providerRef := fr_providerRef r0\<rparr>"
      by (rule claimed_row [OF ev 3(1,2) d 3(3)])
    from reverse_claimed_keeps [OF inv(2) r1(1-3)] 3(4) provider_ref_irrelevant(2) r1(4)
    show ?thesis using fiat_evolves_trans [OF ev] unfolding fiat_moves_def by metis
  qed (use inv ev in auto)
qed

lemma liquidate_call_keeps:
  assumes run: "liquidateProfits prec parse ch amount adminId env s = (r, t)"
    and inv: "fiat_inv rnd s" "fiat_inv rnd (env s)" and ev: "fiat_evolves s (env s)"
  shows "fiat_inv rnd t \<and> fiat_evolves s t \<and> (t = s \<or> (\<forall>i. gap i t = gap i (env s)))"
proof -
  consider "t = s" | "t = env s" | n rate where "liquidation_tx prec parse ch adminId n rate (env s) = (Inr (), t)"
    using run
    by (fastforce simp: liquidateProfits_def Let_def and_then_def transaction_def split: sum.splits option.splits if_splits prod.splits)
  then show ?thesis
  proof cases
    case 3
    from liquidation_same [OF this] show ?thesis using same_accounts_keeps inv(2) fiat_evolves_trans [OF ev] unfolding fiat_moves_def by blast
  qed (use inv ev in auto)
qed

lemma deposit_call_keeps:
  assumes run: "processCryptoDeposit sha rnd ch userId amount h s = (r, t)" and inv: "fiat_inv rnd s"
  shows "fiat_inv rnd t \<and> fiat_moves s t"
proof -
  consider "t = s" | x where "legacy_deposit_tx sha rnd ch userId amount h s = (Inr x, t)"
    using run by (auto simp: processCryptoDeposit_def transaction_def split: sum.splits prod.splits if_splits)
  then show ?thesis by cases (use fiat_deposit_keeps [OF inv] inv in \<open>auto simp: fiat_moves_def\<close>)
qed

text \<open>A call of the service, whatever ran between its read and its transaction, keeps the books and every
  gap; another service keeps the books.\<close>

lemma answer_state: "answer_of m = (r, t) \<Longrightarrow> \<exists>x. m = (x, t)"
  by (auto simp: answer_of_def split: sum.splits prod.splits)

lemma own_call_keeps:
  assumes run: "fiat_exec sha rnd prec parse env c s = (r, t)" and own: "\<And>f. c \<noteq> Foreign f"
    and inv: "fiat_inv rnd s" "fiat_inv rnd (env s)" and ev: "fiat_evolves s (env s)"
  shows "fiat_inv rnd t \<and> fiat_evolves s t \<and> (t = s \<or> (\<forall>i. gap i t = gap i (env s)))"
proof (cases c)
  case (Reserve ch userId amount opts)
  then show ?thesis
    using run reserve_call_keeps [where env = env and s = s, OF _ _ inv ev] inv(1)
    by (cases "plain_reference (reference_of opts userId (fc_now ch))") (simp add: fiat_exec_def, blast dest: answer_state, simp add: fiat_exec_def)
next
  case (Settle ch ref tid)
  then show ?thesis using run settle_call_keeps [where env = env and s = s, OF _ inv ev] by (simp add: fiat_exec_def) (blast dest: answer_state)
next
  case (Reverse ch ref opts)
  then show ?thesis using run reverse_call_keeps [where env = env and s = s, OF _ inv ev] by (simp add: fiat_exec_def) (blast dest: answer_state)
next
  case (Liquidate ch amount adminId)
  then show ?thesis using run liquidate_call_keeps [where env = env and s = s, OF _ inv ev] by (simp add: fiat_exec_def) (blast dest: answer_state)
next
  case (LegacyDeposit ch userId amount h)
  then show ?thesis
    using run deposit_call_keeps [OF _ inv(2)] fiat_evolves_trans [OF ev] by (auto simp: fiat_exec_def fiat_moves_def dest!: answer_state)
qed (use own in blast)

interpretation fw: interleaved_service "fiat_exec sha rnd prec parse" "fiat_inv rnd" fiat_evolves for sha rnd prec parse
proof
  fix env c s r s'
  assume run: "fiat_exec sha rnd prec parse env c s = (r, s')"
    and inv: "fiat_inv rnd s" "fiat_inv rnd (env s)" and ev: "fiat_evolves s (env s)"
  show "fiat_inv rnd s' \<and> fiat_evolves s s'"
  proof (cases "\<exists>f. c = Foreign f")
    case True
    then show ?thesis
      using run foreign_keeps [OF inv(2)] inv(2) ev fiat_evolves_trans [OF ev] by (auto simp: fiat_exec_def split: if_splits)
  next
    case False
    then show ?thesis using own_call_keeps [OF run _ inv ev] by blast
  qed
qed (use fiat_evolves_trans in auto)

section \<open>Openings\<close>

text \<open>A database before its first fiat withdrawal.\<close>

definition withdrawal_free_key :: "string \<Rightarrow> bool" where
  "withdrawal_free_key k \<longleftrightarrow> take 23 k \<noteq> ''ledger:withdrawal:fiat:'' \<and> take 22 k \<noteq> ''ledger:deposit:crypto:''"

definition fiat_opening :: "fiat_db \<Rightarrow> bool" where
  "fiat_opening s \<longleftrightarrow>
     users_ok s \<and> hashes_distinct (fd_history s) \<and> list_all (\<lambda>r. \<not> fiat_withdrawal r) (fd_history s) \<and>
     distinct (map ob_reference (obligations (fd_books s))) \<and> list_all (\<lambda>x. \<not> fiat_obligation x) (obligations (fd_books s)) \<and>
     accounts_classified (fiat_ledger s) \<and>
     list_all (\<lambda>x. withdrawal_free_key (lt_idempotencyKey x)) (txns (fiat_ledger s)) \<and>
     list_all (\<lambda>e. \<not> withdrawal_key (je_transactionId e)) (entries (fiat_ledger s))"

lemma fiat_opening_inv:
  assumes "fiat_opening s"
  shows "fiat_inv rnd s"
proof -
  have "\<not> withdrawal_free_key (reserve_key ref)" "\<not> withdrawal_free_key (legacy_key ref)" for ref
    by (simp_all add: withdrawal_free_key_def reserve_key_def legacy_key_def)
  moreover have "booked_key k (fiat_ledger s) \<Longrightarrow> withdrawal_free_key k" for k
    using assms by (auto simp: fiat_opening_def booked_key_def list_all_iff)
  ultimately have "\<not> booked_key (reserve_key ref) (fiat_ledger s)" "\<not> booked_key (legacy_key ref) (fiat_ledger s)" for ref
    by blast+
  moreover have "list_all (\<lambda>r. \<not> fiat_withdrawal r) rows \<Longrightarrow> sum_rows (open_amount rnd) rows = 0" for rows
    by (induction rows) (auto simp: open_amount_def)
  moreover have "list_all (\<lambda>x. \<not> fiat_obligation x) os \<Longrightarrow> sum_rows fiat_active os = 0" for os
    by (induction os) (auto simp: fiat_active_def)
  moreover have "keyed_net withdrawal_key ''restricted:reserves'' (fiat_ledger s) = 0"
  proof -
    have "list_all (\<lambda>e. \<not> withdrawal_key (je_transactionId e)) es \<Longrightarrow>
        sum_rows (\<lambda>e. if authoritative_entry c e \<and> withdrawal_key (je_transactionId e) then je_debit e - je_credit e else 0) es = 0" for c es
      by (induction es) auto
    then show ?thesis using assms by (simp add: fiat_opening_def keyed_net_def)
  qed
  moreover have "obligation_ref ref \<notin> ob_reference ` set (obligations (fd_books s))" for ref
    using assms by (auto simp: fiat_opening_def list_all_iff dest: fiat_obligation_ref [OF sym])
  ultimately show ?thesis
    using assms by (auto simp: fiat_opening_def fiat_inv_def withdrawal_keys_def reserves_follow_def list_all_iff key_shapes)
qed

lemma history_books:
  assumes "fiat_opening s" and "history (fiat_exec sha rnd prec parse) s t"
  shows "fiat_inv rnd t" and "fiat_evolves s t"
  using fw.history_keeps [OF assms(2) fiat_opening_inv [OF assms(1)]] by blast+

lemma evolved_row:
  assumes "fiat_evolves s t" and "read_row ref s = Some r" and "fiat_withdrawal r" and "\<not> is_pending r"
  obtains r' where "read_row ref t = Some r'" "same_withdrawal r r'" "fr_status r' = fr_status r" "fiat_withdrawal r'"
proof -
  obtain r' where "read_row ref t = Some r'" "same_withdrawal r r'"
    using assms(1-3) by (auto simp: fiat_evolves_def)
  with assms(3,4) that show thesis by (auto simp: same_withdrawal_def fiat_withdrawal_def)
qed

end
