(* ===== verification/Fiat_Progress.thy ===== *)
theory Fiat_Progress
  imports Fiat_Outcome
begin

text \<open>
  Which calls succeed. A priced withdrawal within the balance and the pool is reserved, an open one
  is always refunded, and it is settled exactly when the shares of its fee add up to the fee.
\<close>

section \<open>Postings of the service\<close>

lemma fiat_classified:
  "classifyAccountCode ''restricted:reserves'' = Inr (CANONICAL, spec_of RESTRICTED CREDIT ''USDC'' None)"
  "classifyAccountCode ''clearing:fiat:offramp:usdc'' = Inr (CANONICAL, spec_of CLEARING CREDIT ''USDC'' None)"
  "classifyAccountCode ''revenue:fees'' = Inr (CANONICAL, spec_of REVENUE CREDIT ''USDC'' None)"
  by (simp_all add: classifyAccountCode_def CANONICAL_ACCOUNTS_def user_account_match_def escrow_account_match_def between_def)

lemma fiat_assets [simp]:
  "asset_of ''restricted:reserves'' = Inr ''USDC''" "asset_of ''clearing:fiat:offramp:usdc'' = Inr ''USDC''"
  "asset_of ''revenue:fees'' = Inr ''USDC''"
  by (simp_all add: asset_of_def fiat_classified spec_of_def)

definition account_code_ok :: "nat \<Rightarrow> bool" where
  "account_code_ok i \<longleftrightarrow> length (user_liability_code i) \<le> 80"

lemma user_asset [simp]: "account_code_ok i \<Longrightarrow> asset_of (user_liability_code i) = Inr ''USDC''"
  by (simp add: account_code_ok_def asset_of_def classify_user_liability liability_spec_def spec_of_def)

text \<open>The ledger takes a posting under \<open>key\<close>: decimal.js is exact on the amounts, no race is lost.\<close>

definition ledger_ready :: "(int \<Rightarrow> int) \<Rightarrow> fiat_choice \<Rightarrow> string \<Rightarrow> fiat_db \<Rightarrow> bool" where
  "ledger_ready rnd ch key s \<longleftrightarrow>
     decimal_exact rnd \<and> undisturbed (fc_ledger ch) \<and> accounts_classified (fiat_ledger s) \<and> length key \<le> 140 \<and>
     \<not> booked_key key (fiat_ledger s)"

lemma usdc_transfer_accepted:
  assumes "pp_lines p = [\<lparr>li_account = a, li_debit = usdc_decimal n, li_credit = JNull\<rparr>, \<lparr>li_account = b, li_debit = JNull, li_credit = usdc_decimal n\<rparr>]"
    and "check_header p = None" "pp_conversion p = None" "pp_entryType p \<noteq> ''ASSET_CONVERSION''"
    and "asset_of a = Inr ''USDC''" "asset_of b = Inr ''USDC''" and "0 < n" "n < 10 ^ 20"
    and "ledger_ready rnd ch (pp_idempotencyKey p) s"
  obtains res t where "post_fiat sha rnd ch p s = (Inr res, t)" "t = s\<lparr>fd_books := (fd_books s)\<lparr>ob_ledger := fiat_ledger t\<rparr>\<rparr>"
proof -
  have r: "rnd 0 = 0" "rnd (int (nat n)) = int (nat n)"
    using assms(7-9) by (auto simp: ledger_ready_def decimal_exact_def)
  obtain res L where "post sha rnd (fc_ledger ch) True p (fiat_ledger s) = (Inr res, L)"
    by (rule transfer_accepted [where rnd = rnd and a = a and b = b and v = "usdc_decimal n" and n = "nat n"])
      (use assms r in \<open>auto simp: ledger_ready_def usdc_decimal_units simp del: toExactDecimal.simps\<close>)
  then have "post_fiat sha rnd ch p s = (Inr res, s\<lparr>fd_books := (fd_books s)\<lparr>ob_ledger := L\<rparr>\<rparr>)"
    by (simp add: post_fiat_def fiat_ledger_def)
  then show thesis by (rule that) (simp add: fiat_ledger_def)
qed

lemma reserve_posting_accepted:
  assumes "ledger_ready rnd ch (reserve_key ref) s" and "account_code_ok i" and "0 < n" "n < 10 ^ 20"
  obtains res t where "post_fiat sha rnd ch (reserve_posting i ref h n) s = (Inr res, t)"
    "t = s\<lparr>fd_books := (fd_books s)\<lparr>ob_ledger := fiat_ledger t\<rparr>\<rparr>"
  by (rule usdc_transfer_accepted [where p = "reserve_posting i ref h n" and rnd = rnd and ch = ch and s = s and n = n])
    (use assms that in \<open>auto simp: reserve_posting_def ledger_ready_def check_header_def ENTRY_TYPES_def js_trim_def js_space_def reserve_key_def\<close>)

lemma reverse_posting_accepted:
  assumes "ledger_ready rnd ch (reverse_key ref) s" and "account_code_ok (fr_userId r)" and "0 < n" "n < 10 ^ 20"
  obtains res t where "post_fiat sha rnd ch (reverse_posting ref r n) s = (Inr res, t)"
    "t = s\<lparr>fd_books := (fd_books s)\<lparr>ob_ledger := fiat_ledger t\<rparr>\<rparr>"
  by (rule usdc_transfer_accepted [where p = "reverse_posting ref r n" and rnd = rnd and ch = ch and s = s and n = n])
    (use assms that in \<open>auto simp: reverse_posting_def ledger_ready_def check_header_def ENTRY_TYPES_def js_trim_def js_space_def reverse_key_def\<close>)

section \<open>A reservation succeeds\<close>

definition small_reference :: "string \<Rightarrow> bool" where
  "small_reference ref \<longleftrightarrow> ref \<noteq> [] \<and> plain_reference ref \<and> length ref \<le> 109"

lemma inv_ready:
  assumes "fiat_inv rnd s" and "decimal_exact rnd" "undisturbed (fc_ledger ch)" "small_reference ref"
  shows "Some ref \<notin> fr_txHash ` set (fd_history s) \<Longrightarrow> ledger_ready rnd ch (reserve_key ref) s"
    and "read_row ref s = Some r \<Longrightarrow> is_pending r \<Longrightarrow> ledger_ready rnd ch (settle_key ref) s"
    and "read_row ref s = Some r \<Longrightarrow> is_pending r \<Longrightarrow> ledger_ready rnd ch (reverse_key ref) s"
proof -
  have keys: "withdrawal_keys s" and cls: "accounts_classified (fiat_ledger s)" using assms(1) by (simp_all add: fiat_inv_def)
  have len: "length (reserve_key ref) \<le> 140" "length (settle_key ref) \<le> 140" "length (reverse_key ref) \<le> 140"
    using assms(4) by (simp_all add: small_reference_def reserve_key_def settle_key_def reverse_key_def)
  show "ledger_ready rnd ch (reserve_key ref) s" if "Some ref \<notin> fr_txHash ` set (fd_history s)"
    using that assms(2-4) cls keys len(1) by (auto simp: ledger_ready_def withdrawal_keys_def withdrawal_refs_def small_reference_def)
  show "ledger_ready rnd ch (settle_key ref) s" "ledger_ready rnd ch (reverse_key ref) s" if "read_row ref s = Some r" "is_pending r"
    using that assms(2,3) cls keys len(2,3) by (auto simp: ledger_ready_def withdrawal_keys_def row_in_status_def is_pending_def)
qed

lemma ledger_ready_cong: "fd_books t = fd_books s \<Longrightarrow> ledger_ready rnd ch key t = ledger_ready rnd ch key s"
  by (simp add: ledger_ready_def fiat_ledger_def)

lemma debit_accepted:
  assumes "users_ok s" and "find_by au_id i (wd_users (fd_wallet s)) = Some u" and "n \<le> au_availableBalance u"
  obtains t where "debitUserBalance i n s = (Inr (), t)"
proof -
  have "distinct (map au_id (wd_users (fd_wallet s)))" using assms(1) by (simp add: users_ok_def)
  from count_by_key [OF this, of i "has_available n"] have "count_by (\<lambda>u. au_id u = i \<and> has_available n u) (wd_users (fd_wallet s)) = 1"
    using assms(2,3) by (simp add: has_available_def)
  with that show thesis by (auto simp: debitUserBalance_def Let_def)
qed

lemma reserve_funds_accepted:
  assumes "users_ok s" and "find_by au_id i (wd_users (fd_wallet s)) = Some u" and "wq_totalDeduct q \<le> au_availableBalance u"
    and "fd_fiatPool s = Some b" "wq_amount q \<le> b" and "wo_feeDiscountTier opts = None"
  obtains t where "reserve_funds ch False i ref opts q s = (Inr None, t)"
proof -
  let ?s1 = "s\<lparr>fd_fiatPool := Some (b - wq_amount q)\<rparr>"
  obtain s2 where "debitUserBalance i (wq_totalDeduct q) ?s1 = (Inr (), s2)"
    by (rule debit_accepted [of ?s1 i u]) (use assms in \<open>auto simp: users_ok_def\<close>)
  then have "reserve_funds ch False i ref opts q s = (Inr None, add_master (wq_amount q) (ensureMasterCryptoSingleton (ensureProfitFeesSingleton s2)))"
    using assms by (simp add: reserve_funds_def reserve_pool_def reserveFiatPool_def reserve_discount_def and_then_def)
  with that show thesis by blast
qed

lemma book_reservation_accepted:
  assumes "ledger_ready rnd ch (reserve_key ref) s" and "account_code_ok i" and "0 < wq_totalDeduct q" "wq_totalDeduct q < 10 ^ 20"
    and "obligation_ref ref \<notin> ob_reference ` set (obligations (fd_books s))"
  obtains t where "book_reservation sha rnd ch i ref q r s = (Inr (), t)"
proof -
  obtain res t where p: "post_fiat sha rnd ch (reserve_posting i ref (fr_id r) (wq_totalDeduct q)) s = (Inr res, t)"
    and t: "t = s\<lparr>fd_books := (fd_books s)\<lparr>ob_ledger := fiat_ledger t\<rparr>\<rparr>"
    by (rule reserve_posting_accepted [OF assms(1-4)])
  have "obligations (fd_books t) = obligations (fd_books s)" by (subst t) simp
  then have new: "obligation_ref ref \<notin> ob_reference ` set (obligations (fd_books t))" using assms(5) by simp
  then have "find_by ob_reference (obligation_ref ref) (obligations (fd_books t)) = None" by (simp add: find_by_None)
  moreover have "assertKnownSource ''PENDING_FIAT_WITHDRAWAL''" by code_simp
  ultimately show thesis
    using that p assms(3) new
    by (simp add: book_reservation_def and_then_def with_obligations_def createForPendingWithdrawal_def reserve_obligation_def
        usdc_decimal_units Let_def del: toExactDecimal.simps)
qed

lemma reserve_accepted:
  assumes inv: "fiat_inv rnd s" and rnd: "decimal_exact rnd" and ch: "undisturbed (fc_ledger ch)" "fc_record_ok ch"
    and ref: "small_reference ref" "Some ref \<notin> fr_txHash ` set (fd_history s)"
    and u: "find_by au_id i (wd_users (fd_wallet s)) = Some u" "account_code_ok i" "wq_totalDeduct q \<le> au_availableBalance u"
    and q: "0 < wq_totalDeduct q" "wq_totalDeduct q < 10 ^ 20" and pool: "fd_fiatPool s = Some b" "wq_amount q \<le> b"
    and opts: "wo_feeDiscountTier opts = None" "wo_operation opts = None"
  obtains t where "reserve_tx sha rnd parse ch False i ref opts referrer q s =
      (Inr (withdrawal_history ch i ref q (reserve_meta referrer q None)), t)"
proof -
  let ?r = "withdrawal_history ch i ref q (reserve_meta referrer q None)"
  have ok: "users_ok s" and keys: "withdrawal_keys s" using inv by (simp_all add: fiat_inv_def)
  obtain s1 where 1: "reserve_funds ch False i ref opts q s = (Inr None, s1)"
    by (rule reserve_funds_accepted [OF ok u(1,3) pool opts(1)])
  note f = reserve_funds_cases [OF 1 ok]
  let ?s2 = "s1\<lparr>fd_history := fd_history s1 @ [?r]\<rparr>"
  have 2: "create_history ?r s1 = (Inr (), ?s2)" using ref(2) f(1) by (simp add: create_history_def withdrawal_history_def)
  obtain s3 where 3: "create_withdrawal_record ch (wo_record opts) ?r ?s2 = (Inr (), s3)"
    using ch(2) by (cases "wo_record opts") (auto simp: create_withdrawal_record_def)
  have b3: "fd_books s3 = fd_books s" using create_record_same [OF 3] f(2) by (simp add: same_accounts_def)
  have "ledger_ready rnd ch (reserve_key ref) s3"
    using inv_ready(1) [OF inv rnd ch(1) ref] ledger_ready_cong [OF b3] by blast
  moreover have "obligation_ref ref \<notin> ob_reference ` set (obligations (fd_books s3))"
    using keys ref(2) by (auto simp: b3 withdrawal_keys_def withdrawal_refs_def)
  ultimately obtain s5 where "book_reservation sha rnd ch i ref q ?r s3 = (Inr (), s5)"
    using book_reservation_accepted u(2) q by metis
  then have "reserve_tx sha rnd parse ch False i ref opts referrer q s = (Inr ?r, s5)"
    using 1 2 3 opts(2) by (simp add: reserve_tx_def and_then_def reserve_payout_def with_operations_def commitOperation_def Let_def)
  with that show thesis by blast
qed

section \<open>A refund succeeds\<close>

definition no_payout_reservation :: "string \<Rightarrow> fiat_db \<Rightarrow> bool" where
  "no_payout_reservation ref s \<longleftrightarrow> ref \<notin> rz_reference ` set (reservations (fd_liquidity s))"

lemma unrecorded:
  assumes "no_payout_reservation ref s"
  shows "with_liquidity (settleIfRecorded cx ref out tid reason id) s = (Inr None, s\<lparr>fd_liquidity := (fd_liquidity s)\<lparr>pool := None\<rparr>\<rparr>)"
    and "with_liquidity (releaseIfRecorded cx ref id) s = (Inr None, s\<lparr>fd_liquidity := (fd_liquidity s)\<lparr>pool := None\<rparr>\<rparr>)"
  using assms
  by (simp_all add: no_payout_reservation_def with_liquidity_def settleIfRecorded_def releaseIfRecorded_def if_recorded_def find_by_None [THEN iffD2])

definition user_known :: "nat \<Rightarrow> fiat_db \<Rightarrow> bool" where
  "user_known i s \<longleftrightarrow> find_by au_id i (wd_users (fd_wallet s)) \<noteq> None"

lemma increment_accepted:
  assumes "user_known i s"
  obtains t where "increment_user i n s = (Inr (), t)"
    "t = s\<lparr>fd_wallet := (fd_wallet s)\<lparr>wd_users := update_by (\<lambda>u. au_id u = i) (add_available n) (wd_users (fd_wallet s))\<rparr>\<rparr>"
  using that assms by (auto simp: increment_user_def user_known_def)

lemma restore_accepted:
  assumes "user_known (fr_userId r) s"
  obtains a t where "restore_discount now ref r s = (Inr a, t)"
proof -
  have "find_by au_id (fr_userId r) (wd_users (fd_wallet s)) \<noteq> None" using assms by (simp add: user_known_def)
  then have "\<exists>a t. restore_discount now ref r s = (Inr a, t)"
    by (auto simp: restore_discount_def Let_def split: option.splits)
  with that show thesis by blast
qed

lemma book_reversal_accepted:
  assumes "ledger_ready rnd ch (reverse_key ref) s" and "account_code_ok (fr_userId r)" and "0 < n" "n < 10 ^ 20"
    and "distinct (map ob_reference (obligations (fd_books s)))"
    and "find_by ob_reference (obligation_ref ref) (obligations (fd_books s)) = Some x" "ob_active x"
  obtains t where "book_reversal sha rnd ch ref r n s = (Inr (), t)"
proof -
  obtain res t where p: "post_fiat sha rnd ch (reverse_posting ref r n) s = (Inr res, t)"
    and t: "t = s\<lparr>fd_books := (fd_books s)\<lparr>ob_ledger := fiat_ledger t\<rparr>\<rparr>"
    by (rule reverse_posting_accepted [OF assms(1-4)])
  have "obligations (fd_books t) = obligations (fd_books s)" by (subst t) simp
  then have "claims ob_reference ob_active (obligation_ref ref) (obligations (fd_books t)) = 1"
    using assms(5-7) by (simp add: claims_def count_by_key)
  with p that show thesis
    by (simp add: book_reversal_def and_then_def with_obligations_def cancelOnReversal_def Let_def)
qed

lemma open_obligation:
  assumes "fiat_inv rnd s" and "read_row ref s = Some r" "is_pending r" "fiat_withdrawal r"
  obtains x where "find_by ob_reference (obligation_ref ref) (obligations (fd_books s)) = Some x" "ob_active x"
    "ob_amount x = reserved_total rnd r" "0 < reserved_total rnd r" "isDeferredWithdrawal r" "ledger_reserved r"
proof -
  have "r \<in> set (fd_history s)" "fr_txHash r = Some ref" using assms(2) find_by_Some by (fastforce simp: read_row_def)+
  then have "withdrawal_ok rnd (obligations (fd_books s)) r" using assms(1,4) by (simp add: fiat_inv_def)
  with \<open>fr_txHash r = Some ref\<close> assms(3) that show thesis by (auto simp: withdrawal_ok_def backed_by_def is_pending_def ob_active_def)
qed

lemma refund_accepted:
  assumes inv: "fiat_inv rnd s" and r: "read_row ref s = Some r" "is_pending r" "fiat_withdrawal r"
    and rnd: "decimal_exact rnd" and ch: "undisturbed (fc_ledger ch)" and ref: "small_reference ref"
    and u: "user_known (fr_userId r) s" "account_code_ok (fr_userId r)" and n: "reserved_total rnd r < 10 ^ 20"
    and free: "no_payout_reservation ref s"
  obtains a t where "reverse_claimed sha rnd prec ch ref opts r None
      (s\<lparr>fd_history := claim_rows fr_txHash is_pending fail_row (Some ref) (fd_history s)\<rparr>) = (Inr (Reversed (reserved_total rnd r) a), t)"
proof -
  define s2 where "s2 = ensureMasterCryptoSingleton (ensureFiatPoolSingleton (ensureProfitFeesSingleton
      (s\<lparr>fd_history := claim_rows fr_txHash is_pending fail_row (Some ref) (fd_history s),
         fd_routes := snd (convergeRunOnFiatReversal (fc_tz ch) (fc_now ch) ref (ro_reason opts) (ro_runFailureStatus opts) id (fd_routes s))\<rparr>)))"
  have s2: "fd_books s2 = fd_books s" "fd_wallet s2 = fd_wallet s" "fd_liquidity s2 = fd_liquidity s"
    by (simp_all add: s2_def ensureMasterCryptoSingleton_def ensureFiatPoolSingleton_def ensureProfitFeesSingleton_def)
  obtain x where x: "find_by ob_reference (obligation_ref ref) (obligations (fd_books s)) = Some x" "ob_active x"
    "0 < reserved_total rnd r" "isDeferredWithdrawal r" "ledger_reserved r"
    by (rule open_obligation [OF inv r])
  have "user_known (fr_userId r) s2" using u(1) by (simp add: user_known_def s2)
  then obtain s3 where 3: "increment_user (fr_userId r) (reserved_total rnd r) s2 = (Inr (), s3)"
    and s3: "s3 = s2\<lparr>fd_wallet := (fd_wallet s2)\<lparr>wd_users :=
        update_by (\<lambda>u. au_id u = fr_userId r) (add_available (reserved_total rnd r)) (wd_users (fd_wallet s2))\<rparr>\<rparr>"
    by (rule increment_accepted)
  have b3: "fd_books s3 = fd_books s" by (simp add: s3 s2)
  have d: "distinct (map ob_reference (obligations (fd_books s3)))" using inv by (simp add: b3 fiat_inv_def)
  have "ledger_ready rnd ch (reverse_key ref) s3"
    using inv_ready(3) [OF inv rnd ch ref r(1,2)] ledger_ready_cong [OF b3] by blast
  then obtain s4 where 4: "book_reversal sha rnd ch ref r (reserved_total rnd r) s3 = (Inr (), s4)"
    using book_reversal_accepted u(2) x(1-3) n d b3 by metis
  have s4: "s4 = s3\<lparr>fd_books := fd_books s4\<rparr>"
    using 4 by (auto simp: book_reversal_def and_then_Inr elim!: post_fiat_cases with_obligations_cases)
  have w4: "fd_wallet s4 = fd_wallet s3" "fd_liquidity s4 = fd_liquidity s" by (subst s4, simp add: s3 s2)+
  define s6 where "s6 = add_pool (fr_amountUsdc r) (ensureFiatPoolSingleton
      ((add_master (- fr_amountUsdc r) s4)\<lparr>fd_liquidity := (fd_liquidity s4)\<lparr>pool := None\<rparr>\<rparr>))"
  have "no_payout_reservation ref (add_master (- fr_amountUsdc r) s4)"
    using free by (simp add: no_payout_reservation_def add_master_def w4)
  then have 6: "release_liquidity ch ref opts (fr_amountUsdc r) (add_master (- fr_amountUsdc r) s4) = (Inr (), s6)"
    by (simp add: release_liquidity_def unrecorded and_then_def s6_def add_master_def)
  have "user_known (fr_userId r) s6"
    using u(1) by (simp add: user_known_def s6_def add_pool_def ensureFiatPoolSingleton_def add_master_def w4 s3 s2 find_by_update_by)
  then obtain a t where "restore_discount (fc_now ch) ref r s6 = (Inr a, t)" by (rule restore_accepted)
  with 3 4 6 x(4,5) have "reverse_claimed sha rnd prec ch ref opts r None
      (s\<lparr>fd_history := claim_rows fr_txHash is_pending fail_row (Some ref) (fd_history s)\<rparr>) = (Inr (Reversed (reserved_total rnd r) a), t)"
    by (simp add: reverse_claimed_def s2_def [symmetric] reserved_total_def [symmetric] refund_books_def unwind_fees_def and_then_def Let_def)
  with that show thesis by blast
qed

section \<open>Which settlements succeed\<close>

definition settle_lines_norm :: "(int \<Rightarrow> int) \<Rightarrow> fiat_row \<Rightarrow> norm_line list" where
  "settle_lines_norm rnd r =
     [\<lparr>nl_account = ''restricted:reserves'', nl_debit = settled_total rnd r, nl_credit = 0\<rparr>,
      \<lparr>nl_account = ''clearing:fiat:offramp:usdc'', nl_debit = 0, nl_credit = fr_amountUsdc r\<rparr>] @
     (if realized_fee r \<noteq> 0 then [\<lparr>nl_account = ''revenue:fees'', nl_debit = 0, nl_credit = realized_fee r\<rparr>] else []) @
     (if pays_referrer (deferred_of r)
      then [\<lparr>nl_account = user_liability_code (the (df_referrerId (deferred_of r))), nl_debit = 0, nl_credit = df_referrerShare (deferred_of r)\<rparr>]
      else [])"

definition sound_settlement :: "fiat_row \<Rightarrow> fiat_db \<Rightarrow> bool" where
  "sound_settlement r s \<longleftrightarrow>
     0 < fr_amountUsdc r \<and> 0 \<le> fr_feeUsdc r \<and> fr_amountUsdc r + realized_fee r + realized_reward r < 10 ^ 20 \<and>
     (\<forall>i. df_referrerId (deferred_of r) = Some i \<and> pays_referrer (deferred_of r) \<longrightarrow> user_known i s \<and> account_code_ok i)"

lemma share_nonneg: "0 \<le> df_systemShare (deferred_of r)" "0 \<le> df_referrerShare (deferred_of r)"
  by (simp_all add: deferred_of_def share_text_def split: option.splits)

lemma settled_exact:
  assumes "decimal_exact rnd" "sound_settlement r s"
  shows "settled_total rnd r = fr_amountUsdc r + realized_fee r + realized_reward r"
    and "0 \<le> realized_fee r" "0 \<le> realized_reward r" "0 < settled_total rnd r" "settled_total rnd r < 10 ^ 20"
    "rnd (fr_amountUsdc r) = fr_amountUsdc r" "rnd (fr_amountUsdc r + realized_fee r) = fr_amountUsdc r + realized_fee r"
    "rnd (settled_total rnd r) = settled_total rnd r"
proof -
  have small: "rnd n = n" if "0 \<le> n" "n < 10 ^ 20" for n using assms(1) that by (simp add: decimal_exact_def)
  have a: "0 < fr_amountUsdc r" "fr_amountUsdc r + realized_fee r + realized_reward r < 10 ^ 20" using assms(2) by (simp_all add: sound_settlement_def)
  show nonneg: "0 \<le> realized_fee r" "0 \<le> realized_reward r"
    using assms(2) share_nonneg [of r] by (auto simp: realized_fee_def realized_reward_def sound_settlement_def Let_def)
  show "settled_total rnd r = fr_amountUsdc r + realized_fee r + realized_reward r"
    using small a nonneg by (simp add: settled_total_def)
  with a nonneg small show "0 < settled_total rnd r" "settled_total rnd r < 10 ^ 20" "rnd (fr_amountUsdc r) = fr_amountUsdc r"
    "rnd (fr_amountUsdc r + realized_fee r) = fr_amountUsdc r + realized_fee r" "rnd (settled_total rnd r) = settled_total rnd r" by simp_all
qed

lemma settle_valid:
  assumes rnd: "decimal_exact rnd" and sound: "sound_settlement r s" and len: "length (settle_key ref) \<le> 140"
  shows "validate_posting rnd (settle_posting rnd ref r) = Inr (settle_lines_norm rnd r, None)"
proof -
  note e = settled_exact [OF rnd sound]
  have amt: "0 < fr_amountUsdc r" using sound by (simp add: sound_settlement_def)
  have zero: "rnd 0 = 0" using rnd by (simp add: decimal_exact_def)
  have hdr: "check_header (settle_posting rnd ref r) = None"
    using len by (simp add: check_header_def settle_posting_def ENTRY_TYPES_def js_trim_def js_space_def settle_key_def)
  have norm: "traverse_sum normalize_line (pp_lines (settle_posting rnd ref r)) = Inr (settle_lines_norm rnd r)"
    using e(2,4) amt
    by (auto simp: settle_posting_def settle_lines_norm_def normalize_line_def usdc_quantity optional_quantity_def [of JNull] pays_referrer_def
        split: option.splits)
  have assets: "check_assets rnd None (settle_lines_norm rnd r) = Inr [''USDC'']"
    using sound
    by (auto simp: settle_lines_norm_def check_assets_def first_occurrences_def sound_settlement_def pays_referrer_def)
  have reward: "realized_reward r = (if pays_referrer (deferred_of r) then df_referrerShare (deferred_of r) else 0)"
    by (simp add: realized_reward_def)
  have bal: "check_balance rnd (settle_lines_norm rnd r) = None"
    using e amt zero reward by (auto simp: check_balance_def settle_lines_norm_def decimal_sum_def Let_def)
  show ?thesis
    by (simp add: validate_posting_def hdr norm check_conversion_def assets bal) (simp add: settle_posting_def)
qed

lemma settle_posting_accepted:
  assumes ready: "ledger_ready rnd ch (settle_key ref) s" and sound: "sound_settlement r s'"
  obtains res t where "post_fiat sha rnd ch (settle_posting rnd ref r) s = (Inr res, t)"
    "t = s\<lparr>fd_books := (fd_books s)\<lparr>ob_ledger := fiat_ledger t\<rparr>\<rparr>"
proof -
  have rnd: "decimal_exact rnd" and len: "length (settle_key ref) \<le> 140" and ch: "undisturbed (fc_ledger ch)"
    and cls: "accounts_classified (fiat_ledger s)" and new: "\<not> booked_key (settle_key ref) (fiat_ledger s)"
    using ready by (simp_all add: ledger_ready_def)
  have codes: "\<And>l. l \<in> set (settle_lines_norm rnd r) \<Longrightarrow> \<exists>x. classifyAccountCode (nl_account l) = Inr x"
    using sound classify_user_liability
    by (auto simp: settle_lines_norm_def fiat_classified sound_settlement_def pays_referrer_def account_code_ok_def split: if_splits)
  have "pp_idempotencyKey (settle_posting rnd ref r) = settle_key ref" by (simp add: settle_posting_def)
  then obtain res L where "post sha rnd (fc_ledger ch) True (settle_posting rnd ref r) (fiat_ledger s) = (Inr res, L)"
    using valid_posting_accepted [OF settle_valid [OF rnd sound len] codes cls ch] new by metis
  then have "post_fiat sha rnd ch (settle_posting rnd ref r) s = (Inr res, s\<lparr>fd_books := (fd_books s)\<lparr>ob_ledger := L\<rparr>\<rparr>)"
    by (simp add: post_fiat_def fiat_ledger_def)
  then show thesis by (rule that) (simp add: fiat_ledger_def)
qed

lemma book_settlement_accepted:
  assumes ready: "ledger_ready rnd ch (settle_key ref) s" and sound: "sound_settlement r s'"
    and "distinct (map ob_reference (obligations (fd_books s)))"
    and "find_by ob_reference (obligation_ref ref) (obligations (fd_books s)) = Some x" "ob_active x"
    and "ob_amount x = settled_total rnd r"
  obtains t where "book_settlement sha rnd ch ref r s = (Inr (), t)"
proof -
  obtain res t where p: "post_fiat sha rnd ch (settle_posting rnd ref r) s = (Inr res, t)"
    and t: "t = s\<lparr>fd_books := (fd_books s)\<lparr>ob_ledger := fiat_ledger t\<rparr>\<rparr>"
    by (rule settle_posting_accepted [OF ready sound])
  have o: "obligations (fd_books t) = obligations (fd_books s)" by (subst t) simp
  then have "claims ob_reference ob_active (obligation_ref ref) (obligations (fd_books t)) = 1"
    using assms(3-5) by (simp add: claims_def count_by_key)
  moreover have "find_by ob_reference (obligation_ref ref) (claim_rows ob_reference ob_active (ob_close Restricted_Obligations.RELEASED tid)
      (obligation_ref ref) (obligations (fd_books t))) = Some (ob_close Restricted_Obligations.RELEASED tid x)" for tid
    using rel.claim_find [of "obligation_ref ref" tid "obligation_ref ref"] assms(4,5) by (simp add: o)
  moreover have "0 < settled_total rnd r" using settled_exact(4) [OF _ sound] ready by (simp add: ledger_ready_def)
  ultimately show thesis
    using p that assms(6)
    by (simp add: book_settlement_def and_then_def with_obligations_def releaseOnSettlement_def usdc_decimal_units ob_close_def Let_def
        del: toExactDecimal.simps)
qed

lemma realize_accepted:
  assumes "sound_settlement r s"
  obtains t where "realize_economics ref r s = (Inr (), t)" "fd_liquidity t = fd_liquidity s"
proof -
  have "\<exists>t. realize_shares ref (deferred_of r) (realized_fee r) (ensureProfitFeesSingleton s) = (Inr (), t) \<and> fd_liquidity t = fd_liquidity s"
  proof (cases "pays_referrer (deferred_of r)")
    case True
    then obtain i where i: "df_referrerId (deferred_of r) = Some i" "0 < df_referrerShare (deferred_of r)" by (auto simp: pays_referrer_def)
    then have "user_known i (ensureProfitFeesSingleton s)"
      using assms True by (simp add: sound_settlement_def user_known_def ensureProfitFeesSingleton_def)
    then obtain v where v: "increment_user i (df_referrerShare (deferred_of r)) (ensureProfitFeesSingleton s) = (Inr (), v)"
      by (metis increment_accepted)
    then have "fd_liquidity v = fd_liquidity s" by (auto simp: increment_user_def ensureProfitFeesSingleton_def split: if_splits)
    then show ?thesis by (simp add: realize_shares_def i v and_then_def log_profit_def add_profit_def)
  next
    case False
    then show ?thesis
      by (auto simp: realize_shares_def pays_referrer_def realize_full_fee_def log_profit_def add_profit_def ensureProfitFeesSingleton_def
          Let_def split: option.splits)
  qed
  with that show thesis by (auto simp: realize_economics_def and_then_def log_profit_def Let_def)
qed

lemma settlement_accepted:
  assumes inv: "fiat_inv rnd s" and r: "read_row ref s = Some r" "is_pending r" "fiat_withdrawal r"
    and rnd: "decimal_exact rnd" and ch: "undisturbed (fc_ledger ch)" and ref: "small_reference ref"
    and sound: "sound_settlement r s" and free: "no_payout_reservation ref s" and eq: "settled_total rnd r = reserved_total rnd r"
  obtains y t where "settle_claimed sha rnd ch ref tid r
      (s\<lparr>fd_history := claim_rows fr_txHash is_pending (complete_row tid) (Some ref) (fd_history s)\<rparr>) = (Inr (True, y), t)"
proof -
  define s1 where "s1 = converge_settlement ch ref r
      (s\<lparr>fd_history := claim_rows fr_txHash is_pending (complete_row tid) (Some ref) (fd_history s)\<rparr>)"
  have s1: "fd_books s1 = fd_books s" "fd_wallet s1 = fd_wallet s" "fd_liquidity s1 = fd_liquidity s"
    by (simp_all add: s1_def converge_settlement_def Let_def)
  have "sound_settlement r s1" using sound by (simp add: sound_settlement_def user_known_def s1)
  then obtain s2 where 2: "realize_economics ref r s1 = (Inr (), s2)" "fd_liquidity s2 = fd_liquidity s1"
    by (rule realize_accepted)
  have ok1: "users_ok s1" using inv by (simp add: fiat_inv_def users_ok_def s1)
  have b2: "fd_books s2 = fd_books s" using realize_cases(2) [OF 2(1) ok1] s1(1) by simp
  obtain x where x: "find_by ob_reference (obligation_ref ref) (obligations (fd_books s)) = Some x" "ob_active x"
    "ob_amount x = reserved_total rnd r" "isDeferredWithdrawal r" "ledger_reserved r"
    by (rule open_obligation [OF inv r])
  have "ledger_ready rnd ch (settle_key ref) s2" using inv_ready(2) [OF inv rnd ch ref r(1,2)] ledger_ready_cong [OF b2] by blast
  moreover have "distinct (map ob_reference (obligations (fd_books s2)))" using inv by (simp add: b2 fiat_inv_def)
  ultimately obtain s3 where 3: "book_settlement sha rnd ch ref r s2 = (Inr (), s3)"
    using book_settlement_accepted [OF _ sound] x(1-3) eq b2 by metis
  have "fd_liquidity s3 = fd_liquidity s2"
    using 3 by (auto simp: book_settlement_def and_then_Inr elim!: post_fiat_cases with_obligations_cases)
  then have "no_payout_reservation ref s3" using free 2(2) by (simp add: no_payout_reservation_def s1)
  with 2 3 x(4,5) have "\<exists>y t. settle_claimed sha rnd ch ref tid r
      (s\<lparr>fd_history := claim_rows fr_txHash is_pending (complete_row tid) (Some ref) (fd_history s)\<rparr>) = (Inr (True, y), t)"
    by (simp add: settle_claimed_def s1_def [symmetric] settle_deferred_def unrecorded and_then_def Let_def)
  with that show thesis by blast
qed

lemma claims_pending:
  assumes "fiat_inv rnd s" and "read_row ref s = Some r" "is_pending r"
  shows "claims fr_txHash is_pending (Some ref) (fd_history s) = 1"
  using assms by (simp add: hash_claims fiat_inv_def read_row_def)

lemma reverse_of_pending:
  assumes "fiat_inv rnd s" and "read_row ref s = Some r" "is_pending r" "fiat_withdrawal r" and "ref \<noteq> []"
  shows "reverseFiatWithdrawal sha rnd prec ch False ref opts id s =
    transaction id (\<lambda>s. reverse_claimed sha rnd prec ch ref opts r None
      (s\<lparr>fd_history := claim_rows fr_txHash is_pending fail_row (Some ref) (fd_history s)\<rparr>)) s"
proof -
  have "isDeferredWithdrawal r" by (rule open_obligation [OF assms(1-4)])
  with assms claims_pending [OF assms(1-3)] show ?thesis
    by (simp add: reverseFiatWithdrawal_def runReversal_def transaction_def fiat_withdrawal_def is_pending_def)
qed

lemma complete_of_pending:
  assumes "fiat_inv rnd s" and "read_row ref s = Some r" "is_pending r" "fiat_withdrawal r" and "ref \<noteq> []"
  shows "completeFiatWithdrawal sha rnd ch ref tid id s =
    transaction id (\<lambda>s. settle_claimed sha rnd ch ref tid r
      (s\<lparr>fd_history := claim_rows fr_txHash is_pending (complete_row tid) (Some ref) (fd_history s)\<rparr>)) s"
  using assms claims_pending [OF assms(1-3)]
  by (simp add: completeFiatWithdrawal_def transaction_def fiat_withdrawal_def Let_def)

lemma settled_history:
  assumes "users_ok s" and "settle_claimed sha rnd ch ref tid r s = (Inr y, t)"
  shows "fd_history t = fd_history s" and "isDeferredWithdrawal r \<Longrightarrow> available i t = available i s + reward_of r i"
proof -
  let ?s1 = "converge_settlement ch ref r s"
  have s1: "fd_history ?s1 = fd_history s" "users_ok ?s1" "available i ?s1 = available i s"
    using assms(1) by (simp_all add: converge_settlement_def users_ok_def available_def Let_def)
  obtain s3 where 3: "settle_deferred sha rnd ch ref r ?s1 = (Inr (), s3)" and t: "same_accounts s3 t"
    using assms(2) by (auto simp: settle_claimed_def and_then_Inr Let_def dest!: with_liquidity_same)
  have "fd_history s3 = fd_history ?s1"
    using 3 realize_cases(1) [OF _ s1(2)]
    by (auto simp: settle_deferred_def book_settlement_def and_then_Inr split: if_splits elim!: post_fiat_cases with_obligations_cases)
  with s1(1) t show "fd_history t = fd_history s" by (simp add: same_accounts_def)
  show "available i t = available i s + reward_of r i" if d: "isDeferredWithdrawal r"
  proof -
    obtain s2 where 2: "realize_economics ref r ?s1 = (Inr (), s2)" and w: "fd_wallet s3 = fd_wallet s2"
      using 3 d by (auto simp: settle_deferred_def book_settlement_def and_then_Inr split: if_splits elim!: post_fiat_cases with_obligations_cases)
    show ?thesis
      using realize_cases(4) [OF 2 s1(2), of i] s1(3) t same_cash_available(1) [of s3 t i] by (simp add: same_accounts_def available_def w)
  qed
qed

section \<open>The shares of the fee\<close>

lemma read_fixed_fixed8: "0 \<le> n \<Longrightarrow> read_fixed (fixed8 n) = n"
proof -
  assume "0 \<le> n"
  have "take 1 (toFixed8 k) \<noteq> ''-''" for k
  proof
    assume "take 1 (toFixed8 k) = ''-''"
    then have "CHR ''-'' \<in> set (toFixed8 k)" by (metis in_set_takeD list.set_intros(1))
    then show False by (auto simp: is_digit_def dest!: toFixed8_chars)
  qed
  with \<open>0 \<le> n\<close> show ?thesis by (simp add: read_fixed_def fixed8_def toFixed8_literal)
qed

lemma half_exact:
  assumes "prec (units_rat e / 2) = units_rat e / 2" and "0 \<le> e"
  shows "half_of_fee prec e = (e + 1) div 2"
proof -
  have "units_rat e / 2 * 10 ^ 8 + 1 / 2 = of_int (e + 1) / (of_int 2 :: rat)" by (simp add: units_rat_def field_simps)
  then have "\<lfloor>units_rat e / 2 * 10 ^ 8 + 1 / 2\<rfloor> = (e + 1) div 2" by (simp only: floor_divide_of_int_eq)
  moreover have "\<not> units_rat e / 2 < 0" using assms(2) by (simp add: units_rat_def)
  ultimately show ?thesis by (simp add: half_of_fee_def assms(1) round_dp_def)
qed

text \<open>What the metadata of a reservation tells its settlement.\<close>

lemma reserved_shares:
  assumes r: "r = withdrawal_history ch i ref q (reserve_meta referrer q d)" and "0 \<le> wq_exitFee q" "0 \<le> wq_halfFee q"
  shows "referrer = None \<Longrightarrow> realized_fee r + realized_reward r = wq_exitFee q"
    and "referrer = Some u \<Longrightarrow> 0 < au_id u \<Longrightarrow> 0 < wq_halfFee q \<Longrightarrow> realized_fee r + realized_reward r = 2 * wq_halfFee q"
proof -
  have "read_fixed ''0'' = 0" by (simp add: read_fixed_def literal_units_def is_digit_def read_nat_def digit_val_def Let_def)
  then show "referrer = None \<Longrightarrow> realized_fee r + realized_reward r = wq_exitFee q"
    using assms(2) by (auto simp: r realized_fee_def realized_reward_def pays_referrer_def deferred_of_def withdrawal_history_def
        reserve_meta_def share_text_def read_fixed_fixed8 Let_def)
  show "referrer = Some u \<Longrightarrow> 0 < au_id u \<Longrightarrow> 0 < wq_halfFee q \<Longrightarrow> realized_fee r + realized_reward r = 2 * wq_halfFee q"
    by (auto simp: r realized_fee_def realized_reward_def pays_referrer_def deferred_of_def withdrawal_history_def
        reserve_meta_def share_text_def read_fixed_fixed8 Let_def)
qed

lemma process_cases:
  assumes "processFiatWithdrawal sha rnd prec parse ch i amt opts id s = (Inr (q, r), t)"
  obtains on n pct where "q = price_withdrawal rnd prec (int n) pct (discount_multiplier (wo_feeDiscountMultiplier opts))
        (resolveFiatRetailRate (fd_settings s) (wo_retailRate opts))"
    "on = (case fd_settings s of None \<Rightarrow> False | Some g \<Rightarrow> gs_fiatLiquidityAuthorityEnabled g)"
    "reserve_tx sha rnd parse ch on i (reference_of opts i (fc_now ch)) opts (resolveReferrer i s) q s = (Inr r, t)"
    "runDoubleCheck i s = Inr True"
  using assms
  by (auto simp: processFiatWithdrawal_def Let_def and_then_Inr runDoubleCheck_def split: sum.splits option.splits if_splits)

lemma fiat_reserved_row:
  assumes inv: "fiat_inv rnd s" and run: "reserve_tx sha rnd parse ch on i ref opts referrer q s = (Inr r, t)" and pl: "plain_reference ref"
  obtains d where "r = withdrawal_history ch i ref q (reserve_meta referrer q d)" "read_row ref t = Some r"
    "fd_history t = fd_history s @ [r]" "\<And>j. available j t = available j s - (if j = i then wq_totalDeduct q else 0)"
    "\<And>code. account_net code (fiat_ledger t) = account_net code (fiat_ledger s) +
      (if code = user_liability_code i then wq_totalDeduct q else 0) - (if code = ''restricted:reserves'' then wq_totalDeduct q else 0)"
proof -
  have ok: "users_ok s" and keys: "withdrawal_keys s" using inv by (simp_all add: fiat_inv_def)
  have "Some ref \<notin> fr_txHash ` set (fd_history s)"
    using run by (auto simp: reserve_tx_def and_then_Inr Let_def create_history_def withdrawal_history_def split: if_splits
        dest!: reserve_funds_cases(1) [OF _ ok])
  then have fresh: "obligation_ref ref \<notin> ob_reference ` set (obligations (fd_books s))"
    and unbooked: "\<not> booked_key (reserve_key ref) (fiat_ledger s)"
    using keys pl by (auto simp: withdrawal_keys_def withdrawal_refs_def)
  obtain d L res where r: "r = withdrawal_history ch i ref q (reserve_meta referrer q d)"
    and h: "fd_history t = fd_history s @ [r]" and new: "Some ref \<notin> fr_txHash ` set (fd_history s)"
    and av: "\<And>j. available j t = available j s - (if j = i then wq_totalDeduct q else 0)"
    and p: "post sha rnd (fc_ledger ch) True (reserve_posting i ref (fr_id r) (wq_totalDeduct q)) (fiat_ledger s) = (Inr res, L)"
    and pos: "0 < wq_totalDeduct q" and b: "ob_ledger (fd_books t) = L"
    by (rule reserve_tx_cases [OF run ok fresh]) simp
  have "fr_txHash r = Some ref" by (simp add: r withdrawal_history_def)
  then have "read_row ref t = Some r" using new by (simp add: read_row_def h find_by_None [symmetric])
  moreover have "account_net code (fiat_ledger t) = account_net code (fiat_ledger s) +
      (if code = user_liability_code i then wq_totalDeduct q else 0) - (if code = ''restricted:reserves'' then wq_totalDeduct q else 0)" for code
    using posted_net [OF p] unbooked pos b by (auto simp: reserve_posting_def line_moves_def fiat_ledger_def)
  ultimately show thesis using that r h av by blast
qed

lemma fiat_settled_row:
  assumes run: "completeFiatWithdrawal sha rnd ch ref tid env s = (Inr (True, y), t)"
    and inv: "fiat_inv rnd (env s)" and ev: "fiat_evolves s (env s)"
  obtains r where "read_row ref (env s) = Some r" "fiat_withdrawal r" "settled_total rnd r = reserved_total rnd r"
proof -
  obtain r0 where r0: "read_row ref s = Some r0" "fiat_withdrawal r0"
    and c: "claims fr_txHash is_pending (Some ref) (fd_history (env s)) = 1"
    and st: "settle_claimed sha rnd ch ref tid r0
        ((env s)\<lparr>fd_history := claim_rows fr_txHash is_pending (complete_row tid) (Some ref) (fd_history (env s))\<rparr>) = (Inr (True, y), t)"
    using run by (auto simp: completeFiatWithdrawal_def Let_def read_row_kind split: if_splits option.splits)
  have d: "hashes_distinct (fd_history (env s))" using inv by (simp add: fiat_inv_def)
  from c have c: "claims fr_txHash is_pending (Some ref) (fd_history (env s)) \<noteq> 0" by simp
  obtain r1 where r1: "read_row ref (env s) = Some r1" "is_pending r1" "fiat_withdrawal r1" "r0 = r1\<lparr>fr_providerRef := fr_providerRef r0\<rparr>"
    by (rule claimed_row [OF ev r0 d c])
  have "settle_claimed sha rnd ch ref tid r0 = settle_claimed sha rnd ch ref tid r1" using provider_ref_irrelevant(1) r1(4) by metis
  then have "settled_total rnd r1 = reserved_total rnd r1" using settle_claimed_keeps(2) [OF inv r1(1-3)] st by metis
  with that r1 show thesis by blast
qed

section \<open>A refund undoes a reservation\<close>

definition counters :: "fiat_db \<Rightarrow> int option \<times> int option \<times> liquidity" where
  "counters s = (fd_fiatPool s, fd_masterCrypto s, fd_liquidity s)"

lemma counters_kept:
  "post_fiat sha rnd ch p s = (Inr x, t) \<Longrightarrow> counters t = counters s"
  "with_obligations f s = (Inr y, t) \<Longrightarrow> counters t = counters s"
  "with_operations g s = (r, t) \<Longrightarrow> counters t = counters s"
  "increment_user i n s = (r', t) \<Longrightarrow> counters t = counters s"
  "debitUserBalance i n s = (r', t) \<Longrightarrow> counters t = counters s"
  "create_history row s = (r', t) \<Longrightarrow> counters t = counters s"
  "create_withdrawal_record ch rec row s = (r', t) \<Longrightarrow> counters t = counters s"
  "restore_discount now ref row s = (r'', t) \<Longrightarrow> counters t = counters s"
  "reserve_discount ch i ref opts s = (Inr z, t) \<Longrightarrow> counters t = counters s"
  by (auto simp: counters_def post_fiat_def with_obligations_def with_operations_def increment_user_def debitUserBalance_def create_history_def
      create_withdrawal_record_def restore_discount_def reserve_discount_def with_wallet_def and_then_Inr Let_def
      split: prod.splits if_splits option.splits)

lemma reserve_counters:
  assumes "reserve_tx sha rnd parse ch False i ref opts referrer q s = (Inr r, t)"
  obtains b where "fd_fiatPool s = Some b"
    "counters t = (Some (b - wq_amount q), Some (ensured (fd_masterCrypto s) + wq_amount q), fd_liquidity s)"
proof -
  obtain d s1 s2 s3 s5 where 1: "reserve_funds ch False i ref opts q s = (Inr d, s1)"
    and 2: "create_history r s1 = (Inr (), s2)" and 3: "create_withdrawal_record ch (wo_record opts) r s2 = (Inr (), s3)"
    and 5: "book_reservation sha rnd ch i ref q r s3 = (Inr (), s5)"
    and 6: "with_operations (commitOperation (wo_operation opts) 202 (Some (wo_response opts))) s5 = (Inr (), t)"
    using assms by (auto simp: reserve_tx_def and_then_Inr reserve_payout_def Let_def)
  obtain b u v where b: "fd_fiatPool s = Some b" and u: "debitUserBalance i (wq_totalDeduct q) (s\<lparr>fd_fiatPool := Some (b - wq_amount q)\<rparr>) = (Inr (), u)"
    and v: "reserve_discount ch i ref opts u = (Inr d, v)"
    and s1: "s1 = add_master (wq_amount q) (ensureMasterCryptoSingleton (ensureProfitFeesSingleton v))"
    using 1 by (auto simp: reserve_funds_def and_then_Inr reserve_pool_def reserveFiatPool_def split: option.splits if_splits)
  have "counters s5 = counters s3" using 5 counters_kept(1,2) by (fastforce simp: book_reservation_def and_then_Inr)
  then have "counters t = counters s1" using counters_kept(3) [OF 6] counters_kept(6) [OF 2] counters_kept(7) [OF 3] by simp
  moreover have "counters v = (Some (b - wq_amount q), fd_masterCrypto s, fd_liquidity s)"
    using counters_kept(5) [OF u] counters_kept(9) [OF v] by (simp add: counters_def)
  ultimately have "counters t = (Some (b - wq_amount q), Some (ensured (fd_masterCrypto s) + wq_amount q), fd_liquidity s)"
    by (simp add: counters_def s1 add_master_def ensureMasterCryptoSingleton_def ensureProfitFeesSingleton_def)
  with b that show thesis by blast
qed

lemma reverse_counters:
  assumes run: "reverse_claimed sha rnd prec ch ref opts r referrer s = (Inr y, t)" and "isDeferredWithdrawal r" "no_payout_reservation ref s"
  shows "fd_fiatPool t = Some (ensured (fd_fiatPool s) + fr_amountUsdc r)"
    and "fd_masterCrypto t = Some (ensured (fd_masterCrypto s) - fr_amountUsdc r)"
proof -
  define s2 where "s2 = ensureMasterCryptoSingleton (ensureFiatPoolSingleton (ensureProfitFeesSingleton
      (s\<lparr>fd_routes := snd (convergeRunOnFiatReversal (fc_tz ch) (fc_now ch) ref (ro_reason opts) (ro_runFailureStatus opts) id (fd_routes s))\<rparr>)))"
  have c2: "counters s2 = (Some (ensured (fd_fiatPool s)), Some (ensured (fd_masterCrypto s)), fd_liquidity s)"
    by (simp add: counters_def s2_def ensureMasterCryptoSingleton_def ensureFiatPoolSingleton_def ensureProfitFeesSingleton_def)
  obtain n s3 s4 s6 a where 3: "increment_user (fr_userId r) n s2 = (Inr (), s3)"
    and 4: "refund_books sha rnd ch ref r n s3 = (Inr (), s4)"
    and 6: "release_liquidity ch ref opts (fr_amountUsdc r) (add_master (- fr_amountUsdc r) s4) = (Inr (), s6)"
    and 7: "restore_discount (fc_now ch) ref r s6 = (Inr a, t)"
    using run assms(2) by (auto simp: reverse_claimed_def s2_def [symmetric] and_then_Inr Let_def unwind_fees_def)
  have "counters s4 = counters s3" using 4 counters_kept(1,2) by (fastforce simp: refund_books_def book_reversal_def and_then_Inr split: if_splits)
  then have c4: "counters s4 = counters s2" using counters_kept(4) [OF 3] by simp
  then have "no_payout_reservation ref (add_master (- fr_amountUsdc r) s4)"
    using assms(3) c2 by (simp add: no_payout_reservation_def add_master_def counters_def)
  from unrecorded [OF this] 6 have "s6 = add_pool (fr_amountUsdc r) (ensureFiatPoolSingleton
      ((add_master (- fr_amountUsdc r) s4)\<lparr>fd_liquidity := (fd_liquidity (add_master (- fr_amountUsdc r) s4))\<lparr>pool := None\<rparr>\<rparr>))"
    by (simp add: release_liquidity_def and_then_def split: if_splits)
  then show "fd_fiatPool t = Some (ensured (fd_fiatPool s) + fr_amountUsdc r)"
    "fd_masterCrypto t = Some (ensured (fd_masterCrypto s) - fr_amountUsdc r)"
    using counters_kept(8) [OF 7] c4 c2 by (simp_all add: counters_def add_pool_def ensureFiatPoolSingleton_def add_master_def ensured_def)
qed

definition user_ids :: "fiat_db \<Rightarrow> nat list" where
  "user_ids s = map au_id (wd_users (fd_wallet s))"

lemma user_known_ids: "user_known i s \<longleftrightarrow> i \<in> set (user_ids s)"
  by (simp add: user_known_def user_ids_def find_by_None)

lemma same_accounts_ids: "same_accounts s t \<Longrightarrow> user_ids t = user_ids s"
proof -
  assume "same_accounts s t"
  then have "map fst (map cash (wd_users (fd_wallet t))) = map fst (map cash (wd_users (fd_wallet s)))"
    by (simp only: same_accounts_def same_cash_def)
  moreover have "map fst (map cash us) = map au_id us" for us by (simp add: cash_def)
  ultimately show ?thesis by (simp only: user_ids_def)
qed

lemma reserve_ids:
  assumes "reserve_tx sha rnd parse ch on i ref opts referrer q s = (Inr r, t)"
  shows "user_ids t = user_ids s" and "user_known i s"
proof -
  obtain d s1 s2 s3 s4 s5 where 1: "reserve_funds ch on i ref opts q s = (Inr d, s1)"
    and 2: "create_history r s1 = (Inr (), s2)" and 3: "create_withdrawal_record ch (wo_record opts) r s2 = (Inr (), s3)"
    and 4: "reserve_payout parse ch on opts ref q r s3 = (Inr (), s4)"
    and 5: "book_reservation sha rnd ch i ref q r s4 = (Inr (), s5)"
    and 6: "with_operations (commitOperation (wo_operation opts) 202 (Some (wo_response opts))) s5 = (Inr (), t)"
    using assms by (auto simp: reserve_tx_def and_then_Inr Let_def)
  obtain p u v where p: "reserve_pool on (wq_amount q) s = (Inr (), p)" and u: "debitUserBalance i (wq_totalDeduct q) p = (Inr (), u)"
    and v: "reserve_discount ch i ref opts u = (Inr d, v)" and known: "find_by au_id i (wd_users (fd_wallet s)) \<noteq> None"
    and s1: "s1 = add_master (wq_amount q) (ensureMasterCryptoSingleton (ensureProfitFeesSingleton v))"
    using 1 by (auto simp: reserve_funds_def and_then_Inr split: option.splits if_splits)
  show "user_known i s" using known by (simp add: user_known_def)
  have sp: "user_ids p = user_ids s"
    using p reserve_pool_same same_accounts_ids by (auto simp: reserve_pool_def split: if_splits)
  have "user_ids u = user_ids p"
    using u by (auto simp: debitUserBalance_def user_ids_def update_by_def add_available_def Let_def split: if_splits)
  moreover have "user_ids s1 = user_ids u"
    using same_accounts_ids [OF reserve_discount_same [OF v]] by (simp add: s1 user_ids_def add_master_def ensureMasterCryptoSingleton_def ensureProfitFeesSingleton_def)
  moreover have "user_ids s2 = user_ids s1" using 2 by (auto simp: create_history_def user_ids_def split: if_splits)
  moreover have "user_ids s3 = user_ids s2" using same_accounts_ids [OF create_record_same [OF 3]] .
  moreover have "user_ids s4 = user_ids s3"
    using 4 with_liquidity_same same_accounts_ids by (fastforce simp: reserve_payout_def and_then_Inr split: if_splits)
  moreover have "user_ids s5 = user_ids s4"
    using 5 by (auto simp: book_reservation_def and_then_Inr user_ids_def elim!: post_fiat_cases with_obligations_cases)
  moreover have "user_ids t = user_ids s5" using same_accounts_ids [OF with_operations_same [OF 6]] .
  ultimately show "user_ids t = user_ids s" using sp by simp
qed

lemma refund_net:
  assumes inv: "fiat_inv rnd s" and r: "read_row ref s = Some r" "is_pending r" "fiat_withdrawal r"
    and L: "post sha rnd ch True (reverse_posting ref r n) (fiat_ledger s) = (Inr res, L)"
  shows "account_net code L = account_net code (fiat_ledger s) + (if code = ''restricted:reserves'' then n else 0)
    - (if code = user_liability_code (fr_userId r) then n else 0)"
proof -
  have "\<not> booked_key (reverse_key ref) (fiat_ledger s)"
    using inv r(1,2) by (auto simp: fiat_inv_def withdrawal_keys_def row_in_status_def is_pending_def)
  then show ?thesis
    using posted_net [OF L, of code] reverse_lines(3) [OF L] by (auto simp: reverse_posting_def line_moves_def)
qed

lemma reserve_call_accepted:
  assumes inv: "fiat_inv rnd s" and rnd: "decimal_exact rnd" and ch: "undisturbed (fc_ledger ch)" "fc_record_ok ch"
    and amt: "toExactDecimal amt = Inr n" and audit: "runDoubleCheck i s = Inr True"
    and off: "\<not> (case fd_settings s of None \<Rightarrow> False | Some g \<Rightarrow> gs_fiatLiquidityAuthorityEnabled g)"
    and u: "find_by au_id i (wd_users (fd_wallet s)) = Some u" "account_code_ok i" "wq_totalDeduct q \<le> au_availableBalance u"
    and q: "effectiveExitFeePct (fd_settings s) (au_withdrawalRiskTier u) = Some pct"
      "q = price_withdrawal rnd prec (int n) pct (discount_multiplier (wo_feeDiscountMultiplier opts))
             (resolveFiatRetailRate (fd_settings s) (wo_retailRate opts))"
      "0 < wq_retailRate q" "0 < wq_payoutGhs q" "0 < wq_totalDeduct q" "wq_totalDeduct q < 10 ^ 20"
    and ref: "ref = reference_of opts i (fc_now ch)" "small_reference ref" "Some ref \<notin> fr_txHash ` set (fd_history s)"
    and pool: "fd_fiatPool s = Some b" "wq_amount q \<le> b"
    and opts: "wo_feeDiscountTier opts = None" "wo_operation opts = None"
  obtains t where "processFiatWithdrawal sha rnd prec parse ch i amt opts id s =
      (Inr (q, withdrawal_history ch i ref q (reserve_meta (resolveReferrer i s) q None)), t)"
proof -
  let ?r = "withdrawal_history ch i ref q (reserve_meta (resolveReferrer i s) q None)"
  obtain t where run: "reserve_tx sha rnd parse ch False i ref opts (resolveReferrer i s) q s = (Inr ?r, t)"
    by (rule reserve_accepted [OF inv rnd ch ref(2,3) u q(5,6) pool opts])
  have "processFiatWithdrawal sha rnd prec parse ch i amt opts id s = (Inr (q, ?r), t)"
    unfolding processFiatWithdrawal_def amt audit sum.case Let_def option.case u(1) q(1) q(2) [symmetric] ref(1) [symmetric]
    using run off q(3,4) pool by (simp add: transaction_def and_then_def)
  with that show thesis by blast
qed

end
