(* ===== verification/Balance_Audit.thy ===== *)
theory Balance_Audit
  imports Fiat_Progress
begin

text \<open>
  The balance audit against the withdrawals. It recomputes a balance from the completed rows only, so
  any change of the balance without a completed row makes it fail.
\<close>

lemma double_close:
  assumes "\<bar>x\<bar> \<le> 1000000000"
  shows "\<bar>js_double x - x\<bar> \<le> 3 / 10000000"
proof -
  have "\<bar>x\<bar> / 2 ^ 52 \<le> 1000000000 / 2 ^ 52" using assms by (intro divide_right_mono) simp_all
  moreover have "(1000000000::rat) / 2 ^ 52 + 1 / 2 ^ 252 \<le> 3 / 10000000" by (simp add: field_simps)
  ultimately show ?thesis using js_double_error [of x] by linarith
qed

lemma tolerance_bounds: "TOLERANCE \<le> 11 / 10000000" "0 < TOLERANCE"
proof -
  have "\<bar>js_double (1 / 1000000) - 1 / 1000000\<bar> \<le> \<bar>1 / 1000000\<bar> / 2 ^ 52 + 1 / 2 ^ 252" by (rule js_double_error)
  also have "\<dots> \<le> 1 / 10000000" by (simp add: field_simps)
  finally show "TOLERANCE \<le> 11 / 10000000" "0 < TOLERANCE" by (simp_all add: TOLERANCE_def abs_if split: if_splits)
qed

lemma small_double:
  assumes "\<bar>js_double x\<bar> \<le> 11 / 10000000"
  shows "\<bar>x\<bar> \<le> 12 / 10000000"
proof -
  have "\<bar>js_double x - x\<bar> \<le> \<bar>x\<bar> / 1000 + 1 / 1000000000"
  proof -
    have "\<bar>x\<bar> / 2 ^ 52 \<le> \<bar>x\<bar> / 1000" by (intro divide_left_mono) simp_all
    moreover have "(1::rat) / 2 ^ 252 \<le> 1 / 1000000000" by simp
    ultimately show ?thesis using js_double_error [of x] by linarith
  qed
  then show ?thesis using assms by linarith
qed

text \<open>When the audit passed and the balance then moved by at least \<open>10\<^sup>-\<^sup>5\<close> without a completed row,
  it fails.\<close>

lemma audit_shift:
  assumes ok: "runDoubleCheck i s = Inr b" and rows: "settled_rows i t = settled_rows i s"
    and u: "find_by au_id i (wd_users (fd_wallet s)) = Some u" "find_by au_id i (wd_users (fd_wallet t)) = Some v"
    and bounds: "\<bar>au_availableBalance u\<bar> \<le> 100000000000000000" "\<bar>au_availableBalance v\<bar> \<le> 100000000000000000"
    and moved: "1000 \<le> \<bar>au_availableBalance v - au_availableBalance u\<bar>"
  shows "runDoubleCheck i t = Inl AuditFailed"
proof -
  let ?C = "foldl audit_step 0 (settled_rows i s)"
  let ?S = "units_rat (au_availableBalance u)" and ?T = "units_rat (au_availableBalance v)"
  have "\<bar>js_double (?C - js_double ?S)\<bar> \<le> TOLERANCE" using ok u(1) by (auto simp: runDoubleCheck_def Let_def split: if_splits)
  then have c: "\<bar>?C - js_double ?S\<bar> \<le> 12 / 10000000" using tolerance_bounds(1) by (intro small_double) linarith
  have units: "\<bar>units_rat n\<bar> \<le> 1000000000" if "\<bar>n\<bar> \<le> 100000000000000000" for n
  proof -
    have "\<bar>of_int n :: rat\<bar> \<le> 100000000000000000" using that by (metis of_int_abs of_int_le_iff of_int_numeral)
    then show ?thesis by (simp add: units_rat_def field_simps)
  qed
  have s: "\<bar>js_double ?S - ?S\<bar> \<le> 3 / 10000000" "\<bar>js_double ?T - ?T\<bar> \<le> 3 / 10000000"
    using double_close units bounds by blast+
  have "\<bar>of_int (au_availableBalance v - au_availableBalance u) :: rat\<bar> \<ge> 1000"
    using moved by (metis of_int_abs of_int_le_iff of_int_numeral)
  then have "1 / 100000 \<le> \<bar>?T - ?S\<bar>" by (simp add: units_rat_def diff_divide_distrib [symmetric] field_simps)
  then have "\<not> \<bar>?C - js_double ?T\<bar> \<le> 12 / 10000000" using c s by (simp add: abs_le_iff abs_if split: if_splits)
  then have "\<not> \<bar>js_double (?C - js_double ?T)\<bar> \<le> 11 / 10000000" using small_double by blast
  then have "TOLERANCE < \<bar>js_double (?C - js_double ?T)\<bar>" using tolerance_bounds(1) by linarith
  then show ?thesis using u(2) by (simp add: runDoubleCheck_def Let_def rows)
qed

lemma available_find:
  assumes "users_ok s" and "find_by au_id i (wd_users (fd_wallet s)) = Some u"
  shows "available i s = au_availableBalance u"
proof -
  have "sum_rows (\<lambda>u. if au_id u = i then au_availableBalance u else 0) us = (case find_by au_id i us of None \<Rightarrow> 0 | Some u \<Rightarrow> au_availableBalance u)"
    if "distinct (map au_id us)" for us
    using that
  proof (induction us)
    case (Cons a us)
    then have "find_by au_id (au_id a) us = None" by (simp add: find_by_None)
    with Cons show ?case by (cases "au_id a = i") auto
  qed simp
  from this [of "wd_users (fd_wallet s)"] assms show ?thesis by (simp add: available_def users_ok_def)
qed

lemma audit_user: "runDoubleCheck i s = Inr b \<Longrightarrow> user_known i s"
  by (auto simp: runDoubleCheck_def user_known_def split: option.splits)

text \<open>The same over the quantities of the books.\<close>

lemma audit_fails_after_move:
  assumes "users_ok s" "users_ok t" and "runDoubleCheck i s = Inr b" and "user_known i t" and "settled_rows i t = settled_rows i s"
    and "available i s \<le> 100000000000000000" "available i t \<le> 100000000000000000" and "1000 \<le> \<bar>available i t - available i s\<bar>"
  shows "runDoubleCheck i t = Inl AuditFailed"
proof -
  obtain u v where u: "find_by au_id i (wd_users (fd_wallet s)) = Some u" and v: "find_by au_id i (wd_users (fd_wallet t)) = Some v"
    using audit_user [OF assms(3)] assms(4) by (auto simp: user_known_def)
  have "0 \<le> au_availableBalance u" "0 \<le> au_availableBalance v"
    using assms(1,2) find_by_Some [OF u] find_by_Some [OF v] by (auto simp: users_ok_def)
  then show ?thesis
    using audit_shift [OF assms(3,5) u v] assms(6-8) available_find [OF assms(1) u] available_find [OF assms(2) v] by simp
qed

lemma counters_ids [simp]:
  "user_ids (log_profit n a b s) = user_ids s" "user_ids (add_profit n s) = user_ids s" "user_ids (ensureProfitFeesSingleton s) = user_ids s"
  "user_ids (realize_full_fee a n s) = user_ids s"
  by (simp_all add: user_ids_def log_profit_def add_profit_def ensureProfitFeesSingleton_def realize_full_fee_def Let_def)

lemma settled_ids:
  assumes "settle_claimed sha rnd ch ref tid r s = (Inr y, t)"
  shows "user_ids t = user_ids s"
proof -
  let ?s1 = "converge_settlement ch ref r s"
  obtain s3 where 3: "settle_deferred sha rnd ch ref r ?s1 = (Inr (), s3)" and t: "same_accounts s3 t"
    using assms by (auto simp: settle_claimed_def and_then_Inr Let_def dest!: with_liquidity_same)
  have inc: "increment_user i n a = (Inr (), b) \<Longrightarrow> user_ids b = user_ids a" for i n a b
    by (auto simp: increment_user_def user_ids_def update_by_def add_available_def split: if_splits)
  have "realize_economics ref r a = (Inr (), b) \<Longrightarrow> user_ids b = user_ids a" for a b
    using inc by (auto simp: realize_economics_def realize_shares_def and_then_Inr Let_def split: option.splits if_splits)
  moreover have "book_settlement sha rnd ch ref r a = (Inr (), b) \<Longrightarrow> user_ids b = user_ids a" for a b
    by (auto simp: book_settlement_def and_then_Inr user_ids_def elim!: post_fiat_cases with_obligations_cases)
  ultimately have "user_ids s3 = user_ids ?s1" using 3 by (auto simp: settle_deferred_def and_then_Inr split: if_splits)
  then show ?thesis using same_accounts_ids [OF t] by (simp add: user_ids_def converge_settlement_def Let_def)
qed

lemma settled_rows_other:
  assumes "hashes_distinct rows" and "find_by fr_txHash (Some h) rows = Some r" and "fr_userId r \<noteq> j"
  shows "filter (\<lambda>r. fr_userId r = j \<and> P r) (claim_rows fr_txHash is_pending (complete_row tid) (Some h) rows) = filter (\<lambda>r. fr_userId r = j \<and> P r) rows"
proof -
  have "fr_userId x \<noteq> j" if "x \<in> set rows" "fr_txHash x = Some h" for x
    using hash_unique [OF assms(1,2) that(1)] that(2) assms(3) by auto
  then show ?thesis
    by (induction rows) (auto simp: claim_rows_def complete_row_def)
qed

lemma audit_same:
  assumes "users_ok s" "users_ok t" and "user_known i s" "user_known i t" and "settled_rows i t = settled_rows i s" "available i t = available i s"
  shows "runDoubleCheck i t = runDoubleCheck i s"
proof -
  obtain u v where "find_by au_id i (wd_users (fd_wallet s)) = Some u" "find_by au_id i (wd_users (fd_wallet t)) = Some v"
    using assms(3,4) by (auto simp: user_known_def)
  with assms available_find show ?thesis by (simp add: runDoubleCheck_def)
qed

end
