(* ===== verification/Fiat_Guarantees.thy ===== *)
theory Fiat_Guarantees
  imports Balance_Audit
begin

text \<open>
  What the fiat withdrawals guarantee, over the interleaved histories of their calls, in which other
  services may move every balance and account and write every row that is not a fiat withdrawal: the
  journals of the service keep exactly the open withdrawals in the reserves, a closed withdrawal stays closed, a funded one is reserved, an
  open one can be refunded and the refund undoes the reservation. And where they fail: a settlement is
  refused when the shares of the fee do not add up, and the balance audit refuses customers whose
  books are in order. Each property is followed by its instance on a sample with a referred customer.
\<close>

section \<open>A sample\<close>

definition fiat_sample_user :: "nat \<Rightarrow> string option \<Rightarrow> string option \<Rightarrow> account_user" where
  "fiat_sample_user i ref code = \<lparr>au_id = i, au_username = ''ama'', au_availableBalance = 20000000000, au_azmBalance = 0,
     au_referredByCode = ref, au_influencerCode = code, au_withdrawalRiskTier = None\<rparr>"

definition fiat_sample_funding :: "nat \<Rightarrow> string \<Rightarrow> fiat_row" where
  "fiat_sample_funding i h = \<lparr>fr_id = h, fr_userId = i, fr_type = ''DEPOSIT_CRYPTO'', fr_amountUsdc = 20000000000, fr_feeUsdc = 0,
     fr_txHash = Some h, fr_status = COMPLETED, fr_providerRef = None, fr_meta = None\<rparr>"

text \<open>Customer 7 was referred by customer 9; both hold 200 USDC.\<close>

definition fiat_sample :: fiat_db where
  "fiat_sample =
     \<lparr>fd_wallet = \<lparr>wd_users = [fiat_sample_user 7 (Some ''R9'') None, fiat_sample_user 9 None (Some ''R9'')], wd_spends = []\<rparr>,
      fd_history = [fiat_sample_funding 7 ''d7'', fiat_sample_funding 9 ''d9''], fd_withdrawals = [],
      fd_settings = None, fd_profitFees = None, fd_fiatPool = Some 100000000000, fd_masterCrypto = None, fd_hotWallet = None,
      fd_profitLog = [], fd_auditLog = [], fd_operations = [], fd_books = \<lparr>obligations = [], ob_ledger = empty_ledger\<rparr>,
      fd_liquidity = \<lparr>events = [], receipts = [], reservations = [], fl_state = None, pool = None, exceptions = [], deposits = [], quotes = []\<rparr>,
      fd_routes = \<lparr>runs = [], routes = []\<rparr>\<rparr>"

definition fiat_sample_choice :: "string \<Rightarrow> fiat_choice" where
  "fiat_sample_choice h = \<lparr>fc_historyId = h, fc_withdrawalId = 1, fc_spendId = ''a1'',
     fc_ledger = \<lparr>fresh_id = h, contended = [], conversion_raced = False, key_raced = False\<rparr>, fc_now = 1000, fc_tz = 0,
     fc_evidence_ok = True, fc_record_ok = True, fc_audit_ok = True\<rparr>"

definition fiat_sample_opts :: withdrawal_opts where
  "fiat_sample_opts = \<lparr>wo_reference = Some ''W1'', wo_retailRate = Some 15, wo_feeDiscountMultiplier = None, wo_feeDiscountTier = None,
     wo_provider = None, wo_rail = None, wo_destination = None, wo_record = None, wo_operation = None, wo_response = []\<rparr>"

definition fiat_sample_quote :: "int \<Rightarrow> withdrawal_quote" where
  "fiat_sample_quote n = price_withdrawal id id n (2 / 100) 0 15"

lemma fiat_sample_prices:
  "fiat_sample_quote 10000000000 = \<lparr>wq_amount = 10000000000, wq_exitFee = 200000000, wq_halfFee = 100000000,
     wq_totalDeduct = 10200000000, wq_retailRate = 15, wq_payoutGhs = 150000\<rparr>"
  "fiat_sample_quote 10000000050 = \<lparr>wq_amount = 10000000050, wq_exitFee = 200000001, wq_halfFee = 100000001,
     wq_totalDeduct = 10200000051, wq_retailRate = 15, wq_payoutGhs = 150000\<rparr>"
proof -
  have f: "\<lfloor>400000001 / 2 :: rat\<rfloor> = 200000000" "\<lfloor>400000003 / 2 :: rat\<rfloor> = 200000001" "\<lfloor>200000001 / 2 :: rat\<rfloor> = 100000000"
    "\<lfloor>200000002 / 2 :: rat\<rfloor> = 100000001" "\<lfloor>300001 / 2 :: rat\<rfloor> = 150000" "\<lfloor>600002003 / 4000 :: rat\<rfloor> = 150000"
    by (simp_all add: floor_eq_iff)
  show "fiat_sample_quote 10000000000 = \<lparr>wq_amount = 10000000000, wq_exitFee = 200000000, wq_halfFee = 100000000,
     wq_totalDeduct = 10200000000, wq_retailRate = 15, wq_payoutGhs = 150000\<rparr>"
    "fiat_sample_quote 10000000050 = \<lparr>wq_amount = 10000000050, wq_exitFee = 200000001, wq_halfFee = 100000001,
     wq_totalDeduct = 10200000051, wq_retailRate = 15, wq_payoutGhs = 150000\<rparr>"
    using f by (simp_all add: fiat_sample_quote_def price_withdrawal_def round_dp_def half_of_fee_def units_rat_def Let_def)
qed

lemma fiat_sample_audits: "runDoubleCheck 7 fiat_sample = Inr True" "runDoubleCheck 9 fiat_sample = Inr True"
proof -
  have "js_double 200 = 200" "js_double 0 = 0" using js_double_whole [of 200] js_double_whole [of 0] by simp_all
  moreover have "units_rat 20000000000 = 200" by (simp add: units_rat_def)
  moreover have "units_rat 0 = 0" by (simp add: units_rat_def)
  ultimately show "runDoubleCheck 7 fiat_sample = Inr True" "runDoubleCheck 9 fiat_sample = Inr True"
    using tolerance_bounds(2)
    by (simp_all add: runDoubleCheck_def fiat_sample_def fiat_sample_user_def fiat_sample_funding_def settled_rows_def audit_step_def
        audit_principal_def WITHDRAWAL_MAGNITUDE_TYPES_def)
qed

lemma fiat_sample_opening: "fiat_opening fiat_sample"
  by (simp add: fiat_opening_def fiat_sample_def users_ok_def fiat_sample_user_def fiat_sample_funding_def fiat_withdrawal_def fiat_ledger_def)
    (simp add: empty_ledger_def)

lemma fiat_sample_ready: "undisturbed (fc_ledger (fiat_sample_choice h))" "fc_record_ok (fiat_sample_choice h)" "decimal_exact id"
  "small_reference ''W1''" "account_code_ok 7" "account_code_ok 9" "reference_of fiat_sample_opts i now = ''W1''"
  by (simp_all add: fiat_sample_choice_def undisturbed_def decimal_exact_def small_reference_def plain_reference_def account_code_ok_def
      user_liability_code_def show_nat.simps reference_of_def fiat_sample_opts_def or_null_def)

lemma fiat_sample_users:
  "find_by au_id 7 (wd_users (fd_wallet fiat_sample)) = Some (fiat_sample_user 7 (Some ''R9'') None)"
  "resolveReferrer 7 fiat_sample = Some (fiat_sample_user 9 None (Some ''R9''))"
  by (simp_all add: fiat_sample_def fiat_sample_user_def resolveReferrer_def or_null_def)

definition fiat_sample_row :: "int \<Rightarrow> fiat_row" where
  "fiat_sample_row n = withdrawal_history (fiat_sample_choice ''h1'') 7 ''W1'' (fiat_sample_quote n)
     (reserve_meta (Some (fiat_sample_user 9 None (Some ''R9''))) (fiat_sample_quote n) None)"

lemma fiat_sample_terms:
  assumes "n \<in> {10000000000, 10000000050}"
  shows "toExactDecimal (usdc_decimal n) = Inr (nat n)"
    and "fiat_sample_quote n = price_withdrawal id id (int (nat n)) (2 / 100) (discount_multiplier (wo_feeDiscountMultiplier fiat_sample_opts))
      (resolveFiatRetailRate (fd_settings fiat_sample) (wo_retailRate fiat_sample_opts))"
  using assms by (auto simp: usdc_decimal_units fiat_sample_quote_def fiat_sample_opts_def discount_multiplier_def resolveFiatRetailRate_def)

lemma fiat_sample_limits:
  assumes "n \<in> {10000000000, 10000000050}"
  shows "0 < wq_retailRate (fiat_sample_quote n)" "0 < wq_payoutGhs (fiat_sample_quote n)" "0 < wq_totalDeduct (fiat_sample_quote n)"
    "wq_totalDeduct (fiat_sample_quote n) < 10 ^ 20" "wq_amount (fiat_sample_quote n) \<le> 100000000000"
    "wq_totalDeduct (fiat_sample_quote n) \<le> au_availableBalance (fiat_sample_user 7 (Some ''R9'') None)"
  using assms by (auto simp: fiat_sample_prices fiat_sample_user_def)

lemma fiat_sample_off: "\<not> (case fd_settings fiat_sample of None \<Rightarrow> False | Some g \<Rightarrow> gs_fiatLiquidityAuthorityEnabled g)"
  and fiat_sample_fee: "effectiveExitFeePct (fd_settings fiat_sample) (au_withdrawalRiskTier (fiat_sample_user 7 (Some ''R9'') None)) = Some (2 / 100)"
  and fiat_sample_fresh: "Some ''W1'' \<notin> fr_txHash ` set (fd_history fiat_sample)" "fd_fiatPool fiat_sample = Some 100000000000"
  and fiat_sample_plain: "wo_feeDiscountTier fiat_sample_opts = None" "wo_operation fiat_sample_opts = None"
  by (simp_all add: fiat_sample_def effectiveExitFeePct_def EXIT_FEE_PERCENT_def fiat_sample_funding_def fiat_sample_opts_def)

lemma fiat_sample_reserves:
  assumes n: "n \<in> {10000000000, 10000000050}"
  obtains t where "processFiatWithdrawal (\<lambda>t. t) id id (\<lambda>_. None) (fiat_sample_choice ''h1'') 7 (usdc_decimal n) fiat_sample_opts id fiat_sample =
    (Inr (fiat_sample_quote n, fiat_sample_row n), t)"
  using reserve_call_accepted [OF fiat_opening_inv [OF fiat_sample_opening] fiat_sample_ready(3,1,2) fiat_sample_terms(1) [OF n] fiat_sample_audits(1) fiat_sample_off fiat_sample_users(1)
      fiat_sample_ready(5) fiat_sample_limits(6) [OF n] fiat_sample_fee fiat_sample_terms(2) [OF n] fiat_sample_limits(1-4) [OF n] fiat_sample_ready(7) [symmetric] fiat_sample_ready(4)
      fiat_sample_fresh fiat_sample_limits(5) [OF n] fiat_sample_plain] that
  by (metis fiat_sample_row_def fiat_sample_users(2))

abbreviation fiat_sample_history :: "fiat_db \<Rightarrow> fiat_db \<Rightarrow> bool" where
  "fiat_sample_history \<equiv> history (fiat_exec (\<lambda>t. t) id id (\<lambda>_. None))"

lemma fiat_sample_reserved:
  assumes n: "n \<in> {10000000000, 10000000050}"
  obtains t where "processFiatWithdrawal (\<lambda>t. t) id id (\<lambda>_. None) (fiat_sample_choice ''h1'') 7 (usdc_decimal n) fiat_sample_opts id fiat_sample =
      (Inr (fiat_sample_quote n, fiat_sample_row n), t)"
    "fiat_sample_history fiat_sample t" "read_row ''W1'' t = Some (fiat_sample_row n)" "no_payout_reservation ''W1'' t" "user_ids t = [7, 9]"
    "fd_history t = fd_history fiat_sample @ [fiat_sample_row n]" "runDoubleCheck 9 t = Inr True"
    "available 9 t = 20000000000" "available 7 t = available 7 fiat_sample - wq_totalDeduct (fiat_sample_quote n)"
    "fiat_exec (\<lambda>t. t) id id (\<lambda>_. None) id (Reserve (fiat_sample_choice ''h1'') 7 (usdc_decimal n) fiat_sample_opts) fiat_sample = (None, t)"
proof -
  let ?ch = "fiat_sample_choice ''h1''" and ?q = "fiat_sample_quote n"
  obtain t where run: "processFiatWithdrawal (\<lambda>t. t) id id (\<lambda>_. None) ?ch 7 (usdc_decimal n) fiat_sample_opts id fiat_sample =
      (Inr (?q, fiat_sample_row n), t)" by (rule fiat_sample_reserves [OF n])
  obtain p c where res: "reserve_tx (\<lambda>t. t) id (\<lambda>_. None) ?ch False 7 ''W1'' fiat_sample_opts (resolveReferrer 7 fiat_sample) ?q fiat_sample =
      (Inr (fiat_sample_row n), t)"
    by (rule process_cases [OF run]) (simp add: fiat_sample_def fiat_sample_ready(7))
  note inv = fiat_opening_inv [OF fiat_sample_opening, of id]
  have pl: "plain_reference ''W1''" by (simp add: plain_reference_def)
  have ex: "fiat_exec (\<lambda>t. t) id id (\<lambda>_. None) id (Reserve ?ch 7 (usdc_decimal n) fiat_sample_opts) fiat_sample = (None, t)"
    using run pl by (simp add: fiat_exec_def answer_of_def fiat_sample_ready(7))
  then have hist: "fiat_sample_history fiat_sample t" using history_call_alone history.stop by metis
  have okt: "users_ok t" and oks: "users_ok fiat_sample"
    using history_books(1) [OF fiat_sample_opening hist] inv by (simp_all add: fiat_inv_def)
  have rr: "read_row ''W1'' t = Some (fiat_sample_row n)" "fd_history t = fd_history fiat_sample @ [fiat_sample_row n]"
    by (rule fiat_reserved_row [OF inv res pl], simp)+
  have av: "available 9 t = available 9 fiat_sample" "available 7 t = available 7 fiat_sample - wq_totalDeduct ?q"
    by (rule fiat_reserved_row [OF inv res pl], simp)+
  have ids: "user_ids t = [7, 9]" using reserve_ids(1) [OF res] by (simp add: user_ids_def fiat_sample_def fiat_sample_user_def)
  have free: "no_payout_reservation ''W1'' t"
    by (rule reserve_counters [OF res]) (simp add: no_payout_reservation_def counters_def fiat_sample_def)
  have "settled_rows 9 t = settled_rows 9 fiat_sample"
    by (simp add: settled_rows_def rr(2) fiat_sample_row_def withdrawal_history_def)
  moreover have "user_known 9 t" "user_known 9 fiat_sample"
    using ids by (simp_all add: user_known_ids) (simp add: user_ids_def fiat_sample_def fiat_sample_user_def)
  ultimately have "runDoubleCheck 9 t = Inr True" using audit_same [OF oks okt] av fiat_sample_audits(2) by simp
  moreover have "available 9 fiat_sample = 20000000000" by (simp add: available_def fiat_sample_def fiat_sample_user_def)
  ultimately show thesis using that run hist rr free ids av ex by simp
qed

lemma fiat_sample_row_facts:
  "fiat_withdrawal (fiat_sample_row n)" "is_pending (fiat_sample_row n)" "fr_userId (fiat_sample_row n) = 7"
  "fr_amountUsdc (fiat_sample_row n) = wq_amount (fiat_sample_quote n)" "fr_feeUsdc (fiat_sample_row n) = wq_exitFee (fiat_sample_quote n)"
  by (simp_all add: fiat_sample_row_def withdrawal_history_def fiat_withdrawal_def is_pending_def)

lemma fiat_sample_total: "reserved_total id (fiat_sample_row 10000000000) = 10200000000"
  by (simp add: reserved_total_def fiat_sample_row_facts fiat_sample_prices)

lemma fiat_sample_open:
  assumes "fd_history t = fd_history fiat_sample @ [fiat_sample_row 10000000000]"
  shows "sum_rows (open_amount id) (fd_history t) = 10200000000"
    and "sum_rows (\<lambda>r. if fr_userId r = 7 then open_amount id r else 0) (fd_history t) = 10200000000"
proof -
  have "open_amount id (fiat_sample_row 10000000000) = 10200000000"
    by (simp add: open_amount_def fiat_sample_row_facts fiat_sample_total)
  moreover have "open_amount id (fiat_sample_funding i h) = 0" for i h
    by (simp add: open_amount_def fiat_sample_funding_def fiat_withdrawal_def)
  moreover have "fd_history fiat_sample = [fiat_sample_funding 7 ''d7'', fiat_sample_funding 9 ''d9'']" by (simp add: fiat_sample_def)
  ultimately show "sum_rows (open_amount id) (fd_history t) = 10200000000"
    and "sum_rows (\<lambda>r. if fr_userId r = 7 then open_amount id r else 0) (fd_history t) = 10200000000"
    by (simp_all add: assms fiat_sample_row_facts)
qed

lemma fiat_sample_shares:
  "df_referrerId (deferred_of (fiat_sample_row 10000000000)) = Some 9"
  "df_referrerShare (deferred_of (fiat_sample_row 10000000000)) = 100000000"
  "df_systemShare (deferred_of (fiat_sample_row 10000000000)) = 100000000"
  "realized_fee (fiat_sample_row 10000000000) = 100000000" "realized_reward (fiat_sample_row 10000000000) = 100000000"
  by (simp_all add: fiat_sample_row_def withdrawal_history_def deferred_of_def reserve_meta_def fiat_sample_prices share_text_def read_fixed_fixed8
      fiat_sample_user_def realized_fee_def realized_reward_def pays_referrer_def)

lemma fiat_sample_sound: "user_ids t = [7, 9] \<Longrightarrow> sound_settlement (fiat_sample_row 10000000000) t"
  using fiat_sample_ready(6) by (simp add: sound_settlement_def fiat_sample_row_facts fiat_sample_prices fiat_sample_shares user_known_ids)

lemma fiat_sample_refunded:
  obtains t u r where "fiat_sample_history fiat_sample t" "fiat_sample_history t u" "read_row ''W1'' u = Some r" "fr_status r = FAILED" "fiat_withdrawal r"
proof -
  obtain t where t: "fiat_sample_history fiat_sample t" "read_row ''W1'' t = Some (fiat_sample_row 10000000000)" "no_payout_reservation ''W1'' t"
    "user_ids t = [7, 9]" by (rule fiat_sample_reserved [of 10000000000]) auto
  let ?r = "fiat_sample_row 10000000000" and ?opts = "\<lparr>ro_reason = None, ro_runFailureStatus = None, ro_providerTerminal = False, ro_providerTxId = None\<rparr>"
  have inv: "fiat_inv id t" by (rule history_books(1) [OF fiat_sample_opening t(1)])
  note r = t(2) fiat_sample_row_facts(2,1)
  have total: "reserved_total id ?r < 10 ^ 20" by (simp add: reserved_total_def fiat_sample_row_facts fiat_sample_prices)
  have known: "user_known (fr_userId ?r) t" "account_code_ok (fr_userId ?r)" using t(4) fiat_sample_ready(5) by (simp_all add: user_known_ids fiat_sample_row_facts)
  obtain a u where run: "reverse_claimed (\<lambda>t. t) id id (fiat_sample_choice ''h2'') ''W1'' ?opts ?r None
      (t\<lparr>fd_history := claim_rows fr_txHash is_pending fail_row (Some ''W1'') (fd_history t)\<rparr>) = (Inr (Reversed (reserved_total id ?r) a), u)"
    by (rule refund_accepted [OF inv r fiat_sample_ready(3,1,4) known total t(3)])
  have h: "fd_history u = claim_rows fr_txHash is_pending fail_row (Some ''W1'') (fd_history t)" by (rule reverse_claimed_cases [OF inv r run])
  have "fiat_exec (\<lambda>t. t) id id (\<lambda>_. None) id (Reverse (fiat_sample_choice ''h2'') ''W1'' ?opts) t = (None, u)"
    using run reverse_of_pending [OF inv r] by (simp add: fiat_exec_def answer_of_def transaction_def)
  then have "fiat_sample_history t u" using history_call_alone history.stop by metis
  moreover have "read_row ''W1'' u = Some (fail_row ?r)"
    using h t(2) failed.claim_find [of "Some ''W1''" "Some ''W1''" "fd_history t"] fiat_sample_row_facts(2) by (simp add: read_row_def)
  ultimately show thesis
    using that t(1) fiat_sample_row_facts(1) keeps_row_reserved(4) [OF keeps_row_moves(2)] by (simp add: fail_row_def)
qed

section \<open>Guarantees\<close>

text \<open>C3: After any history of reservations, settlements, reversals, liquidations, deposits and calls of
  other services, the journals of fiat withdrawals hold exactly the open withdrawals in the restricted
  reserves, so that the account is these plus what other services booked there; the active obligations
  of the service add up to the same amount; no balance is negative. And a further call of the service,
  whatever runs between its read and its transaction, moves each customer's spendable balance and
  ledger liability by the same amount.\<close>

theorem reserves_hold_open_withdrawals:
  assumes "fiat_opening s" and "history (fiat_exec sha rnd prec parse) s t"
  shows "keyed_net withdrawal_key ''restricted:reserves'' (fiat_ledger t) = - sum_rows (open_amount rnd) (fd_history t)
    \<and> account_net ''restricted:reserves'' (fiat_ledger t) =
        keyed_net (\<lambda>k. \<not> withdrawal_key k) ''restricted:reserves'' (fiat_ledger t) - sum_rows (open_amount rnd) (fd_history t)
    \<and> sum_rows fiat_active (obligations (fd_books t)) = sum_rows (open_amount rnd) (fd_history t)
    \<and> 0 \<le> available i t
    \<and> (\<forall>env c a u. history (fiat_exec sha rnd prec parse) t (env t) \<and> (\<forall>f. c \<noteq> Foreign f) \<and>
          fiat_exec sha rnd prec parse env c t = (a, u) \<longrightarrow>
        u = t \<or> available i u - available i (env t) =
          account_net (user_liability_code i) (fiat_ledger (env t)) - account_net (user_liability_code i) (fiat_ledger u))"
proof -
  have inv: "fiat_inv rnd t" using history_books [OF assms] by blast
  have "u = t \<or> gap i u = gap i (env t)" if "history (fiat_exec sha rnd prec parse) t (env t)" "\<And>f. c \<noteq> Foreign f"
    "fiat_exec sha rnd prec parse env c t = (a, u)" for env c a u
    using own_call_keeps [OF that(3,2) inv] fw.history_keeps [OF that(1) inv] by blast
  moreover have "0 \<le> available i t"
    using inv by (auto simp: available_def fiat_inv_def users_ok_def intro!: sum_rows_nonneg)
  ultimately show ?thesis
    using inv keyed_net_split [of "''restricted:reserves''" "fiat_ledger t" withdrawal_key]
    by (auto simp: fiat_inv_def reserves_follow_def gap_def algebra_simps)
qed

theorem reserves_hold_open_withdrawals_witness:
  "\<exists>t. fiat_opening fiat_sample \<and> fiat_sample_history fiat_sample t \<and>
    keyed_net withdrawal_key ''restricted:reserves'' (fiat_ledger t) = - 10200000000 \<and>
    available 7 t - available 7 fiat_sample =
      account_net (user_liability_code 7) (fiat_ledger fiat_sample) - account_net (user_liability_code 7) (fiat_ledger t)"
proof -
  let ?c = "Reserve (fiat_sample_choice ''h1'') 7 (usdc_decimal 10000000000) fiat_sample_opts"
  obtain t where t: "fiat_sample_history fiat_sample t" "fd_history t = fd_history fiat_sample @ [fiat_sample_row 10000000000]"
    and ex: "fiat_exec (\<lambda>t. t) id id (\<lambda>_. None) id ?c fiat_sample = (None, t)"
    by (rule fiat_sample_reserved [of 10000000000]) auto
  have "keyed_net withdrawal_key ''restricted:reserves'' (fiat_ledger t) = - 10200000000"
    using reserves_hold_open_withdrawals [OF fiat_sample_opening t(1)] fiat_sample_open(1) [OF t(2)] by simp
  moreover have "t \<noteq> fiat_sample" using t(2) by auto
  moreover have "fiat_sample_history fiat_sample (id fiat_sample)" by (simp add: history.stop)
  ultimately show ?thesis
    using reserves_hold_open_withdrawals [OF fiat_sample_opening history.stop, where i = 7 and sha = "\<lambda>t. t" and rnd = id and
        prec = id and parse = "\<lambda>_. None"] ex t(1) fiat_sample_opening
    by (metis fiat_call.distinct(9) id_apply)
qed

text \<open>C4: A withdrawal that was settled or refunded stays so: in every later history its economics and
  status are the same, a settlement of it is a repetition and changes nothing, a reversal of it
  changes nothing and reports the settlement or the earlier refund, whatever runs concurrently.\<close>

theorem closed_withdrawal_is_final:
  assumes "fiat_opening s" and "history (fiat_exec sha rnd prec parse) s t" and "read_row ref t = Some r" and "fiat_withdrawal r"
    and "\<not> is_pending r" and "history (fiat_exec sha rnd prec parse) t u" and "history (fiat_exec sha rnd prec parse) u (env u)"
    and "ref \<noteq> []"
  shows "\<exists>r'. read_row ref u = Some r' \<and> same_withdrawal r r' \<and> fr_status r' = fr_status r \<and>
    (\<exists>r''. completeFiatWithdrawal sha rnd ch ref tid env u = (Inr (False, Some r''), env u) \<and> fr_status r'' = fr_status r) \<and>
    reverseFiatWithdrawal sha rnd prec ch False ref opts env u =
      (Inr (if fr_status r = FAILED then AlreadyReversed else NotReversible (fr_status r)), u)"
proof -
  have inv: "fiat_inv rnd t" using history_books [OF assms(1,2)] by blast
  note u = fw.history_keeps [OF assms(6) inv]
  have e: "fiat_inv rnd (env u)" "fiat_evolves u (env u)" using fw.history_keeps [OF assms(7)] u by blast+
  obtain r' where r': "read_row ref u = Some r'" "same_withdrawal r r'" "fr_status r' = fr_status r" "fiat_withdrawal r'"
    using evolved_row [OF conjunct2 [OF u] assms(3-5)] by blast
  have np: "\<not> is_pending r'" using r'(3) assms(5) by (simp add: is_pending_def)
  obtain r2 where r2: "read_row ref (env u) = Some r2" "fr_status r2 = fr_status r'"
    using evolved_row [OF e(2) r'(1,4) np] by blast
  have d: "hashes_distinct (fd_history (env u))" using e(1) by (simp add: fiat_inv_def)
  have "claims fr_txHash is_pending (Some ref) (fd_history (env u)) = 0"
    using r2 np by (simp add: hash_claims [OF d] read_row_def is_pending_def)
  then have "completeFiatWithdrawal sha rnd ch ref tid env u = (Inr (False, Some r2), env u)"
    using r' r2 assms(8) by (simp add: completeFiatWithdrawal_def fiat_withdrawal_def Let_def)
  moreover have "reverseFiatWithdrawal sha rnd prec ch False ref opts env u =
      (Inr (if fr_status r = FAILED then AlreadyReversed else NotReversible (fr_status r)), u)"
    using r' np assms(8) by (auto simp: reverseFiatWithdrawal_def fiat_withdrawal_def is_pending_def)
  ultimately show ?thesis using r' r2 by auto
qed

theorem closed_withdrawal_is_final_witness:
  "\<exists>t u. fiat_sample_history fiat_sample t \<and> row_in_status u ''W1'' FAILED \<and>
    reverseFiatWithdrawal (\<lambda>t. t) id id (fiat_sample_choice ''h2'') False ''W1''
      \<lparr>ro_reason = None, ro_runFailureStatus = None, ro_providerTerminal = False, ro_providerTxId = None\<rparr> id u = (Inr AlreadyReversed, u)"
proof -
  obtain t u r where t: "fiat_sample_history fiat_sample t" "fiat_sample_history t u" "read_row ''W1'' u = Some r" "fr_status r = FAILED" "fiat_withdrawal r"
    by (rule fiat_sample_refunded)
  then have np: "\<not> is_pending r" and su: "fiat_sample_history fiat_sample u" by (auto simp: is_pending_def intro: history_trans)
  have stay: "fiat_sample_history u (id u)" by (simp add: history.stop)
  from closed_withdrawal_is_final [where env = id, OF fiat_sample_opening su t(3,5) np history.stop stay, where ch = "fiat_sample_choice ''h2''" and tid = None
      and opts = "\<lparr>ro_reason = None, ro_runFailureStatus = None, ro_providerTerminal = False, ro_providerTxId = None\<rparr>"]
  have "reverseFiatWithdrawal (\<lambda>t. t) id id (fiat_sample_choice ''h2'') False ''W1''
      \<lparr>ro_reason = None, ro_runFailureStatus = None, ro_providerTerminal = False, ro_providerTxId = None\<rparr> id u = (Inr AlreadyReversed, u)"
    using t(4) by auto
  moreover have "row_in_status u ''W1'' FAILED" using t(3-5) by (simp add: row_in_status_def)
  ultimately show ?thesis using t(1) by blast
qed

text \<open>C16: With the liquidity authority off, a withdrawal that passes the balance audit and whose priced
  total is within the balance and whose amount is within the pool is always reserved under an
  unused reference: the customer's balance falls by the total, the reserves grow by it, and the row
  is pending.\<close>

theorem funded_withdrawal_is_reserved:
  assumes "fiat_opening s0" "history (fiat_exec sha rnd prec parse) s0 s"
    and rnd: "decimal_exact rnd" and ch: "undisturbed (fc_ledger ch)" "fc_record_ok ch"
    and amt: "toExactDecimal amt = Inr n" and audit: "runDoubleCheck i s = Inr True"
    and off: "\<not> (case fd_settings s of None \<Rightarrow> False | Some g \<Rightarrow> gs_fiatLiquidityAuthorityEnabled g)"
    and u: "find_by au_id i (wd_users (fd_wallet s)) = Some u" "account_code_ok i" "wq_totalDeduct q \<le> au_availableBalance u"
    and q: "effectiveExitFeePct (fd_settings s) (au_withdrawalRiskTier u) = Some pct"
      "q = price_withdrawal rnd prec (int n) pct (discount_multiplier (wo_feeDiscountMultiplier opts))
             (resolveFiatRetailRate (fd_settings s) (wo_retailRate opts))"
      "0 < wq_retailRate q" "0 < wq_payoutGhs q" "0 < wq_totalDeduct q" "wq_totalDeduct q < 10 ^ 20"
    and ref: "ref = reference_of opts i (fc_now ch)" "small_reference ref" "Some ref \<notin> fr_txHash ` set (fd_history s)"
    and pool: "fd_fiatPool s = Some b" "wq_amount q \<le> b"
    and opts: "wo_feeDiscountTier opts = None" "wo_operation opts = None"
  shows "\<exists>r t. processFiatWithdrawal sha rnd prec parse ch i amt opts id s = (Inr (q, r), t) \<and>
    available i t = available i s - wq_totalDeduct q \<and>
    account_net ''restricted:reserves'' (fiat_ledger t) = account_net ''restricted:reserves'' (fiat_ledger s) - wq_totalDeduct q \<and>
    row_in_status t ref PENDING"
proof -
  have inv: "fiat_inv rnd s" using history_books [OF assms(1,2)] by blast
  have pl: "plain_reference ref" using ref(2) by (simp add: small_reference_def)
  let ?r = "withdrawal_history ch i ref q (reserve_meta (resolveReferrer i s) q None)"
  obtain t where run: "processFiatWithdrawal sha rnd prec parse ch i amt opts id s = (Inr (q, ?r), t)"
    by (rule reserve_call_accepted [OF inv rnd ch amt audit off u q ref pool opts])
  obtain on where res: "reserve_tx sha rnd parse ch on i ref opts (resolveReferrer i s) q s = (Inr ?r, t)"
    by (rule process_cases [OF run]) (simp add: ref(1))
  have "available i t = available i s - wq_totalDeduct q"
    "account_net ''restricted:reserves'' (fiat_ledger t) = account_net ''restricted:reserves'' (fiat_ledger s) - wq_totalDeduct q"
    "read_row ref t = Some ?r"
    by (rule fiat_reserved_row [OF inv res pl], simp)+
  with run show ?thesis by (auto simp: row_in_status_def withdrawal_history_def fiat_withdrawal_def)
qed

theorem funded_withdrawal_is_reserved_witness:
  "\<exists>r t. processFiatWithdrawal (\<lambda>t. t) id id (\<lambda>_. None) (fiat_sample_choice ''h1'') 7 (usdc_decimal 10000000000) fiat_sample_opts id
      fiat_sample = (Inr (fiat_sample_quote 10000000000, r), t) \<and> row_in_status t ''W1'' PENDING"
proof -
  have n: "(10000000000::int) \<in> {10000000000, 10000000050}" by simp
  from funded_withdrawal_is_reserved [OF fiat_sample_opening history.stop fiat_sample_ready(3,1,2) fiat_sample_terms(1) [OF n] fiat_sample_audits(1) fiat_sample_off
      fiat_sample_users(1) fiat_sample_ready(5) fiat_sample_limits(6) [OF n] fiat_sample_fee fiat_sample_terms(2) [OF n] fiat_sample_limits(1-4) [OF n]
      fiat_sample_ready(7) [symmetric] fiat_sample_ready(4) fiat_sample_fresh fiat_sample_limits(5) [OF n] fiat_sample_plain]
  show ?thesis by blast
qed

text \<open>C15: An open withdrawal can always be refunded: when the ledger loses no race and the amount is
  within its precision, the reversal answers with the reserved total, gives it back to the customer
  and to nobody else, and marks the row as failed.\<close>

theorem open_withdrawal_is_refundable:
  assumes "fiat_opening s" "history (fiat_exec sha rnd prec parse) s t"
    and "read_row ref t = Some r" "fiat_withdrawal r" "is_pending r" and "small_reference ref"
    and "decimal_exact rnd" "undisturbed (fc_ledger ch)" "reserved_total rnd r < 10 ^ 20"
    and "user_known (fr_userId r) t" "account_code_ok (fr_userId r)" and "no_payout_reservation ref t"
  shows "\<exists>a u. reverseFiatWithdrawal sha rnd prec ch False ref opts id t = (Inr (Reversed (reserved_total rnd r) a), u) \<and>
    (\<forall>i. available i u = available i t + (if i = fr_userId r then reserved_total rnd r else 0)) \<and> row_in_status u ref FAILED"
proof -
  have inv: "fiat_inv rnd t" using history_books [OF assms(1,2)] by blast
  note r = assms(3,5,4)
  obtain a u where run: "reverse_claimed sha rnd prec ch ref opts r None
      (t\<lparr>fd_history := claim_rows fr_txHash is_pending fail_row (Some ref) (fd_history t)\<rparr>) = (Inr (Reversed (reserved_total rnd r) a), u)"
    by (rule refund_accepted [OF inv r assms(7,8,6,10,11,9,12)])
  have h: "fd_history u = claim_rows fr_txHash is_pending fail_row (Some ref) (fd_history t)"
    by (rule reverse_claimed_cases [OF inv r run])
  have "available i u = available i t + (if i = fr_userId r then reserved_total rnd r else 0)" for i
    by (rule reverse_claimed_cases [OF inv r run]) blast
  moreover have "row_in_status u ref FAILED"
    using h assms(3-5) failed.claim_find [of "Some ref" "Some ref" "fd_history t"]
    by (simp add: row_in_status_def read_row_def fail_row_def fiat_withdrawal_def)
  ultimately show ?thesis using run reverse_of_pending [OF inv r] assms(6) by (auto simp: small_reference_def)
qed

theorem open_withdrawal_is_refundable_witness:
  "\<exists>t a u. fiat_sample_history fiat_sample t \<and> reverseFiatWithdrawal (\<lambda>t. t) id id (fiat_sample_choice ''h2'') False ''W1''
      \<lparr>ro_reason = None, ro_runFailureStatus = None, ro_providerTerminal = False, ro_providerTxId = None\<rparr> id t = (Inr (Reversed 10200000000 a), u)"
proof -
  obtain t where t: "fiat_sample_history fiat_sample t" "read_row ''W1'' t = Some (fiat_sample_row 10000000000)" "no_payout_reservation ''W1'' t"
    "user_ids t = [7, 9]" by (rule fiat_sample_reserved [of 10000000000]) auto
  have total: "reserved_total id (fiat_sample_row 10000000000) = 10200000000" by (simp add: reserved_total_def fiat_sample_row_facts fiat_sample_prices)
  have "user_known (fr_userId (fiat_sample_row 10000000000)) t" "account_code_ok (fr_userId (fiat_sample_row 10000000000))"
    using t(4) fiat_sample_ready(5) by (simp_all add: user_known_ids fiat_sample_row_facts)
  from open_withdrawal_is_refundable [OF fiat_sample_opening t(1,2) fiat_sample_row_facts(1,2) fiat_sample_ready(4,3,1) _ this t(3)]
  show ?thesis using t(1) unfolding total by fastforce
qed

text \<open>C13: With the liquidity authority off, reversing a withdrawal right after its reservation succeeds
  and restores every spendable balance, every ledger account, the fiat pool and the master crypto
  counter.\<close>

theorem refund_undoes_reservation:
  assumes "fiat_opening s" "history (fiat_exec sha rnd prec parse) s t"
    and run: "processFiatWithdrawal sha rnd prec parse ch i amt opts id t = (Inr (q, r), u)"
    and off: "\<not> (case fd_settings t of None \<Rightarrow> False | Some g \<Rightarrow> gs_fiatLiquidityAuthorityEnabled g)"
    and ref: "ref = reference_of opts i (fc_now ch)" "small_reference ref" and free: "no_payout_reservation ref t"
    and rnd: "decimal_exact rnd" "undisturbed (fc_ledger ch')" "wq_totalDeduct q < 10 ^ 20" "account_code_ok i"
  shows "\<exists>a v. reverseFiatWithdrawal sha rnd prec ch' False ref ropts id u = (Inr (Reversed (wq_totalDeduct q) a), v) \<and>
    available j v = available j t \<and> account_net code (fiat_ledger v) = account_net code (fiat_ledger t) \<and>
    fd_fiatPool v = fd_fiatPool t \<and> fd_masterCrypto v = Some (ensured (fd_masterCrypto t))"
proof -
  have inv: "fiat_inv rnd t" using history_books [OF assms(1,2)] by blast
  have pl: "plain_reference ref" "ref \<noteq> []" using ref(2) by (simp_all add: small_reference_def)
  obtain n pct where q: "q = price_withdrawal rnd prec (int n) pct (discount_multiplier (wo_feeDiscountMultiplier opts))
        (resolveFiatRetailRate (fd_settings t) (wo_retailRate opts))"
    and res: "reserve_tx sha rnd parse ch False i ref opts (resolveReferrer i t) q t = (Inr r, u)"
    by (rule process_cases [OF run]) (use off ref(1) in simp)
  have q': "wq_totalDeduct q = rnd (wq_amount q + wq_exitFee q)" by (simp add: q price_withdrawal_def Let_def)
  obtain d where r: "r = withdrawal_history ch i ref q (reserve_meta (resolveReferrer i t) q d)" "read_row ref u = Some r"
    and av: "\<And>j. available j u = available j t - (if j = i then wq_totalDeduct q else 0)"
    and net: "\<And>code. account_net code (fiat_ledger u) = account_net code (fiat_ledger t) +
      (if code = user_liability_code i then wq_totalDeduct q else 0) - (if code = ''restricted:reserves'' then wq_totalDeduct q else 0)"
    by (rule fiat_reserved_row [OF inv res pl(1)]) blast
  have rt: "is_pending r" "fiat_withdrawal r" "fr_userId r = i" "reserved_total rnd r = wq_totalDeduct q" "fr_amountUsdc r = wq_amount q" "isDeferredWithdrawal r"
    by (simp_all add: r(1) withdrawal_history_def is_pending_def fiat_withdrawal_def reserved_total_def q' isDeferredWithdrawal_def reserve_meta_def)
  have u: "fiat_inv rnd u" using reserve_keeps [OF inv res pl(1) q'] by blast
  obtain b where b: "fd_fiatPool t = Some b"
    "counters u = (Some (b - wq_amount q), Some (ensured (fd_masterCrypto t) + wq_amount q), fd_liquidity t)"
    by (rule reserve_counters [OF res])
  have known: "user_known (fr_userId r) u" using reserve_ids [OF res] by (simp add: user_known_ids rt)
  have free': "no_payout_reservation ref u" using free b(2) by (simp add: no_payout_reservation_def counters_def)
  let ?u = "u\<lparr>fd_history := claim_rows fr_txHash is_pending fail_row (Some ref) (fd_history u)\<rparr>"
  obtain a v where undo: "reverse_claimed sha rnd prec ch' ref ropts r None ?u = (Inr (Reversed (wq_totalDeduct q) a), v)"
    using refund_accepted [OF u r(2) rt(1,2) rnd(1,2) ref(2) known _ _ free'] rt rnd by metis
  obtain L res' where L: "post sha rnd (fc_ledger ch') True (reverse_posting ref r (reserved_total rnd r)) (fiat_ledger u) = (Inr res', L)"
    and "ob_ledger (fd_books v) = L" and av': "\<And>j. available j v = available j u + (if j = fr_userId r then reserved_total rnd r else 0)"
    by (rule reverse_claimed_cases [OF u r(2) rt(1,2) undo]) auto
  then have "account_net code (fiat_ledger v) = account_net code (fiat_ledger t)"
    using refund_net [OF u r(2) rt(1,2) L, of code] net [of code] rt by (simp add: fiat_ledger_def)
  moreover have "available j v = available j t" using av' av rt by simp
  moreover have "fd_fiatPool v = fd_fiatPool t" "fd_masterCrypto v = Some (ensured (fd_masterCrypto t))"
    using reverse_counters [OF undo rt(6)] free' b rt(5) by (simp_all add: no_payout_reservation_def counters_def ensured_def)
  ultimately show ?thesis
    using undo reverse_of_pending [OF u r(2) rt(1,2) pl(2)] by auto
qed

theorem refund_undoes_reservation_witness:
  "\<exists>q r t a v. processFiatWithdrawal (\<lambda>t. t) id id (\<lambda>_. None) (fiat_sample_choice ''h1'') 7 (usdc_decimal 10000000000) fiat_sample_opts id
      fiat_sample = (Inr (q, r), t) \<and>
    reverseFiatWithdrawal (\<lambda>t. t) id id (fiat_sample_choice ''h2'') False ''W1''
      \<lparr>ro_reason = None, ro_runFailureStatus = None, ro_providerTerminal = False, ro_providerTxId = None\<rparr> id t =
      (Inr (Reversed 10200000000 a), v) \<and> available 7 v = available 7 fiat_sample \<and> fd_fiatPool v = fd_fiatPool fiat_sample"
proof -
  obtain t where t: "processFiatWithdrawal (\<lambda>t. t) id id (\<lambda>_. None) (fiat_sample_choice ''h1'') 7 (usdc_decimal 10000000000) fiat_sample_opts id
      fiat_sample = (Inr (fiat_sample_quote 10000000000, fiat_sample_row 10000000000), t)" by (rule fiat_sample_reserved [of 10000000000]) auto
  have off: "\<not> (case fd_settings fiat_sample of None \<Rightarrow> False | Some g \<Rightarrow> gs_fiatLiquidityAuthorityEnabled g)" by (simp add: fiat_sample_def)
  have free: "no_payout_reservation ''W1'' fiat_sample" by (simp add: no_payout_reservation_def fiat_sample_def)
  have "wq_totalDeduct (fiat_sample_quote 10000000000) < 10 ^ 20" by (simp add: fiat_sample_prices)
  from refund_undoes_reservation [OF fiat_sample_opening history.stop t off fiat_sample_ready(7) [symmetric] fiat_sample_ready(4) free fiat_sample_ready(3,1) this
      fiat_sample_ready(5), of "''h2''" "\<lparr>ro_reason = None, ro_runFailureStatus = None, ro_providerTerminal = False, ro_providerTxId = None\<rparr>" 7]
  show ?thesis using t by (fastforce simp: fiat_sample_prices)
qed

text \<open>C14: An open withdrawal is settled exactly when the shares of the fee recorded in its metadata add
  up to the fee; otherwise the settlement is refused and changes nothing.\<close>

theorem settled_iff_shares_add_up:
  assumes "fiat_opening s" "history (fiat_exec sha rnd prec parse) s t"
    and "read_row ref t = Some r" "fiat_withdrawal r" "is_pending r" and "small_reference ref"
    and "decimal_exact rnd" "undisturbed (fc_ledger ch)" "fr_amountUsdc r + fr_feeUsdc r < 10 ^ 20"
    and "sound_settlement r t" and "no_payout_reservation ref t"
  shows "if realized_fee r + realized_reward r = fr_feeUsdc r
    then \<exists>y u. completeFiatWithdrawal sha rnd ch ref tid id t = (Inr (True, y), u) \<and> row_in_status u ref COMPLETED
    else \<exists>e. completeFiatWithdrawal sha rnd ch ref tid id t = (Inl e, t)"
proof -
  have inv: "fiat_inv rnd t" using history_books [OF assms(1,2)] by blast
  note r = assms(3,5,4)
  let ?t = "t\<lparr>fd_history := claim_rows fr_txHash is_pending (complete_row tid) (Some ref) (fd_history t)\<rparr>"
  have ne: "ref \<noteq> []" using assms(6) by (simp add: small_reference_def)
  have "0 < fr_amountUsdc r" "0 \<le> fr_feeUsdc r" using assms(10) by (simp_all add: sound_settlement_def)
  then have "reserved_total rnd r = fr_amountUsdc r + fr_feeUsdc r"
    using assms(7,9) by (simp add: reserved_total_def decimal_exact_def)
  then have eq: "settled_total rnd r = reserved_total rnd r \<longleftrightarrow> realized_fee r + realized_reward r = fr_feeUsdc r"
    using settled_exact(1) [OF assms(7,10)] by auto
  show ?thesis
  proof (cases "realized_fee r + realized_reward r = fr_feeUsdc r")
    case True
    then obtain y u where run: "settle_claimed sha rnd ch ref tid r ?t = (Inr (True, y), u)"
      using settlement_accepted [OF inv r assms(7,8,6,10,11)] eq by metis
    have "users_ok ?t" using inv by (simp add: fiat_inv_def users_ok_def)
    from settled_history(1) [OF this run] have "row_in_status u ref COMPLETED"
      using r paid.claim_find [of "Some ref" tid "Some ref" "fd_history t"]
      by (simp add: row_in_status_def read_row_def complete_row_def fiat_withdrawal_def)
    then show ?thesis using True run complete_of_pending [OF inv r ne] by auto
  next
    case False
    then have "fst (settle_claimed sha rnd ch ref tid r ?t) \<noteq> Inr y" for y
      using settle_claimed_keeps(2) [OF inv r] eq by (metis prod.collapse)
    then obtain e where "fst (settle_claimed sha rnd ch ref tid r ?t) = Inl e" by (metis old.sum.exhaust)
    then show ?thesis using False complete_of_pending [OF inv r ne] by (auto simp: transaction_def split: prod.splits)
  qed
qed

theorem settled_iff_shares_add_up_witness:
  "\<exists>t y u. fiat_sample_history fiat_sample t \<and> completeFiatWithdrawal (\<lambda>t. t) id (fiat_sample_choice ''h2'') ''W1'' None id t = (Inr (True, y), u)"
proof -
  obtain t where t: "fiat_sample_history fiat_sample t" "read_row ''W1'' t = Some (fiat_sample_row 10000000000)" "no_payout_reservation ''W1'' t"
    "user_ids t = [7, 9]" by (rule fiat_sample_reserved [of 10000000000]) auto
  have "fr_amountUsdc (fiat_sample_row 10000000000) + fr_feeUsdc (fiat_sample_row 10000000000) < 10 ^ 20" by (simp add: fiat_sample_row_facts fiat_sample_prices)
  from settled_iff_shares_add_up [OF fiat_sample_opening t(1,2) fiat_sample_row_facts(1,2) fiat_sample_ready(4,3,1) this fiat_sample_sound [OF t(4)] t(3)]
  show ?thesis using t(1) by (fastforce simp: fiat_sample_shares fiat_sample_row_facts fiat_sample_prices)
qed

text \<open>C35: A withdrawal of a customer with a referrer whose exit fee is an odd number of base units is
  never settled: both halves of the fee are rounded up, so the settlement would release one unit more
  than was reserved, and is refused in every later history, whatever the provider paid.\<close>

theorem odd_referred_fee_never_settles:
  assumes "fiat_opening s" "history (fiat_exec sha rnd prec parse) s t"
    and run: "processFiatWithdrawal sha rnd prec parse ch i amt opts id t = (Inr (q, r), u)"
    and ref: "ref = reference_of opts i (fc_now ch)" "plain_reference ref"
    and rf: "resolveReferrer i t = Some rf" "0 < au_id rf" and odd: "odd (wq_exitFee q)" "0 < wq_exitFee q"
    and prec: "prec (units_rat (wq_exitFee q) / 2) = units_rat (wq_exitFee q) / 2"
    and rnd: "decimal_exact rnd" "wq_amount q + wq_exitFee q + 1 < 10 ^ 20"
    and later: "history (fiat_exec sha rnd prec parse) u v" "history (fiat_exec sha rnd prec parse) v (env v)"
  shows "completeFiatWithdrawal sha rnd ch' ref tid env v \<noteq> (Inr (True, y), w)"
proof
  assume fin: "completeFiatWithdrawal sha rnd ch' ref tid env v = (Inr (True, y), w)"
  have inv: "fiat_inv rnd t" using history_books [OF assms(1,2)] by blast
  obtain on n pct where q: "q = price_withdrawal rnd prec (int n) pct (discount_multiplier (wo_feeDiscountMultiplier opts))
        (resolveFiatRetailRate (fd_settings t) (wo_retailRate opts))"
    and res: "reserve_tx sha rnd parse ch on i ref opts (Some rf) q t = (Inr r, u)"
    by (rule process_cases [OF run]) (simp add: rf ref(1))
  have q': "wq_totalDeduct q = rnd (wq_amount q + wq_exitFee q)" "wq_halfFee q = half_of_fee prec (wq_exitFee q)" "0 \<le> wq_amount q"
    by (simp_all add: q price_withdrawal_def Let_def)
  have half: "2 * wq_halfFee q = wq_exitFee q + 1" "0 < wq_halfFee q"
    using half_exact [of prec "wq_exitFee q"] prec odd by (simp_all add: q'(2)) presburger
  obtain d where r: "r = withdrawal_history ch i ref q (reserve_meta (Some rf) q d)" "read_row ref u = Some r"
    by (rule fiat_reserved_row [OF inv res ref(2)])
  have u: "fiat_inv rnd u" using reserve_keeps [OF inv res ref(2) q'(1)] by blast
  note v = fw.history_keeps [OF later(1) u]
  note e = fw.history_keeps [OF later(2) conjunct1 [OF v]]
  obtain r1 where r1: "read_row ref (env v) = Some r1" "settled_total rnd r1 = reserved_total rnd r1"
    by (rule fiat_settled_row [OF fin conjunct1 [OF e] conjunct2 [OF e]])
  have "fiat_evolves u (env v)" using fiat_evolves_trans v e by blast
  moreover have "fiat_withdrawal r" by (simp add: r(1) withdrawal_history_def fiat_withdrawal_def)
  ultimately have "same_withdrawal r r1" using r(2) r1(1) by (fastforce simp: fiat_evolves_def)
  then have same: "fr_amountUsdc r1 = wq_amount q" "fr_feeUsdc r1 = wq_exitFee q" "fr_meta r1 = fr_meta r"
    by (simp_all add: same_withdrawal_def fiat_withdrawal_def r(1) withdrawal_history_def)
  have "deferred_of r1 = deferred_of r" "fr_feeUsdc r = wq_exitFee q" by (simp_all add: deferred_of_def same(3) r(1) withdrawal_history_def)
  then have "realized_fee r1 + realized_reward r1 = realized_fee r + realized_reward r"
    by (simp add: realized_fee_def realized_reward_def same Let_def)
  then have sum: "realized_fee r1 + realized_reward r1 = wq_exitFee q + 1"
    using reserved_shares(2) [OF r(1)] rf(2) odd(2) half by simp
  have small: "rnd n = n" if "0 \<le> n" "n < 10 ^ 20" for n using rnd(1) that by (simp add: decimal_exact_def)
  have nn: "0 \<le> realized_fee r1" "0 \<le> realized_reward r1"
    using share_nonneg [of r1] odd(2) by (auto simp: realized_fee_def realized_reward_def same Let_def)
  have "settled_total rnd r1 = wq_amount q + wq_exitFee q + 1"
    using small nn sum rnd(2) q'(3) by (simp add: settled_total_def same)
  moreover have "reserved_total rnd r1 = wq_amount q + wq_exitFee q"
    using small rnd(2) q'(3) odd(2) by (simp add: reserved_total_def same)
  ultimately show False using r1(2) by simp
qed

theorem odd_referred_fee_never_settles_witness:
  "\<exists>t. fiat_sample_history fiat_sample t \<and> row_in_status t ''W1'' PENDING \<and>
    (\<forall>y w. completeFiatWithdrawal (\<lambda>t. t) id (fiat_sample_choice ''h2'') ''W1'' None id t \<noteq> (Inr (True, y), w))"
proof -
  obtain t where t: "processFiatWithdrawal (\<lambda>t. t) id id (\<lambda>_. None) (fiat_sample_choice ''h1'') 7 (usdc_decimal 10000000050) fiat_sample_opts id
      fiat_sample = (Inr (fiat_sample_quote 10000000050, fiat_sample_row 10000000050), t)"
    "fiat_sample_history fiat_sample t" "read_row ''W1'' t = Some (fiat_sample_row 10000000050)" by (rule fiat_sample_reserved [of 10000000050]) auto
  have "completeFiatWithdrawal (\<lambda>t. t) id (fiat_sample_choice ''h2'') ''W1'' None id t \<noteq> (Inr (True, y), w)" for y w
    by (rule odd_referred_fee_never_settles [OF fiat_sample_opening history.stop t(1) fiat_sample_ready(7) [symmetric] _ fiat_sample_users(2) _ _ _ _ fiat_sample_ready(3) _
          history.stop])
      (simp_all add: plain_reference_def fiat_sample_user_def fiat_sample_prices history.stop)
  with t fiat_sample_row_facts show ?thesis by (auto simp: row_in_status_def is_pending_def)
qed




text \<open>C36: A settlement that pays a referral reward of at least a thousand base units makes the
  referrer's balance audit fail, so the referrer cannot withdraw any more: the reward raises the
  balance, but no completed row accounts for it.\<close>

theorem referral_reward_fails_audit:
  assumes "fiat_opening s" "history (fiat_exec sha rnd prec parse) s t"
    and row: "read_row ref t = Some r" "fiat_withdrawal r" "is_pending r" "ref \<noteq> []"
    and run: "completeFiatWithdrawal sha rnd ch ref tid id t = (Inr (True, y), u)"
    and j: "df_referrerId (deferred_of r) = Some j" "j \<noteq> fr_userId r" "1000 \<le> df_referrerShare (deferred_of r)"
    and audit: "runDoubleCheck j t = Inr b" "available j t + df_referrerShare (deferred_of r) \<le> 100000000000000000"
    and amt: "toExactDecimal amt = Inr n"
  shows "processFiatWithdrawal sha rnd prec parse ch' j amt opts env u = (Inl AuditFailed, u)"
proof -
  have inv: "fiat_inv rnd t" using history_books [OF assms(1,2)] by blast
  let ?t = "t\<lparr>fd_history := claim_rows fr_txHash is_pending (complete_row tid) (Some ref) (fd_history t)\<rparr>"
  have st: "settle_claimed sha rnd ch ref tid r ?t = (Inr (True, y), u)"
    using run complete_of_pending [OF inv row(1,3,2,4)] by simp
  have d: "isDeferredWithdrawal r" by (rule open_obligation [OF inv row(1,3,2)])
  have ok: "users_ok t" "users_ok u" "users_ok ?t"
    using inv settle_claimed_keeps(1) [OF inv row(1,3,2) st] by (simp_all add: fiat_inv_def users_ok_def)
  have "reward_of r j = df_referrerShare (deferred_of r)" using j by (simp add: reward_of_def pays_referrer_def)
  moreover have "available j ?t = available j t" by (simp add: available_def)
  ultimately have av: "available j u = available j t + df_referrerShare (deferred_of r)"
    using settled_history(2) [OF ok(3) st d, of j] by simp
  have "fd_history u = fd_history ?t" by (rule settled_history(1) [OF ok(3) st])
  then have "settled_rows j u = settled_rows j t"
    using row(1) j(2) inv by (simp add: settled_rows_def settled_rows_other fiat_inv_def read_row_def)
  moreover have "user_known j u"
    using audit_user [OF audit(1)] settled_ids [OF st] by (simp add: user_known_ids user_ids_def)
  ultimately have "runDoubleCheck j u = Inl AuditFailed"
    using audit_fails_after_move [OF ok(1,2) audit(1)] av audit(2) j(3) by simp
  then show ?thesis using amt by (simp add: processFiatWithdrawal_def del: toExactDecimal.simps)
qed

theorem referral_reward_fails_audit_witness:
  "\<exists>t y u. fiat_sample_history fiat_sample t \<and> completeFiatWithdrawal (\<lambda>t. t) id (fiat_sample_choice ''h2'') ''W1'' None id t = (Inr (True, y), u) \<and>
    processFiatWithdrawal (\<lambda>t. t) id id (\<lambda>_. None) (fiat_sample_choice ''h3'') 9 (usdc_decimal 100000000) fiat_sample_opts id u = (Inl AuditFailed, u)"
proof -
  let ?r = "fiat_sample_row 10000000000"
  obtain t where t: "fiat_sample_history fiat_sample t" "read_row ''W1'' t = Some ?r" "no_payout_reservation ''W1'' t"
    "user_ids t = [7, 9]" "runDoubleCheck 9 t = Inr True" "available 9 t = 20000000000" by (rule fiat_sample_reserved [of 10000000000]) auto
  have inv: "fiat_inv id t" by (rule history_books(1) [OF fiat_sample_opening t(1)])
  note r = t(2) fiat_sample_row_facts(2,1)
  have "settled_total id ?r = reserved_total id ?r" by (simp add: settled_total_def reserved_total_def fiat_sample_shares fiat_sample_row_facts fiat_sample_prices)
  then obtain y u where "settle_claimed (\<lambda>t. t) id (fiat_sample_choice ''h2'') ''W1'' None ?r
      (t\<lparr>fd_history := claim_rows fr_txHash is_pending (complete_row None) (Some ''W1'') (fd_history t)\<rparr>) = (Inr (True, y), u)"
    by (rule settlement_accepted [OF inv r fiat_sample_ready(3,1,4) fiat_sample_sound [OF t(4)] t(3)])
  then have c: "completeFiatWithdrawal (\<lambda>t. t) id (fiat_sample_choice ''h2'') ''W1'' None id t = (Inr (True, y), u)"
    using complete_of_pending [OF inv r] by simp
  have "processFiatWithdrawal (\<lambda>t. t) id id (\<lambda>_. None) (fiat_sample_choice ''h3'') 9 (usdc_decimal 100000000) fiat_sample_opts id u = (Inl AuditFailed, u)"
    by (rule referral_reward_fails_audit [OF fiat_sample_opening t(1,2) fiat_sample_row_facts(1,2) _ c fiat_sample_shares(1) _ _ t(5), where n = 100000000])
      (simp_all add: fiat_sample_row_facts fiat_sample_shares t(6) usdc_decimal_units del: toExactDecimal.simps)
  with t(1) c show ?thesis by blast
qed

end
