(* ===== verification/Inventory.thy ===== *)
theory Inventory
  imports Ledger_Run
begin

text \<open>
  USDC inventory lots, \<^verbatim>\<open>services/inventoryService.js\<close>: acquisition (which posts to the
  ledger) and consumption (an atomic conditional decrement).

  The database is the ledger plus the two lot tables. An operation reads, then other
  transactions may commit, then it writes: \<open>env\<close> is what they did, so that a lost race
  (a key taken, a remaining quantity gone) is reachable. Lot ids are drawn from the
  table's sequence and are an argument. Quantities are integers in \<open>10\<^sup>-\<^sup>8\<close> units; log
  lines and timestamps are not modelled.
\<close>

section \<open>Tables and errors\<close>

datatype lot_status = OPEN | CONSUMED

record lot =
  lot_id :: nat
  lot_acquisitionKey :: string
  lot_sourceType :: string
  lot_sourceReference :: string
  lot_quantityOriginal :: int
  lot_quantityRemaining :: int
  lot_costBasisGhs :: nat
  lot_acquisitionRate :: "nat option"
  lot_ledgerTxnId :: string
  lot_status :: lot_status

record consumption =
  con_consumptionKey :: string
  con_lotId :: nat
  con_quantity :: int
  con_purpose :: string
  con_sourceReference :: "string option"

record inventory =
  inv_ledger :: ledger
  lots :: "lot list"
  consumptions :: "consumption list"

datatype inventory_error =
    INVENTORY_INVALID_QUANTITY
  | INVENTORY_INVALID_KEY
  | INVENTORY_INVALID_LOT_ID
  | INVENTORY_ACQUISITION_CONFLICT
  | INVENTORY_CONSUMPTION_CONFLICT
  | INVENTORY_LOT_NOT_FOUND
  | INVENTORY_LOT_NOT_OPEN
  | INVENTORY_INSUFFICIENT_REMAINING
  | InventoryLedgerError ledger_error
  | InventoryUniqueViolation

section \<open>Argument checks\<close>

definition exactPositive :: "js_value \<Rightarrow> inventory_error + nat" where
  "exactPositive v =
     (case toExactDecimal v of
        Inl e \<Rightarrow> Inl (InventoryLedgerError e)
      | Inr d \<Rightarrow> if d = 0 then Inl INVENTORY_INVALID_QUANTITY else Inr d)"

definition keyString :: "js_value \<Rightarrow> nat \<Rightarrow> inventory_error + string" where
  "keyString v mx =
     (case v of
        JStr s \<Rightarrow> if js_trim s = [] \<or> length s > mx then Inl INVENTORY_INVALID_KEY else Inr (js_trim s)
      | _ \<Rightarrow> Inl INVENTORY_INVALID_KEY)"

text \<open>\<open>Number.isInteger(lotId) && lotId > 0\<close>, with the integer.\<close>

definition positive_integer :: "js_value \<Rightarrow> nat option" where
  "positive_integer v =
     (case v of
        JNum (NFin False m e) \<Rightarrow>
          (if m = 0 then None
           else if 0 \<le> e then Some (m * 10 ^ nat e)
           else if 10 ^ nat (- e) dvd m then Some (m div 10 ^ nat (- e)) else None)
      | _ \<Rightarrow> None)"

section \<open>Acquisition\<close>

record acquire_params =
  ap_acquisitionKey :: js_value
  ap_sourceType :: js_value
  ap_sourceReference :: js_value
  ap_quantity :: js_value
  ap_costBasisGhs :: js_value
  ap_acquisitionRate :: js_value

record acquisition =
  aq_key :: string
  aq_sourceType :: string
  aq_sourceReference :: string
  aq_quantity :: nat
  aq_cost :: nat
  aq_rate :: "nat option"

definition check_acquisition :: "acquire_params \<Rightarrow> inventory_error + acquisition" where
  "check_acquisition p =
     bind_sum (keyString (ap_acquisitionKey p) 140) (\<lambda>k.
     bind_sum (keyString (ap_sourceType p) 40) (\<lambda>st.
     bind_sum (keyString (ap_sourceReference p) 140) (\<lambda>sr.
     bind_sum (exactPositive (ap_quantity p)) (\<lambda>q.
     bind_sum (exactPositive (ap_costBasisGhs p)) (\<lambda>c.
     bind_sum (if ap_acquisitionRate p = JNull then Inr None
               else bind_sum (exactPositive (ap_acquisitionRate p)) (\<lambda>r. Inr (Some r))) (\<lambda>r.
       Inr \<lparr>aq_key = k, aq_sourceType = st, aq_sourceReference = sr, aq_quantity = q, aq_cost = c, aq_rate = r\<rparr>))))))"

definition assertAcquisitionMatch :: "lot \<Rightarrow> acquisition \<Rightarrow> bool" where
  "assertAcquisitionMatch l a \<longleftrightarrow>
     lot_sourceType l = aq_sourceType a \<and> lot_sourceReference l = aq_sourceReference a \<and>
     lot_quantityOriginal l = int (aq_quantity a) \<and> lot_costBasisGhs l = aq_cost a \<and>
     lot_acquisitionRate l = aq_rate a"

definition acquisition_posting :: "acquisition \<Rightarrow> post_params" where
  "acquisition_posting a =
     \<lparr>pp_idempotencyKey = ''inv:acquire:'' @ aq_key a, pp_entryType = ''INVENTORY_ACQUISITION'',
      pp_description = ''inventory lot '' @ aq_key a @ '': '' @ aq_sourceType a @ '' '' @ aq_sourceReference a,
      pp_lines = [\<lparr>li_account = ''inventory:usdc:lots'', li_debit = JStr (toFixed8 (aq_quantity a)), li_credit = JNull\<rparr>,
                  \<lparr>li_account = ''equity:treasury'', li_debit = JNull, li_credit = JStr (toFixed8 (aq_quantity a))\<rparr>],
      pp_conversion = None, pp_reference = None, pp_userId = None,
      pp_relatedEntity = None, pp_relatedEntityId = None\<rparr>"

definition new_lot :: "nat \<Rightarrow> acquisition \<Rightarrow> string \<Rightarrow> lot" where
  "new_lot i a tid =
     \<lparr>lot_id = i, lot_acquisitionKey = aq_key a, lot_sourceType = aq_sourceType a,
      lot_sourceReference = aq_sourceReference a, lot_quantityOriginal = int (aq_quantity a),
      lot_quantityRemaining = int (aq_quantity a), lot_costBasisGhs = aq_cost a,
      lot_acquisitionRate = aq_rate a, lot_ledgerTxnId = tid, lot_status = OPEN\<rparr>"

type_synonym lot_result = "lot \<times> bool"

definition acquireLot ::
  "(string \<Rightarrow> string) \<Rightarrow> (int \<Rightarrow> int) \<Rightarrow> db_choice \<Rightarrow> nat \<Rightarrow> (inventory \<Rightarrow> inventory) \<Rightarrow> acquire_params \<Rightarrow>
   inventory \<Rightarrow> (inventory_error, lot_result, inventory) outcome" where
  "acquireLot sha rnd ch i env p s =
     (case check_acquisition p of
        Inl e \<Rightarrow> (Inl e, s)
      | Inr a \<Rightarrow>
          (case find_by lot_acquisitionKey (aq_key a) (lots s) of
             Some l \<Rightarrow> (if assertAcquisitionMatch l a then (Inr (l, True), s)
                        else (Inl INVENTORY_ACQUISITION_CONFLICT, s))
           | None \<Rightarrow>
               (let s' = env s in
                case post sha rnd ch True (acquisition_posting a) (inv_ledger s') of
                  (Inl e, L) \<Rightarrow> (Inl (InventoryLedgerError e), s'\<lparr>inv_ledger := L\<rparr>)
                | (Inr posted, L) \<Rightarrow>
                    (if aq_key a \<in> lot_acquisitionKey ` set (lots s')
                     then (Inl InventoryUniqueViolation, s'\<lparr>inv_ledger := L\<rparr>)
                     else let l = new_lot i a (lt_id (pr_transaction posted)) in
                       (Inr (l, False), s'\<lparr>inv_ledger := L, lots := lots s' @ [l]\<rparr>)))))"

section \<open>Consumption\<close>

record consume_params =
  cp_consumptionKey :: js_value
  cp_purpose :: js_value
  cp_lotId :: js_value
  cp_quantity :: js_value
  cp_sourceReference :: js_value

definition check_consumption :: "consume_params \<Rightarrow> inventory_error + consumption" where
  "check_consumption p =
     bind_sum (keyString (cp_consumptionKey p) 140) (\<lambda>k.
     bind_sum (keyString (cp_purpose p) 40) (\<lambda>pu.
     bind_sum (case positive_integer (cp_lotId p) of None \<Rightarrow> Inl INVENTORY_INVALID_LOT_ID | Some i \<Rightarrow> Inr i) (\<lambda>i.
     bind_sum (exactPositive (cp_quantity p)) (\<lambda>q.
     bind_sum (if cp_sourceReference p = JNull then Inr None
               else bind_sum (keyString (cp_sourceReference p) 140) (\<lambda>r. Inr (Some r))) (\<lambda>sr.
       Inr \<lparr>con_consumptionKey = k, con_lotId = i, con_quantity = int q, con_purpose = pu,
            con_sourceReference = sr\<rparr>)))))"

definition assertConsumptionMatch :: "consumption \<Rightarrow> consumption \<Rightarrow> bool" where
  "assertConsumptionMatch c d \<longleftrightarrow>
     con_lotId c = con_lotId d \<and> con_quantity c = con_quantity d \<and> con_purpose c = con_purpose d \<and>
     con_sourceReference c = con_sourceReference d"

text \<open>The atomic claim \<open>updateMany\<close> and the closing of an exhausted lot.\<close>

definition claim_lot :: "nat \<Rightarrow> int \<Rightarrow> lot list \<Rightarrow> lot list" where
  "claim_lot i q =
     update_by (\<lambda>l. lot_id l = i \<and> (lot_status l = OPEN \<and> q \<le> lot_quantityRemaining l))
       (\<lambda>l. l\<lparr>lot_quantityRemaining := lot_quantityRemaining l - q\<rparr>)"

definition claim_count :: "nat \<Rightarrow> int \<Rightarrow> lot list \<Rightarrow> nat" where
  "claim_count i q = count_by (\<lambda>l. lot_id l = i \<and> (lot_status l = OPEN \<and> q \<le> lot_quantityRemaining l))"

definition close_exhausted :: "nat \<Rightarrow> lot list \<Rightarrow> lot list" where
  "close_exhausted i =
     update_by (\<lambda>l. lot_id l = i \<and> lot_quantityRemaining l = 0) (\<lambda>l. l\<lparr>lot_status := CONSUMED\<rparr>)"

record consume_result =
  cres_consumption :: consumption
  cres_lot :: "lot option"
  cres_replayed :: bool

definition consumeLot ::
  "(inventory \<Rightarrow> inventory) \<Rightarrow> consume_params \<Rightarrow> inventory \<Rightarrow>
   (inventory_error, consume_result, inventory) outcome" where
  "consumeLot env p s =
     (case check_consumption p of
        Inl e \<Rightarrow> (Inl e, s)
      | Inr c \<Rightarrow>
          (case find_by con_consumptionKey (con_consumptionKey c) (consumptions s) of
             Some x \<Rightarrow>
               (if assertConsumptionMatch x c
                then (Inr \<lparr>cres_consumption = x, cres_lot = find_by lot_id (con_lotId c) (lots s),
                           cres_replayed = True\<rparr>, s)
                else (Inl INVENTORY_CONSUMPTION_CONFLICT, s))
           | None \<Rightarrow>
               (let s' = env s; i = con_lotId c; q = con_quantity c in
                if claim_count i q (lots s') = 0
                then (case find_by lot_id i (lots s') of
                        None \<Rightarrow> (Inl INVENTORY_LOT_NOT_FOUND, s')
                      | Some l \<Rightarrow>
                          (if lot_status l \<noteq> OPEN then (Inl INVENTORY_LOT_NOT_OPEN, s')
                           else (Inl INVENTORY_INSUFFICIENT_REMAINING, s')))
                else let ls = close_exhausted i (claim_lot i q (lots s')) in
                  if con_consumptionKey c \<in> con_consumptionKey ` set (consumptions s')
                  then (Inl InventoryUniqueViolation, s'\<lparr>lots := ls\<rparr>)
                  else (Inr \<lparr>cres_consumption = c, cres_lot = find_by lot_id i ls, cres_replayed = False\<rparr>,
                        s'\<lparr>lots := ls, consumptions := consumptions s' @ [c]\<rparr>))))"

section \<open>The invariant of the substrate\<close>

definition lot_consumed :: "nat \<Rightarrow> consumption list \<Rightarrow> int" where
  "lot_consumed i cs = sum_rows (\<lambda>c. if con_lotId c = i then con_quantity c else 0) cs"

definition lot_ok :: "consumption list \<Rightarrow> lot \<Rightarrow> bool" where
  "lot_ok cs l \<longleftrightarrow>
     0 < lot_quantityOriginal l \<and> 0 \<le> lot_quantityRemaining l \<and>
     lot_quantityRemaining l + lot_consumed (lot_id l) cs = lot_quantityOriginal l \<and>
     (lot_status l = CONSUMED \<longleftrightarrow> lot_quantityRemaining l = 0)"

definition lot_tables_ok :: "lot list \<Rightarrow> consumption list \<Rightarrow> bool" where
  "lot_tables_ok ls cs \<longleftrightarrow>
     distinct (map lot_id ls) \<and> distinct (map lot_acquisitionKey ls) \<and>
     distinct (map con_consumptionKey cs) \<and> (\<forall>l \<in> set ls. lot_ok cs l) \<and>
     (\<forall>c \<in> set cs. 0 < con_quantity c \<and> con_lotId c \<in> lot_id ` set ls)"

definition acquire_key :: "lot \<Rightarrow> string" where
  "acquire_key l = ''inv:acquire:'' @ lot_acquisitionKey l"

definition acquire_keys :: "string set" where
  "acquire_keys = range (\<lambda>k. ''inv:acquire:'' @ k)"

definition inventory_inv :: "inventory \<Rightarrow> bool" where
  "inventory_inv s \<longleftrightarrow>
     lot_tables_ok (lots s) (consumptions s) \<and>
     kp.mirrored (\<lambda>k. k \<in> acquire_keys) ''inventory:usdc:lots'' acquire_keys acquire_key lot_quantityOriginal (lots s) (inv_ledger s)"

lemma exactPositive_pos: "exactPositive v = Inr n \<Longrightarrow> 0 < n"
  by (auto simp: exactPositive_def split: sum.splits if_splits)

lemma check_acquisition_pos: "check_acquisition p = Inr a \<Longrightarrow> 0 < aq_quantity a"
  by (auto simp: check_acquisition_def dest: exactPositive_pos split: if_splits)

lemma check_consumption_pos: "check_consumption p = Inr c \<Longrightarrow> 0 < con_quantity c"
  by (auto simp: check_consumption_def dest: exactPositive_pos split: if_splits)

text \<open>The acquisition posting debits the lots account by the acquired quantity.\<close>

lemma acquisition_moves:
  assumes "post sha rnd ch True (acquisition_posting a) L = (Inr res, L')"
  shows "posting_moves rnd (acquisition_posting a) ''inventory:usdc:lots'' = int (aq_quantity a)"
  using transfer_moves [OF assms, of "''inventory:usdc:lots''" "JStr (toFixed8 (aq_quantity a))" "''equity:treasury''"]
  by (simp add: acquisition_posting_def toFixed8_literal)

lemma lot_consumed_other: "i \<notin> con_lotId ` set cs \<Longrightarrow> lot_consumed i cs = 0"
  by (induction cs) (auto simp: lot_consumed_def)

lemma lot_ok_new: "0 < aq_quantity a \<Longrightarrow> i \<notin> con_lotId ` set cs \<Longrightarrow> lot_ok cs (new_lot i a t)"
  by (simp add: lot_ok_def new_lot_def lot_consumed_other)

lemma lot_tables_acquire:
  assumes "lot_tables_ok ls cs" and "0 < aq_quantity a" and "i \<notin> lot_id ` set ls"
    and "aq_key a \<notin> lot_acquisitionKey ` set ls"
  shows "lot_tables_ok (ls @ [new_lot i a t]) cs"
proof -
  have "lot_ok cs (new_lot i a t)"
    using assms(1,3) by (intro lot_ok_new [OF assms(2)]) (auto simp: lot_tables_ok_def)
  then show ?thesis
    using assms by (auto simp: lot_tables_ok_def) (auto simp: new_lot_def)
qed

text \<open>The claim and the closing, seen as one update of the claimed lot.\<close>

definition consumed_lot :: "int \<Rightarrow> lot \<Rightarrow> lot" where
  "consumed_lot q l =
     l\<lparr>lot_quantityRemaining := lot_quantityRemaining l - q,
       lot_status := (if lot_quantityRemaining l = q then CONSUMED else lot_status l)\<rparr>"

lemma claim_count_found:
  assumes "distinct (map lot_id ls)" and "claim_count i q ls \<noteq> 0"
  obtains l where "find_by lot_id i ls = Some l" and "lot_status l = OPEN" and "q \<le> lot_quantityRemaining l"
  using assms count_by_key [OF assms(1), of i "\<lambda>l. lot_status l = OPEN \<and> q \<le> lot_quantityRemaining l"]
  by (auto simp: claim_count_def split: option.splits if_splits)

lemma claim_close:
  assumes "distinct (map lot_id ls)" and "find_by lot_id i ls = Some l"
    and "lot_status l = OPEN" and "q \<le> lot_quantityRemaining l"
  shows "close_exhausted i (claim_lot i q ls) = map (\<lambda>x. if lot_id x = i then consumed_lot q x else x) ls"
proof -
  have "x = l" if "x \<in> set ls" "lot_id x = i" for x
    using find_by_unique [OF assms(1,2)] that by blast
  then show ?thesis
    using assms(3,4) by (auto simp: close_exhausted_def claim_lot_def update_by_def consumed_lot_def)
qed

lemma lot_tables_consume:
  assumes ok: "lot_tables_ok ls cs" and "0 < con_quantity c"
    and f: "find_by lot_id (con_lotId c) ls = Some l" "lot_status l = OPEN" "con_quantity c \<le> lot_quantityRemaining l"
    and "con_consumptionKey c \<notin> con_consumptionKey ` set cs"
  shows "lot_tables_ok (map (\<lambda>x. if lot_id x = con_lotId c then consumed_lot (con_quantity c) x else x) ls) (cs @ [c])"
proof -
  define f where "f = (\<lambda>x. if lot_id x = con_lotId c then consumed_lot (con_quantity c) x else x)"
  have id: "lot_id (f x) = lot_id x" "lot_acquisitionKey (f x) = lot_acquisitionKey x" for x
    by (simp_all add: f_def consumed_lot_def)
  have "lot_ok (cs @ [c]) (f x)" if x: "x \<in> set ls" for x
  proof -
    have okx: "lot_ok cs x" using ok x by (simp add: lot_tables_ok_def)
    have "x = l" if "lot_id x = con_lotId c"
      using find_by_unique [OF _ f(1) x that] ok by (simp add: lot_tables_ok_def)
    with okx f(2,3) show ?thesis
      by (auto simp: f_def lot_ok_def consumed_lot_def lot_consumed_def)
  qed
  then have "lot_tables_ok (map f ls) (cs @ [c])"
    using ok assms(2,6) find_by_Some [OF f(1)] by (auto simp: lot_tables_ok_def id comp_def image_iff intro: bexI [of _ l])
  then show ?thesis by (simp add: f_def)
qed

lemma originals_kept:
  "sum_rows lot_quantityOriginal (map (\<lambda>x. if lot_id x = i then consumed_lot q x else x) ls) =
   sum_rows lot_quantityOriginal ls"
  by (induction ls) (auto simp: consumed_lot_def)

section \<open>Every operation keeps the invariant\<close>

lemma acquireLot_cases:
  assumes "acquireLot sha rnd ch i env p s = (Inr (l, replayed), s')"
  obtains (replay) "s' = s" "replayed" "l \<in> set (lots s)"
  | (fresh) a posted L where "check_acquisition p = Inr a" "\<not> replayed"
      "post sha rnd ch True (acquisition_posting a) (inv_ledger (env s)) = (Inr posted, L)"
      "aq_key a \<notin> lot_acquisitionKey ` set (lots (env s))"
      "l = new_lot i a (lt_id (pr_transaction posted))"
      "s' = (env s)\<lparr>inv_ledger := L, lots := lots (env s) @ [l]\<rparr>"
proof -
  obtain a where a: "check_acquisition p = Inr a"
    using assms by (auto simp: acquireLot_def split: sum.splits)
  show thesis
  proof (cases "find_by lot_acquisitionKey (aq_key a) (lots s)")
    case (Some x)
    then show thesis using assms a replay find_by_Some [OF Some] by (auto simp: acquireLot_def split: if_splits)
  next
    case None
    obtain posted L where
      p: "post sha rnd ch True (acquisition_posting a) (inv_ledger (env s)) = (Inr posted, L)"
      using assms a None by (auto simp: acquireLot_def Let_def split: sum.splits prod.splits)
    with assms a None show thesis
      by (intro fresh [OF a _ p]) (auto simp: acquireLot_def Let_def split: if_splits)
  qed
qed

lemma acquireLot_inv:
  assumes "acquireLot sha rnd ch i env p s = (Inr (l, replayed), s')" and "inventory_inv s"
    and env: "inventory_inv (env s)" and fresh: "i \<notin> lot_id ` set (lots (env s))"
  shows "inventory_inv s'"
  using assms(1)
proof (cases rule: acquireLot_cases)
  case replay
  with assms(2) show ?thesis by simp
next
  case (fresh a posted L)
  let ?l = "new_lot i a (lt_id (pr_transaction posted))"
  have key: "acquire_key ?l = pp_idempotencyKey (acquisition_posting a)" "acquire_key ?l \<in> acquire_keys"
    by (simp_all add: acquire_key_def acquire_keys_def new_lot_def acquisition_posting_def)
  have "kp.mirrored (\<lambda>k. k \<in> acquire_keys) ''inventory:usdc:lots'' acquire_keys acquire_key lot_quantityOriginal (lots (env s) @ [?l]) L"
  proof (rule kp.book_mirrored [OF _ fresh(3)])
    show "kp.mirrored (\<lambda>k. k \<in> acquire_keys) ''inventory:usdc:lots'' acquire_keys acquire_key lot_quantityOriginal (lots (env s)) (inv_ledger (env s))"
      using env by (simp add: inventory_inv_def)
    show "(if pp_idempotencyKey (acquisition_posting a) \<in> acquire_keys
        then posting_moves rnd (acquisition_posting a) ''inventory:usdc:lots'' else 0) = lot_quantityOriginal ?l"
      using acquisition_moves [OF fresh(3)] key by (simp add: new_lot_def)
    show "acquire_key ?l \<in> acquire_keys" by (rule key(2))
    show "acquire_key ?l \<notin> acquire_key ` set (lots (env s))"
      using fresh(4) by (auto simp: acquire_key_def new_lot_def)
  qed (use key in simp_all)
  moreover have "lot_tables_ok (lots (env s) @ [?l]) (consumptions (env s))"
    using env fresh(4) \<open>i \<notin> _\<close> check_acquisition_pos [OF fresh(1)]
    by (intro lot_tables_acquire) (simp_all add: inventory_inv_def)
  ultimately show ?thesis by (simp add: inventory_inv_def fresh(5,6))
qed

lemma consumeLot_cases:
  assumes "consumeLot env p s = (Inr r, s')" and "distinct (map lot_id (lots (env s)))"
  obtains (replay) "s' = s" "cres_replayed r"
  | (fresh) c l where "check_consumption p = Inr c" "\<not> cres_replayed r" "cres_consumption r = c"
      "find_by lot_id (con_lotId c) (lots (env s)) = Some l" "lot_status l = OPEN"
      "con_quantity c \<le> lot_quantityRemaining l"
      "con_consumptionKey c \<notin> con_consumptionKey ` set (consumptions (env s))"
      "s' = (env s)\<lparr>lots := map (\<lambda>x. if lot_id x = con_lotId c then consumed_lot (con_quantity c) x else x) (lots (env s)),
                     consumptions := consumptions (env s) @ [c]\<rparr>"
proof -
  obtain c where c: "check_consumption p = Inr c"
    using assms(1) by (auto simp: consumeLot_def split: sum.splits)
  show thesis
  proof (cases "find_by con_consumptionKey (con_consumptionKey c) (consumptions s)")
    case (Some x)
    then show thesis using assms(1) c replay by (auto simp: consumeLot_def split: if_splits)
  next
    case None
    have n: "claim_count (con_lotId c) (con_quantity c) (lots (env s)) \<noteq> 0"
      using assms(1) c None by (auto simp: consumeLot_def Let_def split: option.splits if_splits)
    obtain l where l: "find_by lot_id (con_lotId c) (lots (env s)) = Some l" "lot_status l = OPEN"
      "con_quantity c \<le> lot_quantityRemaining l"
      using claim_count_found [OF assms(2) n] .
    show thesis
      using assms(1) c None n claim_close [OF assms(2) l] fresh [OF c _ _ l]
      by (auto simp: consumeLot_def Let_def split: if_splits)
  qed
qed

lemma consumeLot_inv:
  assumes "consumeLot env p s = (Inr r, s')" and "inventory_inv s" and env: "inventory_inv (env s)"
  shows "inventory_inv s'"
proof -
  have "distinct (map lot_id (lots (env s)))" using env by (simp add: inventory_inv_def lot_tables_ok_def)
  from assms(1) this show ?thesis
  proof (cases rule: consumeLot_cases)
    case replay
    with assms(2) show ?thesis by simp
  next
    case (fresh c l)
    let ?f = "\<lambda>x. if lot_id x = con_lotId c then consumed_lot (con_quantity c) x else x"
    have "acquire_key (?f x) = acquire_key x" for x by (simp add: consumed_lot_def acquire_key_def)
    then have "acquire_key ` set (map ?f (lots (env s))) = acquire_key ` set (lots (env s))"
      by (simp only: list.set_map image_image)
    then have "kp.mirrored (\<lambda>k. k \<in> acquire_keys) ''inventory:usdc:lots'' acquire_keys acquire_key lot_quantityOriginal
        (map ?f (lots (env s))) (inv_ledger (env s))"
      using env unfolding inventory_inv_def kp.mirrored_def originals_kept by blast
    moreover have "lot_tables_ok (map ?f (lots (env s))) (consumptions (env s) @ [c])"
      using env fresh check_consumption_pos [OF fresh(1)]
      by (intro lot_tables_consume) (simp_all add: inventory_inv_def)
    ultimately show ?thesis by (simp add: inventory_inv_def fresh(8))
  qed
qed

section \<open>Interleaved histories\<close>

text \<open>
  A history interleaves the two operations, each in its own transaction, with each other and
  with every other posting to the ledger. During an operation other transactions may commit
  (\<open>env\<close>), themselves a history. Other writers of the ledger may post
  any lines, on the lots account too (Model B settlements credit it), under keys outside the
  \<open>inv:acquire:\<close> key space.
\<close>

inductive inventory_run :: "(string \<Rightarrow> string) \<Rightarrow> (int \<Rightarrow> int) \<Rightarrow> inventory \<Rightarrow> inventory \<Rightarrow> bool"
  for sha rnd where
  none: "inventory_run sha rnd s s"
| acquire: "inventory_run sha rnd s s1 \<Longrightarrow> inventory_run sha rnd s1 (env s1) \<Longrightarrow>
    i \<notin> lot_id ` set (lots (env s1)) \<Longrightarrow>
    transaction env (acquireLot sha rnd ch i env p) s1 = (r, s2) \<Longrightarrow> inventory_run sha rnd s s2"
| consume: "inventory_run sha rnd s s1 \<Longrightarrow> inventory_run sha rnd s1 (env s1) \<Longrightarrow>
    transaction env (consumeLot env q) s1 = (r', s2) \<Longrightarrow> inventory_run sha rnd s s2"
| posting: "inventory_run sha rnd s s1 \<Longrightarrow> pp_idempotencyKey x \<notin> acquire_keys \<Longrightarrow>
    post sha rnd ch True x (inv_ledger s1) = (Inr res, L) \<Longrightarrow> inventory_run sha rnd s (s1\<lparr>inv_ledger := L\<rparr>)"

lemma inventory_run_inv: "inventory_run sha rnd s s' \<Longrightarrow> inventory_inv s \<Longrightarrow> inventory_inv s'"
proof (induction rule: inventory_run.induct)
  case (acquire s s1 env i ch p r s2)
  then show ?case
    by (cases r) (auto simp: transaction_Inl intro: acquireLot_inv)
next
  case (consume s s1 env q r' s2)
  then show ?case
    by (cases r') (auto simp: transaction_Inl intro: consumeLot_inv)
next
  case (posting s s1 x ch res L)
  then show ?case
    by (auto simp: inventory_inv_def intro: kp.book_elsewhere [OF _ posting.hyps(3) posting.hyps(2)])
qed simp

definition empty_inventory :: inventory where
  "empty_inventory = \<lparr>inv_ledger = empty_ledger, lots = [], consumptions = []\<rparr>"

lemma empty_inventory_inv [simp]: "inventory_inv empty_inventory"
  by (simp add: inventory_inv_def empty_inventory_def lot_tables_ok_def kp.mirrored_def empty_ledger_def
      keyed_net_def booked_key_def)

section \<open>A sample acquisition and consumption\<close>

definition sample_acquire :: acquire_params where
  "sample_acquire =
     \<lparr>ap_acquisitionKey = JStr ''k1'', ap_sourceType = JStr ''GATEWAY_OTC'', ap_sourceReference = JStr ''otc-1'',
      ap_quantity = JBig 10, ap_costBasisGhs = JBig 120, ap_acquisitionRate = JNull\<rparr>"

definition sample_acquisition :: acquisition where
  "sample_acquisition =
     \<lparr>aq_key = ''k1'', aq_sourceType = ''GATEWAY_OTC'', aq_sourceReference = ''otc-1'',
      aq_quantity = 1000000000, aq_cost = 12000000000, aq_rate = None\<rparr>"

definition sample_consume :: consume_params where
  "sample_consume =
     \<lparr>cp_consumptionKey = JStr ''c1'', cp_purpose = JStr ''SETTLEMENT'', cp_lotId = JNum (NFin False 1 0),
      cp_quantity = JBig 10, cp_sourceReference = JNull\<rparr>"

lemma sample_checks:
  "check_acquisition sample_acquire = Inr sample_acquisition"
  "check_consumption sample_consume =
     Inr \<lparr>con_consumptionKey = ''c1'', con_lotId = 1, con_quantity = 1000000000, con_purpose = ''SETTLEMENT'',
          con_sourceReference = None\<rparr>"
  by (simp_all add: check_acquisition_def sample_acquire_def sample_acquisition_def check_consumption_def
      sample_consume_def keyString_def js_trim_def js_space_def exactPositive_def positive_integer_def)

lemma classify_inventory:
  "classifyAccountCode ''inventory:usdc:lots'' = Inr (CANONICAL, spec_of ASSET DEBIT ''USDC'' None)"
  "classifyAccountCode ''equity:treasury'' = Inr (CANONICAL, spec_of EQUITY CREDIT ''USDC'' None)"
  by (simp_all add: classifyAccountCode_def user_account_match_def escrow_account_match_def between_def
      CANONICAL_ACCOUNTS_def)

lemma sample_posts:
  obtains posted L where
    "post id id (calm ''t1'') True (acquisition_posting sample_acquisition) empty_ledger = (Inr posted, L)"
proof -
  let ?ls = "[\<lparr>nl_account = ''inventory:usdc:lots'', nl_debit = 1000000000, nl_credit = 0\<rparr>,
               \<lparr>nl_account = ''equity:treasury'', nl_debit = 0, nl_credit = 1000000000\<rparr>]"
  have q: "toExactDecimal (JStr (toFixed8 1000000000)) = Inr 1000000000" by (rule toExactDecimal_toFixed8)
  have "validate_posting id (acquisition_posting sample_acquisition) = Inr (?ls, None)"
    by (simp add: acquisition_posting_def sample_acquisition_def validate_posting_def check_header_def ENTRY_TYPES_def
        js_trim_def js_space_def normalize_line_def optional_quantity_def check_conversion_def check_assets_def
        asset_of_def classify_inventory spec_of_def first_occurrences_def check_balance_def decimal_sum_def q
        del: toExactDecimal.simps)
  then have "\<exists>posted L. post id id (calm ''t1'') True (acquisition_posting sample_acquisition) empty_ledger = (Inr posted, L)"
    by (simp add: post_def first_occurrences_def ensureAccount_def classify_inventory empty_ledger_def calm_def
        commit_posting_def conversion_conflict_def Let_def acquisition_posting_def)
  then show thesis using that by blast
qed

lemma sample_acquired:
  obtains l s where "inventory_run id id empty_inventory s" and "lots s = [l]" and "consumptions s = []"
    and "l = new_lot 1 sample_acquisition (lot_ledgerTxnId l)"
proof -
  obtain posted L where p: "post id id (calm ''t1'') True (acquisition_posting sample_acquisition) empty_ledger = (Inr posted, L)"
    by (rule sample_posts)
  let ?l = "new_lot 1 sample_acquisition (lt_id (pr_transaction posted))"
  let ?s = "empty_inventory\<lparr>inv_ledger := L, lots := [?l]\<rparr>"
  have a: "acquireLot id id (calm ''t1'') 1 id sample_acquire empty_inventory = (Inr (?l, False), ?s)"
    using p by (simp add: acquireLot_def sample_checks empty_inventory_def sample_acquisition_def Let_def)
  have "inventory_run id id empty_inventory ?s"
    by (rule inventory_run.acquire [OF inventory_run.none, where env = id and i = 1 and ch = "calm ''t1''" and p = sample_acquire
          and r = "Inr (?l, False)"])
      (use a in \<open>simp_all add: inventory_run.none empty_inventory_def\<close>)
  then show thesis
    by (rule that [where l = ?l]) (simp_all add: empty_inventory_def new_lot_def)
qed

lemma sample_consumed:
  obtains s0 r s where "consumeLot id sample_consume s0 = (Inr r, s)" and "length (consumptions s) = 1"
    and "con_consumptionKey (cres_consumption r) = ''c1''" and "con_quantity (cres_consumption r) = 1000000000"
    and "inventory_run id id empty_inventory s" and "length (lots s) = 1"
proof -
  obtain l s where s: "inventory_run id id empty_inventory s" "lots s = [l]" "consumptions s = []"
    and l: "l = new_lot 1 sample_acquisition (lot_ledgerTxnId l)"
    by (rule sample_acquired)
  have "lot_id l = 1" "lot_status l = OPEN" "lot_quantityRemaining l = 1000000000"
    by (subst l, simp add: new_lot_def sample_acquisition_def)+
  with s have "\<exists>r s2. consumeLot id sample_consume s = (Inr r, s2) \<and> length (lots s2) = 1 \<and> length (consumptions s2) = 1 \<and>
      con_consumptionKey (cres_consumption r) = ''c1'' \<and> con_quantity (cres_consumption r) = 1000000000"
    by (simp add: consumeLot_def sample_checks claim_count_def close_exhausted_def claim_lot_def)
  then obtain r s2 where c: "consumeLot id sample_consume s = (Inr r, s2)" and "length (lots s2) = 1"
    "length (consumptions s2) = 1" "con_consumptionKey (cres_consumption r) = ''c1''"
    "con_quantity (cres_consumption r) = 1000000000"
    by blast
  then show thesis
    using that [OF c] inventory_run.consume [OF s(1), of id sample_consume "Inr r" s2] by (simp add: inventory_run.none)
qed

section \<open>Consumption records persist\<close>

lemma consumeLot_recorded:
  "consumeLot env p s = (Inr r, s') \<Longrightarrow>
   find_by con_consumptionKey (con_consumptionKey (cres_consumption r)) (consumptions s') = Some (cres_consumption r)"
  by (auto simp: consumeLot_def Let_def find_by_None [symmetric] split: sum.splits option.splits if_splits)
    (metis find_by_SomeD)

lemma consumeLot_appends:
  "consumeLot env p s = (Inr r, s') \<Longrightarrow> s' = s \<or> (\<exists>c. consumptions s' = consumptions (env s) @ [c])"
  by (auto simp: consumeLot_def Let_def split: sum.splits option.splits if_splits)

lemma acquireLot_appends:
  assumes "acquireLot sha rnd ch i env p s = (Inr r, s')"
  shows "s' = s \<or> consumptions s' = consumptions (env s)"
proof -
  obtain l b where "r = (l, b)" by fastforce
  with assms have "acquireLot sha rnd ch i env p s = (Inr (l, b), s')" by simp
  then show ?thesis by (cases rule: acquireLot_cases) auto
qed

lemma inventory_run_consumptions:
  "inventory_run sha rnd s s' \<Longrightarrow> \<exists>zs. consumptions s' = consumptions s @ zs"
proof (induction rule: inventory_run.induct)
  case (acquire s s1 env i ch p r s2)
  then show ?case
    by (cases r) (auto simp: transaction_Inl dest!: acquireLot_appends)
next
  case (consume s s1 env q r' s2)
  then show ?case
    by (cases r') (auto simp: transaction_Inl dest!: consumeLot_appends)
qed auto

section \<open>Properties\<close>

text \<open>C7: The lot substrate accounts for every unit, over all interleavings with each other and with
  any other postings. In every reachable state the ledger balance of \<open>inventory:usdc:lots\<close> is the
  sum of the original lot quantities plus exactly what the other services posted to it; a lot's remaining
  quantity is never negative and is its original quantity less exactly what its recorded consumptions
  took, so no quantity is allocated twice; and a lot is closed exactly when it is exhausted.\<close>

theorem inventory_accounts_for_every_unit:
  assumes "inventory_run sha rnd empty_inventory s"
  shows "account_net ''inventory:usdc:lots'' (inv_ledger s) =
      sum_rows lot_quantityOriginal (lots s) + keyed_net (\<lambda>k. k \<notin> acquire_keys) ''inventory:usdc:lots'' (inv_ledger s) \<and>
    (\<forall>l \<in> set (lots s). 0 \<le> lot_quantityRemaining l \<and>
       lot_quantityRemaining l + lot_consumed (lot_id l) (consumptions s) = lot_quantityOriginal l \<and>
       (lot_status l = CONSUMED \<longleftrightarrow> lot_quantityRemaining l = 0))"
proof -
  have "inventory_inv s" using inventory_run_inv [OF assms] by simp
  then show ?thesis
    using keyed_net_split [of "''inventory:usdc:lots''" "inv_ledger s" "\<lambda>k. k \<in> acquire_keys"]
    by (simp add: inventory_inv_def kp.mirrored_def lot_tables_ok_def lot_ok_def)
qed

theorem inventory_accounts_for_every_unit_witness:
  "\<exists>s :: inventory. length (lots s) = 1 \<and> length (consumptions s) = 1 \<and>
     account_net ''inventory:usdc:lots'' (inv_ledger s) =
       sum_rows lot_quantityOriginal (lots s) + keyed_net (\<lambda>k. k \<notin> acquire_keys) ''inventory:usdc:lots'' (inv_ledger s)"
proof -
  obtain s where "inventory_run id id empty_inventory s" "length (lots s) = 1" "length (consumptions s) = 1"
    using sample_consumed by metis
  with inventory_accounts_for_every_unit [OF this(1)] show ?thesis by blast
qed

text \<open>Consumption is exactly once per key. After a consumption has committed, and whatever
  history follows, the same request returns the recorded consumption and changes nothing,
  and a request that reuses its key with another lot, quantity, purpose or reference is
  refused as a conflict.\<close>

theorem consumeLot_exactly_once:
  assumes "consumeLot env p s = (Inr r, s1)" and "inventory_run sha rnd s1 s2"
    and "check_consumption q = Inr c" and "con_consumptionKey c = con_consumptionKey (cres_consumption r)"
  shows "consumeLot env' q s2 =
    (if con_lotId c = con_lotId (cres_consumption r) \<and> con_quantity c = con_quantity (cres_consumption r) \<and>
        con_purpose c = con_purpose (cres_consumption r) \<and>
        con_sourceReference c = con_sourceReference (cres_consumption r)
     then Inr \<lparr>cres_consumption = cres_consumption r, cres_lot = find_by lot_id (con_lotId c) (lots s2), cres_replayed = True\<rparr>
     else Inl INVENTORY_CONSUMPTION_CONFLICT, s2)"
proof -
  have "find_by con_consumptionKey (con_consumptionKey c) (consumptions s2) = Some (cres_consumption r)"
    using consumeLot_recorded [OF assms(1)] inventory_run_consumptions [OF assms(2)] assms(4) by auto
  then show ?thesis
    using assms(3) by (auto simp: consumeLot_def assertConsumptionMatch_def)
qed

theorem consumeLot_exactly_once_witness:
  "\<exists>s. length (consumptions s) = 1 \<and> fst (consumeLot id (sample_consume\<lparr>cp_quantity := JBig 3\<rparr>) s) = Inl INVENTORY_CONSUMPTION_CONFLICT"
proof -
  obtain s0 r s where c: "consumeLot id sample_consume s0 = (Inr r, s)" and "length (consumptions s) = 1"
    and r: "con_consumptionKey (cres_consumption r) = ''c1''" "con_quantity (cres_consumption r) = 1000000000"
    by (rule sample_consumed)
  have q: "check_consumption (sample_consume\<lparr>cp_quantity := JBig 3\<rparr>) =
     Inr \<lparr>con_consumptionKey = ''c1'', con_lotId = 1, con_quantity = 300000000, con_purpose = ''SETTLEMENT'',
          con_sourceReference = None\<rparr>"
    by (simp add: check_consumption_def sample_consume_def keyString_def js_trim_def js_space_def exactPositive_def
        positive_integer_def)
  show ?thesis
    using consumeLot_exactly_once [OF c inventory_run.none q, of id] r \<open>length (consumptions s) = 1\<close>
    by (intro exI [of _ s]) simp
qed

text \<open>Acquisition keys of 129 to 140 characters. \<open>acquireLot\<close> accepts a key of up to 140
  characters, but the ledger key it derives has twelve more and the ledger's limit is 140, so
  every first acquisition under such a key fails with the ledger's key error.\<close>

theorem acquireLot_long_key_rejected:
  assumes "check_acquisition p = Inr a" and "128 < length (aq_key a)"
    and "find_by lot_acquisitionKey (aq_key a) (lots s) = None"
  shows "fst (acquireLot sha rnd ch i env p s) = Inl (InventoryLedgerError LEDGER_IDEMPOTENCY_KEY_REQUIRED)"
proof -
  have "check_header (acquisition_posting a) = Some LEDGER_IDEMPOTENCY_KEY_REQUIRED"
    using assms(2) by (simp add: check_header_def acquisition_posting_def)
  then show ?thesis
    using assms(1,3) by (simp add: acquireLot_def post_def validate_posting_def)
qed

lemma trim_same_char: "\<not> js_space c \<Longrightarrow> js_trim (replicate n c) = replicate n c"
  by (rule dropWhile_space_digits) (simp add: list_all_iff)

theorem acquireLot_long_key_rejected_witness:
  "fst (acquireLot id id (calm ''t1'') 1 id (sample_acquire\<lparr>ap_acquisitionKey := JStr (replicate 140 (CHR ''k''))\<rparr>)
     empty_inventory) = Inl (InventoryLedgerError LEDGER_IDEMPOTENCY_KEY_REQUIRED)"
proof -
  have "check_acquisition (sample_acquire\<lparr>ap_acquisitionKey := JStr (replicate 140 (CHR ''k''))\<rparr>) =
      Inr (sample_acquisition\<lparr>aq_key := replicate 140 (CHR ''k'')\<rparr>)"
    using sample_checks(1) trim_same_char [of "CHR ''k''" 140]
    by (simp add: check_acquisition_def sample_acquire_def sample_acquisition_def keyString_def js_space_def)
  then show ?thesis
    by (rule acquireLot_long_key_rejected) (simp_all add: empty_inventory_def)
qed

end
