(* ===== verification/Liquidity_Authority.thy ===== *)
theory Liquidity_Authority
  imports Liquidity_Receipts Liquidity_Reservations
begin

text \<open>
  The liquidity authority as a whole (\<^verbatim>\<open>src/services/fiatLiquidityService.js\<close>): the
  reconciliation report and the summary, the interleaved histories of all its operations, and
  the properties of the authority over those histories.

  \<open>exec\<close> runs one call as its callers mount it: observations on the root client, so that
  what they write survives an error; the financial operations in a transaction that rolls
  back when they throw; the payout transitions through the \<open>...IfRecorded\<close> wrappers. In a
  history, \<open>env\<close> is itself a history: any calls may commit while one call runs. Deposits
  and quotes belong to other services and change freely.
\<close>

section \<open>Reconciliation\<close>

record discrepancy =
  dc_entityType :: string
  dc_entityId :: string
  dc_reference :: "string option"
  dc_reason :: string
  dc_buckets :: "string list"

definition discrepancy_of :: "string \<Rightarrow> string \<Rightarrow> string option \<Rightarrow> string \<Rightarrow> discrepancy" where
  "discrepancy_of t i ref reason =
     \<lparr>dc_entityType = t, dc_entityId = i, dc_reference = ref, dc_reason = reason, dc_buckets = []\<rparr>"

definition thIdByHash :: "liquidity \<Rightarrow> string \<Rightarrow> string option" where
  "thIdByHash s h =
     (let ids = filter (\<lambda>i. i \<noteq> []) (List.map_filter rc_relatedTransactionId (receipts s)) in
      map_of (rev (map (\<lambda>d. (th_txHash d, th_id d)) (filter (\<lambda>d. th_id d \<in> set ids) (deposits s)))) h)"

definition receiptForEvent :: "liquidity \<Rightarrow> fiat_event \<Rightarrow> receipt option" where
  "receiptForEvent s ev =
     (case find (\<lambda>r. rc_dedupKey r = ev_dedupKey ev) (receipts s) of
        Some r \<Rightarrow> Some r
      | None \<Rightarrow>
          (case find (\<lambda>r. rc_provider r = o_provider (ev_obs ev) \<and> rc_providerRef r \<noteq> None
                        \<and> rc_providerRef r = o_providerRef (ev_obs ev)) (receipts s) of
             Some r \<Rightarrow> Some r
           | None \<Rightarrow>
               (case o_relatedReference (ev_obs ev) of
                  None \<Rightarrow> None
                | Some h \<Rightarrow>
                    (case thIdByHash s h of
                       None \<Rightarrow> None
                     | Some i \<Rightarrow> find (\<lambda>r. rc_relatedTransactionId r = Some i) (receipts s)))))"

fun duplicate_refs :: "receipt list \<Rightarrow> receipt list \<Rightarrow> discrepancy list" where
  "duplicate_refs seen [] = []"
| "duplicate_refs seen (r # rs) =
     (case rc_providerRef r of
        None \<Rightarrow> duplicate_refs seen rs
      | Some ref \<Rightarrow>
          (if ref = [] then duplicate_refs seen rs
           else map (\<lambda>_. discrepancy_of ''FIAT_LIQUIDITY_RECEIPT'' (rc_dedupKey r) (Some ref) ''DUPLICATE_PROVIDER_REFERENCE'')
                  (filter (\<lambda>q. rc_provider q @ '':'' @ js_text (rc_providerRef q) = rc_provider r @ '':'' @ ref) seen)
                @ duplicate_refs (seen @ [r]) rs))"

definition status_total :: "reservation_status \<Rightarrow> liquidity \<Rightarrow> int" where
  "status_total st s = sum_rows rz_amountGhs (filter (\<lambda>r. rz_status r = st) (reservations s))"

definition available_evidence :: "liquidity \<Rightarrow> int" where
  "available_evidence s = sum_rows rc_amountGhs (filter (\<lambda>r. rc_status r = AVAILABLE) (receipts s))"

definition expected_buckets :: "liquidity \<Rightarrow> buckets" where
  "expected_buckets s =
     (let active = sum_rows rz_amountGhs (filter (\<lambda>r. rz_status r = RESERVED \<or> rz_status r = IN_TRANSIT) (reservations s)) in
      \<lparr>availableGhs = available_evidence s - active - status_total PAID_OUT s - status_total RECONCILIATION_REQUIRED s,
       reservedGhs = status_total RESERVED s, inTransitGhs = status_total IN_TRANSIT s,
       paidOutGhs = status_total PAID_OUT s, reconciliationHeldGhs = status_total RECONCILIATION_REQUIRED s\<rparr>)"

definition mismatches :: "buckets \<Rightarrow> buckets \<Rightarrow> string list" where
  "mismatches b e =
     (if availableGhs b \<noteq> availableGhs e then [''availableGhs''] else []) @
     (if reservedGhs b \<noteq> reservedGhs e then [''reservedGhs''] else []) @
     (if inTransitGhs b \<noteq> inTransitGhs e then [''inTransitGhs''] else []) @
     (if paidOutGhs b \<noteq> paidOutGhs e then [''paidOutGhs''] else []) @
     (if reconciliationHeldGhs b \<noteq> reconciliationHeldGhs e then [''reconciliationHeldGhs''] else [])"

definition state_discrepancies :: "buckets \<Rightarrow> liquidity \<Rightarrow> discrepancy list" where
  "state_discrepancies b s =
     (if mismatches b (expected_buckets s) = [] then []
      else [(discrepancy_of ''FIAT_LIQUIDITY_STATE'' ''1'' None ''STATE_CONSERVATION_DELTA'')
              \<lparr>dc_buckets := mismatches b (expected_buckets s)\<rparr>]) @
     (if available_evidence s < availableGhs b
      then [discrepancy_of ''FIAT_LIQUIDITY_STATE'' ''1'' None ''AVAILABLE_UNSUPPORTED''] else [])"

definition find_discrepancies :: "int \<Rightarrow> buckets \<Rightarrow> liquidity \<Rightarrow> discrepancy list" where
  "find_discrepancies horizon b s =
     (let inbound = filter (\<lambda>e. o_direction (ev_obs e) = ''INBOUND'') (events s) in
      map (\<lambda>r. discrepancy_of ''FIAT_LIQUIDITY_RECEIPT'' (rc_dedupKey r) (rc_providerRef r) ''RECEIPT_WITHOUT_CONFIRMATION'')
        (filter (\<lambda>r. rc_status r \<in> {RECEIVED, UNMATCHED} \<and> rc_createdAt r < horizon) (receipts s)) @
      map (\<lambda>e. discrepancy_of ''FIAT_PROVIDER_EVENT'' (ev_dedupKey e) (o_providerRef (ev_obs e)) ''EVENT_WITHOUT_RECEIPT'')
        (filter (\<lambda>e. receiptForEvent s e = None) inbound) @
      duplicate_refs [] (receipts s) @
      List.map_filter (\<lambda>e. case receiptForEvent s e of
            None \<Rightarrow> None
          | Some r \<Rightarrow>
              (if o_amountGhs (ev_obs e) \<noteq> None \<and> o_amountGhs (ev_obs e) \<noteq> Some (rc_amountGhs r)
               then Some (discrepancy_of ''FIAT_LIQUIDITY_RECEIPT'' (rc_dedupKey r) (rc_providerRef r) ''AMOUNT_MISMATCH'')
               else None)) inbound @
      map (\<lambda>r. discrepancy_of ''FIAT_LIQUIDITY_RESERVATION'' (rz_reference r) (rz_providerRef r) ''RESERVATION_MISSING_RESULT'')
        (filter (\<lambda>r. rz_status r \<in> {RESERVED, IN_TRANSIT} \<and> rz_createdAt r < horizon) (reservations s)) @
      state_discrepancies b s)"

definition note_discrepancy :: "op_ctx \<Rightarrow> discrepancy \<Rightarrow> liquidity \<Rightarrow> liquidity" where
  "note_discrepancy cx d =
     note_exception cx \<lparr>ea_entityType = dc_entityType d, ea_entityId = dc_entityId d, ea_reference = dc_reference d,
                        ea_reason = dc_reason d, ea_details = None\<rparr>"

definition reconcile ::
  "op_ctx \<Rightarrow> int \<Rightarrow> bool \<Rightarrow> liquidity \<Rightarrow> (discrepancy list \<times> buckets) liq_outcome" where
  "reconcile cx horizonMinutes dryRun s =
     (case fl_state s of
        None \<Rightarrow> (Inl StateRowMissing, s)
      | Some b \<Rightarrow>
          (let ds = find_discrepancies (cx_now cx - horizonMinutes * 60000) b s in
           (Inr (ds, b), if dryRun then s else fold (note_discrepancy cx) ds s)))"

section \<open>Summary and flag\<close>

definition isAuthorityEnabled :: "bool option \<Rightarrow> bool" where
  "isAuthorityEnabled flag \<longleftrightarrow> flag = Some True"

record liquidity_summary =
  ls_authoritative :: buckets
  ls_receiptsByStatus :: "(receipt_status \<times> nat \<times> int) list"
  ls_reservationsByStatus :: "((reservation_status \<times> string) \<times> nat \<times> int) list"
  ls_projection :: "int option"

definition group_rows :: "('r \<Rightarrow> 'k) \<Rightarrow> ('r \<Rightarrow> int) \<Rightarrow> 'r list \<Rightarrow> ('k \<times> nat \<times> int) list" where
  "group_rows key v rows =
     map (\<lambda>k. (k, count_by (\<lambda>r. key r = k) rows, sum_rows v (filter (\<lambda>r. key r = k) rows)))
       (remdups (map key rows))"

definition liquiditySummary :: "liquidity \<Rightarrow> liquidity_error + liquidity_summary" where
  "liquiditySummary s =
     (case fl_state s of
        None \<Rightarrow> Inl StateRowMissing
      | Some b \<Rightarrow>
          Inr \<lparr>ls_authoritative = b,
               ls_receiptsByStatus = group_rows rc_status rc_amountGhs (receipts s),
               ls_reservationsByStatus = group_rows (\<lambda>r. (rz_status r, rz_provider r)) rz_amountGhs (reservations s),
               ls_projection = pool s\<rparr>)"

section \<open>Histories\<close>

datatype liq_call =
    CallEvent observation_args
  | CallStamp string "string option"
  | CallReceipt op_ctx receipt_args
  | CallMatch match_args
  | CallTreasury treasury_args
  | CallReserve op_ctx reserve_args
  | CallInTransit op_ctx string "string option"
  | CallSettle op_ctx string string "string option" "string option"
  | CallRelease op_ctx string
  | CallReconcile op_ctx int bool

definition forget :: "'a liq_outcome \<Rightarrow> unit liq_outcome" where
  "forget m = (case m of (Inl e, s) \<Rightarrow> (Inl e, s) | (Inr _, s) \<Rightarrow> (Inr (), s))"

definition exec ::
  "(string \<Rightarrow> string) \<Rightarrow> (string \<Rightarrow> decimal option) \<Rightarrow> (liquidity \<Rightarrow> liquidity) \<Rightarrow> liq_call \<Rightarrow> liquidity \<Rightarrow>
   unit liq_outcome" where
  "exec sha parse env c s =
     (case c of
        CallEvent a \<Rightarrow> forget (recordProviderEvent sha parse False a env s)
      | CallStamp k ref \<Rightarrow> forget (enrichProviderEventRefByDedupKey k ref env s)
      | CallReceipt cx a \<Rightarrow> forget (transaction env (recordReceipt parse cx a env) s)
      | CallMatch m \<Rightarrow> forget (transaction env (confirmReconciliationMatch m env) s)
      | CallTreasury t \<Rightarrow> forget (transaction env (confirmTreasuryOpening sha parse t env) s)
      | CallReserve cx a \<Rightarrow> forget (transaction env (reserveForPayout parse cx a env) s)
      | CallInTransit cx k ref \<Rightarrow> forget (transaction env (inTransitIfRecorded cx k ref env) s)
      | CallSettle cx k out ref reason \<Rightarrow> forget (transaction env (settleIfRecorded cx k out ref reason env) s)
      | CallRelease cx k \<Rightarrow> forget (transaction env (releaseIfRecorded cx k env) s)
      | CallReconcile cx h dry \<Rightarrow> forget (reconcile cx h dry s))"

inductive liq_run :: "(string \<Rightarrow> string) \<Rightarrow> (string \<Rightarrow> decimal option) \<Rightarrow> liquidity \<Rightarrow> liquidity \<Rightarrow> bool"
  for sha parse where
  none: "liq_run sha parse s s"
| call: "liq_run sha parse s s1 \<Longrightarrow> liq_run sha parse s1 (env s1) \<Longrightarrow> exec sha parse env c s1 = (r, s2) \<Longrightarrow>
    liq_run sha parse s s2"
| books: "liq_run sha parse s s1 \<Longrightarrow> liq_run sha parse s (s1\<lparr>deposits := ds, quotes := qs\<rparr>)"

lemma forget_snd: "forget m = (r, s') \<Longrightarrow> \<exists>x. m = (x, s')"
  by (auto simp: forget_def split: prod.splits sum.splits)

lemma note_discrepancy_side: "side_write s (fold (note_discrepancy cx) ds s)"
proof -
  have "side_write u t \<Longrightarrow> side_write u (fold (note_discrepancy cx) ds t)" for u t
    by (induction ds arbitrary: t) (simp_all add: note_discrepancy_def note_exception_side)
  then show ?thesis by (simp add: side_write_def)
qed

lemma side_write_inv:
  assumes "side_write s t" and "liq_inv s"
  shows "liq_inv t \<and> liq_evolves s t"
proof -
  have "liq_effect s t" using side_write_quiet [OF assms(1) liq_effect_refl] assms(2) by (simp add: liq_inv_def)
  then show ?thesis using liq_effect_inv assms(2) by blast
qed

lemmas transactional =
  record_receipt.in_transaction confirm_match.in_transaction confirm_treasury.in_transaction
  reserve.in_transaction wrapped_in_transit.in_transaction wrapped_settle.in_transaction
  wrapped_release.in_transaction

lemma exec_inv:
  assumes run: "exec sha parse env c s = (r, s')" and inv: "liq_inv s" "liq_inv (env s)" "liq_evolves s (env s)"
  shows "liq_inv s' \<and> liq_evolves s s'"
proof (cases c)
  case (CallEvent a)
  then show ?thesis
    using run record_event.outside_transaction [where env = env and s = s, OF _ inv] by (auto simp: exec_def dest!: forget_snd)
next
  case (CallStamp k ref)
  then show ?thesis
    using run stamp_event.outside_transaction [where env = env and s = s, OF _ inv] by (auto simp: exec_def dest!: forget_snd)
next
  case (CallReconcile cx h dry)
  then have "s' = s \<or> (\<exists>ds. s' = fold (note_discrepancy cx) ds s)"
    using run by (auto simp: exec_def reconcile_def Let_def forget_def split: option.splits if_splits)
  then show ?thesis
    using side_write_inv [OF note_discrepancy_side inv(1)] inv(1) by auto
qed (use run transactional [where env = env and s = s, OF _ inv] in \<open>auto simp: exec_def dest!: forget_snd\<close>)

lemma liq_run_inv: "liq_run sha parse s s' \<Longrightarrow> liq_inv s \<Longrightarrow> liq_inv s' \<and> liq_evolves s s'"
proof (induction rule: liq_run.induct)
  case (call s s1 env c r s2)
  then have "liq_inv s1" and e: "liq_evolves s s1" and "liq_inv (env s1)" "liq_evolves s1 (env s1)" by blast+
  from exec_inv [OF call.hyps(3) this(1,3,4)] e show ?case using liq_evolves_trans by blast
next
  case (books s s1 qs ds)
  have "liq_inv (s1\<lparr>deposits := ds, quotes := qs\<rparr>) \<and> liq_evolves s1 (s1\<lparr>deposits := ds, quotes := qs\<rparr>)"
    by (rule side_write_inv) (use books in \<open>auto simp: side_write_def\<close>)
  then show ?case using books liq_evolves_trans by blast
qed simp

lemma empty_liquidity_inv: "liq_inv empty_liquidity"
  by (simp add: liq_inv_def tables_ok_def empty_liquidity_def one_claim_per_deposit_def view_inv_def view_of_def
      buckets_of_def zero_buckets_def bucket_total_def)

lemmas reachable_inv = liq_run_inv [OF _ empty_liquidity_inv, THEN conjunct1]

section \<open>A sample history\<close>

text \<open>A deposit of 500 cedis is observed, settled and made available; 300 are reserved,
  dispatched and paid out.\<close>

definition no_parse :: "string \<Rightarrow> decimal option" where
  "no_parse t = None"

definition cx0 :: op_ctx where
  "cx0 = \<lparr>cx_now = 0, cx_evidence_ok = True\<rparr>"

definition sample_receipt :: receipt_args where
  "sample_receipt =
     \<lparr>ra_provider = ''MOOLRE'', ra_rail = Some ''MOMO'', ra_providerRef = Some ''p1'', ra_dedupKey = ''receipt:dep:h1'',
      ra_amountGhs = JDec (Dec False 500 0), ra_route = None, ra_reference = Some ''h1'',
      ra_relatedTransactionId = Some ''d1'', ra_treasury = False, ra_eventDedupKey = Some ''event:dep:h1'',
      ra_quoteId = Some ''q1''\<rparr>"

definition sample_reserve :: reserve_args where
  "sample_reserve =
     \<lparr>rs_reference = ''w1'', rs_amountGhs = JDec (Dec False 300 0), rs_provider = ''MOOLRE'', rs_rail = Some ''MOMO'',
      rs_destination = None, rs_relatedTransactionId = None\<rparr>"

definition observed :: liquidity where
  "observed =
     empty_liquidity\<lparr>events := [\<lparr>ev_dedupKey = ''event:dep:h1'', ev_obs = observation_of sample_observation (Some 50000)\<rparr>],
       deposits := [\<lparr>th_id = ''d1'', th_txHash = ''h1'', th_type = ''DEPOSIT_FIAT'', th_status = ''COMPLETED'',
                     th_userId = 7, th_quoteId = Some ''q1''\<rparr>],
       quotes := [\<lparr>q_id = ''q1'', q_userId = 7, q_consumed = True, q_selectedRoute = None\<rparr>]\<rparr>"

definition bucket_row :: "int \<Rightarrow> int \<Rightarrow> int \<Rightarrow> int \<Rightarrow> int \<Rightarrow> buckets" where
  "bucket_row a r t p h =
     \<lparr>availableGhs = a, reservedGhs = r, inTransitGhs = t, paidOutGhs = p, reconciliationHeldGhs = h\<rparr>"

definition funded :: liquidity where
  "funded = observed\<lparr>receipts := [new_receipt cx0 sample_receipt 50000 AVAILABLE],
     fl_state := Some (bucket_row 50000 0 0 0 0), pool := Some 50000\<rparr>"

definition payout :: "reservation_status \<Rightarrow> reservation" where
  "payout st =
     (case st of RESERVED \<Rightarrow> new_reservation cx0 sample_reserve 30000
      | IN_TRANSIT \<Rightarrow> fill_rz_ref ''x1'' (advance cx0 IN_TRANSIT (new_reservation cx0 sample_reserve 30000))
      | PAID_OUT \<Rightarrow> advance cx0 PAID_OUT (fill_rz_ref ''x1'' (advance cx0 IN_TRANSIT (new_reservation cx0 sample_reserve 30000)))
      | RELEASED \<Rightarrow> advance cx0 RELEASED (new_reservation cx0 sample_reserve 30000)
      | RECONCILIATION_REQUIRED \<Rightarrow> advance cx0 RECONCILIATION_REQUIRED (new_reservation cx0 sample_reserve 30000))"

definition with_payout :: "reservation_status \<Rightarrow> buckets \<Rightarrow> liquidity" where
  "with_payout st b = funded\<lparr>reservations := [payout st], fl_state := Some b, pool := Some (availableGhs b)\<rparr>"

lemma sample_amounts:
  "toExactGhsDecimal parse (JDec (Dec False 500 0)) = Inr 50000"
  "toExactGhsDecimal parse (JDec (Dec False 300 0)) = Inr 30000"
  by (simp_all add: toExactGhsDecimal_def ghs_of_decimal_def)

lemmas sample_defs =
  sample_receipt_def sample_reserve_def observed_def funded_def empty_liquidity_def bucket_row_def sample_amounts
  sample_observation_def observation_of_def cx0_def

lemma run_call: "liq_run sha parse s s1 \<Longrightarrow> exec sha parse id c s1 = (r, s2) \<Longrightarrow> liq_run sha parse s s2"
  using liq_run.call [of sha parse s s1 id c r s2] liq_run.none by simp

lemma run_observed: "liq_run id no_parse empty_liquidity observed"
proof -
  let ?s = "empty_liquidity\<lparr>events := [\<lparr>ev_dedupKey = ''event:dep:h1'', ev_obs = observation_of sample_observation (Some 50000)\<rparr>]\<rparr>"
  have "check_observation no_parse sample_observation = Inr (observation_of sample_observation (Some 50000))"
    by (simp add: check_observation_def sample_observation_def observation_of_def sample_amounts)
  then have "exec id no_parse id (CallEvent sample_observation) empty_liquidity = (Inr (), ?s)"
    by (simp add: exec_def recordProviderEvent_def forget_def empty_liquidity_def Let_def) (simp add: sample_observation_def)
  from run_call [OF liq_run.none this] have "liq_run id no_parse empty_liquidity ?s" .
  from liq_run.books [OF this] show ?thesis by (simp add: observed_def)
qed

lemma run_funded: "liq_run id no_parse empty_liquidity funded"
proof (rule run_call [OF run_observed])
  have "classify_receipt sample_receipt 50000 observed = Inr AVAILABLE"
    by (simp add: classify_receipt_def verifyDepositEvidenceChain_def sample_defs providerRefClaimsDiffer_def)
  then have "recordReceipt no_parse cx0 sample_receipt id observed =
      insert_receipt cx0 sample_receipt 50000 AVAILABLE observed"
    by (simp add: recordReceipt_def) (simp add: sample_defs)
  also have "\<dots> = (Inr (new_receipt cx0 sample_receipt 50000 AVAILABLE, False), funded)"
    by (simp add: insert_receipt_def mint_def update_state_def syncPoolProjection_def ensureStateRow_def
        credit_available_def zero_buckets_def funded_def observed_def empty_liquidity_def bucket_row_def deposit_claimed_def Let_def)
  finally show "exec id no_parse id (CallReceipt cx0 sample_receipt) observed = (Inr (), funded)"
    by (simp add: exec_def transaction_def forget_def)
qed

lemma exec_reserved:
  "exec id no_parse id (CallReserve cx0 sample_reserve) funded =
   (Inr (), with_payout RESERVED (bucket_row 20000 30000 0 0 0))"
proof -
  have "reserveForPayout no_parse cx0 sample_reserve id funded =
      (Inr (plain_result (payout RESERVED) False), with_payout RESERVED (bucket_row 20000 30000 0 0 0))"
    by (simp add: reserveForPayout_def sample_reserve_def sample_amounts) 
      (simp add: funded_def observed_def empty_liquidity_def claimAvailable_def syncPoolProjection_def ensureStateRow_def
        with_payout_def payout_def bucket_row_def sample_reserve_def Let_def)
  then show ?thesis by (simp add: exec_def transaction_def forget_def)
qed

lemmas run_reserved = run_call [OF run_funded exec_reserved]

section \<open>The books of the authority\<close>

lemma sum_filter: "sum_rows v (filter P rows) = sum_rows (\<lambda>r. if P r then v r else 0) rows"
  by (induction rows) simp_all

lemma status_total_rows: "status_total st s = lv_rows (view_of s) st"
  by (simp add: status_total_def sum_filter view_of_def status_amount_def [abs_def])

lemma available_evidence_rows: "available_evidence s = lv_evidence (view_of s)"
  by (simp add: available_evidence_def sum_filter view_of_def available_amount_def [abs_def])

lemma active_total:
  "sum_rows rz_amountGhs (filter (\<lambda>r. rz_status r = RESERVED \<or> rz_status r = IN_TRANSIT) rows) =
   sum_rows rz_amountGhs (filter (\<lambda>r. rz_status r = RESERVED) rows) +
   sum_rows rz_amountGhs (filter (\<lambda>r. rz_status r = IN_TRANSIT) rows)"
  by (induction rows) simp_all

lemmas money_view = status_total_rows [symmetric] available_evidence_rows [symmetric]

lemma reachable_view:
  assumes "liq_run sha parse empty_liquidity s"
  shows "view_inv (view_of s)" and "tables_ok s"
  using reachable_inv [OF assms] by (simp_all add: liq_inv_def)

lemma reservation_later:
  "liq_evolves s t \<Longrightarrow> find_by rz_reference k (reservations s) = Some x \<Longrightarrow>
   \<exists>y. find_by rz_reference k (reservations t) = Some y \<and> reservation_evolves x y"
  by (simp add: liq_evolves_def rows_evolve_def)

lemma receipt_later:
  "liq_evolves s t \<Longrightarrow> find_by rc_dedupKey k (receipts s) = Some x \<Longrightarrow>
   \<exists>y. find_by rc_dedupKey k (receipts t) = Some y \<and> receipt_evolves x y"
  by (simp add: liq_evolves_def rows_evolve_def)

lemma lv_buckets_view [simp]: "lv_buckets (view_of s) = buckets_of s"
  by (simp add: view_of_def)

text \<open>C1: In every state reachable by any interleaving of the authority's operations, the five
  buckets sum to exactly the accepted (AVAILABLE) receipts, the reserved and in-transit
  buckets are exactly the open reservation rows, no bucket is negative, and so the money
  committed to payouts never exceeds the evidence.\<close>

theorem authority_conserves_evidence:
  assumes "liq_run sha parse empty_liquidity s"
  shows "bucket_total (buckets_of s) = available_evidence s \<and>
    reservedGhs (buckets_of s) = status_total RESERVED s \<and> inTransitGhs (buckets_of s) = status_total IN_TRANSIT s \<and>
    0 \<le> availableGhs (buckets_of s) \<and> 0 \<le> reservedGhs (buckets_of s) \<and> 0 \<le> inTransitGhs (buckets_of s) \<and>
    0 \<le> paidOutGhs (buckets_of s) \<and> 0 \<le> reconciliationHeldGhs (buckets_of s) \<and>
    status_total RESERVED s + status_total IN_TRANSIT s + status_total PAID_OUT s \<le> available_evidence s"
  using reachable_view(1) [OF assms] by (auto simp: view_inv_def money_view bucket_total_def)

theorem authority_conserves_evidence_witness:
  "\<exists>s. liq_run id no_parse empty_liquidity s \<and> bucket_total (buckets_of s) = available_evidence s \<and>
     status_total RESERVED s = 30000 \<and> available_evidence s = 50000"
proof -
  let ?s = "with_payout RESERVED (bucket_row 20000 30000 0 0 0)"
  have "status_total RESERVED ?s = 30000" "available_evidence ?s = 50000"
    by (simp_all add: status_total_def available_evidence_def with_payout_def payout_def new_reservation_def funded_def
        new_receipt_def)
  then show ?thesis using authority_conserves_evidence [OF run_reserved] run_reserved by blast
qed

text \<open>C17: In every reachable state each AVAILABLE receipt is backed by a durable provider event of
  the same amount (a successful inbound collection of its provider, or an attested treasury
  funding), and no two AVAILABLE receipts claim the same deposit.\<close>

theorem availability_needs_evidence:
  assumes "liq_run sha parse empty_liquidity s" and "r \<in> set (receipts s)" and "rc_status r = AVAILABLE"
  shows "(\<exists>e \<in> set (events s). backs r e) \<and>
    (\<forall>r' \<in> set (receipts s). rc_status r' = AVAILABLE \<longrightarrow> rc_relatedTransactionId r \<noteq> None \<longrightarrow>
       rc_relatedTransactionId r' = rc_relatedTransactionId r \<longrightarrow> r' = r)"
  using reachable_view(2) [OF assms(1)] assms(2,3)
  unfolding tables_ok_def receipt_backed_def one_claim_per_deposit_def by blast

theorem availability_needs_evidence_witness:
  "\<exists>r e. r \<in> set (receipts funded) \<and> rc_status r = AVAILABLE \<and> e \<in> set (events funded) \<and> backs r e"
proof -
  let ?r = "new_receipt cx0 sample_receipt 50000 AVAILABLE"
  have "?r \<in> set (receipts funded)" "rc_status ?r = AVAILABLE" by (simp_all add: funded_def new_receipt_def)
  then show ?thesis using availability_needs_evidence [OF run_funded] by blast
qed

text \<open>C20: Between any two states of a history, reservations only move forwards: the row keeps its
  reference, amount, provider and any provider reference it has, its status is one that may
  follow, and an AVAILABLE receipt stays AVAILABLE with its amount and its deposit.\<close>

theorem history_moves_forward:
  assumes "liq_run sha parse empty_liquidity s" and "liq_run sha parse s t"
  shows "(\<forall>k x. find_by rz_reference k (reservations s) = Some x \<longrightarrow>
      (\<exists>y. find_by rz_reference k (reservations t) = Some y \<and> rz_amountGhs y = rz_amountGhs x \<and>
         rz_provider y = rz_provider x \<and> rz_status y \<in> later_status (rz_status x) \<and>
         (rz_providerRef x \<noteq> None \<longrightarrow> rz_providerRef y = rz_providerRef x))) \<and>
    (\<forall>k x. find_by rc_dedupKey k (receipts s) = Some x \<longrightarrow> rc_status x = AVAILABLE \<longrightarrow>
      (\<exists>y. find_by rc_dedupKey k (receipts t) = Some y \<and> rc_status y = AVAILABLE \<and> rc_amountGhs y = rc_amountGhs x \<and>
         rc_relatedTransactionId y = rc_relatedTransactionId x))"
proof -
  have ev: "liq_evolves s t" using liq_run_inv [OF assms(2) reachable_inv [OF assms(1)]] by simp
  have "\<exists>y. find_by rc_dedupKey k (receipts t) = Some y \<and> rc_status y = AVAILABLE \<and>
      rc_amountGhs y = rc_amountGhs x \<and> rc_relatedTransactionId y = rc_relatedTransactionId x"
    if "find_by rc_dedupKey k (receipts s) = Some x" "rc_status x = AVAILABLE" for k x
    using receipt_later [OF ev that(1)] that(2) by (auto simp: receipt_evolves_def)
  then show ?thesis
    using reservation_later [OF ev] by (simp add: reservation_evolves_def) blast
qed

text \<open>The sample payout goes on: dispatched, then paid, or released from the reserve.\<close>

lemmas payout_defs =
  with_payout_def payout_def new_reservation_def bucket_row_def funded_def observed_def empty_liquidity_def
  ensureStateRow_def claim_status_def claims_def claim_rows_def has_status_def advance_def shift_def fill_rz_ref_def
  update_state_def syncPoolProjection_def reread_def plain_result_def sample_reserve_def cx0_def

lemma run_in_transit: "liq_run id no_parse empty_liquidity (with_payout IN_TRANSIT (bucket_row 20000 0 30000 0 0))"
  by (rule run_call [OF run_reserved, where c = "CallInTransit cx0 ''w1'' (Some ''x1'')" and r = "Inr ()"])
    (simp add: exec_def transaction_def forget_def inTransitIfRecorded_def if_recorded_def markReservationInTransit_def
      enrichReservationProviderRef_def rz_ref_absent_def Let_def payout_defs)

lemma run_paid: "liq_run id no_parse empty_liquidity (with_payout PAID_OUT (bucket_row 20000 0 0 30000 0))"
  by (rule run_call [OF run_in_transit, where c = "CallSettle cx0 ''w1'' ''SUCCESSFUL'' (Some ''x1'') None" and r = "Inr ()"])
    (simp add: exec_def transaction_def forget_def settleIfRecorded_def if_recorded_def settleReservation_def pay_out_def
      refs_contradict_def truthy_def enrichReservationProviderRef_def rz_ref_absent_def Let_def payout_defs)

lemma run_released: "liq_run id no_parse empty_liquidity (with_payout RELEASED (bucket_row 50000 0 0 0 0))"
  by (rule run_call [OF run_reserved, where c = "CallRelease cx0 ''w1''" and r = "Inr ()"])
    (simp add: exec_def transaction_def forget_def releaseIfRecorded_def if_recorded_def releaseReservation_def give_back_def
      Let_def payout_defs)

theorem history_moves_forward_witness:
  "\<exists>y. find_by rz_reference ''w1'' (reservations (with_payout RESERVED (bucket_row 20000 30000 0 0 0))) = Some y \<and>
     rz_status y \<in> later_status RESERVED \<and> rz_amountGhs y = 30000"
proof -
  have "find_by rz_reference ''w1'' (reservations (with_payout RESERVED b)) = Some (payout RESERVED)"
    "rz_status (payout RESERVED) = RESERVED" "rz_amountGhs (payout RESERVED) = 30000" for b
    by (simp_all add: with_payout_def payout_def new_reservation_def sample_reserve_def)
  then show ?thesis
    using history_moves_forward [OF run_reserved liq_run.none] by metis
qed

section \<open>Reserving and settling\<close>

text \<open>C18: A new reservation is all or nothing under any concurrent commits: with enough available
  money the row is created RESERVED and exactly its amount moves from available to reserved,
  with the pool projection following; otherwise the call fails and the transaction leaves the
  database as the other transactions left it, without an orphan row.\<close>

theorem reserve_all_or_nothing:
  assumes "rs_reference a \<noteq> []" and "rs_provider a \<noteq> []" and "toExactGhsDecimal parse (rs_amountGhs a) = Inr amount"
    and "rs_reference a \<notin> rz_reference ` set (reservations s)"
    and "rs_reference a \<notin> rz_reference ` set (reservations (env s))"
  shows "transaction env (reserveForPayout parse cx a env) s =
    (if amount \<le> availableGhs (buckets_of (env s))
     then (Inr (plain_result (new_reservation cx a amount) False),
           (env s)\<lparr>reservations := reservations (env s) @ [new_reservation cx a amount],
                   fl_state := Some (shift (- amount) amount 0 0 0 (buckets_of (env s))),
                   pool := Some (availableGhs (buckets_of (env s)) - amount)\<rparr>)
     else (Inl LiquidityInsufficient, env s))"
proof -
  have none: "find_by rz_reference (rs_reference a) (reservations s) = None"
    using assms(4) by (simp add: find_by_None)
  have e: "ensureStateRow (env s) = (env s)\<lparr>fl_state := Some (buckets_of (env s))\<rparr>"
    by (cases "fl_state (env s)") (simp_all add: ensureStateRow_def buckets_of_def)
  show ?thesis
    using assms by (simp add: transaction_def reserveForPayout_def none Let_def e claimAvailable_def syncPoolProjection_def shift_def)
qed

theorem reserve_all_or_nothing_witness:
  "transaction id (reserveForPayout no_parse cx0 sample_reserve id) empty_liquidity = (Inl LiquidityInsufficient, empty_liquidity)
   \<and> snd (transaction id (reserveForPayout no_parse cx0 sample_reserve id) funded) =
     funded\<lparr>reservations := [new_reservation cx0 sample_reserve 30000], fl_state := Some (bucket_row 20000 30000 0 0 0),
            pool := Some 20000\<rparr>"
  using reserve_all_or_nothing [of sample_reserve no_parse 30000 empty_liquidity id cx0]
    reserve_all_or_nothing [of sample_reserve no_parse 30000 funded id cx0]
  by (simp add: sample_defs buckets_of_def zero_buckets_def shift_def del: transaction_Inr)

lemma reserved_row:
  assumes "reserveForPayout parse cx a env s = (Inr x, s')"
  obtains amount r where "rs_reference a \<noteq> []" and "rs_provider a \<noteq> []"
    and "toExactGhsDecimal parse (rs_amountGhs a) = Inr amount"
    and "find_by rz_reference (rs_reference a) (reservations s') = Some r"
    and "rz_amountGhs r = amount" and "rz_provider r = rs_provider a"
proof -
  obtain amount where amt: "rs_reference a \<noteq> []" "rs_provider a \<noteq> []" "toExactGhsDecimal parse (rs_amountGhs a) = Inr amount"
    using assms by (auto simp: reserveForPayout_def split: if_splits sum.splits)
  show thesis
  proof (cases "find_by rz_reference (rs_reference a) (reservations s)")
    case (Some r)
    then show thesis using assms amt that [OF amt, of r] by (auto simp: reserveForPayout_def split: if_splits)
  next
    case None
    let ?x = "new_reservation cx a amount"
    have "rs_reference a \<notin> rz_reference ` set (reservations (env s))" and "reservations s' = reservations (env s) @ [?x]"
      using assms amt None
      by (auto simp: reserveForPayout_def Let_def and_then_Inr claimAvailable_def sync_Inr split: if_splits option.splits)
    then show thesis
      using that [OF amt, of ?x] by (auto simp: find_by_None [symmetric] new_reservation_def)
  qed
qed

text \<open>A retried reservation never reserves twice: after a successful reserve, in every later state
  of every history, the same request answers with the recorded row as a replay and moves no
  money.\<close>

theorem reserve_retry_moves_nothing:
  assumes "liq_run sha parse empty_liquidity s" and "exec sha parse id (CallReserve cx a) s = (Inr (), s')"
    and "liq_run sha parse s' t"
  shows "\<exists>y. reserveForPayout parse cx' a env t = (Inr (plain_result y True), ensureStateRow t) \<and>
    find_by rz_reference (rs_reference a) (reservations t) = Some y \<and> view_of (ensureStateRow t) = view_of t"
proof -
  obtain x where x: "reserveForPayout parse cx a id s = (Inr x, s')"
    using assms(2) by (auto simp: exec_def forget_def split: prod.splits sum.splits)
  then obtain amount r where amt: "rs_reference a \<noteq> []" "rs_provider a \<noteq> []" "toExactGhsDecimal parse (rs_amountGhs a) = Inr amount"
    and r: "find_by rz_reference (rs_reference a) (reservations s') = Some r" "rz_amountGhs r = amount" "rz_provider r = rs_provider a"
    by (rule reserved_row)
  have "liq_run sha parse empty_liquidity s'" using run_call [OF assms(1,2)] .
  then have "liq_evolves s' t" using liq_run_inv [OF assms(3)] reachable_inv by blast
  from reservation_later [OF this r(1)] r obtain y where
    "find_by rz_reference (rs_reference a) (reservations t) = Some y" "rz_amountGhs y = amount" "rz_provider y = rs_provider a"
    by (auto simp: reservation_evolves_def)
  then show ?thesis
    using amt by (auto simp: reserveForPayout_def view_of_def)
qed

theorem reserve_retry_moves_nothing_witness:
  "\<exists>y. reserveForPayout no_parse cx0 sample_reserve id (with_payout RESERVED (bucket_row 20000 30000 0 0 0)) =
     (Inr (plain_result y True), ensureStateRow (with_payout RESERVED (bucket_row 20000 30000 0 0 0)))"
  using reserve_retry_moves_nothing [OF run_funded exec_reserved liq_run.none, of cx0 id] by blast

text \<open>A claim on the status just read, with nothing committed in between, wins.\<close>

lemma claim_status_wins:
  assumes "distinct (map rz_reference (reservations s))" and "find_by rz_reference k (reservations s) = Some r"
    and "st \<noteq> rz_status r"
  shows "claim_status cx (rz_status r) st k s =
      (Inr (), s\<lparr>reservations := claim_rows rz_reference (has_status (rz_status r)) (advance cx st) k (reservations s)\<rparr>)"
    and "find_by rz_reference k (claim_rows rz_reference (has_status (rz_status r)) (advance cx st) k (reservations s)) =
      Some (advance cx st r)"
proof -
  show "claim_status cx (rz_status r) st k s =
      (Inr (), s\<lparr>reservations := claim_rows rz_reference (has_status (rz_status r)) (advance cx st) k (reservations s)\<rparr>)"
    using assms count_by_key [OF assms(1), of k "has_status (rz_status r)"]
    by (simp add: claim_status_def claims_def has_status_def)
  show "find_by rz_reference k (claim_rows rz_reference (has_status (rz_status r)) (advance cx st) k (reservations s)) =
      Some (advance cx st r)"
    using assms(2) by (simp add: conditional_claim.claim_find [OF status_claim [OF assms(3)]] has_status_def)
qed

definition held_buckets :: "reservation_status \<Rightarrow> int \<Rightarrow> buckets \<Rightarrow> buckets" where
  "held_buckets st a b =
     (case st of
        RESERVED \<Rightarrow> shift 0 (- a) 0 0 a b
      | IN_TRANSIT \<Rightarrow> shift 0 0 (- a) 0 a b
      | RELEASED \<Rightarrow> (if a \<le> availableGhs b then shift (- a) 0 0 0 a b else b)
      | _ \<Rightarrow> b)"

lemma hold_funds_held:
  "fl_state s = Some b \<Longrightarrow> \<exists>h. hold_funds st a s = (Inr h, s\<lparr>fl_state := Some (held_buckets st a b)\<rparr>)"
  by (cases st) (auto simp: hold_funds_def update_state_def held_buckets_def)

lemma held_buckets_money:
  "bucket_total (held_buckets st a b) = bucket_total b"
  "0 \<le> a \<Longrightarrow> availableGhs (held_buckets st a b) \<le> availableGhs b"
  by (cases st; simp add: held_buckets_def shift_def bucket_total_def)+

lemma note_exception_frame [simp]:
  "reservations (note_exception cx a s) = reservations s" "fl_state (note_exception cx a s) = fl_state s"
  "buckets_of (note_exception cx a s) = buckets_of s" "pool (note_exception cx a s) = pool s"
  by (simp_all add: note_exception_def buckets_of_def)

lemma note_exception_open:
  assumes "cx_evidence_ok cx" and "check_exception a = None"
  shows "open_key ` set (exceptions (note_exception cx a s)) =
    insert (Some (ea_entityType a, ea_entityId a, ea_reason a)) (open_key ` set (exceptions s))"
  using assms by (simp add: note_exception_def recordReconciliationException_def Let_def upsert_opens)

text \<open>What a quarantine does when the row is as the caller read it.\<close>

lemma quarantine_outcome:
  assumes d: "distinct (map rz_reference (reservations s))" and r: "find_by rz_reference k (reservations s) = Some r"
    and st: "rz_status r \<noteq> RECONCILIATION_REQUIRED" and b: "fl_state s = Some b"
  shows "\<exists>x s'. quarantineContradictoryOutcome cx r s = (Inr x, s') \<and> rr_quarantined x \<and>
    reservations s' = claim_rows rz_reference (has_status (rz_status r)) (advance cx RECONCILIATION_REQUIRED) k (reservations s) \<and>
    find_by rz_reference k (reservations s') = Some (advance cx RECONCILIATION_REQUIRED r) \<and>
    fl_state s' = Some (held_buckets (rz_status r) (rz_amountGhs r) b) \<and> pool s' = pool s \<and>
    (cx_evidence_ok cx \<longrightarrow> k \<noteq> [] \<longrightarrow>
      Some (''FIAT_LIQUIDITY_RESERVATION'', k, ''CONTRADICTORY_PROVIDER_EVIDENCE'') \<in> open_key ` set (exceptions s'))"
proof -
  have key: "rz_reference r = k" using r by blast
  let ?rows = "claim_rows rz_reference (has_status (rz_status r)) (advance cx RECONCILIATION_REQUIRED) k (reservations s)"
  let ?t = "s\<lparr>reservations := ?rows, fl_state := Some (held_buckets (rz_status r) (rz_amountGhs r) b)\<rparr>"
  note w = claim_status_wins [OF d r st [symmetric], of cx]
  obtain h where h: "hold_funds (rz_status r) (rz_amountGhs r) (s\<lparr>reservations := ?rows\<rparr>) = (Inr h, ?t)"
    using hold_funds_held [of "s\<lparr>reservations := ?rows\<rparr>" b "rz_status r" "rz_amountGhs r"] b by auto
  let ?t1 = "note_exception cx (contradiction_exception r h) ?t"
  let ?t2 = "if h = ReleasedAlreadySpent then note_exception cx (overspend_exception r) ?t1 else ?t1"
  have chk: "check_exception (contradiction_exception r h) = None" "check_exception (overspend_exception r) = None" if "k \<noteq> []"
    using that key by (simp_all add: check_exception_def contradiction_exception_def overspend_exception_def VALID_ENTITY_TYPES_def)
  have "Some (''FIAT_LIQUIDITY_RESERVATION'', k, ''CONTRADICTORY_PROVIDER_EVIDENCE'') \<in> open_key ` set (exceptions ?t2)"
    if "cx_evidence_ok cx" "k \<noteq> []"
    using key note_exception_open [OF that(1) chk(1) [OF that(2)]] note_exception_open [OF that(1) chk(2) [OF that(2)]]
    by (auto simp: contradiction_exception_def)
  moreover have "reservations ?t2 = ?rows" "fl_state ?t2 = fl_state ?t" "pool ?t2 = pool s"
    by simp_all
  moreover have "quarantineContradictoryOutcome cx r s = (Inr \<lparr>rr_reservation = advance cx RECONCILIATION_REQUIRED r,
      rr_replay = False, rr_quarantined = True, rr_heldMove = Some h\<rparr>, ?t2)"
    using w h by (simp add: quarantineContradictoryOutcome_def key reread_def Let_def)
  ultimately show ?thesis
    using w(2) by simp
qed

definition contradicts :: "reservation \<Rightarrow> string \<Rightarrow> string option \<Rightarrow> bool" where
  "contradicts r outcome providerTxId \<longleftrightarrow>
     (case rz_status r of
        RESERVED \<Rightarrow> outcome = ''SUCCESSFUL''
      | IN_TRANSIT \<Rightarrow> outcome = ''SUCCESSFUL'' \<and> refs_contradict providerTxId (rz_providerRef r)
      | PAID_OUT \<Rightarrow> outcome = ''FAILED'' \<or> refs_contradict providerTxId (rz_providerRef r)
      | RELEASED \<Rightarrow> outcome = ''SUCCESSFUL''
      | RECONCILIATION_REQUIRED \<Rightarrow> False)"

lemma settle_contradiction:
  assumes "find_by rz_reference k (reservations s) = Some r" and "outcome \<in> {''SUCCESSFUL'', ''FAILED''}"
    and "contradicts r outcome providerTxId"
  shows "settleReservation cx k outcome providerTxId reason env s = quarantineContradictoryOutcome cx r (ensureStateRow (env s))"
  using assms by (cases "rz_status r") (auto simp: settleReservation_def contradicts_def Let_def)

lemma row_facts:
  assumes "liq_run sha parse empty_liquidity s" and "find_by rz_reference k (reservations s) = Some r"
  shows "distinct (map rz_reference (reservations s))" and "0 < rz_amountGhs r"
  using reachable_view(2) [OF assms(1)] find_by_Some [OF assms(2)] by (auto simp: tables_ok_def)

text \<open>C19: A provider outcome that contradicts the recorded one never rewrites it: the reservation is
  quarantined (RECONCILIATION\_REQUIRED, its amount unchanged), the available money does not
  grow, the buckets still sum to the same total, and an open exception names the reservation.\<close>

theorem contradiction_quarantines:
  assumes "liq_run sha parse empty_liquidity s" and "find_by rz_reference k (reservations s) = Some r" and "k \<noteq> []"
    and "outcome \<in> {''SUCCESSFUL'', ''FAILED''}" and "contradicts r outcome providerTxId" and "cx_evidence_ok cx"
  shows "\<exists>x s'. settleReservation cx k outcome providerTxId reason id s = (Inr x, s') \<and> rr_quarantined x \<and>
    find_by rz_reference k (reservations s') = Some (r\<lparr>rz_status := RECONCILIATION_REQUIRED\<rparr>) \<and>
    availableGhs (buckets_of s') \<le> availableGhs (buckets_of s) \<and>
    bucket_total (buckets_of s') = bucket_total (buckets_of s) \<and>
    Some (''FIAT_LIQUIDITY_RESERVATION'', k, ''CONTRADICTORY_PROVIDER_EVIDENCE'') \<in> open_key ` set (exceptions s')"
proof -
  have st: "rz_status r \<noteq> RECONCILIATION_REQUIRED" using assms(5) by (auto simp: contradicts_def)
  note facts = row_facts [OF assms(1,2)]
  have "advance cx RECONCILIATION_REQUIRED r = r\<lparr>rz_status := RECONCILIATION_REQUIRED\<rparr>" by (simp add: advance_def)
  then show ?thesis
    using quarantine_outcome [of "ensureStateRow s" k r "buckets_of s" cx] facts assms(2,3,6) st
    by (auto simp: settle_contradiction [OF assms(2,4,5)] buckets_of_Some held_buckets_money)
qed

theorem contradiction_quarantines_witness:
  "\<exists>s'. snd (settleReservation cx0 ''w1'' ''FAILED'' None None id (with_payout PAID_OUT (bucket_row 20000 0 0 30000 0))) = s' \<and>
     availableGhs (buckets_of s') \<le> 20000 \<and>
     Some (''FIAT_LIQUIDITY_RESERVATION'', ''w1'', ''CONTRADICTORY_PROVIDER_EVIDENCE'') \<in> open_key ` set (exceptions s')"
proof -
  let ?s = "with_payout PAID_OUT (bucket_row 20000 0 0 30000 0)"
  have "find_by rz_reference ''w1'' (reservations ?s) = Some (payout PAID_OUT)" "contradicts (payout PAID_OUT) ''FAILED'' None"
    "cx_evidence_ok cx0" "availableGhs (buckets_of ?s) = 20000"
    by (simp_all add: contradicts_def buckets_of_def payout_defs)
  then show ?thesis using contradiction_quarantines [OF run_paid, of "''w1''" "payout PAID_OUT" "''FAILED''" None cx0 None] by force
qed

text \<open>A row that the outcome has already closed.\<close>

definition closed_by :: "reservation \<Rightarrow> string \<Rightarrow> string option \<Rightarrow> string option \<Rightarrow> bool" where
  "closed_by r outcome ref reason \<longleftrightarrow>
     (case rz_status r of
        RECONCILIATION_REQUIRED \<Rightarrow> True
      | PAID_OUT \<Rightarrow> outcome = ''SUCCESSFUL'' \<and> \<not> refs_contradict ref (rz_providerRef r)
      | RELEASED \<Rightarrow> outcome = ''FAILED'' \<and> (truthy reason \<longrightarrow> rz_releasedAt r \<noteq> None)
      | _ \<Rightarrow> False)"

lemma pay_out_closes:
  assumes d: "distinct (map rz_reference (reservations s))" and r: "find_by rz_reference k (reservations s) = Some r"
    and st: "rz_status r = IN_TRANSIT" and run: "pay_out cx r ref s = (Inr x, s')"
    and nc: "\<not> refs_contradict ref (rz_providerRef r)"
  shows "\<exists>r'. find_by rz_reference k (reservations s') = Some r' \<and> closed_by r' ''SUCCESSFUL'' ref reason \<and> fl_state s' \<noteq> None"
proof -
  have key: "rz_reference r = k" using r by blast
  let ?rows = "claim_rows rz_reference (has_status IN_TRANSIT) (advance cx PAID_OUT) k (reservations s)"
  have w: "find_by rz_reference k ?rows = Some (advance cx PAID_OUT r)"
    using claim_status_wins(2) [OF d r, of PAID_OUT cx] st by simp
  obtain t1 t2 t3 y b where c: "claim_status cx IN_TRANSIT PAID_OUT k s = (Inr (), t1)"
    and u: "update_state (shift 0 0 (- rz_amountGhs r) (rz_amountGhs r) 0) t1 = (Inr (), t2)"
    and e: "(if truthy ref then enrichReservationProviderRef r ref t2 else reread (rz_reference r) t2) = (Inr y, t3)"
    and p: "syncPoolProjection t3 = (Inr b, s')"
    using run by (auto simp: pay_out_def and_then_Inr key)
  have t2: "reservations t2 = ?rows"
    using c u by (auto simp: claim_status_def update_state_Inr split: if_splits)
  have s': "reservations s' = reservations t3" "fl_state s' \<noteq> None" using p by (auto simp: sync_Inr)
  have "\<exists>r'. find_by rz_reference k (reservations t3) = Some r' \<and> closed_by r' ''SUCCESSFUL'' ref reason"
  proof (cases "\<exists>v. ref = Some v \<and> truthy ref \<and> rz_providerRef r = None")
    case True
    then show ?thesis
      using e t2 w key
      by (auto simp: enrichReservationProviderRef_def Let_def zr.claim_find closed_by_def refs_contradict_def fill_rz_ref_def
          rz_ref_absent_def split: if_splits option.splits)
  next
    case False
    then have "t3 = t2"
      using e nc by (auto simp: enrichReservationProviderRef_def refs_contradict_def truthy_def reread_Inr split: if_splits)
    then show ?thesis using t2 w nc by (simp add: closed_by_def)
  qed
  then show ?thesis using s' by simp
qed

lemma give_back_closes:
  assumes d: "distinct (map rz_reference (reservations s))" and r: "find_by rz_reference k (reservations s) = Some r"
    and st: "rz_status r \<noteq> RELEASED" and run: "give_back cx r s = (Inr x, s')"
  shows "\<exists>r'. find_by rz_reference k (reservations s') = Some r' \<and> closed_by r' ''FAILED'' ref reason \<and> fl_state s' \<noteq> None"
proof -
  have key: "rz_reference r = k" using r by blast
  have "reservations s' = claim_rows rz_reference (has_status (rz_status r)) (advance cx RELEASED) k (reservations s)"
    and fl: "fl_state s' \<noteq> None"
    using run by (auto simp: give_back_def and_then_Inr key claim_status_def update_state_Inr sync_Inr reread_Inr split: if_splits)
  then show ?thesis
    using claim_status_wins(2) [OF d r st [symmetric], of cx] by (simp add: closed_by_def) (simp add: advance_def)
qed

lemma settled_row:
  assumes reach: "liq_run sha parse empty_liquidity s" and run: "settleReservation cx k outcome ref reason id s = (Inr x, s')"
  shows "\<exists>r'. find_by rz_reference k (reservations s') = Some r' \<and> closed_by r' outcome ref reason \<and> fl_state s' \<noteq> None"
proof -
  let ?s = "ensureStateRow s"
  have out: "outcome \<in> {''SUCCESSFUL'', ''FAILED''}"
    using run by (auto simp: settleReservation_def split: if_splits)
  obtain r where r: "find_by rz_reference k (reservations s) = Some r"
    using run by (auto simp: settleReservation_def split: if_splits option.splits)
  note facts = row_facts [OF reach r]
  have d: "distinct (map rz_reference (reservations ?s))" and r': "find_by rz_reference k (reservations ?s) = Some r"
    using facts r by simp_all
  consider (replay) "s' = ?s" "closed_by r outcome ref reason"
    | (quarantine) "quarantineContradictoryOutcome cx r ?s = (Inr x, s')" "rz_status r \<noteq> RECONCILIATION_REQUIRED"
    | (pay) "pay_out cx r ref ?s = (Inr x, s')" "rz_status r = IN_TRANSIT" "outcome = ''SUCCESSFUL''" "\<not> refs_contradict ref (rz_providerRef r)"
    | (returned) "give_back cx r ?s = (Inr x, s')" "rz_status r \<noteq> RELEASED" "outcome = ''FAILED''"
    using run r out by (auto simp: settleReservation_def closed_by_def Let_def split: if_splits reservation_status.splits)
  then show ?thesis
  proof cases
    case quarantine
    then show ?thesis
      using quarantine_outcome [OF d r', of "buckets_of s" cx] facts(2) by (auto simp: closed_by_def)
  qed (use r pay_out_closes [OF d r'] give_back_closes [OF d r'] in auto)
qed

text \<open>Provider outcomes are safe to redeliver: after a settlement has committed, delivering the
  same outcome again answers as a replay and leaves the database exactly as it is.\<close>

theorem settlement_redelivery:
  assumes "liq_run sha parse empty_liquidity s" and "settleReservation cx k outcome ref reason id s = (Inr x, s')"
  shows "\<exists>y. settleReservation cx' k outcome ref reason id s' = (Inr y, s') \<and> rr_replay y"
proof -
  obtain r' where r': "find_by rz_reference k (reservations s') = Some r'" "closed_by r' outcome ref reason" "fl_state s' \<noteq> None"
    using settled_row [OF assms] by blast
  have "ensureStateRow s' = s'" using r'(3) by (auto simp: ensureStateRow_def)
  moreover have "outcome \<in> {''SUCCESSFUL'', ''FAILED''}"
    using assms(2) by (auto simp: settleReservation_def split: if_splits)
  ultimately show ?thesis
    using r' by (cases "rz_status r'") (auto simp: settleReservation_def closed_by_def plain_result_def Let_def)
qed

theorem settlement_redelivery_witness:
  "\<exists>y. settleReservation cx0 ''w1'' ''SUCCESSFUL'' (Some ''x1'') None id (with_payout PAID_OUT (bucket_row 20000 0 0 30000 0)) =
     (Inr y, with_payout PAID_OUT (bucket_row 20000 0 0 30000 0)) \<and> rr_replay y"
proof -
  have "settleReservation cx0 ''w1'' ''SUCCESSFUL'' (Some ''x1'') None id (with_payout IN_TRANSIT (bucket_row 20000 0 30000 0 0)) =
      (Inr (plain_result (payout IN_TRANSIT) False), with_payout PAID_OUT (bucket_row 20000 0 0 30000 0))"
    by (simp add: settleReservation_def pay_out_def refs_contradict_def truthy_def enrichReservationProviderRef_def
        rz_ref_absent_def Let_def payout_defs)
  from settlement_redelivery [OF run_in_transit this] show ?thesis .
qed

section \<open>Reconciliation against the books\<close>

lemma mismatches_empty: "mismatches b e = [] \<longleftrightarrow> b = e"
  by (auto simp: mismatches_def)

lemma expected_view:
  "expected_buckets s =
   \<lparr>availableGhs = available_evidence s - status_total RESERVED s - status_total IN_TRANSIT s
      - status_total PAID_OUT s - status_total RECONCILIATION_REQUIRED s,
    reservedGhs = status_total RESERVED s, inTransitGhs = status_total IN_TRANSIT s,
    paidOutGhs = status_total PAID_OUT s, reconciliationHeldGhs = status_total RECONCILIATION_REQUIRED s\<rparr>"
  by (simp add: expected_buckets_def Let_def active_total status_total_def)

lemma no_recon_total:
  "\<forall>r \<in> set (reservations s). rz_status r \<noteq> RECONCILIATION_REQUIRED \<Longrightarrow> status_total RECONCILIATION_REQUIRED s = 0"
  by (simp add: status_total_def filter_False)

text \<open>The two findings on the aggregate row come from \<open>state_discrepancies\<close> only.\<close>

lemma state_findings:
  assumes "d \<in> set (find_discrepancies h b s)" and "dc_entityType d = ''FIAT_LIQUIDITY_STATE''"
  shows "d \<in> set (state_discrepancies b s)"
proof -
  have "dc_entityType x = ''FIAT_LIQUIDITY_RECEIPT''" if "x \<in> set (duplicate_refs seen rs)" for x seen rs
    using that by (induction seen rs rule: duplicate_refs.induct) (auto simp: discrepancy_of_def split: option.splits if_splits)
  then show ?thesis
    using assms
    by (fastforce simp: find_discrepancies_def Let_def discrepancy_of_def List.map_filter_def split: option.splits if_splits)
qed

text \<open>C30: Reconciliation is sound on the authority's own books: in a reachable state without
  quarantined reservations it reports no finding against the aggregate row, and in any
  reachable state it never reports available money without supporting evidence.\<close>

theorem reconcile_accepts_books:
  assumes "liq_run sha parse empty_liquidity s" and "reconcile cx h dry s = (Inr (ds, b), s')"
  shows "((\<forall>r \<in> set (reservations s). rz_status r \<noteq> RECONCILIATION_REQUIRED) \<longrightarrow>
      (\<forall>d \<in> set ds. dc_entityType d \<noteq> ''FIAT_LIQUIDITY_STATE'')) \<and>
    (\<forall>d \<in> set ds. dc_entityType d = ''FIAT_LIQUIDITY_STATE'' \<longrightarrow> dc_reason d \<noteq> ''AVAILABLE_UNSUPPORTED'')"
proof -
  have b: "buckets_of s = b" and ds: "ds = find_discrepancies (cx_now cx - h * 60000) b s"
    using assms(2) by (auto simp: reconcile_def Let_def buckets_of_def split: option.splits if_splits)
  note inv = reachable_view(1) [OF assms(1), unfolded view_inv_def lv_buckets_view money_view b bucket_total_def]
  have "availableGhs b \<le> available_evidence s" using inv by linarith
  then have "dc_reason d = ''STATE_CONSERVATION_DELTA''" if "d \<in> set (state_discrepancies b s)" for d
    using that by (auto simp: state_discrepancies_def discrepancy_of_def split: if_splits)
  moreover have "state_discrepancies b s = []" if "\<forall>r \<in> set (reservations s). rz_status r \<noteq> RECONCILIATION_REQUIRED"
  proof -
    have "b = expected_buckets s" using inv no_recon_total [OF that] by (cases b) (simp add: expected_view)
    then show ?thesis using inv by (simp add: state_discrepancies_def mismatches_empty)
  qed
  ultimately show ?thesis using state_findings [of _ _ b s] unfolding ds by fastforce
qed

theorem reconcile_accepts_books_witness:
  "\<exists>ds s'. reconcile cx0 60 True (with_payout PAID_OUT (bucket_row 20000 0 0 30000 0)) =
      (Inr (ds, bucket_row 20000 0 0 30000 0), s') \<and> (\<forall>d \<in> set ds. dc_entityType d \<noteq> ''FIAT_LIQUIDITY_STATE'')"
proof -
  let ?s = "with_payout PAID_OUT (bucket_row 20000 0 0 30000 0)"
  obtain ds s' where r: "reconcile cx0 60 True ?s = (Inr (ds, bucket_row 20000 0 0 30000 0), s')"
    by (simp add: reconcile_def with_payout_def Let_def)
  moreover have "\<forall>r \<in> set (reservations ?s). rz_status r \<noteq> RECONCILIATION_REQUIRED"
    by (simp add: with_payout_def payout_def)
  ultimately show ?thesis using reconcile_accepts_books [OF run_paid r] by blast
qed

text \<open>Quarantining a reservation that was already paid out leaves the books short of
  the reconciliation's expectation: the paid bucket keeps the amount although its row now
  counts as held, so reconciliation reports a conservation delta on the paid bucket.\<close>

theorem quarantined_payment_misreconciles:
  assumes "liq_run sha parse empty_liquidity s" and "find_by rz_reference k (reservations s) = Some r"
    and "rz_status r = PAID_OUT" and "settleReservation cx k ''FAILED'' ref reason id s = (Inr x, s')"
    and "fl_state s' = Some b"
  shows "\<exists>d \<in> set (state_discrepancies b s'). dc_reason d = ''STATE_CONSERVATION_DELTA'' \<and> ''paidOutGhs'' \<in> set (dc_buckets d)"
proof -
  note facts = row_facts [OF assms(1,2)]
  have "contradicts r ''FAILED'' ref" using assms(3) by (simp add: contradicts_def)
  from settle_contradiction [OF assms(2) _ this] assms(4)
  have q: "quarantineContradictoryOutcome cx r (ensureStateRow s) = (Inr x, s')" by simp
  have rows: "reservations s' = claim_rows rz_reference (has_status PAID_OUT) (advance cx RECONCILIATION_REQUIRED) k (reservations s)"
    and b: "b = buckets_of s"
    using quarantine_outcome [of "ensureStateRow s" k r "buckets_of s" cx] facts(1) assms(2,3,5) q
    by (auto simp: held_buckets_def)
  have "status_total PAID_OUT s' = status_total PAID_OUT s - rz_amountGhs r"
    using conditional_claim.claim_sum [OF status_claim facts(1) assms(2), of RECONCILIATION_REQUIRED PAID_OUT "status_amount PAID_OUT" cx] assms(3)
    by (simp add: status_total_rows view_of_def rows has_status_def status_amount_def)
  moreover have "status_total PAID_OUT s \<le> paidOutGhs b"
    using reachable_view(1) [OF assms(1)] by (simp add: view_inv_def money_view b)
  ultimately have "paidOutGhs b \<noteq> paidOutGhs (expected_buckets s')"
    using facts(2) by (simp add: expected_view)
  then show ?thesis by (auto simp: state_discrepancies_def mismatches_def discrepancy_of_def)
qed

theorem quarantined_payment_misreconciles_witness:
  "\<exists>x s' b. settleReservation cx0 ''w1'' ''FAILED'' None None id (with_payout PAID_OUT (bucket_row 20000 0 0 30000 0)) = (Inr x, s') \<and>
     fl_state s' = Some b \<and> state_discrepancies b s' \<noteq> []"
proof -
  let ?s = "with_payout PAID_OUT (bucket_row 20000 0 0 30000 0)"
  have r: "find_by rz_reference ''w1'' (reservations ?s) = Some (payout PAID_OUT)" "rz_status (payout PAID_OUT) = PAID_OUT"
    by (simp_all add: payout_defs)
  then obtain x s' where "settleReservation cx0 ''w1'' ''FAILED'' None None id ?s = (Inr x, s')" "fl_state s' \<noteq> None"
    using settle_contradiction [OF r(1), of "''FAILED''" None cx0 None id] row_facts [OF run_paid r(1)]
      quarantine_outcome [of "ensureStateRow ?s" "''w1''" "payout PAID_OUT" _ cx0] by (auto simp: contradicts_def)
  then show ?thesis using quarantined_payment_misreconciles [OF run_paid r, of cx0 None None x s'] by fastforce
qed

text \<open>A late success for a released payout takes the disputed amount out of the available bucket
  but leaves the pool projection as it was, so the projection that other code reads
  overstates the available money by exactly that amount.\<close>

theorem quarantined_release_leaves_pool:
  assumes "liq_run sha parse empty_liquidity s" and "find_by rz_reference k (reservations s) = Some r"
    and "rz_status r = RELEASED" and "rz_amountGhs r \<le> availableGhs (buckets_of s)"
    and "settleReservation cx k ''SUCCESSFUL'' ref reason id s = (Inr x, s')"
  shows "pool s' = pool s \<and> availableGhs (buckets_of s') = availableGhs (buckets_of s) - rz_amountGhs r"
proof -
  note facts = row_facts [OF assms(1,2)]
  have "contradicts r ''SUCCESSFUL'' ref" using assms(3) by (simp add: contradicts_def)
  from settle_contradiction [OF assms(2) _ this] assms(5)
  have q: "quarantineContradictoryOutcome cx r (ensureStateRow s) = (Inr x, s')" by simp
  have "pool (ensureStateRow s) = pool s" by (simp add: ensureStateRow_def split: option.splits)
  then show ?thesis
    using quarantine_outcome [of "ensureStateRow s" k r "buckets_of s" cx] facts(1) assms(2-4) q
    by (auto simp: held_buckets_def shift_def buckets_of_Some)
qed

theorem quarantined_release_leaves_pool_witness:
  "\<exists>x s'. settleReservation cx0 ''w1'' ''SUCCESSFUL'' None None id (with_payout RELEASED (bucket_row 50000 0 0 0 0)) = (Inr x, s') \<and>
     pool s' = Some 50000 \<and> availableGhs (buckets_of s') = 20000"
proof -
  let ?s = "with_payout RELEASED (bucket_row 50000 0 0 0 0)"
  have r: "find_by rz_reference ''w1'' (reservations ?s) = Some (payout RELEASED)" "rz_status (payout RELEASED) = RELEASED"
    "rz_amountGhs (payout RELEASED) = 30000" "availableGhs (buckets_of ?s) = 50000" "pool ?s = Some 50000"
    by (simp_all add: payout_defs buckets_of_def)
  then obtain x s' where "settleReservation cx0 ''w1'' ''SUCCESSFUL'' None None id ?s = (Inr x, s')"
    using settle_contradiction [OF r(1), of "''SUCCESSFUL''" None cx0 None id] row_facts [OF run_released r(1)]
      quarantine_outcome [of "ensureStateRow ?s" "''w1''" "payout RELEASED" _ cx0] by (auto simp: contradicts_def)
  then show ?thesis using quarantined_release_leaves_pool [OF run_released r(1,2), of cx0 None None x s'] r by auto
qed

end
