(* ===== verification/Settlement_Attempts.thy ===== *)
theory Settlement_Attempts
  imports Js_Text Interleaving
begin

text \<open>
  Provider settlement attempts, \<^verbatim>\<open>services/providerSettlementAttemptService.js\<close>: the durable
  identity of an external attempt, one row per provider and provider reference, linked to the
  \<open>TransactionHistory\<close> row it settles. Callbacks arrive in any order.

  The service runs autocommit statements: it reads the transaction and the attempt, others may
  commit (\<open>env\<close>), it updates or upserts, others may commit again (\<open>late\<close>) and only a lost
  upsert re-reads. Metadata is its JSON text, \<open>now\<close> is \<open>CURRENT_TIMESTAMP\<close>, and an absent
  optional argument is \<open>None\<close>.
\<close>

section \<open>Rows and arguments\<close>

record attempt =
  at_transaction :: string
  at_provider :: string
  at_reference :: string
  at_providerTxId :: "string option"
  at_status :: string
  at_firstSeenAt :: int
  at_lastSeenAt :: int
  at_settledAt :: "int option"
  at_failureReason :: "string option"
  at_metadata :: "string option"

record attempt_db =
  ad_transactions :: "(string \<times> string) list"
  ad_attempts :: "attempt list"

datatype attempt_error =
    UNSUPPORTED_PROVIDER
  | UNSUPPORTED_STATUS
  | ReferenceRequired
  | ProviderReferenceRequired
  | UNKNOWN_REFERENCE
  | PROVIDER_REFERENCE_CONFLICT
  | AttemptDisappeared

record attempt_args =
  aa_reference :: "string option"
  aa_provider :: "string option"
  aa_providerReference :: "string option"
  aa_providerTxId :: "string option"
  aa_status :: "string option"
  aa_failureReason :: "string option"
  aa_metadata :: "string option"

section \<open>Normalisation\<close>

definition PROVIDER_VALUES :: "string list" where
  "PROVIDER_VALUES = [''MTN_MOMO_DISBURSEMENT'', ''MOOLRE'', ''MOOLRE_DISBURSEMENT'']"

definition ATTEMPT_STATUSES :: "string list" where
  "ATTEMPT_STATUSES = [''PENDING'', ''COMPLETED'', ''FAILED'']"

definition normalizeProvider :: "string option \<Rightarrow> attempt_error + string" where
  "normalizeProvider provider =
     (let v = js_upper (js_trim (or_empty provider)) in
      if v = ''DISBURSEMENT'' then Inr ''MTN_MOMO_DISBURSEMENT''
      else if v \<notin> set PROVIDER_VALUES then Inl UNSUPPORTED_PROVIDER
      else Inr v)"

definition normalizeStatus :: "string option \<Rightarrow> attempt_error + string" where
  "normalizeStatus status =
     (let v = js_upper (js_trim (case or_null status of None \<Rightarrow> ''PENDING'' | Some s \<Rightarrow> s)) in
      if v \<notin> set ATTEMPT_STATUSES then Inl UNSUPPORTED_STATUS else Inr v)"

definition terminalStatus :: "string \<Rightarrow> bool" where
  "terminalStatus st \<longleftrightarrow> st = ''COMPLETED'' \<or> st = ''FAILED''"

section \<open>Statements\<close>

definition at_key :: "attempt \<Rightarrow> string \<times> string" where
  "at_key r = (at_provider r, at_reference r)"

text \<open>The \<open>SET\<close> clause shared by the \<open>UPDATE\<close> and the \<open>ON CONFLICT DO UPDATE\<close>.\<close>

definition refresh_attempt :: "int \<Rightarrow> string \<Rightarrow> string option \<Rightarrow> string option \<Rightarrow> string option \<Rightarrow> attempt \<Rightarrow> attempt" where
  "refresh_attempt now st txid reason meta r =
     r\<lparr>at_providerTxId := coalesce txid (at_providerTxId r),
       at_status := (if terminalStatus (at_status r) then at_status r else st),
       at_lastSeenAt := now,
       at_settledAt :=
         (if terminalStatus (at_status r) then coalesce (at_settledAt r) (Some now)
          else if terminalStatus st then Some now else at_settledAt r),
       at_failureReason :=
         (if at_status r = ''COMPLETED'' then at_failureReason r
          else if st = ''FAILED'' then coalesce reason (at_failureReason r)
          else at_failureReason r),
       at_metadata := coalesce meta (at_metadata r)\<rparr>"

definition update_attempt :: "string \<times> string \<Rightarrow> (attempt \<Rightarrow> attempt) \<Rightarrow> attempt_db \<Rightarrow> attempt_db" where
  "update_attempt k f s = s\<lparr>ad_attempts := update_by (\<lambda>r. at_key r = k) f (ad_attempts s)\<rparr>"

type_synonym attempt_result = "attempt \<times> bool"

section \<open>Operations\<close>

record attempt_request =
  rq_reference :: string
  rq_key :: "string \<times> string"
  rq_status :: string
  rq_txid :: "string option"
  rq_reason :: "string option"
  rq_metadata :: "string option"

definition check_attempt :: "attempt_args \<Rightarrow> attempt_error + attempt_request" where
  "check_attempt a =
     (case or_null (aa_reference a) of
        None \<Rightarrow> Inl ReferenceRequired
      | Some reference \<Rightarrow>
     (case or_null (case aa_providerReference a of None \<Rightarrow> Some reference | Some p \<Rightarrow> Some p) of
        None \<Rightarrow> Inl ProviderReferenceRequired
      | Some pref \<Rightarrow>
          bind_sum (normalizeProvider (aa_provider a)) (\<lambda>prov.
          bind_sum (normalizeStatus (aa_status a)) (\<lambda>st.
            Inr \<lparr>rq_reference = reference, rq_key = (prov, pref), rq_status = st, rq_txid = or_null (aa_providerTxId a),
                 rq_reason = or_null (aa_failureReason a), rq_metadata = aa_metadata a\<rparr>))))"

definition refresh_with :: "int \<Rightarrow> attempt_request \<Rightarrow> attempt \<Rightarrow> attempt" where
  "refresh_with now q = refresh_attempt now (rq_status q) (rq_txid q) (rq_reason q) (rq_metadata q)"

definition new_attempt :: "int \<Rightarrow> string \<Rightarrow> attempt_request \<Rightarrow> attempt" where
  "new_attempt now txn q =
     \<lparr>at_transaction = txn, at_provider = fst (rq_key q), at_reference = snd (rq_key q), at_providerTxId = rq_txid q,
      at_status = rq_status q, at_firstSeenAt = now, at_lastSeenAt = now,
      at_settledAt = (if terminalStatus (rq_status q) then Some now else None),
      at_failureReason = rq_reason q, at_metadata = rq_metadata q\<rparr>"

definition update_existing ::
  "int \<Rightarrow> attempt_request \<Rightarrow> attempt \<Rightarrow> attempt_db \<Rightarrow> (attempt_error, attempt_result, attempt_db) outcome" where
  "update_existing now q row s =
     (let s' = update_attempt (rq_key q) (refresh_with now q) s;
          effective = (case find_by at_key (rq_key q) (ad_attempts s') of Some r \<Rightarrow> r | None \<Rightarrow> row) in
      (Inr (effective, at_status row \<noteq> at_status effective), s'))"

definition insert_attempt ::
  "int \<Rightarrow> attempt_request \<Rightarrow> string \<Rightarrow> (attempt_db \<Rightarrow> attempt_db) \<Rightarrow> attempt_db \<Rightarrow>
   (attempt_error, attempt_result, attempt_db) outcome" where
  "insert_attempt now q txn late s =
     (case find_by at_key (rq_key q) (ad_attempts s) of
        None \<Rightarrow> (let r = new_attempt now txn q in (Inr (r, True), s\<lparr>ad_attempts := ad_attempts s @ [r]\<rparr>))
      | Some other \<Rightarrow>
          (if at_transaction other = txn
           then (Inr (refresh_with now q other, True), update_attempt (rq_key q) (refresh_with now q) s)
           else
             let s2 = late s in
             case find_by at_key (rq_key q) (ad_attempts s2) of
               None \<Rightarrow> (Inl AttemptDisappeared, s2)
             | Some winner \<Rightarrow>
                 (if at_transaction winner \<noteq> txn then (Inl PROVIDER_REFERENCE_CONFLICT, s2)
                  else (Inr (winner, False), s2))))"

definition recordProviderSettlementAttempt ::
  "int \<Rightarrow> attempt_args \<Rightarrow> (attempt_db \<Rightarrow> attempt_db) \<Rightarrow> (attempt_db \<Rightarrow> attempt_db) \<Rightarrow> attempt_db \<Rightarrow>
   (attempt_error, attempt_result, attempt_db) outcome" where
  "recordProviderSettlementAttempt now a env late s =
     (case check_attempt a of
        Inl e \<Rightarrow> (Inl e, s)
      | Inr q \<Rightarrow>
     (case find_by fst (rq_reference q) (ad_transactions s) of
        None \<Rightarrow> (Inl UNKNOWN_REFERENCE, s)
      | Some (_, txn) \<Rightarrow>
     (case find_by at_key (rq_key q) (ad_attempts s) of
        Some row \<Rightarrow>
          (if at_transaction row \<noteq> txn then (Inl PROVIDER_REFERENCE_CONFLICT, s)
           else update_existing now q row (env s))
      | None \<Rightarrow> insert_attempt now q txn late (env s))))"

definition getProviderSettlementAttempt ::
  "string option \<Rightarrow> string \<Rightarrow> attempt_db \<Rightarrow> attempt_error + attempt option" where
  "getProviderSettlementAttempt provider pref s =
     (case normalizeProvider provider of
        Inl e \<Rightarrow> Inl e
      | Inr prov \<Rightarrow> Inr (find_by at_key (prov, pref) (ad_attempts s)))"

section \<open>Histories of callbacks\<close>

definition attempt_ok :: "attempt \<Rightarrow> bool" where
  "attempt_ok r \<longleftrightarrow> at_status r \<in> set ATTEMPT_STATUSES \<and> (at_settledAt r \<noteq> None \<longleftrightarrow> terminalStatus (at_status r))"

definition attempts_inv :: "attempt_db \<Rightarrow> bool" where
  "attempts_inv s \<longleftrightarrow> distinct (map at_key (ad_attempts s)) \<and> (\<forall>r \<in> set (ad_attempts s). attempt_ok r)"

text \<open>What a row keeps: its identity and its transaction for ever; a terminal status and its
  settlement time; the failure reason of a completed attempt; the provider's transaction id
  once there is one.\<close>

definition attempt_evolves :: "attempt \<Rightarrow> attempt \<Rightarrow> bool" where
  "attempt_evolves x y \<longleftrightarrow>
     at_key y = at_key x \<and> at_transaction y = at_transaction x \<and> at_firstSeenAt y = at_firstSeenAt x \<and>
     (terminalStatus (at_status x) \<longrightarrow> at_status y = at_status x \<and> (at_settledAt x \<noteq> None \<longrightarrow> at_settledAt y = at_settledAt x)) \<and>
     (at_status x = ''COMPLETED'' \<longrightarrow> at_failureReason y = at_failureReason x) \<and>
     (at_providerTxId x \<noteq> None \<longrightarrow> at_providerTxId y \<noteq> None)"

definition attempts_evolve :: "attempt_db \<Rightarrow> attempt_db \<Rightarrow> bool" where
  "attempts_evolve s t \<longleftrightarrow>
     ad_transactions t = ad_transactions s \<and> rows_evolve at_key attempt_evolves (ad_attempts s) (ad_attempts t)"

definition attempt_exec ::
  "(attempt_db \<Rightarrow> attempt_db) \<Rightarrow> int \<times> attempt_args \<Rightarrow> attempt_db \<Rightarrow> (attempt_error, attempt_result, attempt_db) outcome" where
  "attempt_exec env c = recordProviderSettlementAttempt (fst c) (snd c) env id"

lemma attempt_evolves_refl: "attempt_evolves x x"
  by (simp add: attempt_evolves_def)

lemma transp_attempt_evolves: "transp attempt_evolves"
  by (rule transpI) (auto simp: attempt_evolves_def terminalStatus_def)

lemma refresh_key [simp]: "at_key (refresh_attempt now st txid reason meta r) = at_key r"
  "at_transaction (refresh_attempt now st txid reason meta r) = at_transaction r"
  by (simp_all add: refresh_attempt_def at_key_def)

lemma refresh_evolves: "attempt_evolves r (refresh_attempt now st txid reason meta r)"
  by (auto simp: attempt_evolves_def refresh_attempt_def at_key_def terminalStatus_def coalesce_def split: option.splits)

lemma refresh_ok: "attempt_ok r \<Longrightarrow> st \<in> set ATTEMPT_STATUSES \<Longrightarrow> attempt_ok (refresh_attempt now st txid reason meta r)"
  by (auto simp: attempt_ok_def refresh_attempt_def coalesce_def split: option.splits)

lemma normalizeStatus_valid: "normalizeStatus v = Inr st \<Longrightarrow> st \<in> set ATTEMPT_STATUSES"
  by (auto simp: normalizeStatus_def Let_def split: if_splits)

lemma check_attempt_valid: "check_attempt a = Inr q \<Longrightarrow> rq_status q \<in> set ATTEMPT_STATUSES"
  by (auto simp: check_attempt_def normalizeStatus_valid split: option.splits)

lemma attempts_evolve_refl [simp]: "attempts_evolve s s"
  by (simp add: attempts_evolve_def rows_evolve_refl attempt_evolves_refl)

lemma attempts_evolve_trans: "attempts_evolve s t \<Longrightarrow> attempts_evolve t u \<Longrightarrow> attempts_evolve s u"
  using rows_evolve_trans [OF transp_attempt_evolves] by (auto simp: attempts_evolve_def)

lemma update_attempt_keeps:
  assumes "attempts_inv s" and "rq_status q \<in> set ATTEMPT_STATUSES"
  shows "attempts_inv (update_attempt k (refresh_with now q) s) \<and> attempts_evolve s (update_attempt k (refresh_with now q) s)"
  using assms
  by (auto simp: attempts_inv_def attempts_evolve_def update_attempt_def set_update_by refresh_with_def refresh_ok
      rows_evolve_update attempt_evolves_refl refresh_evolves)

lemma insert_attempt_keeps:
  assumes "insert_attempt now q txn id s = (r, s')" and "attempts_inv s" and "rq_status q \<in> set ATTEMPT_STATUSES"
  shows "attempts_inv s' \<and> attempts_evolve s s'"
proof (cases "find_by at_key (rq_key q) (ad_attempts s)")
  case None
  then have s': "s' = s\<lparr>ad_attempts := ad_attempts s @ [new_attempt now txn q]\<rparr>"
    using assms(1) by (simp add: insert_attempt_def Let_def)
  have "at_key (new_attempt now txn q) = rq_key q" "attempt_ok (new_attempt now txn q)"
    using assms(3) by (simp_all add: new_attempt_def at_key_def attempt_ok_def)
  then show ?thesis
    using assms(2) None
    by (simp add: s' attempts_inv_def attempts_evolve_def rows_evolve_append attempt_evolves_refl find_by_None)
next
  case (Some other)
  then have "s' = s \<or> s' = update_attempt (rq_key q) (refresh_with now q) s"
    using assms(1) by (auto simp: insert_attempt_def split: if_splits)
  then show ?thesis
    using update_attempt_keeps [OF assms(2,3)] assms(2) attempts_evolve_refl by blast
qed

interpretation attempts: interleaved_service attempt_exec attempts_inv attempts_evolve
proof
  fix s t u :: attempt_db
  show "attempts_evolve s s" by simp
  show "attempts_evolve s t \<Longrightarrow> attempts_evolve t u \<Longrightarrow> attempts_evolve s u" by (rule attempts_evolve_trans)
next
  fix env c s r s'
  assume run: "attempt_exec env c s = (r, s')" and inv: "attempts_inv s" "attempts_inv (env s)" "attempts_evolve s (env s)"
  consider (same) "s' = s"
    | (update) q row where "check_attempt (snd c) = Inr q" "update_existing (fst c) q row (env s) = (r, s')"
    | (insert) q txn where "check_attempt (snd c) = Inr q" "insert_attempt (fst c) q txn id (env s) = (r, s')"
    using run by (auto simp: attempt_exec_def recordProviderSettlementAttempt_def split: sum.splits option.splits if_splits)
  then show "attempts_inv s' \<and> attempts_evolve s s'"
  proof cases
    case update
    then have "s' = update_attempt (rq_key q) (refresh_with (fst c) q) (env s)" by (simp add: update_existing_def Let_def)
    then show ?thesis
      using update_attempt_keeps [OF inv(2) check_attempt_valid [OF update(1)]] attempts_evolve_trans [OF inv(3)] by simp
  next
    case insert
    then show ?thesis
      using insert_attempt_keeps [OF _ inv(2) check_attempt_valid [OF insert(1)]] attempts_evolve_trans [OF inv(3)] by blast
  qed (use inv in simp)
qed

definition empty_attempts :: "(string \<times> string) list \<Rightarrow> attempt_db" where
  "empty_attempts txns = \<lparr>ad_transactions = txns, ad_attempts = []\<rparr>"

lemma empty_attempts_inv: "attempts_inv (empty_attempts txns)"
  by (simp add: attempts_inv_def empty_attempts_def)

lemmas reachable_attempts = attempts.history_inv [OF _ empty_attempts_inv]

text \<open>C28: Over every interleaving of provider callbacks, in any order, an attempt never changes its
  provider identity or the transaction it is bound to, a terminal status and its settlement
  time are never changed again, a completed attempt's failure reason is frozen, and a known
  provider transaction id is never lost; at most one attempt exists per provider reference.\<close>

theorem terminal_attempt_never_regresses:
  assumes "history attempt_exec (empty_attempts txns) s" and "history attempt_exec s t"
    and "find_by at_key k (ad_attempts s) = Some x"
  shows "\<exists>y. find_by at_key k (ad_attempts t) = Some y \<and> at_transaction y = at_transaction x \<and>
    (terminalStatus (at_status x) \<longrightarrow> at_status y = at_status x \<and> at_settledAt y = at_settledAt x) \<and>
    (at_status x = ''COMPLETED'' \<longrightarrow> at_failureReason y = at_failureReason x) \<and>
    (at_providerTxId x \<noteq> None \<longrightarrow> at_providerTxId y \<noteq> None) \<and> distinct (map at_key (ad_attempts t))"
proof -
  note inv = reachable_attempts [OF assms(1)]
  have "attempts_evolve s t" "attempts_inv t" using attempts.history_keeps [OF assms(2) inv] by simp_all
  moreover have "attempt_ok x" using inv find_by_Some [OF assms(3)] by (auto simp: attempts_inv_def)
  moreover obtain y where "find_by at_key k (ad_attempts t) = Some y" "attempt_evolves x y"
    using calculation(1) assms(3) by (auto simp: attempts_evolve_def dest: rows_evolveD)
  ultimately show ?thesis
    by (auto simp: attempts_inv_def attempt_ok_def attempt_evolves_def)
qed

definition sample_callback :: "string \<Rightarrow> attempt_args" where
  "sample_callback st =
     \<lparr>aa_reference = Some ''w1'', aa_provider = Some ''moolre'', aa_providerReference = Some ''p1'', aa_providerTxId = None,
      aa_status = Some st, aa_failureReason = None, aa_metadata = None\<rparr>"

definition sample_attempt :: "int \<Rightarrow> attempt" where
  "sample_attempt seen =
     \<lparr>at_transaction = ''t1'', at_provider = ''MOOLRE'', at_reference = ''p1'', at_providerTxId = None, at_status = ''COMPLETED'',
      at_firstSeenAt = 5, at_lastSeenAt = seen, at_settledAt = Some 5, at_failureReason = None, at_metadata = None\<rparr>"

lemma upper_simps: "js_upper (js_trim ''moolre'') = ''MOOLRE''" "js_upper (js_trim ''completed'') = ''COMPLETED''"
  "js_upper (js_trim ''FAILED'') = ''FAILED''"
  by code_simp+

lemma sample_completed:
  "attempt_exec id (5, sample_callback ''completed'') (empty_attempts [(''w1'', ''t1'')]) =
   (Inr (sample_attempt 5, True), \<lparr>ad_transactions = [(''w1'', ''t1'')], ad_attempts = [sample_attempt 5]\<rparr>)"
  by (simp add: attempt_exec_def recordProviderSettlementAttempt_def check_attempt_def sample_callback_def normalizeProvider_def
      normalizeStatus_def or_empty_def upper_simps PROVIDER_VALUES_def ATTEMPT_STATUSES_def empty_attempts_def insert_attempt_def
      new_attempt_def sample_attempt_def terminalStatus_def Let_def)

lemma sample_failed_later:
  "attempt_exec id (9, sample_callback ''FAILED'') \<lparr>ad_transactions = [(''w1'', ''t1'')], ad_attempts = [sample_attempt 5]\<rparr> =
   (Inr (sample_attempt 9, False), \<lparr>ad_transactions = [(''w1'', ''t1'')], ad_attempts = [sample_attempt 9]\<rparr>)"
  by (simp add: attempt_exec_def recordProviderSettlementAttempt_def check_attempt_def sample_callback_def normalizeProvider_def
      normalizeStatus_def or_empty_def upper_simps PROVIDER_VALUES_def ATTEMPT_STATUSES_def update_existing_def update_attempt_def
      refresh_with_def refresh_attempt_def at_key_def sample_attempt_def terminalStatus_def Let_def)

theorem terminal_attempt_never_regresses_witness:
  "\<exists>t y. history attempt_exec (empty_attempts [(''w1'', ''t1'')]) t \<and>
     find_by at_key (''MOOLRE'', ''p1'') (ad_attempts t) = Some y \<and> at_status y = ''COMPLETED'' \<and> at_lastSeenAt y = 9"
proof -
  let ?s = "\<lparr>ad_transactions = [(''w1'', ''t1'')], ad_attempts = [sample_attempt 5]\<rparr>"
  let ?t = "\<lparr>ad_transactions = [(''w1'', ''t1'')], ad_attempts = [sample_attempt 9]\<rparr>"
  have s: "history attempt_exec (empty_attempts [(''w1'', ''t1'')]) ?s"
    by (rule history_call_alone [where exec = attempt_exec, OF history.stop sample_completed])
  have t: "history attempt_exec ?s ?t"
    by (rule history_call_alone [where exec = attempt_exec, OF history.stop sample_failed_later])
  have f: "find_by at_key (''MOOLRE'', ''p1'') (ad_attempts ?s) = Some (sample_attempt 5)"
    "terminalStatus (at_status (sample_attempt 5))" "at_status (sample_attempt 5) = ''COMPLETED''"
    by (simp_all add: sample_attempt_def at_key_def terminalStatus_def)
  from terminal_attempt_never_regresses [OF s t f(1)] f
  obtain y where "find_by at_key (''MOOLRE'', ''p1'') (ad_attempts ?t) = Some y" "at_status y = ''COMPLETED''" by auto
  moreover from this have "at_lastSeenAt y = 9" by (auto simp: sample_attempt_def at_key_def)
  ultimately show ?thesis using history_trans [OF t s] by blast
qed

lemma find_updated:
  "find_by at_key k (ad_attempts (update_attempt k (refresh_with now q) s)) =
   map_option (refresh_with now q) (find_by at_key k (ad_attempts s))"
proof -
  have "find_by at_key k (ad_attempts (update_attempt k (refresh_with now q) s)) =
      map_option (\<lambda>r. if at_key r = k then refresh_with now q r else r) (find_by at_key k (ad_attempts s))"
    unfolding update_attempt_def refresh_with_def by (simp add: find_by_update_by)
  then show ?thesis by (cases "find_by at_key k (ad_attempts s)") (auto dest: find_by_SomeD)
qed

lemma refresh_with_status [simp]:
  "at_status (refresh_with now q r) = (if terminalStatus (at_status r) then at_status r else rq_status q)"
  "at_transaction (refresh_with now q r) = at_transaction r"
  by (simp_all add: refresh_with_def refresh_attempt_def)

lemma recorded_row:
  assumes "attempt_exec id (now, a) s = (Inr (x, ch), s')"
  obtains q h txn row where "check_attempt a = Inr q" and "find_by fst (rq_reference q) (ad_transactions s') = Some (h, txn)"
    and "find_by at_key (rq_key q) (ad_attempts s') = Some row" and "at_transaction row = txn" and "at_transaction x = txn"
    and "terminalStatus (rq_status q) \<longrightarrow> terminalStatus (at_status row)"
proof -
  obtain q h txn where q: "check_attempt a = Inr q" "find_by fst (rq_reference q) (ad_transactions s) = Some (h, txn)"
    using assms by (auto simp: attempt_exec_def recordProviderSettlementAttempt_def split: sum.splits option.splits)
  have same: "ad_transactions (update_attempt k f s) = ad_transactions s" for k f by (simp add: update_attempt_def)
  have new: "at_key (new_attempt now txn q) = rq_key q" by (simp add: new_attempt_def at_key_def)
  show thesis
  proof (cases "find_by at_key (rq_key q) (ad_attempts s)")
    case None
    then have "s' = s\<lparr>ad_attempts := ad_attempts s @ [new_attempt now txn q]\<rparr>" "x = new_attempt now txn q"
      using assms q by (auto simp: attempt_exec_def recordProviderSettlementAttempt_def insert_attempt_def Let_def)
    then show thesis
      using that [OF q(1), of h txn "new_attempt now txn q"] q(2) None new by (simp add: new_attempt_def)
  next
    case (Some r)
    then have "at_transaction r = txn" "s' = update_attempt (rq_key q) (refresh_with now q) s"
      "x = refresh_with now q r"
      using assms q by (auto simp: attempt_exec_def recordProviderSettlementAttempt_def update_existing_def Let_def find_updated split: if_splits)
    then show thesis
      using that [OF q(1), of h txn "refresh_with now q r"] q(2) Some by (simp add: same find_updated)
  qed
qed

text \<open>A redelivered callback changes no status: once a callback has been recorded, then whatever
  other callbacks commit, delivering it again succeeds, reports no status change, and finds
  the attempt still bound to the same transaction.\<close>

theorem attempt_redelivery:
  assumes "history attempt_exec (empty_attempts txns) s" and "attempt_exec id (now, a) s = (Inr (x, ch), s')"
    and "history attempt_exec s' t"
  shows "\<exists>y t'. attempt_exec id (now', a) t = (Inr (y, False), t') \<and> at_transaction y = at_transaction x"
proof -
  obtain q h txn row where q: "check_attempt a = Inr q" "find_by fst (rq_reference q) (ad_transactions s') = Some (h, txn)"
    and row: "find_by at_key (rq_key q) (ad_attempts s') = Some row" "at_transaction row = txn" "at_transaction x = txn"
    and st: "terminalStatus (rq_status q) \<longrightarrow> terminalStatus (at_status row)"
    using assms(2) by (rule recorded_row)
  have "attempts_inv s'"
    using reachable_attempts [OF history_call_alone [OF assms(1,2)]] .
  from attempts.history_keeps [OF assms(3) this] have t: "attempts_inv t" "attempts_evolve s' t" by simp_all
  then obtain y where y: "find_by at_key (rq_key q) (ad_attempts t) = Some y" "attempt_evolves row y"
    using row(1) by (auto simp: attempts_evolve_def dest: rows_evolveD)
  have "attempt_ok y" using t(1) find_by_Some [OF y(1)] by (auto simp: attempts_inv_def)
  then have "terminalStatus (at_status y) \<or> rq_status q = at_status y"
    using st y(2) check_attempt_valid [OF q(1)]
    by (auto simp: attempt_ok_def ATTEMPT_STATUSES_def attempt_evolves_def terminalStatus_def)
  moreover have "find_by fst (rq_reference q) (ad_transactions t) = Some (h, txn)" "at_transaction y = txn"
    using q(2) t(2) y(2) row(2) by (simp_all add: attempts_evolve_def attempt_evolves_def)
  ultimately show ?thesis
    using q(1) y(1) row(3)
    by (auto simp: attempt_exec_def recordProviderSettlementAttempt_def update_existing_def Let_def find_updated)
qed

theorem attempt_redelivery_witness:
  "\<exists>y t'. attempt_exec id (9, sample_callback ''completed'') \<lparr>ad_transactions = [(''w1'', ''t1'')], ad_attempts = [sample_attempt 5]\<rparr> =
     (Inr (y, False), t') \<and> at_transaction y = ''t1''"
  using attempt_redelivery [OF history.stop sample_completed history.stop, of 9] by (simp add: sample_attempt_def)

end
