(* ===== verification/Payout_Ownership.thy ===== *)
theory Payout_Ownership
  imports Js_Text Interleaving Liquidity_Tables
begin

text \<open>
  Which provider owns a payout, \<^verbatim>\<open>services/payoutProviderOwnership.js\<close>: the mapping between
  failover tags and canonical provider names, the first-writer-wins ownership write into
  \<open>TransactionHistory.metadata\<close>, and the resolution of the owner from durable evidence.

  The metadata object is the record of the keys this module writes. Property access on a
  frozen object literal also finds the members inherited from \<open>Object.prototype\<close>;
  \<open>js_lookup\<close> tells them apart. The ownership write is one guarded statement; when it changes
  no row, other transactions may commit (\<open>env\<close>) before the row is read again.
\<close>

section \<open>Provider names\<close>

definition TAG_TO_CANONICAL :: "(string \<times> string) list" where
  "TAG_TO_CANONICAL = [(''moolre'', ''MOOLRE_DISBURSEMENT''), (''mtn'', ''MTN_MOMO_DISBURSEMENT'')]"

definition CANONICAL_TO_TAG :: "(string \<times> string) list" where
  "CANONICAL_TO_TAG =
     [(''MOOLRE'', ''moolre''), (''MOOLRE_DISBURSEMENT'', ''moolre''), (''MTN_MOMO'', ''mtn''),
      (''MTN_MOMO_DISBURSEMENT'', ''mtn'')]"

definition KNOWN_CANONICAL_PROVIDERS :: "string list" where
  "KNOWN_CANONICAL_PROVIDERS = map snd TAG_TO_CANONICAL"

definition canonicalProviderName :: "string option \<Rightarrow> string lookup" where
  "canonicalProviderName failoverTag = js_lookup TAG_TO_CANONICAL (js_lower (or_empty failoverTag))"

definition failoverTagFromCanonical :: "string option \<Rightarrow> string lookup" where
  "failoverTagFromCanonical canonicalName = js_lookup CANONICAL_TO_TAG (js_upper (or_empty canonicalName))"

section \<open>Rows\<close>

record conflict_record =
  cf_requestedTag :: string
  cf_requestedProvider :: "string lookup"
  cf_recordedOwner :: string
  cf_providerRef :: "string option"
  cf_at :: int

record owner_meta =
  om_payoutProvider :: "string option"
  om_payoutProviderName :: "string lookup"
  om_ownershipRecordedAt :: "int option"
  om_intendedProvider :: "string option"
  om_ownershipProviderRef :: "string option"
  om_conflicts :: "conflict_record list"

record payout_row =
  pr_txHash :: string
  pr_status :: string
  pr_metadata :: "owner_meta option"

record payout_owner =
  ow_tag :: string
  ow_canonicalName :: "string lookup"

datatype ownership_error =
    OwnerReferenceRequired
  | FailoverTagRequired
  | OWNERSHIP_PERSIST_FAILED
  | OWNERSHIP_CONFLICT

definition empty_meta :: owner_meta where
  "empty_meta =
     \<lparr>om_payoutProvider = None, om_payoutProviderName = Missing, om_ownershipRecordedAt = None, om_intendedProvider = None,
      om_ownershipProviderRef = None, om_conflicts = []\<rparr>"

definition meta_of :: "payout_row \<Rightarrow> owner_meta" where
  "meta_of r = (case pr_metadata r of None \<Rightarrow> empty_meta | Some m \<Rightarrow> m)"

definition owner_of :: "payout_row \<Rightarrow> string option" where
  "owner_of r = om_payoutProvider (meta_of r)"

definition readPayoutOwner :: "payout_row \<Rightarrow> payout_owner option" where
  "readPayoutOwner r =
     (case pr_metadata r of
        None \<Rightarrow> None
      | Some m \<Rightarrow>
          (case or_null (om_payoutProvider m) of
             None \<Rightarrow> None
           | Some tag \<Rightarrow> Some \<lparr>ow_tag = tag, ow_canonicalName = canonicalProviderName (Some tag)\<rparr>))"

section \<open>The ownership write\<close>

record ownership_args =
  oa_reference :: "string option"
  oa_failoverTag :: "string option"
  oa_intendedProvider :: "string option"
  oa_providerRef :: "string option"

text \<open>The guard and the patch of the single \<open>UPDATE\<close>; \<open>||\<close> on \<open>jsonb\<close> overwrites the
  patched keys only, and \<open>JSON.stringify\<close> drops a function, which is what the inherited
  \<open>constructor\<close> is.\<close>

definition may_own :: "string \<Rightarrow> payout_row \<Rightarrow> bool" where
  "may_own tag r \<longleftrightarrow>
     pr_status r \<in> {''PENDING'', ''FROZEN_DISPUTE''} \<and>
     (owner_of r = None \<or> owner_of r = Some tag)"

definition own_patch :: "int \<Rightarrow> string \<Rightarrow> string lookup \<Rightarrow> ownership_args \<Rightarrow> payout_row \<Rightarrow> payout_row" where
  "own_patch now tag name a r =
     (let m = meta_of r in
      r\<lparr>pr_metadata := Some (m\<lparr>om_payoutProvider := Some tag,
          om_payoutProviderName := (if js_lower tag = ''constructor'' then om_payoutProviderName m else name),
          om_ownershipRecordedAt := Some now,
          om_intendedProvider := (case or_null (oa_intendedProvider a) of None \<Rightarrow> om_intendedProvider m | Some i \<Rightarrow> Some i),
          om_ownershipProviderRef := (case oa_providerRef a of None \<Rightarrow> om_ownershipProviderRef m | Some p \<Rightarrow> Some p)\<rparr>)\<rparr>)"

definition append_conflict :: "conflict_record \<Rightarrow> payout_row \<Rightarrow> payout_row" where
  "append_conflict c r = (let m = meta_of r in r\<lparr>pr_metadata := Some (m\<lparr>om_conflicts := om_conflicts m @ [c]\<rparr>)\<rparr>)"

record ownership_result =
  or_rowsUpdated :: nat
  or_owner :: payout_owner

definition persistPayoutOwnership ::
  "int \<Rightarrow> ownership_args \<Rightarrow> (payout_row list \<Rightarrow> payout_row list) \<Rightarrow> payout_row list \<Rightarrow>
   (ownership_error, ownership_result, payout_row list) outcome" where
  "persistPayoutOwnership now a env s =
     (case or_null (oa_reference a) of
        None \<Rightarrow> (Inl OwnerReferenceRequired, s)
      | Some reference \<Rightarrow>
     (case or_null (oa_failoverTag a) of
        None \<Rightarrow> (Inl FailoverTagRequired, s)
      | Some tag \<Rightarrow>
     (let name = canonicalProviderName (Some tag); owner = \<lparr>ow_tag = tag, ow_canonicalName = name\<rparr> in
      if name = Missing then (Inl OWNERSHIP_PERSIST_FAILED, s)
      else if count_by (\<lambda>r. pr_txHash r = reference \<and> may_own tag r) s = 1
      then (Inr \<lparr>or_rowsUpdated = 1, or_owner = owner\<rparr>,
            update_by (\<lambda>r. pr_txHash r = reference \<and> may_own tag r) (own_patch now tag name a) s)
      else let s' = env s in
        case find_by pr_txHash reference s' of
          None \<Rightarrow> (Inl OWNERSHIP_PERSIST_FAILED, s')
        | Some row \<Rightarrow>
            (case or_null (owner_of row) of
               None \<Rightarrow> (Inl OWNERSHIP_PERSIST_FAILED, s')
             | Some existing \<Rightarrow>
                 (if existing = tag then (Inr \<lparr>or_rowsUpdated = 0, or_owner = owner\<rparr>, s')
                  else (Inl OWNERSHIP_CONFLICT,
                        update_by (\<lambda>r. pr_txHash r = reference)
                          (append_conflict \<lparr>cf_requestedTag = tag, cf_requestedProvider = name, cf_recordedOwner = existing,
                             cf_providerRef = oa_providerRef a, cf_at = now\<rparr>) s'))))))"

section \<open>Resolving the owner\<close>

datatype resolution =
    OWNED payout_owner
  | RECOVERED string string
  | CONFLICT "(string lookup \<times> string) list"
  | UNKNOWN

definition starts_with :: "string \<Rightarrow> string \<Rightarrow> bool" where
  "starts_with pre s \<longleftrightarrow> take (length pre) s = pre"

definition dispatch_evidence :: "string \<Rightarrow> fiat_event \<Rightarrow> bool" where
  "dispatch_evidence reference e \<longleftrightarrow>
     o_relatedReference (ev_obs e) = Some reference \<and> o_direction (ev_obs e) = ''OUTBOUND'' \<and>
     starts_with ''event:payout-dispatch:'' (ev_dedupKey e) \<and> o_provider (ev_obs e) \<in> set KNOWN_CANONICAL_PROVIDERS"

definition distinctProviders :: "string \<Rightarrow> fiat_event list \<Rightarrow> string list" where
  "distinctProviders reference es =
     rev (remdups (rev (map (\<lambda>e. o_provider (ev_obs e)) (filter (dispatch_evidence reference) es))))"

definition resolvePayoutOwner :: "fiat_event list \<Rightarrow> payout_row \<Rightarrow> resolution" where
  "resolvePayoutOwner es r =
     (if pr_txHash r = [] then UNKNOWN
      else case readPayoutOwner r of
        Some owner \<Rightarrow> OWNED owner
      | None \<Rightarrow>
          (case distinctProviders (pr_txHash r) es of
             [] \<Rightarrow> UNKNOWN
           | [p] \<Rightarrow>
               (case failoverTagFromCanonical (Some p) of
                  Own tag \<Rightarrow> RECOVERED tag p
                | _ \<Rightarrow> CONFLICT [(Missing, p)])
           | ps \<Rightarrow> CONFLICT (map (\<lambda>p. (failoverTagFromCanonical (Some p), p)) ps)))"

section \<open>First writer wins\<close>

text \<open>Besides ownership writes, other services create payout rows and change their status.\<close>

datatype ownership_call =
    Persist int ownership_args
  | NewPayout payout_row
  | SetStatus string string

definition set_status :: "string \<Rightarrow> payout_row \<Rightarrow> payout_row" where
  "set_status st r = r\<lparr>pr_status := st\<rparr>"

definition ownership_exec ::
  "(payout_row list \<Rightarrow> payout_row list) \<Rightarrow> ownership_call \<Rightarrow> payout_row list \<Rightarrow> (ownership_error + unit) \<times> payout_row list" where
  "ownership_exec env c s =
     (case c of
        Persist now a \<Rightarrow> (case persistPayoutOwnership now a env s of (Inl e, s') \<Rightarrow> (Inl e, s') | (Inr _, s') \<Rightarrow> (Inr (), s'))
      | NewPayout r \<Rightarrow> (Inr (), if pr_txHash r \<in> pr_txHash ` set s then s else s @ [r])
      | SetStatus h st \<Rightarrow> (Inr (), update_by (\<lambda>r. pr_txHash r = h) (set_status st) s))"

definition row_owned :: "payout_row \<Rightarrow> payout_row \<Rightarrow> bool" where
  "row_owned x y \<longleftrightarrow>
     pr_txHash y = pr_txHash x \<and> (owner_of x \<noteq> None \<longrightarrow> owner_of y = owner_of x) \<and>
     (\<exists>more. om_conflicts (meta_of y) = om_conflicts (meta_of x) @ more)"

definition rows_owned :: "payout_row list \<Rightarrow> payout_row list \<Rightarrow> bool" where
  "rows_owned = rows_evolve pr_txHash row_owned"

definition payouts_ok :: "payout_row list \<Rightarrow> bool" where
  "payouts_ok s \<longleftrightarrow> distinct (map pr_txHash s)"

lemma row_owned_refl: "row_owned x x"
  by (simp add: row_owned_def)

lemma transp_row_owned: "transp row_owned"
proof (rule transpI)
  fix x y z assume "row_owned x y" "row_owned y z"
  then show "row_owned x z" by (auto simp: row_owned_def)
qed

lemma meta_updates [simp]:
  "pr_txHash (own_patch now tag name a r) = pr_txHash r" "owner_of (own_patch now tag name a r) = Some tag"
  "om_conflicts (meta_of (own_patch now tag name a r)) = om_conflicts (meta_of r)"
  "pr_txHash (append_conflict c r) = pr_txHash r" "owner_of (append_conflict c r) = owner_of r"
  "om_conflicts (meta_of (append_conflict c r)) = om_conflicts (meta_of r) @ [c]"
  "pr_txHash (set_status st r) = pr_txHash r" "meta_of (set_status st r) = meta_of r"
  by (simp_all add: own_patch_def append_conflict_def set_status_def meta_of_def owner_of_def Let_def)

lemma own_patch_owned: "may_own tag r \<Longrightarrow> row_owned r (own_patch now tag name a r)"
  by (auto simp: row_owned_def may_own_def)

lemma rows_owned_update:
  "(\<And>r. pr_txHash (f r) = pr_txHash r) \<Longrightarrow> (\<And>r. P r \<Longrightarrow> row_owned r (f r)) \<Longrightarrow> rows_owned s (update_by P f s)"
  unfolding rows_owned_def by (rule rows_evolve_update) (simp_all add: row_owned_refl)

text \<open>What one ownership write may do to the table.\<close>

lemma persist_cases:
  assumes "persistPayoutOwnership now a env s = (res, s')"
  obtains (same) "s' = s" | (read) "s' = env s"
  | (owned) reference tag name where "s' = update_by (\<lambda>r. pr_txHash r = reference \<and> may_own tag r) (own_patch now tag name a) s"
  | (conflict) reference c where "s' = update_by (\<lambda>r. pr_txHash r = reference) (append_conflict c) (env s)"
  using assms by (auto simp: persistPayoutOwnership_def Let_def split: option.splits if_splits)

lemma persist_keeps:
  assumes "persistPayoutOwnership now a env s = (res, s')" and "payouts_ok s" and "payouts_ok (env s)" and "rows_owned s (env s)"
  shows "payouts_ok s' \<and> rows_owned s s'"
  using assms(1)
proof (cases rule: persist_cases)
  case (owned reference tag name)
  have "rows_owned s s'"
    unfolding owned by (rule rows_owned_update) (simp_all add: own_patch_owned)
  then show ?thesis
    using assms(2) owned by (simp add: payouts_ok_def)
next
  case (conflict reference c)
  have "rows_owned (env s) s'"
    unfolding conflict by (rule rows_owned_update) (auto simp: row_owned_def)
  then show ?thesis
    using assms(3,4) conflict rows_evolve_trans [OF transp_row_owned] by (simp add: payouts_ok_def rows_owned_def) blast
qed (use assms in \<open>simp_all add: rows_owned_def rows_evolve_refl row_owned_refl\<close>)

interpretation ownership: interleaved_service ownership_exec payouts_ok rows_owned
proof
  fix s t u
  show "rows_owned s s" by (simp add: rows_owned_def rows_evolve_refl row_owned_refl)
  show "rows_owned s t \<Longrightarrow> rows_owned t u \<Longrightarrow> rows_owned s u"
    unfolding rows_owned_def by (rule rows_evolve_trans [OF transp_row_owned])
next
  fix env c s r s'
  assume run: "ownership_exec env c s = (r, s')" and inv: "payouts_ok s" "payouts_ok (env s)" "rows_owned s (env s)"
  show "payouts_ok s' \<and> rows_owned s s'"
  proof (cases c)
    case (Persist now a)
    then show ?thesis
      using run persist_keeps [where env = env and s = s, OF _ inv] by (auto simp: ownership_exec_def split: prod.splits sum.splits)
  next
    case (NewPayout x)
    then show ?thesis
      using run inv(1)
      by (auto simp: ownership_exec_def payouts_ok_def rows_owned_def rows_evolve_refl rows_evolve_append row_owned_refl
          split: if_splits)
  next
    case (SetStatus h st)
    then show ?thesis
      using run inv(1)
      by (auto simp: ownership_exec_def payouts_ok_def row_owned_def owner_of_def intro!: rows_owned_update)
  qed
qed

lemmas reachable_payouts = ownership.history_inv [where s = "[]", unfolded payouts_ok_def [of "[]"], simplified]

text \<open>C23: The first recorded owner of a payout is final: over every interleaving of ownership writes
  with status changes, once a provider is recorded as the owner no later call replaces it, and
  recorded conflicts are never dropped.\<close>

theorem first_owner_is_final:
  assumes "history ownership_exec [] s" and "history ownership_exec s t"
    and "find_by pr_txHash h s = Some x" and "owner_of x = Some tag"
  shows "\<exists>y. find_by pr_txHash h t = Some y \<and> owner_of y = Some tag \<and>
    (\<exists>more. om_conflicts (meta_of y) = om_conflicts (meta_of x) @ more)"
proof -
  have "rows_owned s t" using ownership.history_evolves [OF assms(2)] reachable_payouts [OF assms(1)] by blast
  then show ?thesis
    using assms(3,4) by (fastforce simp: rows_owned_def row_owned_def dest: rows_evolveD)
qed

text \<open>What an ownership write reports is what is durable: success means the requested provider is
  now the recorded owner; a conflict means another provider was and still is the owner and
  the attempt is appended to the row's conflicts; every other error leaves the table as it was.\<close>

theorem ownership_write_is_honest:
  assumes "payouts_ok s" and "oa_reference a = Some h" and "h \<noteq> []" and "oa_failoverTag a = Some tag" and "tag \<noteq> []"
    and "persistPayoutOwnership now a id s = (res, s')"
  shows "case res of
      Inr _ \<Rightarrow> \<exists>y. find_by pr_txHash h s' = Some y \<and> owner_of y = Some tag
    | Inl OWNERSHIP_CONFLICT \<Rightarrow> \<exists>x y. find_by pr_txHash h s = Some x \<and> find_by pr_txHash h s' = Some y \<and>
        owner_of x \<noteq> None \<and> owner_of x \<noteq> Some tag \<and> owner_of y = owner_of x \<and>
        length (om_conflicts (meta_of y)) = Suc (length (om_conflicts (meta_of x)))
    | Inl _ \<Rightarrow> s' = s"
proof (cases "count_by (\<lambda>r. pr_txHash r = h \<and> may_own tag r) s = 1")
  case True
  have "(case find_by pr_txHash h s of None \<Rightarrow> 0 | Some r \<Rightarrow> if may_own tag r then 1 else 0) = (1 :: nat)"
    using True count_by_key [OF assms(1) [unfolded payouts_ok_def], of h "may_own tag"] by simp
  then obtain x where x: "find_by pr_txHash h s = Some x" "may_own tag x"
    by (cases "find_by pr_txHash h s") (simp_all split: if_splits)
  then have "find_by pr_txHash h (update_by (\<lambda>r. pr_txHash r = h \<and> may_own tag r) (own_patch now tag name a) s) =
      Some (own_patch now tag name a x)" for name
    by (subst find_by_update_by) (auto dest: find_by_SomeD)
  then show ?thesis
    using assms True by (auto simp: persistPayoutOwnership_def or_null_def Let_def split: if_splits)
next
  case False
  have upd: "find_by pr_txHash h (update_by (\<lambda>r. pr_txHash r = h) (append_conflict c) s) =
      map_option (append_conflict c) (find_by pr_txHash h s)" for c
    by (subst find_by_update_by, simp) (cases "find_by pr_txHash h s"; auto dest: find_by_SomeD)
  note run = assms(2-6) False
  show ?thesis
  proof (cases "find_by pr_txHash h s")
    case None
    then show ?thesis using run by (auto simp: persistPayoutOwnership_def or_null_def Let_def split: if_splits)
  next
    case (Some x)
    then show ?thesis
      using run upd
      by (cases "owner_of x")
        (auto simp: persistPayoutOwnership_def or_null_def Let_def split: if_splits)
  qed
qed

definition sample_payout :: "string option \<Rightarrow> payout_row" where
  "sample_payout owner =
     \<lparr>pr_txHash = ''w1'', pr_status = ''PENDING'', pr_metadata = map_option (\<lambda>t. empty_meta\<lparr>om_payoutProvider := Some t\<rparr>) owner\<rparr>"

definition sample_ownership :: "string \<Rightarrow> ownership_args" where
  "sample_ownership tag =
     \<lparr>oa_reference = Some ''w1'', oa_failoverTag = Some tag, oa_intendedProvider = None, oa_providerRef = None\<rparr>"

lemma sample_names: "canonicalProviderName (Some ''mtn'') = Own ''MTN_MOMO_DISBURSEMENT''"
  "canonicalProviderName (Some ''moolre'') = Own ''MOOLRE_DISBURSEMENT''"
  by code_simp+

lemma sample_conflict:
  "\<exists>s'. persistPayoutOwnership 7 (sample_ownership ''mtn'') id [sample_payout (Some ''moolre'')] = (Inl OWNERSHIP_CONFLICT, s')"
  by (simp add: persistPayoutOwnership_def sample_ownership_def sample_payout_def sample_names may_own_def owner_of_def meta_of_def Let_def)

theorem ownership_write_is_honest_witness:
  "\<exists>s' y. persistPayoutOwnership 7 (sample_ownership ''mtn'') id [sample_payout (Some ''moolre'')] = (Inl OWNERSHIP_CONFLICT, s') \<and>
     find_by pr_txHash ''w1'' s' = Some y \<and> owner_of y = Some ''moolre'' \<and> length (om_conflicts (meta_of y)) = 1"
proof -
  obtain s' where run: "persistPayoutOwnership 7 (sample_ownership ''mtn'') id [sample_payout (Some ''moolre'')] = (Inl OWNERSHIP_CONFLICT, s')"
    using sample_conflict by blast
  have a: "payouts_ok [sample_payout (Some ''moolre'')]" "oa_reference (sample_ownership ''mtn'') = Some ''w1''"
    "oa_failoverTag (sample_ownership ''mtn'') = Some ''mtn''"
    by (simp_all add: payouts_ok_def sample_ownership_def)
  have row: "find_by pr_txHash ''w1'' [sample_payout (Some ''moolre'')] = Some (sample_payout (Some ''moolre''))"
    "owner_of (sample_payout (Some ''moolre'')) = Some ''moolre''" "om_conflicts (meta_of (sample_payout (Some ''moolre''))) = []"
    by (simp_all add: sample_payout_def owner_of_def meta_of_def empty_meta_def)
  show ?thesis
    using ownership_write_is_honest [OF a(1,2) _ a(3) _ run] run row by auto
qed

lemma sample_owned:
  "ownership_exec id (Persist 7 (sample_ownership ''moolre'')) [sample_payout None] =
   (Inr (), [own_patch 7 ''moolre'' (Own ''MOOLRE_DISBURSEMENT'') (sample_ownership ''moolre'') (sample_payout None)])"
  by (simp add: ownership_exec_def persistPayoutOwnership_def sample_ownership_def sample_payout_def sample_names may_own_def owner_of_def
      meta_of_def empty_meta_def Let_def)

theorem first_owner_is_final_witness:
  "\<exists>t y. history ownership_exec [] t \<and> find_by pr_txHash ''w1'' t = Some y \<and> owner_of y = Some ''moolre''"
proof -
  let ?s = "[own_patch 7 ''moolre'' (Own ''MOOLRE_DISBURSEMENT'') (sample_ownership ''moolre'') (sample_payout None)]"
  have "history ownership_exec [] [sample_payout None]"
    by (rule history_call_alone [where exec = ownership_exec and c = "NewPayout (sample_payout None)" and r = "Inr ()", OF history.stop])
      (simp add: ownership_exec_def)
  from history_call_alone [where exec = ownership_exec, OF this sample_owned] have s: "history ownership_exec [] ?s" .
  have "find_by pr_txHash ''w1'' ?s = Some (hd ?s)" "owner_of (hd ?s) = Some ''moolre''" by (simp_all add: sample_payout_def)
  from first_owner_is_final [OF s history.stop this] s show ?thesis by blast
qed

section \<open>Resolution never guesses\<close>

definition sample_dispatch :: fiat_event where
  "sample_dispatch =
     \<lparr>ev_dedupKey = ''event:payout-dispatch:MOOLRE_DISBURSEMENT:w1'',
      ev_obs = \<lparr>o_provider = ''MOOLRE_DISBURSEMENT'', o_rail = None, o_direction = ''OUTBOUND'', o_status = ''ACCEPTED'',
        o_providerRef = None, o_amountGhs = None, o_relatedReference = Some ''w1''\<rparr>\<rparr>"

definition named_providers :: "string \<Rightarrow> fiat_event list \<Rightarrow> string set" where
  "named_providers h es = (\<lambda>e. o_provider (ev_obs e)) ` {e \<in> set es. dispatch_evidence h e}"

lemma distinct_providers_set: "set (distinctProviders h es) = named_providers h es"
  by (auto simp: distinctProviders_def named_providers_def)

lemma known_tags: "p \<in> set KNOWN_CANONICAL_PROVIDERS \<Longrightarrow> \<exists>tag. failoverTagFromCanonical (Some p) = Own tag"
proof -
  assume "p \<in> set KNOWN_CANONICAL_PROVIDERS"
  then consider "p = ''MOOLRE_DISBURSEMENT''" | "p = ''MTN_MOMO_DISBURSEMENT''"
    by (auto simp: KNOWN_CANONICAL_PROVIDERS_def TAG_TO_CANONICAL_def)
  then show ?thesis
  proof cases
    case 1
    have "failoverTagFromCanonical (Some ''MOOLRE_DISBURSEMENT'') = Own ''moolre''" by code_simp
    with 1 show ?thesis by blast
  next
    case 2
    have "failoverTagFromCanonical (Some ''MTN_MOMO_DISBURSEMENT'') = Own ''mtn''" by code_simp
    with 2 show ?thesis by blast
  qed
qed

text \<open>Reconciliation never guesses the owner of an unowned payout: a recovered owner is the one
  and only provider that durable dispatch evidence for this payout names, evidence naming two
  providers is a conflict, and the owner is unknown exactly when there is no such evidence.\<close>

theorem resolution_never_guesses:
  assumes "pr_txHash r \<noteq> []" and "readPayoutOwner r = None"
  shows "(resolvePayoutOwner es r = UNKNOWN \<longleftrightarrow> (named_providers (pr_txHash r) es) = {}) \<and>
    ((\<exists>tag. resolvePayoutOwner es r = RECOVERED tag p) \<longleftrightarrow> (named_providers (pr_txHash r) es) = {p}) \<and>
    ((\<exists>ps. resolvePayoutOwner es r = CONFLICT ps) \<longleftrightarrow> 1 < card (named_providers (pr_txHash r) es))"
proof -
  let ?ps = "distinctProviders (pr_txHash r) es" and ?named = "named_providers (pr_txHash r) es"
  have set: "set ?ps = ?named" by (rule distinct_providers_set)
  have dist: "distinct ?ps" by (simp add: distinctProviders_def)
  have known: "?named \<subseteq> set KNOWN_CANONICAL_PROVIDERS" by (auto simp: named_providers_def dispatch_evidence_def)
  have card: "card ?named = length ?ps" using distinct_card [OF dist] set by simp
  show ?thesis
  proof (cases ?ps)
    case Nil
    then show ?thesis using assms(1,2) set card by (auto simp: resolvePayoutOwner_def)
  next
    case (Cons q qs)
    show ?thesis
    proof (cases qs)
      case Nil
      then obtain tag where "failoverTagFromCanonical (Some q) = Own tag"
        using known_tags [of q] known set Cons by auto
      then show ?thesis using assms(1,2) set card Cons Nil by (auto simp: resolvePayoutOwner_def)
    next
      case (Cons q' qs')
      then have "?ps = q # q' # qs'" using \<open>?ps = q # qs\<close> by simp
      moreover have "q \<noteq> q'" using dist calculation by simp
      ultimately show ?thesis using assms(1,2) set card by (auto simp: resolvePayoutOwner_def)
    qed
  qed
qed

theorem resolution_never_guesses_witness:
  "\<exists>tag. resolvePayoutOwner [sample_dispatch] (sample_payout None) = RECOVERED tag ''MOOLRE_DISBURSEMENT''"
proof -
  have "pr_txHash (sample_payout None) \<noteq> []" "readPayoutOwner (sample_payout None) = None"
    by (simp_all add: sample_payout_def readPayoutOwner_def)
  moreover have "named_providers (pr_txHash (sample_payout None)) [sample_dispatch] = {''MOOLRE_DISBURSEMENT''}"
    by (auto simp: named_providers_def sample_payout_def sample_dispatch_def dispatch_evidence_def starts_with_def
        KNOWN_CANONICAL_PROVIDERS_def TAG_TO_CANONICAL_def)
  ultimately show ?thesis
    using resolution_never_guesses [of "sample_payout None" "[sample_dispatch]" "''MOOLRE_DISBURSEMENT''"] by simp
qed

end
