(* ===== verification/Route_Policy.thy ===== *)
theory Route_Policy
  imports Js_Text
begin

text \<open>
  The deposit route policy, \<^verbatim>\<open>src/services/routePolicyService.js\<close>: which rails a mounted
  deposit route has, and on which authenticated webhook a quote of that route and rail may
  settle. An access to a missing member of an inherited object raises \<open>TypeError\<close>.
\<close>

definition ROUTE_POLICY_VERSION :: string where
  "ROUTE_POLICY_VERSION = ''route-policy@1''"

definition MOMO_RAILS :: "string list" where
  "MOMO_RAILS = [''MTN_MOMO'', ''TELECEL_CASH'', ''VODAFONE_CASH'', ''AIRTELTIGO'']"

record deposit_route =
  dr_route :: string
  dr_initiationEndpoint :: string
  dr_rails :: "string list"
  dr_settlementSurfaces :: "(string \<times> string list) list"

definition DEPOSIT_ROUTES :: "(string \<times> deposit_route) list" where
  "DEPOSIT_ROUTES =
     [(''GENERIC_FIAT_AGGREGATOR'',
       \<lparr>dr_route = ''GENERIC_FIAT_AGGREGATOR'', dr_initiationEndpoint = ''POST /api/deposit/fiat/initiate'',
        dr_rails = MOMO_RAILS @ [''BANK_TRANSFER''],
        dr_settlementSurfaces = [(''BANK_TRANSFER'', [''GENERIC_FIAT_WEBHOOK'']),
                                 (''MOMO'', [''GENERIC_FIAT_WEBHOOK'', ''MOOLRE_WEBHOOK''])]\<rparr>),
      (''MOOLRE_MOMO_COLLECTION'',
       \<lparr>dr_route = ''MOOLRE_MOMO_COLLECTION'', dr_initiationEndpoint = ''POST /api/deposit/fiat/initiate/moolre'',
        dr_rails = MOMO_RAILS,
        dr_settlementSurfaces = [(''MOMO'', [''MOOLRE_WEBHOOK''])]\<rparr>)]"

definition SETTLEMENT_SURFACES :: "(string \<times> string) list" where
  "SETTLEMENT_SURFACES =
     [(''GENERIC_FIAT_WEBHOOK'', ''POST /api/deposit/fiat/webhook (x-azaman-webhook-secret)''),
      (''MOOLRE_WEBHOOK'', ''POST /api/deposit/fiat/webhook/moolre (x-moolre-signature HMAC)'')]"

datatype route_policy_error =
    ROUTE_UNKNOWN string
  | ROUTE_RAIL_UNSUPPORTED string string
  | SETTLEMENT_SURFACE_UNKNOWN string
  | ROUTE_IDENTITY_INCOMPLETE string
  | ROUTE_SETTLEMENT_MISMATCH string string string
  | TYPE_ERROR

record route_candidate =
  rc_route :: string
  rc_rails :: "string list"
  rc_initiationEndpoint :: string

definition depositRouteCandidates :: "route_candidate list" where
  "depositRouteCandidates =
     map (\<lambda>(_, d). \<lparr>rc_route = dr_route d, rc_rails = dr_rails d, rc_initiationEndpoint = dr_initiationEndpoint d\<rparr>)
       DEPOSIT_ROUTES"

record route_context =
  selectedRoute :: "string option"
  routeProviderRail :: "string option"
  routePolicyVersion :: string
  routeCandidates :: "route_candidate list"
  selectionProvenance :: string

definition resolveDepositRoute :: "string option \<Rightarrow> string \<Rightarrow> route_policy_error + route_context" where
  "resolveDepositRoute route provider =
     (case or_null route of
        None \<Rightarrow> Inl (ROUTE_UNKNOWN (or_empty route))
      | Some r \<Rightarrow>
     (case js_lookup DEPOSIT_ROUTES r of
        Missing \<Rightarrow> Inl (ROUTE_UNKNOWN r)
      | Inherited \<Rightarrow> Inl TYPE_ERROR
      | Own d \<Rightarrow>
          if provider \<notin> set (dr_rails d) then Inl (ROUTE_RAIL_UNSUPPORTED provider r)
          else Inr \<lparr>selectedRoute = Some (dr_route d), routeProviderRail = Some provider,
                 routePolicyVersion = ROUTE_POLICY_VERSION, routeCandidates = depositRouteCandidates,
                 selectionProvenance = ''MOUNTED_INITIATION_ENDPOINT''\<rparr>))"

definition priceQuoteRouteContext :: route_context where
  "priceQuoteRouteContext =
     \<lparr>selectedRoute = None, routeProviderRail = None, routePolicyVersion = ROUTE_POLICY_VERSION,
      routeCandidates = depositRouteCandidates, selectionProvenance = ''UNBOUND_PRICE_QUOTE''\<rparr>"

definition rail_class :: "string \<Rightarrow> string" where
  "rail_class rail = (if rail \<in> set MOMO_RAILS then ''MOMO'' else rail)"

text \<open>
  An inherited member of \<open>definition.settlementSurfaces\<close> is a function or an object without an
  \<open>includes\<close> method.
\<close>

definition check_surface :: "deposit_route \<Rightarrow> string \<Rightarrow> string \<Rightarrow> string \<Rightarrow> route_policy_error + bool" where
  "check_surface d r rail surface =
     (case js_lookup (dr_settlementSurfaces d) (rail_class rail) of
        Inherited \<Rightarrow> Inl TYPE_ERROR
      | Missing \<Rightarrow> Inl (ROUTE_SETTLEMENT_MISMATCH r rail surface)
      | Own allowed \<Rightarrow> if surface \<in> set allowed then Inr True else Inl (ROUTE_SETTLEMENT_MISMATCH r rail surface))"

definition assertSettlementRouteAllowed ::
  "string option \<Rightarrow> string option \<Rightarrow> string \<Rightarrow> route_policy_error + bool" where
  "assertSettlementRouteAllowed quoteRoute quoteRail settlementSurface =
     (if js_lookup SETTLEMENT_SURFACES settlementSurface = Missing then Inl (SETTLEMENT_SURFACE_UNKNOWN settlementSurface)
      else case or_null quoteRoute of
        None \<Rightarrow> Inr True
      | Some r \<Rightarrow>
     (case js_lookup DEPOSIT_ROUTES r of
        Missing \<Rightarrow> Inl (ROUTE_UNKNOWN r)
      | look \<Rightarrow>
     (case or_null quoteRail of
        None \<Rightarrow> Inl (ROUTE_IDENTITY_INCOMPLETE r)
      | Some rail \<Rightarrow>
     (case look of
        Own d \<Rightarrow> if rail \<notin> set (dr_rails d) then Inl (ROUTE_RAIL_UNSUPPORTED rail r) else check_surface d r rail settlementSurface
      | _ \<Rightarrow> Inl TYPE_ERROR))))"

section \<open>The settlement contract\<close>

text \<open>The contract of the policy's comment: route, rail and webhook that belong together.\<close>

definition settlement_contract :: "(string \<times> string \<times> string) list" where
  "settlement_contract =
     (''GENERIC_FIAT_AGGREGATOR'', ''BANK_TRANSFER'', ''GENERIC_FIAT_WEBHOOK'') #
     map (\<lambda>rail. (''GENERIC_FIAT_AGGREGATOR'', rail, ''GENERIC_FIAT_WEBHOOK'')) MOMO_RAILS @
     map (\<lambda>rail. (''GENERIC_FIAT_AGGREGATOR'', rail, ''MOOLRE_WEBHOOK'')) MOMO_RAILS @
     map (\<lambda>rail. (''MOOLRE_MOMO_COLLECTION'', rail, ''MOOLRE_WEBHOOK'')) MOMO_RAILS"

lemma settlement_contract_iff:
  "(r, rail, surface) \<in> set settlement_contract \<longleftrightarrow>
     r = ''GENERIC_FIAT_AGGREGATOR'' \<and>
       (rail = ''BANK_TRANSFER'' \<and> surface = ''GENERIC_FIAT_WEBHOOK'' \<or>
        rail \<in> set MOMO_RAILS \<and> (surface = ''GENERIC_FIAT_WEBHOOK'' \<or> surface = ''MOOLRE_WEBHOOK'')) \<or>
     r = ''MOOLRE_MOMO_COLLECTION'' \<and> rail \<in> set MOMO_RAILS \<and> surface = ''MOOLRE_WEBHOOK''"
  unfolding settlement_contract_def by (simp only: list.set set_append set_map Un_iff image_iff insert_iff prod.inject) blast

lemma momo_rails: "''BANK_TRANSFER'' \<notin> set MOMO_RAILS" "[] \<notin> set MOMO_RAILS"
  by code_simp+

lemma bank_class [simp]: "rail_class ''BANK_TRANSFER'' = ''BANK_TRANSFER''"
  and momo_class: "rail \<in> set MOMO_RAILS \<Longrightarrow> rail_class rail = ''MOMO''"
  by (simp_all only: rail_class_def momo_rails if_False if_True)

lemma own_property: "map_of obj k = Some v \<Longrightarrow> js_lookup obj k = Own v"
  by (simp add: js_lookup_def)

lemma own_propertyD: "js_lookup obj k = Own v \<Longrightarrow> map_of obj k = Some v"
  by (simp add: js_lookup_def split: option.splits if_splits)

lemma check_surface_own:
  "map_of (dr_settlementSurfaces d) (rail_class rail) = Some allowed \<Longrightarrow>
   check_surface d r rail surface = Inr True \<longleftrightarrow> surface \<in> set allowed"
  by (simp add: check_surface_def own_property)

lemma deposit_route_cases:
  assumes "js_lookup DEPOSIT_ROUTES r = Own d"
  obtains (generic) "r = ''GENERIC_FIAT_AGGREGATOR''" "dr_route d = r" "dr_rails d = MOMO_RAILS @ [''BANK_TRANSFER'']"
      "dr_settlementSurfaces d =
        [(''BANK_TRANSFER'', [''GENERIC_FIAT_WEBHOOK'']), (''MOMO'', [''GENERIC_FIAT_WEBHOOK'', ''MOOLRE_WEBHOOK''])]"
    | (moolre) "r = ''MOOLRE_MOMO_COLLECTION''" "dr_route d = r" "dr_rails d = MOMO_RAILS"
      "dr_settlementSurfaces d = [(''MOMO'', [''MOOLRE_WEBHOOK''])]"
proof -
  have "(r, d) \<in> set DEPOSIT_ROUTES" using own_propertyD [OF assms] by (rule map_of_SomeD)
  then consider "(r, d) = DEPOSIT_ROUTES ! 0" | "(r, d) = DEPOSIT_ROUTES ! 1"
    unfolding DEPOSIT_ROUTES_def by (simp only: list.set insert_iff empty_iff nth_Cons_0 One_nat_def nth_Cons_Suc) blast
  then show thesis
    by cases (use that in \<open>simp_all only: DEPOSIT_ROUTES_def nth_Cons_0 One_nat_def nth_Cons_Suc prod.inject
        deposit_route.simps simp_thms\<close>)
qed

lemma check_surface_iff:
  assumes "js_lookup DEPOSIT_ROUTES r = Own d"
  shows "rail \<in> set (dr_rails d) \<and> check_surface d r rail surface = Inr True \<longleftrightarrow> (r, rail, surface) \<in> set settlement_contract"
  using assms
proof (cases rule: deposit_route_cases)
  case generic
  have "rail \<in> set MOMO_RAILS \<Longrightarrow> check_surface d r rail surface = Inr True \<longleftrightarrow>
      surface \<in> set [''GENERIC_FIAT_WEBHOOK'', ''MOOLRE_WEBHOOK'']"
    by (rule check_surface_own) (simp add: generic(4) momo_class)
  moreover have "check_surface d r ''BANK_TRANSFER'' surface = Inr True \<longleftrightarrow> surface \<in> set [''GENERIC_FIAT_WEBHOOK'']"
    by (rule check_surface_own) (simp add: generic(4))
  ultimately show ?thesis
    using momo_rails(1) generic(1,3)
    by (cases "rail = ''BANK_TRANSFER''"; cases "rail \<in> set MOMO_RAILS") (simp_all add: settlement_contract_iff)
next
  case moolre
  have "rail \<in> set MOMO_RAILS \<Longrightarrow> check_surface d r rail surface = Inr True \<longleftrightarrow> surface \<in> set [''MOOLRE_WEBHOOK'']"
    by (rule check_surface_own) (simp add: moolre(4) momo_class)
  then show ?thesis using moolre(1,3) by (cases "rail \<in> set MOMO_RAILS") (simp_all add: settlement_contract_iff)
qed

lemma contract_named:
  assumes "(r, rail, surface) \<in> set settlement_contract"
  shows "\<exists>d. js_lookup DEPOSIT_ROUTES r = Own d" "or_null (Some rail) = Some rail" "js_lookup SETTLEMENT_SURFACES surface \<noteq> Missing"
proof -
  have all: "list_all (\<lambda>(r, rail, surface). map_of DEPOSIT_ROUTES r \<noteq> None \<and> rail \<noteq> [] \<and> map_of SETTLEMENT_SURFACES surface \<noteq> None)
      settlement_contract" by code_simp
  show "\<exists>d. js_lookup DEPOSIT_ROUTES r = Own d" "or_null (Some rail) = Some rail" "js_lookup SETTLEMENT_SURFACES surface \<noteq> Missing"
    using all assms by (auto simp: list_all_iff js_lookup_def or_null_def)
qed

lemma settlement_selected:
  assumes "js_lookup SETTLEMENT_SURFACES surface \<noteq> Missing" and r: "or_null quoteRoute = Some r"
  shows "assertSettlementRouteAllowed quoteRoute quoteRail surface = Inr True \<longleftrightarrow>
    (\<exists>rail. quoteRail = Some rail \<and> (r, rail, surface) \<in> set settlement_contract)"
proof (cases "js_lookup DEPOSIT_ROUTES r")
  case (Own d)
  show ?thesis
  proof (cases "or_null quoteRail")
    case None
    then show ?thesis using assms Own contract_named(2) by (auto simp: assertSettlementRouteAllowed_def)
  next
    case (Some rail)
    then have "quoteRail = Some rail" by (simp add: or_null_Some)
    then show ?thesis
      using assms Own Some check_surface_iff [OF Own, of rail surface] by (auto simp: assertSettlementRouteAllowed_def)
  qed
qed (use assms contract_named(1) [of r _ surface] in \<open>auto simp: assertSettlementRouteAllowed_def split: option.splits\<close>)

text \<open>C27: Rail-aware settlement: on a known webhook, a quote that selected a route settles exactly when
  its route, rail and the webhook are a row of the contract; every other selected route is
  refused, whatever the persisted texts are. A quote without a route settles.
\<close>

theorem settlement_is_rail_aware:
  assumes "settlementSurface \<in> set (map fst SETTLEMENT_SURFACES)"
  shows "assertSettlementRouteAllowed quoteRoute quoteRail settlementSurface = Inr True \<longleftrightarrow>
    (case or_null quoteRoute of
       None \<Rightarrow> True
     | Some r \<Rightarrow> (\<exists>rail. quoteRail = Some rail \<and> (r, rail, settlementSurface) \<in> set settlement_contract))"
proof -
  have "js_lookup SETTLEMENT_SURFACES settlementSurface \<noteq> Missing"
    using assms by (auto simp: js_lookup_def map_of_eq_None_iff split: option.splits)
  then show ?thesis
    using settlement_selected by (cases "or_null quoteRoute") (simp_all add: assertSettlementRouteAllowed_def)
qed

theorem settlement_is_rail_aware_witness:
  "''MOOLRE_WEBHOOK'' \<in> set (map fst SETTLEMENT_SURFACES) \<and>
   assertSettlementRouteAllowed (Some ''MOOLRE_MOMO_COLLECTION'') (Some ''MTN_MOMO'') ''MOOLRE_WEBHOOK'' = Inr True"
proof -
  have "''MOOLRE_WEBHOOK'' \<in> set (map fst SETTLEMENT_SURFACES)" by code_simp
  moreover have "(''MOOLRE_MOMO_COLLECTION'', ''MTN_MOMO'', ''MOOLRE_WEBHOOK'') \<in> set settlement_contract" by code_simp
  ultimately show ?thesis
    using settlement_is_rail_aware [of "''MOOLRE_WEBHOOK''" "Some ''MOOLRE_MOMO_COLLECTION''" "Some ''MTN_MOMO''"] by simp
qed

text \<open>
  Initiation and settlement agree: whatever route and rail the policy resolves at initiation, the
  quote that stores them settles on some webhook; and a Moolre collection settles on no other
  webhook than Moolre's.
\<close>

theorem resolved_routes_settle:
  assumes "resolveDepositRoute route provider = Inr ctx"
  shows "(\<exists>surface. assertSettlementRouteAllowed (selectedRoute ctx) (routeProviderRail ctx) surface = Inr True) \<and>
    (route = Some ''MOOLRE_MOMO_COLLECTION'' \<longrightarrow>
       assertSettlementRouteAllowed (selectedRoute ctx) (routeProviderRail ctx) ''GENERIC_FIAT_WEBHOOK'' \<noteq> Inr True)"
proof -
  obtain r d where r: "route = Some r" "js_lookup DEPOSIT_ROUTES r = Own d" "provider \<in> set (dr_rails d)"
    and ctx: "selectedRoute ctx = Some (dr_route d)" "routeProviderRail ctx = Some provider"
    using assms by (auto simp: resolveDepositRoute_def or_null_Some split: option.splits lookup.splits if_splits)
  have or: "or_null (Some r) = Some r" using r(2) by (auto simp: or_null_def elim: deposit_route_cases)
  have same: "dr_route d = r" using r(2) by (auto elim: deposit_route_cases)
  have "\<exists>surface. (r, provider, surface) \<in> set settlement_contract"
    using r(2)
  proof (cases rule: deposit_route_cases)
    case generic
    then show ?thesis using r(3) unfolding settlement_contract_iff by (simp only: generic set_append list.set) blast
  next
    case moolre
    then show ?thesis using r(3) unfolding settlement_contract_iff by (simp only: moolre) blast
  qed
  then obtain surface where s: "(r, provider, surface) \<in> set settlement_contract" by blast
  have "assertSettlementRouteAllowed (Some r) (Some provider) surface = Inr True"
    using s by (simp add: settlement_selected [OF contract_named(3) [OF s] or])
  moreover have "(''MOOLRE_MOMO_COLLECTION'', provider, ''GENERIC_FIAT_WEBHOOK'') \<notin> set settlement_contract"
    by (simp add: settlement_contract_iff)
  moreover have "js_lookup SETTLEMENT_SURFACES ''GENERIC_FIAT_WEBHOOK'' \<noteq> Missing" by code_simp
  then have "assertSettlementRouteAllowed (Some r) (Some provider) ''GENERIC_FIAT_WEBHOOK'' = Inr True \<longleftrightarrow>
      (r, provider, ''GENERIC_FIAT_WEBHOOK'') \<in> set settlement_contract"
    using settlement_selected [OF _ or, of "''GENERIC_FIAT_WEBHOOK''" "Some provider"] by simp
  ultimately show ?thesis unfolding ctx same r(1) by blast
qed

theorem resolved_routes_settle_witness:
  "\<exists>ctx. resolveDepositRoute (Some ''MOOLRE_MOMO_COLLECTION'') ''AIRTELTIGO'' = Inr ctx \<and>
     (\<exists>surface. assertSettlementRouteAllowed (selectedRoute ctx) (routeProviderRail ctx) surface = Inr True)"
proof -
  have "isl (resolveDepositRoute (Some ''MOOLRE_MOMO_COLLECTION'') ''AIRTELTIGO'') = False" by code_simp
  then obtain ctx where "resolveDepositRoute (Some ''MOOLRE_MOMO_COLLECTION'') ''AIRTELTIGO'' = Inr ctx"
    by (cases "resolveDepositRoute (Some ''MOOLRE_MOMO_COLLECTION'') ''AIRTELTIGO''") simp_all
  then show ?thesis using resolved_routes_settle by blast
qed

end
