(* ===== verification/Exact_Invoice.thy ===== *)
theory Exact_Invoice
  imports Js_Text
begin

text \<open>
  Invoice arithmetic, \<^verbatim>\<open>utils/exactInvoiceMath.js\<close>: strict quantities, exact line totals, tax
  lines with one storage quantization, and the persistence envelope of the Decimal(20,8)
  columns.

  Money is a natural number of \<open>10\<^sup>-\<^sup>8\<close> units. decimal.js is a third-party package: \<open>rnd\<close> is the
  rounding it applies to the coefficient of a result of \<open>times\<close>, \<open>div\<close> and \<open>plus\<close>, which by its
  documentation keeps 20 significant digits (the named hypothesis \<open>keeps_20_digits\<close>;
  \<open>half_up_20\<close> is the documented default).
\<close>

section \<open>Entry parsers\<close>

definition quantize8 :: "nat \<Rightarrow> nat \<Rightarrow> nat" where
  "quantize8 k n = (if k \<le> 8 then n * 10 ^ (8 - k) else (n + 5 * 10 ^ (k - 9)) div 10 ^ (k - 8))"

definition invoice_toFixed8 :: "nat \<Rightarrow> nat \<Rightarrow> string" where
  "invoice_toFixed8 k n = toFixed8 (quantize8 k n)"

definition MAX_REASONABLE_QUANTITY :: nat where
  "MAX_REASONABLE_QUANTITY = 1000000000"

datatype invoice_error =
    QUANTITY_REQUIRED
  | QUANTITY_TYPE
  | QUANTITY_NOT_FINITE
  | QUANTITY_NOT_INTEGER
  | QUANTITY_BELOW_ONE
  | QUANTITY_NOT_CANONICAL
  | QUANTITY_UNSAFE
  | QUANTITY_TOO_LARGE
  | LINE_ITEMS_REQUIRED
  | TOO_MANY_LINE_ITEMS
  | INEXACT ledger_error
  | NOT_PERSISTABLE string
  | TAX_NAME_REQUIRED
  | TAX_TYPE_UNSUPPORTED

definition quantity_limit :: "nat \<Rightarrow> invoice_error + nat" where
  "quantity_limit n =
     (if n < 1 then Inl QUANTITY_BELOW_ONE
      else if n > MAX_REASONABLE_QUANTITY then Inl QUANTITY_TOO_LARGE else Inr n)"

text \<open>
  A shortest round-trip decimal has a non-negative exponent when the number is an integer. A
  digit string above the safe range reads as a double above it.
\<close>

fun parseStrictQuantity :: "js_value \<Rightarrow> invoice_error + nat" where
  "parseStrictQuantity JNull = Inl QUANTITY_REQUIRED"
| "parseStrictQuantity (JDec _) = Inl QUANTITY_TYPE"
| "parseStrictQuantity (JOther _) = Inl QUANTITY_TYPE"
| "parseStrictQuantity (JBig _) = Inl QUANTITY_TYPE"
| "parseStrictQuantity (JNum (NFin neg m e)) =
     (if m = 0 then Inl QUANTITY_BELOW_ONE
      else if e < 0 \<or> m * 10 ^ nat e > max_safe_integer then Inl QUANTITY_NOT_INTEGER
      else if neg then Inl QUANTITY_BELOW_ONE
      else quantity_limit (m * 10 ^ nat e))"
| "parseStrictQuantity (JNum _) = Inl QUANTITY_NOT_FINITE"
| "parseStrictQuantity (JStr s) =
     (let t = js_trim s in
      if t = [] \<or> \<not> list_all is_digit t then Inl QUANTITY_NOT_CANONICAL
      else if read_nat t > max_safe_integer then Inl QUANTITY_UNSAFE
      else quantity_limit (read_nat t))"

definition parseExactDecimal :: "js_value \<Rightarrow> invoice_error + nat" where
  "parseExactDecimal v = (case toExactDecimal v of Inl e \<Rightarrow> Inl (INEXACT e) | Inr n \<Rightarrow> Inr n)"

definition MAX_PERSISTABLE :: nat where
  "MAX_PERSISTABLE = 99999999999999999999"

definition assertPersistableExact :: "nat \<Rightarrow> string \<Rightarrow> invoice_error + nat" where
  "assertPersistableExact n label = (if n > MAX_PERSISTABLE then Inl (NOT_PERSISTABLE label) else Inr n)"

section \<open>Line items\<close>

record line_input =
  in_description :: "string option"
  in_quantity :: js_value
  in_unitPrice :: js_value

record line_item =
  it_description :: string
  it_quantity :: nat
  it_unitPrice :: nat
  it_lineTotal :: nat

text \<open>
  The product is an integer number of units and rounding to significant digits keeps it one, so
  the check on its decimal places never fires.
\<close>

definition line_of :: "(nat \<Rightarrow> nat) \<Rightarrow> line_input \<Rightarrow> invoice_error + line_item" where
  "line_of rnd item =
     (let description = take 200 (js_trim (or_empty (in_description item))) in
      bind_sum (parseStrictQuantity (in_quantity item)) (\<lambda>qty.
      bind_sum (parseExactDecimal (in_unitPrice item)) (\<lambda>unit.
      bind_sum (assertPersistableExact (rnd (unit * qty)) description) (\<lambda>lineTotal.
        Inr \<lparr>it_description = description, it_quantity = qty, it_unitPrice = unit, it_lineTotal = lineTotal\<rparr>))))"

definition plus_all :: "(nat \<Rightarrow> nat) \<Rightarrow> nat list \<Rightarrow> nat" where
  "plus_all rnd = foldl (\<lambda>acc x. rnd (acc + x)) 0"

text \<open>\<open>None\<close> is a value that is not an array.\<close>

definition computeLineItemsExact :: "(nat \<Rightarrow> nat) \<Rightarrow> line_input list option \<Rightarrow> invoice_error + nat \<times> line_item list" where
  "computeLineItemsExact rnd lineItems =
     (case lineItems of
        None \<Rightarrow> Inl LINE_ITEMS_REQUIRED
      | Some items \<Rightarrow>
          if items = [] then Inl LINE_ITEMS_REQUIRED
          else if length items > 50 then Inl TOO_MANY_LINE_ITEMS
          else
            bind_sum (traverse_sum (line_of rnd) items) (\<lambda>clean.
            bind_sum (assertPersistableExact (plus_all rnd (map it_lineTotal clean)) ''invoice subtotal'') (\<lambda>subtotal.
              Inr (subtotal, clean))))"

section \<open>Tax lines\<close>

record tax_input =
  in_name :: "string option"
  in_type :: string
  in_value :: js_value

record tax_line =
  tl_name :: string
  tl_type :: string
  tl_value :: nat
  tl_computedAmount :: nat

text \<open>The product of two amounts has 16 decimal places, its hundredth 18.\<close>

definition tax_of :: "(nat \<Rightarrow> nat) \<Rightarrow> nat \<Rightarrow> tax_input \<Rightarrow> invoice_error + tax_line" where
  "tax_of rnd subtotal t =
     (let name = take 100 (js_trim (or_empty (in_name t))) in
      if name = [] then Inl TAX_NAME_REQUIRED
      else if in_type t \<noteq> ''FLAT'' \<and> in_type t \<noteq> ''PERCENTAGE'' then Inl TAX_TYPE_UNSUPPORTED
      else
        bind_sum (parseExactDecimal (in_value t)) (\<lambda>v.
          let computedAmount =
            (if in_type t = ''PERCENTAGE'' then quantize8 18 (rnd (rnd (subtotal * v))) else quantize8 8 v) in
          bind_sum (assertPersistableExact computedAmount name) (\<lambda>a.
            Inr \<lparr>tl_name = name, tl_type = in_type t, tl_value = v, tl_computedAmount = a\<rparr>)))"

definition computeTaxLinesExact ::
  "(nat \<Rightarrow> nat) \<Rightarrow> tax_input list option \<Rightarrow> nat \<Rightarrow> invoice_error + nat \<times> tax_line list" where
  "computeTaxLinesExact rnd taxSpecs subtotalDec =
     (let subtotal = quantize8 8 subtotalDec in
      bind_sum (traverse_sum (tax_of rnd subtotal) (case taxSpecs of None \<Rightarrow> [] | Some ts \<Rightarrow> ts)) (\<lambda>clean.
      bind_sum (assertPersistableExact (plus_all rnd (map tl_computedAmount clean)) ''tax total'') (\<lambda>taxTotal.
        Inr (taxTotal, clean))))"

record invoice_totals =
  inv_subtotal :: nat
  inv_taxTotal :: nat
  inv_billTotal :: nat
  inv_lineItems :: "line_item list"
  inv_taxLines :: "tax_line list"

definition computeInvoiceTotalsExact ::
  "(nat \<Rightarrow> nat) \<Rightarrow> line_input list option \<Rightarrow> tax_input list option \<Rightarrow> invoice_error + invoice_totals" where
  "computeInvoiceTotalsExact rnd lineItems taxSpecs =
     bind_sum (computeLineItemsExact rnd lineItems) (\<lambda>(subtotal, clean).
     bind_sum (computeTaxLinesExact rnd taxSpecs subtotal) (\<lambda>(taxTotal, cleanTax).
     bind_sum (assertPersistableExact (rnd (subtotal + taxTotal)) ''bill total'') (\<lambda>billTotal.
       Inr \<lparr>inv_subtotal = subtotal, inv_taxTotal = taxTotal, inv_billTotal = billTotal, inv_lineItems = clean,
            inv_taxLines = cleanTax\<rparr>)))"

section \<open>Exactness within the envelope\<close>

definition keeps_20_digits :: "(nat \<Rightarrow> nat) \<Rightarrow> bool" where
  "keeps_20_digits rnd \<longleftrightarrow> (\<forall>n. n < 10 ^ 20 \<longrightarrow> rnd n = n) \<and> (\<forall>n. 10 ^ 20 \<le> n \<longrightarrow> 10 ^ 20 \<le> rnd n)"

definition half_up_20 :: "nat \<Rightarrow> nat" where
  "half_up_20 n =
     (let k = length (show_nat n) - 20 in
      if k = 0 then n else (n + 5 * 10 ^ (k - 1)) div 10 ^ k * 10 ^ k)"

lemma max_persistable: "n \<le> MAX_PERSISTABLE \<longleftrightarrow> n < 10 ^ 20"
  unfolding MAX_PERSISTABLE_def by (simp, linarith)

lemma persistable_exact:
  assumes "keeps_20_digits rnd" and "assertPersistableExact (rnd n) label = Inr m"
  shows "m = n \<and> n < 10 ^ 20"
proof -
  have "rnd n < 10 ^ 20" "m = rnd n"
    using assms(2) by (auto simp: assertPersistableExact_def not_less max_persistable split: if_splits)
  then show ?thesis using assms(1) unfolding keeps_20_digits_def by (metis not_le)
qed

lemma plus_all_grows:
  assumes "keeps_20_digits rnd" and "10 ^ 20 \<le> a"
  shows "10 ^ 20 \<le> foldl (\<lambda>acc x. rnd (acc + x)) a xs"
  using assms(2)
proof (induction xs arbitrary: a)
  case (Cons x xs)
  have "10 ^ 20 \<le> rnd (a + x)" using assms(1) Cons.prems by (simp add: keeps_20_digits_def)
  then show ?case using Cons.IH by simp
qed simp

lemma plus_all_exact_from:
  assumes "keeps_20_digits rnd" and "foldl (\<lambda>acc x. rnd (acc + x)) a xs < 10 ^ 20" and "a < 10 ^ 20"
  shows "foldl (\<lambda>acc x. rnd (acc + x)) a xs = a + sum_list xs"
  using assms(2,3)
proof (induction xs arbitrary: a)
  case (Cons x xs)
  have "a + x < 10 ^ 20"
  proof (rule ccontr)
    assume "\<not> a + x < 10 ^ 20"
    then have "10 ^ 20 \<le> rnd (a + x)" using assms(1) by (simp add: keeps_20_digits_def)
    then have "10 ^ 20 \<le> foldl (\<lambda>acc x. rnd (acc + x)) (rnd (a + x)) xs" by (rule plus_all_grows [OF assms(1)])
    then show False using Cons.prems(1) by simp
  qed
  then have "rnd (a + x) = a + x" using assms(1) by (simp add: keeps_20_digits_def)
  then show ?case using Cons.IH [of "a + x"] Cons.prems(1) \<open>a + x < 10 ^ 20\<close> by simp
qed simp

lemma plus_all_exact:
  assumes "keeps_20_digits rnd" and "assertPersistableExact (plus_all rnd xs) label = Inr m"
  shows "m = sum_list xs \<and> m < 10 ^ 20"
proof -
  have "plus_all rnd xs < 10 ^ 20" "m = plus_all rnd xs"
    using assms(2) by (auto simp: assertPersistableExact_def not_less max_persistable split: if_splits)
  then show ?thesis using plus_all_exact_from [OF assms(1), of 0 xs] by (simp add: plus_all_def)
qed

lemma traverse_sum_all:
  assumes "traverse_sum f xs = Inr ys" and "\<And>x y. f x = Inr y \<Longrightarrow> P y"
  shows "\<forall>y \<in> set ys. P y"
  using assms(1) unfolding traverse_sum_Inr by (induction xs ys rule: list_all2_induct) (auto intro: assms(2))

definition exact_line :: "line_item \<Rightarrow> bool" where
  "exact_line it \<longleftrightarrow>
     it_lineTotal it = it_unitPrice it * it_quantity it \<and> it_lineTotal it < 10 ^ 20 \<and>
     1 \<le> it_quantity it \<and> it_quantity it \<le> MAX_REASONABLE_QUANTITY"

lemma quantity_limit_range: "quantity_limit n = Inr q \<Longrightarrow> q = n \<and> 1 \<le> q \<and> q \<le> MAX_REASONABLE_QUANTITY"
  by (auto simp: quantity_limit_def split: if_splits)

lemma parseStrictQuantity_range: "parseStrictQuantity v = Inr q \<Longrightarrow> 1 \<le> q \<and> q \<le> MAX_REASONABLE_QUANTITY"
  by (cases v rule: parseStrictQuantity.cases) (auto simp: Let_def dest: quantity_limit_range split: if_splits)

lemma line_of_exact: "keeps_20_digits rnd \<Longrightarrow> line_of rnd x = Inr it \<Longrightarrow> exact_line it"
  by (auto simp: line_of_def exact_line_def Let_def dest!: persistable_exact dest: parseStrictQuantity_range)

text \<open>
  The amount of a tax line: the flat value, or the percentage of the subtotal rounded half up at
  the eighth decimal.
\<close>

definition exact_tax :: "nat \<Rightarrow> tax_line \<Rightarrow> nat" where
  "exact_tax subtotal t =
     (if tl_type t = ''PERCENTAGE'' then (subtotal * tl_value t + 5 * 10 ^ 9) div 10 ^ 10 else tl_value t)"

lemma tax_of_exact:
  assumes "keeps_20_digits rnd" and "tax_of rnd subtotal x = Inr t"
  shows "tl_computedAmount t < 10 ^ 20 \<and>
    (tl_type t = ''FLAT'' \<or> subtotal * tl_value t < 10 ^ 20 \<longrightarrow> tl_computedAmount t = exact_tax subtotal t)"
  using assms
  by (auto simp: tax_of_def exact_tax_def quantize8_def Let_def assertPersistableExact_def not_less max_persistable
      keeps_20_digits_def split: if_splits)

text \<open>C25: An accepted invoice is exact: every line total is the price times the quantity, the subtotal,
  the tax total and the bill are the true sums of their lines, nothing exceeds the persistence
  envelope, and a flat tax, or a percentage whose product with the subtotal has at most 20
  digits, is the true amount rounded once.
\<close>

theorem accepted_invoice_is_exact:
  assumes rnd: "keeps_20_digits rnd" and run: "computeInvoiceTotalsExact rnd lineItems taxSpecs = Inr bill"
  shows "list_all exact_line (inv_lineItems bill) \<and>
    inv_subtotal bill = sum_list (map it_lineTotal (inv_lineItems bill)) \<and>
    inv_taxTotal bill = sum_list (map tl_computedAmount (inv_taxLines bill)) \<and>
    inv_billTotal bill = inv_subtotal bill + inv_taxTotal bill \<and> inv_billTotal bill < 10 ^ 20 \<and>
    (\<forall>t \<in> set (inv_taxLines bill). tl_type t = ''FLAT'' \<or> inv_subtotal bill * tl_value t < 10 ^ 20 \<longrightarrow>
       tl_computedAmount t = exact_tax (inv_subtotal bill) t)"
proof -
  obtain items where items: "traverse_sum (line_of rnd) items = Inr (inv_lineItems bill)"
    and sub: "assertPersistableExact (plus_all rnd (map it_lineTotal (inv_lineItems bill))) ''invoice subtotal'' = Inr (inv_subtotal bill)"
    and taxes: "computeTaxLinesExact rnd taxSpecs (inv_subtotal bill) = Inr (inv_taxTotal bill, inv_taxLines bill)"
    and due: "assertPersistableExact (rnd (inv_subtotal bill + inv_taxTotal bill)) ''bill total'' = Inr (inv_billTotal bill)"
    using run by (auto simp: computeInvoiceTotalsExact_def computeLineItemsExact_def split: option.splits if_splits)
  obtain ts where ts: "traverse_sum (tax_of rnd (inv_subtotal bill)) ts = Inr (inv_taxLines bill)"
    and total: "assertPersistableExact (plus_all rnd (map tl_computedAmount (inv_taxLines bill))) ''tax total'' = Inr (inv_taxTotal bill)"
    using taxes by (auto simp: computeTaxLinesExact_def quantize8_def)
  have "list_all exact_line (inv_lineItems bill)"
    unfolding list_all_iff using items by (rule traverse_sum_all) (rule line_of_exact [OF rnd])
  moreover have "\<forall>t \<in> set (inv_taxLines bill). tl_type t = ''FLAT'' \<or> inv_subtotal bill * tl_value t < 10 ^ 20 \<longrightarrow>
       tl_computedAmount t = exact_tax (inv_subtotal bill) t"
    using ts by (rule traverse_sum_all) (use tax_of_exact [OF rnd] in blast)
  moreover note plus_all_exact [OF rnd sub] plus_all_exact [OF rnd total] persistable_exact [OF rnd due]
  ultimately show ?thesis by simp
qed

lemma show_nat_length: "0 < k \<Longrightarrow> length (show_nat n) \<le> k \<longleftrightarrow> n < 10 ^ k"
proof (induction k arbitrary: n)
  case (Suc k)
  show ?case
  proof (cases "n < 10")
    case True
    then have "n < 10 ^ Suc k" by (rule less_le_trans) simp
    then show ?thesis using True by (subst show_nat.simps) simp
  next
    case False
    then have "length (show_nat n) = Suc (length (show_nat (n div 10)))" by (subst show_nat.simps) simp
    moreover have "n < 10 ^ Suc k \<longleftrightarrow> n div 10 < 10 ^ k" by (simp add: div_less_iff_less_mult mult.commute)
    ultimately show ?thesis using Suc.IH [of "n div 10"] False by (cases k) simp_all
  qed
qed simp

lemma half_up_20_keeps: "keeps_20_digits half_up_20"
proof -
  have "half_up_20 n = n" if "n < 10 ^ 20" for n
    using that show_nat_length [of 20 n] by (simp add: half_up_20_def)
  moreover have "10 ^ 20 \<le> half_up_20 n" if n: "10 ^ 20 \<le> n" for n
  proof -
    let ?k = "length (show_nat n) - 20"
    have long: "\<not> length (show_nat n) \<le> 20" using n show_nat_length [of 20 n] by simp
    have "\<not> n < 10 ^ (19 + ?k)" using long show_nat_length [of "19 + ?k" n] by linarith
    then have "10 ^ (19 + ?k) div 10 ^ ?k \<le> (n + 5 * 10 ^ (?k - 1)) div 10 ^ ?k"
      by (intro div_le_mono) linarith
    then have "10 ^ 19 * 10 ^ ?k \<le> (n + 5 * 10 ^ (?k - 1)) div 10 ^ ?k * 10 ^ ?k"
      by (simp add: power_add del: power_mult_distrib)
    moreover have "(10 :: nat) ^ 20 \<le> 10 ^ 19 * 10 ^ ?k"
      using long by (simp only: power_add [symmetric]) (rule power_increasing; simp)
    moreover have "half_up_20 n = (n + 5 * 10 ^ (?k - 1)) div 10 ^ ?k * 10 ^ ?k" using long by (simp add: half_up_20_def Let_def)
    ultimately show ?thesis by linarith
  qed
  ultimately show ?thesis unfolding keeps_20_digits_def by blast
qed

definition sample_items :: "line_input list" where
  "sample_items = [\<lparr>in_description = Some ''Jollof'', in_quantity = JNum (NFin False 3 0), in_unitPrice = JStr ''0.04115226''\<rparr>]"

definition sample_taxes :: "tax_input list" where
  "sample_taxes = [\<lparr>in_name = Some ''VAT'', in_type = ''PERCENTAGE'', in_value = JStr ''5''\<rparr>]"

text \<open>The rule the source documents: 5% of 0.12345678 is stored as 0.00617284.\<close>

theorem accepted_invoice_is_exact_witness:
  "keeps_20_digits half_up_20 \<and>
   (\<exists>bill. computeInvoiceTotalsExact half_up_20 (Some sample_items) (Some sample_taxes) = Inr bill \<and>
      inv_subtotal bill = 12345678 \<and> map tl_computedAmount (inv_taxLines bill) = [617284] \<and>
      inv_billTotal bill = inv_subtotal bill + inv_taxTotal bill)"
proof -
  have small: "half_up_20 n = n" if "n < 10 ^ 20" for n using half_up_20_keeps that by (simp add: keeps_20_digits_def)
  have "line_of half_up_20 (hd sample_items) =
      Inr \<lparr>it_description = ''Jollof'', it_quantity = 3, it_unitPrice = 4115226, it_lineTotal = 12345678\<rparr>"
    by (simp add: line_of_def sample_items_def parseExactDecimal_def quantity_limit_def MAX_REASONABLE_QUANTITY_def
        assertPersistableExact_def MAX_PERSISTABLE_def small or_empty_def evaluate_quantity)
  then have lines: "computeLineItemsExact half_up_20 (Some sample_items) =
      Inr (12345678, [\<lparr>it_description = ''Jollof'', it_quantity = 3, it_unitPrice = 4115226, it_lineTotal = 12345678\<rparr>])"
    by (simp add: computeLineItemsExact_def sample_items_def plus_all_def small assertPersistableExact_def MAX_PERSISTABLE_def)
  have "tax_of half_up_20 12345678 (hd sample_taxes) =
      Inr \<lparr>tl_name = ''VAT'', tl_type = ''PERCENTAGE'', tl_value = 500000000, tl_computedAmount = 617284\<rparr>"
    by (simp add: tax_of_def sample_taxes_def parseExactDecimal_def quantize8_def
        assertPersistableExact_def MAX_PERSISTABLE_def small or_empty_def evaluate_quantity)
  then have "computeTaxLinesExact half_up_20 (Some sample_taxes) 12345678 =
      Inr (617284, [\<lparr>tl_name = ''VAT'', tl_type = ''PERCENTAGE'', tl_value = 500000000, tl_computedAmount = 617284\<rparr>])"
    by (simp add: computeTaxLinesExact_def sample_taxes_def plus_all_def small assertPersistableExact_def MAX_PERSISTABLE_def
        quantize8_def)
  with lines obtain bill where bill: "computeInvoiceTotalsExact half_up_20 (Some sample_items) (Some sample_taxes) = Inr bill"
    and "inv_subtotal bill = 12345678" "map tl_computedAmount (inv_taxLines bill) = [617284]"
    by (simp add: computeInvoiceTotalsExact_def small assertPersistableExact_def MAX_PERSISTABLE_def)
  then show ?thesis using accepted_invoice_is_exact [OF half_up_20_keeps bill] half_up_20_keeps by simp
qed

lemma digits_rat:
  assumes "list_all is_digit t"
  shows "literal_rat t = of_nat (read_nat t)"
proof -
  have "takeWhile is_digit t = t" "dropWhile is_digit t = []" using assms by (simp_all add: list_all_iff)
  then show ?thesis unfolding literal_rat_def Let_def by (simp only:) simp
qed

text \<open>
  Strict quantities: an accepted quantity is the value of the input, a whole number between one
  and the limit.
\<close>

theorem strict_quantity_is_the_value:
  assumes "parseStrictQuantity v = Inr q"
  shows "1 \<le> q \<and> q \<le> MAX_REASONABLE_QUANTITY \<and> js_rat v = Some (of_nat q)"
proof -
  have "js_rat v = Some (of_nat q)"
    using assms
  proof (cases v)
    case (JStr s)
    then have "list_all is_digit (js_trim s)" "q = read_nat (js_trim s)"
      using assms by (auto simp: Let_def dest: quantity_limit_range split: if_splits)
    then show ?thesis using JStr by (simp add: js_rat_def digits_rat)
  next
    case (JNum x)
    then show ?thesis
      using assms by (cases x) (auto simp: js_rat_def num_rat_def pow10_def dest: quantity_limit_range split: if_splits)
  qed simp_all
  then show ?thesis using parseStrictQuantity_range [OF assms] by simp
qed

theorem strict_quantity_is_the_value_witness:
  "parseStrictQuantity (JStr '' 007 '') = Inr 7 \<and> js_rat (JStr '' 007 '') = Some 7 \<and>
   parseStrictQuantity (JStr ''1e2'') = Inl QUANTITY_NOT_CANONICAL"
proof -
  have "parseStrictQuantity (JStr '' 007 '') = Inr 7" "parseStrictQuantity (JStr ''1e2'') = Inl QUANTITY_NOT_CANONICAL"
    by (simp_all add: quantity_limit_def MAX_REASONABLE_QUANTITY_def evaluate_quantity)
  from this(2) this(1) strict_quantity_is_the_value [OF this(1)] show ?thesis by simp
qed

text \<open>
  Above 20 digits the percentage is rounded twice: 7.25% of 100000000000.00000062 is
  7250000000.00000004495, stored as 7250000000.00000005 instead of 7250000000.00000004.
\<close>

theorem percentage_rounds_twice:
  "tax_of half_up_20 10000000000000000062 \<lparr>in_name = Some ''VAT'', in_type = ''PERCENTAGE'', in_value = JStr ''7.25''\<rparr> =
     Inr \<lparr>tl_name = ''VAT'', tl_type = ''PERCENTAGE'', tl_value = 725000000, tl_computedAmount = 725000000000000005\<rparr> \<and>
   exact_tax 10000000000000000062
       \<lparr>tl_name = ''VAT'', tl_type = ''PERCENTAGE'', tl_value = 725000000, tl_computedAmount = 725000000000000005\<rparr> =
     725000000000000004"
proof -
  have digits: "length (show_nat n) = 28" if "10 ^ 27 \<le> n" "n < 10 ^ 28" for n
    using that show_nat_length [of 27 n] show_nat_length [of 28 n] by linarith
  have "half_up_20 7250000000000000044950000000 = 7250000000000000045000000000"
    and "half_up_20 7250000000000000045000000000 = 7250000000000000045000000000"
    using digits [of 7250000000000000044950000000] digits [of 7250000000000000045000000000] by (simp_all add: half_up_20_def)
  then show ?thesis
    by (simp add: tax_of_def exact_tax_def parseExactDecimal_def quantize8_def assertPersistableExact_def MAX_PERSISTABLE_def
        or_empty_def evaluate_quantity)
qed

end
