(* ===== verification/Azm_Staking.thy ===== *)
theory Azm_Staking
  imports Js_Number Js_Text Interleaving Conditional_Claim
begin

text \<open>
  AZM staking, \<^verbatim>\<open>services/azmStakeService.js\<close>, and the tier policy, \<^verbatim>\<open>services/nitroPolicy.js\<close>:
  a stake moves its principal out of the spendable balance, a completed unstake moves it back.

  Balances and stakes are integers in \<open>10\<^sup>-\<^sup>8\<close> units, the scale of their Decimal(20,8) columns;
  a value with more places is rounded half up when it is stored. Staked balances are summed in
  JavaScript numbers, rounded to 53 bits, ties to even. A transaction that already holds the
  user's row runs alone on it; a call that reads a stake and then claims it lets other
  transactions (\<open>env\<close>) commit in between.
\<close>

section \<open>Tier policy\<close>

definition NITRO_THRESHOLDS :: "(string \<times> rat) list" where
  "NITRO_THRESHOLDS = [(''NITRO_BRONZE'', 500), (''NITRO_SILVER'', 1500), (''NITRO_GOLD'', 5000)]"

definition TIER_RANK :: "(string \<times> int) list" where
  "TIER_RANK = [(''FREE'', 0), (''NITRO_BRONZE'', 1), (''NITRO_SILVER'', 2), (''NITRO_GOLD'', 3)]"

text \<open>\<open>None\<close> is a number that is not finite.\<close>

definition getTierForStake :: "rat option \<Rightarrow> string" where
  "getTierForStake stakedBalance =
     (case stakedBalance of
        None \<Rightarrow> ''FREE''
      | Some balance \<Rightarrow>
          if balance < 0 then ''FREE''
          else if balance \<ge> 5000 then ''NITRO_GOLD''
          else if balance \<ge> 1500 then ''NITRO_SILVER''
          else if balance \<ge> 500 then ''NITRO_BRONZE'' else ''FREE'')"

text \<open>A comparison with an inherited member is a comparison with NaN.\<close>

definition meetsTier :: "string \<Rightarrow> string \<Rightarrow> bool" where
  "meetsTier currentTier requiredTier =
     (case js_lookup TIER_RANK requiredTier of
        Own r \<Rightarrow> (case js_lookup TIER_RANK currentTier of Own c \<Rightarrow> c \<ge> r | Missing \<Rightarrow> - 1 \<ge> r | Inherited \<Rightarrow> False)
      | _ \<Rightarrow> False)"

datatype shortage = Short rat | NotANumber

definition shortageForTier :: "rat option \<Rightarrow> string \<Rightarrow> shortage" where
  "shortageForTier stakedBalance requiredTier =
     (case js_lookup NITRO_THRESHOLDS requiredTier of
        Missing \<Rightarrow> Short 0
      | Inherited \<Rightarrow> NotANumber
      | Own threshold \<Rightarrow>
          (case stakedBalance of None \<Rightarrow> Short threshold | Some balance \<Rightarrow> Short (max 0 (threshold - balance))))"

section \<open>Tables\<close>

datatype stake_status = ACTIVE | UNSTAKING | COMPLETED | SLASHED

record azm_user =
  us_id :: int
  us_azmBalance :: int

record azm_stake =
  st_id :: string
  st_userId :: int
  st_amountAzm :: int
  st_status :: stake_status
  st_unstakeRequestedAt :: "int option"
  st_unstakeAvailableAt :: "int option"
  st_completedAt :: "int option"
  st_cooldownDays :: int
  st_tierAtStake :: string

record azm_log =
  lg_userId :: int
  lg_amount :: int
  lg_source :: string
  lg_dedupKey :: string
  lg_balanceAfter :: int

record stake_db =
  sd_users :: "azm_user list"
  sd_stakes :: "azm_stake list"
  sd_spendLog :: "azm_log list"
  sd_rewardLog :: "azm_log list"

datatype stake_error =
    STAKE_AMOUNT_NOT_POSITIVE
  | INSUFFICIENT_AZM
  | STAKE_NOT_FOUND
  | STAKE_NOT_ACTIVE
  | LOG_DUPLICATE
  | USER_NOT_FOUND

definition COOLDOWN_DAYS :: int where
  "COOLDOWN_DAYS = 7"

definition backed :: "azm_stake \<Rightarrow> bool" where
  "backed st \<longleftrightarrow> st_status st \<in> {ACTIVE, UNSTAKING}"

definition getStakedBalance :: "int \<Rightarrow> stake_db \<Rightarrow> rat" where
  "getStakedBalance userId s =
     foldl (\<lambda>acc st. double_of (acc + double_of (units_rat (st_amountAzm st)))) 0
       (filter (\<lambda>st. st_userId st = userId \<and> backed st) (sd_stakes s))"

definition getUserTier :: "int \<Rightarrow> stake_db \<Rightarrow> string" where
  "getUserTier userId s = getTierForStake (Some (getStakedBalance userId s))"

definition log_key :: "azm_log \<Rightarrow> int \<times> string \<times> string" where
  "log_key l = (lg_userId l, lg_source l, lg_dedupKey l)"

section \<open>Staking and unstaking\<close>

definition debit :: "rat \<Rightarrow> azm_user \<Rightarrow> azm_user" where
  "debit x u = u\<lparr>us_azmBalance := round8 (units_rat (us_azmBalance u) - x)\<rparr>"

definition new_stake :: "string \<Rightarrow> int \<Rightarrow> rat \<Rightarrow> string \<Rightarrow> azm_stake" where
  "new_stake newId userId x tierBefore =
     \<lparr>st_id = newId, st_userId = userId, st_amountAzm = round8 x, st_status = ACTIVE, st_unstakeRequestedAt = None,
      st_unstakeAvailableAt = None, st_completedAt = None, st_cooldownDays = COOLDOWN_DAYS, st_tierAtStake = tierBefore\<rparr>"

definition lock_log :: "string \<Rightarrow> int \<Rightarrow> rat \<Rightarrow> int \<Rightarrow> azm_log" where
  "lock_log stakeId userId x balance =
     \<lparr>lg_userId = userId, lg_amount = round8 x, lg_source = ''STAKE_LOCK'', lg_dedupKey = ''stake_lock_'' @ stakeId,
      lg_balanceAfter = balance\<rparr>"

definition createStake ::
  "string \<Rightarrow> int \<Rightarrow> js_num \<Rightarrow> stake_db \<Rightarrow> (stake_error, azm_stake \<times> string \<times> rat, stake_db) outcome" where
  "createStake newId userId amountAzm s =
     (case num_rat amountAzm of
        None \<Rightarrow> (Inl STAKE_AMOUNT_NOT_POSITIVE, s)
      | Some x \<Rightarrow>
          if x \<le> 0 then (Inl STAKE_AMOUNT_NOT_POSITIVE, s)
          else
     (case find_by us_id userId (sd_users s) of
        None \<Rightarrow> (Inl INSUFFICIENT_AZM, s)
      | Some u \<Rightarrow>
          if units_rat (us_azmBalance u) < x then (Inl INSUFFICIENT_AZM, s)
          else
            let s1 = s\<lparr>sd_users := update_by (\<lambda>r. us_id r = userId) (debit x) (sd_users s)\<rparr>;
                stake = new_stake newId userId x (getTierForStake (Some (getStakedBalance userId s1)));
                s2 = s1\<lparr>sd_stakes := sd_stakes s1 @ [stake]\<rparr>;
                log = lock_log newId userId x (us_azmBalance (debit x u)) in
            if log_key log \<in> log_key ` set (sd_spendLog s2) then (Inl LOG_DUPLICATE, s)
            else
              let s3 = s2\<lparr>sd_spendLog := sd_spendLog s2 @ [log]\<rparr> in
              (Inr (stake, getUserTier userId s3, getStakedBalance userId s3), s3)))"

definition is_active :: "int \<Rightarrow> azm_stake \<Rightarrow> bool" where
  "is_active userId st \<longleftrightarrow> st_userId st = userId \<and> st_status st = ACTIVE"

definition start_unstake :: "int \<Rightarrow> int \<Rightarrow> azm_stake \<Rightarrow> azm_stake" where
  "start_unstake now available st =
     st\<lparr>st_status := UNSTAKING, st_unstakeRequestedAt := Some now, st_unstakeAvailableAt := Some available\<rparr>"

definition requestUnstake ::
  "int \<Rightarrow> int \<Rightarrow> string \<Rightarrow> (stake_db \<Rightarrow> stake_db) \<Rightarrow> stake_db \<Rightarrow> (stake_error, azm_stake option, stake_db) outcome" where
  "requestUnstake now userId stakeId env s =
     (case find_by st_id stakeId (sd_stakes s) of
        None \<Rightarrow> (Inl STAKE_NOT_FOUND, s)
      | Some stake \<Rightarrow>
          if st_userId stake \<noteq> userId then (Inl STAKE_NOT_FOUND, s)
          else
            let available = now + st_cooldownDays stake * 86400000; s1 = env s in
            if claims st_id (is_active userId) stakeId (sd_stakes s1) = 0 then (Inl STAKE_NOT_ACTIVE, s1)
            else
              let s2 = s1\<lparr>sd_stakes := claim_rows st_id (is_active userId) (start_unstake now available) stakeId (sd_stakes s1)\<rparr> in
              (Inr (find_by st_id stakeId (sd_stakes s2)), s2))"

definition releasable :: "int \<Rightarrow> azm_stake \<Rightarrow> bool" where
  "releasable now st \<longleftrightarrow>
     st_status st = UNSTAKING \<and> (case st_unstakeAvailableAt st of None \<Rightarrow> False | Some t \<Rightarrow> t \<le> now)"

definition complete_stake :: "int \<Rightarrow> azm_stake \<Rightarrow> azm_stake" where
  "complete_stake now st = st\<lparr>st_status := COMPLETED, st_completedAt := Some now\<rparr>"

definition credit :: "int \<Rightarrow> azm_user \<Rightarrow> azm_user" where
  "credit n u = u\<lparr>us_azmBalance := us_azmBalance u + n\<rparr>"

definition release_log :: "azm_stake \<Rightarrow> int \<Rightarrow> azm_log" where
  "release_log stake balance =
     \<lparr>lg_userId = st_userId stake, lg_amount = st_amountAzm stake, lg_source = ''STAKE_RELEASE'',
      lg_dedupKey = ''stake_release_'' @ st_id stake, lg_balanceAfter = balance\<rparr>"

text \<open>\<open>now\<close> and \<open>now'\<close> are the two readings of the clock; an error undoes the transaction.\<close>

definition completeUnstake ::
  "int \<Rightarrow> int \<Rightarrow> string \<Rightarrow> (stake_db \<Rightarrow> stake_db) \<Rightarrow> stake_db \<Rightarrow> (stake_error, azm_stake option, stake_db) outcome" where
  "completeUnstake now now' stakeId env s =
     (case find_by st_id stakeId (sd_stakes s) of
        None \<Rightarrow> (Inr None, s)
      | Some stake \<Rightarrow>
          if \<not> releasable now stake then (Inr None, s)
          else
            let s1 = env s in
            if claims st_id (releasable now') stakeId (sd_stakes s1) = 0 then (Inr None, s1)
            else
     (case find_by us_id (st_userId stake) (sd_users s1) of
        None \<Rightarrow> (Inl USER_NOT_FOUND, s1)
      | Some u \<Rightarrow>
            let s2 = s1\<lparr>sd_stakes := claim_rows st_id (releasable now') (complete_stake now') stakeId (sd_stakes s1),
                        sd_users := update_by (\<lambda>r. us_id r = st_userId stake) (credit (st_amountAzm stake)) (sd_users s1)\<rparr>;
                log = release_log stake (us_azmBalance u + st_amountAzm stake) in
            if log_key log \<in> log_key ` set (sd_rewardLog s1) then (Inl LOG_DUPLICATE, s1)
            else
              (Inr (find_by st_id stakeId (sd_stakes s2)), s2\<lparr>sd_rewardLog := sd_rewardLog s2 @ [log]\<rparr>)))"

text \<open>
  The queue stops at the first error, as an exception out of the loop does; the completions made
  before it stay committed.
\<close>

fun process_stakes :: "int \<Rightarrow> (stake_db \<Rightarrow> stake_db) \<Rightarrow> azm_stake list \<Rightarrow> nat \<Rightarrow> stake_db \<Rightarrow> (stake_error, nat, stake_db) outcome" where
  "process_stakes now env [] n s = (Inr n, s)"
| "process_stakes now env (st # rest) n s =
     and_then (completeUnstake now now (st_id st) env s)
       (\<lambda>done. process_stakes now env rest (if done = None then n else Suc n))"

definition processUnstakeQueue :: "int \<Rightarrow> (stake_db \<Rightarrow> stake_db) \<Rightarrow> stake_db \<Rightarrow> (stake_error, nat \<times> nat, stake_db) outcome" where
  "processUnstakeQueue now env s =
     (let pending = filter (releasable now) (sd_stakes s) in
      and_then (process_stakes now env pending 0 s) (\<lambda>completed s'. (Inr (completed, length pending), s')))"

definition checkActiveStakes :: "stake_db \<Rightarrow> nat" where
  "checkActiveStakes s = length (filter (\<lambda>st. st_status st = ACTIVE) (sd_stakes s))"

section \<open>Every stake is backed\<close>

definition wealth :: "int \<Rightarrow> stake_db \<Rightarrow> int" where
  "wealth i s =
     sum_rows (\<lambda>u. if us_id u = i then us_azmBalance u else 0) (sd_users s) +
     sum_rows (\<lambda>st. if st_userId st = i \<and> backed st then st_amountAzm st else 0) (sd_stakes s)"

definition staking_ok :: "stake_db \<Rightarrow> bool" where
  "staking_ok s \<longleftrightarrow>
     distinct (map us_id (sd_users s)) \<and> distinct (map st_id (sd_stakes s)) \<and>
     (\<forall>u \<in> set (sd_users s). 0 \<le> us_azmBalance u) \<and> (\<forall>st \<in> set (sd_stakes s). 0 \<le> st_amountAzm st)"

definition same_stake :: "azm_stake \<Rightarrow> azm_stake \<Rightarrow> bool" where
  "same_stake x y \<longleftrightarrow> st_userId y = st_userId x \<and> st_amountAzm y = st_amountAzm x"

definition staking_evolves :: "stake_db \<Rightarrow> stake_db \<Rightarrow> bool" where
  "staking_evolves s t \<longleftrightarrow>
     rows_evolve st_id same_stake (sd_stakes s) (sd_stakes t)"

text \<open>What the rest of the program may do: anything but write a stake. Rewards, gifts, auctions and spends
  change balances and logs; the database keeps the balances from becoming negative.\<close>

definition other_writer :: "stake_db \<Rightarrow> stake_db \<Rightarrow> bool" where
  "other_writer s t \<longleftrightarrow>
     sd_stakes t = sd_stakes s \<and> distinct (map us_id (sd_users t)) \<and> (\<forall>u \<in> set (sd_users t). 0 \<le> us_azmBalance u)"

datatype staking_call = Create string int js_num | Request string int | Complete string | Other "stake_db \<Rightarrow> stake_db"

text \<open>
  A stake of any amount under a fresh id; the queue worker is a sequence of completions.
\<close>

definition staking_exec ::
  "(stake_db \<Rightarrow> stake_db) \<Rightarrow> int \<times> staking_call \<Rightarrow> stake_db \<Rightarrow> stake_error option \<times> stake_db" where
  "staking_exec env c s =
     (case c of
        (now, Create newId userId amount) \<Rightarrow>
          (if newId \<in> st_id ` set (sd_stakes (env s)) then (None, env s)
           else let (r, t) = createStake newId userId amount (env s) in
             (case r of Inl e \<Rightarrow> Some e | Inr _ \<Rightarrow> None, t))
      | (now, Request i userId) \<Rightarrow>
          (let (r, t) = requestUnstake now userId i env s in (case r of Inl e \<Rightarrow> Some e | Inr _ \<Rightarrow> None, t))
      | (now, Complete i) \<Rightarrow>
          (let (r, t) = completeUnstake now now i env s in (case r of Inl e \<Rightarrow> Some e | Inr _ \<Rightarrow> None, t))
      | (now, Other f) \<Rightarrow> (None, if other_writer (env s) (f (env s)) then f (env s) else env s))"

text \<open>An amount halfway between two units of the column: both the stake and the remaining balance are
  rounded up.\<close>

definition half_unit :: "js_num \<Rightarrow> bool" where
  "half_unit amount \<longleftrightarrow> (case num_rat amount of None \<Rightarrow> False | Some x \<Rightarrow> x * 10 ^ 8 + 1 / 2 = of_int \<lfloor>x * 10 ^ 8 + 1 / 2\<rfloor>)"

lemma debit_drift:
  "us_azmBalance (debit x u) + round8 x =
   us_azmBalance u + (if x * 10 ^ 8 + 1 / 2 = of_int \<lfloor>x * 10 ^ 8 + 1 / 2\<rfloor> then 1 else 0)"
proof -
  let ?b = "us_azmBalance u" and ?y = "x * 10 ^ 8 + 1 / 2"
  have b: "(units_rat ?b - x) * 10 ^ 8 + 1 / 2 = of_int (?b + 1) - ?y"
    by (simp add: units_rat_def left_diff_distrib)
  have "\<lfloor>of_int (?b + 1) - ?y\<rfloor> + \<lfloor>?y\<rfloor> = ?b + (if ?y = of_int \<lfloor>?y\<rfloor> then 1 else 0)"
  proof (cases "?y = of_int \<lfloor>?y\<rfloor>")
    case True
    then have "of_int (?b + 1) - ?y = of_int (?b + 1 - \<lfloor>?y\<rfloor>)" by simp
    then have "\<lfloor>of_int (?b + 1) - ?y\<rfloor> = ?b + 1 - \<lfloor>?y\<rfloor>" by (simp only: floor_of_int)
    then show ?thesis using True by simp
  next
    case False
    then have "of_int \<lfloor>?y\<rfloor> < ?y" "?y < of_int \<lfloor>?y\<rfloor> + 1" by linarith+
    then have "\<lfloor>of_int (?b + 1) - ?y\<rfloor> = ?b - \<lfloor>?y\<rfloor>" by (simp add: floor_eq_iff)
    then show ?thesis using False by simp
  qed
  then show ?thesis unfolding b [symmetric] by (simp only: debit_def round8_def) simp
qed

lemma debit_nonneg: "\<not> units_rat (us_azmBalance u) < x \<Longrightarrow> 0 \<le> us_azmBalance (debit x u)"
  by (simp add: debit_def round8_def)

lemma units_num: "num_rat (NFin False n (- 8)) = Some (units_rat (int n))"
  by (simp add: num_rat_def pow10_def units_rat_def)

lemma debit_units: "us_azmBalance (debit (units_rat n) u) = us_azmBalance u - n"
proof -
  have "units_rat (us_azmBalance u) - units_rat n = of_int (us_azmBalance u - n) / 10 ^ 8"
    by (simp add: units_rat_def diff_divide_distrib)
  then show ?thesis by (simp only: debit_def round8_units) simp
qed

lemma debit_id [simp]: "us_id (debit x u) = us_id u"
  and credit_simps [simp]: "us_id (credit n u) = us_id u" "us_azmBalance (credit n u) = us_azmBalance u + n"
  by (simp_all add: debit_def credit_def)

lemma stake_moves [simp]:
  "st_id (start_unstake a b st) = st_id st" "st_id (complete_stake n st) = st_id st"
  "st_userId (start_unstake a b st) = st_userId st" "st_userId (complete_stake n st) = st_userId st"
  "st_amountAzm (start_unstake a b st) = st_amountAzm st" "st_amountAzm (complete_stake n st) = st_amountAzm st"
  "st_status (start_unstake a b st) = UNSTAKING" "st_status (complete_stake n st) = COMPLETED"
  by (simp_all add: start_unstake_def complete_stake_def)

interpretation unstake: conditional_claim st_id "is_active userId" "start_unstake now available"
  by unfold_locales (simp_all add: is_active_def)

interpretation release: conditional_claim st_id "releasable now" "complete_stake now'"
  by unfold_locales (simp_all add: releasable_def)

lemma same_stake_refl [simp]: "same_stake x x"
  by (simp add: same_stake_def)

lemma staking_evolves_refl: "staking_evolves s s"
  by (simp add: staking_evolves_def rows_evolve_refl)

lemma staking_evolves_trans: "staking_evolves s t \<Longrightarrow> staking_evolves t u \<Longrightarrow> staking_evolves s u"
proof -
  have "transp same_stake" by (rule transpI) (simp add: same_stake_def)
  then show "staking_evolves s t \<Longrightarrow> staking_evolves t u \<Longrightarrow> staking_evolves s u"
    using rows_evolve_trans by (fastforce simp: staking_evolves_def)
qed

lemma balance_sum_update:
  assumes "distinct (map us_id us)" and "find_by us_id j us = Some u" and "\<And>x. us_id (f x) = us_id x"
  shows "sum_rows (\<lambda>u. if us_id u = i then us_azmBalance u else 0) (update_by (\<lambda>r. us_id r = j) f us) =
    sum_rows (\<lambda>u. if us_id u = i then us_azmBalance u else 0) us + (if i = j then us_azmBalance (f u) - us_azmBalance u else 0)"
  using sum_rows_update_key [OF assms(1,2), of "\<lambda>u. if us_id u = i then us_azmBalance u else 0" "\<lambda>_. True" f] assms(2,3)
  by (auto dest: find_by_SomeD)

lemma create_keeps:
  assumes ok: "staking_ok s" and fresh: "newId \<notin> st_id ` set (sd_stakes s)"
    and run: "createStake newId userId amount s = (r, t)"
  shows "staking_ok t \<and> staking_evolves s t"
    and "t = s \<or> (\<forall>i. wealth i t = wealth i s + (if i = userId \<and> half_unit amount then 1 else 0))"
proof -
  have "staking_ok t \<and> staking_evolves s t \<and>
    (t = s \<or> (\<forall>i. wealth i t = wealth i s + (if i = userId \<and> half_unit amount then 1 else 0)))"
  proof (cases r)
    case (Inl e)
    then have "t = s" using run by (auto simp: createStake_def Let_def split: option.splits if_splits)
    then show ?thesis using ok staking_evolves_refl by simp
  next
    case (Inr v)
    obtain x u tier where x: "num_rat amount = Some x" "0 < x" and u: "find_by us_id userId (sd_users s) = Some u"
      and enough: "\<not> units_rat (us_azmBalance u) < x"
      and users: "sd_users t = update_by (\<lambda>r. us_id r = userId) (debit x) (sd_users s)"
      and stakes: "sd_stakes t = sd_stakes s @ [new_stake newId userId x tier]"
      using run Inr by (auto simp: createStake_def Let_def split: option.splits if_splits)
    have d: "distinct (map us_id (sd_users s))" using ok by (simp add: staking_ok_def)
    have "wealth i t = wealth i s + (if i = userId \<and> half_unit amount then 1 else 0)" for i
      using stakes balance_sum_update [OF d u, of "debit x" i] debit_drift [of x u]
      by (auto simp: wealth_def users backed_def new_stake_def half_unit_def x(1))
    moreover have "0 \<le> us_azmBalance w" if w: "w \<in> set (sd_users t)" for w
    proof -
      obtain w' where w': "w' \<in> set (sd_users s)" "w = (if us_id w' = userId then debit x w' else w')"
        using w unfolding users set_update_by by blast
      have "us_id w' = userId \<Longrightarrow> w' = u" using find_by_unique [OF d u w'(1)] by blast
      then show ?thesis using ok debit_nonneg [OF enough] w' by (auto simp: staking_ok_def)
    qed
    moreover have "0 \<le> round8 x" using x(2) by (simp add: round8_def)
    ultimately show ?thesis
      using ok stakes fresh
      by (auto simp: staking_ok_def staking_evolves_def users rows_evolve_append new_stake_def)
  qed
  then show "staking_ok t \<and> staking_evolves s t"
    and "t = s \<or> (\<forall>i. wealth i t = wealth i s + (if i = userId \<and> half_unit amount then 1 else 0))" by blast+
qed

text \<open>A claim that keeps a stake's owner, amount and backing moves nothing.\<close>

lemma claim_sum_stakes:
  assumes cc: "conditional_claim st_id guard mv" and d: "distinct (map st_id sts)"
    and f: "find_by st_id j sts = Some st" "guard st" and same: "same_stake st (mv st)"
  shows "sum_rows (\<lambda>st. if st_userId st = i \<and> backed st then st_amountAzm st else 0) (claim_rows st_id guard mv j sts) =
    sum_rows (\<lambda>st. if st_userId st = i \<and> backed st then st_amountAzm st else 0) sts +
    (if st_userId st = i then (if backed (mv st) then st_amountAzm st else 0) - (if backed st then st_amountAzm st else 0) else 0)"
  using conditional_claim.claim_sum [OF cc d f, of "\<lambda>st. if st_userId st = i \<and> backed st then st_amountAzm st else 0"] same
  by (simp add: same_stake_def)

lemma claim_stakes_ok:
  assumes "conditional_claim st_id guard mv" and "\<And>x. same_stake x (mv x)"
    and "distinct (map st_id sts)" "\<forall>st \<in> set sts. 0 \<le> st_amountAzm st"
  shows "distinct (map st_id (claim_rows st_id guard mv j sts)) \<and>
    (\<forall>st \<in> set (claim_rows st_id guard mv j sts). 0 \<le> st_amountAzm st) \<and>
    rows_evolve st_id same_stake sts (claim_rows st_id guard mv j sts)"
proof -
  have "st_amountAzm (mv x) = st_amountAzm x" "st_id (mv x) = st_id x" for x
    using assms(2) [of x] conditional_claim.move_key [OF assms(1)] by (simp_all add: same_stake_def)
  then show ?thesis
    using assms(2-4) by (auto simp: claim_rows_def set_update_by rows_evolve_update)
qed

lemma request_keeps:
  assumes run: "requestUnstake now userId i env s = (r, t)" and ok: "staking_ok s" "staking_ok (env s)"
    and ev: "staking_evolves s (env s)"
  shows "staking_ok t \<and> staking_evolves s t \<and> (t = s \<or> (\<forall>k. wealth k t = wealth k (env s)))"
proof (cases "\<exists>stake. find_by st_id i (sd_stakes s) = Some stake \<and> st_userId stake = userId \<and>
    claims st_id (is_active userId) i (sd_stakes (env s)) \<noteq> 0")
  case True
  then obtain stake where f: "find_by st_id i (sd_stakes s) = Some stake" "st_userId stake = userId"
    and c: "claims st_id (is_active userId) i (sd_stakes (env s)) \<noteq> 0" by blast
  let ?mv = "start_unstake now (now + st_cooldownDays stake * 86400000)"
  have t: "t = (env s)\<lparr>sd_stakes := claim_rows st_id (is_active userId) ?mv i (sd_stakes (env s))\<rparr>"
    using run f c by (simp add: requestUnstake_def Let_def)
  have d: "distinct (map st_id (sd_stakes (env s)))" using ok by (simp add: staking_ok_def)
  obtain st where st: "find_by st_id i (sd_stakes (env s)) = Some st" "is_active userId st"
    using c unstake.claims_iff [OF d] by blast
  have same: "same_stake x (?mv x)" for x by (simp add: same_stake_def)
  have "backed st" "backed (?mv st)" using st(2) by (simp_all add: backed_def is_active_def)
  then have w: "wealth k t = wealth k (env s)" for k
    using claim_sum_stakes [OF unstake.conditional_claim_axioms d st same, of k] by (simp add: t wealth_def)
  have "distinct (map st_id (sd_stakes t)) \<and> (\<forall>st \<in> set (sd_stakes t). 0 \<le> st_amountAzm st) \<and>
      rows_evolve st_id same_stake (sd_stakes (env s)) (sd_stakes t)"
    using claim_stakes_ok [OF unstake.conditional_claim_axioms same d] ok(2) by (simp add: t staking_ok_def)
  then have "staking_ok t \<and> staking_evolves (env s) t"
    using ok(2) by (simp add: staking_ok_def staking_evolves_def t)
  then show ?thesis using ev staking_evolves_trans w by blast
next
  case False
  then have "t = s \<or> t = env s" using run by (auto simp: requestUnstake_def Let_def split: option.splits if_splits)
  then show ?thesis using ok ev staking_evolves_refl by auto
qed

lemma complete_keeps:
  assumes run: "completeUnstake now now' i env s = (r, t)" and ok: "staking_ok s" "staking_ok (env s)"
    and ev: "staking_evolves s (env s)"
  shows "staking_ok t \<and> staking_evolves s t \<and> (t = s \<or> (\<forall>k. wealth k t = wealth k (env s)))"
proof (cases "t = s \<or> t = env s")
  case False
  let ?s1 = "env s"
  obtain stake u where f: "find_by st_id i (sd_stakes s) = Some stake"
    and c: "claims st_id (releasable now') i (sd_stakes ?s1) \<noteq> 0"
    and u: "find_by us_id (st_userId stake) (sd_users ?s1) = Some u"
    and users: "sd_users t = update_by (\<lambda>r. us_id r = st_userId stake) (credit (st_amountAzm stake)) (sd_users ?s1)"
    and stakes: "sd_stakes t = claim_rows st_id (releasable now') (complete_stake now') i (sd_stakes ?s1)"
    using run False by (auto simp: completeUnstake_def Let_def split: option.splits if_splits)
  have d: "distinct (map st_id (sd_stakes ?s1))" "distinct (map us_id (sd_users ?s1))" using ok by (simp_all add: staking_ok_def)
  obtain st where st: "find_by st_id i (sd_stakes ?s1) = Some st" "releasable now' st"
    using c release.claims_iff [OF d(1)] by blast
  have owner: "st_userId st = st_userId stake" "st_amountAzm st = st_amountAzm stake"
    using ev f st(1) by (auto simp: staking_evolves_def same_stake_def dest: rows_evolveD)
  have same: "same_stake x (complete_stake now' x)" for x by (simp add: same_stake_def)
  have "backed st" "\<not> backed (complete_stake now' st)" using st(2) by (simp_all add: backed_def releasable_def)
  then have w: "wealth k t = wealth k ?s1" for k
    using claim_sum_stakes [OF release.conditional_claim_axioms d(1) st same, of k] owner
      balance_sum_update [OF d(2) u, of "credit (st_amountAzm stake)" k]
    by (simp add: users stakes wealth_def)
  have "distinct (map st_id (sd_stakes t)) \<and> (\<forall>st \<in> set (sd_stakes t). 0 \<le> st_amountAzm st) \<and>
      rows_evolve st_id same_stake (sd_stakes ?s1) (sd_stakes t)"
    using claim_stakes_ok [OF release.conditional_claim_axioms same d(1)] ok(2) by (simp add: stakes staking_ok_def)
  moreover have "0 \<le> st_amountAzm stake" using ok(1) find_by_Some [OF f] by (simp add: staking_ok_def)
  then have "\<forall>w \<in> set (sd_users t). 0 \<le> us_azmBalance w" using ok(2) by (auto simp: users staking_ok_def set_update_by)
  ultimately have "staking_ok t \<and> staking_evolves ?s1 t"
    using ok(2) by (simp add: staking_ok_def staking_evolves_def users)
  then show ?thesis using ev staking_evolves_trans w by blast
qed (use ok ev staking_evolves_refl in auto)

text \<open>How far a call may move the wealth of a user: a stake of half a unit too many creates one unit.\<close>

definition drift :: "staking_call \<Rightarrow> int \<Rightarrow> int" where
  "drift c i = (case c of Create _ u amount \<Rightarrow> if i = u \<and> half_unit amount then 1 else 0 | _ \<Rightarrow> 0)"

lemma staking_exec_keeps:
  assumes "staking_exec env c s = (r, t)" "staking_ok s" "staking_ok (env s)" "staking_evolves s (env s)"
  shows "staking_ok t \<and> staking_evolves s t"
    and "(\<And>f. snd c \<noteq> Other f) \<Longrightarrow> t = s \<or> t = env s \<or> (\<forall>i. wealth i t = wealth i (env s) + drift (snd c) i)"
proof -
  obtain now k where c: "c = (now, k)" by (cases c)
  have "staking_ok t \<and> staking_evolves s t \<and>
    ((\<forall>f. k \<noteq> Other f) \<longrightarrow> t = s \<or> t = env s \<or> (\<forall>i. wealth i t = wealth i (env s) + drift k i))"
  proof (cases k)
    case (Create i u n)
    obtain r' t' where run: "createStake i u n (env s) = (r', t')" by fastforce
    show ?thesis
    proof (cases "i \<in> st_id ` set (sd_stakes (env s))")
      case True
      then have "t = env s" using assms(1) c Create by (simp add: staking_exec_def)
      then show ?thesis using assms by simp
    next
      case False
      then have "t = t'" using assms(1) c Create run by (simp add: staking_exec_def)
      then show ?thesis
        using create_keeps [OF assms(3) False run] assms(4) staking_evolves_trans Create by (auto simp: drift_def)
    qed
  next
    case (Request i u)
    then have run: "requestUnstake now u i env s = (fst (requestUnstake now u i env s), t)"
      using assms(1) c by (cases "requestUnstake now u i env s") (simp add: staking_exec_def)
    show ?thesis using request_keeps [OF run assms(2-4)] Request by (auto simp: drift_def)
  next
    case (Complete i)
    then have run: "completeUnstake now now i env s = (fst (completeUnstake now now i env s), t)"
      using assms(1) c by (cases "completeUnstake now now i env s") (simp add: staking_exec_def)
    show ?thesis using complete_keeps [OF run assms(2-4)] Complete by (auto simp: drift_def)
  next
    case (Other f)
    then have "t = env s \<or> other_writer (env s) t" using assms(1) c by (auto simp: staking_exec_def split: if_splits)
    then show ?thesis
      using assms(3,4) Other staking_evolves_trans [OF assms(4), of t]
      by (auto simp: other_writer_def staking_ok_def staking_evolves_def rows_evolve_refl)
  qed
  then show "staking_ok t \<and> staking_evolves s t"
    and "(\<And>f. snd c \<noteq> Other f) \<Longrightarrow> t = s \<or> t = env s \<or> (\<forall>i. wealth i t = wealth i (env s) + drift (snd c) i)"
    by (auto simp: c)
qed

interpretation staking: interleaved_service staking_exec staking_ok staking_evolves
  by unfold_locales (use staking_evolves_refl staking_evolves_trans staking_exec_keeps in blast)+

section \<open>Guarantees\<close>

definition sample_users :: stake_db where
  "sample_users = \<lparr>sd_users = [\<lparr>us_id = 1, us_azmBalance = 900\<rparr>], sd_stakes = [], sd_spendLog = [], sd_rewardLog = []\<rparr>"

text \<open>C11: Every stake is backed, over any history of stakes of any amount, unstake requests and
  completions, retried and concurrent ones included, and whatever else the program does to the balances
  in between: a call of the staking service leaves a user's spendable balance plus the principal of the
  user's active and unstaking stakes exactly as it found it, except that a stake halfway between two
  units of the column adds one unit; and no balance becomes negative. So a staked AZM is not spendable
  at the same time, and a release happens at most once.\<close>

theorem stakes_are_backed:
  assumes "history staking_exec s t" and "staking_ok s" and "history staking_exec t (env t)"
    and "staking_exec env c t = (r, u)" and "\<And>f. snd c \<noteq> Other f"
  shows "(u = t \<or> u = env t \<or> (\<forall>i. wealth i u = wealth i (env t) + drift (snd c) i)) \<and>
    (\<forall>x \<in> set (sd_users u). 0 \<le> us_azmBalance x)"
proof -
  have t: "staking_ok t" using staking.history_inv [OF assms(1,2)] .
  have e: "staking_ok (env t)" "staking_evolves t (env t)" using staking.history_keeps [OF assms(3) t] by blast+
  show ?thesis
    using staking_exec_keeps(2) [OF assms(4) t e assms(5)] staking_exec_keeps(1) [OF assms(4) t e] by (simp add: staking_ok_def)
qed

theorem stakes_are_backed_witness:
  "(let t = snd (staking_exec id (0, Create ''a'' 1 (NFin False 600 (- 8))) sample_users) in
    staking_ok sample_users \<and>
    map us_azmBalance (sd_users t) = [300] \<and> map st_amountAzm (sd_stakes t) = [600] \<and> wealth 1 t = wealth 1 sample_users)"
proof -
  let ?c = "(0, Create ''a'' 1 (NFin False 600 (- 8)))"
  let ?t = "snd (staking_exec id ?c sample_users)"
  have ok: "staking_ok sample_users" by (simp add: staking_ok_def sample_users_def)
  have u: "num_rat (NFin False 600 (- 8)) = Some (600 / 10 ^ 8)" by (simp add: num_rat_def pow10_def)
  have h: "\<not> half_unit (NFin False 600 (- 8))"
  proof -
    have "\<lfloor>1201 / 2 :: rat\<rfloor> = 600" by (simp add: floor_eq_iff)
    then show ?thesis by (simp add: half_unit_def u)
  qed
  have "round8 (600 / 10 ^ 8) = 600" using round8_units [of 600] by simp
  moreover have "us_azmBalance (debit (600 / 10 ^ 8) \<lparr>us_id = 1, us_azmBalance = 900\<rparr>) = 300"
    using debit_units [of 600 "\<lparr>us_id = 1, us_azmBalance = 900\<rparr>"] by (simp add: units_rat_def)
  ultimately have t: "map us_azmBalance (sd_users ?t) = [300] \<and> map st_amountAzm (sd_stakes ?t) = [600]"
    by (simp add: staking_exec_def createStake_def sample_users_def new_stake_def u units_rat_def Let_def)
  have "history staking_exec sample_users (id sample_users)" by (simp add: history.stop)
  from stakes_are_backed [where env = id, OF history.stop ok this prod.collapse [symmetric], of ?c]
  have "wealth 1 ?t = wealth 1 sample_users" by (auto simp: drift_def h)
  with ok t show ?thesis unfolding Let_def by blast
qed

text \<open>
  An amount below the column's scale: staking half a unit leaves the balance as it was, because
  the difference is rounded up, while the stake is rounded up to one unit. The stake is not
  backed.
\<close>

theorem subunit_stake_is_unbacked:
  "(let (r, t) = createStake ''a'' 1 (NFin False 5 (- 9)) sample_users in
    map us_azmBalance (sd_users t) = [900] \<and> map st_amountAzm (sd_stakes t) = [1] \<and> wealth 1 t = wealth 1 sample_users + 1)"
proof -
  have "num_rat (NFin False 5 (- 9)) = Some (5 / 10 ^ 9)" by (simp add: num_rat_def pow10_def)
  moreover have "debit (5 / 10 ^ 9) \<lparr>us_id = 1, us_azmBalance = 900\<rparr> = \<lparr>us_id = 1, us_azmBalance = 900\<rparr>"
    by (simp add: debit_def round8_def units_rat_def)
  moreover have "round8 (5 / 10 ^ 9) = 1" by (simp add: round8_def)
  ultimately show ?thesis
    by (simp add: createStake_def sample_users_def units_rat_def Let_def wealth_def new_stake_def backed_def)
qed

text \<open>
  Tier policy: for every paid tier, a staked balance meets the tier exactly when the policy
  reports no shortage for it, whatever the balance, finite or not.
\<close>

theorem tier_iff_no_shortage:
  assumes "tier \<in> set (map fst NITRO_THRESHOLDS)"
  shows "meetsTier (getTierForStake balance) tier \<longleftrightarrow> shortageForTier balance tier = Short 0"
proof -
  have tiers: "tier = ''NITRO_BRONZE'' \<or> tier = ''NITRO_SILVER'' \<or> tier = ''NITRO_GOLD''"
    using assms by (simp add: NITRO_THRESHOLDS_def)
  then show ?thesis
    by (cases balance) (elim disjE; simp add: meetsTier_def shortageForTier_def getTierForStake_def js_lookup_def
      NITRO_THRESHOLDS_def TIER_RANK_def max_def)+
qed

theorem tier_iff_no_shortage_witness:
  "''NITRO_SILVER'' \<in> set (map fst NITRO_THRESHOLDS) \<and> \<not> meetsTier (getTierForStake (Some 1499)) ''NITRO_SILVER''"
  using tier_iff_no_shortage [of "''NITRO_SILVER''" "Some 1499"]
  by (simp add: NITRO_THRESHOLDS_def shortageForTier_def js_lookup_def)

lemma double_of_whole:
  assumes "n < 2 ^ 53"
  shows "double_of (of_nat n) = of_nat n"
proof (cases "n = 0")
  case False
  have fl: "\<lfloor>(of_nat n :: rat) * 2 ^ 60\<rfloor> = int n * 2 ^ 60"
    using floor_of_int [of "int n * 2 ^ 60", where ?'a = rat] by simp
  define e where "e = log2 (int n * 2 ^ 60) - 112"
  have "int n < 2 ^ 53" using assms by (metis of_nat_less_iff of_nat_numeral of_nat_power)
  then have "int n * 2 ^ 60 < 2 ^ Suc 112" by simp
  then have "e \<le> 0" using log2_bound [of "int n * 2 ^ 60" 112] False by (simp add: e_def)
  then have ex: "exp2 e = 1 / 2 ^ nat (- e)" by (auto simp: exp2_def)
  then have "of_nat n / exp2 e = of_int (int n * 2 ^ nat (- e))" by simp
  then have "round_even (of_nat n / exp2 e) = int n * 2 ^ nat (- e)" by (simp only: round_even_int)
  moreover have "double_of (of_nat n) = of_int (round_even (of_nat n / exp2 e)) * exp2 e"
    using False unfolding double_of_def fl e_def Let_def by simp
  ultimately show ?thesis by (simp add: ex)
qed (simp add: double_of_def)

lemma whole_sum:
  assumes "\<forall>st \<in> set sts. \<exists>n. st_amountAzm st = int n * 10 ^ 8"
    and "rat_of_nat a + units_rat (sum_rows st_amountAzm sts) < 2 ^ 53"
  shows "foldl (\<lambda>acc st. double_of (acc + double_of (units_rat (st_amountAzm st)))) (of_nat a) sts =
    of_nat a + units_rat (sum_rows st_amountAzm sts)"
  using assms
proof (induction sts arbitrary: a)
  case (Cons st sts)
  obtain n where n: "st_amountAzm st = int n * 10 ^ 8" using Cons.prems(1) by auto
  have u: "units_rat (int n * 10 ^ 8 + k) = of_nat n + units_rat k" for k by (simp add: units_rat_def add_divide_distrib)
  have s: "units_rat (sum_rows st_amountAzm (st # sts)) = of_nat n + units_rat (sum_rows st_amountAzm sts)"
    by (simp only: sum_rows_Cons n u)
  have "0 \<le> sum_rows st_amountAzm sts" by (rule sum_rows_nonneg) (use Cons.prems(1) in auto)
  then have "0 \<le> units_rat (sum_rows st_amountAzm sts)" by (simp add: units_rat_def)
  then have "rat_of_nat (a + n) < 2 ^ 53" using Cons.prems(2) by (simp only: sum_rows_Cons n u)
  then have small: "a + n < 2 ^ 53" by (metis of_nat_less_iff of_nat_numeral of_nat_power)
  have "units_rat (st_amountAzm st) = of_nat n" using u [of 0] n by (simp add: units_rat_def)
  then have step: "double_of (of_nat a + double_of (units_rat (st_amountAzm st))) = of_nat (a + n)"
    using double_of_whole [of n] double_of_whole [OF small] small by simp
  have "of_nat (a + n) + units_rat (sum_rows st_amountAzm sts) < (2 :: rat) ^ 53"
    using Cons.prems(2) by (simp only: s of_nat_add add.assoc)
  then show ?case using Cons.IH [of "a + n"] Cons.prems(1) by (simp only: foldl_Cons step s of_nat_add add.assoc) simp
qed (simp add: units_rat_def)

text \<open>
  Staked balance of whole stakes: while a user's backed stakes are whole AZM amounts with a total
  below \<open>2\<^sup>5\<^sup>3\<close>, the floating-point sum is their exact total and the tier is the one of that total.
\<close>

theorem whole_stakes_give_their_tier:
  assumes "\<forall>st \<in> set (sd_stakes s). st_userId st = i \<and> backed st \<longrightarrow> (\<exists>n. st_amountAzm st = int n * 10 ^ 8)"
    and "units_rat (sum_rows st_amountAzm (filter (\<lambda>st. st_userId st = i \<and> backed st) (sd_stakes s))) < 2 ^ 53"
  shows "getUserTier i s =
    getTierForStake (Some (units_rat (sum_rows st_amountAzm (filter (\<lambda>st. st_userId st = i \<and> backed st) (sd_stakes s)))))"
  using whole_sum [of "filter (\<lambda>st. st_userId st = i \<and> backed st) (sd_stakes s)" 0] assms
  by (simp add: getUserTier_def getStakedBalance_def)

text \<open>
  Staked balances are summed in floating point: four stakes that add up to exactly 500 AZM give
  499.99999999999994 and the tier FREE.
\<close>

definition tenths :: "string \<Rightarrow> int \<Rightarrow> azm_stake" where
  "tenths i n = new_stake i 1 (of_int n / 10) ''FREE''"

lemma floor_fraction: "\<lfloor>numeral a / numeral b :: rat\<rfloor> = numeral a div numeral b"
  using floor_divide_of_int_eq [of "numeral a" "numeral b", where ?'a = rat] by simp

lemma log2_eq: "2 ^ k \<le> n \<Longrightarrow> n < 2 ^ Suc k \<Longrightarrow> log2 n = int k"
proof (induction k arbitrary: n)
  case 0
  then show ?case by (subst log2.simps) simp
next
  case (Suc k)
  have "(2 :: int) \<le> 2 ^ Suc k" by simp
  then have "\<not> n < 2" using Suc.prems(1) by linarith
  moreover have "2 ^ k \<le> n div 2" "n div 2 < 2 ^ Suc k" using Suc.prems by simp_all
  ultimately show ?case using Suc.IH by (subst log2.simps) simp
qed

lemma double_of_eval:
  assumes "0 < x" and "2 ^ k \<le> \<lfloor>x * 2 ^ 60\<rfloor>" "\<lfloor>x * 2 ^ 60\<rfloor> < 2 ^ Suc k" and "k + j = 112" "0 < j"
    and "round_even (x * 2 ^ j) = m"
  shows "double_of x = of_int m / 2 ^ j"
proof -
  have "log2 \<lfloor>x * 2 ^ 60\<rfloor> - 112 = - int j" using log2_eq [OF assms(2,3)] assms(4) by linarith
  then have "double_of x = of_int (round_even (x / exp2 (- int j))) * exp2 (- int j)" using assms(1) unfolding double_of_def Let_def by simp
  moreover have "exp2 (- int j) = 1 / 2 ^ j" using assms(5) by (simp add: exp2_def)
  ultimately show ?thesis using assms(6) by simp
qed

theorem float_sum_misses_tier:
  "(let s = \<lparr>sd_users = [], sd_stakes = [tenths ''a'' 1732, tenths ''b'' 941, tenths ''c'' 1260, tenths ''d'' 1067],
             sd_spendLog = [], sd_rewardLog = []\<rparr> in
    wealth 1 s = 500 * 10 ^ 8 \<and> getStakedBalance 1 s < 500 \<and> getUserTier 1 s = ''FREE'')"
proof -
  have amounts: "round8 (1732 / 10) = 17320000000" "round8 (941 / 10) = 9410000000"
    "round8 (1260 / 10) = 12600000000" "round8 (1067 / 10) = 10670000000"
    "round8 (866 / 5) = 17320000000" "round8 126 = 12600000000"
    by (simp_all add: round8_def floor_fraction)
  have "double_of (866 / 5) = 3046966622892851 / 17592186044416"
    using double_of_eval [of "866 / 5" 67 45 6093933245785702] by (simp add: round_even_def floor_fraction Let_def)
  note nums = this
  have "double_of (3046966622892851 / 17592186044416) = 3046966622892851 / 17592186044416"
    using double_of_eval [of "3046966622892851 / 17592186044416" 67 45 6093933245785702] by (simp add: round_even_def floor_fraction Let_def)
  note nums = nums this
  have "double_of (941 / 10) = 3310849413559091 / 35184372088832"
    using double_of_eval [of "941 / 10" 66 46 6621698827118182] by (simp add: round_even_def floor_fraction Let_def)
  note nums = nums this
  have "double_of (9404782659344793 / 35184372088832) = 1175597832418099 / 4398046511104"
    using double_of_eval [of "9404782659344793 / 35184372088832" 68 44 4702391329672396] by (simp add: round_even_def floor_fraction Let_def)
  note nums = nums this
  have "double_of (126) = 126"
    using double_of_eval [of "126" 66 46 8866461766385664] by (simp add: round_even_def floor_fraction Let_def)
  note nums = nums this
  have "double_of (1729751692817203 / 4398046511104) = 1729751692817203 / 4398046511104"
    using double_of_eval [of "1729751692817203 / 4398046511104" 68 44 6919006771268812] by (simp add: round_even_def floor_fraction Let_def)
  note nums = nums this
  have "double_of (1067 / 10) = 7508345003756749 / 70368744177664"
    using double_of_eval [of "1067 / 10" 66 46 7508345003756749] by (simp add: round_even_def floor_fraction Let_def)
  note nums = nums this
  have "double_of (35184372088831997 / 70368744177664) = 8796093022207999 / 17592186044416"
    using double_of_eval [of "35184372088831997 / 70368744177664" 68 44 8796093022207999] by (simp add: round_even_def floor_fraction Let_def)
  note nums = nums this
  have "getStakedBalance 1 \<lparr>sd_users = [], sd_stakes = [tenths ''a'' 1732, tenths ''b'' 941, tenths ''c'' 1260, tenths ''d'' 1067],
      sd_spendLog = [], sd_rewardLog = []\<rparr> = 8796093022207999 / 17592186044416"
    by (simp add: getStakedBalance_def tenths_def new_stake_def backed_def amounts units_rat_def nums)
  then show ?thesis
    by (simp add: getUserTier_def getTierForStake_def wealth_def tenths_def new_stake_def backed_def amounts)
qed

theorem whole_stakes_give_their_tier_witness:
  "(let s = \<lparr>sd_users = [], sd_stakes = [tenths ''a'' 3000, tenths ''b'' 2000], sd_spendLog = [], sd_rewardLog = []\<rparr> in
    getUserTier 1 s = ''NITRO_BRONZE'')"
proof -
  let ?s = "\<lparr>sd_users = [], sd_stakes = [tenths ''a'' 3000, tenths ''b'' 2000], sd_spendLog = [], sd_rewardLog = []\<rparr>"
  have amounts: "round8 300 = 30000000000" "round8 200 = 20000000000" by (simp_all add: round8_def floor_fraction)
  have "\<forall>st \<in> set (sd_stakes ?s). st_userId st = 1 \<and> backed st \<longrightarrow> (\<exists>n. st_amountAzm st = int n * 10 ^ 8)"
    by (auto simp: tenths_def new_stake_def amounts intro: exI [of _ 300] exI [of _ 200])
  from whole_stakes_give_their_tier [OF this] show ?thesis
    by (simp add: tenths_def new_stake_def amounts backed_def units_rat_def getTierForStake_def)
qed

end
