(* ===== verification/Custody_Evidence.thy ===== *)
theory Custody_Evidence
  imports Js_Text
begin

text \<open>
  Custody evidence at the boundary of the system: exact token quantities
  (\<^verbatim>\<open>services/custodyAccountingService.js\<close>, \<^verbatim>\<open>services/custodyEvidenceProvider.js\<close>) and the
  three provider adapters that turn an HTTP answer of the chain provider into a normalised
  observation or a classified error.

  The HTTP client is the parameter \<open>http\<close> of an adapter: what it answers for a request is either
  the status of a failed request or the decoded payload. The members of a JSON payload are
  \<open>js_value\<close>s, with \<open>JNull\<close> for null and undefined and \<open>JOther ''false''\<close> for the boolean
  false; where the code tells null from undefined the member is an option. Error messages and the
  sanitised copy of the raw payload are not modelled.
\<close>

section \<open>Exact token quantities\<close>

text \<open>The regular expression \<^verbatim>\<open>^\d+(\.\d+)?$\<close> with the parts \<open>split('.')\<close> gives.\<close>

definition plain_decimal :: "string \<Rightarrow> (string \<times> string) option" where
  "plain_decimal s =
     (let ip = takeWhile is_digit s; rest = dropWhile is_digit s in
      if ip = [] then None
      else case rest of
        [] \<Rightarrow> Some (ip, [])
      | c # fp \<Rightarrow> if c = CHR ''.'' \<and> fp \<noteq> [] \<and> list_all is_digit fp then Some (ip, fp) else None)"

definition pad_end :: "nat \<Rightarrow> string \<Rightarrow> string" where
  "pad_end n s = s @ replicate (n - length s) (CHR ''0'')"

definition pad_start :: "nat \<Rightarrow> string \<Rightarrow> string" where
  "pad_start n s = replicate (n - length s) (CHR ''0'') @ s"

definition strip_zeros :: "string \<Rightarrow> string" where
  "strip_zeros s = rev (dropWhile (\<lambda>c. c = CHR ''0'') (rev s))"

definition raw_text :: "js_value \<Rightarrow> string" where
  "raw_text v = (case v of JStr s \<Rightarrow> js_trim s | JNull \<Rightarrow> [] | _ \<Rightarrow> js_to_string v)"

datatype amount_error = NotExactDecimal | TooManyDecimals | ZeroAmount

definition decimalStringFromBaseUnits :: "int \<Rightarrow> nat \<Rightarrow> string" where
  "decimalStringFromBaseUnits baseUnits decimals =
     (let neg = baseUnits < 0; units = nat \<bar>baseUnits\<bar>; scale = 10 ^ decimals;
          fracPart = strip_zeros (pad_start decimals (show_nat (units mod scale))) in
      (if neg then ''-'' else []) @ show_nat (units div scale) @
      (if fracPart \<noteq> [] then CHR ''.'' # fracPart else []))"

definition exactWebhookAmountToBaseUnits :: "js_value \<Rightarrow> nat \<Rightarrow> amount_error + nat" where
  "exactWebhookAmountToBaseUnits raw decimals =
     (case plain_decimal (raw_text raw) of
        None \<Rightarrow> Inl NotExactDecimal
      | Some (intPart, fracRaw) \<Rightarrow>
          (if length fracRaw > decimals \<and> \<not> list_all (\<lambda>c. c = CHR ''0'') (drop decimals fracRaw)
           then Inl TooManyDecimals
           else let frac = take decimals fracRaw in
             if intPart = ''0'' \<and> list_all (\<lambda>c. c = CHR ''0'') frac then Inl ZeroAmount
             else Inr (read_nat (intPart @ pad_end decimals frac))))"

section \<open>Provider errors and addresses\<close>

datatype evidence_error =
    PROVIDER_UNAVAILABLE
  | PROVIDER_REJECTED
  | MALFORMED_RESPONSE
  | CONFIGURATION_ERROR
  | EVIDENCE_TYPE_ERROR

definition SOURCE_BALANCE :: string where
  "SOURCE_BALANCE = ''TATUM_V3_TOKEN_BALANCE''"

definition SOURCE_TX :: string where
  "SOURCE_TX = ''TATUM_V4_TX_BY_HASH''"

definition SOURCE_BALANCE_TESTNET :: string where
  "SOURCE_BALANCE_TESTNET = ''TATUM_V4_WALLET_PORTFOLIO_TESTNET''"

definition TATUM_V3_CHAIN :: "(string \<times> string) list" where
  "TATUM_V3_CHAIN = [(''POLYGON'', ''MATIC'')]"

definition TATUM_V4_CHAIN :: "(string \<times> string) list" where
  "TATUM_V4_CHAIN = [(''POLYGON'', ''polygon-mainnet'')]"

definition TATUM_V4_CHAIN_TESTNET :: "(string \<times> string) list" where
  "TATUM_V4_CHAIN_TESTNET = [(''POLYGON_TESTNET'', ''polygon-amoy'')]"

definition js_falsy :: "js_value \<Rightarrow> bool" where
  "js_falsy v =
     (case v of
        JNull \<Rightarrow> True
      | JStr s \<Rightarrow> s = []
      | JNum NNaN \<Rightarrow> True
      | JNum (NFin _ m _) \<Rightarrow> m = 0
      | JBig i \<Rightarrow> i = 0
      | JOther s \<Rightarrow> s = ''false''
      | _ \<Rightarrow> False)"

definition or_text :: "js_value \<Rightarrow> string" where
  "or_text v = (if js_falsy v then [] else js_to_string v)"

definition normalizeAddress :: "js_value \<Rightarrow> string" where
  "normalizeAddress v = js_trim (js_lower (or_text v))"

definition is_hex_digit :: "char \<Rightarrow> bool" where
  "is_hex_digit c \<longleftrightarrow> is_digit c \<or> (97 \<le> (of_char c :: nat) \<and> (of_char c :: nat) \<le> 102)
                      \<or> (65 \<le> (of_char c :: nat) \<and> (of_char c :: nat) \<le> 70)"

definition isValidEvmAddress :: "js_value \<Rightarrow> bool" where
  "isValidEvmAddress v =
     (case v of
        JStr s \<Rightarrow> take 2 s = ''0x'' \<and> length s = 42 \<and> list_all is_hex_digit (drop 2 s)
      | _ \<Rightarrow> False)"

definition AMOY_USDC_CONTRACT :: string where
  "AMOY_USDC_CONTRACT = normalizeAddress (JStr ''0x41e94eb019c0762f9bfcf9fb1e58725bfb0e7582'')"

definition classifyHttpError :: "nat option \<Rightarrow> evidence_error" where
  "classifyHttpError status =
     (if status = Some 401 \<or> status = Some 403 then PROVIDER_REJECTED else PROVIDER_UNAVAILABLE)"

definition parseBaseUnitsNonNegative :: "js_value \<Rightarrow> evidence_error + nat" where
  "parseBaseUnitsNonNegative v =
     (let str = raw_text v in
      if str \<noteq> [] \<and> list_all is_digit str then Inr (read_nat str) else Inl MALFORMED_RESPONSE)"

definition decimalStringToBaseUnits :: "js_value \<Rightarrow> nat \<Rightarrow> evidence_error + nat" where
  "decimalStringToBaseUnits v decimals =
     (case plain_decimal (raw_text v) of
        None \<Rightarrow> Inl MALFORMED_RESPONSE
      | Some (intPart, fracPart) \<Rightarrow>
          (if length fracPart > decimals then Inl MALFORMED_RESPONSE
           else Inr (read_nat (intPart @ pad_end decimals fracPart))))"

section \<open>Balance observations\<close>

record balance_obs =
  bo_source :: string
  bo_network :: string
  bo_networkScope :: "string option"
  bo_contractAddress :: string
  bo_address :: string
  bo_balanceBaseUnits :: nat
  bo_observedAt :: int

definition tatum_getBalance ::
  "string option \<Rightarrow> (string \<Rightarrow> string \<Rightarrow> string \<Rightarrow> nat option + js_value) \<Rightarrow> int \<Rightarrow>
   string \<Rightarrow> string \<Rightarrow> string \<Rightarrow> evidence_error + balance_obs" where
  "tatum_getBalance apiKey http now network contractAddress address =
     (case map_of TATUM_V3_CHAIN (js_upper network) of
        None \<Rightarrow> Inl CONFIGURATION_ERROR
      | Some tatumChain \<Rightarrow>
          (if or_null apiKey = None then Inl CONFIGURATION_ERROR
           else let contract = normalizeAddress (JStr contractAddress); addr = normalizeAddress (JStr address) in
             case http tatumChain contract addr of
               Inl status \<Rightarrow> Inl (classifyHttpError status)
             | Inr balance \<Rightarrow>
                 bind_sum (parseBaseUnitsNonNegative balance) (\<lambda>n.
                   Inr \<lparr>bo_source = SOURCE_BALANCE, bo_network = js_upper network, bo_networkScope = Some ''MAINNET'',
                        bo_contractAddress = contract, bo_address = addr, bo_balanceBaseUnits = n, bo_observedAt = now\<rparr>)))"

record portfolio_entry =
  pe_chain :: js_value
  pe_address :: js_value
  pe_type :: js_value
  pe_tokenAddress :: js_value
  pe_decimals :: js_value
  pe_denominatedBalance :: js_value
  pe_balance :: js_value

datatype portfolio_item = NotObject | Item portfolio_entry

datatype portfolio = NoResultArray | Portfolio "portfolio_item list" "js_value option"

fun item_ok :: "string \<Rightarrow> string \<Rightarrow> portfolio_item \<Rightarrow> bool" where
  "item_ok chain addr NotObject = False"
| "item_ok chain addr (Item e) =
     (js_lower (or_text (pe_chain e)) = js_lower chain \<and> normalizeAddress (pe_address e) = addr \<and>
      pe_type e = JStr ''fungible'' \<and> isValidEvmAddress (pe_tokenAddress e))"

fun items_of :: "portfolio_item list \<Rightarrow> portfolio_entry list" where
  "items_of [] = []"
| "items_of (NotObject # xs) = items_of xs"
| "items_of (Item e # xs) = e # items_of xs"

definition page_complete :: "js_value option \<Rightarrow> bool" where
  "page_complete nextPage \<longleftrightarrow> nextPage = Some JNull \<or> nextPage = Some (JStr [])"

definition same_number :: "js_value \<Rightarrow> nat \<Rightarrow> bool" where
  "same_number v d =
     (case v of
        JNum (NFin neg m e) \<Rightarrow> 0 \<le> e \<and> (neg \<longrightarrow> m = 0) \<and> m * 10 ^ nat e = d
      | _ \<Rightarrow> False)"

definition read_entry :: "string \<Rightarrow> string \<Rightarrow> nat \<Rightarrow> portfolio_entry \<Rightarrow> evidence_error + nat" where
  "read_entry chain addr decimals e =
     (if js_lower (or_text (pe_chain e)) \<noteq> js_lower chain \<or> normalizeAddress (pe_address e) \<noteq> addr \<or>
         \<not> same_number (pe_decimals e) decimals
      then Inl MALFORMED_RESPONSE
      else bind_sum (parseBaseUnitsNonNegative (pe_denominatedBalance e)) (\<lambda>n.
           bind_sum (decimalStringToBaseUnits (pe_balance e) decimals) (\<lambda>k.
             if k \<noteq> n then Inl MALFORMED_RESPONSE else Inr n)))"

definition read_portfolio :: "string \<Rightarrow> string \<Rightarrow> string \<Rightarrow> nat \<Rightarrow> portfolio \<Rightarrow> evidence_error + nat" where
  "read_portfolio chain contract addr decimals payload =
     (case payload of
        NoResultArray \<Rightarrow> Inl MALFORMED_RESPONSE
      | Portfolio items nextPage \<Rightarrow>
          (if \<not> list_all (item_ok chain addr) items then Inl MALFORMED_RESPONSE
           else let matching = filter (\<lambda>e. normalizeAddress (pe_tokenAddress e) = contract) (items_of items) in
             case matching of
               [] \<Rightarrow> if page_complete nextPage then Inr 0 else Inl MALFORMED_RESPONSE
             | [e] \<Rightarrow> read_entry chain addr decimals e
             | _ \<Rightarrow> Inl MALFORMED_RESPONSE))"

definition tatum_testnet_getBalance ::
  "string option \<Rightarrow> (string \<Rightarrow> string \<Rightarrow> nat option + portfolio) \<Rightarrow> int \<Rightarrow>
   string \<Rightarrow> string \<Rightarrow> string \<Rightarrow> int \<Rightarrow> evidence_error + balance_obs" where
  "tatum_testnet_getBalance apiKey http now network contractAddress address decimals =
     (let requested = js_upper network; contract = normalizeAddress (JStr contractAddress);
          addr = normalizeAddress (JStr address) in
      case map_of TATUM_V4_CHAIN_TESTNET requested of
        None \<Rightarrow> Inl CONFIGURATION_ERROR
      | Some tatumChain \<Rightarrow>
          (if or_null apiKey = None \<or> decimals < 0 \<or> contract \<noteq> AMOY_USDC_CONTRACT then Inl CONFIGURATION_ERROR
           else case http tatumChain addr of
               Inl status \<Rightarrow> Inl (classifyHttpError status)
             | Inr payload \<Rightarrow>
                 bind_sum (read_portfolio tatumChain contract addr (nat decimals) payload) (\<lambda>n.
                   Inr \<lparr>bo_source = SOURCE_BALANCE_TESTNET, bo_network = requested, bo_networkScope = Some ''TESTNET'',
                        bo_contractAddress = contract, bo_address = addr, bo_balanceBaseUnits = n, bo_observedAt = now\<rparr>)))"

section \<open>Transaction observations\<close>

record raw_tx =
  rt_chain :: js_value
  rt_hash :: js_value
  rt_address :: js_value
  rt_counterAddress :: js_value
  rt_tokenAddress :: js_value
  rt_blockNumber :: js_value
  rt_transactionType :: js_value
  rt_transactionSubtype :: js_value
  rt_amount :: js_value

record tx_entry =
  te_chain :: js_value
  te_hash :: "string option"
  te_address :: string
  te_counterAddress :: "string option"
  te_tokenAddress :: "string option"
  te_blockNumber :: "js_num option"
  te_transactionType :: js_value
  te_transactionSubtype :: js_value
  te_amountBaseUnits :: nat

record tx_obs =
  to_network :: string
  to_hash :: string
  to_entries :: "tx_entry list"
  to_observedAt :: int

definition opt_address :: "js_value \<Rightarrow> string option" where
  "opt_address v = (if js_falsy v then None else Some (normalizeAddress v))"

text \<open>An element that is null (\<open>None\<close>) has no members to read: a TypeError.\<close>

definition normalize_tx :: "nat \<Rightarrow> raw_tx option \<Rightarrow> evidence_error + tx_entry" where
  "normalize_tx decimals r =
     (case r of
        None \<Rightarrow> Inl EVIDENCE_TYPE_ERROR
      | Some e \<Rightarrow>
          bind_sum (decimalStringToBaseUnits (rt_amount e) decimals) (\<lambda>n.
            Inr \<lparr>te_chain = rt_chain e,
                 te_hash = (if rt_hash e = JNull then None else Some (js_trim (js_lower (js_to_string (rt_hash e))))),
                 te_address = normalizeAddress (rt_address e),
                 te_counterAddress = opt_address (rt_counterAddress e),
                 te_tokenAddress = opt_address (rt_tokenAddress e),
                 te_blockNumber = (case rt_blockNumber e of JNum x \<Rightarrow> Some x | _ \<Rightarrow> None),
                 te_transactionType = rt_transactionType e,
                 te_transactionSubtype = rt_transactionSubtype e,
                 te_amountBaseUnits = n\<rparr>))"

definition tatum_getTransaction ::
  "string option \<Rightarrow> (string \<Rightarrow> string \<Rightarrow> nat option + raw_tx option list option) \<Rightarrow> int \<Rightarrow>
   string \<Rightarrow> string \<Rightarrow> nat \<Rightarrow> evidence_error + tx_obs" where
  "tatum_getTransaction apiKey http now network hash decimals =
     (case map_of TATUM_V4_CHAIN (js_upper network) of
        None \<Rightarrow> Inl CONFIGURATION_ERROR
      | Some tatumChain \<Rightarrow>
          (if or_null apiKey = None then Inl CONFIGURATION_ERROR
           else case http tatumChain hash of
               Inl status \<Rightarrow> Inl (classifyHttpError status)
             | Inr None \<Rightarrow> Inl MALFORMED_RESPONSE
             | Inr (Some es) \<Rightarrow>
                 bind_sum (traverse_sum (normalize_tx decimals) es) (\<lambda>normalized.
                   Inr \<lparr>to_network = js_upper network, to_hash = js_lower hash, to_entries = normalized,
                        to_observedAt = now\<rparr>)))"

section \<open>The value of a quantity text\<close>

lemma plain_decimal_Some:
  "plain_decimal s = Some (ip, fp) \<Longrightarrow>
   s = ip @ (if fp = [] then [] else CHR ''.'' # fp) \<and> ip \<noteq> [] \<and> list_all is_digit ip \<and> list_all is_digit fp"
proof -
  assume *: "plain_decimal s = Some (ip, fp)"
  have s: "takeWhile is_digit s @ dropWhile is_digit s = s" by simp
  have "list_all is_digit (takeWhile is_digit s)"
    by (auto simp: list_all_iff dest: set_takeWhileD)
  moreover have "ip = takeWhile is_digit s" "ip \<noteq> []"
    "dropWhile is_digit s = (if fp = [] then [] else CHR ''.'' # fp)" "list_all is_digit fp"
    using * by (auto simp: plain_decimal_def Let_def split: if_splits list.splits)
  ultimately show ?thesis using s by metis
qed

lemma plain_decimal_text:
  assumes "ip \<noteq> []" and "list_all is_digit ip" and "list_all is_digit fp"
  shows "plain_decimal (ip @ (if fp = [] then [] else CHR ''.'' # fp)) = Some (ip, fp)"
  using takeWhile_digits [OF assms(2), of "if fp = [] then [] else CHR ''.'' # fp"] assms
  by (auto simp: plain_decimal_def Let_def split: list.splits)

lemma length_pad_end [simp]: "length s \<le> d \<Longrightarrow> length (pad_end d s) = d"
  by (simp add: pad_end_def)

lemma read_pad_end: "read_nat (pad_end d s) = read_nat s * 10 ^ (d - length s)"
  by (simp add: pad_end_def read_nat_append)

lemma read_padded:
  "length fp \<le> d \<Longrightarrow> read_nat (ip @ pad_end d fp) = read_nat ip * 10 ^ d + read_nat fp * 10 ^ (d - length fp)"
  by (simp add: read_nat_append read_pad_end)

lemma zeros_replicate: "list_all (\<lambda>c. c = CHR ''0'') s \<Longrightarrow> s = replicate (length s) (CHR ''0'')"
  by (induction s) auto

lemma read_zeros: "list_all (\<lambda>c. c = CHR ''0'') s \<Longrightarrow> read_nat s = 0"
  by (metis zeros_replicate read_nat_zeros)

lemma padded_value:
  assumes "length fp \<le> d"
  shows "(of_nat (read_nat (ip @ pad_end d fp)) :: rat) / 10 ^ d = of_nat (read_nat ip) + of_nat (read_nat fp) / 10 ^ length fp"
  using scaled_fraction [OF assms, of "read_nat fp"] assms
  by (simp add: read_padded add_divide_distrib)

text \<open>The reference meaning of a quantity text.\<close>

definition text_value :: "string \<Rightarrow> rat option" where
  "text_value s = map_option (\<lambda>(ip, fp). of_nat (read_nat ip) + of_nat (read_nat fp) / 10 ^ length fp) (plain_decimal s)"

lemma provider_amount_value:
  "decimalStringToBaseUnits v d = Inr n \<Longrightarrow> text_value (raw_text v) = Some (of_nat n / 10 ^ d)"
  by (auto simp: decimalStringToBaseUnits_def text_value_def padded_value split: option.splits if_splits)

lemma read_take_zeros:
  assumes "list_all (\<lambda>c. c = CHR ''0'') (drop d fp)"
  shows "(of_nat (read_nat (take d fp)) :: rat) / 10 ^ length (take d fp) = of_nat (read_nat fp) / 10 ^ length fp"
proof -
  have "read_nat fp = read_nat (take d fp) * 10 ^ (length fp - d)"
    using read_nat_append [of "take d fp" "drop d fp"] read_zeros [OF assms] by simp
  moreover have "length fp - d = length fp - length (take d fp)" by simp
  ultimately show ?thesis
    using scaled_fraction [of "length (take d fp)" "length fp" "read_nat (take d fp)"] by simp
qed

lemma webhook_amount_value:
  assumes "exactWebhookAmountToBaseUnits v d = Inr n"
  shows "text_value (raw_text v) = Some (of_nat n / 10 ^ d)"
proof -
  obtain ip fp where p: "plain_decimal (raw_text v) = Some (ip, fp)"
    and z: "length fp > d \<longrightarrow> list_all (\<lambda>c. c = CHR ''0'') (drop d fp)"
    and n: "n = read_nat (ip @ pad_end d (take d fp))"
    using assms by (auto simp: exactWebhookAmountToBaseUnits_def Let_def split: option.splits if_splits)
  have "list_all (\<lambda>c. c = CHR ''0'') (drop d fp)" using z by (cases "length fp > d") auto
  from read_take_zeros [OF this] show ?thesis
    using p n padded_value [of "take d fp" d ip] by (simp add: text_value_def)
qed

section \<open>Round trip of the stored text\<close>

lemma strip_zeros_prefix: "\<exists>k. s = strip_zeros s @ replicate k (CHR ''0'')"
proof -
  let ?z = "\<lambda>c. c = CHR ''0''"
  have "rev s = takeWhile ?z (rev s) @ dropWhile ?z (rev s)" by simp
  moreover have "takeWhile ?z (rev s) = replicate (length (takeWhile ?z (rev s))) (CHR ''0'')"
    by (rule zeros_replicate) (auto simp: list_all_iff dest: set_takeWhileD)
  ultimately have "rev (rev s) = rev (dropWhile ?z (rev s)) @ replicate (length (takeWhile ?z (rev s))) (CHR ''0'')"
    by (metis rev_append rev_replicate)
  then show ?thesis by (auto simp: strip_zeros_def)
qed

lemma stored_fraction:
  fixes f :: nat
  assumes "f < 10 ^ d"
  defines "q \<equiv> strip_zeros (pad_start d (show_nat f))"
  shows "length q \<le> d" and "list_all is_digit q" and "read_nat (pad_end d q) = f"
proof -
  have all: "length q \<le> d \<and> list_all is_digit q \<and> read_nat (pad_end d q) = f"
  proof (cases "d = 0")
    case True
    moreover have "digit_char 0 = CHR ''0''" by code_simp
    ultimately show ?thesis using assms by (simp add: strip_zeros_def pad_start_def pad_end_def show_nat.simps)
  next
    case False
    let ?p = "pad_start d (show_nat f)"
    have len: "length ?p = d" using length_show_nat [OF assms(1)] False by (simp add: pad_start_def)
    have p: "list_all is_digit ?p" "read_nat ?p = f"
      by (auto simp: pad_start_def read_nat_append list_all_iff show_nat_digits)
    obtain k where k: "?p = q @ replicate k (CHR ''0'')" using strip_zeros_prefix unfolding q_def by blast
    then have "length q + k = d" using len by (metis length_append length_replicate)
    then have "pad_end d q = ?p" using k by (auto simp: pad_end_def)
    then show ?thesis using p k \<open>length q + k = d\<close> by (auto simp: list_all_iff)
  qed
  then show "length q \<le> d" and "list_all is_digit q" and "read_nat (pad_end d q) = f" by blast+
qed

lemma stored_text:
  fixes n d :: nat
  obtains q where "decimalStringFromBaseUnits (int n) d = show_nat (n div 10 ^ d) @ (if q = [] then [] else CHR ''.'' # q)"
    and "length q \<le> d" and "list_all is_digit q" and "read_nat (show_nat (n div 10 ^ d) @ pad_end d q) = n"
proof -
  let ?q = "strip_zeros (pad_start d (show_nat (n mod 10 ^ d)))"
  note q = stored_fraction [of "n mod 10 ^ d" d, simplified]
  have "read_nat (show_nat (n div 10 ^ d) @ pad_end d ?q) = n"
    using q(1,3) by (simp add: read_nat_append div_mult_mod_eq)
  moreover have "decimalStringFromBaseUnits (int n) d = show_nat (n div 10 ^ d) @ (if ?q = [] then [] else CHR ''.'' # ?q)"
    by (simp add: decimalStringFromBaseUnits_def Let_def)
  ultimately show ?thesis using that q by blast
qed

lemma stored_text_chars:
  "c \<in> set (decimalStringFromBaseUnits (int n) d) \<Longrightarrow> is_digit c \<or> c = CHR ''.''"
  by (rule stored_text [of n d]) (auto simp: list_all_iff show_nat_digits split: if_splits)

lemma stored_text_trim [simp]:
  "js_trim (decimalStringFromBaseUnits (int n) d) = decimalStringFromBaseUnits (int n) d"
  by (rule dropWhile_space_digits) (auto simp: list_all_iff dest!: stored_text_chars digit_not_space)

lemma stored_text_parts:
  obtains q where "plain_decimal (decimalStringFromBaseUnits (int n) d) = Some (show_nat (n div 10 ^ d), q)"
    and "length q \<le> d" and "read_nat (show_nat (n div 10 ^ d) @ pad_end d q) = n"
  using stored_text [of n d] plain_decimal_text [OF show_nat_not_Nil list_all_show_nat] by metis

lemma stored_text_webhook:
  assumes "0 < n"
  shows "exactWebhookAmountToBaseUnits (JStr (decimalStringFromBaseUnits (int n) d)) d = Inr n"
proof -
  obtain q where p: "plain_decimal (decimalStringFromBaseUnits (int n) d) = Some (show_nat (n div 10 ^ d), q)"
    and q: "length q \<le> d" "read_nat (show_nat (n div 10 ^ d) @ pad_end d q) = n"
    by (rule stored_text_parts)
  have "\<not> (show_nat (n div 10 ^ d) = ''0'' \<and> list_all (\<lambda>c. c = CHR ''0'') q)"
  proof
    assume z: "show_nat (n div 10 ^ d) = ''0'' \<and> list_all (\<lambda>c. c = CHR ''0'') q"
    then have "read_nat (show_nat (n div 10 ^ d)) = 0" and "read_nat q = 0"
      using read_zeros by (auto simp: read_nat_def digit_val_def)
    with q assms show False by (simp add: read_padded)
  qed
  with p q show ?thesis by (simp add: exactWebhookAmountToBaseUnits_def raw_text_def)
qed

lemma stored_text_provider:
  "decimalStringToBaseUnits (JStr (decimalStringFromBaseUnits (int n) d)) d = Inr n"
  by (rule stored_text_parts [of n d]) (simp add: decimalStringToBaseUnits_def raw_text_def)

lemma stored_text_ledger:
  assumes "d \<le> 8"
  shows "toExactDecimal (JStr (decimalStringFromBaseUnits (int n) d)) = Inr (n * 10 ^ (8 - d))"
proof -
  obtain q where t: "decimalStringFromBaseUnits (int n) d = show_nat (n div 10 ^ d) @ (if q = [] then [] else CHR ''.'' # q)"
    and q: "length q \<le> d" "list_all is_digit q" "read_nat (show_nat (n div 10 ^ d) @ pad_end d q) = n"
    by (rule stored_text)
  let ?ip = "show_nat (n div 10 ^ d)"
  have "read_nat ?ip * 10 ^ 8 + read_nat q * 10 ^ (8 - length q) =
        (read_nat ?ip * 10 ^ d + read_nat q * 10 ^ (d - length q)) * 10 ^ (8 - d)"
    using assms q(1) by (simp add: add_mult_distrib power_add [symmetric] mult.assoc)
  then have v: "read_nat ?ip * 10 ^ 8 + read_nat q * 10 ^ (8 - length q) = n * 10 ^ (8 - d)"
    using q by (simp add: read_padded)
  show ?thesis
  proof (cases "q = []")
    case True
    with v literal_whole [OF list_all_show_nat show_nat_not_Nil, of "n div 10 ^ d"] stored_text_trim [of n d]
    show ?thesis by (simp add: t Let_def)
  next
    case False
    with v literal_point [OF list_all_show_nat show_nat_not_Nil q(2), of "n div 10 ^ d"] stored_text_trim [of n d] q(1) assms
    show ?thesis by (simp add: t Let_def Suc_le_eq)
  qed
qed

section \<open>What the adapters guarantee\<close>

text \<open>The testnet adapter reports a zero balance for an absent token only from a complete page all
  of whose entries answer the request; a balance is the one matching entry, in both of its forms.\<close>

lemma items_of_mem: "e \<in> set (items_of items) \<longleftrightarrow> Item e \<in> set items"
  by (induction items rule: items_of.induct) auto

theorem portfolio_zero_is_conclusive:
  assumes "read_portfolio chain contract addr decimals (Portfolio items nextPage) = Inr n"
    and "\<forall>e. Item e \<in> set items \<longrightarrow> normalizeAddress (pe_tokenAddress e) \<noteq> contract"
  shows "n = 0 \<and> page_complete nextPage \<and> (\<forall>i \<in> set items. item_ok chain addr i)"
proof -
  have "filter (\<lambda>e. normalizeAddress (pe_tokenAddress e) = contract) (items_of items) = []"
    using assms(2) by (simp add: filter_empty_conv items_of_mem)
  with assms(1) show ?thesis
    by (auto simp: read_portfolio_def list_all_iff split: if_splits)
qed

theorem portfolio_zero_is_conclusive_witness:
  "read_portfolio ''polygon-amoy'' AMOY_USDC_CONTRACT ''0xab'' 6 (Portfolio [] (Some (JStr []))) = Inr 0 \<and>
   page_complete (Some (JStr []))"
  using portfolio_zero_is_conclusive [of "''polygon-amoy''" AMOY_USDC_CONTRACT "''0xab''" 6 "[]" "Some (JStr [])" 0]
  by (simp add: read_portfolio_def page_complete_def)

text \<open>Evidence domains do not mix: no network is served by both a mainnet and the testnet adapter.\<close>

lemma evidence_domains_disjoint:
  "tatum_testnet_getBalance k h now network c a d = Inr obs \<Longrightarrow>
   (\<exists>e. tatum_getBalance k' h' now' network c' a' = Inl e) \<and> bo_networkScope obs = Some ''TESTNET''"
  by (auto simp: tatum_testnet_getBalance_def tatum_getBalance_def TATUM_V4_CHAIN_TESTNET_def TATUM_V3_CHAIN_def Let_def
      split: if_splits sum.splits option.splits)

lemma getTransaction_entries:
  assumes "tatum_getTransaction k h now network hash d = Inr obs" and "e \<in> set (to_entries obs)"
  shows "\<exists>r. normalize_tx d (Some r) = Inr e"
proof -
  obtain es where "traverse_sum (normalize_tx d) es = Inr (to_entries obs)"
    using assms(1) by (auto simp: tatum_getTransaction_def split: if_splits sum.splits option.splits)
  then obtain r where "normalize_tx d r = Inr e"
    using assms(2) by (auto simp: traverse_sum_Inr list_all2_conv_all_nth in_set_conv_nth)
  moreover from this obtain r' where "r = Some r'" by (auto simp: normalize_tx_def split: option.splits)
  ultimately show ?thesis by blast
qed

end
