(* ===== verification/Custody_Accounting.thy ===== *)
theory Custody_Accounting
  imports Custody_Evidence Ledger_Run Conditional_Claim Interleaving
begin

text \<open>
  Custody accounting, \<^verbatim>\<open>services/custodyAccountingService.js\<close>: custody accounts, custody movements,
  evidence rows, and the ledger postings that follow a deposit from its provisional credit to
  verified custody or to the rejected suspense account.

  The database is the record \<open>custody_db\<close> of the tables the service reads and writes. The ids the
  database generates and the unique indexes a concurrent transaction makes this one lose on are the
  record \<open>custody_choice\<close>. A provider adapter is a parameter of the operations that call it; the
  adapters themselves are in \<open>Custody_Evidence\<close>. A unique violation inside a transaction aborts it:
  PostgreSQL refuses every later statement, so the handlers that re-read after one fail as well.
  JSON columns, timestamps other than \<open>observedAt\<close> and log lines are not modelled; the dash in the
  posting descriptions is written in ASCII.
\<close>

section \<open>Tables\<close>

record wallet_address =
  wa_id :: string
  wa_userId :: nat
  wa_network :: string
  wa_asset :: string
  wa_contractAddress :: string
  wa_address :: string
  wa_status :: string

datatype custody_tier = USER_DEPOSIT_ADDRESS | MASTER_HOT_WALLET

record custody_account =
  cu_id :: string
  cu_tier :: custody_tier
  cu_network :: string
  cu_asset :: string
  cu_contractAddress :: string
  cu_address :: string
  cu_control :: string
  cu_status :: string
  cu_userId :: "nat option"
  cu_walletAddressId :: "string option"

datatype movement_kind = DEPOSIT_IN | SWEEP | WITHDRAWAL_OUT

datatype movement_status = CANDIDATE | VERIFIED | FAILED | RECONCILIATION_REQUIRED

record custody_movement =
  cm_id :: string
  cm_idempotencyKey :: string
  cm_kind :: movement_kind
  cm_status :: movement_status
  cm_network :: string
  cm_asset :: string
  cm_contractAddress :: string
  cm_amountBaseUnits :: int
  cm_decimals :: nat
  cm_sourceAccountId :: "string option"
  cm_destinationAccountId :: "string option"
  cm_fromAddress :: "string option"
  cm_toAddress :: "string option"
  cm_custodyExecutionId :: "string option"
  cm_transactionHistoryId :: "string option"
  cm_txHash :: "string option"
  cm_evidenceId :: "string option"
  cm_evidenceSource :: "string option"
  cm_failureReason :: "string option"

datatype evidence_scope = ACCOUNT_BALANCE | TRANSACTION

datatype evidence_status = EV_ACTIVE | EV_SUPERSEDED | EV_REJECTED

record custody_evidence =
  ce_id :: string
  ce_custodyAccountId :: string
  ce_source :: string
  ce_scope :: evidence_scope
  ce_network :: string
  ce_asset :: string
  ce_contractAddress :: string
  ce_address :: string
  ce_balanceBaseUnits :: "nat option"
  ce_amountBaseUnits :: "nat option"
  ce_txHash :: "string option"
  ce_blockReference :: "string option"
  ce_observedAt :: int
  ce_status :: evidence_status
  ce_supersededById :: "string option"
  ce_rejectionReason :: "string option"

record custody_execution =
  ex_id :: string
  ex_kind :: string
  ex_refId :: "string option"
  ex_walletAddressId :: "string option"
  ex_network :: string
  ex_asset :: string
  ex_contractAddress :: string
  ex_fromAddress :: string
  ex_toAddress :: string
  ex_amountBaseUnits :: int
  ex_decimals :: nat
  ex_status :: string
  ex_txHash :: "string option"

record history_row =
  hr_id :: string
  hr_userId :: nat
  hr_type :: string
  hr_amountUsdc :: int
  hr_feeUsdc :: int
  hr_txHash :: "string option"
  hr_status :: string
  hr_createdAt :: int

record user_row =
  ur_id :: nat
  ur_availableBalance :: int
  ur_escrowLockedBalance :: int
  ur_disputeEscrowBalance :: int
  ur_vendorUnallocatedBalance :: int
  ur_tatumPolygonAddress :: "string option"

record custody_db =
  cd_wallets :: "wallet_address list"
  cd_accounts :: "custody_account list"
  cd_movements :: "custody_movement list"
  cd_evidence :: "custody_evidence list"
  cd_executions :: "custody_execution list"
  cd_history :: "history_row list"
  cd_users :: "user_row list"
  cd_masterCrypto :: "int option"
  cd_hotWallet :: "int option"
  cd_ledger :: ledger

record custody_choice =
  cc_account :: string
  cc_hot_account :: string
  cc_movement :: string
  cc_evidence :: string
  cc_history :: string
  cc_now :: int
  cc_ledger :: db_choice
  cc_raced :: bool

datatype custody_error =
    BadArguments
  | CustodyUniqueViolation
  | CustodyLedger ledger_error
  | CustodyProvider evidence_error
  | SweepWithoutRegistry
  | RegistryRowMissing
  | UnsupportedKind
  | UserMissing

section \<open>Custody accounts\<close>

definition or_default :: "string \<Rightarrow> string \<Rightarrow> string" where
  "or_default d s = (if s = [] then d else s)"

definition account_identity :: "custody_account \<Rightarrow> string \<times> string \<times> string \<times> string" where
  "account_identity a = (cu_address a, cu_network a, cu_asset a, cu_contractAddress a)"

definition deposit_account_data :: "string \<Rightarrow> wallet_address \<Rightarrow> custody_account" where
  "deposit_account_data i w =
     \<lparr>cu_id = i, cu_tier = USER_DEPOSIT_ADDRESS, cu_network = js_upper (or_default ''POLYGON'' (wa_network w)),
      cu_asset = js_upper (or_default ''USDC'' (wa_asset w)),
      cu_contractAddress = normalizeAddress (JStr (wa_contractAddress w)),
      cu_address = normalizeAddress (JStr (wa_address w)), cu_control = ''PLATFORM_KMS_CUSTODY'',
      cu_status = ''ACTIVE'', cu_userId = Some (wa_userId w), cu_walletAddressId = Some (wa_id w)\<rparr>"

text \<open>The upsert on the identity index; the unique index on \<open>walletAddressId\<close> may refuse it.\<close>

definition ensureDepositAccount ::
  "custody_choice \<Rightarrow> wallet_address \<Rightarrow> custody_db \<Rightarrow> (custody_error, custody_account, custody_db) outcome" where
  "ensureDepositAccount ch w s =
     (if wa_address w = [] \<or> wa_id w = [] then (Inl BadArguments, s)
      else let data = deposit_account_data (cc_account ch) w in
        case find_by account_identity (account_identity data) (cd_accounts s) of
          Some row \<Rightarrow>
            (if \<exists>a \<in> set (cd_accounts s). cu_id a \<noteq> cu_id row \<and> cu_walletAddressId a = Some (wa_id w)
             then (Inl CustodyUniqueViolation, s)
             else let row' = row\<lparr>cu_status := ''ACTIVE'', cu_userId := cu_userId data,
                                 cu_walletAddressId := cu_walletAddressId data\<rparr> in
               (Inr row', s\<lparr>cd_accounts := update_by (\<lambda>a. cu_id a = cu_id row) (\<lambda>_. row') (cd_accounts s)\<rparr>))
        | None \<Rightarrow>
            (if cc_raced ch \<or> (\<exists>a \<in> set (cd_accounts s). cu_walletAddressId a = Some (wa_id w))
             then (Inl CustodyUniqueViolation, s)
             else (Inr data, s\<lparr>cd_accounts := cd_accounts s @ [data]\<rparr>)))"

definition ensureHotWalletAccount ::
  "custody_choice \<Rightarrow> string \<Rightarrow> string \<Rightarrow> string \<Rightarrow> string \<Rightarrow> custody_db \<Rightarrow>
   (custody_error, custody_account, custody_db) outcome" where
  "ensureHotWalletAccount ch address network asset contractAddress s =
     (let addr = normalizeAddress (JStr address) in
      if addr = [] \<or> contractAddress = [] then (Inl BadArguments, s)
      else let data = \<lparr>cu_id = cc_hot_account ch, cu_tier = MASTER_HOT_WALLET, cu_network = js_upper network,
                       cu_asset = js_upper asset, cu_contractAddress = normalizeAddress (JStr contractAddress),
                       cu_address = addr, cu_control = ''PLATFORM_KMS_CUSTODY'', cu_status = ''ACTIVE'',
                       cu_userId = None, cu_walletAddressId = None\<rparr> in
        case find_by account_identity (account_identity data) (cd_accounts s) of
          Some row \<Rightarrow>
            (let row' = row\<lparr>cu_status := ''ACTIVE''\<rparr> in
             (Inr row', s\<lparr>cd_accounts := update_by (\<lambda>a. cu_id a = cu_id row) (\<lambda>_. row') (cd_accounts s)\<rparr>))
        | None \<Rightarrow> (Inr data, s\<lparr>cd_accounts := cd_accounts s @ [data]\<rparr>))"

definition registry_backed :: "wallet_address list \<Rightarrow> custody_account \<Rightarrow> bool" where
  "registry_backed ws a =
     (case or_null (cu_walletAddressId a) of
        None \<Rightarrow> False
      | Some i \<Rightarrow>
          (case find_by wa_id i ws of
             None \<Rightarrow> False
           | Some w \<Rightarrow> wa_status w = ''ACTIVE'' \<and>
               normalizeAddress (JStr (wa_address w)) = normalizeAddress (JStr (cu_address a))))"

fun sync_accounts :: "string option \<Rightarrow> custody_account list \<Rightarrow> custody_db \<Rightarrow> custody_account list \<times> custody_db" where
  "sync_accounts hot [] s = ([], s)"
| "sync_accounts hot (a # rest) s =
     (case cu_tier a of
        MASTER_HOT_WALLET \<Rightarrow>
          (let (es, s') = sync_accounts hot rest s in
           (if or_null hot \<noteq> None \<and> normalizeAddress (JStr (cu_address a)) = normalizeAddress (JStr (or_empty hot))
            then a # es else es, s'))
      | USER_DEPOSIT_ADDRESS \<Rightarrow>
          (if or_null (cu_walletAddressId a) = None then sync_accounts hot rest s
           else if \<not> registry_backed (cd_wallets s) a
           then sync_accounts hot rest
                  (s\<lparr>cd_accounts := update_by (\<lambda>x. cu_id x = cu_id a) (\<lambda>x. x\<lparr>cu_status := ''RETIRED''\<rparr>) (cd_accounts s)\<rparr>)
           else let (es, s') = sync_accounts hot rest s in (a # es, s')))"

definition syncAndListEligibleAccounts :: "string option \<Rightarrow> custody_db \<Rightarrow> custody_account list \<times> custody_db" where
  "syncAndListEligibleAccounts hot s =
     sync_accounts hot (filter (\<lambda>a. cu_status a = ''ACTIVE'') (cd_accounts s)) s"

section \<open>Deposit candidates\<close>

definition deposit_key :: "wallet_address \<Rightarrow> string \<Rightarrow> string" where
  "deposit_key w txHash =
     ''deposit:'' @ js_upper (or_default ''POLYGON'' (wa_network w)) @ '':'' @ js_lower txHash"

definition deposit_candidate ::
  "custody_choice \<Rightarrow> wallet_address \<Rightarrow> string \<Rightarrow> int \<Rightarrow> string option \<Rightarrow> custody_account \<Rightarrow> custody_movement" where
  "deposit_candidate ch w txHash amount thId account =
     \<lparr>cm_id = cc_movement ch, cm_idempotencyKey = deposit_key w txHash, cm_kind = DEPOSIT_IN, cm_status = CANDIDATE,
      cm_network = js_upper (or_default ''POLYGON'' (wa_network w)), cm_asset = js_upper (or_default ''USDC'' (wa_asset w)),
      cm_contractAddress = normalizeAddress (JStr (wa_contractAddress w)), cm_amountBaseUnits = amount, cm_decimals = 6,
      cm_sourceAccountId = None, cm_destinationAccountId = Some (cu_id account), cm_fromAddress = None,
      cm_toAddress = Some (normalizeAddress (JStr (wa_address w))), cm_custodyExecutionId = None,
      cm_transactionHistoryId = or_null thId, cm_txHash = Some (js_lower txHash), cm_evidenceId = None,
      cm_evidenceSource = Some ''TATUM_WEBHOOK'', cm_failureReason = None\<rparr>"

definition recordDepositCandidate ::
  "custody_choice \<Rightarrow> wallet_address \<Rightarrow> string \<Rightarrow> int \<Rightarrow> string option \<Rightarrow> custody_db \<Rightarrow>
   (custody_error, custody_movement \<times> bool, custody_db) outcome" where
  "recordDepositCandidate ch w txHash amount thId s =
     (if txHash = [] \<or> amount \<le> 0 then (Inl BadArguments, s)
      else and_then (ensureDepositAccount ch w s) (\<lambda>account s1.
        case find_by cm_idempotencyKey (deposit_key w txHash) (cd_movements s1) of
          Some m \<Rightarrow> (Inr (m, False), s1)
        | None \<Rightarrow>
            (if cc_raced ch then (Inl CustodyUniqueViolation, s1)
             else let m = deposit_candidate ch w txHash amount thId account in
               (Inr (m, True), s1\<lparr>cd_movements := cd_movements s1 @ [m]\<rparr>))))"

section \<open>Verification against transaction evidence\<close>

datatype verify_failure =
    TX_NOT_FOUND | CHAIN_MISMATCH | WRONG_TRANSACTION_TYPE | NOT_INCOMING | ADDRESS_MISMATCH
  | WRONG_CONTRACT | HASH_MISMATCH | NOT_CONFIRMED | AMOUNT_MISMATCH

fun failure_name :: "verify_failure \<Rightarrow> string" where
  "failure_name TX_NOT_FOUND = ''TX_NOT_FOUND''"
| "failure_name CHAIN_MISMATCH = ''CHAIN_MISMATCH''"
| "failure_name WRONG_TRANSACTION_TYPE = ''WRONG_TRANSACTION_TYPE''"
| "failure_name NOT_INCOMING = ''NOT_INCOMING''"
| "failure_name ADDRESS_MISMATCH = ''ADDRESS_MISMATCH''"
| "failure_name WRONG_CONTRACT = ''WRONG_CONTRACT''"
| "failure_name HASH_MISMATCH = ''HASH_MISMATCH''"
| "failure_name NOT_CONFIRMED = ''NOT_CONFIRMED''"
| "failure_name AMOUNT_MISMATCH = ''AMOUNT_MISMATCH''"

datatype verify_reason =
    NOT_FOUND
  | NOT_A_DEPOSIT
  | STATUS movement_status
  | NO_TX_HASH
  | DESTINATION_ACCOUNT_NOT_ELIGIBLE
  | REGISTRY_AUTHORITY_FAILED
  | PROVIDER evidence_error
  | FAILURES "verify_failure list"
  | RACED_STATUS "movement_status option"

datatype verify_result =
    AlreadyVerified custody_movement
  | VerifiedNow custody_movement custody_evidence
  | VerifiedConcurrently custody_movement
  | NotVerified verify_reason

definition fail_if :: "bool \<Rightarrow> verify_failure \<Rightarrow> verify_failure list" where
  "fail_if b f = (if b then [f] else [])"

text \<open>The filters on the returned entries, in the order of the code: the failures they raise and
  the entry that survives.\<close>

definition validate_evidence ::
  "custody_account \<Rightarrow> custody_movement \<Rightarrow> string \<Rightarrow> tx_entry list \<Rightarrow> verify_failure list \<times> tx_entry option" where
  "validate_evidence account m txHash es =
     (let expectedAddress = normalizeAddress (JStr (cu_address account));
          expectedContract = normalizeAddress (JStr (cu_contractAddress account));
          expectedChain = (case map_of TATUM_V4_CHAIN (js_upper (cm_network m)) of Some c \<Rightarrow> JStr c | None \<Rightarrow> JNull);
          expectedHash = js_trim (js_lower txHash);
          rightChain = filter (\<lambda>e. te_chain e = expectedChain) es;
          fungible = filter (\<lambda>e. te_transactionType e = JStr ''fungible'') rightChain;
          incoming = filter (\<lambda>e. te_transactionSubtype e = JStr ''incoming'') fungible;
          toUs = filter (\<lambda>e. te_address e = expectedAddress) incoming;
          canonical = filter (\<lambda>e. te_tokenAddress e = Some expectedContract) toUs;
          hashBound = filter (\<lambda>e. js_trim (js_lower (or_empty (te_hash e))) = expectedHash) canonical;
          entry = (case hashBound of [] \<Rightarrow> None | e # _ \<Rightarrow> Some e) in
      (fail_if (es = []) TX_NOT_FOUND @
       fail_if (rightChain = []) CHAIN_MISMATCH @
       fail_if (rightChain \<noteq> [] \<and> fungible = []) WRONG_TRANSACTION_TYPE @
       fail_if (fungible \<noteq> [] \<and> incoming = []) NOT_INCOMING @
       fail_if (incoming \<noteq> [] \<and> toUs = []) ADDRESS_MISMATCH @
       fail_if (toUs \<noteq> [] \<and> canonical = []) WRONG_CONTRACT @
       fail_if (canonical \<noteq> [] \<and> hashBound = []) HASH_MISMATCH @
       fail_if (case entry of None \<Rightarrow> False | Some e \<Rightarrow> te_blockNumber e = None) NOT_CONFIRMED @
       fail_if (case entry of None \<Rightarrow> False | Some e \<Rightarrow> int (te_amountBaseUnits e) \<noteq> cm_amountBaseUnits m) AMOUNT_MISMATCH,
       entry))"

definition provisional_prefix :: string where
  "provisional_prefix = ''ledger:deposit:crypto:''"

definition movement_decimals :: "custody_movement \<Rightarrow> nat" where
  "movement_decimals m = (if cm_decimals m = 0 then 6 else cm_decimals m)"

definition custody_posting ::
  "string \<Rightarrow> string \<Rightarrow> string \<Rightarrow> string \<Rightarrow> custody_movement \<Rightarrow> string \<Rightarrow> post_params" where
  "custody_posting prefix entryType description account m txHash =
     (let amount = decimalStringFromBaseUnits (cm_amountBaseUnits m) (movement_decimals m) in
      \<lparr>pp_idempotencyKey = prefix @ cm_id m, pp_entryType = entryType, pp_description = description,
       pp_lines = [\<lparr>li_account = account, li_debit = JStr amount, li_credit = JNull\<rparr>,
                   \<lparr>li_account = ''clearing:custody:unverified:usdc'', li_debit = JNull, li_credit = JStr amount\<rparr>],
       pp_conversion = None, pp_reference = Some txHash, pp_userId = None,
       pp_relatedEntity = Some ''custodyMovement'', pp_relatedEntityId = Some (cm_id m)\<rparr>)"

definition rejection_posting :: "custody_movement \<Rightarrow> string \<Rightarrow> post_params" where
  "rejection_posting =
     custody_posting ''ledger:custody:reject:'' ''CUSTODY_REJECTION''
       ''Deposit evidence definitively rejected - provisional custody retained as unresolved suspense''
       ''clearing:custody:rejected:usdc''"

definition verification_posting :: "custody_movement \<Rightarrow> string \<Rightarrow> post_params" where
  "verification_posting =
     custody_posting ''ledger:custody:verify:'' ''CUSTODY_VERIFICATION''
       ''Independent transaction evidence verified the deposit - provisional clearing reclassified to authoritative custody''
       ''custody:deposit:usdc''"

definition post_custody ::
  "(string \<Rightarrow> string) \<Rightarrow> (int \<Rightarrow> int) \<Rightarrow> custody_choice \<Rightarrow> post_params \<Rightarrow> custody_db \<Rightarrow>
   (custody_error, unit, custody_db) outcome" where
  "post_custody sha rnd ch p s =
     (case post sha rnd (cc_ledger ch) True p (cd_ledger s) of
        (Inl e, L) \<Rightarrow> (Inl (CustodyLedger e), s\<lparr>cd_ledger := L\<rparr>)
      | (Inr _, L) \<Rightarrow> (Inr (), s\<lparr>cd_ledger := L\<rparr>))"

text \<open>The reclassification is posted only when the deposit has a provisional journal.\<close>

definition reclassify ::
  "(string \<Rightarrow> string) \<Rightarrow> (int \<Rightarrow> int) \<Rightarrow> custody_choice \<Rightarrow> string \<Rightarrow> post_params \<Rightarrow> custody_db \<Rightarrow>
   (custody_error, unit, custody_db) outcome" where
  "reclassify sha rnd ch txHash p s =
     (case find_by lt_idempotencyKey (provisional_prefix @ txHash) (txns (cd_ledger s)) of
        None \<Rightarrow> (Inr (), s)
      | Some _ \<Rightarrow> post_custody sha rnd ch p s)"

definition is_candidate :: "custody_movement \<Rightarrow> bool" where
  "is_candidate m \<longleftrightarrow> cm_status m = CANDIDATE"

definition set_status :: "movement_status \<Rightarrow> string option \<Rightarrow> custody_movement \<Rightarrow> custody_movement" where
  "set_status st reason m =
     m\<lparr>cm_status := st, cm_failureReason := (case reason of None \<Rightarrow> cm_failureReason m | Some r \<Rightarrow> Some r)\<rparr>"

definition claim_movement :: "movement_status \<Rightarrow> string option \<Rightarrow> string \<Rightarrow> custody_db \<Rightarrow> custody_db" where
  "claim_movement st reason i s =
     s\<lparr>cd_movements := claim_rows cm_id is_candidate (set_status st reason) i (cd_movements s)\<rparr>"

definition joined_failures :: "verify_failure list \<Rightarrow> string" where
  "joined_failures fs = take 60 (join_with (CHR ''+'') (map failure_name fs))"

definition reject_tx ::
  "(string \<Rightarrow> string) \<Rightarrow> (int \<Rightarrow> int) \<Rightarrow> custody_choice \<Rightarrow> custody_movement \<Rightarrow> string \<Rightarrow> verify_failure list \<Rightarrow>
   custody_db \<Rightarrow> (custody_error, bool, custody_db) outcome" where
  "reject_tx sha rnd ch m txHash fs s =
     (if claims cm_id is_candidate (cm_id m) (cd_movements s) = 0 then (Inr True, s)
      else and_then (reclassify sha rnd ch txHash (rejection_posting m txHash)
                       (claim_movement FAILED (Some (joined_failures fs)) (cm_id m) s))
             (\<lambda>_ s'. (Inr False, s')))"

definition transaction_evidence ::
  "custody_choice \<Rightarrow> custody_account \<Rightarrow> custody_movement \<Rightarrow> string \<Rightarrow> int \<Rightarrow> tx_entry \<Rightarrow> custody_evidence" where
  "transaction_evidence ch account m txHash observedAt e =
     \<lparr>ce_id = cc_evidence ch, ce_custodyAccountId = cu_id account, ce_source = SOURCE_TX, ce_scope = TRANSACTION,
      ce_network = cm_network m, ce_asset = cm_asset m,
      ce_contractAddress = normalizeAddress (JStr (cu_contractAddress account)),
      ce_address = normalizeAddress (JStr (cu_address account)), ce_balanceBaseUnits = None,
      ce_amountBaseUnits = Some (te_amountBaseUnits e), ce_txHash = Some txHash,
      ce_blockReference = map_option num_to_string (te_blockNumber e), ce_observedAt = observedAt,
      ce_status = EV_ACTIVE, ce_supersededById = None, ce_rejectionReason = None\<rparr>"

definition attach_evidence :: "string \<Rightarrow> tx_entry \<Rightarrow> custody_movement \<Rightarrow> custody_movement" where
  "attach_evidence evidenceId e m =
     m\<lparr>cm_evidenceId := Some evidenceId, cm_evidenceSource := Some SOURCE_TX, cm_fromAddress := or_null (te_counterAddress e)\<rparr>"

definition tx_evidence_taken :: "string \<Rightarrow> string \<Rightarrow> custody_db \<Rightarrow> bool" where
  "tx_evidence_taken account txHash s \<longleftrightarrow>
     (\<exists>x \<in> set (cd_evidence s). ce_scope x = TRANSACTION \<and> ce_status x = EV_ACTIVE \<and>
        ce_custodyAccountId x = account \<and> ce_txHash x = Some txHash)"

datatype verify_tx_result = Won custody_movement custody_evidence | Lost "custody_movement option"

definition verify_tx ::
  "(string \<Rightarrow> string) \<Rightarrow> (int \<Rightarrow> int) \<Rightarrow> custody_choice \<Rightarrow> custody_account \<Rightarrow> custody_movement \<Rightarrow> string \<Rightarrow> int \<Rightarrow>
   tx_entry \<Rightarrow> custody_db \<Rightarrow> (custody_error, verify_tx_result, custody_db) outcome" where
  "verify_tx sha rnd ch account m txHash observedAt e s =
     (if claims cm_id is_candidate (cm_id m) (cd_movements s) \<noteq> 1
      then (Inr (Lost (find_by cm_id (cm_id m) (cd_movements s))), s)
      else and_then (reclassify sha rnd ch txHash (verification_posting m txHash)
                       (claim_movement VERIFIED None (cm_id m) s))
        (\<lambda>_ s1.
           if cc_raced ch \<or> tx_evidence_taken (cu_id account) txHash s1 then (Inl CustodyUniqueViolation, s1)
           else let x = transaction_evidence ch account m txHash observedAt e;
                    s2 = s1\<lparr>cd_evidence := cd_evidence s1 @ [x],
                            cd_movements := update_by (\<lambda>r. cm_id r = cm_id m) (attach_evidence (ce_id x) e) (cd_movements s1)\<rparr> in
             case find_by cm_id (cm_id m) (cd_movements s2) of
               None \<Rightarrow> (Inl BadArguments, s2)
             | Some fresh \<Rightarrow> (Inr (Won fresh x), s2)))"

text \<open>The checks before the provider is asked: the answer that ends the call, or the movement with
  its hash and its destination account.\<close>

definition verify_checks ::
  "string \<Rightarrow> custody_db \<Rightarrow> verify_result + (custody_movement \<times> string \<times> custody_account)" where
  "verify_checks movementId s =
     (case find_by cm_id movementId (cd_movements s) of
        None \<Rightarrow> Inl (NotVerified NOT_FOUND)
      | Some m \<Rightarrow>
          (if cm_kind m \<noteq> DEPOSIT_IN then Inl (NotVerified NOT_A_DEPOSIT)
           else if cm_status m = VERIFIED then Inl (AlreadyVerified m)
           else if cm_status m \<noteq> CANDIDATE then Inl (NotVerified (STATUS (cm_status m)))
           else case or_null (cm_txHash m) of
             None \<Rightarrow> Inl (NotVerified NO_TX_HASH)
           | Some txHash \<Rightarrow>
               (case find_by (Some \<circ> cu_id) (cm_destinationAccountId m) (cd_accounts s) of
                  None \<Rightarrow> Inl (NotVerified DESTINATION_ACCOUNT_NOT_ELIGIBLE)
                | Some account \<Rightarrow>
                    (if cu_status account \<noteq> ''ACTIVE'' \<or> cu_tier account \<noteq> USER_DEPOSIT_ADDRESS
                     then Inl (NotVerified DESTINATION_ACCOUNT_NOT_ELIGIBLE)
                     else if \<not> registry_backed (cd_wallets s) account
                     then Inl (NotVerified REGISTRY_AUTHORITY_FAILED)
                     else Inr (m, txHash, account)))))"

definition verify_outcome ::
  "(custody_error, verify_tx_result, custody_db) outcome \<Rightarrow> (custody_error, verify_result, custody_db) outcome" where
  "verify_outcome o1 = and_then o1 (\<lambda>r s.
     case r of
       Won m x \<Rightarrow> (Inr (VerifiedNow m x), s)
     | Lost (Some c) \<Rightarrow>
         (if cm_status c = VERIFIED then (Inr (VerifiedConcurrently c), s)
          else (Inr (NotVerified (RACED_STATUS (Some (cm_status c)))), s))
     | Lost None \<Rightarrow> (Inr (NotVerified (RACED_STATUS None)), s))"

text \<open>The settlement of an observation. A transaction without failures has an entry; without one the
  code would fail on reading its block number.\<close>

definition settle_observation ::
  "(string \<Rightarrow> string) \<Rightarrow> (int \<Rightarrow> int) \<Rightarrow> custody_choice \<Rightarrow> custody_movement \<Rightarrow> string \<Rightarrow> custody_account \<Rightarrow> tx_obs \<Rightarrow>
   custody_db \<Rightarrow> (custody_error, verify_result, custody_db) outcome" where
  "settle_observation sha rnd ch m txHash account obs s =
     (case validate_evidence account m txHash (to_entries obs) of
        ([], Some e) \<Rightarrow> verify_outcome (transaction id (verify_tx sha rnd ch account m txHash (to_observedAt obs) e) s)
      | ([], None) \<Rightarrow> (Inl (CustodyProvider EVIDENCE_TYPE_ERROR), s)
      | (f # fs, _) \<Rightarrow>
          and_then (transaction id (reject_tx sha rnd ch m txHash (f # fs)) s)
            (\<lambda>_ s'. (Inr (NotVerified (FAILURES (f # fs))), s')))"

text \<open>\<open>env\<close> is what other transactions commit between the reads (and the provider call) and the
  transaction; the provider answers with an observation or an error.\<close>

definition verifyDepositMovement ::
  "(string \<Rightarrow> string) \<Rightarrow> (int \<Rightarrow> int) \<Rightarrow> (custody_db \<Rightarrow> custody_db) \<Rightarrow> custody_choice \<Rightarrow> string \<Rightarrow>
   (string \<Rightarrow> string \<Rightarrow> nat \<Rightarrow> evidence_error + tx_obs) \<Rightarrow> string \<Rightarrow> custody_db \<Rightarrow>
   (custody_error, verify_result, custody_db) outcome" where
  "verifyDepositMovement sha rnd env ch source getTransaction movementId s =
     (if source \<noteq> SOURCE_TX then (Inl BadArguments, s)
      else case verify_checks movementId s of
        Inl r \<Rightarrow> (Inr r, s)
      | Inr (m, txHash, account) \<Rightarrow>
          (case getTransaction (cm_network m) txHash (movement_decimals m) of
             Inl e \<Rightarrow> (if e = EVIDENCE_TYPE_ERROR then (Inl (CustodyProvider e), s)
                        else (Inr (NotVerified (PROVIDER e)), s))
           | Inr obs \<Rightarrow> settle_observation sha rnd ch m txHash account obs (env s)))"

text \<open>The batch: one verification after the other, a thrown error becomes a result. \<open>env i\<close> and
  \<open>ch i\<close> belong to the movement with id \<open>i\<close>.\<close>

fun verify_all ::
  "(string \<Rightarrow> string) \<Rightarrow> (int \<Rightarrow> int) \<Rightarrow> (string \<Rightarrow> custody_db \<Rightarrow> custody_db) \<Rightarrow> (string \<Rightarrow> custody_choice) \<Rightarrow> string \<Rightarrow>
   (string \<Rightarrow> string \<Rightarrow> nat \<Rightarrow> evidence_error + tx_obs) \<Rightarrow> custody_movement list \<Rightarrow> custody_db \<Rightarrow>
   (string \<times> (custody_error + verify_result)) list \<times> custody_db" where
  "verify_all sha rnd env ch source get [] s = ([], s)"
| "verify_all sha rnd env ch source get (m # ms) s =
     (let (r, s1) = verifyDepositMovement sha rnd (env (cm_id m)) (ch (cm_id m)) source get (cm_id m) s;
          (rs, s2) = verify_all sha rnd env ch source get ms s1 in
      ((cm_id m, r) # rs, s2))"

definition verifyPendingDepositMovements ::
  "(string \<Rightarrow> string) \<Rightarrow> (int \<Rightarrow> int) \<Rightarrow> (string \<Rightarrow> custody_db \<Rightarrow> custody_db) \<Rightarrow> (string \<Rightarrow> custody_choice) \<Rightarrow> string \<Rightarrow>
   (string \<Rightarrow> string \<Rightarrow> nat \<Rightarrow> evidence_error + tx_obs) \<Rightarrow> nat \<Rightarrow> custody_db \<Rightarrow>
   (string \<times> (custody_error + verify_result)) list \<times> custody_db" where
  "verifyPendingDepositMovements sha rnd env ch source get limit s =
     verify_all sha rnd env ch source get
       (take limit (filter (\<lambda>m. cm_kind m = DEPOSIT_IN \<and> is_candidate m) (cd_movements s))) s"

section \<open>Movements of custody executions\<close>

definition execution_key :: "custody_execution \<Rightarrow> string" where
  "execution_key x = ''execution:'' @ ex_id x"

definition execution_movement ::
  "custody_choice \<Rightarrow> custody_execution \<Rightarrow> movement_kind \<Rightarrow> custody_account option \<Rightarrow> custody_account option \<Rightarrow>
   custody_movement" where
  "execution_movement ch x kind src dst =
     \<lparr>cm_id = cc_movement ch, cm_idempotencyKey = execution_key x, cm_kind = kind, cm_status = VERIFIED,
      cm_network = js_upper (or_default ''POLYGON'' (ex_network x)), cm_asset = js_upper (or_default ''USDC'' (ex_asset x)),
      cm_contractAddress = normalizeAddress (JStr (ex_contractAddress x)), cm_amountBaseUnits = ex_amountBaseUnits x,
      cm_decimals = (if ex_decimals x = 0 then 6 else ex_decimals x),
      cm_sourceAccountId = map_option cu_id src, cm_destinationAccountId = map_option cu_id dst,
      cm_fromAddress = Some (normalizeAddress (JStr (ex_fromAddress x))),
      cm_toAddress = Some (normalizeAddress (JStr (ex_toAddress x))), cm_custodyExecutionId = Some (ex_id x),
      cm_transactionHistoryId = (if ex_kind x = ''CUSTOMER_WITHDRAWAL'' then or_null (ex_refId x) else None),
      cm_txHash = map_option js_lower (or_null (ex_txHash x)), cm_evidenceId = None,
      cm_evidenceSource = Some ''CUSTODY_EXECUTION_VERIFIED_CHAIN'', cm_failureReason = None\<rparr>"

definition insert_movement ::
  "custody_choice \<Rightarrow> custody_movement \<Rightarrow> custody_db \<Rightarrow> (custody_error, custody_movement \<times> bool, custody_db) outcome" where
  "insert_movement ch m s =
     (if cc_raced ch \<or> cm_idempotencyKey m \<in> cm_idempotencyKey ` set (cd_movements s) \<or>
         (cm_custodyExecutionId m \<noteq> None \<and> cm_custodyExecutionId m \<in> cm_custodyExecutionId ` set (cd_movements s))
      then (Inl CustodyUniqueViolation, s)
      else (Inr (m, True), s\<lparr>cd_movements := cd_movements s @ [m]\<rparr>))"

definition recordExecutionMovement ::
  "custody_choice \<Rightarrow> custody_execution \<Rightarrow> string \<Rightarrow> custody_db \<Rightarrow>
   (custody_error, custody_movement \<times> bool, custody_db) outcome" where
  "recordExecutionMovement ch x hot s =
     (if ex_id x = [] then (Inl BadArguments, s)
      else case find_by cm_idempotencyKey (execution_key x) (cd_movements s) of
        Some m \<Rightarrow> (Inr (m, False), s)
      | None \<Rightarrow>
          and_then (ensureHotWalletAccount ch hot (js_upper (or_default ''POLYGON'' (ex_network x)))
                      (js_upper (or_default ''USDC'' (ex_asset x))) (normalizeAddress (JStr (ex_contractAddress x))) s)
            (\<lambda>hotAccount s1.
               if ex_kind x = ''DEPOSIT_SWEEP''
               then (case or_null (ex_walletAddressId x) of
                       None \<Rightarrow> (Inl SweepWithoutRegistry, s1)
                     | Some wid \<Rightarrow>
                         (case find_by wa_id wid (cd_wallets s1) of
                            None \<Rightarrow> (Inl RegistryRowMissing, s1)
                          | Some w \<Rightarrow>
                              and_then (ensureDepositAccount ch w s1) (\<lambda>src s2.
                                insert_movement ch (execution_movement ch x SWEEP (Some src) (Some hotAccount)) s2)))
               else if ex_kind x = ''CUSTOMER_WITHDRAWAL''
               then insert_movement ch (execution_movement ch x WITHDRAWAL_OUT (Some hotAccount) None) s1
               else (Inl UnsupportedKind, s1)))"

fun backfill_all ::
  "(string \<Rightarrow> custody_choice) \<Rightarrow> string \<Rightarrow> custody_execution list \<Rightarrow> nat \<Rightarrow> custody_db \<Rightarrow>
   (custody_error, nat, custody_db) outcome" where
  "backfill_all ch hot [] created s = (Inr created, s)"
| "backfill_all ch hot (x # xs) created s =
     (if Some (ex_id x) \<in> cm_custodyExecutionId ` set (cd_movements s) then backfill_all ch hot xs created s
      else case transaction id (recordExecutionMovement (ch (ex_id x)) x hot) s of
        (Inl e, s') \<Rightarrow> (Inl e, s')
      | (Inr _, s') \<Rightarrow> backfill_all ch hot xs (Suc created) s')"

definition backfillMovementsForCompletedExecutions ::
  "(string \<Rightarrow> custody_choice) \<Rightarrow> string option \<Rightarrow> custody_db \<Rightarrow> (custody_error, nat option, custody_db) outcome" where
  "backfillMovementsForCompletedExecutions ch hot s =
     (case or_null hot of
        None \<Rightarrow> (Inr None, s)
      | Some h \<Rightarrow>
          (case backfill_all ch h (take 200 (filter (\<lambda>x. ex_status x = ''COMPLETED'') (cd_executions s))) 0 s of
             (Inl e, s') \<Rightarrow> (Inl e, s')
           | (Inr n, s') \<Rightarrow> (Inr (Some n), s')))"

section \<open>Balance evidence\<close>

datatype observe_reason = OBS_PROVIDER evidence_error | NETWORK_SCOPE_MISMATCH | OUT_OF_ORDER_OBSERVATION | CONCURRENT_OBSERVATION

datatype observe_result = Recorded custody_evidence | Idempotent custody_evidence | NotRecorded observe_reason

definition balance_evidence ::
  "custody_choice \<Rightarrow> custody_account \<Rightarrow> string \<Rightarrow> balance_obs \<Rightarrow> evidence_status \<Rightarrow> string option \<Rightarrow> custody_evidence" where
  "balance_evidence ch account source obs st reason =
     \<lparr>ce_id = cc_evidence ch, ce_custodyAccountId = cu_id account, ce_source = source, ce_scope = ACCOUNT_BALANCE,
      ce_network = cu_network account, ce_asset = cu_asset account,
      ce_contractAddress = normalizeAddress (JStr (cu_contractAddress account)),
      ce_address = normalizeAddress (JStr (cu_address account)),
      ce_balanceBaseUnits = Some (bo_balanceBaseUnits obs), ce_amountBaseUnits = None, ce_txHash = None,
      ce_blockReference = None, ce_observedAt = bo_observedAt obs, ce_status = st, ce_supersededById = None,
      ce_rejectionReason = reason\<rparr>"

definition active_balance_row :: "string \<Rightarrow> custody_evidence \<Rightarrow> bool" where
  "active_balance_row acc x \<longleftrightarrow> ce_custodyAccountId x = acc \<and> ce_scope x = ACCOUNT_BALANCE \<and> ce_status x = EV_ACTIVE"

definition active_balance :: "string \<Rightarrow> custody_evidence list \<Rightarrow> custody_evidence option" where
  "active_balance acc xs = find (active_balance_row acc) xs"

definition supersede :: "string \<Rightarrow> custody_evidence \<Rightarrow> custody_evidence" where
  "supersede by x = x\<lparr>ce_status := EV_SUPERSEDED, ce_supersededById := Some by\<rparr>"

definition observe_tx ::
  "custody_choice \<Rightarrow> custody_account \<Rightarrow> balance_obs \<Rightarrow> custody_db \<Rightarrow> (custody_error, observe_result, custody_db) outcome" where
  "observe_tx ch account obs s =
     (let fresh = balance_evidence ch account (bo_source obs) obs EV_ACTIVE None in
      case active_balance (cu_id account) (cd_evidence s) of
        None \<Rightarrow>
          (if cc_raced ch then (Inl CustodyUniqueViolation, s)
           else (Inr (Recorded fresh), s\<lparr>cd_evidence := cd_evidence s @ [fresh]\<rparr>))
      | Some current \<Rightarrow>
          (if ce_observedAt current = bo_observedAt obs \<and> ce_balanceBaseUnits current = Some (bo_balanceBaseUnits obs)
           then (Inr (Idempotent current), s)
           else if ce_observedAt current > bo_observedAt obs
           then (Inr (NotRecorded OUT_OF_ORDER_OBSERVATION),
                 s\<lparr>cd_evidence := cd_evidence s @
                     [balance_evidence ch account (bo_source obs) obs EV_REJECTED (Some ''OUT_OF_ORDER_OBSERVATION'')]\<rparr>)
           else if cc_raced ch then (Inl CustodyUniqueViolation, s)
           else (Inr (Recorded fresh),
                 s\<lparr>cd_evidence := update_by (\<lambda>x. ce_id x = ce_id current) (supersede (ce_id fresh)) (cd_evidence s) @ [fresh]\<rparr>)))"

definition same_target :: "custody_account \<Rightarrow> balance_obs \<Rightarrow> bool" where
  "same_target account obs \<longleftrightarrow>
     normalizeAddress (JStr (bo_address obs)) = normalizeAddress (JStr (cu_address account)) \<and>
     normalizeAddress (JStr (bo_contractAddress obs)) = normalizeAddress (JStr (cu_contractAddress account)) \<and>
     js_upper (bo_network obs) = js_upper (cu_network account)"

text \<open>\<open>env\<close> is what others commit while the provider is called; after a lost race the rolled-back
  transaction leaves \<open>winner\<close>, the database with the winner's row.\<close>

definition observeAccountBalance ::
  "(custody_db \<Rightarrow> custody_db) \<Rightarrow> (custody_db \<Rightarrow> custody_db) \<Rightarrow> custody_choice \<Rightarrow> string \<Rightarrow>
   (string \<Rightarrow> string \<Rightarrow> string \<Rightarrow> evidence_error + balance_obs) \<Rightarrow> custody_account \<Rightarrow> custody_db \<Rightarrow>
   (custody_error, observe_result, custody_db) outcome" where
  "observeAccountBalance env winner ch source getBalance account s =
     (if source \<noteq> SOURCE_BALANCE then (Inl BadArguments, s)
      else case getBalance (cu_network account) (cu_contractAddress account) (cu_address account) of
        Inl e \<Rightarrow> (if e = EVIDENCE_TYPE_ERROR then (Inl (CustodyProvider e), s) else (Inr (NotRecorded (OBS_PROVIDER e)), s))
      | Inr obs \<Rightarrow>
          (let s1 = env s in
           if \<not> same_target account obs then (Inr (NotRecorded (OBS_PROVIDER MALFORMED_RESPONSE)), s1)
           else if js_upper (case or_null (bo_networkScope obs) of None \<Rightarrow> ''MAINNET'' | Some x \<Rightarrow> x) \<noteq> ''MAINNET''
           then (Inr (NotRecorded NETWORK_SCOPE_MISMATCH),
                 s1\<lparr>cd_evidence := cd_evidence s1 @
                     [balance_evidence ch account (or_default ''UNKNOWN'' (bo_source obs)) obs EV_REJECTED (Some ''NETWORK_SCOPE_MISMATCH'')]\<rparr>)
           else case transaction winner (observe_tx ch account obs) s1 of
             (Inr r, s2) \<Rightarrow> (Inr r, s2)
           | (Inl e, s2) \<Rightarrow>
               (if e \<noteq> CustodyUniqueViolation then (Inl e, s2)
                else case active_balance (cu_id account) (cd_evidence s2) of
                  Some w \<Rightarrow> (if ce_balanceBaseUnits w = Some (bo_balanceBaseUnits obs) then (Inr (Idempotent w), s2)
                             else (Inr (NotRecorded CONCURRENT_OBSERVATION), s2))
                | None \<Rightarrow> (Inr (NotRecorded CONCURRENT_OBSERVATION), s2))))"

definition getFreshAcceptedEvidence :: "int \<Rightarrow> int \<Rightarrow> string \<Rightarrow> custody_db \<Rightarrow> custody_evidence option" where
  "getFreshAcceptedEvidence now maxAgeMs acc s =
     (case active_balance acc (cd_evidence s) of
        None \<Rightarrow> None
      | Some x \<Rightarrow> if now - ce_observedAt x > maxAgeMs then None else Some x)"

section \<open>Liability flows and historical candidates\<close>

record liability_flows =
  lf_usdcCredits :: int
  lf_usdcDebits :: int
  lf_negative :: bool
  lf_usdcLiabilityTotal :: "int option"
  lf_usdcLiabilityTotalSigned :: int
  lf_evidenceLinked :: int
  lf_verifiedDepositsTotal :: int
  lf_cryptoWithdrawalsNet :: int
  lf_cryptoWithdrawalsFees :: int
  lf_fiatWithdrawalsNet :: int
  lf_fiatWithdrawalsFees :: int

definition completed_of :: "string list \<Rightarrow> custody_db \<Rightarrow> history_row list" where
  "completed_of types s = filter (\<lambda>h. hr_type h \<in> set types \<and> hr_status h = ''COMPLETED'') (cd_history s)"

definition deposits_with :: "movement_status \<Rightarrow> custody_db \<Rightarrow> custody_movement list" where
  "deposits_with st s = filter (\<lambda>m. cm_kind m = DEPOSIT_IN \<and> cm_status m = st) (cd_movements s)"

definition classifyUsdcLiabilityFlows :: "(int \<Rightarrow> int) \<Rightarrow> custody_db \<Rightarrow> liability_flows" where
  "classifyUsdcLiabilityFlows rnd s =
     (let usdcCredits = sum_rows hr_amountUsdc (completed_of [''DEPOSIT_CRYPTO'', ''DEPOSIT_FIAT''] s);
          cryptoDebitNet = sum_rows hr_amountUsdc (completed_of [''WITHDRAWAL_CRYPTO''] s);
          cryptoDebitFee = sum_rows hr_feeUsdc (completed_of [''WITHDRAWAL_CRYPTO''] s);
          fiatDebitNet = sum_rows hr_amountUsdc (completed_of [''WITHDRAWAL_FIAT''] s);
          fiatDebitFee = sum_rows hr_feeUsdc (completed_of [''WITHDRAWAL_FIAT''] s);
          usdcDebits = rnd (rnd (rnd (cryptoDebitNet + cryptoDebitFee) + fiatDebitNet) + fiatDebitFee);
          xRaw = rnd (usdcCredits - usdcDebits);
          verifiedDeposits = sum_rows cm_amountBaseUnits (deposits_with VERIFIED s) * 100 in
      \<lparr>lf_usdcCredits = usdcCredits, lf_usdcDebits = usdcDebits, lf_negative = (xRaw < 0),
       lf_usdcLiabilityTotal = (if xRaw < 0 then None else Some xRaw), lf_usdcLiabilityTotalSigned = xRaw,
       lf_evidenceLinked = rnd (verifiedDeposits - cryptoDebitNet), lf_verifiedDepositsTotal = verifiedDeposits,
       lf_cryptoWithdrawalsNet = cryptoDebitNet, lf_cryptoWithdrawalsFees = cryptoDebitFee,
       lf_fiatWithdrawalsNet = fiatDebitNet, lf_fiatWithdrawalsFees = fiatDebitFee\<rparr>)"

text \<open>\<open>toFixed(6)\<close> of a column of eight decimals, half up away from zero, as base units.\<close>

definition base_units_of :: "int \<Rightarrow> int" where
  "base_units_of a = (if a < 0 then - ((- a + 50) div 100) else (a + 50) div 100)"

definition latest_wallet :: "nat \<Rightarrow> custody_db \<Rightarrow> wallet_address option" where
  "latest_wallet u s =
     find (\<lambda>w. wa_userId w = u \<and> wa_status w = ''ACTIVE'') (rev (cd_wallets s))"

fun build_candidates ::
  "(string \<Rightarrow> custody_choice) \<Rightarrow> nat \<Rightarrow> history_row list \<Rightarrow> nat \<Rightarrow> custody_db \<Rightarrow>
   (custody_error, nat, custody_db) outcome" where
  "build_candidates ch limit [] created s = (Inr created, s)"
| "build_candidates ch limit (h # hs) created s =
     (if created \<ge> limit then (Inr created, s)
      else if ''deposit:POLYGON:'' @ js_lower (or_empty (hr_txHash h)) \<in> cm_idempotencyKey ` set (cd_movements s)
      then build_candidates ch limit hs created s
      else case latest_wallet (hr_userId h) s of
        None \<Rightarrow> build_candidates ch limit hs created s
      | Some w \<Rightarrow>
          (if base_units_of (hr_amountUsdc h) \<le> 0 then build_candidates ch limit hs created s
           else case transaction id (recordDepositCandidate (ch (hr_id h)) w (or_empty (hr_txHash h))
                                       (base_units_of (hr_amountUsdc h)) (Some (hr_id h))) s of
             (Inl e, s') \<Rightarrow> (Inl e, s')
           | (Inr _, s') \<Rightarrow> build_candidates ch limit hs (Suc created) s'))"

definition buildDepositCandidatesFromHistory ::
  "(string \<Rightarrow> custody_choice) \<Rightarrow> nat \<Rightarrow> custody_db \<Rightarrow> (custody_error, nat, custody_db) outcome" where
  "buildDepositCandidatesFromHistory ch limit s =
     build_candidates ch limit
       (take (limit * 2) (filter (\<lambda>h. hr_type h = ''DEPOSIT_CRYPTO'' \<and> hr_status h = ''COMPLETED'' \<and> hr_txHash h \<noteq> None) (cd_history s)))
       0 s"

end
