(* ===== verification/Crypto_Deposit.thy ===== *)
theory Crypto_Deposit
  imports Custody_Accounting
begin

text \<open>
  The crypto deposit webhook, \<^verbatim>\<open>controllers/depositController.js\<close> (\<open>tatumCryptoWebhook\<close>), with
  the ownership lookup \<open>resolveOwner\<close> of \<^verbatim>\<open>services/walletAddressService.js\<close>, and the history of
  the custody books under the webhook, the verifier and every other posting.

  The request is the record \<open>webhook\<close>: its identifiers are strings or absent, its amount is any
  JSON value. The legacy balance credit goes through floating point; its two conversions are the
  functions \<open>fl_amount\<close> (\<open>parseFloat(body.amount) || 0\<close>) and \<open>fl_credit\<close>
  (\<open>parseFloat(amount.toFixed(6))\<close>, in column units), on which no theorem depends. The HMAC check
  is its outcome. Notifications, sockets and the audit trail after the commit are not modelled.
\<close>

section \<open>Ownership\<close>

definition NATIVE_USDC_network :: string where
  "NATIVE_USDC_network = ''POLYGON''"

definition NATIVE_USDC_asset :: string where
  "NATIVE_USDC_asset = ''USDC''"

definition NATIVE_USDC_contractAddress :: string where
  "NATIVE_USDC_contractAddress = ''0x3c499c542cef5e3811e1192ce70d8cc03d5c3359''"

definition resolveOwner :: "string \<Rightarrow> string \<Rightarrow> custody_db \<Rightarrow> (nat \<times> wallet_address option) option" where
  "resolveOwner address network s =
     (if address = [] then None
      else let normalized = js_trim (js_lower address); net = js_upper network in
        case find (\<lambda>w. wa_address w = normalized \<and> wa_network w = net \<and> wa_asset w = NATIVE_USDC_asset \<and>
                       wa_contractAddress w = NATIVE_USDC_contractAddress \<and> wa_status w = ''ACTIVE'')
               (rev (cd_wallets s)) of
          Some w \<Rightarrow> Some (wa_userId w, Some w)
        | None \<Rightarrow>
            (if \<exists>w \<in> set (cd_wallets s). wa_address w = normalized \<and> wa_network w = net then None
             else case find_by ur_tatumPolygonAddress (Some normalized) (cd_users s) of
               Some u \<Rightarrow> Some (ur_id u, None)
             | None \<Rightarrow> None))"

section \<open>The webhook\<close>

record webhook =
  wb_address :: "string option"
  wb_txId :: "string option"
  wb_txHash :: "string option"
  wb_amount :: js_value
  wb_asset :: "string option"
  wb_currency :: "string option"

record signature_check =
  sc_secret :: "string option"
  sc_production :: bool
  sc_bound :: bool
  sc_header :: "string option"
  sc_valid :: bool

record float_path =
  fl_amount :: "js_value \<Rightarrow> rat"
  fl_credit :: "rat \<Rightarrow> int"

datatype webhook_answer =
    NotConfigured
  | BadSignature
  | MissingAddress
  | MissingTxHash
  | NonPositiveAmount
  | IgnoredAsset string
  | Unmatched
  | AlreadyProcessed
  | EXACT_CUSTODY_QUANTITY_UNREPRESENTABLE
  | CUSTODY_IDENTITY_UNRESOLVABLE
  | Confirmed history_row
  | InternalError custody_error

definition check_signature :: "signature_check \<Rightarrow> webhook_answer option" where
  "check_signature c =
     (if or_null (sc_secret c) = None then Some NotConfigured
      else if sc_production c
      then (if \<not> sc_bound c then Some NotConfigured
            else if or_null (sc_header c) = None then Some BadSignature
            else if \<not> sc_valid c then Some BadSignature else None)
      else if sc_bound c \<and> or_null (sc_header c) \<noteq> None \<and> \<not> sc_valid c then Some BadSignature
      else None)"

definition or_else :: "string option \<Rightarrow> string option \<Rightarrow> string option" where
  "or_else a b = (case or_null a of None \<Rightarrow> or_null b | Some s \<Rightarrow> Some s)"

definition raw_amount_text :: "js_value \<Rightarrow> string" where
  "raw_amount_text v =
     (case v of
        JNull \<Rightarrow> []
      | JOther t \<Rightarrow> if t = ''true'' \<or> t = ''false'' then [] else js_trim t
      | _ \<Rightarrow> js_trim (js_to_string v))"

definition add_counter :: "int \<Rightarrow> int option \<Rightarrow> int option" where
  "add_counter a c = (case c of None \<Rightarrow> Some a | Some b \<Rightarrow> Some (b + a))"

definition deposit_history :: "custody_choice \<Rightarrow> nat \<Rightarrow> int \<Rightarrow> string \<Rightarrow> history_row" where
  "deposit_history ch userId amountUsdc txHash =
     \<lparr>hr_id = cc_history ch, hr_userId = userId, hr_type = ''DEPOSIT_CRYPTO'', hr_amountUsdc = amountUsdc,
      hr_feeUsdc = 0, hr_txHash = Some txHash, hr_status = ''COMPLETED'', hr_createdAt = cc_now ch\<rparr>"

definition deposit_posting :: "nat \<Rightarrow> string \<Rightarrow> nat \<Rightarrow> string \<Rightarrow> post_params" where
  "deposit_posting userId txHash baseUnits historyId =
     (let amount = decimalStringFromBaseUnits (int baseUnits) 6 in
      \<lparr>pp_idempotencyKey = ''ledger:deposit:crypto:'' @ txHash, pp_entryType = ''CUSTODY_DEPOSIT'',
       pp_description = ''Crypto deposit credited on webhook settlement - provisional custody clearing pending transaction evidence'',
       pp_lines = [\<lparr>li_account = ''clearing:custody:unverified:usdc'', li_debit = JStr amount, li_credit = JNull\<rparr>,
                   \<lparr>li_account = user_liability_code userId, li_debit = JNull, li_credit = JStr amount\<rparr>],
       pp_conversion = None, pp_reference = Some txHash, pp_userId = Some userId,
       pp_relatedEntity = Some ''transactionHistory'', pp_relatedEntityId = Some historyId\<rparr>)"

text \<open>The transaction of the credit. \<open>TransactionHistory.txHash\<close> is unique.\<close>

definition credit_tx ::
  "(string \<Rightarrow> string) \<Rightarrow> (int \<Rightarrow> int) \<Rightarrow> custody_choice \<Rightarrow> nat \<Rightarrow> wallet_address \<Rightarrow> string \<Rightarrow> int \<Rightarrow> nat \<Rightarrow>
   custody_db \<Rightarrow> (custody_error, history_row, custody_db) outcome" where
  "credit_tx sha rnd ch userId w txHash amountUsdc baseUnits s =
     (case find_by ur_id userId (cd_users s) of
        None \<Rightarrow> (Inl UserMissing, s)
      | Some _ \<Rightarrow>
          (let h = deposit_history ch userId amountUsdc txHash;
               s1 = s\<lparr>cd_users := update_by (\<lambda>u. ur_id u = userId)
                          (\<lambda>u. u\<lparr>ur_availableBalance := ur_availableBalance u + amountUsdc\<rparr>) (cd_users s),
                      cd_masterCrypto := add_counter amountUsdc (cd_masterCrypto s),
                      cd_hotWallet := add_counter amountUsdc (cd_hotWallet s)\<rparr> in
           if Some txHash \<in> hr_txHash ` set (cd_history s1) then (Inl CustodyUniqueViolation, s1)
           else and_then (recordDepositCandidate ch w txHash (int baseUnits) (Some (hr_id h))
                            (s1\<lparr>cd_history := cd_history s1 @ [h]\<rparr>))
                  (\<lambda>_ s2. and_then (post_custody sha rnd ch (deposit_posting userId txHash baseUnits (hr_id h)) s2)
                            (\<lambda>_ s3. (Inr h, s3)))))"

text \<open>The handler. \<open>env\<close> is what others commit between its reads and its transaction.\<close>

definition tatumCryptoWebhook ::
  "(string \<Rightarrow> string) \<Rightarrow> (int \<Rightarrow> int) \<Rightarrow> float_path \<Rightarrow> (custody_db \<Rightarrow> custody_db) \<Rightarrow> custody_choice \<Rightarrow>
   signature_check \<Rightarrow> webhook \<Rightarrow> custody_db \<Rightarrow> webhook_answer \<times> custody_db" where
  "tatumCryptoWebhook sha rnd fl env ch sig b s =
     (case check_signature sig of
        Some a \<Rightarrow> (a, s)
      | None \<Rightarrow>
          (let address = js_trim (js_lower (or_empty (wb_address b)));
               amount = fl_amount fl (wb_amount b);
               asset = js_upper (case or_else (wb_asset b) (wb_currency b) of None \<Rightarrow> ''USDC'' | Some a \<Rightarrow> a) in
           if address = [] then (MissingAddress, s)
           else case or_else (wb_txId b) (wb_txHash b) of
             None \<Rightarrow> (MissingTxHash, s)
           | Some txHash \<Rightarrow>
               (if amount \<le> 0 then (NonPositiveAmount, s)
                else if asset \<noteq> ''USDC'' then (IgnoredAsset asset, s)
                else case resolveOwner address ''POLYGON'' s of
                  None \<Rightarrow> (Unmatched, s)
                | Some (userId, wallet) \<Rightarrow>
                    (if Some txHash \<in> hr_txHash ` set (cd_history s) then (AlreadyProcessed, s)
                     else case exactWebhookAmountToBaseUnits (JStr (raw_amount_text (wb_amount b))) 6 of
                       Inl _ \<Rightarrow> (EXACT_CUSTODY_QUANTITY_UNREPRESENTABLE, s)
                     | Inr n \<Rightarrow>
                         (case wallet of
                            None \<Rightarrow> (CUSTODY_IDENTITY_UNRESOLVABLE, s)
                          | Some w \<Rightarrow>
                              (case transaction id (credit_tx sha rnd ch userId w txHash (fl_credit fl amount) n) (env s) of
                                 (Inl e, s') \<Rightarrow> (InternalError e, s')
                               | (Inr h, s') \<Rightarrow> (Confirmed h, s')))))))"

end
