(* ===== verification/Custody_Books.thy ===== *)
theory Custody_Books
  imports Crypto_Deposit Ledger_Accept
begin

text \<open>
  The custody books over time. A history interleaves crypto webhooks, deposit verifications,
  execution movements, historical candidates, balance observations, the account sync, ledger
  postings of other services and writes of other services to the tables the custody service only
  reads. The theory proves the invariant that ties the movement table to three ledger accounts: the
  provisional clearing account holds the candidates, the custody account the verified deposits and
  the suspense account the rejected ones.

  The histories of this theory are the canonical ones: deposit hashes arrive in the lower-case form of
  the chain, deposits come through the webhook of the custody service only, every historical row has
  its movement, and the database draws ids that no row carries. In them a deposit, its movement and its
  journal come together. \<open>Custody_Wide\<close> gives up all but the last condition.
\<close>

section \<open>The invariant\<close>

definition custody_accounts :: "string list" where
  "custody_accounts = [''custody:deposit:usdc'', ''clearing:custody:unverified:usdc'', ''clearing:custody:rejected:usdc'']"

definition verify_prefix :: string where
  "verify_prefix = ''ledger:custody:verify:''"

definition reject_prefix :: string where
  "reject_prefix = ''ledger:custody:reject:''"

definition deposit_row_key :: "string \<Rightarrow> string" where
  "deposit_row_key h = ''deposit:POLYGON:'' @ h"

definition staged :: "movement_status \<Rightarrow> custody_movement \<Rightarrow> int" where
  "staged st m = (if cm_kind m = DEPOSIT_IN \<and> cm_status m = st then cm_amountBaseUnits m else 0)"

definition evidenced :: "custody_evidence list \<Rightarrow> custody_movement \<Rightarrow> bool" where
  "evidenced es m \<longleftrightarrow>
     (\<exists>x \<in> set es. cm_evidenceId m = Some (ce_id x) \<and> ce_scope x = TRANSACTION \<and> ce_source x = SOURCE_TX \<and>
        ce_amountBaseUnits x = Some (nat (cm_amountBaseUnits m)) \<and> ce_txHash x = cm_txHash m)"

definition hashes :: "custody_db \<Rightarrow> string option set" where
  "hashes s = hr_txHash ` set (cd_history s)"

definition deposit_ok :: "custody_db \<Rightarrow> custody_movement \<Rightarrow> bool" where
  "deposit_ok s m \<longleftrightarrow>
     (\<exists>h. cm_txHash m = Some h \<and> h \<noteq> [] \<and> cm_idempotencyKey m = deposit_row_key h \<and> Some h \<in> hashes s \<and>
        booked_key (provisional_prefix @ h) (cd_ledger s)) \<and>
     0 < cm_amountBaseUnits m \<and> cm_decimals m = 6 \<and> cm_status m \<noteq> RECONCILIATION_REQUIRED \<and>
     (cm_status m = VERIFIED \<longrightarrow> evidenced (cd_evidence s) m)"

definition tables_distinct :: "custody_db \<Rightarrow> bool" where
  "tables_distinct s \<longleftrightarrow>
     distinct (map cm_id (cd_movements s)) \<and> distinct (map cm_idempotencyKey (cd_movements s)) \<and>
     distinct (map ce_id (cd_evidence s))"

definition one_active_balance :: "custody_evidence list \<Rightarrow> bool" where
  "one_active_balance es \<longleftrightarrow> (\<forall>acc. count_by (active_balance_row acc) es \<le> 1)"

definition keys_follow_movements :: "custody_db \<Rightarrow> bool" where
  "keys_follow_movements s \<longleftrightarrow>
     (\<forall>h. booked_key (provisional_prefix @ h) (cd_ledger s) \<longrightarrow>
        Some h \<in> hashes s \<and> deposit_row_key h \<in> cm_idempotencyKey ` set (cd_movements s)) \<and>
     (\<forall>i. booked_key (verify_prefix @ i) (cd_ledger s) \<or> booked_key (reject_prefix @ i) (cd_ledger s) \<longrightarrow>
        (\<exists>m. find_by cm_id i (cd_movements s) = Some m \<and> \<not> is_candidate m)) \<and>
     (\<forall>h \<in> set (cd_history s). \<forall>t. hr_type h = ''DEPOSIT_CRYPTO'' \<and> hr_txHash h = Some t \<longrightarrow>
        deposit_row_key (js_lower t) \<in> cm_idempotencyKey ` set (cd_movements s))"

definition nets_follow_movements :: "custody_movement list \<Rightarrow> ledger \<Rightarrow> bool" where
  "nets_follow_movements ms L \<longleftrightarrow>
     account_net ''custody:deposit:usdc'' L = 100 * sum_rows (staged VERIFIED) ms \<and>
     account_net ''clearing:custody:unverified:usdc'' L = 100 * sum_rows (staged CANDIDATE) ms \<and>
     account_net ''clearing:custody:rejected:usdc'' L = 100 * sum_rows (staged FAILED) ms"

definition executions_keyed :: "custody_movement list \<Rightarrow> bool" where
  "executions_keyed ms \<longleftrightarrow> (\<forall>m \<in> set ms. cm_kind m \<noteq> DEPOSIT_IN \<longrightarrow> take 10 (cm_idempotencyKey m) = ''execution:'')"

definition custody_inv :: "custody_db \<Rightarrow> bool" where
  "custody_inv s \<longleftrightarrow>
     tables_distinct s \<and> executions_keyed (cd_movements s) \<and> one_active_balance (cd_evidence s) \<and> keys_follow_movements s \<and>
     (\<forall>m \<in> set (cd_movements s). cm_kind m = DEPOSIT_IN \<longrightarrow> deposit_ok s m) \<and>
     nets_follow_movements (cd_movements s) (cd_ledger s) \<and> accounts_classified (cd_ledger s)"

text \<open>How the tables evolve: a movement keeps its economics and leaves \<open>CANDIDATE\<close> once; the accepted
  balance of an account is replaced by observations that are not older.\<close>

definition same_deposit :: "custody_movement \<Rightarrow> custody_movement \<Rightarrow> bool" where
  "same_deposit m n \<longleftrightarrow>
     cm_kind n = cm_kind m \<and> cm_amountBaseUnits n = cm_amountBaseUnits m \<and> cm_decimals n = cm_decimals m \<and>
     cm_txHash n = cm_txHash m \<and> cm_idempotencyKey n = cm_idempotencyKey m \<and>
     (cm_status n = cm_status m \<or> is_candidate m)"

definition balance_evolves :: "custody_evidence list \<Rightarrow> custody_evidence list \<Rightarrow> bool" where
  "balance_evolves es fs \<longleftrightarrow>
     (\<forall>acc x. active_balance acc es = Some x \<longrightarrow>
        (\<exists>y. active_balance acc fs = Some y \<and> ce_observedAt x \<le> ce_observedAt y))"

definition custody_evolves :: "custody_db \<Rightarrow> custody_db \<Rightarrow> bool" where
  "custody_evolves s t \<longleftrightarrow>
     rows_evolve cm_id same_deposit (cd_movements s) (cd_movements t) \<and> balance_evolves (cd_evidence s) (cd_evidence t)"

lemma same_deposit_refl [simp]: "same_deposit m m"
  by (simp add: same_deposit_def)

lemma transp_same_deposit: "transp same_deposit"
  by (rule transpI) (auto simp: same_deposit_def is_candidate_def)

lemma balance_evolves_refl [simp]: "balance_evolves es es"
  by (auto simp: balance_evolves_def)

lemma balance_evolves_trans: "balance_evolves a b \<Longrightarrow> balance_evolves b c \<Longrightarrow> balance_evolves a c"
  unfolding balance_evolves_def by (meson order_trans)

lemma custody_evolves_refl [simp]: "custody_evolves s s"
  by (simp add: custody_evolves_def rows_evolve_refl)

lemma custody_evolves_trans: "custody_evolves s t \<Longrightarrow> custody_evolves t u \<Longrightarrow> custody_evolves s u"
  unfolding custody_evolves_def using rows_evolve_trans [OF transp_same_deposit] balance_evolves_trans by blast

lemma prefixes_differ [simp]:
  "provisional_prefix @ h \<noteq> verify_prefix @ i" "provisional_prefix @ h \<noteq> reject_prefix @ i"
  "verify_prefix @ i \<noteq> reject_prefix @ j" "verify_prefix @ i \<noteq> provisional_prefix @ h"
  "reject_prefix @ i \<noteq> provisional_prefix @ h" "reject_prefix @ i \<noteq> verify_prefix @ j"
  by (simp_all add: provisional_prefix_def verify_prefix_def reject_prefix_def)

section \<open>Writes that do not touch the books\<close>

text \<open>Only the custody accounts, registry, executions, users and counters may differ.\<close>

definition same_books :: "custody_db \<Rightarrow> custody_db \<Rightarrow> bool" where
  "same_books s t \<longleftrightarrow>
     cd_movements t = cd_movements s \<and> cd_evidence t = cd_evidence s \<and> cd_ledger t = cd_ledger s \<and>
     cd_history t = cd_history s"

lemma same_books_refl [simp]: "same_books s s"
  by (simp add: same_books_def)

lemma same_books_trans: "same_books s t \<Longrightarrow> same_books t u \<Longrightarrow> same_books s u"
  by (simp add: same_books_def)

lemma same_books_keeps: "same_books s t \<Longrightarrow> custody_inv s \<Longrightarrow> custody_inv t \<and> custody_evolves s t"
  by (auto simp: same_books_def custody_inv_def tables_distinct_def keys_follow_movements_def deposit_ok_def
      hashes_def custody_evolves_def rows_evolve_refl)

lemma ensureDepositAccount_books: "ensureDepositAccount ch w s = (r, t) \<Longrightarrow> same_books s t"
  by (auto simp: ensureDepositAccount_def same_books_def Let_def split: if_splits option.splits)

lemma ensureHotWalletAccount_books: "ensureHotWalletAccount ch a n as c s = (r, t) \<Longrightarrow> same_books s t"
  by (auto simp: ensureHotWalletAccount_def same_books_def Let_def split: if_splits option.splits)

lemma sync_accounts_books: "sync_accounts hot as s = (es, t) \<Longrightarrow> same_books s t"
proof (induction as arbitrary: s es)
  case (Cons a as)
  show ?case
  proof (cases "cu_tier a = USER_DEPOSIT_ADDRESS \<and> or_null (cu_walletAddressId a) \<noteq> None \<and> \<not> registry_backed (cd_wallets s) a")
    case True
    with Cons show ?thesis by (fastforce simp: same_books_def)
  next
    case False
    with Cons show ?thesis by (auto split: custody_tier.splits prod.splits if_splits)
  qed
qed simp

section \<open>Evidence rows\<close>

lemma find_append: "find P (xs @ ys) = (case find P xs of None \<Rightarrow> find P ys | Some x \<Rightarrow> Some x)"
  by (induction xs) auto

lemma find_none: "(\<And>x. x \<in> set xs \<Longrightarrow> \<not> P x) \<Longrightarrow> find P xs = None"
  by (induction xs) auto

lemma count_by_append [simp]: "count_by P (xs @ ys) = count_by P xs + count_by P ys"
  by (simp add: count_by_def)

lemma count_by_none: "(\<And>x. x \<in> set xs \<Longrightarrow> \<not> P x) \<Longrightarrow> count_by P xs = 0"
  by (simp add: count_by_def filter_empty_conv)

lemma evidenced_mono: "evidenced es m \<Longrightarrow> set es \<subseteq> set fs \<Longrightarrow> evidenced fs m"
  by (auto simp: evidenced_def)

lemma evidenced_cong:
  "cm_evidenceId n = cm_evidenceId m \<Longrightarrow> cm_amountBaseUnits n = cm_amountBaseUnits m \<Longrightarrow> cm_txHash n = cm_txHash m \<Longrightarrow>
   evidenced es n = evidenced es m"
  by (simp add: evidenced_def)

text \<open>Rows that are not accepted balances change neither the accepted balances nor their number.\<close>

lemma inactive_append:
  assumes "\<And>x acc. x \<in> set xs \<Longrightarrow> \<not> active_balance_row acc x"
  shows "one_active_balance (es @ xs) = one_active_balance es" and "balance_evolves es (es @ xs)"
  using assms
  by (auto simp: one_active_balance_def balance_evolves_def active_balance_def find_append count_by_none)

section \<open>Settling a candidate\<close>

definition keeps_deposit :: "(custody_movement \<Rightarrow> custody_movement) \<Rightarrow> bool" where
  "keeps_deposit f \<longleftrightarrow>
     (\<forall>m. cm_id (f m) = cm_id m \<and> cm_kind (f m) = cm_kind m \<and> cm_amountBaseUnits (f m) = cm_amountBaseUnits m \<and>
          cm_decimals (f m) = cm_decimals m \<and> cm_txHash (f m) = cm_txHash m \<and>
          cm_idempotencyKey (f m) = cm_idempotencyKey m)"

definition settlement_ways :: "(movement_status \<times> string \<times> string) list" where
  "settlement_ways =
     [(VERIFIED, ''custody:deposit:usdc'', verify_prefix), (FAILED, ''clearing:custody:rejected:usdc'', reject_prefix)]"

lemma sum_update_row:
  assumes "distinct (map key rows)" and "find_by key k rows = Some r"
  shows "sum_rows v (update_by (\<lambda>x. key x = k) f rows) = sum_rows v rows + (v (f r) - v r)"
  using sum_rows_update_key [OF assms, of v "\<lambda>_. True" f] by simp

lemma settle_nets:
  assumes inv: "custody_inv s" and r: "find_by cm_id i (cd_movements s) = Some r" "is_candidate r" "cm_kind r = DEPOSIT_IN"
    and f: "keeps_deposit f" and st: "cm_status (f r) = st" "(st, acct, pre) \<in> set settlement_ways"
    and p: "post sha rnd ch True p (cd_ledger s) = (Inr res, L)" "pp_idempotencyKey p = pre @ i"
    and lines: "pp_lines p = [\<lparr>li_account = acct, li_debit = v, li_credit = JNull\<rparr>,
                 \<lparr>li_account = ''clearing:custody:unverified:usdc'', li_debit = JNull, li_credit = v\<rparr>]"
    and n: "toExactDecimal v = Inr n" "int n = 100 * cm_amountBaseUnits r"
  shows "nets_follow_movements (update_by (\<lambda>m. cm_id m = i) f (cd_movements s)) L"
proof -
  have new: "\<not> booked_key (pre @ i) (cd_ledger s)"
    using inv r st(2) by (auto simp: custody_inv_def keys_follow_movements_def settlement_ways_def)
  have net: "account_net c L = account_net c (cd_ledger s) + posting_moves rnd p c" for c
    using lp.book_net [OF p(1)] new p(2) by simp
  note moves = transfer_moves [OF p(1) lines n(1)]
  have d: "distinct (map cm_id (cd_movements s))" using inv by (simp add: custody_inv_def tables_distinct_def)
  have nf: "nets_follow_movements (cd_movements s) (cd_ledger s)" using inv by (simp add: custody_inv_def)
  have a: "cm_kind (f r) = DEPOSIT_IN" "cm_amountBaseUnits (f r) = cm_amountBaseUnits r" "cm_status r = CANDIDATE"
    using f r by (simp_all add: keeps_deposit_def is_candidate_def)
  show ?thesis
  proof (cases st)
    case VERIFIED
    with st have w: "acct = ''custody:deposit:usdc''" by (simp add: settlement_ways_def)
    show ?thesis
      using nf st(1) a r(3) n(2) VERIFIED
      by (simp add: nets_follow_movements_def net moves w sum_update_row [OF d r(1)] staged_def)
  next
    case FAILED
    with st have w: "acct = ''clearing:custody:rejected:usdc''" by (simp add: settlement_ways_def)
    show ?thesis
      using nf st(1) a r(3) n(2) FAILED
      by (simp add: nets_follow_movements_def net moves w sum_update_row [OF d r(1)] staged_def)
  qed (use st in \<open>simp_all add: settlement_ways_def\<close>)
qed

lemma settle_rows:
  assumes inv: "custody_inv s" and r: "find_by cm_id i (cd_movements s) = Some r" "is_candidate r" "cm_kind r = DEPOSIT_IN"
    and f: "keeps_deposit f" and st: "cm_status (f r) = st" "(st, acct, pre) \<in> set settlement_ways"
    and ev: "st = VERIFIED \<Longrightarrow> evidenced es (f r)" and es: "set (cd_evidence s) \<subseteq> set es"
    and keys: "\<And>k. booked_key k L \<longleftrightarrow> booked_key k (cd_ledger s) \<or> k = pre @ i"
  defines "t \<equiv> s\<lparr>cd_movements := update_by (\<lambda>m. cm_id m = i) f (cd_movements s), cd_evidence := es, cd_ledger := L\<rparr>"
  shows "\<forall>m \<in> set (cd_movements t). cm_kind m = DEPOSIT_IN \<longrightarrow> deposit_ok t m" and "keys_follow_movements t"
proof -
  have d: "distinct (map cm_id (cd_movements s))" using inv by (simp add: custody_inv_def tables_distinct_def)
  have old: "deposit_ok s m" if "m \<in> set (cd_movements s)" "cm_kind m = DEPOSIT_IN" for m
    using inv that by (simp add: custody_inv_def)
  have prov: "booked_key (provisional_prefix @ h) L \<longleftrightarrow> booked_key (provisional_prefix @ h) (cd_ledger s)" for h
    using keys st(2) by (auto simp: settlement_ways_def)
  show "\<forall>m \<in> set (cd_movements t). cm_kind m = DEPOSIT_IN \<longrightarrow> deposit_ok t m"
  proof (intro ballI impI)
    fix m assume "m \<in> set (cd_movements t)" and k: "cm_kind m = DEPOSIT_IN"
    then obtain m0 where m0: "m0 \<in> set (cd_movements s)" and m: "m = (if cm_id m0 = i then f m0 else m0)"
      by (auto simp: t_def set_update_by)
    have k0: "cm_kind m0 = DEPOSIT_IN" using k m f by (auto simp: keeps_deposit_def split: if_splits)
    show "deposit_ok t m"
    proof (cases "cm_id m0 = i")
      case True
      then have "m0 = r" using find_by_unique [OF d r(1) m0] by simp
      then have mf: "m = f r" using m True by simp
      have "cm_status (f r) \<noteq> RECONCILIATION_REQUIRED" using st by (auto simp: settlement_ways_def)
      then show ?thesis
        using old [OF m0 k0] f ev st(1) prov unfolding mf \<open>m0 = r\<close>
        by (auto simp: deposit_ok_def t_def hashes_def keeps_deposit_def)
    next
      case False
      then show ?thesis
        using old [OF m0 k0] m prov evidenced_mono [OF _ es] by (auto simp: deposit_ok_def t_def hashes_def)
    qed
  qed
  have ks: "cm_idempotencyKey ` set (cd_movements t) = cm_idempotencyKey ` set (cd_movements s)"
  proof -
    have "map cm_idempotencyKey (cd_movements t) = map cm_idempotencyKey (cd_movements s)"
      using f by (simp add: t_def keeps_deposit_def)
    then show ?thesis by (metis list.set_map)
  qed
  have find: "find_by cm_id j (cd_movements t) = map_option (\<lambda>m. if j = i then f m else m) (find_by cm_id j (cd_movements s))" for j
    using f find_by_update_by [of cm_id f j "\<lambda>m. cm_id m = i" "cd_movements s"]
    by (cases "find_by cm_id j (cd_movements s)") (auto simp: t_def keeps_deposit_def dest: find_by_SomeD)
  have "\<not> is_candidate (f r)" using st by (auto simp: is_candidate_def settlement_ways_def)
  moreover have "\<exists>m. find_by cm_id j (cd_movements s) = Some m \<and> (\<not> is_candidate m \<or> j = i)"
    if "booked_key (verify_prefix @ j) L \<or> booked_key (reject_prefix @ j) L" for j
  proof (cases "j = i")
    case True
    then show ?thesis using r(1) by auto
  next
    case False
    then show ?thesis
      using inv that keys st(2) by (auto simp: custody_inv_def keys_follow_movements_def settlement_ways_def)
  qed
  ultimately have "\<exists>m. find_by cm_id j (cd_movements t) = Some m \<and> \<not> is_candidate m"
    if "booked_key (verify_prefix @ j) L \<or> booked_key (reject_prefix @ j) L" for j
    using that r find [of j] by (cases "j = i") force+
  then show "keys_follow_movements t"
    using inv prov ks by (auto simp: custody_inv_def keys_follow_movements_def t_def hashes_def)
qed

lemma settle_keeps:
  assumes inv: "custody_inv s" and r: "find_by cm_id i (cd_movements s) = Some r" "is_candidate r" "cm_kind r = DEPOSIT_IN"
    and f: "keeps_deposit f" and st: "cm_status (f r) = st" "(st, acct, pre) \<in> set settlement_ways"
    and ev: "st = VERIFIED \<Longrightarrow> evidenced (cd_evidence s @ xs) (f r)"
    and xs: "\<And>x acc. x \<in> set xs \<Longrightarrow> \<not> active_balance_row acc x" "distinct (map ce_id (cd_evidence s @ xs))"
    and p: "post sha rnd ch True p (cd_ledger s) = (Inr res, L)" "pp_idempotencyKey p = pre @ i"
    and lines: "pp_lines p = [\<lparr>li_account = acct, li_debit = v, li_credit = JNull\<rparr>,
                 \<lparr>li_account = ''clearing:custody:unverified:usdc'', li_debit = JNull, li_credit = v\<rparr>]"
    and n: "toExactDecimal v = Inr n" "int n = 100 * cm_amountBaseUnits r"
  defines "t \<equiv> s\<lparr>cd_movements := update_by (\<lambda>m. cm_id m = i) f (cd_movements s),
                  cd_evidence := cd_evidence s @ xs, cd_ledger := L\<rparr>"
  shows "custody_inv t \<and> custody_evolves s t"
proof -
  have keys: "booked_key k L \<longleftrightarrow> booked_key k (cd_ledger s) \<or> k = pre @ i" for k
    using lp.book_key [OF p(1)] p(2) by simp
  have sub: "set (cd_evidence s) \<subseteq> set (cd_evidence s @ xs)" by simp
  note rows = settle_rows [OF inv r f st ev sub keys]
  have dm: "distinct (map cm_id (cd_movements s))" using inv by (simp add: custody_inv_def tables_distinct_def)
  have sd: "same_deposit m (f m)" if "m \<in> set (cd_movements s)" "cm_id m = i" for m
    using find_by_unique [OF dm r(1) that] r(2) f by (simp add: same_deposit_def keeps_deposit_def)
  have ev: "rows_evolve cm_id same_deposit (cd_movements s) (cd_movements t)"
    using f sd by (auto simp: t_def rows_evolve_def find_by_update_by keeps_deposit_def dest!: find_by_Some)
  have "tables_distinct t"
    using inv f xs(2) by (auto simp: custody_inv_def tables_distinct_def t_def keeps_deposit_def)
  moreover have "executions_keyed (cd_movements t)"
    using inv f by (auto simp: custody_inv_def executions_keyed_def t_def set_update_by keeps_deposit_def)
  moreover have "one_active_balance (cd_evidence t)"
    using inv inactive_append(1) [OF xs(1)] by (simp add: t_def custody_inv_def)
  moreover have "nets_follow_movements (cd_movements t) (cd_ledger t)"
    using settle_nets [OF inv r f st p lines n] by (simp add: t_def)
  ultimately show ?thesis
    using rows ev inactive_append(2) [OF xs(1)] post_classified [OF p(1)] inv
    by (simp add: custody_inv_def custody_evolves_def t_def)
qed


section \<open>The verifier\<close>

lemma validated_entry:
  assumes "validate_evidence account m h es = ([], x)"
  shows "\<exists>e. x = Some e \<and> e \<in> set es \<and> int (te_amountBaseUnits e) = cm_amountBaseUnits m \<and> te_blockNumber e \<noteq> None \<and>
    te_address e = normalizeAddress (JStr (cu_address account)) \<and>
    te_tokenAddress e = Some (normalizeAddress (JStr (cu_contractAddress account))) \<and>
    te_transactionSubtype e = JStr ''incoming'' \<and> js_trim (js_lower (or_empty (te_hash e))) = js_trim (js_lower h)"
proof -
  have filterE: "e \<in> set xs \<and> P e" if "filter P xs = e # ys" for e :: tx_entry and P xs ys
  proof -
    have "e \<in> set (filter P xs)" by (simp add: that)
    then show ?thesis by simp
  qed
  show ?thesis
    using assms
    by (auto simp: validate_evidence_def Let_def fail_if_def filter_empty_conv
        split: if_splits list.splits option.splits dest!: filterE)
qed

lemma candidate_posting_amount:
  assumes "0 < cm_amountBaseUnits m" and "cm_decimals m = 6"
  shows "\<exists>n. toExactDecimal (JStr (decimalStringFromBaseUnits (cm_amountBaseUnits m) (movement_decimals m))) = Inr n \<and>
    int n = 100 * cm_amountBaseUnits m"
  using stored_text_ledger [of 6 "nat (cm_amountBaseUnits m)"] assms
  by (simp add: movement_decimals_def del: toExactDecimal.simps)

lemma claimed_rows:
  assumes "distinct (map cm_id ms)" and "find_by cm_id i ms = Some r" and "is_candidate r"
  shows "claim_rows cm_id is_candidate g i ms = update_by (\<lambda>m. cm_id m = i) g ms"
proof -
  have "m = r" if "m \<in> set ms" "cm_id m = i" for m
    using find_by_unique [OF assms(1,2)] that by blast
  with assms(3) show ?thesis by (auto simp: claim_rows_def update_by_def)
qed

interpretation ver: conditional_claim cm_id is_candidate "set_status VERIFIED reason" for reason
  by unfold_locales (simp_all add: set_status_def is_candidate_def)

interpretation rej: conditional_claim cm_id is_candidate "set_status FAILED reason" for reason
  by unfold_locales (simp_all add: set_status_def is_candidate_def)

text \<open>The reclassification of a claimed candidate: the journal exists, so the posting is made.\<close>

lemma reclassify_posts:
  assumes inv: "custody_inv s" and r: "r \<in> set (cd_movements s)" "cm_kind r = DEPOSIT_IN" "cm_txHash r = Some h"
    and "reclassify sha rnd ch h p t = (Inr u, t')" and "cd_ledger t = cd_ledger s"
  obtains res L where "post sha rnd (cc_ledger ch) True p (cd_ledger s) = (Inr res, L)" and "t' = t\<lparr>cd_ledger := L\<rparr>"
proof -
  have "deposit_ok s r" using inv r by (simp add: custody_inv_def)
  then have "booked_key (provisional_prefix @ h) (cd_ledger s)" using r(3) by (auto simp: deposit_ok_def)
  then have "find_by lt_idempotencyKey (provisional_prefix @ h) (txns (cd_ledger s)) \<noteq> None"
    by (auto simp: booked_key_def find_by_None)
  with assms(5,6) show thesis
    using that by (auto simp: reclassify_def post_custody_def split: option.splits prod.splits sum.splits)
qed

lemma claim_of_candidate:
  assumes inv: "custody_inv s" and c: "claims cm_id is_candidate i (cd_movements s) \<noteq> 0"
  obtains r where "find_by cm_id i (cd_movements s) = Some r" and "is_candidate r" and "r \<in> set (cd_movements s)"
  using ver.claims_iff [of "cd_movements s" i] c inv
  by (auto simp: custody_inv_def tables_distinct_def dest: find_by_Some)

text \<open>The movement the verifier read and the row it claims have the same economics.\<close>

definition read_earlier :: "custody_movement \<Rightarrow> string \<Rightarrow> custody_db \<Rightarrow> bool" where
  "read_earlier m h s \<longleftrightarrow>
     cm_kind m = DEPOSIT_IN \<and> cm_txHash m = Some h \<and>
     (\<forall>r. find_by cm_id (cm_id m) (cd_movements s) = Some r \<longrightarrow> same_deposit m r)"

lemma reject_tx_keeps:
  assumes inv: "custody_inv s" and m: "read_earlier m h s" and tx: "reject_tx sha rnd ch m h fs s = (Inr b, s')"
  shows "custody_inv s' \<and> custody_evolves s s'"
proof (cases "claims cm_id is_candidate (cm_id m) (cd_movements s) = 0")
  case True
  with tx inv show ?thesis by (simp add: reject_tx_def)
next
  case False
  then obtain r where r: "find_by cm_id (cm_id m) (cd_movements s) = Some r" "is_candidate r" "r \<in> set (cd_movements s)"
    by (rule claim_of_candidate [OF inv])
  have sd: "same_deposit m r" and kr: "cm_kind r = DEPOSIT_IN" "cm_txHash r = Some h"
    using m r(1) by (auto simp: read_earlier_def same_deposit_def)
  let ?f = "set_status FAILED (Some (joined_failures fs))" and ?p = "rejection_posting m h"
  from tx False obtain u where rc: "reclassify sha rnd ch h ?p (claim_movement FAILED (Some (joined_failures fs)) (cm_id m) s) = (Inr u, s')"
    by (auto simp: reject_tx_def and_then_Inr)
  obtain res L where p: "post sha rnd (cc_ledger ch) True ?p (cd_ledger s) = (Inr res, L)"
    and s': "s' = (claim_movement FAILED (Some (joined_failures fs)) (cm_id m) s)\<lparr>cd_ledger := L\<rparr>"
    by (rule reclassify_posts [OF inv r(3) kr rc]) (simp add: claim_movement_def)
  have d: "distinct (map cm_id (cd_movements s))" "distinct (map ce_id (cd_evidence s))"
    using inv by (simp_all add: custody_inv_def tables_distinct_def)
  have "deposit_ok s r" using inv r(3) kr(1) by (simp add: custody_inv_def)
  then obtain n where n: "toExactDecimal (JStr (decimalStringFromBaseUnits (cm_amountBaseUnits m) (movement_decimals m))) = Inr n"
    "int n = 100 * cm_amountBaseUnits r"
    using candidate_posting_amount [of m] sd by (auto simp: deposit_ok_def same_deposit_def simp del: toExactDecimal.simps)
  have "s' = s\<lparr>cd_movements := update_by (\<lambda>m'. cm_id m' = cm_id m) ?f (cd_movements s),
      cd_evidence := cd_evidence s @ [], cd_ledger := L\<rparr>"
    using claimed_rows [OF d(1) r(1,2)] by (simp add: s' claim_movement_def)
  moreover have "custody_inv (s\<lparr>cd_movements := update_by (\<lambda>m'. cm_id m' = cm_id m) ?f (cd_movements s),
      cd_evidence := cd_evidence s @ [], cd_ledger := L\<rparr>) \<and> custody_evolves s
      (s\<lparr>cd_movements := update_by (\<lambda>m'. cm_id m' = cm_id m) ?f (cd_movements s),
      cd_evidence := cd_evidence s @ [], cd_ledger := L\<rparr>)"
  proof (rule settle_keeps [OF inv r(1,2) kr(1) _ _ _ _ _ _ p _ _ n])
    show "(FAILED, ''clearing:custody:rejected:usdc'', reject_prefix) \<in> set settlement_ways" by (simp add: settlement_ways_def)
  qed (use d in \<open>simp_all add: keeps_deposit_def set_status_def rejection_posting_def custody_posting_def reject_prefix_def Let_def\<close>)
  ultimately show ?thesis by simp
qed

lemma verify_tx_keeps:
  assumes inv: "custody_inv s" and m: "read_earlier m h s" and new: "cc_evidence ch \<notin> ce_id ` set (cd_evidence s)"
    and e: "int (te_amountBaseUnits e) = cm_amountBaseUnits m"
    and tx: "verify_tx sha rnd ch account m h seen e s = (Inr b, s')"
  shows "custody_inv s' \<and> custody_evolves s s'"
proof (cases "claims cm_id is_candidate (cm_id m) (cd_movements s) = 1")
  case False
  with tx inv show ?thesis by (simp add: verify_tx_def)
next
  case True
  then obtain r where r: "find_by cm_id (cm_id m) (cd_movements s) = Some r" "is_candidate r" "r \<in> set (cd_movements s)"
    using claim_of_candidate [OF inv] by (metis One_nat_def zero_neq_one)
  have sd: "same_deposit m r" and kr: "cm_kind r = DEPOSIT_IN" "cm_txHash r = Some h"
    using m r(1) by (auto simp: read_earlier_def same_deposit_def)
  let ?x = "transaction_evidence ch account m h seen e" and ?p = "verification_posting m h"
  let ?f = "\<lambda>m. attach_evidence (cc_evidence ch) e (set_status VERIFIED None m)"
  from tx True obtain u s1 where rc: "reclassify sha rnd ch h ?p (claim_movement VERIFIED None (cm_id m) s) = (Inr u, s1)"
    and s': "s' = s1\<lparr>cd_evidence := cd_evidence s1 @ [?x],
       cd_movements := update_by (\<lambda>r. cm_id r = cm_id m) (attach_evidence (cc_evidence ch) e) (cd_movements s1)\<rparr>"
    by (auto simp: verify_tx_def and_then_Inr Let_def transaction_evidence_def split: if_splits option.splits)
  obtain res L where p: "post sha rnd (cc_ledger ch) True ?p (cd_ledger s) = (Inr res, L)"
    and s1: "s1 = (claim_movement VERIFIED None (cm_id m) s)\<lparr>cd_ledger := L\<rparr>"
    by (rule reclassify_posts [OF inv r(3) kr rc]) (simp add: claim_movement_def)
  have d: "distinct (map cm_id (cd_movements s))" "distinct (map ce_id (cd_evidence s))"
    using inv by (simp_all add: custody_inv_def tables_distinct_def)
  have ok: "deposit_ok s r" using inv r(3) kr(1) by (simp add: custody_inv_def)
  then obtain n where n: "toExactDecimal (JStr (decimalStringFromBaseUnits (cm_amountBaseUnits m) (movement_decimals m))) = Inr n"
    "int n = 100 * cm_amountBaseUnits r"
    using candidate_posting_amount [of m] sd by (auto simp: deposit_ok_def same_deposit_def simp del: toExactDecimal.simps)
  have "update_by (\<lambda>r. cm_id r = cm_id m) (attach_evidence (cc_evidence ch) e)
      (update_by (\<lambda>r. cm_id r = cm_id m) (set_status VERIFIED None) (cd_movements s)) =
      update_by (\<lambda>m'. cm_id m' = cm_id m) ?f (cd_movements s)"
    by (auto simp: update_by_def set_status_def)
  then have "s' = s\<lparr>cd_movements := update_by (\<lambda>m'. cm_id m' = cm_id m) ?f (cd_movements s),
      cd_evidence := cd_evidence s @ [?x], cd_ledger := L\<rparr>"
    using claimed_rows [OF d(1) r(1,2)] by (simp add: s' s1 claim_movement_def)
  moreover have "custody_inv (s\<lparr>cd_movements := update_by (\<lambda>m'. cm_id m' = cm_id m) ?f (cd_movements s),
      cd_evidence := cd_evidence s @ [?x], cd_ledger := L\<rparr>) \<and> custody_evolves s
      (s\<lparr>cd_movements := update_by (\<lambda>m'. cm_id m' = cm_id m) ?f (cd_movements s),
      cd_evidence := cd_evidence s @ [?x], cd_ledger := L\<rparr>)"
  proof (rule settle_keeps [OF inv r(1,2) kr(1) _ _ _ _ _ _ p _ _ n])
    show "(VERIFIED, ''custody:deposit:usdc'', verify_prefix) \<in> set settlement_ways" by (simp add: settlement_ways_def)
    have "nat (cm_amountBaseUnits r) = te_amountBaseUnits e"
      using e sd by (simp add: same_deposit_def)
    then show "evidenced (cd_evidence s @ [?x]) (?f r)"
      using kr(2) by (auto simp: evidenced_def transaction_evidence_def attach_evidence_def set_status_def)
  qed (use d new in \<open>simp_all add: keeps_deposit_def set_status_def attach_evidence_def verification_posting_def
        custody_posting_def verify_prefix_def Let_def active_balance_row_def transaction_evidence_def\<close>)
  ultimately show ?thesis by simp
qed


lemma verify_outcome_snd: "snd (verify_outcome r) = snd r"
  by (cases r) (auto simp: verify_outcome_def and_then_def split: sum.splits verify_tx_result.splits option.splits)

lemma and_then_snd: "(\<And>a t. snd (f a t) = t) \<Longrightarrow> snd (and_then r f) = snd r"
  by (cases r) (auto simp: and_then_def split: sum.splits)

lemma settle_observation_keeps:
  assumes inv: "custody_inv s" and m: "read_earlier m h s" and new: "cc_evidence ch \<notin> ce_id ` set (cd_evidence s)"
    and o: "settle_observation sha rnd ch m h account obs s = (r, s')"
  shows "custody_inv s' \<and> custody_evolves s s'"
proof (cases "validate_evidence account m h (to_entries obs)")
  case (Pair fs x)
  show ?thesis
  proof (cases fs)
    case (Cons g gs)
    then have "s' = snd (transaction id (reject_tx sha rnd ch m h fs) s)"
      using o Pair and_then_snd [of "\<lambda>_ s'. (Inr (NotVerified (FAILURES fs)), s')" "transaction id (reject_tx sha rnd ch m h fs) s"]
      by (auto simp: settle_observation_def dest!: arg_cong [where f = snd])
    moreover obtain y t where t: "transaction id (reject_tx sha rnd ch m h fs) s = (y, t)" by fastforce
    ultimately have "transaction id (reject_tx sha rnd ch m h fs) s = (y, s')" by simp
    then show ?thesis
      by (cases rule: transaction_id_cases) (use inv reject_tx_keeps [OF inv m] in auto)
  next
    case Nil
    then obtain e where x: "x = Some e" and e: "int (te_amountBaseUnits e) = cm_amountBaseUnits m"
      using validated_entry [of account m h "to_entries obs" x] Pair by auto
    let ?tx = "transaction id (verify_tx sha rnd ch account m h (to_observedAt obs) e) s"
    have "s' = snd ?tx"
      using o Pair Nil x verify_outcome_snd [of ?tx] by (auto simp: settle_observation_def)
    moreover obtain y t where t: "?tx = (y, t)" by fastforce
    ultimately have "?tx = (y, s')" by simp
    then show ?thesis
      by (cases rule: transaction_id_cases) (use inv verify_tx_keeps [OF inv m new e] in auto)
  qed
qed

lemma verify_checks_Inr:
  "verify_checks i s = Inr (m, h, account) \<Longrightarrow>
   find_by cm_id i (cd_movements s) = Some m \<and> cm_kind m = DEPOSIT_IN \<and> cm_txHash m = Some h"
  by (auto simp: verify_checks_def or_null_Some split: option.splits if_splits)

lemma verifyDepositMovement_keeps:
  assumes v: "verifyDepositMovement sha rnd env ch source get i s = (r, s')"
    and inv: "custody_inv s" "custody_inv (env s)" "custody_evolves s (env s)"
    and new: "cc_evidence ch \<notin> ce_id ` set (cd_evidence (env s))"
  shows "custody_inv s' \<and> custody_evolves s s'"
proof (cases "s' = s")
  case True
  with inv show ?thesis by simp
next
  case False
  then obtain m h account obs where c: "verify_checks i s = Inr (m, h, account)"
    and o: "settle_observation sha rnd ch m h account obs (env s) = (r, s')"
    using v by (auto simp: verifyDepositMovement_def split: if_splits sum.splits)
  have "read_earlier m h (env s)"
    using verify_checks_Inr [OF c] inv(3)
    by (auto simp: read_earlier_def custody_evolves_def dest!: rows_evolveD dest: find_by_SomeD)
  from settle_observation_keeps [OF inv(2) this new o] show ?thesis
    using custody_evolves_trans [OF inv(3)] by blast
qed

section \<open>Postings, deposits and executions\<close>

text \<open>A posting of another service: it uses none of the custody keys and none of the three accounts.\<close>

definition custody_key :: "string \<Rightarrow> bool" where
  "custody_key k \<longleftrightarrow> (\<exists>h. k = provisional_prefix @ h \<or> k = verify_prefix @ h \<or> k = reject_prefix @ h)"

definition foreign_posting :: "post_params \<Rightarrow> bool" where
  "foreign_posting p \<longleftrightarrow>
     \<not> custody_key (pp_idempotencyKey p) \<and> (\<forall>l \<in> set (pp_lines p). li_account l \<notin> set custody_accounts)"

lemma foreign_moves:
  assumes "foreign_posting p" and "code \<in> set custody_accounts"
  shows "posting_moves rnd p code = 0"
proof (cases "validate_posting rnd p")
  case (Inr x)
  obtain ls conv where x: "x = (ls, conv)" by (cases x)
  have "traverse_sum normalize_line (pp_lines p) = Inr ls"
    using Inr x by (auto simp: validate_posting_def split: option.splits)
  then have "list_all2 (\<lambda>l n. nl_account n = li_account l) (pp_lines p) ls"
    by (auto simp: traverse_sum_Inr normalize_line_one_sided elim!: list_all2_mono)
  moreover have "\<forall>l \<in> set (pp_lines p). li_account l \<noteq> code"
    using assms by (auto simp: foreign_posting_def)
  ultimately have "sum_rows (line_net code) ls = 0"
    by (induction rule: list_all2_induct) (auto simp: line_net_def)
  then show ?thesis using Inr x by (simp add: posting_moves_def posted_lines_def)
qed (simp add: posting_moves_def posted_lines_def)

lemma foreign_post_keeps:
  assumes "post sha rnd ch True p (cd_ledger s) = (Inr res, L)" and "foreign_posting p" and inv: "custody_inv s"
  shows "custody_inv (s\<lparr>cd_ledger := L\<rparr>) \<and> custody_evolves s (s\<lparr>cd_ledger := L\<rparr>)"
proof -
  have keys: "booked_key k L \<longleftrightarrow> booked_key k (cd_ledger s)" if "custody_key k" for k
    using lp.book_key [OF assms(1), of k] assms(2) that by (auto simp: foreign_posting_def)
  then have ks: "booked_key (provisional_prefix @ h) L \<longleftrightarrow> booked_key (provisional_prefix @ h) (cd_ledger s)"
    "booked_key (verify_prefix @ h) L \<longleftrightarrow> booked_key (verify_prefix @ h) (cd_ledger s)"
    "booked_key (reject_prefix @ h) L \<longleftrightarrow> booked_key (reject_prefix @ h) (cd_ledger s)" for h
    by (auto simp: custody_key_def)
  have "account_net c L = account_net c (cd_ledger s)" if "c \<in> set custody_accounts" for c
    using lp.book_net [OF assms(1), of c] foreign_moves [OF assms(2) that] by simp
  then have "nets_follow_movements (cd_movements s) L"
    using inv by (simp add: custody_inv_def nets_follow_movements_def custody_accounts_def)
  then show ?thesis
    using inv ks post_classified [OF assms(1)]
    by (auto simp: custody_inv_def tables_distinct_def keys_follow_movements_def deposit_ok_def hashes_def
        custody_evolves_def rows_evolve_refl)
qed

lemma append_movement_keeps:
  assumes inv: "custody_inv s" and "cm_id m \<notin> cm_id ` set (cd_movements s)"
    and "cm_idempotencyKey m \<notin> cm_idempotencyKey ` set (cd_movements s)" and "cm_kind m \<noteq> DEPOSIT_IN"
    and "take 10 (cm_idempotencyKey m) = ''execution:''"
  shows "custody_inv (s\<lparr>cd_movements := cd_movements s @ [m]\<rparr>) \<and> custody_evolves s (s\<lparr>cd_movements := cd_movements s @ [m]\<rparr>)"
proof -
  have "nets_follow_movements (cd_movements s @ [m]) (cd_ledger s)"
    using inv assms(4) by (simp add: custody_inv_def nets_follow_movements_def staged_def)
  moreover have "keys_follow_movements (s\<lparr>cd_movements := cd_movements s @ [m]\<rparr>)"
  proof -
    have old: "keys_follow_movements s" using inv by (simp add: custody_inv_def)
    have "find_by cm_id i (cd_movements s) = Some x \<Longrightarrow> find_by cm_id i (cd_movements s @ [m]) = Some x" for i x by simp
    then show ?thesis using old unfolding keys_follow_movements_def hashes_def by (auto 4 3)
  qed
  ultimately show ?thesis
    using inv assms
    by (auto simp: custody_inv_def tables_distinct_def executions_keyed_def deposit_ok_def hashes_def custody_evolves_def
        rows_evolve_append)
qed

lemma recordExecutionMovement_cases:
  assumes tx: "recordExecutionMovement ch x hot s = (Inr r, s')"
  shows "s' = s \<or> (\<exists>t kind src dst. same_books s t \<and> kind \<noteq> DEPOSIT_IN \<and>
          insert_movement ch (execution_movement ch x kind src dst) t = (Inr r, s'))"
proof (cases "find_by cm_idempotencyKey (execution_key x) (cd_movements s)")
  case (Some m)
  then show ?thesis using tx by (auto simp: recordExecutionMovement_def split: if_splits)
next
  case None
  obtain r1 s1 where hot: "ensureHotWalletAccount ch hot (js_upper (or_default ''POLYGON'' (ex_network x)))
      (js_upper (or_default ''USDC'' (ex_asset x))) (normalizeAddress (JStr (ex_contractAddress x))) s = (r1, s1)"
    by fastforce
  note b = ensureHotWalletAccount_books [OF hot]
  consider "ex_kind x = ''DEPOSIT_SWEEP''" | "ex_kind x = ''CUSTOMER_WITHDRAWAL''"
    using tx None by (auto simp: recordExecutionMovement_def and_then_Inr hot split: if_splits)
  then show ?thesis
  proof cases
    case 1
    then obtain w src acc s2 where e: "ensureDepositAccount ch w s1 = (Inr src, s2)"
      and i: "insert_movement ch (execution_movement ch x SWEEP (Some src) (Some acc)) s2 = (Inr r, s')"
      using tx None
      by (cases "or_null (ex_walletAddressId x)"; cases "find_by wa_id (the (or_null (ex_walletAddressId x))) (cd_wallets s1)")
        (auto simp: recordExecutionMovement_def and_then_Inr hot split: if_splits)
    have "same_books s s2" using same_books_trans [OF b ensureDepositAccount_books [OF e]] .
    with i show ?thesis by blast
  next
    case 2
    then obtain acc where i: "insert_movement ch (execution_movement ch x WITHDRAWAL_OUT (Some acc) None) s1 = (Inr r, s')"
      using tx None by (auto simp: recordExecutionMovement_def and_then_Inr hot split: if_splits)
    with b show ?thesis by blast
  qed
qed

lemma recordExecutionMovement_keeps:
  assumes inv: "custody_inv s" and new: "cc_movement ch \<notin> cm_id ` set (cd_movements s)"
    and tx: "recordExecutionMovement ch x hot s = (Inr r, s')"
  shows "custody_inv s' \<and> custody_evolves s s'"
proof -
  from recordExecutionMovement_cases [OF tx] show ?thesis
  proof
    assume "\<exists>t kind src dst. same_books s t \<and> kind \<noteq> DEPOSIT_IN \<and>
          insert_movement ch (execution_movement ch x kind src dst) t = (Inr r, s')"
    then obtain t kind src dst where t: "same_books s t" and k: "kind \<noteq> DEPOSIT_IN"
      and i: "insert_movement ch (execution_movement ch x kind src dst) t = (Inr r, s')" by blast
    let ?m = "execution_movement ch x kind src dst"
    have s': "s' = t\<lparr>cd_movements := cd_movements t @ [?m]\<rparr>" and key: "cm_idempotencyKey ?m \<notin> cm_idempotencyKey ` set (cd_movements t)"
      using i by (auto simp: insert_movement_def split: if_splits)
    have t': "custody_inv t" "custody_evolves s t" using same_books_keeps [OF t inv] by simp_all
    have "cm_id ?m \<notin> cm_id ` set (cd_movements t)" "cm_kind ?m \<noteq> DEPOSIT_IN" "take 10 (cm_idempotencyKey ?m) = ''execution:''"
      using new t k by (simp_all add: execution_movement_def same_books_def execution_key_def)
    from append_movement_keeps [OF t'(1) this(1) key this(2,3)] show ?thesis
      using custody_evolves_trans [OF t'(2)] unfolding s' by blast
  qed (use inv in simp)
qed


text \<open>The credit transaction of the webhook: a new candidate and its provisional posting.\<close>

lemma recordDepositCandidate_cases:
  assumes "recordDepositCandidate ch w h a th s = (Inr (m, new), s')"
  obtains (known) "same_books s s'" "find_by cm_idempotencyKey (deposit_key w h) (cd_movements s) = Some m" "\<not> new"
  | (added) acc t where "new" "same_books s t" "m = deposit_candidate ch w h a th acc" "h \<noteq> []" "0 < a"
      "deposit_key w h \<notin> cm_idempotencyKey ` set (cd_movements s)" "s' = t\<lparr>cd_movements := cd_movements t @ [m]\<rparr>"
proof -
  obtain acc t where e: "ensureDepositAccount ch w s = (Inr acc, t)" and h: "h \<noteq> []" "0 < a"
    and r: "(case find_by cm_idempotencyKey (deposit_key w h) (cd_movements t) of
          Some m \<Rightarrow> (Inr (m, False), t)
        | None \<Rightarrow>
            (if cc_raced ch then (Inl CustodyUniqueViolation, t)
             else let m = deposit_candidate ch w h a th acc in
               (Inr (m, True), t\<lparr>cd_movements := cd_movements t @ [m]\<rparr>))) = (Inr (m, new), s')"
    using assms by (auto simp: recordDepositCandidate_def and_then_Inr split: if_splits)
  have b: "same_books s t" by (rule ensureDepositAccount_books [OF e])
  show thesis
  proof (cases "find_by cm_idempotencyKey (deposit_key w h) (cd_movements t)")
    case None
    with r have "new" "m = deposit_candidate ch w h a th acc" "s' = t\<lparr>cd_movements := cd_movements t @ [m]\<rparr>"
      by (auto simp: Let_def split: if_splits)
    moreover have "deposit_key w h \<notin> cm_idempotencyKey ` set (cd_movements s)"
      using None b by (simp add: find_by_None same_books_def)
    ultimately show thesis using added [of t acc] b h by blast
  next
    case (Some m')
    with r b show thesis using known by (simp add: same_books_def)
  qed
qed

lemma deposit_keeps:
  assumes inv: "custody_inv s" and h: "js_lower h = h" "Some h \<notin> hashes s"
    and w: "js_upper (or_default ''POLYGON'' (wa_network w)) = ''POLYGON''"
    and new: "cc_movement ch \<notin> cm_id ` set (cd_movements s)"
    and row: "hr_txHash row = Some h"
    and m: "m = deposit_candidate ch w h (int n) th acc" "h \<noteq> []" "0 < n"
      "deposit_key w h \<notin> cm_idempotencyKey ` set (cd_movements s)"
    and p: "post sha rnd (cc_ledger ch) True (deposit_posting u h n i) (cd_ledger s) = (Inr res, L)"
    and t: "cd_movements t = cd_movements s @ [m]" "cd_evidence t = cd_evidence s" "cd_ledger t = L"
      "cd_history t = cd_history s @ [row]"
  shows "custody_inv t \<and> custody_evolves s t"
proof -
  have key: "cm_idempotencyKey m = deposit_row_key h"
    using m(1) h(1) w by (simp add: deposit_candidate_def deposit_key_def deposit_row_key_def)
  have pk: "pp_idempotencyKey (deposit_posting u h n i) = provisional_prefix @ h"
    by (simp add: deposit_posting_def provisional_prefix_def Let_def)
  have unbooked: "\<not> booked_key (provisional_prefix @ h) (cd_ledger s)"
    using inv h(2) by (auto simp: custody_inv_def keys_follow_movements_def)
  have keys: "booked_key k L \<longleftrightarrow> booked_key k (cd_ledger s) \<or> k = provisional_prefix @ h" for k
    using lp.book_key [OF p] pk by simp
  have net: "account_net c L = account_net c (cd_ledger s) + posting_moves rnd (deposit_posting u h n i) c" for c
    using lp.book_net [OF p] unbooked pk by simp
  have moves: "posting_moves rnd (deposit_posting u h n i) c =
      (if c = ''clearing:custody:unverified:usdc'' then 100 * int n else 0) - (if c = user_liability_code u then 100 * int n else 0)" for c
  proof -
    have ed: "toExactDecimal (JStr (decimalStringFromBaseUnits (int n) 6)) = Inr (n * 100)"
      using stored_text_ledger [of 6 n] by simp
    have lines: "pp_lines (deposit_posting u h n i) =
      [\<lparr>li_account = ''clearing:custody:unverified:usdc'', li_debit = JStr (decimalStringFromBaseUnits (int n) 6), li_credit = JNull\<rparr>,
       \<lparr>li_account = user_liability_code u, li_debit = JNull, li_credit = JStr (decimalStringFromBaseUnits (int n) 6)\<rparr>]"
      by (simp add: deposit_posting_def Let_def)
    show ?thesis using transfer_moves [OF p lines ed, of c] by auto
  qed
  have "nets_follow_movements (cd_movements t) L"
    using inv m(1)
    by (simp add: custody_inv_def nets_follow_movements_def net moves t(1) staged_def deposit_candidate_def user_liability_code_def)
  moreover have "keys_follow_movements t"
  proof -
    have old: "keys_follow_movements s" using inv by (simp add: custody_inv_def)
    have "find_by cm_id j (cd_movements s) = Some x \<Longrightarrow> find_by cm_id j (cd_movements t) = Some x" for j x by (simp add: t)
    moreover have "hashes t = insert (Some h) (hashes s)" by (simp add: hashes_def t row)
    moreover have "cm_idempotencyKey ` set (cd_movements t) = insert (deposit_row_key h) (cm_idempotencyKey ` set (cd_movements s))"
      by (simp add: t key)
    ultimately show ?thesis
      using old h(1) row unfolding keys_follow_movements_def by (auto 4 3 simp: t(3,4) keys)
  qed
  moreover have "deposit_ok t x" if "x \<in> set (cd_movements t)" "cm_kind x = DEPOSIT_IN" for x
  proof (cases "x = m")
    case True
    then show ?thesis
      using m key h(1) row
      by (auto simp: deposit_ok_def hashes_def t keys deposit_candidate_def)
  next
    case False
    then have "deposit_ok s x" using that inv by (auto simp: t custody_inv_def)
    then show ?thesis by (auto simp: deposit_ok_def hashes_def t keys)
  qed
  moreover have "tables_distinct t"
    using inv new m(4) key h(1) w m(1)
    by (auto simp: custody_inv_def tables_distinct_def t deposit_candidate_def deposit_key_def deposit_row_key_def)
  moreover have "executions_keyed (cd_movements t)"
    using inv m(1) by (simp add: custody_inv_def executions_keyed_def t deposit_candidate_def)
  ultimately show ?thesis
    using inv post_classified [OF p] by (simp add: custody_inv_def custody_evolves_def t rows_evolve_append)
qed


lemma deposit_key_new:
  assumes inv: "custody_inv s" and h: "js_lower h = h" "Some h \<notin> hashes s"
    and w: "js_upper (or_default ''POLYGON'' (wa_network w)) = ''POLYGON''"
  shows "deposit_key w h \<notin> cm_idempotencyKey ` set (cd_movements s)"
proof
  assume "deposit_key w h \<in> cm_idempotencyKey ` set (cd_movements s)"
  then obtain m where m: "m \<in> set (cd_movements s)" and k: "cm_idempotencyKey m = deposit_row_key h"
    using h(1) w by (auto simp: deposit_key_def deposit_row_key_def)
  have "cm_kind m = DEPOSIT_IN"
    using inv m k by (auto simp: custody_inv_def executions_keyed_def deposit_row_key_def)
  then have "deposit_ok s m" using inv m by (simp add: custody_inv_def)
  with k h(2) show False by (auto simp: deposit_ok_def deposit_row_key_def)
qed

lemma credit_tx_keeps:
  assumes inv: "custody_inv s" and h: "js_lower h = h"
    and w: "js_upper (or_default ''POLYGON'' (wa_network w)) = ''POLYGON''"
    and new: "cc_movement ch \<notin> cm_id ` set (cd_movements s)"
    and tx: "credit_tx sha rnd ch u w h a n s = (Inr row, s')"
  shows "custody_inv s' \<and> custody_evolves s s'"
proof -
  let ?row = "deposit_history ch u a h"
  obtain s1 m b s2 where s1: "cd_movements s1 = cd_movements s" "cd_evidence s1 = cd_evidence s" "cd_ledger s1 = cd_ledger s"
      "cd_history s1 = cd_history s @ [?row]" and fresh: "Some h \<notin> hashes s"
    and c: "recordDepositCandidate ch w h (int n) (Some (hr_id ?row)) s1 = (Inr (m, b), s2)"
    and p: "post_custody sha rnd ch (deposit_posting u h n (hr_id ?row)) s2 = (Inr (), s')"
    using tx
    by (auto simp: credit_tx_def Let_def and_then_Inr hashes_def split: option.splits if_splits
        intro!: that [of "s\<lparr>cd_users := _, cd_masterCrypto := _, cd_hotWallet := _, cd_history := _\<rparr>"])
  obtain res L where post: "post sha rnd (cc_ledger ch) True (deposit_posting u h n (hr_id ?row)) (cd_ledger s2) = (Inr res, L)"
    and s': "s' = s2\<lparr>cd_ledger := L\<rparr>"
    using p by (auto simp: post_custody_def split: prod.splits sum.splits)
  note k = deposit_key_new [OF inv h fresh w]
  from c show ?thesis
  proof (cases rule: recordDepositCandidate_cases)
    case known
    then show ?thesis using k s1(1) by (force dest: find_by_Some)
  next
    case (added acc t)
    have t: "cd_movements s2 = cd_movements s @ [m]" "cd_evidence s2 = cd_evidence s" "cd_ledger s2 = cd_ledger s"
      "cd_history s2 = cd_history s @ [?row]"
      using added(2,7) s1 by (simp_all add: same_books_def)
    have post': "post sha rnd (cc_ledger ch) True (deposit_posting u h n (hr_id ?row)) (cd_ledger s) = (Inr res, L)"
      using post t(3) by simp
    show ?thesis
      by (rule deposit_keeps [OF inv h fresh w new _ added(3,4) _ k post', of ?row])
        (use added(5) t s' in \<open>simp_all add: deposit_history_def\<close>)
  qed
qed

text \<open>The registry row that owns a deposit is on the canonical network.\<close>

lemma resolveOwner_network: "resolveOwner a ''POLYGON'' s = Some (u, Some w) \<Longrightarrow> wa_network w = js_upper ''POLYGON''"
  by (auto simp: resolveOwner_def Let_def find_Some_iff split: if_splits option.splits)

lemma upper_POLYGON [simp]: "js_upper ''POLYGON'' = ''POLYGON''"
  by (simp add: js_upper_def upper_char_def)

lemma webhook_keeps:
  assumes v: "tatumCryptoWebhook sha rnd fl env ch sig b s = (r, s')"
    and inv: "custody_inv s" "custody_inv (env s)" "custody_evolves s (env s)"
    and h: "\<And>h. or_else (wb_txId b) (wb_txHash b) = Some h \<Longrightarrow> js_lower h = h"
    and new: "cc_movement ch \<notin> cm_id ` set (cd_movements (env s))"
  shows "custody_inv s' \<and> custody_evolves s s'"
proof (cases "s' = s")
  case True
  with inv show ?thesis by simp
next
  case False
  then obtain h u w where hh: "or_else (wb_txId b) (wb_txHash b) = Some h"
    and ow: "resolveOwner (js_trim (js_lower (or_empty (wb_address b)))) ''POLYGON'' s = Some (u, Some w)"
    and tx: "s' = env s \<or> (\<exists>a n row. credit_tx sha rnd ch u w h a n (env s) = (Inr row, s'))"
    using v
    by (auto simp: tatumCryptoWebhook_def Let_def transaction_Inl split: option.splits if_splits sum.splits prod.splits) blast+
  have w: "js_upper (or_default ''POLYGON'' (wa_network w)) = ''POLYGON''"
    using resolveOwner_network [OF ow] by (simp add: or_default_def)
  have "custody_inv s' \<and> custody_evolves (env s) s'"
    using tx inv(2) credit_tx_keeps [OF inv(2) h [OF hh] w new] by auto
  then show ?thesis using custody_evolves_trans [OF inv(3)] by blast
qed


section \<open>Balance observations\<close>

lemma evidence_keeps:
  assumes inv: "custody_inv s" and "distinct (map ce_id es)" and "one_active_balance es"
    and "balance_evolves (cd_evidence s) es" and "\<And>m. evidenced (cd_evidence s) m \<Longrightarrow> evidenced es m"
  shows "custody_inv (s\<lparr>cd_evidence := es\<rparr>) \<and> custody_evolves s (s\<lparr>cd_evidence := es\<rparr>)"
  using assms
  by (auto simp: custody_inv_def tables_distinct_def keys_follow_movements_def deposit_ok_def hashes_def
      custody_evolves_def rows_evolve_refl)

lemma append_evidence_keeps:
  assumes inv: "custody_inv s" and "ce_id x \<notin> ce_id ` set (cd_evidence s)" and "\<And>acc. \<not> active_balance_row acc x"
  shows "custody_inv (s\<lparr>cd_evidence := cd_evidence s @ [x]\<rparr>) \<and> custody_evolves s (s\<lparr>cd_evidence := cd_evidence s @ [x]\<rparr>)"
proof (rule evidence_keeps [OF inv])
  show "evidenced (cd_evidence s @ [x]) m" if "evidenced (cd_evidence s) m" for m
    by (rule evidenced_mono [OF that]) auto
qed (use assms inactive_append [of "[x]" "cd_evidence s"] in \<open>simp_all add: custody_inv_def tables_distinct_def\<close>)

lemma active_balance_count:
  "active_balance acc es = None \<longleftrightarrow> count_by (active_balance_row acc) es = 0"
  by (induction es) (auto simp: active_balance_def)

lemma active_balance_Some: "active_balance acc es = Some x \<Longrightarrow> x \<in> set es \<and> active_balance_row acc x"
  by (induction es) (auto simp: active_balance_def split: if_splits)

lemma active_row_account: "active_balance_row acc x \<Longrightarrow> active_balance_row acc' x \<Longrightarrow> acc' = acc"
  by (auto simp: active_balance_row_def)

text \<open>Superseding the accepted row of one account.\<close>

lemma supersede_rows:
  fixes i :: string and acc' :: string
  assumes "distinct (map ce_id es)" and "count_by (active_balance_row acc) es \<le> 1"
    and "active_balance acc es = Some x"
  defines "fs \<equiv> update_by (\<lambda>y. ce_id y = ce_id x) (supersede i) es"
  shows "count_by (active_balance_row acc) fs = 0"
    and "acc' \<noteq> acc \<Longrightarrow> count_by (active_balance_row acc') fs = count_by (active_balance_row acc') es"
    and "acc' \<noteq> acc \<Longrightarrow> active_balance acc' fs = active_balance acc' es"
proof -
  have "count_by (active_balance_row acc) fs = 0 \<and>
    (acc' \<noteq> acc \<longrightarrow> count_by (active_balance_row acc') fs = count_by (active_balance_row acc') es \<and>
       active_balance acc' fs = active_balance acc' es)"
    using assms(1-3) unfolding fs_def
  proof (induction es)
    case (Cons y es)
    show ?case
    proof (cases "active_balance_row acc y")
      case True
      then have x: "x = y" using Cons.prems(3) by (simp add: active_balance_def)
      have "update_by (\<lambda>z. ce_id z = ce_id x) (supersede i) es = es"
        using Cons.prems(1) x by (intro update_by_none) (auto simp: image_iff)
      moreover have "count_by (active_balance_row acc) es = 0" using Cons.prems(2) True by simp
      moreover have "\<not> active_balance_row a (supersede i y)" for a by (simp add: active_balance_row_def supersede_def)
      moreover have "acc' \<noteq> acc \<Longrightarrow> \<not> active_balance_row acc' y" using active_row_account [OF True] by blast
      ultimately show ?thesis by (auto simp: x active_balance_def)
    next
      case False
      then have a: "active_balance acc es = Some x" using Cons.prems(3) by (simp add: active_balance_def)
      have "ce_id y \<noteq> ce_id x" using active_balance_Some [OF a] Cons.prems(1) by force
      then show ?thesis using Cons a False by (auto simp: active_balance_def)
    qed
  qed (simp add: active_balance_def)
  then show "count_by (active_balance_row acc) fs = 0"
    and "acc' \<noteq> acc \<Longrightarrow> count_by (active_balance_row acc') fs = count_by (active_balance_row acc') es"
    and "acc' \<noteq> acc \<Longrightarrow> active_balance acc' fs = active_balance acc' es" by blast+
qed

lemma evidenced_supersede: "evidenced es m \<Longrightarrow> evidenced (update_by P (supersede i) es @ xs) m"
proof -
  assume "evidenced es m"
  then obtain x where x: "x \<in> set es" "cm_evidenceId m = Some (ce_id x) \<and> ce_scope x = TRANSACTION \<and> ce_source x = SOURCE_TX \<and>
        ce_amountBaseUnits x = Some (nat (cm_amountBaseUnits m)) \<and> ce_txHash x = cm_txHash m"
    by (auto simp: evidenced_def)
  let ?y = "if P x then supersede i x else x"
  have "?y \<in> set (update_by P (supersede i) es)" using x(1) by (simp add: set_update_by)
  moreover have "cm_evidenceId m = Some (ce_id ?y) \<and> ce_scope ?y = TRANSACTION \<and> ce_source ?y = SOURCE_TX \<and>
        ce_amountBaseUnits ?y = Some (nat (cm_amountBaseUnits m)) \<and> ce_txHash ?y = cm_txHash m"
    using x(2) by (simp add: supersede_def)
  ultimately show ?thesis unfolding evidenced_def set_append by blast
qed

lemma fresh_balance_keeps:
  assumes inv: "custody_inv s" and x: "active_balance_row acc x" "ce_id x \<notin> ce_id ` set (cd_evidence s)"
    and es: "map ce_id es = map ce_id (cd_evidence s)" "count_by (active_balance_row acc) es = 0"
      "\<And>a. a \<noteq> acc \<Longrightarrow> count_by (active_balance_row a) es = count_by (active_balance_row a) (cd_evidence s)"
      "\<And>a. a \<noteq> acc \<Longrightarrow> active_balance a es = active_balance a (cd_evidence s)"
      "\<And>y. active_balance acc (cd_evidence s) = Some y \<Longrightarrow> ce_observedAt y \<le> ce_observedAt x"
      "\<And>m. evidenced (cd_evidence s) m \<Longrightarrow> evidenced (es @ [x]) m"
  shows "custody_inv (s\<lparr>cd_evidence := es @ [x]\<rparr>) \<and> custody_evolves s (s\<lparr>cd_evidence := es @ [x]\<rparr>)"
proof (rule evidence_keeps [OF inv])
  have "x \<notin> set es" using x(2) es(1) by (metis image_eqI list.set_map)
  show "distinct (map ce_id (es @ [x]))"
    using inv x(2) es(1) by (metis (no_types, lifting) custody_inv_def distinct_append distinct_singleton
        disjoint_insert(1) empty_set inf_bot_right list.simps(15) list.simps(8) list.simps(9) list.set_map map_append tables_distinct_def)
  show "one_active_balance (es @ [x])"
    unfolding one_active_balance_def
  proof
    fix a
    have "count_by (active_balance_row a) (cd_evidence s) \<le> 1"
      using inv by (simp add: custody_inv_def one_active_balance_def)
    then show "count_by (active_balance_row a) (es @ [x]) \<le> 1"
      using es(2,3) x(1) active_row_account by (cases "a = acc") auto
  qed
  show "balance_evolves (cd_evidence s) (es @ [x])"
    unfolding balance_evolves_def
  proof (intro allI impI)
    fix a y assume y: "active_balance a (cd_evidence s) = Some y"
    show "\<exists>z. active_balance a (es @ [x]) = Some z \<and> ce_observedAt y \<le> ce_observedAt z"
    proof (cases "a = acc")
      case True
      have "active_balance acc es = None" using es(2) active_balance_count by simp
      then show ?thesis using True x(1) es(5) y by (simp add: active_balance_def find_append)
    next
      case False
      then show ?thesis using es(4) y by (simp add: active_balance_def find_append)
    qed
  qed
qed (use es(6) in simp)

lemma observe_tx_keeps:
  assumes inv: "custody_inv s" and new: "cc_evidence ch \<notin> ce_id ` set (cd_evidence s)"
    and tx: "observe_tx ch account obs s = (Inr r, s')"
  shows "custody_inv s' \<and> custody_evolves s s'"
proof -
  let ?x = "balance_evidence ch account (bo_source obs) obs EV_ACTIVE None"
  have x: "active_balance_row (cu_id account) ?x" "ce_id ?x \<notin> ce_id ` set (cd_evidence s)"
    using new by (simp_all add: active_balance_row_def balance_evidence_def)
  have d: "distinct (map ce_id (cd_evidence s))" "count_by (active_balance_row (cu_id account)) (cd_evidence s) \<le> 1"
    using inv by (simp_all add: custody_inv_def tables_distinct_def one_active_balance_def)
  show ?thesis
  proof (cases "active_balance (cu_id account) (cd_evidence s)")
    case None
    then have "s' = s\<lparr>cd_evidence := cd_evidence s @ [?x]\<rparr>"
      using tx by (auto simp: observe_tx_def Let_def split: if_splits)
    moreover have "custody_inv (s\<lparr>cd_evidence := cd_evidence s @ [?x]\<rparr>) \<and>
      custody_evolves s (s\<lparr>cd_evidence := cd_evidence s @ [?x]\<rparr>)"
    proof (rule fresh_balance_keeps [OF inv x])
      show "evidenced (cd_evidence s @ [?x]) m" if "evidenced (cd_evidence s) m" for m
        by (rule evidenced_mono [OF that]) auto
    qed (use None active_balance_count in simp_all)
    ultimately show ?thesis by simp
  next
    case (Some cur)
    let ?es = "update_by (\<lambda>y. ce_id y = ce_id cur) (supersede (ce_id ?x)) (cd_evidence s)"
    let ?rejected = "balance_evidence ch account (bo_source obs) obs EV_REJECTED (Some ''OUT_OF_ORDER_OBSERVATION'')"
    from tx Some consider "s' = s" | "s' = s\<lparr>cd_evidence := cd_evidence s @ [?rejected]\<rparr>"
      | "s' = s\<lparr>cd_evidence := ?es @ [?x]\<rparr>" "ce_observedAt cur \<le> bo_observedAt obs"
      by (auto simp: observe_tx_def Let_def split: if_splits)
    then show ?thesis
    proof cases
      case 1
      with inv show ?thesis by simp
    next
      case 2
      with append_evidence_keeps [OF inv, of ?rejected] new show ?thesis
        by (simp add: balance_evidence_def active_balance_row_def)
    next
      case 3
      note sr = supersede_rows [OF d Some]
      have ids: "map ce_id ?es = map ce_id (cd_evidence s)" by (simp add: supersede_def)
      have "custody_inv (s\<lparr>cd_evidence := ?es @ [?x]\<rparr>) \<and> custody_evolves s (s\<lparr>cd_evidence := ?es @ [?x]\<rparr>)"
        by (rule fresh_balance_keeps [OF inv x ids sr])
          (use Some 3(2) evidenced_supersede in \<open>auto simp: balance_evidence_def\<close>)
      then show ?thesis by (simp only: 3(1))
    qed
  qed
qed

lemma observeAccountBalance_keeps:
  assumes v: "observeAccountBalance env id ch source get account s = (r, s')"
    and inv: "custody_inv s" "custody_inv (env s)" "custody_evolves s (env s)"
    and new: "cc_evidence ch \<notin> ce_id ` set (cd_evidence (env s))"
  shows "custody_inv s' \<and> custody_evolves s s'"
proof -
  consider "s' = s" | "s' = env s"
    | src obs where "s' = (env s)\<lparr>cd_evidence := cd_evidence (env s) @
        [balance_evidence ch account src obs EV_REJECTED (Some ''NETWORK_SCOPE_MISMATCH'')]\<rparr>"
    | obs x where "observe_tx ch account obs (env s) = (Inr x, s')"
    using v
    by (auto simp: observeAccountBalance_def Let_def transaction_Inl split: if_splits sum.splits prod.splits option.splits)
  then have "s' = s \<or> custody_inv s' \<and> custody_evolves (env s) s'"
  proof cases
    case (3 src obs)
    then show ?thesis
      using append_evidence_keeps [OF inv(2), of "balance_evidence ch account src obs EV_REJECTED (Some ''NETWORK_SCOPE_MISMATCH'')"] new
      by (simp add: balance_evidence_def active_balance_row_def)
  next
    case (4 obs x)
    then show ?thesis using observe_tx_keeps [OF inv(2) new] by blast
  qed (use inv in simp_all)
  then show ?thesis using inv custody_evolves_trans [OF inv(3)] by auto
qed

section \<open>Historical candidates\<close>

lemma build_candidates_idle:
  assumes "\<And>h. h \<in> set hs \<Longrightarrow> ''deposit:POLYGON:'' @ js_lower (or_empty (hr_txHash h)) \<in> cm_idempotencyKey ` set (cd_movements s)"
  shows "build_candidates ch limit hs n s = (Inr n, s)"
  using assms by (induction hs arbitrary: n) auto

lemma buildDepositCandidates_idle:
  assumes "custody_inv s"
  shows "buildDepositCandidatesFromHistory ch limit s = (Inr 0, s)"
  unfolding buildDepositCandidatesFromHistory_def
proof (rule build_candidates_idle)
  fix h
  assume "h \<in> set (take (limit * 2) (filter (\<lambda>h. hr_type h = ''DEPOSIT_CRYPTO'' \<and> hr_status h = ''COMPLETED'' \<and> hr_txHash h \<noteq> None) (cd_history s)))"
  then have "h \<in> set (cd_history s)" "hr_type h = ''DEPOSIT_CRYPTO''" "hr_txHash h \<noteq> None"
    by (auto dest: in_set_takeD)
  then show "''deposit:POLYGON:'' @ js_lower (or_empty (hr_txHash h)) \<in> cm_idempotencyKey ` set (cd_movements s)"
    using assms by (auto simp: custody_inv_def keys_follow_movements_def deposit_row_key_def or_empty_def)
qed

section \<open>Histories of the custody books\<close>

datatype custody_call =
    Webhook float_path custody_choice signature_check webhook
  | Verify custody_choice string "string \<Rightarrow> string \<Rightarrow> nat \<Rightarrow> evidence_error + tx_obs" string
  | Execution custody_choice custody_execution string
  | BuildCandidates "string \<Rightarrow> custody_choice" nat
  | Observe custody_choice string "string \<Rightarrow> string \<Rightarrow> string \<Rightarrow> evidence_error + balance_obs" custody_account
  | Sync "string option"
  | ForeignPosting db_choice post_params
  | Elsewhere "custody_db \<Rightarrow> custody_db"

text \<open>A write of another service leaves the books alone, keeps the hashes of the history and adds no
  crypto deposit to it.\<close>

definition crypto_deposits :: "custody_db \<Rightarrow> history_row list" where
  "crypto_deposits s = filter (\<lambda>h. hr_type h = ''DEPOSIT_CRYPTO'' \<and> hr_txHash h \<noteq> None) (cd_history s)"

definition elsewhere :: "custody_db \<Rightarrow> custody_db \<Rightarrow> bool" where
  "elsewhere s t \<longleftrightarrow>
     cd_movements t = cd_movements s \<and> cd_evidence t = cd_evidence s \<and> cd_ledger t = cd_ledger s \<and>
     hashes s \<subseteq> hashes t \<and> hr_txHash ` set (crypto_deposits t) \<subseteq> hr_txHash ` set (crypto_deposits s)"

definition lower_case_hash :: "webhook \<Rightarrow> bool" where
  "lower_case_hash b \<longleftrightarrow> (case or_else (wb_txId b) (wb_txHash b) of None \<Rightarrow> True | Some h \<Rightarrow> js_lower h = h)"

definition fresh_ids :: "custody_choice \<Rightarrow> custody_db \<Rightarrow> bool" where
  "fresh_ids ch s \<longleftrightarrow>
     cc_movement ch \<notin> cm_id ` set (cd_movements s) \<and> cc_evidence ch \<notin> ce_id ` set (cd_evidence s)"

fun custody_effect ::
  "(string \<Rightarrow> string) \<Rightarrow> (int \<Rightarrow> int) \<Rightarrow> (custody_db \<Rightarrow> custody_db) \<Rightarrow> custody_call \<Rightarrow> custody_db \<Rightarrow> custody_db" where
  "custody_effect sha rnd env (Webhook fl ch sig b) s =
     (if lower_case_hash b \<and> fresh_ids ch (env s) then snd (tatumCryptoWebhook sha rnd fl env ch sig b s) else s)"
| "custody_effect sha rnd env (Verify ch source get i) s =
     (if fresh_ids ch (env s) then snd (verifyDepositMovement sha rnd env ch source get i s) else s)"
| "custody_effect sha rnd env (Execution ch x hot) s =
     (if fresh_ids ch s then snd (transaction id (recordExecutionMovement ch x hot) s) else s)"
| "custody_effect sha rnd env (BuildCandidates ch limit) s = snd (buildDepositCandidatesFromHistory ch limit s)"
| "custody_effect sha rnd env (Observe ch source get account) s =
     (if fresh_ids ch (env s) then snd (observeAccountBalance env id ch source get account s) else s)"
| "custody_effect sha rnd env (Sync hot) s = snd (syncAndListEligibleAccounts hot s)"
| "custody_effect sha rnd env (ForeignPosting ch p) s =
     (case post sha rnd ch True p (cd_ledger s) of
        (Inr _, L) \<Rightarrow> if foreign_posting p then s\<lparr>cd_ledger := L\<rparr> else s
      | (Inl _, L) \<Rightarrow> s)"
| "custody_effect sha rnd env (Elsewhere f) s = (if elsewhere s (f s) then f s else s)"

definition custody_exec ::
  "(string \<Rightarrow> string) \<Rightarrow> (int \<Rightarrow> int) \<Rightarrow> (custody_db \<Rightarrow> custody_db) \<Rightarrow> custody_call \<Rightarrow> custody_db \<Rightarrow> unit \<times> custody_db" where
  "custody_exec sha rnd env c s = ((), custody_effect sha rnd env c s)"

lemma elsewhere_keeps:
  assumes "custody_inv s" and e: "elsewhere s t"
  shows "custody_inv t \<and> custody_evolves s t"
proof -
  have same: "cd_movements t = cd_movements s" "cd_evidence t = cd_evidence s" "cd_ledger t = cd_ledger s"
    and h: "hashes s \<subseteq> hashes t" using e by (simp_all add: elsewhere_def)
  have d: "deposit_row_key (js_lower x) \<in> cm_idempotencyKey ` set (cd_movements s)"
    if r: "r \<in> set (cd_history t)" "hr_type r = ''DEPOSIT_CRYPTO''" "hr_txHash r = Some x" for r x
  proof -
    have "Some x \<in> hr_txHash ` set (crypto_deposits t)" using r by (force simp: crypto_deposits_def)
    then have "Some x \<in> hr_txHash ` set (crypto_deposits s)" using e by (auto simp: elsewhere_def)
    then show ?thesis using assms(1) by (auto simp: crypto_deposits_def custody_inv_def keys_follow_movements_def)
  qed
  have "keys_follow_movements s" and ok: "\<And>m. m \<in> set (cd_movements s) \<Longrightarrow> cm_kind m = DEPOSIT_IN \<Longrightarrow> deposit_ok s m"
    using assms(1) by (simp_all add: custody_inv_def)
  then have "keys_follow_movements t" using h d by (auto simp: keys_follow_movements_def same)
  moreover have "deposit_ok t m" if "m \<in> set (cd_movements s)" "cm_kind m = DEPOSIT_IN" for m
    using ok [OF that] h by (auto simp: deposit_ok_def same)
  ultimately show ?thesis
    using assms(1) by (simp add: custody_inv_def tables_distinct_def same custody_evolves_def rows_evolve_refl)
qed

interpretation cb: interleaved_service "custody_exec sha rnd" custody_inv custody_evolves
proof
  fix env c s r s'
  assume ex: "custody_exec sha rnd env c s = (r, s')" and inv: "custody_inv s" "custody_inv (env s)" "custody_evolves s (env s)"
  have s': "s' = custody_effect sha rnd env c s" using ex by (simp add: custody_exec_def)
  show "custody_inv s' \<and> custody_evolves s s'"
  proof (cases c)
    case (Webhook fl ch sig b)
    then show ?thesis
      using s' inv webhook_keeps [where env = env, OF prod.collapse [symmetric] inv, where sha = sha and rnd = rnd and fl = fl and ch = ch and sig = sig and b = b]
      by (simp add: fresh_ids_def lower_case_hash_def split: option.splits)
  next
    case (Verify ch source get i)
    then show ?thesis
      using s' inv verifyDepositMovement_keeps [where env = env, OF prod.collapse [symmetric] inv, where sha = sha and rnd = rnd and ch = ch and source = source and get = get and i = i]
      by (auto simp: fresh_ids_def)
  next
    case (Execution ch x hot)
    obtain y t where y: "recordExecutionMovement ch x hot s = (y, t)" by fastforce
    show ?thesis
      using Execution s' inv(1) y recordExecutionMovement_keeps [OF inv(1), of ch x hot]
      by (cases y) (auto simp: fresh_ids_def transaction_def)
  next
    case (BuildCandidates ch limit)
    then show ?thesis using s' inv(1) buildDepositCandidates_idle by simp
  next
    case (Observe ch source get account)
    then show ?thesis
      using s' inv observeAccountBalance_keeps [where env = env, OF prod.collapse [symmetric] inv, where ch = ch and source = source and get = get and account = account]
      by (auto simp: fresh_ids_def)
  next
    case (Sync hot)
    then show ?thesis
      using same_books_keeps [OF sync_accounts_books [OF prod.collapse [symmetric]] inv(1)] s'
      by (simp add: syncAndListEligibleAccounts_def)
  next
    case (ForeignPosting ch p)
    then show ?thesis
      using s' inv(1) foreign_post_keeps [of sha rnd ch p s]
      by (auto split: prod.splits sum.splits)
  next
    case (Elsewhere f)
    then show ?thesis using s' inv(1) elsewhere_keeps by simp
  qed
qed (use custody_evolves_trans in auto)

end
