(* ===== verification/Custody_Outcome.thy ===== *)
theory Custody_Outcome
  imports Custody_Books
begin

text \<open>
  What the custody books guarantee in every canonical history, and that the two transactions that move a
  deposit forward succeed when nothing stands against them: a credited webhook is booked, and a
  candidate with matching evidence is verified. A concrete history carries the examples.
\<close>

section \<open>Acceptance of the custody postings\<close>

lemma custody_classified:
  "classifyAccountCode ''custody:deposit:usdc'' = Inr (CANONICAL, spec_of ASSET DEBIT ''USDC'' (Some ''POLYGON''))"
  "classifyAccountCode ''clearing:custody:unverified:usdc'' = Inr (CANONICAL, spec_of CLEARING DEBIT ''USDC'' (Some ''POLYGON''))"
  "classifyAccountCode ''clearing:custody:rejected:usdc'' = Inr (CANONICAL, spec_of CLEARING DEBIT ''USDC'' (Some ''POLYGON''))"
  by (simp_all add: classifyAccountCode_def CANONICAL_ACCOUNTS_def user_account_match_def escrow_account_match_def between_def)

lemma custody_assets [simp]:
  "asset_of ''custody:deposit:usdc'' = Inr ''USDC''"
  "asset_of ''clearing:custody:unverified:usdc'' = Inr ''USDC''"
  "asset_of ''clearing:custody:rejected:usdc'' = Inr ''USDC''"
  by (simp_all add: asset_of_def custody_classified spec_of_def)

definition postable :: "(int \<Rightarrow> int) \<Rightarrow> nat \<Rightarrow> db_choice \<Rightarrow> string \<Rightarrow> ledger \<Rightarrow> bool" where
  "postable rnd n ch key L \<longleftrightarrow>
     0 < n \<and> n < 10 ^ 18 \<and> decimal_exact rnd \<and> undisturbed ch \<and> accounts_classified L \<and> length key \<le> 140 \<and> \<not> booked_key key L"

lemma custody_transfer_accepted:
  assumes ok: "postable rnd n ch (pp_idempotencyKey p) L"
    and "check_header p = None" and "pp_conversion p = None" and "pp_entryType p \<noteq> ''ASSET_CONVERSION''"
    and "pp_lines p = [\<lparr>li_account = a, li_debit = v, li_credit = JNull\<rparr>, \<lparr>li_account = b, li_debit = JNull, li_credit = v\<rparr>]"
    and "v = JStr (decimalStringFromBaseUnits (int n) 6)" and "asset_of a = Inr ''USDC''" "asset_of b = Inr ''USDC''"
  obtains res L' where "post sha rnd ch True p L = (Inr res, L')"
proof (rule transfer_accepted [where rnd = rnd and n = "n * 100" and p = p, OF assms(2-5)])
  show "toExactDecimal v = Inr (n * 100)" using stored_text_ledger [of 6 n] assms(6) by simp
  show "v \<noteq> JNull" using assms(6) by simp
  show "rnd 0 = 0" "rnd (int (n * 100)) = int (n * 100)"
    using ok by (auto simp: postable_def decimal_exact_def)
qed (use assms that in \<open>auto simp: postable_def\<close>)

lemma verification_accepted:
  assumes "postable rnd (nat (cm_amountBaseUnits m)) ch (verify_prefix @ cm_id m) L" and "cm_decimals m = 6"
  obtains res L' where "post sha rnd ch True (verification_posting m h) L = (Inr res, L')"
proof -
  have a: "int (nat (cm_amountBaseUnits m)) = cm_amountBaseUnits m" using assms(1) by (simp add: postable_def)
  show thesis
    by (rule custody_transfer_accepted [where p = "verification_posting m h" and n = "nat (cm_amountBaseUnits m)"
          and rnd = rnd and ch = ch and L = L and a = "''custody:deposit:usdc''" and b = "''clearing:custody:unverified:usdc''"
          and v = "JStr (decimalStringFromBaseUnits (cm_amountBaseUnits m) 6)"])
      (use assms a that in \<open>simp_all add: verification_posting_def custody_posting_def movement_decimals_def Let_def
         verify_prefix_def check_header_def ENTRY_TYPES_def js_trim_def js_space_def postable_def\<close>)
qed

lemma rejection_accepted:
  assumes "postable rnd (nat (cm_amountBaseUnits m)) ch (reject_prefix @ cm_id m) L" and "cm_decimals m = 6"
  obtains res L' where "post sha rnd ch True (rejection_posting m h) L = (Inr res, L')"
proof -
  have a: "int (nat (cm_amountBaseUnits m)) = cm_amountBaseUnits m" using assms(1) by (simp add: postable_def)
  show thesis
    by (rule custody_transfer_accepted [where p = "rejection_posting m h" and n = "nat (cm_amountBaseUnits m)"
          and rnd = rnd and ch = ch and L = L and a = "''clearing:custody:rejected:usdc''" and b = "''clearing:custody:unverified:usdc''"
          and v = "JStr (decimalStringFromBaseUnits (cm_amountBaseUnits m) 6)"])
      (use assms a that in \<open>simp_all add: rejection_posting_def custody_posting_def movement_decimals_def Let_def
         reject_prefix_def check_header_def ENTRY_TYPES_def js_trim_def js_space_def postable_def\<close>)
qed

lemma deposit_accepted:
  assumes "postable rnd n ch (provisional_prefix @ h) L" and "length (user_liability_code u) \<le> 80"
  obtains res L' where "post sha rnd ch True (deposit_posting u h n i) L = (Inr res, L')"
  by (rule custody_transfer_accepted [where p = "deposit_posting u h n i" and n = n and rnd = rnd and ch = ch and L = L
        and a = "''clearing:custody:unverified:usdc''" and b = "user_liability_code u"
        and v = "JStr (decimalStringFromBaseUnits (int n) 6)"])
    (use assms that in \<open>simp_all add: deposit_posting_def Let_def provisional_prefix_def check_header_def ENTRY_TYPES_def
       js_trim_def js_space_def postable_def asset_of_def [of "user_liability_code u"] classify_user_liability liability_spec_def spec_of_def\<close>)

section \<open>Opening books\<close>

definition opening_books :: "custody_db \<Rightarrow> bool" where
  "opening_books s \<longleftrightarrow> cd_movements s = [] \<and> cd_evidence s = [] \<and> cd_ledger s = empty_ledger \<and> crypto_deposits s = []"

lemma opening_inv:
  assumes "opening_books s"
  shows "custody_inv s"
proof -
  have "\<not> (hr_type h = ''DEPOSIT_CRYPTO'' \<and> hr_txHash h = Some t)" if "h \<in> set (cd_history s)" for h t
    using assms that by (auto simp: opening_books_def crypto_deposits_def filter_empty_conv)
  then show ?thesis
    using assms
    by (auto simp: opening_books_def custody_inv_def tables_distinct_def executions_keyed_def one_active_balance_def count_by_def
        keys_follow_movements_def nets_follow_movements_def booked_key_def account_net_def empty_ledger_def [symmetric])
      (simp_all add: empty_ledger_def)
qed

lemma staged_sum: "sum_rows (staged st) (cd_movements s) = sum_rows cm_amountBaseUnits (deposits_with st s)"
proof -
  have "sum_rows (staged st) ms = sum_rows cm_amountBaseUnits (filter (\<lambda>m. cm_kind m = DEPOSIT_IN \<and> cm_status m = st) ms)" for ms
    by (induction ms) (auto simp: staged_def)
  then show ?thesis by (simp add: deposits_with_def)
qed

section \<open>Progress of a candidate\<close>

lemma verify_checks_row:
  "verify_checks i s = Inr (m, h, account) \<Longrightarrow>
   find_by cm_id i (cd_movements s) = Some m \<and> cm_kind m = DEPOSIT_IN \<and> is_candidate m \<and> cm_txHash m = Some h"
  by (auto simp: verify_checks_def is_candidate_def or_null_def split: option.splits if_splits)

text \<open>A deposit of reachable books can be settled: its journal exists and its settlement keys are free.\<close>

lemma candidate_postable:
  assumes inv: "custody_inv s" and m: "find_by cm_id i (cd_movements s) = Some m" "cm_kind m = DEPOSIT_IN" "is_candidate m" "cm_txHash m = Some h"
    and "undisturbed ch" and size: "decimal_exact rnd" "cm_amountBaseUnits m < 10 ^ 18" "length i \<le> 118"
  shows "cm_decimals m = 6" and "claims cm_id is_candidate i (cd_movements s) = 1"
    and "\<exists>p. find_by lt_idempotencyKey (provisional_prefix @ h) (txns (cd_ledger s)) = Some p"
    and "postable rnd (nat (cm_amountBaseUnits m)) ch (verify_prefix @ cm_id m) (cd_ledger s)"
    and "postable rnd (nat (cm_amountBaseUnits m)) ch (reject_prefix @ cm_id m) (cd_ledger s)"
proof -
  have i: "cm_id m = i" using m(1) find_by_Some by fastforce
  have d: "distinct (map cm_id (cd_movements s))" using inv by (simp add: custody_inv_def tables_distinct_def)
  have ok: "deposit_ok s m" using inv m find_by_Some by (fastforce simp: custody_inv_def)
  then show "cm_decimals m = 6" by (simp add: deposit_ok_def)
  show "claims cm_id is_candidate i (cd_movements s) = 1"
    using ver.claims_at_most_one [OF d, of i] ver.claims_iff [OF d, of i] m(1,3) by simp
  have "booked_key (provisional_prefix @ h) (cd_ledger s)" using ok m(4) by (auto simp: deposit_ok_def)
  then have "find_by lt_idempotencyKey (provisional_prefix @ h) (txns (cd_ledger s)) \<noteq> None"
    by (simp add: booked_key_def find_by_None)
  then show "\<exists>p. find_by lt_idempotencyKey (provisional_prefix @ h) (txns (cd_ledger s)) = Some p" by auto
  show "postable rnd (nat (cm_amountBaseUnits m)) ch (verify_prefix @ cm_id m) (cd_ledger s)"
    and "postable rnd (nat (cm_amountBaseUnits m)) ch (reject_prefix @ cm_id m) (cd_ledger s)"
    using inv ok assms(6-) m i
    by (auto simp: postable_def custody_inv_def keys_follow_movements_def deposit_ok_def verify_prefix_def reject_prefix_def)
qed

lemma verify_tx_progress:
  assumes inv: "custody_inv s" and m: "find_by cm_id i (cd_movements s) = Some m" "cm_kind m = DEPOSIT_IN" "is_candidate m" "cm_txHash m = Some h"
    and free: "\<not> cc_raced ch" "undisturbed (cc_ledger ch)" "\<not> tx_evidence_taken (cu_id account) h s"
    and size: "decimal_exact rnd" "cm_amountBaseUnits m < 10 ^ 18" "length i \<le> 118"
  obtains n x t where "verify_tx sha rnd ch account m h seen e s = (Inr (Won n x), t)" and "cm_status n = VERIFIED"
    and "find_by cm_id i (cd_movements t) = Some n" and "ce_txHash x = Some h"
proof -
  have i: "cm_id m = i" using m(1) find_by_Some by fastforce
  note c = candidate_postable [OF inv m free(2) size]
  let ?s1 = "claim_movement VERIFIED None i s"
  have L: "cd_ledger ?s1 = cd_ledger s" by (simp add: claim_movement_def)
  obtain prov where prov: "find_by lt_idempotencyKey (provisional_prefix @ h) (txns (cd_ledger s)) = Some prov" using c(3) by blast
  obtain res L where p: "post sha rnd (cc_ledger ch) True (verification_posting m h) (cd_ledger s) = (Inr res, L)"
    by (rule verification_accepted [OF c(4,1)])
  have row: "find_by cm_id i (cd_movements ?s1) = Some (set_status VERIFIED None m)"
    using m(1,3) by (simp add: claim_movement_def ver.claim_find)
  show thesis
    using that c(2) prov p row free
    by (auto simp: verify_tx_def i reclassify_def post_custody_def and_then_def Let_def tx_evidence_taken_def claim_movement_def
        attach_evidence_def find_by_update_by set_status_def transaction_evidence_def)
qed

lemma reject_tx_progress:
  assumes inv: "custody_inv s" and m: "find_by cm_id i (cd_movements s) = Some m" "cm_kind m = DEPOSIT_IN" "is_candidate m" "cm_txHash m = Some h"
    and free: "undisturbed (cc_ledger ch)" and size: "decimal_exact rnd" "cm_amountBaseUnits m < 10 ^ 18" "length i \<le> 118"
  obtains n t where "reject_tx sha rnd ch m h fs s = (Inr False, t)" and "cm_status n = FAILED" and "cm_kind n = DEPOSIT_IN"
    and "find_by cm_id i (cd_movements t) = Some n"
proof -
  have i: "cm_id m = i" using m(1) find_by_Some by fastforce
  note c = candidate_postable [OF inv m free size]
  let ?f = "Some (joined_failures fs)"
  obtain prov where prov: "find_by lt_idempotencyKey (provisional_prefix @ h) (txns (cd_ledger s)) = Some prov" using c(3) by blast
  obtain res L where p: "post sha rnd (cc_ledger ch) True (rejection_posting m h) (cd_ledger s) = (Inr res, L)"
    by (rule rejection_accepted [OF c(5,1)])
  have row: "find_by cm_id i (cd_movements (claim_movement FAILED ?f i s)) = Some (set_status FAILED ?f m)"
    using m(1,3) by (simp add: claim_movement_def rej.claim_find)
  show thesis
    by (rule that [of "(claim_movement FAILED ?f i s)\<lparr>cd_ledger := L\<rparr>" "set_status FAILED ?f m"])
      (use c(2) prov p row m(2) in \<open>simp_all add: reject_tx_def i reclassify_def post_custody_def and_then_def claim_movement_def set_status_def\<close>)
qed

section \<open>Progress of a webhook\<close>

text \<open>The deliveries that pass every check of the handler, with what the checks read.\<close>

definition deliverable ::
  "float_path \<Rightarrow> signature_check \<Rightarrow> webhook \<Rightarrow> custody_db \<Rightarrow> nat \<Rightarrow> wallet_address \<Rightarrow> string \<Rightarrow> nat \<Rightarrow> bool" where
  "deliverable fl sig b s u w h n \<longleftrightarrow>
     check_signature sig = None \<and> js_trim (js_lower (or_empty (wb_address b))) \<noteq> [] \<and>
     or_else (wb_txId b) (wb_txHash b) = Some h \<and> 0 < fl_amount fl (wb_amount b) \<and>
     js_upper (case or_else (wb_asset b) (wb_currency b) of None \<Rightarrow> ''USDC'' | Some a \<Rightarrow> a) = ''USDC'' \<and>
     resolveOwner (js_trim (js_lower (or_empty (wb_address b)))) ''POLYGON'' s = Some (u, Some w) \<and>
     Some h \<notin> hashes s \<and> exactWebhookAmountToBaseUnits (JStr (raw_amount_text (wb_amount b))) 6 = Inr n"

lemma deliverable_webhook:
  assumes "deliverable fl sig b s u w h n"
  shows "tatumCryptoWebhook sha rnd fl env ch sig b s =
    (case transaction id (credit_tx sha rnd ch u w h (fl_credit fl (fl_amount fl (wb_amount b))) n) (env s) of
       (Inl e, s') \<Rightarrow> (InternalError e, s')
     | (Inr r, s') \<Rightarrow> (Confirmed r, s'))"
  using assms by (simp add: deliverable_def tatumCryptoWebhook_def hashes_def Let_def)

lemma ensureDepositAccount_reads:
  "cd_accounts t = cd_accounts s \<Longrightarrow>
   fst (ensureDepositAccount ch w t) = fst (ensureDepositAccount ch w s) \<and>
   cd_accounts (snd (ensureDepositAccount ch w t)) = cd_accounts (snd (ensureDepositAccount ch w s))"
  by (auto simp: ensureDepositAccount_def Let_def split: option.splits)

lemma recordDepositCandidate_progress:
  assumes "fst (ensureDepositAccount ch w s) = Inr account" and "h \<noteq> []" "0 < a" and "\<not> cc_raced ch"
  obtains m new t where "recordDepositCandidate ch w h a th s = (Inr (m, new), t)" and "cd_users t = cd_users s"
    and "cd_history t = cd_history s" and "cd_ledger t = cd_ledger s" and "cd_wallets t = cd_wallets s" and "cd_evidence t = cd_evidence s"
    and "cd_accounts t = cd_accounts (snd (ensureDepositAccount ch w s))"
    and "cd_movements t = cd_movements s @
      (if deposit_key w h \<in> cm_idempotencyKey ` set (cd_movements s) then [] else [deposit_candidate ch w h a th account])"
proof -
  obtain t where e: "ensureDepositAccount ch w s = (Inr account, t)" using assms(1) by (cases "ensureDepositAccount ch w s") auto
  have t: "cd_movements t = cd_movements s" "cd_history t = cd_history s" "cd_ledger t = cd_ledger s" "cd_evidence t = cd_evidence s"
    using ensureDepositAccount_books [OF e] by (simp_all add: same_books_def)
  have u: "cd_users t = cd_users s" "cd_wallets t = cd_wallets s"
    using e by (auto simp: ensureDepositAccount_def Let_def split: option.splits if_splits)
  have r: "recordDepositCandidate ch w h a th s =
     (case find_by cm_idempotencyKey (deposit_key w h) (cd_movements t) of
          Some m \<Rightarrow> (Inr (m, False), t)
        | None \<Rightarrow> (Inr (deposit_candidate ch w h a th account, True),
                   t\<lparr>cd_movements := cd_movements t @ [deposit_candidate ch w h a th account]\<rparr>))"
    using assms(2-4) e by (simp add: recordDepositCandidate_def and_then_def Let_def split: option.splits)
  show thesis
  proof (cases "find_by cm_idempotencyKey (deposit_key w h) (cd_movements t)")
    case None
    then have k: "deposit_key w h \<notin> cm_idempotencyKey ` set (cd_movements s)" by (simp add: find_by_None t)
    show thesis 
      by (rule that [of "deposit_candidate ch w h a th account" True
            "t\<lparr>cd_movements := cd_movements t @ [deposit_candidate ch w h a th account]\<rparr>"]) (use None r k in \<open>simp_all add: t u e\<close>)
  next
    case (Some m)
    then have k: "deposit_key w h \<in> cm_idempotencyKey ` set (cd_movements s)" using find_by_Some [of cm_idempotencyKey] t(1) by (metis imageI)
    show thesis by (rule that [of m False t]) (use Some r k in \<open>simp_all add: t u e\<close>)
  qed
qed

lemma deposit_moves:
  assumes "post sha rnd ch True (deposit_posting u h n i) L = (Inr res, L')"
  shows "posting_moves rnd (deposit_posting u h n i) c =
    (if c = ''clearing:custody:unverified:usdc'' then 100 * int n else 0) - (if c = user_liability_code u then 100 * int n else 0)"
proof -
  have v: "toExactDecimal (JStr (decimalStringFromBaseUnits (int n) 6)) = Inr (n * 100)"
    using stored_text_ledger [of 6 n] by simp
  have l: "pp_lines (deposit_posting u h n i) =
      [\<lparr>li_account = ''clearing:custody:unverified:usdc'', li_debit = JStr (decimalStringFromBaseUnits (int n) 6), li_credit = JNull\<rparr>,
       \<lparr>li_account = user_liability_code u, li_debit = JNull, li_credit = JStr (decimalStringFromBaseUnits (int n) 6)\<rparr>]"
    by (simp add: deposit_posting_def Let_def)
  show ?thesis using transfer_moves [OF assms l v] by auto
qed

lemma credit_progress:
  assumes "find_by ur_id u (cd_users s) \<noteq> None" and "Some h \<notin> hashes s" and "fst (ensureDepositAccount ch w s) = Inr account"
    and "h \<noteq> []" and "\<not> cc_raced ch" and "postable rnd n (cc_ledger ch) (provisional_prefix @ h) (cd_ledger s)"
    and "length (user_liability_code u) \<le> 80"
  obtains t where "credit_tx sha rnd ch u w h a n s = (Inr (deposit_history ch u a h), t)"
    and "cd_users t = update_by (\<lambda>x. ur_id x = u) (\<lambda>x. x\<lparr>ur_availableBalance := ur_availableBalance x + a\<rparr>) (cd_users s)"
    and "cd_history t = cd_history s @ [deposit_history ch u a h]"
    and "cd_movements t = cd_movements s @
      (if deposit_key w h \<in> cm_idempotencyKey ` set (cd_movements s) then []
       else [deposit_candidate ch w h (int n) (Some (cc_history ch)) account])"
    and "\<forall>c. account_net c (cd_ledger t) = account_net c (cd_ledger s) +
      (if c = ''clearing:custody:unverified:usdc'' then 100 * int n else 0) - (if c = user_liability_code u then 100 * int n else 0)"
    and "booked_key (provisional_prefix @ h) (cd_ledger t)" and "cd_wallets t = cd_wallets s" and "cd_evidence t = cd_evidence s"
    and "cd_accounts t = cd_accounts (snd (ensureDepositAccount ch w s))"
proof -
  let ?row = "deposit_history ch u a h"
  let ?s1 = "s\<lparr>cd_users := update_by (\<lambda>x. ur_id x = u) (\<lambda>x. x\<lparr>ur_availableBalance := ur_availableBalance x + a\<rparr>) (cd_users s),
      cd_masterCrypto := add_counter a (cd_masterCrypto s), cd_hotWallet := add_counter a (cd_hotWallet s),
      cd_history := cd_history s @ [?row]\<rparr>"
  have acc: "fst (ensureDepositAccount ch w ?s1) = Inr account"
    and reg: "cd_accounts (snd (ensureDepositAccount ch w ?s1)) = cd_accounts (snd (ensureDepositAccount ch w s))"
    using assms(3) ensureDepositAccount_reads [of ?s1 s] by simp_all
  have n: "0 < int n" using assms(6) by (simp add: postable_def)
  obtain m new s2 where c: "recordDepositCandidate ch w h (int n) (Some (cc_history ch)) ?s1 = (Inr (m, new), s2)"
    and s2: "cd_users s2 = cd_users ?s1" "cd_history s2 = cd_history ?s1" "cd_ledger s2 = cd_ledger ?s1" "cd_wallets s2 = cd_wallets ?s1" "cd_evidence s2 = cd_evidence ?s1"
      "cd_accounts s2 = cd_accounts (snd (ensureDepositAccount ch w ?s1))"
      "cd_movements s2 = cd_movements ?s1 @ (if deposit_key w h \<in> cm_idempotencyKey ` set (cd_movements ?s1) then []
         else [deposit_candidate ch w h (int n) (Some (cc_history ch)) account])"
    by (rule recordDepositCandidate_progress [OF acc assms(4) n assms(5)])
  obtain res L where p: "post sha rnd (cc_ledger ch) True (deposit_posting u h n (cc_history ch)) (cd_ledger s) = (Inr res, L)"
    by (rule deposit_accepted [OF assms(6,7)])
  have k: "pp_idempotencyKey (deposit_posting u h n (cc_history ch)) = provisional_prefix @ h"
    by (simp add: deposit_posting_def provisional_prefix_def Let_def)
  have net: "account_net x L = account_net x (cd_ledger s) + posting_moves rnd (deposit_posting u h n (cc_history ch)) x" for x
    using lp.book_net [OF p] assms(6) k by (simp add: postable_def)
  have h: "hr_id ?row = cc_history ch" by (simp add: deposit_history_def)
  have "credit_tx sha rnd ch u w h a n s = (Inr ?row, s2\<lparr>cd_ledger := L\<rparr>)"
    using assms(1,2) c p s2(3)
    by (auto simp: credit_tx_def Let_def hashes_def h and_then_def post_custody_def split: option.splits)
  then show thesis
    by (rule that) (use s2 reg net deposit_moves [OF p] lp.book_key [OF p] k in simp_all)
qed

section \<open>A concrete history\<close>

definition sample_wallet :: wallet_address where
  "sample_wallet =
     \<lparr>wa_id = ''w1'', wa_userId = 7, wa_network = ''POLYGON'', wa_asset = ''USDC'',
      wa_contractAddress = NATIVE_USDC_contractAddress, wa_address = ''0xab'', wa_status = ''ACTIVE''\<rparr>"

definition sample_user :: user_row where
  "sample_user = \<lparr>ur_id = 7, ur_availableBalance = 0, ur_escrowLockedBalance = 0, ur_disputeEscrowBalance = 0,
     ur_vendorUnallocatedBalance = 0, ur_tatumPolygonAddress = None\<rparr>"

definition sample_account :: custody_account where
  "sample_account = deposit_account_data ''a1'' sample_wallet"

definition sample_books :: custody_db where
  "sample_books =
     \<lparr>cd_wallets = [sample_wallet], cd_accounts = [sample_account], cd_movements = [], cd_evidence = [], cd_executions = [],
      cd_history = [], cd_users = [sample_user], cd_masterCrypto = None, cd_hotWallet = None, cd_ledger = empty_ledger\<rparr>"

definition sample_choice :: "string \<Rightarrow> custody_choice" where
  "sample_choice i =
     \<lparr>cc_account = ''a1'', cc_hot_account = ''hot'', cc_movement = i, cc_evidence = i, cc_history = i, cc_now = 5,
      cc_ledger = calm i, cc_raced = False\<rparr>"

definition sample_webhook :: "string \<Rightarrow> webhook" where
  "sample_webhook h = \<lparr>wb_address = Some ''0xab'', wb_txId = Some h, wb_txHash = None, wb_amount = JStr ''2.5'',
     wb_asset = None, wb_currency = None\<rparr>"

definition sample_signature :: signature_check where
  "sample_signature = \<lparr>sc_secret = Some ''k'', sc_production = False, sc_bound = False, sc_header = None, sc_valid = False\<rparr>"

definition sample_floats :: float_path where
  "sample_floats = \<lparr>fl_amount = (\<lambda>_. 5 / 2), fl_credit = (\<lambda>_. 250000000)\<rparr>"

lemma sample_amount: "exactWebhookAmountToBaseUnits (JStr (raw_amount_text (JStr ''2.5''))) 6 = Inr 2500000"
proof -
  have "replicate 5 (CHR ''0'') = ''00000''" by (simp add: numeral_eq_Suc)
  then show ?thesis
    by (simp add: exactWebhookAmountToBaseUnits_def js_to_string_def raw_amount_text_def raw_text_def plain_decimal_def
        pad_end_def js_trim_def js_space_def is_digit_def read_nat_def digit_val_def Let_def)
qed

lemma sample_deliverable:
  assumes "cd_wallets s = [sample_wallet]" and "h \<noteq> []" and "Some h \<notin> hashes s" and "0 < fl_amount fl (JStr ''2.5'')"
  shows "deliverable fl sample_signature (sample_webhook h) s 7 sample_wallet h 2500000"
  using assms sample_amount
  by (simp add: deliverable_def check_signature_def sample_signature_def sample_webhook_def or_null_def or_else_def
      or_empty_def js_trim_def js_space_def js_lower_def lower_char_def js_upper_def upper_char_def resolveOwner_def
      sample_wallet_def NATIVE_USDC_asset_def Let_def)

lemma sample_account_kept:
  assumes "cd_accounts s = [sample_account]"
  shows "ensureDepositAccount (sample_choice i) sample_wallet s = (Inr sample_account, s)"
  using assms
  by (simp add: ensureDepositAccount_def sample_account_def sample_choice_def deposit_account_data_def account_identity_def
      Let_def) (simp add: sample_wallet_def)

lemma sample_undisturbed [simp]: "undisturbed (cc_ledger (sample_choice i))" "\<not> cc_raced (sample_choice i)"
  by (simp_all add: sample_choice_def calm_def undisturbed_def)

text \<open>A first delivery of \<open>2.5\<close> USDC, and its verification.\<close>

lemma sample_credit:
  assumes inv: "custody_inv s" and s: "cd_wallets s = [sample_wallet]" "cd_accounts s = [sample_account]"
    and u: "map ur_id (cd_users s) = [7]" and h: "h \<noteq> []" "length h \<le> 100" "Some h \<notin> hashes s"
  obtains r t where "tatumCryptoWebhook id id sample_floats id (sample_choice i) sample_signature (sample_webhook h) s = (Confirmed r, t)"
    and "cd_users t = map (\<lambda>x. x\<lparr>ur_availableBalance := ur_availableBalance x + 250000000\<rparr>) (cd_users s)"
    and "hashes t = insert (Some h) (hashes s)"
    and "cd_movements t = cd_movements s @
      (if deposit_row_key (js_lower h) \<in> cm_idempotencyKey ` set (cd_movements s) then []
       else [deposit_candidate (sample_choice i) sample_wallet h 2500000 (Some i) sample_account])"
    and "account_net ''clearing:custody:unverified:usdc'' (cd_ledger t) =
      account_net ''clearing:custody:unverified:usdc'' (cd_ledger s) + 250000000"
    and "cd_wallets t = [sample_wallet]" "cd_accounts t = [sample_account]" "cd_evidence t = cd_evidence s"
proof -
  have key: "deposit_key sample_wallet h = deposit_row_key (js_lower h)"
    by (simp add: deposit_key_def deposit_row_key_def sample_wallet_def or_default_def)
  have user: "find_by ur_id 7 (cd_users s) \<noteq> None" and all: "\<And>x. x \<in> set (cd_users s) \<Longrightarrow> ur_id x = 7"
    using u by (auto simp: find_by_None)
  have acc: "fst (ensureDepositAccount (sample_choice i) sample_wallet s) = Inr sample_account"
    by (simp add: sample_account_kept s)
  have p: "postable id 2500000 (cc_ledger (sample_choice i)) (provisional_prefix @ h) (cd_ledger s)"
    using inv h by (auto simp: postable_def decimal_exact_id custody_inv_def keys_follow_movements_def provisional_prefix_def)
  have code: "length (user_liability_code 7) \<le> 80" by (simp add: user_liability_code_def show_nat.simps)
  obtain t where c: "credit_tx id id (sample_choice i) 7 sample_wallet h 250000000 2500000 s =
        (Inr (deposit_history (sample_choice i) 7 250000000 h), t)"
    and t: "cd_users t = update_by (\<lambda>x. ur_id x = 7) (\<lambda>x. x\<lparr>ur_availableBalance := ur_availableBalance x + 250000000\<rparr>) (cd_users s)"
      "cd_history t = cd_history s @ [deposit_history (sample_choice i) 7 250000000 h]"
      "cd_movements t = cd_movements s @ (if deposit_key sample_wallet h \<in> cm_idempotencyKey ` set (cd_movements s) then []
         else [deposit_candidate (sample_choice i) sample_wallet h (int 2500000) (Some (cc_history (sample_choice i))) sample_account])"
      "\<forall>c. account_net c (cd_ledger t) = account_net c (cd_ledger s) +
         (if c = ''clearing:custody:unverified:usdc'' then 100 * int 2500000 else 0) - (if c = user_liability_code 7 then 100 * int 2500000 else 0)"
      "booked_key (provisional_prefix @ h) (cd_ledger t)" "cd_wallets t = cd_wallets s" "cd_evidence t = cd_evidence s"
      "cd_accounts t = cd_accounts (snd (ensureDepositAccount (sample_choice i) sample_wallet s))"
    by (rule credit_progress [where sha = id and a = 250000000, OF user h(3) acc h(1) sample_undisturbed(2) p code])
  show thesis
  proof (rule that)
    show "tatumCryptoWebhook id id sample_floats id (sample_choice i) sample_signature (sample_webhook h) s =
        (Confirmed (deposit_history (sample_choice i) 7 250000000 h), t)"
      using c deliverable_webhook [OF sample_deliverable [OF s(1) h(1,3), of sample_floats]]
      by (simp add: sample_floats_def transaction_def)
    show "cd_users t = map (\<lambda>x. x\<lparr>ur_availableBalance := ur_availableBalance x + 250000000\<rparr>) (cd_users s)"
      using t(1) all by (simp add: update_by_def)
    show "account_net ''clearing:custody:unverified:usdc'' (cd_ledger t) =
        account_net ''clearing:custody:unverified:usdc'' (cd_ledger s) + 250000000"
      using t(4) by (simp add: user_liability_code_def)
  qed (use t s key sample_account_kept in \<open>auto simp: hashes_def deposit_history_def sample_choice_def\<close>)
qed

lemma sample_opening: "opening_books sample_books" "custody_inv sample_books"
proof -
  show "opening_books sample_books"
    by (simp add: opening_books_def sample_books_def crypto_deposits_def)
  then show "custody_inv sample_books" by (rule opening_inv)
qed

definition sample_candidate :: custody_movement where
  "sample_candidate = deposit_candidate (sample_choice ''m1'') sample_wallet ''0xfe'' 2500000 (Some ''m1'') sample_account"

lemma sample_credited:
  obtains r s where
    "tatumCryptoWebhook id id sample_floats id (sample_choice ''m1'') sample_signature (sample_webhook ''0xfe'') sample_books = (Confirmed r, s)"
    and "history (custody_exec id id) sample_books s" and "custody_inv s" and "cd_movements s = [sample_candidate]"
    and "map ur_id (cd_users s) = [7]" "map ur_availableBalance (cd_users s) = [250000000]" "hashes s = {Some ''0xfe''}"
    and "account_net ''clearing:custody:unverified:usdc'' (cd_ledger s) = 250000000"
    and "cd_wallets s = [sample_wallet]" "cd_accounts s = [sample_account]" "cd_evidence s = []"
proof -
  have sb: "cd_wallets sample_books = [sample_wallet]" "cd_accounts sample_books = [sample_account]" "cd_movements sample_books = []"
    "map ur_id (cd_users sample_books) = [7]" "hashes sample_books = {}" "cd_evidence sample_books = []"
    "cd_ledger sample_books = empty_ledger" "cd_users sample_books = [sample_user]"
    by (simp_all add: sample_books_def hashes_def sample_user_def)
  obtain r s where w: "tatumCryptoWebhook id id sample_floats id (sample_choice ''m1'') sample_signature (sample_webhook ''0xfe'') sample_books = (Confirmed r, s)"
    and s: "cd_users s = map (\<lambda>x. x\<lparr>ur_availableBalance := ur_availableBalance x + 250000000\<rparr>) (cd_users sample_books)"
      "hashes s = insert (Some ''0xfe'') (hashes sample_books)"
      "cd_movements s = cd_movements sample_books @
        (if deposit_row_key (js_lower ''0xfe'') \<in> cm_idempotencyKey ` set (cd_movements sample_books) then []
         else [deposit_candidate (sample_choice ''m1'') sample_wallet ''0xfe'' 2500000 (Some ''m1'') sample_account])"
      "account_net ''clearing:custody:unverified:usdc'' (cd_ledger s) =
        account_net ''clearing:custody:unverified:usdc'' (cd_ledger sample_books) + 250000000"
      "cd_wallets s = [sample_wallet]" "cd_accounts s = [sample_account]" "cd_evidence s = cd_evidence sample_books"
    by (rule sample_credit [OF sample_opening(2) sb(1,2,4), of "''0xfe''" "''m1''"]) (simp_all add: sb)
  have "custody_effect id id id (Webhook sample_floats (sample_choice ''m1'') sample_signature (sample_webhook ''0xfe'')) sample_books = s"
    using w by (simp add: lower_case_hash_def sample_webhook_def or_else_def or_null_def js_lower_def lower_char_def fresh_ids_def sb)
  then have "custody_exec id id id (Webhook sample_floats (sample_choice ''m1'') sample_signature (sample_webhook ''0xfe'')) sample_books = ((), s)"
    by (simp add: custody_exec_def)
  then have hist: "history (custody_exec id id) sample_books s"
    by (rule history_call_alone [OF history.stop])
  show thesis
    by (rule that [OF w hist]) (use cb.history_inv [OF hist sample_opening(2)] s sb in
      \<open>simp_all add: sample_candidate_def sample_user_def account_net_def empty_ledger_def\<close>)
qed

definition sample_entry :: tx_entry where
  "sample_entry =
     \<lparr>te_chain = JStr ''polygon-mainnet'', te_hash = Some ''0xfe'', te_address = ''0xab'', te_counterAddress = None,
      te_tokenAddress = Some NATIVE_USDC_contractAddress, te_blockNumber = Some (NFin False 9 0),
      te_transactionType = JStr ''fungible'', te_transactionSubtype = JStr ''incoming'', te_amountBaseUnits = 2500000\<rparr>"

definition sample_provider :: "string \<Rightarrow> string \<Rightarrow> nat \<Rightarrow> evidence_error + tx_obs" where
  "sample_provider network h d =
     Inr \<lparr>to_network = network, to_hash = h, to_entries = [sample_entry], to_observedAt = 12\<rparr>"

lemma sample_normalized:
  "normalizeAddress (JStr NATIVE_USDC_contractAddress) = NATIVE_USDC_contractAddress" "normalizeAddress (JStr ''0xab'') = ''0xab''"
  by (simp_all add: normalizeAddress_def or_text_def js_falsy_def js_to_string_def NATIVE_USDC_contractAddress_def
      js_trim_def js_space_def js_lower_def lower_char_def)

lemma sample_deposit_checks:
  assumes "cd_movements s = [sample_candidate]" "cd_wallets s = [sample_wallet]" "cd_accounts s = [sample_account]"
  shows "verify_checks ''m1'' s = Inr (sample_candidate, ''0xfe'', sample_account)"
  using assms
  by (simp add: verify_checks_def sample_candidate_def deposit_candidate_def sample_choice_def or_null_def
      js_lower_def lower_char_def sample_account_def deposit_account_data_def registry_backed_def sample_wallet_def sample_normalized)

lemma sample_validated: "validate_evidence sample_account sample_candidate ''0xfe'' [sample_entry] = ([], Some sample_entry)"
  by (simp add: validate_evidence_def sample_account_def deposit_account_data_def sample_wallet_def sample_normalized
      sample_candidate_def deposit_candidate_def or_default_def TATUM_V4_CHAIN_def sample_entry_def fail_if_def or_empty_def Let_def)

lemma sample_verified:
  obtains s t n where "history (custody_exec id id) sample_books s" and "history (custody_exec id id) s t"
    and "find_by cm_id ''m1'' (cd_movements s) = Some sample_candidate"
    and "find_by cm_id ''m1'' (cd_movements t) = Some n" and "cm_status n = VERIFIED" and "cm_amountBaseUnits n = 2500000"
    and "cm_kind n = DEPOSIT_IN" and "n \<in> set (cd_movements t)"
proof -
  obtain s where h: "history (custody_exec id id) sample_books s" and inv: "custody_inv s" and s: "cd_movements s = [sample_candidate]"
    "cd_wallets s = [sample_wallet]" "cd_accounts s = [sample_account]" "cd_evidence s = []"
    by (rule sample_credited) blast
  note chk = sample_deposit_checks [OF s(1-3)]
  have free: "\<not> tx_evidence_taken (cu_id sample_account) ''0xfe'' s" by (simp add: tx_evidence_taken_def s)
  have m: "find_by cm_id ''m1'' (cd_movements s) = Some sample_candidate" "cm_kind sample_candidate = DEPOSIT_IN"
      "is_candidate sample_candidate" "cm_txHash sample_candidate = Some ''0xfe''"
    using verify_checks_row [OF chk] by simp_all
  have a: "cm_amountBaseUnits sample_candidate = 2500000" by (simp add: sample_candidate_def deposit_candidate_def)
  obtain n x t where tx: "verify_tx id id (sample_choice ''v1'') sample_account sample_candidate ''0xfe'' 12 sample_entry s = (Inr (Won n x), t)"
    and n: "cm_status n = VERIFIED" "find_by cm_id ''m1'' (cd_movements t) = Some n"
    by (rule verify_tx_progress [where sha = id and seen = 12 and e = sample_entry,
          OF inv m sample_undisturbed(2,1) free decimal_exact_id]) (simp_all add: a)
  have "verifyDepositMovement id id id (sample_choice ''v1'') SOURCE_TX sample_provider ''m1'' s = (Inr (VerifiedNow n x), t)"
    using chk tx sample_validated
    by (simp add: verifyDepositMovement_def sample_provider_def settle_observation_def verify_outcome_def transaction_def and_then_def)
  then have "custody_exec id id id (Verify (sample_choice ''v1'') SOURCE_TX sample_provider ''m1'') s = ((), t)"
    by (simp add: custody_exec_def fresh_ids_def s sample_choice_def sample_candidate_def deposit_candidate_def)
  then have st: "history (custody_exec id id) s t" by (rule history_call_alone [OF history.stop])
  have "same_deposit sample_candidate n"
    using cb.history_evolves [OF st inv] m(1) n(2) by (fastforce simp: custody_evolves_def rows_evolve_def)
  then show thesis
    using that [OF h st m(1) n(2,1)] a m(2) find_by_Some [OF n(2)] by (simp add: same_deposit_def)
qed

definition sample_balance :: "string \<Rightarrow> string \<Rightarrow> string \<Rightarrow> evidence_error + balance_obs" where
  "sample_balance network contract addr =
     Inr \<lparr>bo_source = SOURCE_BALANCE, bo_network = network, bo_networkScope = Some ''MAINNET'', bo_contractAddress = contract,
          bo_address = addr, bo_balanceBaseUnits = 9, bo_observedAt = 3\<rparr>"

lemma sample_observed:
  obtains s x where "history (custody_exec id id) sample_books s" and "active_balance ''a1'' (cd_evidence s) = Some x" and "ce_observedAt x = 3"
proof -
  let ?x = "balance_evidence (sample_choice ''e1'') sample_account SOURCE_BALANCE
      (projr (sample_balance (cu_network sample_account) (cu_contractAddress sample_account) (cu_address sample_account))) EV_ACTIVE None"
  have i: "cu_id sample_account = ''a1''" by (simp add: sample_account_def deposit_account_data_def)
  have "observeAccountBalance id id (sample_choice ''e1'') SOURCE_BALANCE sample_balance sample_account sample_books =
      (Inr (Recorded ?x), sample_books\<lparr>cd_evidence := [?x]\<rparr>)"
    by (simp add: observeAccountBalance_def sample_balance_def same_target_def or_null_def js_upper_def upper_char_def
        transaction_def observe_tx_def active_balance_def sample_books_def Let_def)
  then have "custody_exec id id id (Observe (sample_choice ''e1'') SOURCE_BALANCE sample_balance sample_account) sample_books =
      ((), sample_books\<lparr>cd_evidence := [?x]\<rparr>)"
    by (simp add: custody_exec_def fresh_ids_def sample_books_def)
  then have "history (custody_exec id id) sample_books (sample_books\<lparr>cd_evidence := [?x]\<rparr>)"
    by (rule history_call_alone [OF history.stop])
  then show thesis
  proof (rule that)
    show "active_balance ''a1'' (cd_evidence (sample_books\<lparr>cd_evidence := [?x]\<rparr>)) = Some ?x"
      by (simp add: active_balance_def active_balance_row_def balance_evidence_def i)
    show "ce_observedAt ?x = 3" by (simp add: balance_evidence_def sample_balance_def)
  qed
qed

section \<open>Properties\<close>

text \<open>C21: A candidate with matching evidence is verified. In every state of a canonical history, when the provider
  returns a transaction that passes the checks, no concurrent writer interferes and no evidence row of
  the account carries the hash yet, the verification succeeds: the movement becomes \<open>VERIFIED\<close>.\<close>

theorem matching_evidence_verifies:
  assumes "opening_books s0" and "history (custody_exec sha rnd) s0 s"
    and "verify_checks i s = Inr (m, h, account)" and "get (cm_network m) h 6 = Inr obs"
    and "validate_evidence account m h (to_entries obs) = ([], Some e)"
    and "\<not> cc_raced ch" and "undisturbed (cc_ledger ch)" and "\<not> tx_evidence_taken (cu_id account) h s"
    and "decimal_exact rnd" and "cm_amountBaseUnits m < 10 ^ 18" and "length i \<le> 118"
  shows "\<exists>n x t. verifyDepositMovement sha rnd id ch SOURCE_TX get i s = (Inr (VerifiedNow n x), t) \<and>
    cm_status n = VERIFIED \<and> find_by cm_id i (cd_movements t) = Some n \<and> ce_txHash x = Some h"
proof -
  have inv: "custody_inv s" using cb.history_inv [OF assms(2) opening_inv [OF assms(1)]] .
  have m: "find_by cm_id i (cd_movements s) = Some m" "cm_kind m = DEPOSIT_IN" "is_candidate m" "cm_txHash m = Some h"
    using verify_checks_row [OF assms(3)] by simp_all
  then have d: "movement_decimals m = 6"
    using inv find_by_Some [OF m(1)] by (simp add: custody_inv_def deposit_ok_def movement_decimals_def)
  obtain n x t where tx: "verify_tx sha rnd ch account m h (to_observedAt obs) e s = (Inr (Won n x), t)"
    and n: "cm_status n = VERIFIED" "find_by cm_id i (cd_movements t) = Some n" "ce_txHash x = Some h"
    by (rule verify_tx_progress [OF inv m assms(6,7,8,9,10,11)])
  have "verifyDepositMovement sha rnd id ch SOURCE_TX get i s = (Inr (VerifiedNow n x), t)"
    using assms(3-5) tx d
    by (simp add: verifyDepositMovement_def settle_observation_def verify_outcome_def transaction_def and_then_def)
  with n show ?thesis by blast
qed

theorem matching_evidence_verifies_witness:
  "\<exists>s n x t. verifyDepositMovement id id id (sample_choice ''v1'') SOURCE_TX sample_provider ''m1'' s = (Inr (VerifiedNow n x), t) \<and>
     cm_status n = VERIFIED"
proof -
  obtain s where h: "history (custody_exec id id) sample_books s" and s: "cd_movements s = [sample_candidate]"
    "cd_wallets s = [sample_wallet]" "cd_accounts s = [sample_account]" "cd_evidence s = []"
    by (rule sample_credited) blast
  have p: "sample_provider (cm_network sample_candidate) ''0xfe'' 6 =
      Inr \<lparr>to_network = cm_network sample_candidate, to_hash = ''0xfe'', to_entries = [sample_entry], to_observedAt = 12\<rparr>"
    by (simp add: sample_provider_def)
  have "\<not> tx_evidence_taken (cu_id sample_account) ''0xfe'' s" by (simp add: tx_evidence_taken_def s)
  moreover have "cm_amountBaseUnits sample_candidate < 10 ^ 18" by (simp add: sample_candidate_def deposit_candidate_def)
  ultimately show ?thesis
    using matching_evidence_verifies [where get = sample_provider and e = sample_entry and ch = "sample_choice ''v1''",
        OF sample_opening(1) h sample_deposit_checks [OF s(1-3)] p _ sample_undisturbed(2,1)]
      sample_validated decimal_exact_id by auto
qed

text \<open>In the canonical histories of this theory the ledger follows the movements exactly: the custody account
  holds the verified deposits, the provisional clearing account the candidates and the suspense account
  the rejected deposits (base units of six decimals, column units of eight). The histories with backfills,
  legacy deposits and hashes in any letter case are in \<open>Custody_Wide\<close>.\<close>

lemma canonical_books_follow_movements:
  assumes "opening_books s0" and "history (custody_exec sha rnd) s0 s"
  shows "account_net ''custody:deposit:usdc'' (cd_ledger s) = 100 * sum_rows cm_amountBaseUnits (deposits_with VERIFIED s) \<and>
    account_net ''clearing:custody:unverified:usdc'' (cd_ledger s) = 100 * sum_rows cm_amountBaseUnits (deposits_with CANDIDATE s) \<and>
    account_net ''clearing:custody:rejected:usdc'' (cd_ledger s) = 100 * sum_rows cm_amountBaseUnits (deposits_with FAILED s)"
proof -
  have "custody_inv s" using cb.history_inv [OF assms(2) opening_inv [OF assms(1)]] .
  then show ?thesis by (simp add: custody_inv_def nets_follow_movements_def staged_sum)
qed

text \<open>C10: A verified deposit has its evidence, and a hash is one deposit. In every state of a canonical history each
  verified deposit points to a transaction evidence row of the provider with exactly its amount and
  hash, each deposit has its provisional journal, and no two deposits share a hash.\<close>

theorem verified_deposits_have_evidence:
  assumes "opening_books s0" and "history (custody_exec sha rnd) s0 s"
    and "m \<in> set (cd_movements s)" and "cm_kind m = DEPOSIT_IN"
  shows "\<exists>h. cm_txHash m = Some h \<and> booked_key (provisional_prefix @ h) (cd_ledger s) \<and>
    (cm_status m = VERIFIED \<longrightarrow>
       (\<exists>x \<in> set (cd_evidence s). cm_evidenceId m = Some (ce_id x) \<and> ce_scope x = TRANSACTION \<and> ce_source x = SOURCE_TX \<and>
          ce_amountBaseUnits x = Some (nat (cm_amountBaseUnits m)) \<and> ce_txHash x = Some h)) \<and>
    (\<forall>n \<in> set (cd_movements s). cm_kind n = DEPOSIT_IN \<and> cm_txHash n = Some h \<longrightarrow> n = m)"
proof -
  have inv: "custody_inv s" using cb.history_inv [OF assms(2) opening_inv [OF assms(1)]] .
  have ok: "deposit_ok s n" if "n \<in> set (cd_movements s)" "cm_kind n = DEPOSIT_IN" for n
    using inv that by (simp add: custody_inv_def)
  have d: "distinct (map cm_idempotencyKey (cd_movements s))" using inv by (simp add: custody_inv_def tables_distinct_def)
  obtain h where h: "cm_txHash m = Some h" "cm_idempotencyKey m = deposit_row_key h" "booked_key (provisional_prefix @ h) (cd_ledger s)"
    using ok [OF assms(3,4)] by (auto simp: deposit_ok_def)
  have "n = m" if "n \<in> set (cd_movements s)" "cm_kind n = DEPOSIT_IN" "cm_txHash n = Some h" for n
  proof -
    have "cm_idempotencyKey n = cm_idempotencyKey m" using ok [OF that(1,2)] that(3) h(2) by (auto simp: deposit_ok_def)
    then show ?thesis using d that(1) assms(3) by (metis distinct_map inj_onD)
  qed
  then show ?thesis using ok [OF assms(3,4)] h by (auto simp: deposit_ok_def evidenced_def)
qed

theorem verified_deposits_have_evidence_witness:
  "\<exists>(t :: custody_db) (n :: custody_movement). cm_status n = VERIFIED \<and> (\<exists>x \<in> set (cd_evidence t). cm_evidenceId n = Some (ce_id x) \<and> ce_txHash x = cm_txHash n)"
proof -
  obtain s t n where h: "history (custody_exec id id) sample_books s" "history (custody_exec id id) s t"
    and n: "cm_status n = VERIFIED" "cm_kind n = DEPOSIT_IN" "n \<in> set (cd_movements t)"
    by (rule sample_verified)
  have "\<exists>x \<in> set (cd_evidence t). cm_evidenceId n = Some (ce_id x) \<and> ce_txHash x = cm_txHash n"
    using verified_deposits_have_evidence [OF sample_opening(1) history_trans [OF h(2,1)] n(3,2)] n(1) by fastforce
  with n(1) show ?thesis by blast
qed

text \<open>Settlement is final. A deposit that has left \<open>CANDIDATE\<close> keeps its status, amount and hash in
  every later state, and so does a candidate its amount and hash.\<close>

theorem settled_deposits_are_final:
  assumes "opening_books s0" and "history (custody_exec sha rnd) s0 s" and "history (custody_exec sha rnd) s t"
    and "find_by cm_id i (cd_movements s) = Some m"
  shows "\<exists>n. find_by cm_id i (cd_movements t) = Some n \<and> cm_amountBaseUnits n = cm_amountBaseUnits m \<and>
    cm_txHash n = cm_txHash m \<and> (cm_status m \<noteq> CANDIDATE \<longrightarrow> cm_status n = cm_status m)"
proof -
  have "custody_inv s" using cb.history_inv [OF assms(2) opening_inv [OF assms(1)]] .
  then have "custody_evolves s t" using cb.history_evolves [OF assms(3)] by blast
  then show ?thesis
    using assms(4) by (fastforce simp: custody_evolves_def rows_evolve_def same_deposit_def is_candidate_def)
qed

theorem settled_deposits_are_final_witness:
  "\<exists>(t :: custody_db) n. find_by cm_id ''m1'' (cd_movements t) = Some n \<and> cm_status n = VERIFIED \<and>
     cm_amountBaseUnits n = cm_amountBaseUnits sample_candidate"
proof -
  obtain s t n where h: "history (custody_exec id id) sample_books s" "history (custody_exec id id) s t"
    and m: "find_by cm_id ''m1'' (cd_movements s) = Some sample_candidate"
    and n: "find_by cm_id ''m1'' (cd_movements t) = Some n" "cm_status n = VERIFIED"
    by (rule sample_verified)
  have "cm_amountBaseUnits n = cm_amountBaseUnits sample_candidate"
    using settled_deposits_are_final [OF sample_opening(1) h m] n(1) by auto
  with n show ?thesis by blast
qed

text \<open>The accepted balance never goes back in time. Every account has at most one accepted balance
  observation, and in every later state the accepted observation of the account is at least as recent.\<close>

theorem accepted_balance_moves_forward:
  assumes "opening_books s0" and "history (custody_exec sha rnd) s0 s" and "history (custody_exec sha rnd) s t"
    and "active_balance acc (cd_evidence s) = Some x"
  shows "\<exists>y. active_balance acc (cd_evidence t) = Some y \<and> ce_observedAt x \<le> ce_observedAt y \<and>
    count_by (active_balance_row acc) (cd_evidence t) = 1"
proof -
  have s: "custody_inv s" using cb.history_inv [OF assms(2) opening_inv [OF assms(1)]] .
  have t: "custody_inv t" "custody_evolves s t" using cb.history_keeps [OF assms(3) s] by simp_all
  then obtain y where y: "active_balance acc (cd_evidence t) = Some y" "ce_observedAt x \<le> ce_observedAt y"
    using assms(4) by (auto simp: custody_evolves_def balance_evolves_def)
  have "count_by (active_balance_row acc) (cd_evidence t) \<le> 1" using t(1) by (simp add: custody_inv_def one_active_balance_def)
  moreover have "count_by (active_balance_row acc) (cd_evidence t) \<noteq> 0" using y(1) active_balance_count [of acc] by force
  ultimately show ?thesis using y by auto
qed

theorem accepted_balance_moves_forward_witness:
  "\<exists>(t :: custody_db) y. active_balance ''a1'' (cd_evidence t) = Some y \<and> 3 \<le> ce_observedAt y \<and>
     count_by (active_balance_row ''a1'') (cd_evidence t) = 1"
proof -
  obtain s x where h: "history (custody_exec id id) sample_books s" and x: "active_balance ''a1'' (cd_evidence s) = Some x" "ce_observedAt x = 3"
    by (rule sample_observed)
  from accepted_balance_moves_forward [OF sample_opening(1) h history.stop x(1)] x(2) show ?thesis by auto
qed

lemma credit_tx_history:
  assumes tx: "credit_tx sha rnd ch u w h a n s = (Inr row, s')"
  shows "deposit_history ch u a h \<in> set (cd_history s')"
proof -
  let ?row = "deposit_history ch u a h"
  obtain s1 m b s2 where s1: "?row \<in> set (cd_history s1)"
    and c: "recordDepositCandidate ch w h (int n) (Some (hr_id ?row)) s1 = (Inr (m, b), s2)"
    and p: "post_custody sha rnd ch (deposit_posting u h n (hr_id ?row)) s2 = (Inr (), s')"
    using tx
    by (auto simp: credit_tx_def Let_def and_then_Inr split: option.splits if_splits
        intro!: that [of "s\<lparr>cd_users := _, cd_masterCrypto := _, cd_hotWallet := _, cd_history := _\<rparr>"])
  from c have "cd_history s2 = cd_history s1" by (cases rule: recordDepositCandidate_cases) (auto simp: same_books_def)
  moreover have "cd_history s' = cd_history s2" using p by (auto simp: post_custody_def split: prod.splits sum.splits)
  ultimately show ?thesis using s1 by simp
qed

text \<open>A confirmed delivery has its movement.\<close>

lemma confirmed_movement:
  assumes inv: "custody_inv s" and d: "deliverable fl sig b s u w h n" and low: "js_lower h = h" and ids: "fresh_ids ch s"
    and run: "tatumCryptoWebhook sha rnd fl id ch sig b s = (Confirmed r, s')"
  shows "custody_inv s'" and "deposit_key w h \<in> cm_idempotencyKey ` set (cd_movements s')"
proof -
  have hash: "\<And>g. or_else (wb_txId b) (wb_txHash b) = Some g \<Longrightarrow> js_lower g = g" using d low by (simp add: deliverable_def)
  show inv': "custody_inv s'"
    using webhook_keeps [where env = id, OF run _ _ _ hash] inv ids by (simp add: fresh_ids_def)
  have net: "deposit_key w h = deposit_row_key (js_lower h)"
    using d resolveOwner_network [of _ s u w] by (auto simp: deliverable_def deposit_key_def deposit_row_key_def or_default_def)
  obtain x where "credit_tx sha rnd ch u w h (fl_credit fl (fl_amount fl (wb_amount b))) n s = (Inr x, s')"
    using run deliverable_webhook [OF d, of sha rnd id ch] by (auto simp: transaction_Inl transaction_def split: sum.splits prod.splits)
  from credit_tx_history [OF this] show "deposit_key w h \<in> cm_idempotencyKey ` set (cd_movements s')"
    using inv' unfolding net by (fastforce simp: custody_inv_def keys_follow_movements_def deposit_history_def)
qed

text \<open>C38: A redelivery in another letter case credits the deposit again. The webhook and the history
  compare the hash as it was sent, the movement table compares it in lower case: after any confirmed
  delivery from books in order, a delivery of the same hash in another letter case that passes the
  checks of the handler is confirmed as well, the owner's balance and the provisional clearing account
  are credited a second time, and no movement is added, so the second credit belongs to no deposit.\<close>

theorem mixed_case_redelivery_credits_twice:
  assumes "opening_books s0" and "history (custody_exec sha rnd) s0 s"
    and first: "deliverable fl sig b s u w h n" "js_lower h = h" "fresh_ids ch s"
      "tatumCryptoWebhook sha rnd fl id ch sig b s = (Confirmed r, s1)"
    and again: "deliverable fl' sig' b' s1 u w h' n'" "js_lower h' = h" "h' \<noteq> h"
    and "find_by ur_id u (cd_users s1) = Some x" and "fst (ensureDepositAccount ch' w s1) = Inr account"
    and "\<not> cc_raced ch'" and "undisturbed (cc_ledger ch')" and "decimal_exact rnd" and "0 < n'" "n' < 10 ^ 18"
    and "h' \<noteq> []" "length h' \<le> 118" and "length (user_liability_code u) \<le> 80"
  shows "\<exists>r' s2 y. tatumCryptoWebhook sha rnd fl' id ch' sig' b' s1 = (Confirmed r', s2) \<and>
    find_by ur_id u (cd_users s2) = Some y \<and>
    ur_availableBalance y = ur_availableBalance x + fl_credit fl' (fl_amount fl' (wb_amount b')) \<and>
    account_net ''clearing:custody:unverified:usdc'' (cd_ledger s2) =
      account_net ''clearing:custody:unverified:usdc'' (cd_ledger s1) + 100 * int n' \<and>
    cd_movements s2 = cd_movements s1"
proof -
  have "custody_inv s" using cb.history_inv [OF assms(2) opening_inv [OF assms(1)]] .
  note m = confirmed_movement [OF this first]
  have key: "deposit_key w h' \<in> cm_idempotencyKey ` set (cd_movements s1)"
    using m(2) again(2) first(2) by (simp add: deposit_key_def)
  have new: "Some h' \<notin> hashes s1" using again(1) by (simp add: deliverable_def)
  have p: "postable rnd n' (cc_ledger ch') (provisional_prefix @ h') (cd_ledger s1)"
    using m(1) new assms(13-18) by (auto simp: postable_def custody_inv_def keys_follow_movements_def provisional_prefix_def)
  let ?a = "fl_credit fl' (fl_amount fl' (wb_amount b'))"
  have user: "find_by ur_id u (cd_users s1) \<noteq> None" using assms(10) by simp
  obtain t where c: "credit_tx sha rnd ch' u w h' ?a n' s1 = (Inr (deposit_history ch' u ?a h'), t)"
    and t: "cd_users t = update_by (\<lambda>x. ur_id x = u) (\<lambda>x. x\<lparr>ur_availableBalance := ur_availableBalance x + ?a\<rparr>) (cd_users s1)"
      "cd_movements t = cd_movements s1 @
        (if deposit_key w h' \<in> cm_idempotencyKey ` set (cd_movements s1) then []
         else [deposit_candidate ch' w h' (int n') (Some (cc_history ch')) account])"
      "\<forall>c. account_net c (cd_ledger t) = account_net c (cd_ledger s1) +
        (if c = ''clearing:custody:unverified:usdc'' then 100 * int n' else 0) - (if c = user_liability_code u then 100 * int n' else 0)"
    by (rule credit_progress [where sha = sha and a = ?a, OF user new assms(11) assms(17) assms(12) p assms(19)])
  have "tatumCryptoWebhook sha rnd fl' id ch' sig' b' s1 = (Confirmed (deposit_history ch' u ?a h'), t)"
    using deliverable_webhook [OF again(1)] c by (simp add: transaction_def)
  moreover have "find_by ur_id u (cd_users t) = Some (x\<lparr>ur_availableBalance := ur_availableBalance x + ?a\<rparr>)"
    using assms(10) t(1) by (auto simp: find_by_update_by)
  ultimately show ?thesis using t(2,3) key by (auto simp: user_liability_code_def)
qed

theorem mixed_case_redelivery_credits_twice_witness:
  "\<exists>r1 s1 r2 s2 y.
     tatumCryptoWebhook id id sample_floats id (sample_choice ''m1'') sample_signature (sample_webhook ''0xfe'') sample_books = (Confirmed r1, s1) \<and>
     tatumCryptoWebhook id id sample_floats id (sample_choice ''m2'') sample_signature (sample_webhook ''0xFE'') s1 = (Confirmed r2, s2) \<and>
     find_by ur_id 7 (cd_users s2) = Some y \<and> ur_availableBalance y = 500000000 \<and> cd_movements s2 = [sample_candidate] \<and>
     account_net ''clearing:custody:unverified:usdc'' (cd_ledger s2) = 500000000"
proof -
  obtain r1 s1 where w1: "tatumCryptoWebhook id id sample_floats id (sample_choice ''m1'') sample_signature (sample_webhook ''0xfe'') sample_books = (Confirmed r1, s1)"
    and "history (custody_exec id id) sample_books s1"
    and s1: "custody_inv s1" "cd_movements s1 = [sample_candidate]" "map ur_id (cd_users s1) = [7]"
      "map ur_availableBalance (cd_users s1) = [250000000]" "hashes s1 = {Some ''0xfe''}"
      "account_net ''clearing:custody:unverified:usdc'' (cd_ledger s1) = 250000000"
      "cd_wallets s1 = [sample_wallet]" "cd_accounts s1 = [sample_account]" "cd_evidence s1 = []"
    by (rule sample_credited)
  have low: "js_lower ''0xFE'' = ''0xfe''" "js_lower ''0xfe'' = ''0xfe''" by code_simp+
  have d: "deliverable sample_floats sample_signature (sample_webhook ''0xfe'') sample_books 7 sample_wallet ''0xfe'' 2500000"
    by (rule sample_deliverable) (simp_all add: sample_books_def hashes_def sample_floats_def)
  have d': "deliverable sample_floats sample_signature (sample_webhook ''0xFE'') s1 7 sample_wallet ''0xFE'' 2500000"
    by (rule sample_deliverable) (simp_all add: s1 sample_floats_def)
  have ids: "fresh_ids (sample_choice ''m1'') sample_books" by (simp add: fresh_ids_def sample_books_def)
  obtain x where x: "find_by ur_id 7 (cd_users s1) = Some x" "ur_availableBalance x = 250000000"
    using s1(3,4) by (cases "cd_users s1") auto
  have acc: "fst (ensureDepositAccount (sample_choice ''m2'') sample_wallet s1) = Inr sample_account"
    by (simp add: sample_account_kept s1)
  have l: "length (user_liability_code 7) \<le> 80" by (simp add: user_liability_code_def show_nat.simps)
  from mixed_case_redelivery_credits_twice [OF sample_opening(1) history.stop d low(2) ids w1 d' low(1) _ x(1) acc sample_undisturbed(2,1) decimal_exact_id _ _ _ _ l]
  show ?thesis using w1 x(2) s1(2,6) by (auto simp: sample_floats_def)
qed

text \<open>A rejection is definitive, also when the provider simply does not know the transaction yet. In
  every reachable state, when the returned record fails any check, the movement becomes \<open>FAILED\<close>; an
  empty answer of the provider is such a failure (\<open>TX_NOT_FOUND\<close>, \<open>CHAIN_MISMATCH\<close>), and every later
  verification of the movement returns its status without asking the provider.\<close>

theorem unknown_transaction_fails_for_good:
  assumes "opening_books s0" and "history (custody_exec sha rnd) s0 s"
    and "verify_checks i s = Inr (m, h, account)" and "get (cm_network m) h 6 = Inr obs" and "to_entries obs = []"
    and "undisturbed (cc_ledger ch)" and "decimal_exact rnd" and "cm_amountBaseUnits m < 10 ^ 18" and "length i \<le> 118"
  shows "\<exists>n t. verifyDepositMovement sha rnd id ch SOURCE_TX get i s = (Inr (NotVerified (FAILURES [TX_NOT_FOUND, CHAIN_MISMATCH])), t) \<and>
    find_by cm_id i (cd_movements t) = Some n \<and> cm_status n = FAILED \<and>
    verifyDepositMovement sha rnd env ch' SOURCE_TX get' i t = (Inr (NotVerified (STATUS FAILED)), t)"
proof -
  have inv: "custody_inv s" using cb.history_inv [OF assms(2) opening_inv [OF assms(1)]] .
  have m: "find_by cm_id i (cd_movements s) = Some m" "cm_kind m = DEPOSIT_IN" "is_candidate m" "cm_txHash m = Some h"
    using verify_checks_row [OF assms(3)] by simp_all
  then have d: "movement_decimals m = 6"
    using inv find_by_Some [OF m(1)] by (simp add: custody_inv_def deposit_ok_def movement_decimals_def)
  have v: "validate_evidence account m h (to_entries obs) = ([TX_NOT_FOUND, CHAIN_MISMATCH], None)"
    by (simp add: validate_evidence_def assms(5) fail_if_def Let_def)
  obtain n t where tx: "reject_tx sha rnd ch m h [TX_NOT_FOUND, CHAIN_MISMATCH] s = (Inr False, t)"
    and n: "cm_status n = FAILED" "cm_kind n = DEPOSIT_IN" "find_by cm_id i (cd_movements t) = Some n"
    by (rule reject_tx_progress [OF inv m assms(6-9)])
  have r: "verifyDepositMovement sha rnd id ch SOURCE_TX get i s = (Inr (NotVerified (FAILURES [TX_NOT_FOUND, CHAIN_MISMATCH])), t)"
    using assms(3,4) tx d v by (simp add: verifyDepositMovement_def settle_observation_def transaction_def and_then_def)
  have "verifyDepositMovement sha rnd env ch' SOURCE_TX get' i t = (Inr (NotVerified (STATUS FAILED)), t)"
    using n by (simp add: verifyDepositMovement_def verify_checks_def)
  with r n show ?thesis by blast
qed

theorem unknown_transaction_fails_for_good_witness:
  "\<exists>s n (t :: custody_db).
     verifyDepositMovement id id id (sample_choice ''v1'') SOURCE_TX (\<lambda>net h d. Inr \<lparr>to_network = net, to_hash = h, to_entries = [], to_observedAt = 12\<rparr>)
       ''m1'' s = (Inr (NotVerified (FAILURES [TX_NOT_FOUND, CHAIN_MISMATCH])), t) \<and>
     find_by cm_id ''m1'' (cd_movements t) = Some n \<and> cm_status n = FAILED \<and>
     verifyDepositMovement id id id (sample_choice ''v2'') SOURCE_TX sample_provider ''m1'' t = (Inr (NotVerified (STATUS FAILED)), t)"
proof -
  obtain s where h: "history (custody_exec id id) sample_books s" and s: "cd_movements s = [sample_candidate]"
    "cd_wallets s = [sample_wallet]" "cd_accounts s = [sample_account]"
    by (rule sample_credited) blast
  let ?get = "\<lambda>net h d. Inr \<lparr>to_network = net, to_hash = h, to_entries = [], to_observedAt = 12\<rparr>"
  have "cm_amountBaseUnits sample_candidate < 10 ^ 18" by (simp add: sample_candidate_def deposit_candidate_def)
  then show ?thesis
    using unknown_transaction_fails_for_good [where get = ?get and ch = "sample_choice ''v1''" and ch' = "sample_choice ''v2''"
        and env = id and get' = sample_provider,
        OF sample_opening(1) h sample_deposit_checks [OF s] refl _ sample_undisturbed(1) decimal_exact_id] by auto
qed

text \<open>C39: Amounts keep their value between the text forms. The decimal text the service derives from a
  number of base units is read back as the same number by the webhook parser and by the provider parser,
  and by the ledger as the same quantity in its eight-decimal units.\<close>

theorem amount_text_round_trip:
  assumes "0 < n" and "d \<le> 8"
  shows "exactWebhookAmountToBaseUnits (JStr (decimalStringFromBaseUnits (int n) d)) d = Inr n \<and>
    decimalStringToBaseUnits (JStr (decimalStringFromBaseUnits (int n) d)) d = Inr n \<and>
    toExactDecimal (JStr (decimalStringFromBaseUnits (int n) d)) = Inr (n * 10 ^ (8 - d))"
  using stored_text_webhook stored_text_provider stored_text_ledger assms by blast

theorem amount_text_round_trip_witness:
  "exactWebhookAmountToBaseUnits (JStr (decimalStringFromBaseUnits 2500000 6)) 6 = Inr 2500000"
  using amount_text_round_trip [of 2500000 6] by simp

text \<open>The historical backfill stops at the oldest rows. It reads twice its limit of the oldest
  completed crypto deposits and skips those that have a movement; once all of these have one, it creates
  nothing, whatever later deposits lack a movement.\<close>

theorem backfill_stops_at_oldest:
  assumes "\<forall>h \<in> set (take (limit * 2) (filter (\<lambda>h. hr_type h = ''DEPOSIT_CRYPTO'' \<and> hr_status h = ''COMPLETED'' \<and> hr_txHash h \<noteq> None) (cd_history s))).
    deposit_row_key (js_lower (or_empty (hr_txHash h))) \<in> cm_idempotencyKey ` set (cd_movements s)"
  shows "buildDepositCandidatesFromHistory ch limit s = (Inr 0, s)"
  unfolding buildDepositCandidatesFromHistory_def
  by (rule build_candidates_idle) (use assms in \<open>simp add: deposit_row_key_def\<close>)

definition sample_row :: "string \<Rightarrow> history_row" where
  "sample_row h = \<lparr>hr_id = h, hr_userId = 7, hr_type = ''DEPOSIT_CRYPTO'', hr_amountUsdc = 250000000, hr_feeUsdc = 0,
     hr_txHash = Some h, hr_status = ''COMPLETED'', hr_createdAt = 1\<rparr>"

theorem backfill_stops_at_oldest_witness:
  "\<exists>s. deposit_row_key ''0x3'' \<notin> cm_idempotencyKey ` set (cd_movements s) \<and> sample_row ''0x3'' \<in> set (cd_history s) \<and>
     buildDepositCandidatesFromHistory sample_choice 1 s = (Inr 0, s)"
proof -
  let ?s = "sample_books\<lparr>cd_history := [sample_row ''0x1'', sample_row ''0x2'', sample_row ''0x3''],
      cd_movements := [sample_candidate\<lparr>cm_idempotencyKey := deposit_row_key ''0x1''\<rparr>, sample_candidate\<lparr>cm_idempotencyKey := deposit_row_key ''0x2''\<rparr>]\<rparr>"
  have low: "js_lower ''0x1'' = ''0x1''" "js_lower ''0x2'' = ''0x2''" by code_simp+
  have "buildDepositCandidatesFromHistory sample_choice 1 ?s = (Inr 0, ?s)"
    by (rule backfill_stops_at_oldest) (simp add: sample_row_def or_empty_def low numeral_2_eq_2)
  moreover have "deposit_row_key ''0x3'' \<notin> cm_idempotencyKey ` set (cd_movements ?s)" by (simp add: deposit_row_key_def)
  moreover have "sample_row ''0x3'' \<in> set (cd_history ?s)" by simp
  ultimately show ?thesis by blast
qed

end
