(* ===== verification/Custody_Wide.thy ===== *)
theory Custody_Wide
  imports Custody_Outcome
begin

text \<open>
  The custody books in the histories the deployed system has. Beside the calls of the custody service
  they contain webhooks with hashes in any letter case, the backfill of movements for historical rows,
  deposits booked by the legacy route with no movement, and any write of other services to the tables
  the custody service only reads. What other services do not do is write the movement table, post under
  the keys of the reclassifications, use the custody or the suspense account, or credit the
  provisional account: only \<^verbatim>\<open>custodyAccountingService.js\<close> does.

  In these histories a deposit need not have a provisional journal, and a journal need not have a
  deposit. The invariant therefore counts what was reclassified: the journals under
  \<open>verify_prefix\<close> and \<open>reject_prefix\<close> belong one to one to verified and failed deposits with a
  provisional journal, and the accounts hold exactly their amounts.
\<close>

section \<open>The invariant\<close>

definition reclass_key :: "string \<Rightarrow> bool" where
  "reclass_key k \<longleftrightarrow> take 22 k = verify_prefix \<or> take 22 k = reject_prefix"

definition booked_total :: "string \<Rightarrow> movement_status \<Rightarrow> custody_movement list \<Rightarrow> ledger \<Rightarrow> int" where
  "booked_total pre st ms L =
     sum_rows (\<lambda>m. if cm_kind m = DEPOSIT_IN \<and> cm_status m = st \<and> booked_key (pre @ cm_id m) L then cm_amountBaseUnits m else 0) ms"

definition reclassified_from :: "string \<Rightarrow> movement_status \<Rightarrow> custody_movement list \<Rightarrow> ledger \<Rightarrow> bool" where
  "reclassified_from pre st ms L \<longleftrightarrow>
     (\<forall>i. booked_key (pre @ i) L \<longrightarrow>
        (\<exists>m h. find_by cm_id i ms = Some m \<and> cm_kind m = DEPOSIT_IN \<and> cm_status m = st \<and> cm_txHash m = Some h \<and>
           booked_key (provisional_prefix @ h) L))"

definition sound_deposit :: "custody_movement \<Rightarrow> bool" where
  "sound_deposit m \<longleftrightarrow>
     (cm_kind m = DEPOSIT_IN \<longrightarrow> 0 < cm_amountBaseUnits m \<and> cm_decimals m = 6 \<and> cm_status m \<noteq> RECONCILIATION_REQUIRED)"

definition wide_books :: "custody_movement list \<Rightarrow> ledger \<Rightarrow> bool" where
  "wide_books ms L \<longleftrightarrow>
     distinct (map cm_id ms) \<and> list_all sound_deposit ms \<and> accounts_classified L \<and>
     (\<forall>(st, acct, pre) \<in> set settlement_ways. reclassified_from pre st ms L \<and> account_net acct L = 100 * booked_total pre st ms L) \<and>
     keyed_net reclass_key ''clearing:custody:unverified:usdc'' L =
       - 100 * (booked_total verify_prefix VERIFIED ms L + booked_total reject_prefix FAILED ms L)"

definition wide_inv :: "custody_db \<Rightarrow> bool" where
  "wide_inv s \<longleftrightarrow> wide_books (cd_movements s) (cd_ledger s)"

text \<open>A movement keeps its economics and leaves \<open>CANDIDATE\<close> once; journals stay; a deposit that has left
  \<open>CANDIDATE\<close> is not reclassified any more; and the provisional account receives, but never returns,
  what was not reclassified.\<close>

definition received :: "ledger \<Rightarrow> int" where
  "received L = keyed_net (\<lambda>k. \<not> reclass_key k) ''clearing:custody:unverified:usdc'' L"

definition wide_step :: "custody_movement list \<Rightarrow> ledger \<Rightarrow> custody_movement list \<Rightarrow> ledger \<Rightarrow> bool" where
  "wide_step ms L ms' L' \<longleftrightarrow>
     rows_evolve cm_id same_deposit ms ms' \<and> (\<forall>k. booked_key k L \<longrightarrow> booked_key k L') \<and> received L \<le> received L' \<and>
     (\<forall>i m. find_by cm_id i ms = Some m \<and> \<not> is_candidate m \<longrightarrow>
        (\<forall>pre \<in> {verify_prefix, reject_prefix}. booked_key (pre @ i) L' \<longrightarrow> booked_key (pre @ i) L))"

definition wide_evolves :: "custody_db \<Rightarrow> custody_db \<Rightarrow> bool" where
  "wide_evolves s t \<longleftrightarrow> wide_step (cd_movements s) (cd_ledger s) (cd_movements t) (cd_ledger t)"

lemma wide_step_refl [simp]: "wide_step ms L ms L"
  by (simp add: wide_step_def rows_evolve_refl)

lemma wide_step_trans:
  assumes "wide_step ms L ms1 L1" and "wide_step ms1 L1 ms2 L2"
  shows "wide_step ms L ms2 L2"
proof -
  have "rows_evolve cm_id same_deposit ms ms2"
    using rows_evolve_trans [OF transp_same_deposit] assms by (auto simp: wide_step_def)
  moreover have "booked_key (pre @ i) L"
    if m: "find_by cm_id i ms = Some m" "\<not> is_candidate m" and pre: "pre \<in> {verify_prefix, reject_prefix}" "booked_key (pre @ i) L2" for i m pre
  proof -
    obtain n where n: "find_by cm_id i ms1 = Some n" "same_deposit m n" using assms(1) m(1) by (auto simp: wide_step_def dest: rows_evolveD)
    then have "\<not> is_candidate n" using m(2) by (auto simp: same_deposit_def is_candidate_def)
    then have "booked_key (pre @ i) L1" using assms(2) n(1) pre by (auto simp: wide_step_def)
    then show ?thesis using assms(1) m pre(1) by (auto simp: wide_step_def)
  qed
  ultimately show ?thesis using assms by (auto simp: wide_step_def)
qed

lemma wide_evolves_refl [simp]: "wide_evolves s s"
  and wide_evolves_trans: "wide_evolves s t \<Longrightarrow> wide_evolves t u \<Longrightarrow> wide_evolves s u"
  using wide_step_trans by (auto simp: wide_evolves_def)

lemma wide_same:
  "cd_movements t = cd_movements s \<Longrightarrow> cd_ledger t = cd_ledger s \<Longrightarrow> wide_inv s \<Longrightarrow> wide_inv t \<and> wide_evolves s t"
  by (simp add: wide_inv_def wide_evolves_def)

lemma reclass_keys [simp]:
  "reclass_key (verify_prefix @ i)" "reclass_key (reject_prefix @ i)" "\<not> reclass_key (provisional_prefix @ h)"
  by (simp_all add: reclass_key_def verify_prefix_def reject_prefix_def provisional_prefix_def)

section \<open>New movements\<close>

lemma booked_total_append:
  assumes "\<And>m. m \<in> set xs \<Longrightarrow> cm_kind m = DEPOSIT_IN \<Longrightarrow> is_candidate m"
  shows "st \<noteq> CANDIDATE \<Longrightarrow> booked_total pre st (ms @ xs) L = booked_total pre st ms L"
  unfolding booked_total_def using assms by (induction xs) (auto simp: is_candidate_def)

lemma wide_append:
  assumes w: "wide_books ms L" and d: "distinct (map cm_id (ms @ xs))" and "list_all sound_deposit xs"
    and c: "\<And>m. m \<in> set xs \<Longrightarrow> cm_kind m = DEPOSIT_IN \<Longrightarrow> is_candidate m"
  shows "wide_books (ms @ xs) L \<and> wide_step ms L (ms @ xs) L"
proof -
  have "reclassified_from pre st (ms @ xs) L" if "reclassified_from pre st ms L" for pre st
    using that unfolding reclassified_from_def by (metis find_by_append option.simps(5))
  then have "wide_books (ms @ xs) L"
    using w d assms(3) booked_total_append [OF c] by (auto simp: wide_books_def settlement_ways_def)
  then show ?thesis by (simp add: wide_step_def rows_evolve_append)
qed

section \<open>Postings of others\<close>

definition wide_posting :: "post_params \<Rightarrow> bool" where
  "wide_posting p \<longleftrightarrow>
     \<not> reclass_key (pp_idempotencyKey p) \<and>
     (\<forall>l \<in> set (pp_lines p). li_account l \<noteq> ''custody:deposit:usdc'' \<and> li_account l \<noteq> ''clearing:custody:rejected:usdc'' \<and>
        (li_account l = ''clearing:custody:unverified:usdc'' \<longrightarrow> li_credit l = JNull))"

lemma wide_moves:
  assumes "wide_posting p"
  shows "posting_moves rnd p ''custody:deposit:usdc'' = 0" "posting_moves rnd p ''clearing:custody:rejected:usdc'' = 0"
    "0 \<le> posting_moves rnd p ''clearing:custody:unverified:usdc''"
proof -
  have "posting_moves rnd p ''custody:deposit:usdc'' = 0 \<and> posting_moves rnd p ''clearing:custody:rejected:usdc'' = 0 \<and>
    0 \<le> posting_moves rnd p ''clearing:custody:unverified:usdc''"
  proof (cases "validate_posting rnd p")
    case (Inr x)
    obtain ls conv where x: "x = (ls, conv)" by (cases x)
    have "traverse_sum normalize_line (pp_lines p) = Inr ls"
      using Inr x by (auto simp: validate_posting_def split: option.splits)
    then have "list_all2 (\<lambda>l n. normalize_line l = Inr n) (pp_lines p) ls" by (simp add: traverse_sum_Inr)
    moreover have "\<forall>l \<in> set (pp_lines p). li_account l \<noteq> ''custody:deposit:usdc'' \<and> li_account l \<noteq> ''clearing:custody:rejected:usdc'' \<and>
        (li_account l = ''clearing:custody:unverified:usdc'' \<longrightarrow> li_credit l = JNull)"
      using assms by (simp add: wide_posting_def)
    ultimately have "sum_rows (line_net ''custody:deposit:usdc'') ls = 0 \<and> sum_rows (line_net ''clearing:custody:rejected:usdc'') ls = 0 \<and>
        0 \<le> sum_rows (line_net ''clearing:custody:unverified:usdc'') ls"
    proof (induction rule: list_all2_induct)
      case (Cons l ls' n ns)
      have n: "nl_account n = li_account l" "0 \<le> nl_debit n" "li_credit l = JNull \<Longrightarrow> nl_credit n = 0"
        using Cons(1) by (auto simp: normalize_line_def optional_quantity_def simp del: toExactDecimal.simps split: if_splits sum.splits)
      then show ?case using Cons by (auto simp: line_net_def)
    qed simp
    then show ?thesis using Inr x by (simp add: posting_moves_def posted_lines_def)
  qed (simp add: posting_moves_def posted_lines_def)
  then show "posting_moves rnd p ''custody:deposit:usdc'' = 0" "posting_moves rnd p ''clearing:custody:rejected:usdc'' = 0"
    "0 \<le> posting_moves rnd p ''clearing:custody:unverified:usdc''" by blast+
qed

lemma wide_post:
  assumes w: "wide_books ms L" and p: "post sha rnd ch True p L = (Inr res, L')" "wide_posting p"
  shows "wide_books ms L' \<and> wide_step ms L ms L'"
proof -
  have k: "booked_key k L' \<longleftrightarrow> booked_key k L \<or> k = pp_idempotencyKey p" for k using lp.book_key [OF p(1)] by simp
  have r: "booked_key k L' \<longleftrightarrow> booked_key k L" if "reclass_key k" for k using k that p(2) by (auto simp: wide_posting_def)
  then have t: "booked_total pre st ms L' = booked_total pre st ms L" if "pre \<in> {verify_prefix, reject_prefix}" for pre st
    using that by (auto simp: booked_total_def)
  have "account_net c L' = account_net c L" if "c \<in> {''custody:deposit:usdc'', ''clearing:custody:rejected:usdc''}" for c
    using lp.book_net [OF p(1), of c] wide_moves(1,2) [OF p(2)] that by auto
  moreover have "keyed_net reclass_key c L' = keyed_net reclass_key c L" for c
    using post_keyed_net [OF p(1), of reclass_key c] p(2) by (simp add: wide_posting_def)
  moreover have "received L \<le> received L'"
    using post_keyed_net [OF p(1), of "\<lambda>k. \<not> reclass_key k" "''clearing:custody:unverified:usdc''"] wide_moves(3) [OF p(2)]
    by (simp add: received_def)
  moreover have "reclassified_from pre st ms L'" if "reclassified_from pre st ms L" "pre \<in> {verify_prefix, reject_prefix}" for pre st
    unfolding reclassified_from_def
  proof (intro allI impI)
    fix i assume "booked_key (pre @ i) L'"
    then have "booked_key (pre @ i) L" using r that(2) by auto
    then show "\<exists>m h. find_by cm_id i ms = Some m \<and> cm_kind m = DEPOSIT_IN \<and> cm_status m = st \<and> cm_txHash m = Some h \<and>
           booked_key (provisional_prefix @ h) L'"
      using that(1) k unfolding reclassified_from_def by blast
  qed
  ultimately have "wide_books ms L'" "received L \<le> received L'"
    using w t post_classified [OF p(1)] by (simp_all add: wide_books_def settlement_ways_def)
  moreover have "booked_key (pre @ i) L' \<longleftrightarrow> booked_key (pre @ i) L" if "pre \<in> {verify_prefix, reject_prefix}" for pre i
    using that r by auto
  moreover have "booked_key j L \<Longrightarrow> booked_key j L'" for j using k by blast
  ultimately show ?thesis by (simp add: wide_step_def rows_evolve_refl)
qed

section \<open>Settling a candidate\<close>

lemma booked_total_settle:
  assumes d: "distinct (map cm_id ms)" and r: "find_by cm_id i ms = Some r" "is_candidate r" "cm_kind r = DEPOSIT_IN"
    and f: "keeps_deposit f" and ne: "st' \<noteq> CANDIDATE"
    and keys: "\<And>j. j \<noteq> i \<Longrightarrow> booked_key (pre @ j) L' = booked_key (pre @ j) L"
  shows "booked_total pre st' (update_by (\<lambda>m. cm_id m = i) f ms) L' =
    booked_total pre st' ms L + (if cm_status (f r) = st' \<and> booked_key (pre @ i) L' then cm_amountBaseUnits r else 0)"
proof -
  let ?v = "\<lambda>L m. if cm_kind m = DEPOSIT_IN \<and> cm_status m = st' \<and> booked_key (pre @ cm_id m) L then cm_amountBaseUnits m else 0"
  have ri: "cm_id r = i" "r \<in> set ms" using find_by_Some [OF r(1)] by simp_all
  have "sum_rows (?v L') ms = sum_rows (?v L) ms"
  proof (rule sum_rows_cong)
    fix m assume m: "m \<in> set ms"
    show "?v L' m = ?v L m"
    proof (cases "cm_id m = i")
      case True
      then have "m = r" using find_by_unique [OF d r(1) m] by simp
      then show ?thesis using r(2) ne by (simp add: is_candidate_def)
    qed (simp add: keys)
  qed
  moreover have "?v L' r = 0" using r(2) ne by (simp add: is_candidate_def)
  ultimately show ?thesis
    using sum_update_row [OF d r(1), of "?v L'" f] f r(3) ri(1) by (simp add: booked_total_def keeps_deposit_def)
qed

text \<open>What a reclassification of movement \<open>i\<close> does to the ledger: nothing when the deposit has no
  provisional journal, and otherwise one journal that moves the amount.\<close>

definition reclass_moves :: "string \<Rightarrow> string \<Rightarrow> string \<Rightarrow> string \<Rightarrow> int \<Rightarrow> ledger \<Rightarrow> ledger \<Rightarrow> bool" where
  "reclass_moves acct pre i h n L L' \<longleftrightarrow>
     (\<forall>k. booked_key k L' \<longleftrightarrow> booked_key k L \<or> L' \<noteq> L \<and> k = pre @ i) \<and> (L' \<noteq> L \<longrightarrow> booked_key (provisional_prefix @ h) L) \<and>
     (accounts_classified L \<longrightarrow> accounts_classified L') \<and>
     (\<forall>P c. keyed_net P c L' = keyed_net P c L + (if L' = L \<or> \<not> P (pre @ i) then 0
        else (if acct = c then n else 0) - (if ''clearing:custody:unverified:usdc'' = c then n else 0)))"

lemma reclass_moves_net:
  assumes "reclass_moves acct pre i h n L L'"
  shows "account_net c L' = account_net c L + (if L' = L then 0
    else (if acct = c then n else 0) - (if ''clearing:custody:unverified:usdc'' = c then n else 0))"
  using assms keyed_net_split [of c L' "\<lambda>_. True"] keyed_net_split [of c L "\<lambda>_. True"] by (simp add: reclass_moves_def)

lemma posted_reclass:
  assumes unbooked: "\<not> booked_key (pre @ i) L"
    and L: "L' = L \<or> booked_key (provisional_prefix @ h) L \<and> pp_idempotencyKey p = pre @ i \<and>
        post sha rnd ch True p L = (Inr res, L') \<and>
        pp_lines p = [\<lparr>li_account = acct, li_debit = v, li_credit = JNull\<rparr>,
                 \<lparr>li_account = ''clearing:custody:unverified:usdc'', li_debit = JNull, li_credit = v\<rparr>]"
    and n: "toExactDecimal v = Inr n"
  shows "reclass_moves acct pre i h (int n) L L'"
proof (cases "L' = L")
  case False
  then have p: "booked_key (provisional_prefix @ h) L" "pp_idempotencyKey p = pre @ i" "post sha rnd ch True p L = (Inr res, L')"
      "pp_lines p = [\<lparr>li_account = acct, li_debit = v, li_credit = JNull\<rparr>,
         \<lparr>li_account = ''clearing:custody:unverified:usdc'', li_debit = JNull, li_credit = v\<rparr>]"
    using L by blast+
  show ?thesis
    using False p(1,2) unbooked lp.book_key [OF p(3)] post_classified [OF p(3)] post_keyed_net [OF p(3)] transfer_moves [OF p(3,4) n]
    by (auto simp: reclass_moves_def)
qed (use unbooked in \<open>auto simp: reclass_moves_def\<close>)

lemma unsettled_key:
  assumes "wide_books ms L" and "find_by cm_id i ms = Some r" "is_candidate r" and "(st, acct, pre) \<in> set settlement_ways"
  shows "\<not> booked_key (pre @ i) L"
  using assms by (auto simp: wide_books_def settlement_ways_def reclassified_from_def is_candidate_def)

lemma find_settled:
  assumes "keeps_deposit f"
  shows "find_by cm_id j (update_by (\<lambda>m. cm_id m = i) f ms) = map_option (\<lambda>m. if j = i then f m else m) (find_by cm_id j ms)"
  using assms find_by_update_by [of cm_id f j "\<lambda>m. cm_id m = i" ms]
  by (cases "find_by cm_id j ms") (auto simp: keeps_deposit_def dest: find_by_SomeD)

lemma reclassified_settle:
  assumes r: "find_by cm_id i ms = Some r" "is_candidate r" "cm_kind r = DEPOSIT_IN" "cm_txHash r = Some h"
    and f: "keeps_deposit f" "cm_status (f r) = st" and way: "(st, acct, pre) \<in> set settlement_ways" "(st', acct', pre') \<in> set settlement_ways"
    and mv: "reclass_moves acct pre i h n L L'" and old: "reclassified_from pre' st' ms L"
  shows "reclassified_from pre' st' (update_by (\<lambda>m. cm_id m = i) f ms) L'"
  unfolding reclassified_from_def
proof (intro allI impI)
  fix j assume b: "booked_key (pre' @ j) L'"
  have mono: "booked_key k L \<Longrightarrow> booked_key k L'" for k using mv by (simp add: reclass_moves_def)
  show "\<exists>m h. find_by cm_id j (update_by (\<lambda>m. cm_id m = i) f ms) = Some m \<and> cm_kind m = DEPOSIT_IN \<and> cm_status m = st' \<and> cm_txHash m = Some h \<and>
         booked_key (provisional_prefix @ h) L'"
  proof (cases "booked_key (pre' @ j) L")
    case False
    then have k: "pre' @ j = pre @ i" "booked_key (provisional_prefix @ h) L" using b mv by (auto simp: reclass_moves_def)
    then have "j = i" "st' = st" using way by (auto simp: settlement_ways_def verify_prefix_def reject_prefix_def)
    then show ?thesis using r f mono [OF k(2)] by (auto simp: find_settled [OF f(1)] keeps_deposit_def)
  next
    case True
    then obtain m g where m: "find_by cm_id j ms = Some m" "cm_kind m = DEPOSIT_IN" "cm_status m = st'" "cm_txHash m = Some g"
      "booked_key (provisional_prefix @ g) L" using old by (auto simp: reclassified_from_def)
    have "j \<noteq> i" using m(1,3) r(1,2) way(2) by (auto simp: is_candidate_def settlement_ways_def)
    then show ?thesis using m mono by (simp add: find_settled [OF f(1)])
  qed
qed

lemma sound_settle:
  assumes "wide_books ms L" and r: "find_by cm_id i ms = Some r" and f: "keeps_deposit f" "cm_status (f r) \<noteq> RECONCILIATION_REQUIRED"
  shows "list_all sound_deposit (update_by (\<lambda>m. cm_id m = i) f ms)"
proof -
  have d: "distinct (map cm_id ms)" and s: "\<And>m. m \<in> set ms \<Longrightarrow> sound_deposit m" using assms(1) by (simp_all add: wide_books_def list_all_iff)
  have "sound_deposit (f r)" using s find_by_Some [OF r] f by (auto simp: sound_deposit_def keeps_deposit_def)
  moreover have "m = r" if "m \<in> set ms" "cm_id m = i" for m using find_by_unique [OF d r] that by blast
  ultimately show ?thesis using s unfolding list_all_iff set_update_by by auto
qed

lemma settle_step:
  assumes d: "distinct (map cm_id ms)" and r: "find_by cm_id i ms = Some r" "is_candidate r" and f: "keeps_deposit f"
    and way: "(st, acct, pre) \<in> set settlement_ways" and mv: "reclass_moves acct pre i h n L L'"
  shows "wide_step ms L (update_by (\<lambda>m. cm_id m = i) f ms) L'"
proof -
  have "same_deposit m (f m)" if "m \<in> set ms" "cm_id m = i" for m
    using find_by_unique [OF d r(1) that] r(2) f by (simp add: same_deposit_def keeps_deposit_def)
  then have "rows_evolve cm_id same_deposit ms (update_by (\<lambda>m. cm_id m = i) f ms)"
    using f by (auto simp: rows_evolve_def find_by_update_by keeps_deposit_def dest!: find_by_Some)
  moreover have "reclass_key (pre @ i)" using way by (auto simp: settlement_ways_def)
  then have "received L' = received L" using mv unfolding reclass_moves_def received_def by simp
  moreover have "booked_key (pre' @ j) L"
    if "find_by cm_id j ms = Some m" "\<not> is_candidate m" "pre' \<in> {verify_prefix, reject_prefix}" "booked_key (pre' @ j) L'" for j m pre'
  proof -
    have "j \<noteq> i" using that(1,2) r by auto
    then have "pre' @ j \<noteq> pre @ i" using that(3) way by (auto simp: settlement_ways_def)
    then show ?thesis using that(4) mv by (auto simp: reclass_moves_def)
  qed
  moreover have "booked_key k L \<Longrightarrow> booked_key k L'" for k using mv by (simp add: reclass_moves_def)
  ultimately show ?thesis by (auto simp: wide_step_def)
qed

lemma settled_totals:
  assumes d: "distinct (map cm_id ms)" and r: "find_by cm_id i ms = Some r" "is_candidate r" "cm_kind r = DEPOSIT_IN"
    and f: "keeps_deposit f" "cm_status (f r) = st" and way: "(st, acct, pre) \<in> set settlement_ways" "(st', acct', pre') \<in> set settlement_ways"
    and free: "\<not> booked_key (pre @ i) L" and mv: "reclass_moves acct pre i h n L L'"
  shows "booked_total pre' st' (update_by (\<lambda>m. cm_id m = i) f ms) L' =
    booked_total pre' st' ms L + (if st' = st \<and> L' \<noteq> L then cm_amountBaseUnits r else 0)"
proof -
  have "st' \<noteq> CANDIDATE" using way(2) by (auto simp: settlement_ways_def)
  moreover have "booked_key (pre' @ j) L' = booked_key (pre' @ j) L" if "j \<noteq> i" for j
    using mv that way by (auto simp: reclass_moves_def settlement_ways_def)
  moreover have "booked_key (pre @ i) L' \<longleftrightarrow> L' \<noteq> L" using mv free by (auto simp: reclass_moves_def)
  ultimately show ?thesis
    using booked_total_settle [OF d r f(1), of st' pre' L' L] f(2) way by (auto simp: settlement_ways_def)
qed

lemma wide_settle:
  assumes w: "wide_books ms L" and r: "find_by cm_id i ms = Some r" "is_candidate r" "cm_kind r = DEPOSIT_IN" "cm_txHash r = Some h"
    and f: "keeps_deposit f" "cm_status (f r) = st" and way: "(st, acct, pre) \<in> set settlement_ways"
    and mv: "reclass_moves acct pre i h n L L'" and n: "n = 100 * cm_amountBaseUnits r"
  shows "wide_books (update_by (\<lambda>m. cm_id m = i) f ms) L' \<and> wide_step ms L (update_by (\<lambda>m. cm_id m = i) f ms) L'"
proof -
  let ?ms = "update_by (\<lambda>m. cm_id m = i) f ms"
  have d: "distinct (map cm_id ms)" and cl: "accounts_classified L" using w by (simp_all add: wide_books_def)
  note tot = settled_totals [OF d r(1-3) f way _ unsettled_key [OF w r(1,2) way] mv]
  have old: "reclassified_from pre' st' ms L" "account_net acct' L = 100 * booked_total pre' st' ms L"
    if "(st', acct', pre') \<in> set settlement_ways" for st' acct' pre'
    using w that by (auto simp: wide_books_def)
  have "reclassified_from pre' st' ?ms L' \<and> account_net acct' L' = 100 * booked_total pre' st' ?ms L'"
    if way': "(st', acct', pre') \<in> set settlement_ways" for st' acct' pre'
    using reclassified_settle [OF r f way way' mv old(1) [OF way']] reclass_moves_net [OF mv, of acct'] old(2) [OF way'] tot [OF way'] n way way'
    by (auto simp: settlement_ways_def)
  moreover have "keyed_net reclass_key ''clearing:custody:unverified:usdc'' L' =
       - 100 * (booked_total verify_prefix VERIFIED ?ms L' + booked_total reject_prefix FAILED ?ms L')"
  proof -
    have "reclass_key (pre @ i)" "acct \<noteq> ''clearing:custody:unverified:usdc''" using way by (auto simp: settlement_ways_def)
    then have "keyed_net reclass_key ''clearing:custody:unverified:usdc'' L' =
        keyed_net reclass_key ''clearing:custody:unverified:usdc'' L - (if L' = L then 0 else n)"
      using mv unfolding reclass_moves_def by simp
    then show ?thesis
      using w tot [of VERIFIED "''custody:deposit:usdc''" verify_prefix] tot [of FAILED "''clearing:custody:rejected:usdc''" reject_prefix] n way
      by (auto simp: wide_books_def settlement_ways_def)
  qed
  moreover have "list_all sound_deposit ?ms" by (rule sound_settle [OF w r(1) f(1)]) (use f(2) way in \<open>auto simp: settlement_ways_def\<close>)
  moreover have "distinct (map cm_id ?ms)" using d f(1) by (simp add: keeps_deposit_def)
  moreover have "accounts_classified L'" using mv cl by (simp add: reclass_moves_def)
  ultimately show ?thesis using settle_step [OF d r(1,2) f(1) way mv] by (auto simp: wide_books_def)
qed

section \<open>The calls\<close>

lemma wide_claim:
  assumes inv: "wide_inv s" and c: "claims cm_id is_candidate i (cd_movements s) \<noteq> 0"
  obtains r where "find_by cm_id i (cd_movements s) = Some r" and "is_candidate r"
  using ver.claims_iff [of "cd_movements s" i] c inv by (auto simp: wide_inv_def wide_books_def)

lemma reclassify_cases:
  assumes "reclassify sha rnd ch h p t = (Inr u, t')"
  obtains res L where "t' = t\<lparr>cd_ledger := L\<rparr>"
    and "L = cd_ledger t \<or> booked_key (provisional_prefix @ h) (cd_ledger t) \<and> post sha rnd (cc_ledger ch) True p (cd_ledger t) = (Inr res, L)"
proof (cases "find_by lt_idempotencyKey (provisional_prefix @ h) (txns (cd_ledger t))")
  case None
  then show thesis using assms that [of "cd_ledger t"] by (simp add: reclassify_def)
next
  case (Some x)
  then have "booked_key (provisional_prefix @ h) (cd_ledger t)" using find_by_Some [OF Some] unfolding booked_key_def by (metis image_eqI)
  then show thesis using assms Some that by (auto simp: reclassify_def post_custody_def split: prod.splits sum.splits)
qed

lemma wide_amount:
  assumes inv: "wide_inv s" and r: "find_by cm_id i (cd_movements s) = Some r" and m: "same_deposit m r" "cm_kind r = DEPOSIT_IN"
  obtains n where "toExactDecimal (JStr (decimalStringFromBaseUnits (cm_amountBaseUnits m) (movement_decimals m))) = Inr n"
    "int n = 100 * cm_amountBaseUnits r"
proof -
  have "sound_deposit r" using inv find_by_Some [OF r] by (simp add: wide_inv_def wide_books_def list_all_iff)
  then show thesis using candidate_posting_amount [of m] m that by (auto simp: sound_deposit_def same_deposit_def simp del: toExactDecimal.simps)
qed

lemma reject_tx_wide:
  assumes inv: "wide_inv s" and m: "read_earlier m h s" and tx: "reject_tx sha rnd ch m h fs s = (Inr b, s')"
  shows "wide_inv s' \<and> wide_evolves s s'"
proof (cases "claims cm_id is_candidate (cm_id m) (cd_movements s) = 0")
  case True
  with tx inv show ?thesis by (simp add: reject_tx_def)
next
  case False
  then obtain r where r: "find_by cm_id (cm_id m) (cd_movements s) = Some r" "is_candidate r" by (rule wide_claim [OF inv])
  have sd: "same_deposit m r" and kr: "cm_kind r = DEPOSIT_IN" "cm_txHash r = Some h"
    using m r(1) by (auto simp: read_earlier_def same_deposit_def)
  let ?f = "set_status FAILED (Some (joined_failures fs))" and ?p = "rejection_posting m h"
  from tx False obtain u where rc: "reclassify sha rnd ch h ?p (claim_movement FAILED (Some (joined_failures fs)) (cm_id m) s) = (Inr u, s')"
    by (auto simp: reject_tx_def and_then_Inr)
  obtain res L where s': "s' = (claim_movement FAILED (Some (joined_failures fs)) (cm_id m) s)\<lparr>cd_ledger := L\<rparr>"
    and L: "L = cd_ledger s \<or> booked_key (provisional_prefix @ h) (cd_ledger s) \<and> post sha rnd (cc_ledger ch) True ?p (cd_ledger s) = (Inr res, L)"
    by (rule reclassify_cases [OF rc]) (simp add: claim_movement_def)
  obtain n where n: "toExactDecimal (JStr (decimalStringFromBaseUnits (cm_amountBaseUnits m) (movement_decimals m))) = Inr n"
    "int n = 100 * cm_amountBaseUnits r" by (rule wide_amount [OF inv r(1) sd kr(1)])
  have d: "distinct (map cm_id (cd_movements s))" "wide_books (cd_movements s) (cd_ledger s)" using inv by (simp_all add: wide_inv_def wide_books_def)
  have "wide_books (update_by (\<lambda>m'. cm_id m' = cm_id m) ?f (cd_movements s)) L \<and>
      wide_step (cd_movements s) (cd_ledger s) (update_by (\<lambda>m'. cm_id m' = cm_id m) ?f (cd_movements s)) L"
  proof (rule wide_settle [OF d(2) r kr, where st = FAILED and acct = "''clearing:custody:rejected:usdc''" and pre = reject_prefix and n = "int n"])
    show "reclass_moves ''clearing:custody:rejected:usdc'' reject_prefix (cm_id m) h (int n) (cd_ledger s) L"
      by (rule posted_reclass [where p = ?p and sha = sha and rnd = rnd and ch = "cc_ledger ch" and res = res, OF unsettled_key [OF d(2) r, where st = FAILED and acct = "''clearing:custody:rejected:usdc''"] _ n(1)])
        (use L in \<open>simp_all add: rejection_posting_def custody_posting_def reject_prefix_def Let_def settlement_ways_def\<close>)
  qed (use n(2) in \<open>simp_all add: keeps_deposit_def set_status_def settlement_ways_def\<close>)
  then show ?thesis using claimed_rows [OF d(1) r] by (simp add: s' claim_movement_def wide_inv_def wide_evolves_def)
qed

lemma verify_tx_wide:
  assumes inv: "wide_inv s" and m: "read_earlier m h s" and tx: "verify_tx sha rnd ch account m h seen e s = (Inr b, s')"
  shows "wide_inv s' \<and> wide_evolves s s'"
proof (cases "claims cm_id is_candidate (cm_id m) (cd_movements s) = 1")
  case False
  with tx inv show ?thesis by (simp add: verify_tx_def)
next
  case True
  then have "claims cm_id is_candidate (cm_id m) (cd_movements s) \<noteq> 0" by simp
  then obtain r where r: "find_by cm_id (cm_id m) (cd_movements s) = Some r" "is_candidate r" by (rule wide_claim [OF inv])
  have sd: "same_deposit m r" and kr: "cm_kind r = DEPOSIT_IN" "cm_txHash r = Some h"
    using m r(1) by (auto simp: read_earlier_def same_deposit_def)
  let ?x = "transaction_evidence ch account m h seen e" and ?p = "verification_posting m h"
  let ?f = "\<lambda>m. attach_evidence (cc_evidence ch) e (set_status VERIFIED None m)"
  from tx True obtain u s1 where rc: "reclassify sha rnd ch h ?p (claim_movement VERIFIED None (cm_id m) s) = (Inr u, s1)"
    and s': "s' = s1\<lparr>cd_evidence := cd_evidence s1 @ [?x],
       cd_movements := update_by (\<lambda>r. cm_id r = cm_id m) (attach_evidence (cc_evidence ch) e) (cd_movements s1)\<rparr>"
    by (auto simp: verify_tx_def and_then_Inr Let_def transaction_evidence_def split: if_splits option.splits)
  obtain res L where s1: "s1 = (claim_movement VERIFIED None (cm_id m) s)\<lparr>cd_ledger := L\<rparr>"
    and L: "L = cd_ledger s \<or> booked_key (provisional_prefix @ h) (cd_ledger s) \<and> post sha rnd (cc_ledger ch) True ?p (cd_ledger s) = (Inr res, L)"
    by (rule reclassify_cases [OF rc]) (simp add: claim_movement_def)
  obtain n where n: "toExactDecimal (JStr (decimalStringFromBaseUnits (cm_amountBaseUnits m) (movement_decimals m))) = Inr n"
    "int n = 100 * cm_amountBaseUnits r" by (rule wide_amount [OF inv r(1) sd kr(1)])
  have d: "distinct (map cm_id (cd_movements s))" "wide_books (cd_movements s) (cd_ledger s)" using inv by (simp_all add: wide_inv_def wide_books_def)
  have "update_by (\<lambda>r. cm_id r = cm_id m) (attach_evidence (cc_evidence ch) e)
      (update_by (\<lambda>r. cm_id r = cm_id m) (set_status VERIFIED None) (cd_movements s)) =
      update_by (\<lambda>m'. cm_id m' = cm_id m) ?f (cd_movements s)"
    by (auto simp: update_by_def set_status_def)
  then have t: "cd_movements s' = update_by (\<lambda>m'. cm_id m' = cm_id m) ?f (cd_movements s)" "cd_ledger s' = L"
    using claimed_rows [OF d(1) r] by (simp_all add: s' s1 claim_movement_def)
  have "wide_books (update_by (\<lambda>m'. cm_id m' = cm_id m) ?f (cd_movements s)) L \<and>
      wide_step (cd_movements s) (cd_ledger s) (update_by (\<lambda>m'. cm_id m' = cm_id m) ?f (cd_movements s)) L"
  proof (rule wide_settle [OF d(2) r kr, where st = VERIFIED and acct = "''custody:deposit:usdc''" and pre = verify_prefix and n = "int n"])
    show "reclass_moves ''custody:deposit:usdc'' verify_prefix (cm_id m) h (int n) (cd_ledger s) L"
      by (rule posted_reclass [where p = ?p and sha = sha and rnd = rnd and ch = "cc_ledger ch" and res = res, OF unsettled_key [OF d(2) r, where st = VERIFIED and acct = "''custody:deposit:usdc''"] _ n(1)])
        (use L in \<open>simp_all add: verification_posting_def custody_posting_def verify_prefix_def Let_def settlement_ways_def\<close>)
  qed (use n(2) in \<open>simp_all add: keeps_deposit_def set_status_def attach_evidence_def settlement_ways_def\<close>)
  then show ?thesis by (simp add: wide_inv_def wide_evolves_def t)
qed

lemma settle_observation_wide:
  assumes inv: "wide_inv s" and m: "read_earlier m h s" and o: "settle_observation sha rnd ch m h account obs s = (r, s')"
  shows "wide_inv s' \<and> wide_evolves s s'"
proof (cases "validate_evidence account m h (to_entries obs)")
  case (Pair fs x)
  show ?thesis
  proof (cases fs)
    case (Cons g gs)
    then have "s' = snd (transaction id (reject_tx sha rnd ch m h fs) s)"
      using o Pair and_then_snd [of "\<lambda>_ s'. (Inr (NotVerified (FAILURES fs)), s')" "transaction id (reject_tx sha rnd ch m h fs) s"]
      by (auto simp: settle_observation_def dest!: arg_cong [where f = snd])
    then obtain y where "transaction id (reject_tx sha rnd ch m h fs) s = (y, s')" by (metis prod.collapse)
    then show ?thesis by (cases rule: transaction_id_cases) (use inv reject_tx_wide [OF inv m] in auto)
  next
    case Nil
    then obtain e where x: "x = Some e" using validated_entry [of account m h "to_entries obs" x] Pair by auto
    let ?tx = "transaction id (verify_tx sha rnd ch account m h (to_observedAt obs) e) s"
    have "s' = snd ?tx" using o Pair Nil x verify_outcome_snd [of ?tx] by (auto simp: settle_observation_def)
    then obtain y where "?tx = (y, s')" by (metis prod.collapse)
    then show ?thesis by (cases rule: transaction_id_cases) (use inv verify_tx_wide [OF inv m] in auto)
  qed
qed

lemma verify_wide:
  assumes v: "verifyDepositMovement sha rnd env ch source get i s = (r, s')"
    and inv: "wide_inv s" "wide_inv (env s)" "wide_evolves s (env s)"
  shows "wide_inv s' \<and> wide_evolves s s'"
proof (cases "s' = s")
  case False
  then obtain m h account obs where c: "verify_checks i s = Inr (m, h, account)"
    and o: "settle_observation sha rnd ch m h account obs (env s) = (r, s')"
    using v by (auto simp: verifyDepositMovement_def split: if_splits sum.splits)
  have "read_earlier m h (env s)"
    using verify_checks_Inr [OF c] inv(3)
    by (auto simp: read_earlier_def wide_evolves_def wide_step_def dest!: rows_evolveD dest: find_by_SomeD)
  from settle_observation_wide [OF inv(2) this o] show ?thesis using wide_evolves_trans [OF inv(3)] by blast
qed (use inv in simp)

lemma record_wide:
  assumes inv: "wide_inv s" and c: "recordDepositCandidate ch w h a th s = (Inr (m, new), s')"
    and d: "distinct (map cm_id (cd_movements s'))"
  shows "wide_inv s' \<and> wide_evolves s s' \<and> cd_ledger s' = cd_ledger s \<and> (\<exists>xs. cd_movements s' = cd_movements s @ xs)"
  using c
proof (cases rule: recordDepositCandidate_cases)
  case known
  then show ?thesis using wide_same [of s' s] inv by (simp add: same_books_def)
next
  case (added acc t)
  have t: "cd_movements s' = cd_movements s @ [m]" "cd_ledger s' = cd_ledger s" using added(2,7) by (simp_all add: same_books_def)
  have "sound_deposit m" "is_candidate m" using added(3,5) by (simp_all add: sound_deposit_def deposit_candidate_def is_candidate_def)
  then show ?thesis
    using wide_append [of "cd_movements s" "cd_ledger s" "[m]"] inv d t by (auto simp: wide_inv_def wide_evolves_def)
qed

lemma credit_wide:
  assumes inv: "wide_inv s" and new: "cc_movement ch \<notin> cm_id ` set (cd_movements s)"
    and tx: "credit_tx sha rnd ch u w h a n s = (Inr row, s')"
  shows "wide_inv s' \<and> wide_evolves s s'"
proof -
  let ?row = "deposit_history ch u a h"
  obtain s1 m b s2 where s1: "cd_movements s1 = cd_movements s" "cd_ledger s1 = cd_ledger s"
    and c: "recordDepositCandidate ch w h (int n) (Some (hr_id ?row)) s1 = (Inr (m, b), s2)"
    and p: "post_custody sha rnd ch (deposit_posting u h n (hr_id ?row)) s2 = (Inr (), s')"
    using tx
    by (auto simp: credit_tx_def Let_def and_then_Inr split: option.splits if_splits
        intro!: that [of "s\<lparr>cd_users := _, cd_masterCrypto := _, cd_hotWallet := _, cd_history := _\<rparr>"])
  have i1: "wide_inv s1" "wide_evolves s s1" using wide_same [OF s1 inv] by simp_all
  have "distinct (map cm_id (cd_movements s2))"
    using c inv new s1(1)
    by (cases rule: recordDepositCandidate_cases) (auto simp: same_books_def wide_inv_def wide_books_def deposit_candidate_def)
  from record_wide [OF i1(1) c this] have i2: "wide_inv s2" "wide_evolves s1 s2" by simp_all
  obtain res L where post: "post sha rnd (cc_ledger ch) True (deposit_posting u h n (hr_id ?row)) (cd_ledger s2) = (Inr res, L)"
    and s': "s' = s2\<lparr>cd_ledger := L\<rparr>"
    using p by (auto simp: post_custody_def split: prod.splits sum.splits)
  have "wide_posting (deposit_posting u h n (hr_id ?row))"
    by (simp add: wide_posting_def deposit_posting_def Let_def reclass_key_def verify_prefix_def reject_prefix_def user_liability_code_def)
  from wide_post [OF _ post this] have "wide_inv s' \<and> wide_evolves s2 s'" using i2(1) by (simp add: s' wide_inv_def wide_evolves_def)
  then show ?thesis using i1 i2 wide_evolves_trans by blast
qed

lemma webhook_wide:
  assumes v: "tatumCryptoWebhook sha rnd fl env ch sig b s = (r, s')"
    and inv: "wide_inv s" "wide_inv (env s)" "wide_evolves s (env s)" and new: "cc_movement ch \<notin> cm_id ` set (cd_movements (env s))"
  shows "wide_inv s' \<and> wide_evolves s s'"
proof -
  have "s' = s \<or> s' = env s \<or> (\<exists>u w h a n row. credit_tx sha rnd ch u w h a n (env s) = (Inr row, s'))"
    using v by (auto simp: tatumCryptoWebhook_def Let_def transaction_Inl split: option.splits if_splits sum.splits prod.splits)
  then show ?thesis using inv credit_wide [OF inv(2) new] wide_evolves_trans [OF inv(3)] by (elim disjE exE) auto
qed

lemma build_wide:
  assumes "build_candidates ch limit hs n s = (r, s')" and "wide_inv s" and "distinct (map cm_id (cd_movements s'))"
  shows "wide_inv s' \<and> wide_evolves s s' \<and> cd_ledger s' = cd_ledger s \<and> (\<exists>xs. cd_movements s' = cd_movements s @ xs)"
  using assms
proof (induction hs arbitrary: n s)
  case (Cons h hs)
  consider "s' = s" | "build_candidates ch limit hs n s = (r, s')"
    | w m new s1 where "recordDepositCandidate (ch (hr_id h)) w (or_empty (hr_txHash h)) (base_units_of (hr_amountUsdc h)) (Some (hr_id h)) s =
        (Inr (m, new), s1)" "build_candidates ch limit hs (Suc n) s1 = (r, s')"
    using Cons.prems(1) by (auto simp: transaction_def split: if_splits option.splits sum.splits prod.splits)
  then show ?case
  proof cases
    case 3
    have ids: "\<exists>xs. cd_movements s' = cd_movements s1 @ xs"
    proof -
      have "\<exists>xs. cd_movements t' = cd_movements t @ xs" if "build_candidates ch limit gs k t = (q, t')" for gs k t q t'
        using that
      proof (induction gs arbitrary: k t)
        case (Cons g gs)
        consider "t' = t" | "build_candidates ch limit gs k t = (q, t')"
          | w m new t1 where "recordDepositCandidate (ch (hr_id g)) w (or_empty (hr_txHash g)) (base_units_of (hr_amountUsdc g)) (Some (hr_id g)) t =
              (Inr (m, new), t1)" "build_candidates ch limit gs (Suc k) t1 = (q, t')"
          using Cons.prems by (auto simp: transaction_def split: if_splits option.splits sum.splits prod.splits)
        then show ?case
        proof cases
          case 3
          from 3(1) have "\<exists>xs. cd_movements t1 = cd_movements t @ xs"
            by (cases rule: recordDepositCandidate_cases) (auto simp: same_books_def)
          with Cons.IH [OF 3(2)] show ?thesis by auto
        qed (use Cons.IH in auto)
      qed simp
      then show ?thesis using 3(2) by blast
    qed
    then have "distinct (map cm_id (cd_movements s1))" using Cons.prems(3) by auto
    from record_wide [OF Cons.prems(2) 3(1) this]
    have 1: "wide_inv s1" "wide_evolves s s1" "cd_ledger s1 = cd_ledger s" "\<exists>xs. cd_movements s1 = cd_movements s @ xs" by simp_all
    from Cons.IH [OF 3(2) 1(1) Cons.prems(3)] show ?thesis using 1 wide_evolves_trans by fastforce
  qed (use Cons in auto)
qed simp

lemma execution_wide:
  assumes inv: "wide_inv s" and new: "cc_movement ch \<notin> cm_id ` set (cd_movements s)"
    and tx: "recordExecutionMovement ch x hot s = (Inr r, s')"
  shows "wide_inv s' \<and> wide_evolves s s'"
proof (cases "s' = s")
  case False
  then obtain t kind src dst where t: "same_books s t" and k: "kind \<noteq> DEPOSIT_IN"
    and i: "insert_movement ch (execution_movement ch x kind src dst) t = (Inr r, s')"
    using recordExecutionMovement_cases [OF tx] by blast
  have "cd_movements s' = cd_movements s @ [execution_movement ch x kind src dst]" "cd_ledger s' = cd_ledger s"
    using i t by (auto simp: insert_movement_def same_books_def split: if_splits)
  then show ?thesis
    using wide_append [of "cd_movements s" "cd_ledger s" "[execution_movement ch x kind src dst]"] inv k new
    by (simp add: wide_inv_def wide_evolves_def wide_books_def sound_deposit_def execution_movement_def)
qed (use inv in simp)

lemma observe_wide:
  assumes v: "observeAccountBalance env id ch source get account s = (r, s')"
    and inv: "wide_inv s" "wide_inv (env s)" "wide_evolves s (env s)"
  shows "wide_inv s' \<and> wide_evolves s s'"
proof -
  have tx: "cd_movements t = cd_movements s \<and> cd_ledger t = cd_ledger s" if "observe_tx ch account obs s = (x, t)" for obs x s t
    using that by (auto simp: observe_tx_def Let_def split: if_splits option.splits)
  have "s' = s \<or> cd_movements s' = cd_movements (env s) \<and> cd_ledger s' = cd_ledger (env s)"
    using v tx
    by (auto simp: observeAccountBalance_def Let_def transaction_def split: if_splits sum.splits prod.splits option.splits)
  then show ?thesis using wide_same [of s' "env s"] inv wide_evolves_trans [OF inv(3)] by auto
qed

section \<open>Histories\<close>

text \<open>The calls of \<open>custody_call\<close>, with the webhooks in any letter case, the backfill acting, and the
  wider guards on what other services post and write.\<close>

fun wide_effect ::
  "(string \<Rightarrow> string) \<Rightarrow> (int \<Rightarrow> int) \<Rightarrow> (custody_db \<Rightarrow> custody_db) \<Rightarrow> custody_call \<Rightarrow> custody_db \<Rightarrow> custody_db" where
  "wide_effect sha rnd env (Webhook fl ch sig b) s =
     (if fresh_ids ch (env s) then snd (tatumCryptoWebhook sha rnd fl env ch sig b s) else s)"
| "wide_effect sha rnd env (Verify ch source get i) s =
     (if fresh_ids ch (env s) then snd (verifyDepositMovement sha rnd env ch source get i s) else s)"
| "wide_effect sha rnd env (Execution ch x hot) s =
     (if fresh_ids ch s then snd (transaction id (recordExecutionMovement ch x hot) s) else s)"
| "wide_effect sha rnd env (BuildCandidates ch limit) s =
     (let t = snd (buildDepositCandidatesFromHistory ch limit s) in if distinct (map cm_id (cd_movements t)) then t else s)"
| "wide_effect sha rnd env (Observe ch source get account) s =
     (if fresh_ids ch (env s) then snd (observeAccountBalance env id ch source get account s) else s)"
| "wide_effect sha rnd env (Sync hot) s = snd (syncAndListEligibleAccounts hot s)"
| "wide_effect sha rnd env (ForeignPosting ch p) s =
     (case post sha rnd ch True p (cd_ledger s) of
        (Inr _, L) \<Rightarrow> if wide_posting p then s\<lparr>cd_ledger := L\<rparr> else s
      | (Inl _, L) \<Rightarrow> s)"
| "wide_effect sha rnd env (Elsewhere f) s =
     (if cd_movements (f s) = cd_movements s \<and> cd_ledger (f s) = cd_ledger s then f s else s)"

definition wide_exec ::
  "(string \<Rightarrow> string) \<Rightarrow> (int \<Rightarrow> int) \<Rightarrow> (custody_db \<Rightarrow> custody_db) \<Rightarrow> custody_call \<Rightarrow> custody_db \<Rightarrow> unit \<times> custody_db" where
  "wide_exec sha rnd env c s = ((), wide_effect sha rnd env c s)"

interpretation cw: interleaved_service "wide_exec sha rnd" wide_inv wide_evolves
proof
  fix env c s r s'
  assume ex: "wide_exec sha rnd env c s = (r, s')" and inv: "wide_inv s" "wide_inv (env s)" "wide_evolves s (env s)"
  have s': "s' = wide_effect sha rnd env c s" using ex by (simp add: wide_exec_def)
  show "wide_inv s' \<and> wide_evolves s s'"
  proof (cases c)
    case (Webhook fl ch sig b)
    then show ?thesis
      using s' inv webhook_wide [where env = env, OF prod.collapse [symmetric] inv, where sha = sha and rnd = rnd and fl = fl and ch = ch and sig = sig and b = b]
      by (simp add: fresh_ids_def)
  next
    case (Verify ch source get i)
    then show ?thesis
      using s' inv verify_wide [where env = env, OF prod.collapse [symmetric] inv, where sha = sha and rnd = rnd and ch = ch and source = source and get = get and i = i]
      by auto
  next
    case (Execution ch x hot)
    obtain y t where y: "recordExecutionMovement ch x hot s = (y, t)" by fastforce
    show ?thesis
      using Execution s' inv(1) y execution_wide [OF inv(1), of ch x hot] by (cases y) (auto simp: fresh_ids_def transaction_def)
  next
    case (BuildCandidates ch limit)
    then show ?thesis
      using s' inv(1) build_wide [OF prod.collapse [symmetric] inv(1)]
      by (simp add: buildDepositCandidatesFromHistory_def Let_def)
  next
    case (Observe ch source get account)
    then show ?thesis
      using s' inv observe_wide [where env = env, OF prod.collapse [symmetric] inv, where ch = ch and source = source and get = get and account = account]
      by auto
  next
    case (Sync hot)
    then show ?thesis
      using sync_accounts_books [OF prod.collapse [symmetric]] wide_same [of s' s] s' inv(1)
      by (simp add: syncAndListEligibleAccounts_def same_books_def)
  next
    case (ForeignPosting ch p)
    then show ?thesis
      using s' inv(1) wide_post [of "cd_movements s" "cd_ledger s" sha rnd ch p]
      by (auto simp: wide_inv_def wide_evolves_def split: prod.splits sum.splits)
  next
    case (Elsewhere f)
    then show ?thesis using s' inv(1) wide_same [of s' s] by (simp split: if_splits)
  qed
qed (use wide_evolves_trans in auto)

definition wide_opening :: "custody_db \<Rightarrow> bool" where
  "wide_opening s \<longleftrightarrow> cd_movements s = [] \<and> cd_ledger s = empty_ledger"

lemma wide_opening_inv:
  assumes "wide_opening s"
  shows "wide_inv s"
  using assms
  by (auto simp: wide_opening_def wide_inv_def wide_books_def reclassified_from_def booked_total_def booked_key_def
      account_net_def keyed_net_def empty_ledger_def [symmetric] settlement_ways_def) (simp_all add: empty_ledger_def)


section \<open>Properties\<close>

text \<open>C8: The ledger follows the custody movements, over all histories of webhooks in any letter case,
  verifications, executions, backfills, observations, deposits of the legacy route and postings of other
  services. In every reachable state the custody account holds exactly the verified deposits that were
  reclassified and the suspense account exactly the failed ones that were (base units of six decimals,
  column units of eight); every reclassification journal belongs to such a deposit, and that deposit has
  its provisional journal; and the provisional clearing account holds what it received less exactly what
  was reclassified.\<close>

theorem custody_books_follow_movements:
  assumes "wide_opening s0" and "history (wide_exec sha rnd) s0 s"
  shows "account_net ''custody:deposit:usdc'' (cd_ledger s) = 100 * booked_total verify_prefix VERIFIED (cd_movements s) (cd_ledger s) \<and>
    account_net ''clearing:custody:rejected:usdc'' (cd_ledger s) = 100 * booked_total reject_prefix FAILED (cd_movements s) (cd_ledger s) \<and>
    account_net ''clearing:custody:unverified:usdc'' (cd_ledger s) = received (cd_ledger s) -
      100 * (booked_total verify_prefix VERIFIED (cd_movements s) (cd_ledger s) + booked_total reject_prefix FAILED (cd_movements s) (cd_ledger s)) \<and>
    0 \<le> received (cd_ledger s) \<and>
    (\<forall>(st, acct, pre) \<in> set settlement_ways. \<forall>i. booked_key (pre @ i) (cd_ledger s) \<longrightarrow>
      (\<exists>m h. find_by cm_id i (cd_movements s) = Some m \<and> cm_kind m = DEPOSIT_IN \<and> cm_status m = st \<and> cm_txHash m = Some h \<and>
         booked_key (provisional_prefix @ h) (cd_ledger s)))"
proof -
  have w: "wide_books (cd_movements s) (cd_ledger s)"
    using cw.history_inv [OF assms(2) wide_opening_inv [OF assms(1)]] by (simp add: wide_inv_def)
  have "received (cd_ledger s0) \<le> received (cd_ledger s)"
    using cw.history_evolves [OF assms(2) wide_opening_inv [OF assms(1)]] by (simp add: wide_evolves_def wide_step_def)
  then have "0 \<le> received (cd_ledger s)"
    using assms(1) by (simp add: wide_opening_def received_def keyed_net_def empty_ledger_def)
  then show ?thesis
    using w keyed_net_split [of "''clearing:custody:unverified:usdc''" "cd_ledger s" reclass_key]
    by (auto simp: wide_books_def settlement_ways_def reclassified_from_def received_def)
qed

text \<open>A deposit delivered twice, the second time in upper case.\<close>

lemma sample_wide:
  obtains s1 s2 where "history (wide_exec id id) sample_books s1" "history (wide_exec id id) s1 s2"
    and "cd_movements s1 = [sample_candidate]" "cd_movements s2 = [sample_candidate]"
    and "account_net ''clearing:custody:unverified:usdc'' (cd_ledger s2) = 500000000"
    and "custody_inv s1" "account_net ''clearing:custody:unverified:usdc'' (cd_ledger s1) = 250000000"
proof -
  obtain r1 s1 where w1: "tatumCryptoWebhook id id sample_floats id (sample_choice ''m1'') sample_signature (sample_webhook ''0xfe'') sample_books = (Confirmed r1, s1)"
    and "history (custody_exec id id) sample_books s1"
    and s1: "custody_inv s1" "cd_movements s1 = [sample_candidate]" "map ur_id (cd_users s1) = [7]"
      "map ur_availableBalance (cd_users s1) = [250000000]" "hashes s1 = {Some ''0xfe''}"
      "account_net ''clearing:custody:unverified:usdc'' (cd_ledger s1) = 250000000"
      "cd_wallets s1 = [sample_wallet]" "cd_accounts s1 = [sample_account]" "cd_evidence s1 = []"
    by (rule sample_credited)
  have low: "js_lower ''0xFE'' = ''0xfe''" "js_lower ''0xfe'' = ''0xfe''" by code_simp+
  have key: "deposit_row_key (js_lower ''0xFE'') \<in> cm_idempotencyKey ` set (cd_movements s1)"
    by (simp add: s1(2) sample_candidate_def deposit_candidate_def deposit_key_def deposit_row_key_def sample_wallet_def or_default_def low)
  have new: "''0xFE'' \<noteq> []" "length ''0xFE'' \<le> 100" "Some ''0xFE'' \<notin> hashes s1" by (simp_all add: s1(5))
  obtain r2 s2 where w2: "tatumCryptoWebhook id id sample_floats id (sample_choice ''m2'') sample_signature (sample_webhook ''0xFE'') s1 = (Confirmed r2, s2)"
    and s2: "cd_movements s2 = cd_movements s1 @ []"
      "account_net ''clearing:custody:unverified:usdc'' (cd_ledger s2) = account_net ''clearing:custody:unverified:usdc'' (cd_ledger s1) + 250000000"
    by (rule sample_credit [OF s1(1,7,8,3) new, of "''m2''"]) (simp only: key if_True)
  have "fresh_ids (sample_choice ''m1'') sample_books" "fresh_ids (sample_choice ''m2'') s1"
    by (simp_all add: fresh_ids_def sample_books_def s1(2,9) sample_candidate_def deposit_candidate_def sample_choice_def)
  then have "wide_exec id id id (Webhook sample_floats (sample_choice ''m1'') sample_signature (sample_webhook ''0xfe'')) sample_books = ((), s1)"
    "wide_exec id id id (Webhook sample_floats (sample_choice ''m2'') sample_signature (sample_webhook ''0xFE'')) s1 = ((), s2)"
    using w1 w2 by (simp_all add: wide_exec_def)
  note calls = history_call_alone [where exec = "wide_exec id id", OF history.stop this(1)]
    history_call_alone [where exec = "wide_exec id id", OF history.stop this(2)]
  show thesis by (rule that [OF calls]) (simp_all add: s1(1,2,6) s2)
qed

lemma sample_wide_opening: "wide_opening sample_books"
  by (simp add: wide_opening_def sample_books_def)

theorem custody_books_follow_movements_witness:
  "\<exists>s. history (wide_exec id id) sample_books s \<and> cd_movements s = [sample_candidate] \<and> received (cd_ledger s) = 500000000"
proof -
  obtain s1 s2 where h: "history (wide_exec id id) sample_books s1" "history (wide_exec id id) s1 s2"
    and m: "cd_movements s2 = [sample_candidate]" and n: "account_net ''clearing:custody:unverified:usdc'' (cd_ledger s2) = 500000000"
    by (rule sample_wide)
  have "cm_status sample_candidate = CANDIDATE" by (simp add: sample_candidate_def deposit_candidate_def)
  then have "received (cd_ledger s2) = 500000000"
    using custody_books_follow_movements [OF sample_wide_opening history_trans [OF h(2,1)]] n by (simp add: booked_total_def m)
  with history_trans [OF h(2,1)] m show ?thesis by blast
qed

end
