(* ===== verification/Deposit_Machine.thy ===== *)
theory Deposit_Machine
  imports Custody_Wide
begin

text \<open>
  What the custody service promises of deposits, as an abstract machine. A movement is opened as a
  candidate, and a candidate is verified or rejected once. The provisional balance receives credits,
  with or without a movement of their own; a settlement either moves the deposit's amount out of it, into
  the custody or the suspense balance, or, when the deposit has no provisional journal, moves nothing, and
  it is never made up for later. The detailed books refine the machine: under the abstraction that reads
  the deposits of the movement table, whether each was reclassified, and the balances of three ledger
  accounts, every stretch of a history of \<open>wide_exec\<close> is a run of the machine.
\<close>

section \<open>The abstract machine\<close>

type_synonym deposit_table = "string \<rightharpoonup> int \<times> movement_status \<times> bool"

record deposit_state =
  dep_rows :: deposit_table
  dep_received :: int
  dep_provisional :: int
  dep_custody :: int
  dep_suspense :: int

definition moved :: "bool \<Rightarrow> int \<Rightarrow> int" where
  "moved b a = (if b then 100 * a else 0)"

inductive deposit_step :: "deposit_state \<Rightarrow> deposit_state \<Rightarrow> bool" where
  opened: "dep_rows d i = None \<Longrightarrow> 0 < a \<Longrightarrow> deposit_step d (d\<lparr>dep_rows := (dep_rows d)(i \<mapsto> (a, CANDIDATE, False))\<rparr>)"
| receive: "0 \<le> x \<Longrightarrow>
    deposit_step d (d\<lparr>dep_received := dep_received d + x, dep_provisional := dep_provisional d + x\<rparr>)"
| verify: "dep_rows d i = Some (a, CANDIDATE, False) \<Longrightarrow>
    deposit_step d (d\<lparr>dep_rows := (dep_rows d)(i \<mapsto> (a, VERIFIED, b)), dep_provisional := dep_provisional d - moved b a,
                      dep_custody := dep_custody d + moved b a\<rparr>)"
| reject: "dep_rows d i = Some (a, CANDIDATE, False) \<Longrightarrow>
    deposit_step d (d\<lparr>dep_rows := (dep_rows d)(i \<mapsto> (a, FAILED, b)), dep_provisional := dep_provisional d - moved b a,
                      dep_suspense := dep_suspense d + moved b a\<rparr>)"

definition empty_deposits :: deposit_state where
  "empty_deposits = \<lparr>dep_rows = Map.empty, dep_received = 0, dep_provisional = 0, dep_custody = 0, dep_suspense = 0\<rparr>"

section \<open>The abstraction\<close>

definition was_reclassified :: "ledger \<Rightarrow> custody_movement \<Rightarrow> bool" where
  "was_reclassified L m \<longleftrightarrow> booked_key (verify_prefix @ cm_id m) L \<or> booked_key (reject_prefix @ cm_id m) L"

definition deposit_rows :: "custody_db \<Rightarrow> (string \<times> int \<times> movement_status \<times> bool) list" where
  "deposit_rows s =
     map (\<lambda>m. (cm_id m, cm_amountBaseUnits m, cm_status m, was_reclassified (cd_ledger s) m))
       (filter (\<lambda>m. cm_kind m = DEPOSIT_IN) (cd_movements s))"

definition deposit_abs :: "custody_db \<Rightarrow> deposit_state" where
  "deposit_abs s =
     \<lparr>dep_rows = map_of (deposit_rows s),
      dep_received = received (cd_ledger s),
      dep_provisional = account_net ''clearing:custody:unverified:usdc'' (cd_ledger s),
      dep_custody = account_net ''custody:deposit:usdc'' (cd_ledger s),
      dep_suspense = account_net ''clearing:custody:rejected:usdc'' (cd_ledger s)\<rparr>"

section \<open>Pools\<close>

fun weight :: "movement_status \<Rightarrow> int \<times> movement_status \<times> bool \<Rightarrow> int" where
  "weight st (a, st', b) = (if st' = st then moved b a else 0)"

definition pool :: "movement_status \<Rightarrow> deposit_table \<Rightarrow> int" where
  "pool st f = (\<Sum>i\<in>dom f. weight st (the (f i)))"

definition canonical_state :: "deposit_table \<Rightarrow> int \<Rightarrow> deposit_state" where
  "canonical_state f n =
     \<lparr>dep_rows = f, dep_received = n, dep_provisional = n - pool VERIFIED f - pool FAILED f,
      dep_custody = pool VERIFIED f, dep_suspense = pool FAILED f\<rparr>"

lemma pool_new: "finite (dom f) \<Longrightarrow> f i = None \<Longrightarrow> pool st (f(i \<mapsto> x)) = pool st f + weight st x"
proof -
  assume fin: "finite (dom f)" and i: "f i = None"
  have "(\<Sum>k\<in>dom f. weight st (the ((f(i \<mapsto> x)) k))) = pool st f"
    unfolding pool_def using i by (intro sum.cong) auto
  moreover have "i \<notin> dom f" using i by auto
  ultimately show ?thesis using fin by (simp add: pool_def)
qed

lemma pool_change:
  assumes "finite (dom f)" and "f i = Some y"
  shows "pool st (f(i \<mapsto> x)) = pool st f - weight st y + weight st x"
proof -
  have "pool st (f(i := None)) + weight st x = pool st (f(i \<mapsto> x))"
    using pool_new [of "f(i := None)" i st x] assms(1) by simp
  moreover have "pool st (f(i := None)) + weight st y = pool st f"
    using pool_new [of "f(i := None)" i st y] assms by (simp add: fun_upd_idem)
  ultimately show ?thesis by simp
qed

lemma sum_map_of:
  "distinct (map fst xs) \<Longrightarrow> pool st (map_of xs) = sum_list (map (weight st \<circ> snd) xs)"
proof (induction xs)
  case (Cons x xs)
  obtain h y where x: "x = (h, y)" by (cases x)
  have "map_of xs h = None" using Cons.prems x by (simp add: map_of_eq_None_iff)
  then have "pool st ((map_of xs)(h \<mapsto> y)) = pool st (map_of xs) + weight st y"
    by (rule pool_new [OF finite_dom_map_of])
  moreover have "map_of (x # xs) = (map_of xs)(h \<mapsto> y)" by (simp add: x)
  ultimately show ?case using Cons by (simp only: map_append) (simp add: x)
qed (simp add: pool_def)

section \<open>Runs between canonical states\<close>

definition proper_row :: "int \<times> movement_status \<times> bool \<Rightarrow> bool" where
  "proper_row x \<longleftrightarrow> (case x of (a, st, b) \<Rightarrow> 0 < a \<and> (st = CANDIDATE \<and> \<not> b \<or> st = VERIFIED \<or> st = FAILED))"

lemma open_canonical:
  assumes "finite (dom f)" and "f i = None" and "0 < a"
  shows "deposit_step (canonical_state f n) (canonical_state (f(i \<mapsto> (a, CANDIDATE, False))) n)"
  using deposit_step.opened [of "canonical_state f n" i a] assms by (simp add: canonical_state_def pool_new)

lemma settle_canonical:
  assumes "finite (dom f)" and "f i = Some (a, CANDIDATE, False)" and "st = VERIFIED \<or> st = FAILED"
  shows "deposit_step (canonical_state f n) (canonical_state (f(i \<mapsto> (a, st, b))) n)"
  using deposit_step.verify [of "canonical_state f n" i a b] deposit_step.reject [of "canonical_state f n" i a b] assms
  by (auto simp: canonical_state_def pool_change algebra_simps)

lemma receive_canonical: "n \<le> k \<Longrightarrow> deposit_step (canonical_state f n) (canonical_state f k)"
  using deposit_step.receive [of "k - n" "canonical_state f n"] by (simp add: canonical_state_def algebra_simps)

lemma reach_one:
  assumes "finite (dom f)" and "f i = None \<or> f i = Some (a, st, b) \<or> f i = Some (a, CANDIDATE, False)" and p: "proper_row (a, st, b)"
  shows "deposit_step\<^sup>*\<^sup>* (canonical_state f n) (canonical_state (f(i \<mapsto> (a, st, b))) n)"
proof (cases "f i = None")
  case True
  let ?g = "f(i \<mapsto> (a, CANDIDATE, False))"
  have c: "deposit_step (canonical_state f n) (canonical_state ?g n)" using True assms(1) p by (simp add: open_canonical proper_row_def)
  show ?thesis
  proof (cases "st = CANDIDATE")
    case False
    then have "deposit_step (canonical_state ?g n) (canonical_state (?g(i \<mapsto> (a, st, b))) n)"
      using assms(1) p by (intro settle_canonical) (auto simp: proper_row_def)
    with c show ?thesis by (simp add: converse_rtranclp_into_rtranclp r_into_rtranclp)
  qed (use c p in \<open>auto simp: proper_row_def\<close>)
next
  case False
  then consider "f i = Some (a, st, b)" | "f i = Some (a, CANDIDATE, False)" "st = VERIFIED \<or> st = FAILED"
    using assms(2) p by (auto simp: proper_row_def)
  then show ?thesis
  proof cases
    case 1
    then have "f(i \<mapsto> (a, st, b)) = f" by (simp add: fun_upd_idem)
    then show ?thesis by simp
  next
    case 2
    then show ?thesis using settle_canonical [OF assms(1)] by auto
  qed
qed

text \<open>A later table: every row keeps its amount and leaves \<open>CANDIDATE\<close> at most once, a settled row is final,
  and rows are added.\<close>

definition later_rows :: "deposit_table \<Rightarrow> deposit_table \<Rightarrow> bool" where
  "later_rows f g \<longleftrightarrow>
     (\<forall>i a st b. f i = Some (a, st, b) \<longrightarrow> (\<exists>st' b'. g i = Some (a, st', b') \<and> (st = CANDIDATE \<and> \<not> b \<or> st' = st \<and> b' = b))) \<and>
     (\<forall>i x. g i = Some x \<longrightarrow> proper_row x)"

lemma later_row_cases:
  assumes l: "later_rows f g" and g: "g i = Some (a, st, b)"
  shows "f i = None \<or> f i = Some (a, st, b) \<or> f i = Some (a, CANDIDATE, False)"
proof (cases "f i")
  case (Some y)
  obtain a0 st0 b0 where y: "y = (a0, st0, b0)" by (cases y)
  then obtain st' b' where "g i = Some (a0, st', b')" "st0 = CANDIDATE \<and> \<not> b0 \<or> st' = st0 \<and> b' = b0"
    using l Some unfolding later_rows_def by blast
  then show ?thesis using g Some y by auto
qed simp

lemma later_rows_reached:
  assumes "finite (dom f)" and "finite (dom g)" and l: "later_rows f g"
  shows "deposit_step\<^sup>*\<^sup>* (canonical_state f n) (canonical_state g n)"
proof -
  have "deposit_step\<^sup>*\<^sup>* (canonical_state f n) (canonical_state (override_on f g S) n)" if "finite S" "S \<subseteq> dom g" for S
    using that
  proof (induction S rule: finite_induct)
    case (insert h S)
    let ?k = "override_on f g S"
    obtain a st b where g: "g h = Some (a, st, b)" using insert.prems by auto
    have fin: "finite (dom ?k)"
      by (rule finite_subset [of _ "dom f \<union> dom g"]) (use assms(1,2) in \<open>auto simp: override_on_def split: if_splits\<close>)
    have k: "?k h = f h" using insert.hyps(2) by (simp add: override_on_def)
    have p: "proper_row (a, st, b)" using l g by (auto simp: later_rows_def)
    have "deposit_step\<^sup>*\<^sup>* (canonical_state ?k n) (canonical_state (?k(h \<mapsto> (a, st, b))) n)"
      by (rule reach_one [OF fin _ p]) (use later_row_cases [OF l g] k in simp)
    moreover have "override_on f g (insert h S) = ?k(h \<mapsto> (a, st, b))"
      using g by (auto simp: override_on_def fun_eq_iff)
    moreover have "deposit_step\<^sup>*\<^sup>* (canonical_state f n) (canonical_state ?k n)" using insert by simp
    ultimately show ?case by (metis rtranclp_trans)
  qed simp
  moreover have "override_on f g (dom g) = g"
  proof
    fix h
    show "override_on f g (dom g) h = g h"
      using l by (cases "f h"; cases "g h") (fastforce simp: override_on_def later_rows_def dom_def)+
  qed
  ultimately show ?thesis using assms(2) by (metis order_refl)
qed

section \<open>The books refine the machine\<close>

lemma deposit_rows_distinct:
  assumes "wide_inv s"
  shows "distinct (map fst (deposit_rows s))"
proof -
  have "distinct (map cm_id (cd_movements s))" using assms by (simp add: wide_inv_def wide_books_def)
  then have "distinct (map cm_id (filter (\<lambda>m. cm_kind m = DEPOSIT_IN) (cd_movements s)))" by (rule distinct_map_filter)
  then show ?thesis by (simp add: deposit_rows_def comp_def)
qed

lemma deposit_row_iff:
  assumes "wide_inv s"
  shows "map_of (deposit_rows s) i = Some (a, st, b) \<longleftrightarrow>
    (\<exists>m. find_by cm_id i (cd_movements s) = Some m \<and> cm_kind m = DEPOSIT_IN \<and> cm_amountBaseUnits m = a \<and> cm_status m = st \<and>
       was_reclassified (cd_ledger s) m = b)"
proof -
  have d: "distinct (map cm_id (cd_movements s))" using assms by (simp add: wide_inv_def wide_books_def)
  have "map_of (deposit_rows s) i = Some (a, st, b) \<longleftrightarrow> (i, a, st, b) \<in> set (deposit_rows s)"
    using deposit_rows_distinct [OF assms] by simp
  then show ?thesis by (auto simp: deposit_rows_def find_by_distinct [OF d])
qed

text \<open>A settled deposit is reclassified under the key of its own outcome only, a candidate under none.\<close>

lemma reclassified_status:
  assumes "wide_inv s" and "m \<in> set (cd_movements s)"
  shows "cm_status m = VERIFIED \<Longrightarrow> was_reclassified (cd_ledger s) m \<longleftrightarrow> booked_key (verify_prefix @ cm_id m) (cd_ledger s)"
    and "cm_status m = FAILED \<Longrightarrow> was_reclassified (cd_ledger s) m \<longleftrightarrow> booked_key (reject_prefix @ cm_id m) (cd_ledger s)"
    and "cm_status m = CANDIDATE \<Longrightarrow> \<not> was_reclassified (cd_ledger s) m"
proof -
  have "distinct (map cm_id (cd_movements s))" using assms(1) by (simp add: wide_inv_def wide_books_def)
  then have "find_by cm_id (cm_id m) (cd_movements s) = Some m" using assms(2) by (simp add: find_by_distinct)
  then have "booked_key (verify_prefix @ cm_id m) (cd_ledger s) \<Longrightarrow> cm_status m = VERIFIED"
    "booked_key (reject_prefix @ cm_id m) (cd_ledger s) \<Longrightarrow> cm_status m = FAILED"
    using assms(1) by (auto simp: wide_inv_def wide_books_def settlement_ways_def reclassified_from_def)
  then show "cm_status m = VERIFIED \<Longrightarrow> was_reclassified (cd_ledger s) m \<longleftrightarrow> booked_key (verify_prefix @ cm_id m) (cd_ledger s)"
    and "cm_status m = FAILED \<Longrightarrow> was_reclassified (cd_ledger s) m \<longleftrightarrow> booked_key (reject_prefix @ cm_id m) (cd_ledger s)"
    and "cm_status m = CANDIDATE \<Longrightarrow> \<not> was_reclassified (cd_ledger s) m"
    by (auto simp: was_reclassified_def)
qed

lemma pool_of_books:
  assumes inv: "wide_inv s" and way: "(st, acct, pre) \<in> set settlement_ways"
  shows "pool st (map_of (deposit_rows s)) = 100 * booked_total pre st (cd_movements s) (cd_ledger s)"
proof -
  let ?L = "cd_ledger s"
  have same: "was_reclassified ?L m \<longleftrightarrow> booked_key (pre @ cm_id m) ?L" if "m \<in> set (cd_movements s)" "cm_status m = st" for m
    using reclassified_status [OF inv that(1)] that(2) way by (auto simp: settlement_ways_def)
  have "sum_list (map (weight st \<circ> snd) (map (\<lambda>m. (cm_id m, cm_amountBaseUnits m, cm_status m, was_reclassified ?L m))
        (filter (\<lambda>m. cm_kind m = DEPOSIT_IN) ms))) = 100 * booked_total pre st ms ?L" if "set ms \<subseteq> set (cd_movements s)" for ms
    using that by (induction ms) (auto simp: booked_total_def moved_def same)
  then show ?thesis using sum_map_of [OF deposit_rows_distinct [OF inv]] by (simp add: deposit_rows_def)
qed

lemma deposit_abs_canonical:
  assumes inv: "wide_inv s"
  shows "deposit_abs s = canonical_state (map_of (deposit_rows s)) (received (cd_ledger s))"
proof -
  have p: "pool VERIFIED (map_of (deposit_rows s)) = 100 * booked_total verify_prefix VERIFIED (cd_movements s) (cd_ledger s)"
    "pool FAILED (map_of (deposit_rows s)) = 100 * booked_total reject_prefix FAILED (cd_movements s) (cd_ledger s)"
    by (rule pool_of_books [OF inv], simp add: settlement_ways_def)+
  show ?thesis
    using inv keyed_net_split [of "''clearing:custody:unverified:usdc''" "cd_ledger s" reclass_key]
    by (simp add: deposit_abs_def canonical_state_def p wide_inv_def wide_books_def settlement_ways_def received_def)
qed

lemma books_evolve:
  assumes s: "wide_inv s" and t: "wide_inv t" and e: "wide_evolves s t"
  shows "later_rows (map_of (deposit_rows s)) (map_of (deposit_rows t))"
  unfolding later_rows_def
proof (intro conjI allI impI)
  fix i a st b
  assume "map_of (deposit_rows s) i = Some (a, st, b)"
  then obtain m where m: "find_by cm_id i (cd_movements s) = Some m" "cm_kind m = DEPOSIT_IN" "cm_amountBaseUnits m = a" "cm_status m = st"
    "was_reclassified (cd_ledger s) m = b" using deposit_row_iff [OF s] by auto
  obtain n where n: "find_by cm_id i (cd_movements t) = Some n" "same_deposit m n"
    using e m(1) by (auto simp: wide_evolves_def wide_step_def dest: rows_evolveD)
  have ids: "cm_id m = i" "cm_id n = i" using find_by_Some [OF m(1)] find_by_Some [OF n(1)] by simp_all
  have "map_of (deposit_rows t) i = Some (a, cm_status n, was_reclassified (cd_ledger t) n)"
    using n m deposit_row_iff [OF t] by (auto simp: same_deposit_def)
  moreover have "st = CANDIDATE \<and> \<not> b \<or> cm_status n = st \<and> was_reclassified (cd_ledger t) n = b"
  proof (cases "is_candidate m")
    case True
    then show ?thesis using reclassified_status(3) [OF s] find_by_Some [OF m(1)] m(4,5) by (auto simp: is_candidate_def)
  next
    case False
    then have "cm_status n = st" using n(2) m(4) by (auto simp: same_deposit_def)
    moreover have "was_reclassified (cd_ledger t) n = b"
      using e m(1,5) False ids by (auto simp: wide_evolves_def wide_step_def was_reclassified_def)
    ultimately show ?thesis by simp
  qed
  ultimately show "\<exists>st' b'. map_of (deposit_rows t) i = Some (a, st', b') \<and> (st = CANDIDATE \<and> \<not> b \<or> st' = st \<and> b' = b)" by blast
next
  fix i and x :: "int \<times> movement_status \<times> bool"
  assume x: "map_of (deposit_rows t) i = Some x"
  obtain a st b where abs: "x = (a, st, b)" by (cases x)
  obtain m where m: "find_by cm_id i (cd_movements t) = Some m" "cm_kind m = DEPOSIT_IN" "cm_amountBaseUnits m = a" "cm_status m = st"
    "was_reclassified (cd_ledger t) m = b" using x deposit_row_iff [OF t] by (auto simp: abs)
  have "m \<in> set (cd_movements t)" using find_by_Some [OF m(1)] by simp
  moreover from this have "sound_deposit m" using t by (simp add: wide_inv_def wide_books_def list_all_iff)
  ultimately show "proper_row x"
    using m reclassified_status(3) [OF t] by (cases st) (auto simp: abs proper_row_def sound_deposit_def)
qed

text \<open>C9: The custody books refine the deposit machine. From books without movements and journals, every
  stretch of a history of webhooks in any letter case, verifications, executions, backfills, observations,
  deposits of the legacy route and other postings is, under the abstraction, a run of open, receive, verify
  and reject steps: what the provisional balance receives it keeps until a settlement, a settlement happens
  once and moves either exactly the deposit's amount or nothing, and a settled deposit is never
  reclassified again.\<close>

theorem custody_refines_deposit_machine:
  assumes "wide_opening s0" and "history (wide_exec sha rnd) s0 s" and "history (wide_exec sha rnd) s t"
  shows "deposit_abs s0 = empty_deposits \<and> deposit_step\<^sup>*\<^sup>* (deposit_abs s) (deposit_abs t)"
proof
  have s: "wide_inv s" using cw.history_inv [OF assms(2) wide_opening_inv [OF assms(1)]] .
  have t: "wide_inv t" "wide_evolves s t" using cw.history_keeps [OF assms(3) s] by simp_all
  have "received (cd_ledger s) \<le> received (cd_ledger t)" using t(2) by (simp add: wide_evolves_def wide_step_def)
  from receive_canonical [OF this] later_rows_reached [OF finite_dom_map_of finite_dom_map_of books_evolve [OF s t]]
  show "deposit_step\<^sup>*\<^sup>* (deposit_abs s) (deposit_abs t)"
    unfolding deposit_abs_canonical [OF s] deposit_abs_canonical [OF t(1)] by (meson converse_rtranclp_into_rtranclp)
  show "deposit_abs s0 = empty_deposits"
    using assms(1) by (simp add: deposit_abs_def empty_deposits_def wide_opening_def deposit_rows_def account_net_def received_def keyed_net_def)
      (simp add: empty_ledger_def)
qed

theorem custody_refines_deposit_machine_witness:
  "\<exists>s t. dep_rows (deposit_abs s) ''m1'' = Some (2500000, CANDIDATE, False) \<and> dep_provisional (deposit_abs t) = 500000000 \<and>
     deposit_step\<^sup>*\<^sup>* (deposit_abs s) (deposit_abs t)"
proof -
  obtain s t where h: "history (wide_exec id id) sample_books s" "history (wide_exec id id) s t" and m: "cd_movements s = [sample_candidate]"
    and n: "account_net ''clearing:custody:unverified:usdc'' (cd_ledger t) = 500000000"
    by (rule sample_wide)
  have s: "wide_inv s" using cw.history_inv [OF h(1) wide_opening_inv [OF sample_wide_opening]] .
  have c: "cm_id sample_candidate = ''m1''" "cm_kind sample_candidate = DEPOSIT_IN" "cm_amountBaseUnits sample_candidate = 2500000"
      "cm_status sample_candidate = CANDIDATE"
    by (simp_all add: sample_candidate_def deposit_candidate_def sample_choice_def)
  have "\<not> was_reclassified (cd_ledger s) sample_candidate" using reclassified_status(3) [OF s] c(4) by (simp add: m)
  then have "dep_rows (deposit_abs s) ''m1'' = Some (2500000, CANDIDATE, False)"
    using c by (simp add: deposit_abs_def deposit_rows_def m)
  moreover have "dep_provisional (deposit_abs t) = 500000000" using n by (simp add: deposit_abs_def)
  ultimately show ?thesis using custody_refines_deposit_machine [OF sample_wide_opening h] by blast
qed

end
