(* ===== verification/Ledger_Reconciliation.thy ===== *)
theory Ledger_Reconciliation
  imports Custody_Wide Restricted_Obligations Js_Text
begin

text \<open>
  The reconciliation read models, \<^verbatim>\<open>services/ledgerReconciliationService.js\<close>: the ledger against the
  balances of the users, the custody movements, the completed deposits, the restricted obligations and
  the conversion clearing account. The service only reads; its report is a list of findings.

  The database is the custody database with the obligation table and the creation time of a ledger
  transaction. The eight-decimal texts of the report are kept as numbers of the smallest unit, and the
  three bucket disagreements share a constructor with the bucket as its argument. The five parts run
  concurrently on one snapshot; when several fail, the report is the first failure of the list.
\<close>

record reconciliation_db =
  rb_custody :: custody_db
  rb_obligations :: "obligation list"
  rb_createdAt :: "ledger_txn \<Rightarrow> int"

datatype bucket = ESCROW | DISPUTE | UNALLOCATED

record disagreement =
  dg_ledger :: int
  dg_expected :: int
  dg_difference :: int

datatype finding =
    LEDGER_USER_MISSING nat
  | PROJECTION_LEDGER_DISAGREEMENT nat disagreement
  | UNMIGRATED_BUCKET_ACTIVITY bucket nat disagreement
  | BUCKET_PROJECTION_LEDGER_DISAGREEMENT bucket nat disagreement
  | CUSTODY_LEDGER_DISAGREEMENT string disagreement
  | COMPLETED_FLOW_WITHOUT_LEDGER_POSTING string string
  | RESTRICTED_LEDGER_DISAGREEMENT disagreement
  | CLEARING_CONVERSION_UNEXPLAINED disagreement

definition disagree :: "(int \<Rightarrow> int) \<Rightarrow> int \<Rightarrow> int \<Rightarrow> disagreement" where
  "disagree rnd l x = \<lparr>dg_ledger = l, dg_expected = x, dg_difference = rnd (x - l)\<rparr>"

definition balance_of :: "(int \<Rightarrow> int) \<Rightarrow> ledger \<Rightarrow> string \<Rightarrow> ledger_error + int" where
  "balance_of rnd L code = bind_sum (accountBalance rnd L code) (\<lambda>b. Inr (bv_balance b))"

section \<open>Users\<close>

definition bucket_findings :: "(int \<Rightarrow> int) \<Rightarrow> bucket \<Rightarrow> nat \<Rightarrow> int \<Rightarrow> int \<Rightarrow> finding list" where
  "bucket_findings rnd k u l x =
     (if l = x then []
      else if l = 0 \<and> x \<noteq> 0 then [UNMIGRATED_BUCKET_ACTIVITY k u (disagree rnd l x)]
      else [BUCKET_PROJECTION_LEDGER_DISAGREEMENT k u (disagree rnd l x)])"

definition escrow_codes :: "nat \<Rightarrow> ledger \<Rightarrow> string list" where
  "escrow_codes u L =
     map ar_code (filter (\<lambda>a. ar_userId a = Some u \<and> take 7 (ar_code a) = ''escrow:'' \<and> ar_status a = ''ACTIVE'') (accounts L))"

definition escrow_total :: "(int \<Rightarrow> int) \<Rightarrow> ledger \<Rightarrow> nat \<Rightarrow> ledger_error + int" where
  "escrow_total rnd L u =
     bind_sum (traverse_sum (balance_of rnd L) (escrow_codes u L)) (\<lambda>bs. Inr (decimal_sum rnd bs))"

definition reconcile_user :: "(int \<Rightarrow> int) \<Rightarrow> custody_db \<Rightarrow> nat \<Rightarrow> ledger_error + finding list" where
  "reconcile_user rnd s u =
     (case find_by ur_id u (cd_users s) of
        None \<Rightarrow> Inr [LEDGER_USER_MISSING u]
      | Some user \<Rightarrow>
          bind_sum (userLiabilityBalance rnd (cd_ledger s) u) (\<lambda>liability.
          bind_sum (escrow_total rnd (cd_ledger s) u) (\<lambda>escrow.
          bind_sum (balance_of rnd (cd_ledger s) (''user:'' @ show_nat u @ '':dispute'')) (\<lambda>dispute.
          bind_sum (balance_of rnd (cd_ledger s) (''user:'' @ show_nat u @ '':unallocated'')) (\<lambda>unallocated.
            Inr ((if liability = ur_availableBalance user then []
                  else [PROJECTION_LEDGER_DISAGREEMENT u (disagree rnd liability (ur_availableBalance user))]) @
                 bucket_findings rnd ESCROW u escrow (ur_escrowLockedBalance user) @
                 bucket_findings rnd DISPUTE u dispute (ur_disputeEscrowBalance user) @
                 bucket_findings rnd UNALLOCATED u unallocated (ur_vendorUnallocatedBalance user)))))))"

definition liability_accounts :: "nat \<Rightarrow> ledger \<Rightarrow> account_row list" where
  "liability_accounts limit L =
     take limit (filter (\<lambda>a. contains_text '':liability'' (ar_code a) \<and> ar_status a = ''ACTIVE'') (accounts L))"

definition present_users :: "account_row list \<Rightarrow> nat list" where
  "present_users as = List.map_filter (\<lambda>a. if ar_userId a = Some 0 then None else ar_userId a) as"

definition reconcileUserProjections :: "(int \<Rightarrow> int) \<Rightarrow> nat \<Rightarrow> custody_db \<Rightarrow> ledger_error + finding list \<times> nat" where
  "reconcileUserProjections rnd limit s =
     (let rows = liability_accounts limit (cd_ledger s) in
      bind_sum (traverse_sum (reconcile_user rnd s) (present_users rows)) (\<lambda>fs. Inr (concat fs, length rows)))"

section \<open>Custody postings\<close>

definition baseToDecimal :: "(int \<Rightarrow> int) \<Rightarrow> int \<Rightarrow> int" where
  "baseToDecimal rnd base = rnd (100 * base)"

definition provisional_journals :: "ledger \<Rightarrow> ledger_txn list" where
  "provisional_journals L = filter (\<lambda>t. take (length provisional_prefix) (lt_idempotencyKey t) = provisional_prefix) (txns L)"

definition journal_hash :: "ledger_txn \<Rightarrow> string" where
  "journal_hash t = drop (length provisional_prefix) (lt_idempotencyKey t)"

definition clearing_debit :: "ledger \<Rightarrow> string \<Rightarrow> int" where
  "clearing_debit L i =
     sum_rows je_debit (filter (\<lambda>e. je_account e = ''clearing:custody:unverified:usdc'' \<and> je_ledgerTransactionId e = Some i) (entries L))"

definition has_journal :: "ledger \<Rightarrow> custody_movement \<Rightarrow> bool" where
  "has_journal L m \<longleftrightarrow> cm_txHash m \<in> (Some \<circ> journal_hash) ` set (provisional_journals L)"

definition deposit_movements :: "custody_db \<Rightarrow> custody_movement list" where
  "deposit_movements s = filter (\<lambda>m. cm_kind m = DEPOSIT_IN) (cd_movements s)"

definition movement_bucket :: "custody_db \<Rightarrow> movement_status \<Rightarrow> bool \<Rightarrow> custody_movement list" where
  "movement_bucket s st j =
     filter (\<lambda>m. cm_status m = st \<and> has_journal (cd_ledger s) m = j) (deposit_movements s)"

definition untracked_journals :: "custody_db \<Rightarrow> ledger_txn list" where
  "untracked_journals s =
     filter (\<lambda>t. Some (journal_hash t) \<notin> cm_txHash ` set (deposit_movements s)) (provisional_journals (cd_ledger s))"

record custody_report =
  cr_exceptions :: "finding list"
  cr_withJournal :: "(movement_status \<times> nat \<times> int) list"
  cr_withoutJournal :: "(movement_status \<times> nat \<times> int) list"
  cr_untracked :: "nat \<times> int"

definition report_buckets :: "(int \<Rightarrow> int) \<Rightarrow> custody_db \<Rightarrow> bool \<Rightarrow> (movement_status \<times> nat \<times> int) list" where
  "report_buckets rnd s j =
     map (\<lambda>st. let ms = movement_bucket s st j in (st, length ms, baseToDecimal rnd (sum_rows cm_amountBaseUnits ms)))
       [VERIFIED, CANDIDATE, FAILED]"

definition expected_balances :: "(int \<Rightarrow> int) \<Rightarrow> custody_db \<Rightarrow> (string \<times> int) list" where
  "expected_balances rnd s =
     (let total = (\<lambda>st. baseToDecimal rnd (sum_rows cm_amountBaseUnits (movement_bucket s st True)));
          untracked = decimal_sum rnd (map (\<lambda>t. clearing_debit (cd_ledger s) (lt_id t)) (untracked_journals s)) in
      [(''custody:deposit:usdc'', total VERIFIED),
       (''clearing:custody:unverified:usdc'', rnd (total CANDIDATE + untracked)),
       (''clearing:custody:rejected:usdc'', total FAILED)])"

definition reconcileCustodyPostings :: "(int \<Rightarrow> int) \<Rightarrow> custody_db \<Rightarrow> ledger_error + custody_report" where
  "reconcileCustodyPostings rnd s =
     bind_sum (traverse_sum (\<lambda>(code, expected). bind_sum (balance_of rnd (cd_ledger s) code) (\<lambda>b.
         Inr (if b = expected then [] else [CUSTODY_LEDGER_DISAGREEMENT code (disagree rnd b expected)])))
       (expected_balances rnd s))
       (\<lambda>fs. Inr \<lparr>cr_exceptions = concat fs, cr_withJournal = report_buckets rnd s True,
                  cr_withoutJournal = report_buckets rnd s False,
                  cr_untracked = (length (untracked_journals s),
                    decimal_sum rnd (map (\<lambda>t. clearing_debit (cd_ledger s) (lt_id t)) (untracked_journals s)))\<rparr>)"

section \<open>Completed deposits, obligations and conversion clearing\<close>

definition reconcileTransactionHistory :: "reconciliation_db \<Rightarrow> finding list" where
  "reconcileTransactionHistory d =
     (let ts = txns (cd_ledger (rb_custody d)) in
      case map (rb_createdAt d) ts of
        [] \<Rightarrow> []
      | t # rest \<Rightarrow>
          (let epoch = fold min rest t;
               deposits = take 5000 (filter (\<lambda>h. hr_type h \<in> {''DEPOSIT_CRYPTO'', ''DEPOSIT_FIAT''} \<and> hr_status h = ''COMPLETED'' \<and>
                                              epoch \<le> hr_createdAt h) (cd_history (rb_custody d))) in
           map (\<lambda>h. COMPLETED_FLOW_WITHOUT_LEDGER_POSTING (hr_id h) (hr_type h))
             (filter (\<lambda>h. \<not> (\<exists>t \<in> set ts. lt_relatedEntity t = Some ''transactionHistory'' \<and> lt_relatedEntityId t = Some (hr_id h)))
               deposits)))"

definition included_total :: "obligation list \<Rightarrow> int" where
  "included_total xs =
     sum_rows ob_amount (filter (\<lambda>x. ob_status x = ACTIVE \<and> ob_reserveInclusionPolicy x = ''INCLUDED_IN_RESERVE_DENOMINATOR'') xs)"

definition reconcileRestrictedObligations :: "(int \<Rightarrow> int) \<Rightarrow> ledger \<Rightarrow> obligation list \<Rightarrow> ledger_error + finding list \<times> int \<times> int" where
  "reconcileRestrictedObligations rnd L xs =
     bind_sum (balance_of rnd L ''restricted:reserves'') (\<lambda>b.
       Inr (if included_total xs = b then []
            else [RESTRICTED_LEDGER_DISAGREEMENT \<lparr>dg_ledger = b, dg_expected = included_total xs, dg_difference = rnd (b - included_total xs)\<rparr>],
            included_total xs, b))"

definition reconcileClearingConversion :: "(int \<Rightarrow> int) \<Rightarrow> ledger \<Rightarrow> ledger_error + finding list \<times> int" where
  "reconcileClearingConversion rnd L =
     bind_sum (balance_of rnd L ''clearing:conversion'') (\<lambda>b.
       let rows = filter (authoritative_entry ''clearing:conversion'') (entries L);
           expected = rnd (sum_rows je_debit rows - sum_rows je_credit rows) in
       Inr (if b = expected then [] else [CLEARING_CONVERSION_UNEXPLAINED (disagree rnd b expected)], b))"

record full_report =
  fr_ok :: bool
  fr_exceptions :: "finding list"
  fr_checkedUsers :: nat
  fr_restricted :: "int \<times> int"
  fr_clearing :: int
  fr_custody :: custody_report

definition runFullReconciliation :: "(int \<Rightarrow> int) \<Rightarrow> reconciliation_db \<Rightarrow> ledger_error + full_report" where
  "runFullReconciliation rnd d =
     (let s = rb_custody d; L = cd_ledger s in
      bind_sum (reconcileUserProjections rnd 1000 s) (\<lambda>(users, n).
      bind_sum (reconcileCustodyPostings rnd s) (\<lambda>custody.
      bind_sum (reconcileRestrictedObligations rnd L (rb_obligations d)) (\<lambda>(restricted, totals).
      bind_sum (reconcileClearingConversion rnd L) (\<lambda>(clearing, balance).
        let all = users @ cr_exceptions custody @ reconcileTransactionHistory d @ restricted @ clearing in
        Inr \<lparr>fr_ok = (all = []), fr_exceptions = all, fr_checkedUsers = n, fr_restricted = totals, fr_clearing = balance,
             fr_custody = custody\<rparr>)))))"

section \<open>Balances of classified accounts\<close>

lemma classified_balance:
  assumes "accounts_classified L" and "classifyAccountCode c = Inr (k, spec)"
  shows "balance_of rnd L c = Inr (if as_side spec = DEBIT then rnd (account_net c L) else - rnd (account_net c L))"
proof -
  have "ar_side row = as_side spec" if "find_by ar_code c (accounts L) = Some row" for row
  proof -
    have "account_ok c L" using assms(1) find_by_Some [OF that] by (auto simp: accounts_classified_def)
    with that assms(2) show ?thesis by (simp add: account_ok_def)
  qed
  then show ?thesis
    using assms(2) account_net_balance [of c L]
    by (auto simp: balance_of_def accountBalance_def Let_def split: option.splits)
qed

lemma custody_balance:
  assumes "accounts_classified L" and "c \<in> set custody_accounts"
  shows "balance_of rnd L c = Inr (rnd (account_net c L))"
  using assms classified_balance [OF assms(1)] custody_classified by (auto simp: custody_accounts_def spec_of_def)

section \<open>The custody report of reachable books\<close>

lemma journal_hash_booked:
  "t \<in> set (provisional_journals L) \<Longrightarrow> booked_key (provisional_prefix @ journal_hash t) L"
  by (auto simp: provisional_journals_def journal_hash_def booked_key_def) (metis append_take_drop_id imageI)

lemma booked_journal:
  assumes "booked_key (provisional_prefix @ h) L"
  obtains t where "t \<in> set (provisional_journals L)" and "journal_hash t = h"
proof -
  obtain t where t: "t \<in> set (txns L)" "lt_idempotencyKey t = provisional_prefix @ h"
    using assms by (auto simp: booked_key_def)
  then show thesis using that [of t] by (simp add: provisional_journals_def journal_hash_def)
qed

lemma reachable_journals:
  assumes inv: "custody_inv s"
  shows "untracked_journals s = []" and "\<And>m. m \<in> set (deposit_movements s) \<Longrightarrow> has_journal (cd_ledger s) m"
proof -
  have ok: "deposit_ok s m" if "m \<in> set (cd_movements s)" "cm_kind m = DEPOSIT_IN" for m
    using inv that by (simp add: custody_inv_def)
  show "has_journal (cd_ledger s) m" if "m \<in> set (deposit_movements s)" for m
  proof -
    have "m \<in> set (cd_movements s)" "cm_kind m = DEPOSIT_IN" using that by (simp_all add: deposit_movements_def)
    then obtain h where "cm_txHash m = Some h" "booked_key (provisional_prefix @ h) (cd_ledger s)"
      using ok by (auto simp: deposit_ok_def)
    then show ?thesis using booked_journal by (fastforce simp: has_journal_def)
  qed
  have "Some (journal_hash t) \<in> cm_txHash ` set (deposit_movements s)" if t: "t \<in> set (provisional_journals (cd_ledger s))" for t
  proof -
    obtain m where m: "m \<in> set (cd_movements s)" "cm_idempotencyKey m = deposit_row_key (journal_hash t)"
      using inv journal_hash_booked [OF t] by (auto simp: custody_inv_def keys_follow_movements_def)
    have k: "cm_kind m = DEPOSIT_IN"
    proof (rule ccontr)
      assume "cm_kind m \<noteq> DEPOSIT_IN"
      then have "take 10 (deposit_row_key (journal_hash t)) = ''execution:''"
        using inv m by (metis custody_inv_def executions_keyed_def)
      then show False by (simp add: deposit_row_key_def)
    qed
    then have "cm_txHash m = Some (journal_hash t)" using ok [OF m(1) k] m(2) by (auto simp: deposit_ok_def deposit_row_key_def)
    then show ?thesis using m(1) k by (force simp: deposit_movements_def)
  qed
  then show "untracked_journals s = []" by (simp add: untracked_journals_def filter_empty_conv)
qed

lemma reachable_bucket:
  assumes "custody_inv s"
  shows "movement_bucket s st True = deposits_with st s" and "movement_bucket s st False = []"
  using reachable_journals(2) [OF assms]
  by (auto simp: movement_bucket_def deposits_with_def deposit_movements_def filter_empty_conv intro!: filter_cong)

section \<open>Deposits settled without a reclassification\<close>

definition unreclassified :: "string \<Rightarrow> movement_status \<Rightarrow> custody_db \<Rightarrow> custody_movement list" where
  "unreclassified pre st s = filter (\<lambda>m. \<not> booked_key (pre @ cm_id m) (cd_ledger s)) (movement_bucket s st True)"

definition reported :: "string \<Rightarrow> custody_report \<Rightarrow> disagreement set" where
  "reported code r = {d. CUSTODY_LEDGER_DISAGREEMENT code d \<in> set (cr_exceptions r)}"

definition untracked_debits :: "custody_db \<Rightarrow> int list" where
  "untracked_debits s = map (\<lambda>t. clearing_debit (cd_ledger s) (lt_id t)) (untracked_journals s)"

text \<open>The sums of the report fit into the precision of a decimal.\<close>

definition report_fits :: "custody_db \<Rightarrow> bool" where
  "report_fits s \<longleftrightarrow>
     (\<forall>c \<in> set custody_accounts. \<bar>account_net c (cd_ledger s)\<bar> < 10 ^ 20) \<and>
     (\<forall>st. 100 * sum_rows cm_amountBaseUnits (movement_bucket s st True) + sum_list (map abs (untracked_debits s)) < 10 ^ 20)"

lemma bucket_positive:
  assumes "wide_inv s" and "m \<in> set (movement_bucket s st j)"
  shows "0 < cm_amountBaseUnits m"
  using assms by (auto simp: wide_inv_def wide_books_def list_all_iff sound_deposit_def movement_bucket_def deposit_movements_def)

lemma bucket_nonneg: "wide_inv s \<Longrightarrow> 0 \<le> sum_rows cm_amountBaseUnits (movement_bucket s st j)"
  by (rule sum_rows_nonneg) (use bucket_positive in fastforce)

lemma unreclassified_sum:
  assumes inv: "wide_inv s"
  shows "0 \<le> sum_rows cm_amountBaseUnits (unreclassified pre st s)"
    and "sum_rows cm_amountBaseUnits (unreclassified pre st s) = 0 \<longleftrightarrow> unreclassified pre st s = []"
proof -
  have pos: "0 < cm_amountBaseUnits m" if "m \<in> set (unreclassified pre st s)" for m
    using bucket_positive [OF inv, of m st True] that by (simp add: unreclassified_def)
  then show le: "0 \<le> sum_rows cm_amountBaseUnits (unreclassified pre st s)" by (intro sum_rows_nonneg) fastforce
  show "sum_rows cm_amountBaseUnits (unreclassified pre st s) = 0 \<longleftrightarrow> unreclassified pre st s = []"
  proof
    assume z: "sum_rows cm_amountBaseUnits (unreclassified pre st s) = 0"
    show "unreclassified pre st s = []"
    proof (rule ccontr)
      assume "unreclassified pre st s \<noteq> []"
      then obtain m where m: "m \<in> set (unreclassified pre st s)" by (metis list.set_sel(1))
      with sum_rows_ge_member [of "unreclassified pre st s" cm_amountBaseUnits m] pos z show False by fastforce
    qed
  qed simp
qed

text \<open>A reclassified deposit has its provisional journal, so it is one of the deposits the service sums.\<close>

lemma bucket_split:
  assumes inv: "wide_inv s" and way: "(st, acct, pre) \<in> set settlement_ways"
  shows "sum_rows cm_amountBaseUnits (movement_bucket s st True) =
    booked_total pre st (cd_movements s) (cd_ledger s) + sum_rows cm_amountBaseUnits (unreclassified pre st s)"
proof -
  have d: "distinct (map cm_id (cd_movements s))" and r: "reclassified_from pre st (cd_movements s) (cd_ledger s)"
    using inv way by (auto simp: wide_inv_def wide_books_def)
  have j: "has_journal (cd_ledger s) m" if m: "m \<in> set (cd_movements s)" "booked_key (pre @ cm_id m) (cd_ledger s)" for m
  proof -
    have "find_by cm_id (cm_id m) (cd_movements s) = Some m" using m(1) by (simp add: find_by_distinct [OF d])
    then obtain h where "cm_txHash m = Some h" "booked_key (provisional_prefix @ h) (cd_ledger s)"
      using r m(2) by (auto simp: reclassified_from_def)
    then show ?thesis using booked_journal by (fastforce simp: has_journal_def)
  qed
  have "sum_rows cm_amountBaseUnits (filter (\<lambda>m. cm_status m = st \<and> has_journal (cd_ledger s) m) (filter (\<lambda>m. cm_kind m = DEPOSIT_IN) ms)) =
      booked_total pre st ms (cd_ledger s) + sum_rows cm_amountBaseUnits (filter (\<lambda>m. \<not> booked_key (pre @ cm_id m) (cd_ledger s))
        (filter (\<lambda>m. cm_status m = st \<and> has_journal (cd_ledger s) m) (filter (\<lambda>m. cm_kind m = DEPOSIT_IN) ms)))"
    if "set ms \<subseteq> set (cd_movements s)" for ms
    using that j by (induction ms) (auto simp: booked_total_def)
  then show ?thesis by (simp add: unreclassified_def movement_bucket_def deposit_movements_def)
qed

section \<open>The report on a user\<close>

definition bucket_code :: "string \<Rightarrow> nat \<Rightarrow> string" where
  "bucket_code b u = ''user:'' @ show_nat u @ '':'' @ b"

lemma user_match_last:
  assumes "user_account_match b code = Some v" and "b \<noteq> []"
  shows "last code = last b"
proof -
  obtain x where "between ''user:'' ('':'' @ b) code = Some x"
    using assms(1) by (auto simp: user_account_match_def split: option.splits)
  then have "code = ''user:'' @ x @ '':'' @ b" by (simp only: between_Some)
  then show ?thesis using assms(2) by simp
qed

lemma classify_bucket:
  assumes "length (bucket_code b u) \<le> 80" and "b = ''liability'' \<or> b = ''dispute'' \<or> b = ''unallocated''"
  shows "\<exists>k. classifyAccountCode (bucket_code b u) = Inr (k, liability_spec)"
proof -
  have m: "user_account_match b (bucket_code b u) = Some u" using user_match_code [of b u] by (simp add: bucket_code_def)
  have other: "user_account_match c (bucket_code b u) = None" if "c \<noteq> []" "last c \<noteq> last b" for c
  proof (rule ccontr)
    assume "\<not> ?thesis"
    then obtain v where "user_account_match c (bucket_code b u) = Some v" by auto
    from user_match_last [OF this that(1)] show False using that(2) assms(2) by (auto simp: bucket_code_def)
  qed
  have e: "escrow_account_match (bucket_code b u) = None"
    by (auto simp: escrow_account_match_def between_Some bucket_code_def split: option.splits)
  show ?thesis
    using assms m e other [of "''liability''"] other [of "''dispute''"] other [of "''unallocated''"]
    by (auto simp: classifyAccountCode_def bucket_code_def)
qed

text \<open>The balance of an account on its normal side.\<close>

definition normal_balance :: "ledger \<Rightarrow> string \<Rightarrow> int" where
  "normal_balance L c =
     (case classifyAccountCode c of
        Inr (_, spec) \<Rightarrow> if as_side spec = DEBIT then account_net c L else - account_net c L
      | Inl _ \<Rightarrow> 0)"

definition precise :: "ledger \<Rightarrow> bool" where
  "precise L \<longleftrightarrow> accounts_classified L \<and> (\<forall>c. \<bar>account_net c L\<bar> < 10 ^ 20)"

lemma precise_balance:
  assumes "precise L" and "decimal_exact rnd" and "classifyAccountCode c = Inr x"
  shows "balance_of rnd L c = Inr (normal_balance L c)"
proof -
  obtain k spec where x: "classifyAccountCode c = Inr (k, spec)" using assms(3) by (cases x) auto
  have "rnd (account_net c L) = account_net c L" using assms(1,2) by (simp add: precise_def decimal_exact_def)
  then show ?thesis using classified_balance [OF _ x] assms(1) x by (simp add: precise_def normal_balance_def)
qed

lemma bucket_balance:
  assumes "precise L" and "decimal_exact rnd" and "length (bucket_code b u) \<le> 80"
    and "b = ''liability'' \<or> b = ''dispute'' \<or> b = ''unallocated''"
  shows "balance_of rnd L (bucket_code b u) = Inr (- account_net (bucket_code b u) L)"
  using classify_bucket [OF assms(3,4)] precise_balance [OF assms(1,2)]
  by (auto simp: normal_balance_def liability_spec_def spec_of_def)

lemma escrow_codes_classified: "accounts_classified L \<Longrightarrow> c \<in> set (escrow_codes u L) \<Longrightarrow> \<exists>x. classifyAccountCode c = Inr x"
  by (cases "classifyAccountCode c") (auto simp: escrow_codes_def accounts_classified_def account_ok_def)

lemma decimal_sum_signed:
  assumes "decimal_exact rnd" and "sum_list (map abs xs) < 10 ^ 20"
  shows "decimal_sum rnd xs = sum_list xs"
proof -
  have "foldl (\<lambda>acc x. rnd (acc + x)) a xs = a + sum_list xs" if "\<bar>a\<bar> + sum_list (map abs xs) < 10 ^ 20" for a
    using that
  proof (induction xs arbitrary: a)
    case (Cons x xs)
    have "0 \<le> sum_list (map abs xs)" by (rule sum_list_nonneg) auto
    with Cons.prems have "\<bar>a + x\<bar> < 10 ^ 20" by simp
    with assms(1) have "rnd (a + x) = a + x" by (simp add: decimal_exact_def)
    moreover have "\<bar>a + x\<bar> + sum_list (map abs xs) < 10 ^ 20" using Cons.prems by simp
    ultimately show ?case using Cons.IH by simp
  qed simp
  from this [of 0] show ?thesis using assms(2) by (simp add: decimal_sum_def)
qed

lemma traverse_sum_map: "(\<And>x. x \<in> set xs \<Longrightarrow> f x = Inr (g x)) \<Longrightarrow> traverse_sum f xs = Inr (map g xs)"
  by (induction xs) auto

lemma escrow_total_exact:
  assumes "precise L" and "decimal_exact rnd" and "sum_list (map (\<lambda>c. \<bar>normal_balance L c\<bar>) (escrow_codes u L)) < 10 ^ 20"
  shows "escrow_total rnd L u = Inr (sum_list (map (normal_balance L) (escrow_codes u L)))"
proof -
  have "traverse_sum (balance_of rnd L) (escrow_codes u L) = Inr (map (normal_balance L) (escrow_codes u L))"
    by (rule traverse_sum_map)
      (use precise_balance [OF assms(1,2)] escrow_codes_classified assms(1) in \<open>fastforce simp: precise_def\<close>)
  then show ?thesis
    using decimal_sum_signed [OF assms(2), of "map (normal_balance L) (escrow_codes u L)"] assms(3)
    by (simp add: escrow_total_def comp_def)
qed

section \<open>The exact custody report\<close>

definition exact_expected :: "custody_db \<Rightarrow> (string \<times> int) list" where
  "exact_expected s =
     (let total = (\<lambda>st. 100 * sum_rows cm_amountBaseUnits (movement_bucket s st True)) in
      [(''custody:deposit:usdc'', total VERIFIED),
       (''clearing:custody:unverified:usdc'', total CANDIDATE + sum_list (untracked_debits s)),
       (''clearing:custody:rejected:usdc'', total FAILED)])"

lemma fits_bucket:
  assumes "report_fits s"
  shows "100 * sum_rows cm_amountBaseUnits (movement_bucket s st True) < 10 ^ 20"
proof -
  have "0 \<le> sum_list (map abs (untracked_debits s))" by (rule sum_list_nonneg) auto
  moreover have "100 * sum_rows cm_amountBaseUnits (movement_bucket s st True) + sum_list (map abs (untracked_debits s)) < 10 ^ 20"
    using assms by (simp add: report_fits_def)
  ultimately show ?thesis by linarith
qed

lemma expected_exact:
  assumes inv: "wide_inv s" and rnd: "decimal_exact rnd" and fits: "report_fits s"
  shows "expected_balances rnd s = exact_expected s"
proof -
  let ?c = "\<lambda>st. 100 * sum_rows cm_amountBaseUnits (movement_bucket s st True)"
  have pos: "0 \<le> ?c st" for st using bucket_nonneg [OF inv] by simp
  have c: "rnd (?c st) = ?c st" for st using rnd pos [of st] fits_bucket [OF fits, of st] by (simp add: decimal_exact_def)
  have b: "?c CANDIDATE + sum_list (map abs (untracked_debits s)) < 10 ^ 20" using fits by (simp add: report_fits_def)
  have u: "decimal_sum rnd (untracked_debits s) = sum_list (untracked_debits s)"
    by (rule decimal_sum_signed [OF rnd]) (use b pos [of CANDIDATE] in linarith)
  have "\<bar>?c CANDIDATE + sum_list (untracked_debits s)\<bar> < 10 ^ 20"
    using b pos [of CANDIDATE] sum_list_abs [of "untracked_debits s"] by linarith
  then have "rnd (?c CANDIDATE + sum_list (untracked_debits s)) = ?c CANDIDATE + sum_list (untracked_debits s)"
    using rnd unfolding decimal_exact_def by blast
  then show ?thesis using c u by (simp add: expected_balances_def exact_expected_def baseToDecimal_def untracked_debits_def Let_def)
qed

lemma settled_net:
  assumes inv: "wide_inv s" and way: "(st, acct, pre) \<in> set settlement_ways"
  shows "account_net acct (cd_ledger s) = 100 * booked_total pre st (cd_movements s) (cd_ledger s)"
    and "0 \<le> booked_total pre st (cd_movements s) (cd_ledger s)"
proof -
  show "account_net acct (cd_ledger s) = 100 * booked_total pre st (cd_movements s) (cd_ledger s)"
    using assms by (auto simp: wide_inv_def wide_books_def)
  show "0 \<le> booked_total pre st (cd_movements s) (cd_ledger s)"
    unfolding booked_total_def
    by (rule sum_rows_nonneg) (use inv in \<open>auto simp: wide_inv_def wide_books_def list_all_iff sound_deposit_def dest!: bspec\<close>)
qed

lemma report_exact:
  assumes inv: "wide_inv s" and rnd: "decimal_exact rnd" and fits: "report_fits s"
  obtains r where "reconcileCustodyPostings rnd s = Inr r"
    and "\<And>code. reported code r = (case map_of (exact_expected s) code of None \<Rightarrow> {}
        | Some x \<Rightarrow> if account_net code (cd_ledger s) = x then {} else {disagree rnd (account_net code (cd_ledger s)) x})"
proof -
  have b: "balance_of rnd (cd_ledger s) c = Inr (account_net c (cd_ledger s))" if "c \<in> set custody_accounts" for c
    using custody_balance [OF _ that] rnd fits inv that by (simp add: report_fits_def wide_inv_def wide_books_def decimal_exact_def)
  let ?fs = "\<lambda>(code, x). if account_net code (cd_ledger s) = x then []
      else [CUSTODY_LEDGER_DISAGREEMENT code (disagree rnd (account_net code (cd_ledger s)) x)]"
  let ?r = "\<lparr>cr_exceptions = concat (map ?fs (exact_expected s)), cr_withJournal = report_buckets rnd s True,
      cr_withoutJournal = report_buckets rnd s False,
      cr_untracked = (length (untracked_journals s), decimal_sum rnd (untracked_debits s))\<rparr>"
  have "reconcileCustodyPostings rnd s = Inr ?r"
    using b by (simp add: reconcileCustodyPostings_def expected_exact [OF assms] exact_expected_def custody_accounts_def
        untracked_debits_def Let_def)
  moreover have "reported code ?r = (case map_of (exact_expected s) code of None \<Rightarrow> {}
        | Some x \<Rightarrow> if account_net code (cd_ledger s) = x then {} else {disagree rnd (account_net code (cd_ledger s)) x})" for code
    by (auto simp: reported_def exact_expected_def Let_def split: if_splits)
  ultimately show thesis by (rule that)
qed

section \<open>Properties\<close>

text \<open>C31: The custody reconciliation reports exactly the deposits that were settled without being
  reclassified. In every reachable state of the custody books, legacy deposits, backfills and redeliveries
  in another letter case included, and within decimal precision, the reconciliation returns a report in
  which the custody account (the suspense account) disagrees if and only if some verified (failed) deposit
  has a provisional journal and no reclassification journal, and then by exactly the amounts of those
  deposits; and the provisional account disagrees if and only if what it received is not what was
  reclassified plus the candidates with a journal plus the journals without a movement.\<close>

theorem custody_reconciliation_finds_unreclassified:
  assumes "wide_opening s0" and "history (wide_exec sha rnd) s0 s" and "decimal_exact rnd" and "report_fits s"
  shows "\<exists>r. reconcileCustodyPostings rnd s = Inr r \<and>
    (\<forall>(st, acct, pre) \<in> set settlement_ways.
       (reported acct r \<noteq> {} \<longleftrightarrow> unreclassified pre st s \<noteq> []) \<and>
       (\<forall>d \<in> reported acct r. dg_difference d = 100 * sum_rows cm_amountBaseUnits (unreclassified pre st s))) \<and>
    (reported ''clearing:custody:unverified:usdc'' r \<noteq> {} \<longleftrightarrow>
       received (cd_ledger s) \<noteq>
         100 * (booked_total verify_prefix VERIFIED (cd_movements s) (cd_ledger s) +
                booked_total reject_prefix FAILED (cd_movements s) (cd_ledger s) +
                sum_rows cm_amountBaseUnits (movement_bucket s CANDIDATE True)) + sum_list (untracked_debits s))"
proof -
  have inv: "wide_inv s" using cw.history_inv [OF assms(2) wide_opening_inv [OF assms(1)]] .
  obtain r where r: "reconcileCustodyPostings rnd s = Inr r"
    and rep: "\<And>code. reported code r = (case map_of (exact_expected s) code of None \<Rightarrow> {}
        | Some x \<Rightarrow> if account_net code (cd_ledger s) = x then {} else {disagree rnd (account_net code (cd_ledger s)) x})"
    using report_exact [OF inv assms(3,4)] by blast
  have ways: "(reported acct r \<noteq> {} \<longleftrightarrow> unreclassified pre st s \<noteq> []) \<and>
       (\<forall>d \<in> reported acct r. dg_difference d = 100 * sum_rows cm_amountBaseUnits (unreclassified pre st s))"
    if w: "(st, acct, pre) \<in> set settlement_ways" for st acct pre
  proof -
    let ?x = "100 * sum_rows cm_amountBaseUnits (movement_bucket s st True)"
    have n: "?x - account_net acct (cd_ledger s) = 100 * sum_rows cm_amountBaseUnits (unreclassified pre st s)"
      "0 \<le> account_net acct (cd_ledger s)"
      using bucket_split [OF inv w] settled_net [OF inv w] by simp_all
    have "map_of (exact_expected s) acct = Some ?x" using w by (auto simp: settlement_ways_def exact_expected_def)
    then have "reported acct r = (if unreclassified pre st s = [] then {} else {disagree rnd (account_net acct (cd_ledger s)) ?x})"
      using rep [of acct] n(1) unreclassified_sum(2) [OF inv, of pre st] by auto
    moreover have "rnd (?x - account_net acct (cd_ledger s)) = ?x - account_net acct (cd_ledger s)"
      using n unreclassified_sum(1) [OF inv, of pre st] fits_bucket [OF assms(4), of st] assms(3) by (simp add: decimal_exact_def)
    ultimately show ?thesis using n(1) by (simp add: disagree_def)
  qed
  moreover have "account_net ''clearing:custody:unverified:usdc'' (cd_ledger s) = received (cd_ledger s) -
      100 * (booked_total verify_prefix VERIFIED (cd_movements s) (cd_ledger s) + booked_total reject_prefix FAILED (cd_movements s) (cd_ledger s))"
    using inv keyed_net_split [of "''clearing:custody:unverified:usdc''" "cd_ledger s" reclass_key]
    by (simp add: wide_inv_def wide_books_def received_def)
  then have "reported ''clearing:custody:unverified:usdc'' r \<noteq> {} \<longleftrightarrow>
       received (cd_ledger s) \<noteq>
         100 * (booked_total verify_prefix VERIFIED (cd_movements s) (cd_ledger s) +
                booked_total reject_prefix FAILED (cd_movements s) (cd_ledger s) +
                sum_rows cm_amountBaseUnits (movement_bucket s CANDIDATE True)) + sum_list (untracked_debits s)"
    using rep [of "''clearing:custody:unverified:usdc''"] by (auto simp: exact_expected_def)
  ultimately show ?thesis using r by blast
qed

theorem custody_reconciliation_finds_unreclassified_witness:
  "\<exists>s r. cd_movements s = [sample_candidate] \<and> reconcileCustodyPostings id s = Inr r \<and> reported ''custody:deposit:usdc'' r = {} \<and>
     reported ''clearing:custody:unverified:usdc'' r = {}"
proof -
  obtain s t where h: "history (wide_exec id id) sample_books s" and m: "cd_movements s = [sample_candidate]"
    and inv: "custody_inv s" and n: "account_net ''clearing:custody:unverified:usdc'' (cd_ledger s) = 250000000"
    by (rule sample_wide)
  have c: "cm_kind sample_candidate = DEPOSIT_IN" "cm_amountBaseUnits sample_candidate = 2500000" "cm_status sample_candidate = CANDIDATE"
    by (simp_all add: sample_candidate_def deposit_candidate_def)
  have u: "untracked_debits s = []" by (simp add: untracked_debits_def reachable_journals(1) [OF inv])
  have b: "movement_bucket s st True = (if st = CANDIDATE then [sample_candidate] else [])" for st
    using c by (auto simp: reachable_bucket(1) [OF inv] deposits_with_def m)
  have "report_fits s"
    using inv n c by (simp add: report_fits_def b u custody_inv_def nets_follow_movements_def custody_accounts_def m staged_def)
  from custody_reconciliation_finds_unreclassified [OF sample_wide_opening h decimal_exact_id this]
  obtain r where r: "reconcileCustodyPostings id s = Inr r" "reported ''custody:deposit:usdc'' r = {}"
    and p: "reported ''clearing:custody:unverified:usdc'' r = {} \<longleftrightarrow> received (cd_ledger s) = 250000000"
    by (auto simp: settlement_ways_def unreclassified_def b u booked_total_def m c)
  have "wide_inv s" using cw.history_inv [OF h wide_opening_inv [OF sample_wide_opening]] .
  then have "received (cd_ledger s) = 250000000"
    using n keyed_net_split [of "''clearing:custody:unverified:usdc''" "cd_ledger s" reclass_key]
    by (simp add: wide_inv_def wide_books_def received_def booked_total_def m c)
  with r p m show ?thesis by blast
qed

lemma ledger_steps_classified: "ledger_steps sha rnd L L' \<Longrightarrow> accounts_classified L \<Longrightarrow> accounts_classified L'"
proof (induction rule: ledger_steps.induct)
  case (step L L1 ch p has_tx r L2)
  obtain y L3 where y: "post sha rnd ch has_tx p L1 = (y, L3)" by fastforce
  with step post_classified [OF y] show ?case by (cases y) (auto simp: transaction_def)
qed simp

text \<open>The conversion clearing check can never fail. It compares the balance of the account with the
  sum of the same journal lines, so in every reachable ledger, whatever was posted to
  \<open>clearing:conversion\<close>, it reports nothing.\<close>

theorem clearing_check_is_vacuous:
  assumes "ledger_steps sha rnd empty_ledger L"
  shows "\<exists>b. reconcileClearingConversion rnd L = Inr ([], b)"
proof -
  have c: "classifyAccountCode ''clearing:conversion'' = Inr (CANONICAL, spec_of CLEARING DEBIT ''USDC'' None)"
    by (simp add: classifyAccountCode_def CANONICAL_ACCOUNTS_def user_account_match_def escrow_account_match_def between_def)
  have "balance_of rnd L ''clearing:conversion'' = Inr (rnd (account_net ''clearing:conversion'' L))"
    using classified_balance [OF ledger_steps_classified [OF assms empty_classified] c] by (simp add: spec_of_def)
  then show ?thesis by (simp add: reconcileClearingConversion_def account_net_balance Let_def)
qed

theorem clearing_check_is_vacuous_witness: "\<exists>L b. length (entries L) = 2 \<and> reconcileClearingConversion id L = Inr ([], b)"
proof -
  obtain res L where p: "post id id (calm ''t1'') True escrow_posting empty_ledger = (Inr res, L)"
    and e: "entries L = make_entries (calm ''t1'') escrow_posting 1 escrow_lines"
    by (rule escrow_posting_posts)
  have "length (entries L) = 2" using e by (simp add: escrow_lines_def)
  with clearing_check_is_vacuous [OF escrow_history [OF p]] show ?thesis by blast
qed

text \<open>C32: The report on a user is empty exactly when the balances agree. Within decimal precision the
  reconciliation of a user reports nothing if and only if the user exists and the available, escrow,
  dispute and unallocated balances of the row are the balances of the user's ledger accounts.\<close>

theorem user_report_iff_balances_agree:
  assumes "precise (cd_ledger s)" and "decimal_exact rnd" and "length (bucket_code ''unallocated'' u) \<le> 80"
    and "sum_list (map (\<lambda>c. \<bar>normal_balance (cd_ledger s) c\<bar>) (escrow_codes u (cd_ledger s))) < 10 ^ 20"
  shows "reconcile_user rnd s u = Inr [] \<longleftrightarrow>
    (\<exists>x. find_by ur_id u (cd_users s) = Some x \<and>
       ur_availableBalance x = - account_net (user_liability_code u) (cd_ledger s) \<and>
       ur_escrowLockedBalance x = sum_list (map (normal_balance (cd_ledger s)) (escrow_codes u (cd_ledger s))) \<and>
       ur_disputeEscrowBalance x = - account_net (bucket_code ''dispute'' u) (cd_ledger s) \<and>
       ur_vendorUnallocatedBalance x = - account_net (bucket_code ''unallocated'' u) (cd_ledger s))"
proof -
  have b: "balance_of rnd (cd_ledger s) (bucket_code b u) = Inr (- account_net (bucket_code b u) (cd_ledger s))"
    if "b = ''liability'' \<or> b = ''dispute'' \<or> b = ''unallocated''" for b
    by (rule bucket_balance [OF assms(1,2) _ that]) (use assms(3) that in \<open>auto simp: bucket_code_def\<close>)
  have l: "userLiabilityBalance rnd (cd_ledger s) u = Inr (- account_net (user_liability_code u) (cd_ledger s))"
    using b [of "''liability''"] by (simp add: userLiabilityBalance_def balance_of_def bucket_code_def user_liability_code_def)
  note e = escrow_total_exact [OF assms(1,2,4)]
  show ?thesis
    using l e b [of "''dispute''"] b [of "''unallocated''"]
    by (auto simp: reconcile_user_def bucket_findings_def bucket_code_def split: option.splits)
qed

theorem user_report_iff_balances_agree_witness: "reconcile_user id sample_books 7 = Inr []"
proof -
  have "precise (cd_ledger sample_books)" "escrow_codes 7 (cd_ledger sample_books) = []"
    by (simp_all add: sample_books_def precise_def account_net_def empty_ledger_def [symmetric] escrow_codes_def)
      (simp_all add: empty_ledger_def)
  moreover have "length (bucket_code ''unallocated'' 7) \<le> 80" by (simp add: bucket_code_def show_nat.simps)
  ultimately show ?thesis
    using user_report_iff_balances_agree [of sample_books id 7] decimal_exact_id
    by (simp add: sample_books_def sample_user_def account_net_def) (simp add: empty_ledger_def)
qed

definition projection_gap :: "custody_db \<Rightarrow> nat \<Rightarrow> int option" where
  "projection_gap s u =
     map_option (\<lambda>x. ur_availableBalance x + account_net (user_liability_code u) (cd_ledger s)) (find_by ur_id u (cd_users s))"

text \<open>C33: The float credit of a webhook is the drift of the projection. In a canonical history a confirmed webhook moves the gap
  between the user's balance row and the user's ledger liability by exactly the difference between the
  credited floating-point amount and the exact amount that was posted, and by nothing else.\<close>

theorem float_credit_is_the_drift:
  assumes "opening_books s0" and "history (custody_exec sha rnd) s0 s" and d: "deliverable fl sig b s u w h n"
    and "find_by ur_id u (cd_users s) \<noteq> None" and "fst (ensureDepositAccount ch w s) = Inr account"
    and "\<not> cc_raced ch" and "undisturbed (cc_ledger ch)" and "decimal_exact rnd" and "0 < n" "n < 10 ^ 18"
    and "h \<noteq> []" "length h \<le> 118" and "length (user_liability_code u) \<le> 80"
  shows "\<exists>r t. tatumCryptoWebhook sha rnd fl id ch sig b s = (Confirmed r, t) \<and>
    projection_gap t u =
      map_option (\<lambda>g. g + (fl_credit fl (fl_amount fl (wb_amount b)) - 100 * int n)) (projection_gap s u)"
proof -
  have inv: "custody_inv s" using cb.history_inv [OF assms(2) opening_inv [OF assms(1)]] .
  have new: "Some h \<notin> hashes s" using d by (simp add: deliverable_def)
  have p: "postable rnd n (cc_ledger ch) (provisional_prefix @ h) (cd_ledger s)"
    using inv new assms(7-) by (auto simp: postable_def custody_inv_def keys_follow_movements_def provisional_prefix_def)
  let ?a = "fl_credit fl (fl_amount fl (wb_amount b))"
  obtain t where c: "credit_tx sha rnd ch u w h ?a n s = (Inr (deposit_history ch u ?a h), t)"
    and t: "cd_users t = update_by (\<lambda>x. ur_id x = u) (\<lambda>x. x\<lparr>ur_availableBalance := ur_availableBalance x + ?a\<rparr>) (cd_users s)"
      "cd_history t = cd_history s @ [deposit_history ch u ?a h]"
      "cd_movements t = cd_movements s @
        (if deposit_key w h \<in> cm_idempotencyKey ` set (cd_movements s) then []
         else [deposit_candidate ch w h (int n) (Some (cc_history ch)) account])"
      "\<forall>c. account_net c (cd_ledger t) = account_net c (cd_ledger s) +
        (if c = ''clearing:custody:unverified:usdc'' then 100 * int n else 0) - (if c = user_liability_code u then 100 * int n else 0)"
      "booked_key (provisional_prefix @ h) (cd_ledger t)" "cd_wallets t = cd_wallets s" "cd_evidence t = cd_evidence s"
      "cd_accounts t = cd_accounts (snd (ensureDepositAccount ch w s))"
    by (rule credit_progress [where sha = sha and a = ?a, OF assms(4) new assms(5) assms(11) assms(6) p assms(13)])
  have "tatumCryptoWebhook sha rnd fl id ch sig b s = (Confirmed (deposit_history ch u ?a h), t)"
    using deliverable_webhook [OF d] c by (simp add: transaction_def)
  moreover have "projection_gap t u = map_option (\<lambda>g. g + (?a - 100 * int n)) (projection_gap s u)"
    using assms(4) t(1,4) by (auto simp: projection_gap_def find_by_update_by user_liability_code_def)
  ultimately show ?thesis by blast
qed

theorem float_credit_is_the_drift_witness:
  "\<exists>r t. tatumCryptoWebhook id id \<lparr>fl_amount = (\<lambda>_. 5 / 2), fl_credit = (\<lambda>_. 249999999)\<rparr> id (sample_choice ''m1'') sample_signature
      (sample_webhook ''0xfe'') sample_books = (Confirmed r, t) \<and> projection_gap t 7 = Some (- 1)"
proof -
  let ?fl = "\<lparr>fl_amount = (\<lambda>_. 5 / 2), fl_credit = (\<lambda>_. 249999999)\<rparr> :: float_path"
  have d: "deliverable ?fl sample_signature (sample_webhook ''0xfe'') sample_books 7 sample_wallet ''0xfe'' 2500000"
    by (rule sample_deliverable) (simp_all add: sample_books_def hashes_def)
  have u: "find_by ur_id 7 (cd_users sample_books) \<noteq> None" by (simp add: sample_books_def sample_user_def)
  have a: "fst (ensureDepositAccount (sample_choice ''m1'') sample_wallet sample_books) = Inr sample_account"
    by (simp add: sample_account_kept sample_books_def)
  have g: "projection_gap sample_books 7 = Some 0"
    by (simp add: projection_gap_def sample_books_def sample_user_def account_net_def) (simp add: empty_ledger_def)
  have l: "length (user_liability_code 7) \<le> 80" by (simp add: user_liability_code_def show_nat.simps)
  from float_credit_is_the_drift [OF sample_opening(1) history.stop d u a sample_undisturbed(2,1) decimal_exact_id _ _ _ _ l] g
  show ?thesis by simp
qed

end
