(* ===== verification/Spec2Isabelle.thy ===== *)
theory Spec2Isabelle
  imports Fiat_Guarantees Inventory Restricted_Obligations Liquidity_Authority Settlement_Attempts Payout_Ownership Smart_Route
    Route_Policy Financial_Idempotency Exact_Invoice Azm_Staking Deposit_Machine
    Ledger_Reconciliation
begin

text \<open>
  Verification of the financial core of the AZM backend: the services that own money, the
  records that prove a provider moved it, and the authorities that keep a retried or
  concurrent request from moving it twice.

  \<^bold>\<open>The program.\<close> The backend is a Node.js application over PostgreSQL. Controllers and workers
  call services; a service validates its input, runs one interactive transaction, and relies on
  unique indexes and conditional updates (\<open>updateMany\<close> with a \<open>where\<close> on the expected status)
  instead of locks. Money is kept in Decimal columns. The parts modelled here and how they
  depend on each other:

  \<^item> \<^verbatim>\<open>services/ledgerService.js\<close>: the authoritative double-entry ledger. Every other money
    service posts through it. Theories \<open>Exact_Quantity\<close> (the exact-decimal entry parser, values at
    the JavaScript boundary), \<open>Ledger\<close> (chart of accounts, validation, posting hash, the posting
    primitive, balances), \<open>Ledger_Run\<close> (interleaved histories: balanced books, exactly-once
    posting, replay, no key reuse with other economics, exact effect on accounts) and
    \<open>Ledger_Accept\<close> (which postings are always accepted).
  \<^item> \<^verbatim>\<open>services/inventoryService.js\<close>: USDC lots bought into the inventory with a ledger posting and
    consumed by a single-winner claim. Theory \<open>Inventory\<close> (conservation per lot and against the
    ledger, with what other services post to the lots account kept apart by its keys; exactly-once
    consumption).
  \<^item> \<^verbatim>\<open>services/restrictedObligationService.js\<close>: obligations for money on its way out and the
    proof-of-reserves denominator. Theory \<open>Restricted_Obligations\<close>.
  \<^item> \<^verbatim>\<open>services/reconciliationExceptionService.js\<close>: the exception queue and its savepoint-wrapped
    write on a PostgreSQL session. Theory \<open>Recon_Exceptions\<close>.
  \<^item> \<^verbatim>\<open>src/services/fiatLiquidityService.js\<close>: the evidence-backed cedi liquidity authority.
    Theories \<open>Liquidity_Tables\<close> (rows, buckets, moves), \<open>Liquidity_Evidence\<close> (provider
    observations), \<open>Liquidity_Contract\<close> (the contract every operation meets, as a locale),
    \<open>Liquidity_Receipts\<close>, \<open>Liquidity_Reservations\<close> and \<open>Liquidity_Authority\<close> (histories,
    reconciliation, and the properties of the whole).
  \<^item> \<^verbatim>\<open>services/providerSettlementAttemptService.js\<close>: provider callbacks recorded per provider
    reference. Theory \<open>Settlement_Attempts\<close>.
  \<^item> \<^verbatim>\<open>services/payoutProviderOwnership.js\<close>: which provider owns a payout, from the guarded write and
    from the dispatch evidence of the liquidity authority. Theory \<open>Payout_Ownership\<close>.
  \<^item> \<^verbatim>\<open>services/smartRouteOccurrence.js\<close> and \<open>_finalizeRunInTx\<close> of
    \<^verbatim>\<open>services/smartRouteService.js\<close>: the cadence of recurring routes and the projection of a payout's
    outcome onto its run and the route's statistics. Theory \<open>Smart_Route\<close>.
  \<^item> \<^verbatim>\<open>src/services/routePolicyService.js\<close>: deposit routes, rails and settlement webhooks. Theory
    \<open>Route_Policy\<close>.
  \<^item> \<^verbatim>\<open>middleware/idempotency.js\<close>: the authority that lets one request per user, endpoint and key
    reach a handler. Theories \<open>Canonical_Payload\<close> (the payload text identifies the payload) and
    \<open>Financial_Idempotency\<close> (claims, answers, dispositions, and a step relation of requests,
    handlers, responses and crashes).
  \<^item> \<^verbatim>\<open>utils/exactInvoiceMath.js\<close>: invoice arithmetic on the ledger's parser. Theory
    \<open>Exact_Invoice\<close>.
  \<^item> \<^verbatim>\<open>services/custodyEvidenceProvider.js\<close>, \<^verbatim>\<open>services/custodyAccountingService.js\<close> and the crypto
    webhook of \<^verbatim>\<open>controllers/depositController.js\<close>: what the chain provider answers, the custody
    accounts, movements and evidence, and the credit of a deposit. Theories \<open>Custody_Evidence\<close> (exact
    amounts, the provider adapters), \<open>Custody_Accounting\<close> (every operation of the service),
    \<open>Crypto_Deposit\<close> (ownership and the webhook), \<open>Custody_Books\<close> (the invariant that ties the movements
    to three ledger accounts, over the canonical histories in which a deposit, its movement and its journal
    come together), \<open>Custody_Outcome\<close> (progress of a webhook and of a candidate, and the properties of
    canonical histories), \<open>Custody_Wide\<close> (the books over the histories the deployed system has, with
    legacy deposits, backfilled movements and hashes in any letter case) and \<open>Deposit_Machine\<close> (the
    abstract machine of deposits that those books refine).
  \<^item> \<^verbatim>\<open>services/ledgerReconciliationService.js\<close>: the read models that compare the ledger with the user
    rows, the custody movements, the completed deposits and the obligations. Theory
    \<open>Ledger_Reconciliation\<close>, which composes the ledger and the custody books.
  \<^item> \<^verbatim>\<open>services/azmStakeService.js\<close> and \<^verbatim>\<open>services/nitroPolicy.js\<close>: staking and tiers. Theory
    \<open>Azm_Staking\<close>. \<^verbatim>\<open>services/azmSpendService.js\<close>: the AZM taken from a user's balance or collateral
    for a fee. Theory \<open>Azm_Spend\<close>.
  \<^item> \<^verbatim>\<open>services/finance.service.js\<close> and \<^verbatim>\<open>utils/securityCheck.js\<close>: the reservation of a cedi withdrawal, its
    completion and its reversal, and the balance audit that guards the next one. They compose the
    ledger, the liquidity authority, AZM spending and the obligations. Theories \<open>Fiat_Withdrawal\<close>
    (the three operations and the audit, in the code's order), \<open>Fiat_Books\<close> (the invariant that ties
    the withdrawal rows to the user rows, the obligations and the service's journals on the reserve
    account), \<open>Fiat_Outcome\<close> (histories, in which other services may move balances, the reserve account and
    everything else but the service's own rows: every row keeps to its state machine and the invariant
    holds), \<open>Fiat_Progress\<close>
    (when an operation is accepted), \<open>Balance_Audit\<close> (how the audit's drift moves) and
    \<open>Fiat_Guarantees\<close> (the properties of the whole).

  \<^bold>\<open>Shared theories.\<close> \<open>Azm_Prelude\<close> has results with an error branch, tables as lists of
  records with lookup, update and sums, and decimal texts; \<open>Json_Text\<close> and \<open>Js_Text\<close> the parts of
  \<open>JSON.stringify\<close>, truthiness, case mapping and property access the code uses; \<open>Js_Number\<close> the
  values that may be a number, a string or a decimal and their sums.
  \<open>Conditional_Claim\<close> is the locale of the status-guarded update: one winner, nothing else moves.
  \<open>Interleaving\<close> is the locale of a service under interference.

  \<^bold>\<open>Conventions.\<close> A table is a list of records, a database a record of tables. An operation takes
  the state and returns a result with the state after it; an error is a value, and a raised
  error undoes the transaction. Where an operation reads and later writes, the parameter \<open>env\<close>
  is what the other transactions did in between, so the conditional update sees a later state
  than the read. In a history that interference is itself a history: calls that start and finish between
  the read and the write of another, nested to any depth. Amounts are integers in the smallest unit of their column.
  Generated ids, the clock and database failures are arguments. There is no fuel: loops are
  structural or have a termination proof.

  \<^bold>\<open>Third-party code\<close> is a parameter: SHA-256 (\<open>sha\<close>, \<open>sha256\<close>), the Decimal string parser
  (\<open>parse\<close>), the rounding of decimal.js (\<open>rnd\<close>, \<open>prec\<close>), the floating-point conversions of the legacy balance
  (\<open>float_path\<close>) and the chain provider's answers, with the documented facts used of them as named
  hypotheses (\<open>decimal_exact\<close>, \<open>keeps_20_digits\<close>).

  \<^bold>\<open>Other services.\<close> The parts share the ledger, the user rows and the history table with code that is
  not modelled. The histories give that code as much freedom as the tables' constraints leave: it may
  post anything to the ledger, also to the accounts a property is about, and change any balance. What it
  does not do is write the rows a service owns, or post under the service's idempotency keys. The
  properties therefore count what was booked under those keys (\<open>keyed_net\<close>) and state the rest of an
  account as a separate term. The exceptions are the custody and the suspense account, which only the
  custody service uses, and the canonical custody histories, whose conditions are said there.

  \<^bold>\<open>What the properties show.\<close> Conservation: the liquidity buckets, the ledger, the lots, the
  obligations, the custody accounts and a route's statistics agree with the rows they summarise in every
  reachable state, and a staking call keeps a staker's wealth. Exactly once: a key, a conversion, a consumption, a deposit, a
  reservation, an idempotency claim and an ownership take effect at most once, and a replay
  returns the committed result. Exactness: accepted quantities, invoice totals and texts lose
  nothing. Progress: a candidate with matching evidence is verified, a funded withdrawal is reserved, an
  open one can always be refunded. Reports: the custody reconciliation finds exactly the deposits that were
  settled without a reclassification, the user report exactly the balances that differ. Errors: a contradiction is
  quarantined or retained and never moves money. Some
  theorems record what the code does against its intention: a reversal racing a finalisation
  miscounts, a stake halfway between two units of the column creates a unit, quarantined payments misreconcile, a
  percentage above 20 digits is rounded twice, a redelivered hash in another letter case is credited
  again, an unindexed transaction is rejected for good, the custody backfill stops at old rows, the
  check of the conversion clearing account compares it with itself, a referred withdrawal whose fee
  is an odd number of smallest units never settles, and the balance audit refuses a user who has an
  open withdrawal or was paid a referral reward.

  \<^bold>\<open>Simplifications.\<close> The reads inside one reconciliation are one snapshot. Column length limits
  are not modelled except where the code checks them. The server's time zone is a constant
  offset. Case mapping covers ASCII letters. Free-form metadata, log lines and socket events are
  left out. A transaction that has updated a user's row runs alone on it. Generated ids are new.
  The middleware's step relation relies on the contract it documents for handlers: one that has moved money
  never releases its claim. A withdrawal transaction runs alone from
  its first write; the withdrawal histories start without rows of the old format, and the
  progress theorems are about the regime with the liquidity authority off. The text of a provider
  response is an argument. A table the code reads in the order of
  creation is listed in that order.

  \<^bold>\<open>Not modelled\<close>, and planned in this order: the settlement orchestrators
  (\<^verbatim>\<open>services/fiatSettlementService.js\<close>, \<^verbatim>\<open>src/services/moolreDepositSettlement.js\<close>), which compose
  the parts above; the Model B settlement, which posts to the lots account; the wallet and crypto
  withdrawals of the controllers, and quotes; custody execution and recovery; escrow, P2P trading and
  payroll. HTTP routing, sockets, workers, provider adapters
  and administration are I/O and CRUD.
\<close>

end
